(* ===== verification/Kroll_Prelude.thy ===== *)
theory Kroll_Prelude
  imports Main "HOL-Library.Word" "HOL-Library.Char_ord" "HOL-Library.List_Lexorder"
begin

text \<open>
  Shared vocabulary of the development: the machine integers the sources use, the part of
  \<^verbatim>\<open>std::string\<close> the sources call (positions are natural numbers, \<^verbatim>\<open>npos\<close> is
  \<^const>\<open>None\<close>, a position past the end is an \<^verbatim>\<open>std::out_of_range\<close>), C strings
  (everything up to the first NUL), and the generic list facts that the component theories use.
\<close>

named_theorems str_simps \<open>evaluation rules for the string library\<close>
named_theorems kroll_defs \<open>definitions unfolded when a component operation is run\<close>

type_synonym int32 = "32 word"
type_synonym uint32 = "32 word"

section \<open>Lists\<close>

lemma find_upt_Some_iff:
  "List.find P [a..<b] = Some i \<longleftrightarrow> a \<le> i \<and> i < b \<and> P i \<and> (\<forall>j. a \<le> j \<longrightarrow> j < i \<longrightarrow> \<not> P j)"
proof -
  have "List.find P [a..<b] = Some i \<longleftrightarrow>
        (\<exists>n < b - a. P (a + n) \<and> i = a + n \<and> (\<forall>m < n. \<not> P (a + m)))"
    by (auto simp: find_Some_iff)
  also have "\<dots> \<longleftrightarrow> a \<le> i \<and> i < b \<and> P i \<and> (\<forall>j. a \<le> j \<longrightarrow> j < i \<longrightarrow> \<not> P j)"
    (is "?l \<longleftrightarrow> ?r")
  proof
    assume ?l
    then obtain n where n: "n < b - a" "P (a + n)" "i = a + n" "\<forall>m < n. \<not> P (a + m)" by blast
    have "\<not> P j" if "a \<le> j" "j < i" for j
      using n(3,4) that by (metis add_less_cancel_left le_add_diff_inverse)
    with n show ?r by auto
  next
    assume ?r
    then show ?l by (intro exI [of _ "i - a"]) auto
  qed
  finally show ?thesis .
qed

lemma find_upt_None_iff:
  "List.find P [a..<b] = None \<longleftrightarrow> (\<forall>i. a \<le> i \<longrightarrow> i < b \<longrightarrow> \<not> P i)"
  by (auto simp: find_None_iff)

lemma find_NoneD: "List.find P xs = None \<Longrightarrow> \<forall>x \<in> set xs. \<not> P x"
  by (induction xs) (auto split: if_splits)

lemma find_append_None: "List.find P xs = None \<Longrightarrow> List.find P (xs @ ys) = List.find P ys"
  by (induction xs) (auto split: if_splits)

lemma find_rev_upt_Some_iff:
  "List.find P (rev [a..<b]) = Some i \<longleftrightarrow>
     a \<le> i \<and> i < b \<and> P i \<and> (\<forall>j. i < j \<longrightarrow> j < b \<longrightarrow> \<not> P j)"
proof (induction b)
  case 0
  then show ?case by simp
next
  case (Suc b)
  then show ?case
    by (auto simp: less_Suc_eq)
qed

lemma find_rev_upt_None_iff:
  "List.find P (rev [a..<b]) = None \<longleftrightarrow> (\<forall>i. a \<le> i \<longrightarrow> i < b \<longrightarrow> \<not> P i)"
  by (auto simp: find_None_iff)

lemma drop_eq_Cons_nth: "i < length xs \<Longrightarrow> drop i xs = xs ! i # drop (Suc i) xs"
  by (simp add: Cons_nth_drop_Suc)

lemma takeWhile_eq_take_nth:
  assumes "n < length xs" and "\<not> P (xs ! n)" and "\<forall>i < n. P (xs ! i)"
  shows "takeWhile P xs = take n xs"
  using assms by (intro takeWhile_eq_take_P_nth) auto

fun intercalate :: "'a list \<Rightarrow> 'a list list \<Rightarrow> 'a list" where
  "intercalate sep [] = []"
| "intercalate sep [x] = x"
| "intercalate sep (x # y # ys) = x @ sep @ intercalate sep (y # ys)"

lemma intercalate_Cons: "xs \<noteq> [] \<Longrightarrow> intercalate sep (x # xs) = x @ sep @ intercalate sep xs"
  by (cases xs) simp_all

section \<open>Searching strings\<close>

text \<open>
  \<^verbatim>\<open>s.find(t, pos)\<close>, \<^verbatim>\<open>s.rfind(t, pos)\<close>, \<^verbatim>\<open>s.find_first_of(cs, pos)\<close>,
  \<^verbatim>\<open>s.find_first_not_of(cs, pos)\<close>, \<^verbatim>\<open>s.find_last_of(cs)\<close> and the throwing
  \<^verbatim>\<open>s.substr(pos, n)\<close>.
\<close>

definition matches_at :: "string \<Rightarrow> string \<Rightarrow> nat \<Rightarrow> bool" where
  "matches_at s t i \<longleftrightarrow> i + length t \<le> length s \<and> take (length t) (drop i s) = t"

definition str_find :: "string \<Rightarrow> string \<Rightarrow> nat \<Rightarrow> nat option" where
  "str_find s t pos = List.find (matches_at s t) [pos..<Suc (length s)]"

definition str_rfind :: "string \<Rightarrow> string \<Rightarrow> nat \<Rightarrow> nat option" where
  "str_rfind s t pos = List.find (matches_at s t) (rev [0..<Suc (min pos (length s))])"

definition find_first_of :: "string \<Rightarrow> string \<Rightarrow> nat \<Rightarrow> nat option" where
  "find_first_of s cs pos = List.find (\<lambda>i. s ! i \<in> set cs) [pos..<length s]"

definition find_first_not_of :: "string \<Rightarrow> string \<Rightarrow> nat \<Rightarrow> nat option" where
  "find_first_not_of s cs pos = List.find (\<lambda>i. s ! i \<notin> set cs) [pos..<length s]"

definition find_last_of :: "string \<Rightarrow> string \<Rightarrow> nat option" where
  "find_last_of s cs = List.find (\<lambda>i. s ! i \<in> set cs) (rev [0..<length s])"

definition substr :: "string \<Rightarrow> nat \<Rightarrow> nat option \<Rightarrow> string option" where
  "substr s pos n = (if pos > length s then None
     else Some (case n of None \<Rightarrow> drop pos s | Some k \<Rightarrow> take k (drop pos s)))"

text \<open>A C string read from a buffer ends before the first NUL.\<close>

definition c_str :: "string \<Rightarrow> string" where
  "c_str s = takeWhile (\<lambda>c. c \<noteq> CHR 0x00) s"

lemma c_str_idem [simp]: "c_str (c_str s) = c_str s"
  by (simp add: c_str_def takeWhile_idem)

lemma c_str_no_nul: "CHR 0x00 \<notin> set (c_str s)"
  by (auto simp: c_str_def dest: set_takeWhileD)

lemma c_str_id [simp]: "CHR 0x00 \<notin> set s \<Longrightarrow> c_str s = s"
  unfolding c_str_def by (rule takeWhile_eq_all_conv [THEN iffD2]) auto

lemma length_c_str_le: "length (c_str s) \<le> length s"
  by (simp add: c_str_def length_takeWhile_le)

lemma str_find_Some_iff:
  "str_find s t pos = Some i \<longleftrightarrow>
     pos \<le> i \<and> matches_at s t i \<and> (\<forall>j. pos \<le> j \<longrightarrow> j < i \<longrightarrow> \<not> matches_at s t j)"
  by (auto simp: str_find_def find_upt_Some_iff matches_at_def simp del: upt_Suc)

lemma str_find_None_iff:
  "str_find s t pos = None \<longleftrightarrow> (\<forall>i. pos \<le> i \<longrightarrow> \<not> matches_at s t i)"
  by (auto simp: str_find_def find_upt_None_iff matches_at_def simp del: upt_Suc)

lemma str_find_le: "str_find s t pos = Some i \<Longrightarrow> i + length t \<le> length s"
  by (auto simp: str_find_Some_iff matches_at_def)

lemma str_find_zero_iff: "str_find s t 0 = Some 0 \<longleftrightarrow> take (length t) s = t"
proof -
  have "length t \<le> length s" if "take (length t) s = t"
    using that by (metis length_take min.cobounded1)
  then show ?thesis by (auto simp: str_find_Some_iff matches_at_def)
qed

lemma str_rfind_Some_iff:
  "str_rfind s t pos = Some i \<longleftrightarrow>
     i \<le> pos \<and> matches_at s t i \<and> (\<forall>j. i < j \<longrightarrow> j \<le> pos \<longrightarrow> \<not> matches_at s t j)"
  by (auto simp: str_rfind_def find_rev_upt_Some_iff matches_at_def less_Suc_eq_le
      simp del: upt_Suc)

lemma str_rfind_None_iff:
  "str_rfind s t pos = None \<longleftrightarrow> (\<forall>i. i \<le> pos \<longrightarrow> \<not> matches_at s t i)"
  by (auto simp: str_rfind_def find_rev_upt_None_iff matches_at_def less_Suc_eq_le
      simp del: upt_Suc)

lemma matches_at_char: "matches_at s [c] i \<longleftrightarrow> i < length s \<and> s ! i = c"
  by (auto simp: matches_at_def drop_eq_Cons_nth)

lemma find_last_of_Some_iff:
  "find_last_of s cs = Some i \<longleftrightarrow>
     i < length s \<and> s ! i \<in> set cs \<and> (\<forall>j. i < j \<longrightarrow> j < length s \<longrightarrow> s ! j \<notin> set cs)"
  by (simp add: find_last_of_def find_rev_upt_Some_iff)

lemma find_last_of_None_iff: "find_last_of s cs = None \<longleftrightarrow> set s \<inter> set cs = {}"
  by (auto simp: find_last_of_def find_rev_upt_None_iff in_set_conv_nth disjoint_iff)

lemma find_first_of_Some_iff:
  "find_first_of s cs pos = Some i \<longleftrightarrow>
     pos \<le> i \<and> i < length s \<and> s ! i \<in> set cs \<and> (\<forall>j. pos \<le> j \<longrightarrow> j < i \<longrightarrow> s ! j \<notin> set cs)"
  by (simp add: find_first_of_def find_upt_Some_iff)

lemma find_first_of_None_iff:
  "find_first_of s cs pos = None \<longleftrightarrow> (\<forall>i. pos \<le> i \<longrightarrow> i < length s \<longrightarrow> s ! i \<notin> set cs)"
  by (simp add: find_first_of_def find_upt_None_iff)

lemma find_first_not_of_Some_iff:
  "find_first_not_of s cs pos = Some i \<longleftrightarrow>
     pos \<le> i \<and> i < length s \<and> s ! i \<notin> set cs \<and> (\<forall>j. pos \<le> j \<longrightarrow> j < i \<longrightarrow> s ! j \<in> set cs)"
  by (auto simp: find_first_not_of_def find_upt_Some_iff)

lemma find_first_not_of_None_iff:
  "find_first_not_of s cs pos = None \<longleftrightarrow> (\<forall>i. pos \<le> i \<longrightarrow> i < length s \<longrightarrow> s ! i \<in> set cs)"
  by (auto simp: find_first_not_of_def find_upt_None_iff)

lemma substr_Some [simp]: "pos \<le> length s \<Longrightarrow> substr s pos None = Some (drop pos s)"
  by (simp add: substr_def)

lemma substr_take [simp]: "pos \<le> length s \<Longrightarrow> substr s pos (Some k) = Some (take k (drop pos s))"
  by (simp add: substr_def)

declare matches_at_def [str_simps] str_find_def [str_simps] str_rfind_def [str_simps]
  find_first_of_def [str_simps] find_first_not_of_def [str_simps] find_last_of_def [str_simps]
  substr_def [str_simps] c_str_def [str_simps]

section \<open>Characters\<close>

text \<open>\<^verbatim>\<open>tolower\<close>, \<^verbatim>\<open>toupper\<close> and \<^verbatim>\<open>isdigit\<close> in the C locale.\<close>

definition tolower :: "char \<Rightarrow> char" where
  "tolower c = (let n = of_char c :: nat in if 65 \<le> n \<and> n \<le> 90 then char_of (n + 32) else c)"

definition toupper :: "char \<Rightarrow> char" where
  "toupper c = (let n = of_char c :: nat in if 97 \<le> n \<and> n \<le> 122 then char_of (n - 32) else c)"

definition isdigit :: "char \<Rightarrow> bool" where
  "isdigit c \<longleftrightarrow> (48::nat) \<le> of_char c \<and> of_char c \<le> (57::nat)"

lemma of_char_tolower:
  "(of_char (tolower c) :: nat) = (if 65 \<le> (of_char c :: nat) \<and> of_char c \<le> (90 :: nat)
     then of_char c + 32 else of_char c)"
  by (simp add: tolower_def Let_def)

lemma tolower_idem [simp]: "tolower (tolower c) = tolower c"
proof -
  have "(of_char (tolower (tolower c)) :: nat) = of_char (tolower c)"
    by (simp add: of_char_tolower)
  then show ?thesis by simp
qed

section \<open>Decimal numerals\<close>

text \<open>What \<^verbatim>\<open>operator<<\<close> prints for an unsigned number, and the value of a string of digits.\<close>

definition digit_char :: "nat \<Rightarrow> char" where
  "digit_char d = char_of (48 + d)"

definition digit_value :: "char \<Rightarrow> nat" where
  "digit_value c = of_char c - 48"

fun dec_of_nat :: "nat \<Rightarrow> string" where
  "dec_of_nat n = (if n < 10 then [digit_char n] else dec_of_nat (n div 10) @ [digit_char (n mod 10)])"

declare dec_of_nat.simps [simp del]

definition nat_of_dec :: "string \<Rightarrow> nat" where
  "nat_of_dec s = foldl (\<lambda>n c. n * 10 + digit_value c) 0 s"

lemma digit_value_char: "d < 10 \<Longrightarrow> digit_value (digit_char d) = d"
  by (simp add: digit_value_def digit_char_def of_char_of)

lemma isdigit_char: "d < 10 \<Longrightarrow> isdigit (digit_char d)"
  by (simp add: isdigit_def digit_char_def of_char_of)

lemma nat_of_dec_of_nat [simp]: "nat_of_dec (dec_of_nat n) = n"
proof (induction n rule: dec_of_nat.induct)
  case (1 n)
  show ?case
  proof (cases "n < 10")
    case True
    then show ?thesis
      by (simp add: dec_of_nat.simps [of n] nat_of_dec_def digit_value_char)
  next
    case False
    with 1 have "nat_of_dec (dec_of_nat (n div 10)) = n div 10" by blast
    with False show ?thesis
      by (simp add: dec_of_nat.simps [of n] nat_of_dec_def digit_value_char)
  qed
qed

lemma dec_of_nat_eq_iff [simp]: "dec_of_nat m = dec_of_nat n \<longleftrightarrow> m = n"
  by (metis nat_of_dec_of_nat)

lemma dec_of_nat_digits: "list_all isdigit (dec_of_nat n)"
proof (induction n rule: dec_of_nat.induct)
  case (1 n)
  then show ?case by (simp add: dec_of_nat.simps [of n] isdigit_char)
qed

lemma dec_of_nat_no_nul: "CHR 0x00 \<notin> set (dec_of_nat n)"
proof
  assume "CHR 0x00 \<in> set (dec_of_nat n)"
  then have "isdigit (CHR 0x00)" using dec_of_nat_digits [of n] by (auto simp: list_all_iff)
  then show False by (simp add: isdigit_def)
qed

lemma c_str_dec_of_nat [simp]: "c_str (dec_of_nat n) = dec_of_nat n"
  by (simp add: dec_of_nat_no_nul)

end
