(* ===== verification/Kroll_FileUtils.thy ===== *)
theory Kroll_FileUtils
  imports Kroll_Prelude "HOL-Library.Monad_Syntax"
begin

text \<open>
  The string side of \<^verbatim>\<open>src/api/utils/file_utils.cpp\<close>: \<^verbatim>\<open>Tokenize\<close>, \<^verbatim>\<open>Trim\<close>,
  \<^verbatim>\<open>Join\<close>, \<^verbatim>\<open>Basename\<close> and \<^verbatim>\<open>GetDirectory\<close>, for the POSIX build
  (path separator \<^verbatim>\<open>/\<close>), and the directory queries of
  \<^verbatim>\<open>src/api/utils/posix/file_utils_posix.cpp\<close> over a record of system calls.
  A \<^const>\<open>None\<close> result is an access outside a string, which C++ leaves undefined.
\<close>

section \<open>Operating system interface\<close>

text \<open>
  What the code asks the system: \<^verbatim>\<open>stat\<close> with \<^verbatim>\<open>S_ISDIR\<close> and \<^verbatim>\<open>S_ISREG\<close>, the
  entries \<^verbatim>\<open>readdir\<close> delivers (\<^const>\<open>None\<close> when \<^verbatim>\<open>opendir\<close> fails) and the contents of
  a file that can be opened for reading.
\<close>

record os =
  stat_dir :: "string \<Rightarrow> bool"
  stat_reg :: "string \<Rightarrow> bool"
  dir_entries :: "string \<Rightarrow> string list option"
  file_contents :: "string \<Rightarrow> string option"

text \<open>A file system given by its directories with their entries and its files with their contents,
  the concrete instance of the record in the examples.\<close>

definition list_os :: "(string \<times> string list) list \<Rightarrow> (string \<times> string) list \<Rightarrow> os" where
  "list_os dirs files =
     \<lparr>stat_dir = (\<lambda>p. p \<in> fst ` set dirs), stat_reg = (\<lambda>p. p \<in> fst ` set files),
      dir_entries = map_of dirs, file_contents = map_of files\<rparr>"

abbreviation KR_PATH_SEP_CHAR :: char where "KR_PATH_SEP_CHAR \<equiv> CHR ''/''"
abbreviation KR_PATH_SEP :: string where "KR_PATH_SEP \<equiv> ''/''"
abbreviation KR_PATH_SEP_OTHER :: string where "KR_PATH_SEP_OTHER \<equiv> [CHR 0x5C]"

definition IsFile :: "os \<Rightarrow> string \<Rightarrow> bool" where
  "IsFile fs file = stat_reg fs (c_str file)"

definition IsDirectory :: "os \<Rightarrow> string \<Rightarrow> bool" where
  "IsDirectory fs dir = stat_dir fs (c_str dir)"

text \<open>\<^verbatim>\<open>ListDir\<close> leaves the caller's vector alone when the path is not a directory, and
  skips every entry whose name starts with a dot.\<close>

definition ListDir :: "os \<Rightarrow> string \<Rightarrow> string list \<Rightarrow> string list" where
  "ListDir fs path files =
     (if \<not> IsDirectory fs path then files
      else case dir_entries fs (c_str path) of
             None \<Rightarrow> []
           | Some es \<Rightarrow> filter (\<lambda>fn. \<not> (take 1 fn = ''.'' \<or> take 2 fn = ''..'')) es)"

section \<open>Trim\<close>

function trim_back :: "string \<Rightarrow> string" where
  "trim_back c = (case str_rfind c '' '' (length c) of
      None \<Rightarrow> c
    | Some pos \<Rightarrow> if pos \<noteq> length c - 1 then c else trim_back (take pos c))"
  by pat_completeness auto
termination
  by (relation "measure length") (auto simp: str_rfind_Some_iff matches_at_char)

function trim_front :: "string \<Rightarrow> string" where
  "trim_front c = (if str_find c '' '' 0 \<noteq> Some 0 then c else trim_front (drop 1 c))"
  by pat_completeness auto
termination
  by (relation "measure length") (auto simp: str_find_Some_iff matches_at_char)

declare trim_back.simps [simp del] trim_front.simps [simp del]

definition Trim :: "string \<Rightarrow> string" where
  "Trim str = trim_front (trim_back str)"

text \<open>What trimming means: no spaces at either end.\<close>

definition trim_spec :: "string \<Rightarrow> string" where
  "trim_spec s = dropWhile (\<lambda>c. c = CHR '' '') (rev (dropWhile (\<lambda>c. c = CHR '' '') (rev s)))"

lemma trim_front_eq: "trim_front c = dropWhile (\<lambda>x. x = CHR '' '') c"
proof (induction c)
  case Nil
  then show ?case by (subst trim_front.simps) (simp add: str_find_zero_iff)
next
  case (Cons x c)
  then show ?case by (subst trim_front.simps) (simp add: str_find_zero_iff)
qed

lemma rfind_space_snoc:
  "str_rfind (s @ [c]) '' '' (Suc (length s)) = Some (length s) \<longleftrightarrow> c = CHR '' ''"
  by (auto simp: str_rfind_Some_iff matches_at_char)

lemma trim_back_eq: "trim_back c = rev (dropWhile (\<lambda>x. x = CHR '' '') (rev c))"
proof (induction c rule: rev_induct)
  case Nil
  have "str_rfind [] '' '' 0 = None"
    by (simp add: str_rfind_None_iff matches_at_char)
  then show ?case by (subst trim_back.simps) simp
next
  case (snoc x c)
  show ?case
  proof (cases "x = CHR '' ''")
    case True
    then have "str_rfind (c @ [x]) '' '' (length (c @ [x])) = Some (length c)"
      by (simp add: rfind_space_snoc)
    with snoc True show ?thesis
      by (subst trim_back.simps) simp
  next
    case False
    then have "str_rfind (c @ [x]) '' '' (length (c @ [x])) \<noteq> Some (length c)"
      by (simp add: rfind_space_snoc)
    with False show ?thesis
      by (subst trim_back.simps) (auto split: option.split)
  qed
qed

lemma Trim_eq: "Trim s = trim_spec s"
  by (simp add: Trim_def trim_spec_def trim_front_eq trim_back_eq)

section \<open>Tokenize\<close>

text \<open>
  The loop of \<^verbatim>\<open>Tokenize\<close>. The code computes \<^verbatim>\<open>pos\<close> from \<^verbatim>\<open>lastPos\<close> in the same way
  before the loop and at the end of its body, and a search that starts at \<^verbatim>\<open>npos\<close> gives
  \<^verbatim>\<open>npos\<close>, so the guard holds exactly when \<^verbatim>\<open>lastPos\<close> is a position.
\<close>

function tokenize_loop :: "string \<Rightarrow> string \<Rightarrow> bool \<Rightarrow> string list \<Rightarrow> nat option \<Rightarrow> string list" where
  "tokenize_loop str ds skip tokens None = tokens"
| "tokenize_loop str ds skip tokens (Some lastPos) =
     (let pos = find_first_of str ds lastPos;
          token = (case pos of None \<Rightarrow> drop lastPos str
                             | Some p \<Rightarrow> take (p - lastPos) (drop lastPos str));
          found = (skip \<and> token \<in> set tokens)
      in tokenize_loop str ds skip (if found then tokens else tokens @ [token])
           (case pos of None \<Rightarrow> None | Some p \<Rightarrow> find_first_not_of str ds p))"
  by pat_completeness auto
termination
proof (relation "measure (\<lambda>(str, ds, skip, tokens, lp).
                   case lp of None \<Rightarrow> 0 | Some i \<Rightarrow> Suc (length str - i))", goal_cases)
  case 1
  then show ?case by simp
next
  case (2 str ds skip tokens lastPos pos token found)
  show ?case
  proof (cases "case pos of None \<Rightarrow> None | Some p \<Rightarrow> find_first_not_of str ds p")
    case None
    then show ?thesis by simp
  next
    case (Some q)
    then obtain p where p: "pos = Some p" "find_first_not_of str ds p = Some q"
      by (auto split: option.splits)
    with 2(1) have "find_first_of str ds lastPos = Some p" by simp
    then have "lastPos \<le> p" "str ! p \<in> set ds"
      by (auto simp: find_first_of_Some_iff)
    moreover from p(2) have "p \<le> q" "q < length str" "str ! q \<notin> set ds"
      by (auto simp: find_first_not_of_Some_iff)
    ultimately have "p \<noteq> q" "lastPos \<le> p" "p \<le> q" "q < length str" by auto
    then have "lastPos < q" "q < length str" by auto
    with Some show ?thesis by auto
  qed
qed

declare tokenize_loop.simps(2) [simp del]

definition Tokenize :: "string \<Rightarrow> string list \<Rightarrow> string \<Rightarrow> bool \<Rightarrow> string list" where
  "Tokenize str tokens ds skip = tokenize_loop str ds skip tokens (find_first_not_of str ds 0)"

text \<open>The reference: cut at every delimiter, drop the empty pieces, and with \<open>skip\<close> keep
  only the first occurrence of each.\<close>

fun split_at :: "string \<Rightarrow> string \<Rightarrow> string list" where
  "split_at ds [] = [[]]"
| "split_at ds (c # cs) =
     (if c \<in> set ds then [] # split_at ds cs
      else (c # hd (split_at ds cs)) # tl (split_at ds cs))"

definition pieces :: "string \<Rightarrow> string \<Rightarrow> string list" where
  "pieces ds s = filter (\<lambda>t. t \<noteq> []) (split_at ds s)"

fun add_tokens :: "bool \<Rightarrow> string list \<Rightarrow> string list \<Rightarrow> string list" where
  "add_tokens skip acc [] = acc"
| "add_tokens skip acc (t # ts) =
     add_tokens skip (if skip \<and> t \<in> set acc then acc else acc @ [t]) ts"

lemma split_at_nonempty [simp]: "split_at ds s \<noteq> []"
  by (induction s) auto

lemma split_at_append_delim:
  "set t \<inter> set ds = {} \<Longrightarrow> d \<in> set ds \<Longrightarrow> split_at ds (t @ d # s) = t # split_at ds s"
  by (induction t) auto

lemma split_at_no_delim: "set t \<inter> set ds = {} \<Longrightarrow> split_at ds t = [t]"
  by (induction t) auto

lemma pieces_skip_delim: "d \<in> set ds \<Longrightarrow> pieces ds (d # s) = pieces ds s"
  by (simp add: pieces_def)

lemma pieces_dropWhile: "pieces ds (dropWhile (\<lambda>c. c \<in> set ds) s) = pieces ds s"
  by (induction s) (auto simp: pieces_skip_delim)

lemma find_first_not_of_drop:
  "find_first_not_of s ds i = Some j \<Longrightarrow> drop j s = dropWhile (\<lambda>c. c \<in> set ds) (drop i s)"
proof -
  assume "find_first_not_of s ds i = Some j"
  then have j: "i \<le> j" "j < length s" "s ! j \<notin> set ds" "\<forall>k. i \<le> k \<longrightarrow> k < j \<longrightarrow> s ! k \<in> set ds"
    by (auto simp: find_first_not_of_Some_iff)
  have "takeWhile (\<lambda>c. c \<in> set ds) (drop i s) = take (j - i) (drop i s)"
    using j by (intro takeWhile_eq_take_nth) auto
  then have "dropWhile (\<lambda>c. c \<in> set ds) (drop i s) = drop (j - i) (drop i s)"
    by (metis append_take_drop_id same_append_eq takeWhile_dropWhile_id)
  with j(1) show ?thesis by simp
qed

lemma find_first_not_of_drop_None:
  "find_first_not_of s ds i = None \<Longrightarrow> dropWhile (\<lambda>c. c \<in> set ds) (drop i s) = []"
  by (auto simp: find_first_not_of_None_iff dropWhile_eq_Nil_conv in_set_conv_nth)

lemma pieces_find_first_not_of:
  "pieces ds (drop i s) =
     (case find_first_not_of s ds i of None \<Rightarrow> [] | Some j \<Rightarrow> pieces ds (drop j s))"
proof (cases "find_first_not_of s ds i")
  case None
  from find_first_not_of_drop_None [OF this] have "pieces ds (drop i s) = pieces ds []"
    by (metis pieces_dropWhile)
  with None show ?thesis by (simp add: pieces_def)
next
  case (Some j)
  from find_first_not_of_drop [OF this] show ?thesis
    by (simp add: Some pieces_dropWhile)
qed

lemma pieces_first_token:
  assumes "lp < length s" and "s ! lp \<notin> set ds"
  shows "pieces ds (drop lp s) =
     (case find_first_of s ds lp of
        None \<Rightarrow> [drop lp s]
      | Some p \<Rightarrow> take (p - lp) (drop lp s) # pieces ds (drop p s))"
proof (cases "find_first_of s ds lp")
  case None
  then have "set (drop lp s) \<inter> set ds = {}"
    by (auto simp: find_first_of_None_iff in_set_conv_nth)
  then show ?thesis using assms None by (simp add: pieces_def split_at_no_delim)
next
  case (Some p)
  then have p: "lp \<le> p" "p < length s" "s ! p \<in> set ds" "\<forall>j. lp \<le> j \<longrightarrow> j < p \<longrightarrow> s ! j \<notin> set ds"
    by (auto simp: find_first_of_Some_iff)
  with assms have "lp < p" by (metis le_neq_implies_less)
  define t where "t = take (p - lp) (drop lp s)"
  have "drop lp s = t @ drop p s"
    using p(1) by (simp add: t_def) (metis append_take_drop_id drop_drop le_add_diff_inverse2)
  then have split: "drop lp s = t @ s ! p # drop (Suc p) s"
    by (simp add: drop_eq_Cons_nth p(2))
  have "set t \<inter> set ds = {}"
    using p by (auto simp: t_def in_set_conv_nth)
  moreover have "t \<noteq> []" using \<open>lp < p\<close> p(2) by (simp add: t_def)
  ultimately have "pieces ds (drop lp s) = t # pieces ds (drop (Suc p) s)"
    by (simp add: split pieces_def split_at_append_delim p(3))
  then show ?thesis
    by (simp add: Some t_def drop_eq_Cons_nth [OF p(2)] pieces_skip_delim p(3))
qed

lemma tokenize_loop_eq:
  "(\<forall>i. lp = Some i \<longrightarrow> i < length s \<and> s ! i \<notin> set ds) \<Longrightarrow>
   tokenize_loop s ds skip acc lp =
     add_tokens skip acc (case lp of None \<Rightarrow> [] | Some i \<Rightarrow> pieces ds (drop i s))"
proof (induction s ds skip acc lp rule: tokenize_loop.induct)
  case (1 str ds skip tokens)
  then show ?case by simp
next
  case (2 str ds skip tokens lp)
  define nxt where "nxt = (case find_first_of str ds lp of None \<Rightarrow> None
                            | Some p \<Rightarrow> find_first_not_of str ds p)"
  define token where "token = (case find_first_of str ds lp of None \<Rightarrow> drop lp str
                            | Some p \<Rightarrow> take (p - lp) (drop lp str))"
  have nxt_ok: "\<forall>i. nxt = Some i \<longrightarrow> i < length str \<and> str ! i \<notin> set ds"
    by (auto simp: nxt_def find_first_not_of_Some_iff split: option.splits)
  have "pieces ds (drop lp str) =
          token # (case nxt of None \<Rightarrow> [] | Some i \<Rightarrow> pieces ds (drop i str))"
    using 2(2) pieces_first_token [of lp str ds]
    by (simp add: token_def nxt_def pieces_find_first_not_of [of ds _ str] split: option.split)
  then show ?case
    using 2(1) [OF refl refl refl] nxt_ok
    by (simp add: tokenize_loop.simps(2) Let_def token_def [symmetric] nxt_def [symmetric])
qed

lemma Tokenize_eq: "Tokenize s acc ds skip = add_tokens skip acc (pieces ds s)"
proof -
  have "\<forall>i. find_first_not_of s ds 0 = Some i \<longrightarrow> i < length s \<and> s ! i \<notin> set ds"
    by (auto simp: find_first_not_of_Some_iff)
  then show ?thesis
    using pieces_find_first_not_of [of ds 0 s] by (simp add: Tokenize_def tokenize_loop_eq)
qed

lemma add_tokens_False: "add_tokens False acc ts = acc @ ts"
  by (induction ts arbitrary: acc) auto

lemma set_add_tokens: "set (add_tokens skip acc ts) = set acc \<union> set ts"
  by (induction ts arbitrary: acc) auto

lemma distinct_add_tokens: "distinct acc \<Longrightarrow> distinct (add_tokens True acc ts)"
  by (induction ts arbitrary: acc) auto

lemma pieces_intercalate:
  assumes "d \<in> set ds" and "\<forall>t \<in> set ts. t \<noteq> [] \<and> set t \<inter> set ds = {}"
  shows "pieces ds (intercalate [d] ts) = ts"
  using assms(2)
proof (induction ts)
  case Nil
  then show ?case by (simp add: pieces_def)
next
  case (Cons t ts)
  then show ?case
    by (cases ts) (auto simp: pieces_def split_at_no_delim split_at_append_delim [OF _ assms(1)])
qed

lemma set_split_at: "t \<in> set (split_at ds s) \<Longrightarrow> set t \<inter> set ds = {} \<and> set t \<subseteq> set s"
proof (induction s arbitrary: t)
  case Nil
  then show ?case by simp
next
  case (Cons c s)
  have "hd (split_at ds s) \<in> set (split_at ds s)" by simp
  with Cons.IH have hd: "set (hd (split_at ds s)) \<inter> set ds = {} \<and> set (hd (split_at ds s)) \<subseteq> set s"
    by blast
  have tl: "x \<in> set (split_at ds s)" if "x \<in> set (tl (split_at ds s))" for x
    using that by (cases "split_at ds s") auto
  show ?case
  proof (cases "c \<in> set ds \<or> t \<in> set (tl (split_at ds s))")
    case True
    with Cons.prems tl have "t = [] \<or> t \<in> set (split_at ds s)" by (auto split: if_splits)
    with Cons.IH show ?thesis by auto
  next
    case False
    with Cons.prems have "t = c # hd (split_at ds s)" by auto
    with hd False show ?thesis by auto
  qed
qed

section \<open>Join, Basename and GetDirectory\<close>

text \<open>
  One round of the loop of \<^verbatim>\<open>Join\<close>: trim the part, cut one separator off its end and, unless it
  is the first part, one off its start. \<^verbatim>\<open>part[part.size()-1]\<close> on a part that trims to the
  empty string indexes before the string, the undefined case.
\<close>

definition join_part :: "bool \<Rightarrow> string \<Rightarrow> string option" where
  "join_part first part0 =
     (let part = Trim part0
      in if part = [] then None
         else let part1 = (if last part = KR_PATH_SEP_CHAR then butlast part else part)
              in Some (if \<not> first \<and> part1 \<noteq> [] \<and> hd part1 = KR_PATH_SEP_CHAR
                       then tl part1 else part1))"

fun join_parts :: "bool \<Rightarrow> string list \<Rightarrow> string option" where
  "join_parts first [] = Some []"
| "join_parts first (p # ps) = do {
     part \<leftarrow> join_part first p;
     rest \<leftarrow> join_parts False ps;
     Some (part @ (if ps = [] then [] else KR_PATH_SEP) @ rest) }"

definition Join :: "string list \<Rightarrow> string option" where
  "Join inparts = join_parts True (filter (\<lambda>p. p \<noteq> []) (map c_str inparts))"

definition Basename :: "string \<Rightarrow> string" where
  "Basename path = (case find_last_of path KR_PATH_SEP of
      None \<Rightarrow> path
    | Some pos \<Rightarrow> drop (pos + 1) path)"

definition GetDirectory :: "string \<Rightarrow> string" where
  "GetDirectory file = (case find_last_of file KR_PATH_SEP of
      Some pos \<Rightarrow> take pos file
    | None \<Rightarrow> (case find_last_of file KR_PATH_SEP_OTHER of
        Some pos \<Rightarrow> take pos file
      | None \<Rightarrow> ''.'' @ KR_PATH_SEP))"

text \<open>A path component that \<^verbatim>\<open>Join\<close> takes over unchanged.\<close>

definition clean_part :: "string \<Rightarrow> bool" where
  "clean_part p \<longleftrightarrow> p \<noteq> [] \<and> CHR 0x00 \<notin> set p
     \<and> hd p \<noteq> CHR '' '' \<and> last p \<noteq> CHR '' '' \<and> last p \<noteq> KR_PATH_SEP_CHAR"

definition clean_component :: "string \<Rightarrow> bool" where
  "clean_component p \<longleftrightarrow> clean_part p \<and> hd p \<noteq> KR_PATH_SEP_CHAR"

lemma Trim_clean:
  assumes "p \<noteq> []" "hd p \<noteq> CHR '' ''" "last p \<noteq> CHR '' ''"
  shows "Trim p = p"
proof -
  have "dropWhile (\<lambda>c. c = CHR '' '') (rev p) = rev p"
    using assms by (simp add: dropWhile_eq_self_iff hd_rev)
  then have "trim_spec p = dropWhile (\<lambda>c. c = CHR '' '') p"
    by (simp add: trim_spec_def)
  also have "\<dots> = p" using assms by (simp add: dropWhile_eq_self_iff)
  finally show ?thesis by (simp add: Trim_eq)
qed

lemma all_set_dropWhile: "(\<forall>x \<in> set (dropWhile P xs). P x) \<longleftrightarrow> (\<forall>x \<in> set xs. P x)"
  by (induction xs) auto

lemma Trim_eq_Nil_iff: "Trim p = [] \<longleftrightarrow> (\<forall>c \<in> set p. c = CHR '' '')"
  using all_set_dropWhile [of "\<lambda>c. c = CHR '' ''" "rev p"]
  by (simp add: Trim_eq trim_spec_def dropWhile_eq_Nil_conv)

lemma join_part_clean:
  "clean_part p \<Longrightarrow> join_part True p = Some p"
  "clean_component p \<Longrightarrow> join_part first p = Some p"
  by (auto simp: join_part_def Trim_clean clean_part_def clean_component_def)

lemma join_parts_clean:
  "\<forall>p \<in> set ps. clean_component p \<Longrightarrow> join_parts first ps = Some (intercalate KR_PATH_SEP ps)"
proof (induction ps arbitrary: first)
  case Nil
  then show ?case by simp
next
  case (Cons p ps)
  then show ?case by (cases ps) (auto simp: join_part_clean(2))
qed

lemma Join_clean:
  assumes "clean_part r" and "\<forall>p \<in> set ps. clean_component p"
  shows "Join (r # ps) = Some (intercalate KR_PATH_SEP (r # ps))"
proof -
  have "map c_str (r # ps) = r # ps"
    using assms by (auto simp: clean_component_def clean_part_def intro!: map_idI)
  moreover have "filter (\<lambda>p. p \<noteq> []) (r # ps) = r # ps"
    using assms by (auto simp: clean_component_def clean_part_def)
  ultimately show ?thesis
    using assms join_parts_clean [OF assms(2)]
    by (cases ps) (auto simp: Join_def join_part_clean(1) join_part_clean(2) intercalate_Cons)
qed

lemma join_parts_defined_iff:
  "join_parts first ps \<noteq> None \<longleftrightarrow> (\<forall>p \<in> set ps. \<exists>c \<in> set p. c \<noteq> CHR '' '')"
proof (induction ps arbitrary: first)
  case Nil
  then show ?case by simp
next
  case (Cons p ps)
  have "join_part first p = None \<longleftrightarrow> (\<forall>c \<in> set p. c = CHR '' '')"
    by (simp add: join_part_def Let_def Trim_eq_Nil_iff)
  with Cons.IH [of False] show ?case
    by (cases "join_part first p"; cases "join_parts False ps") auto
qed

lemma find_last_of_append_sep:
  "set b \<inter> set cs = {} \<Longrightarrow> c \<in> set cs \<Longrightarrow> find_last_of (a @ c # b) cs = Some (length a)"
  by (auto simp: find_last_of_Some_iff nth_append nth_Cons disjoint_iff split: nat.split)

section \<open>Properties\<close>

text \<open>C23: Tokenize cuts the string at every delimiter character and appends the non-empty pieces,
  in order, to the caller's vector; with \<open>skip_if_found\<close> it appends exactly the pieces that the
  vector does not hold yet, so it never creates a duplicate.\<close>

theorem Tokenize_correct:
  "Tokenize s acc ds False = acc @ filter (\<lambda>t. t \<noteq> []) (split_at ds s)
   \<and> set (Tokenize s acc ds True) = set acc \<union> set (filter (\<lambda>t. t \<noteq> []) (split_at ds s))
   \<and> (distinct acc \<longrightarrow> distinct (Tokenize s acc ds True))
   \<and> (\<forall>t \<in> set (Tokenize s [] ds skip). t \<noteq> [] \<and> set t \<inter> set ds = {} \<and> set t \<subseteq> set s)"
proof (intro conjI impI ballI)
  fix t
  assume "t \<in> set (Tokenize s [] ds skip)"
  then have t: "t \<noteq> []" "t \<in> set (split_at ds s)"
    by (simp_all add: Tokenize_eq set_add_tokens pieces_def)
  from t(1) show "t \<noteq> []" .
  from set_split_at [OF t(2)] show "set t \<inter> set ds = {}" and "set t \<subseteq> set s"
    by (rule conjunct1, rule conjunct2)
qed (simp_all add: Tokenize_eq add_tokens_False set_add_tokens pieces_def distinct_add_tokens)

theorem Tokenize_correct_witness:
  "distinct (Tokenize ''a.b.a'' [''b''] ''.'' True)
   \<and> Tokenize ''.ab..c.'' [] ''.'' False = [''ab'', ''c'']"
proof
  have "distinct [''b'']" by simp
  then show "distinct (Tokenize ''a.b.a'' [''b''] ''.'' True)"
    using Tokenize_correct [of "''a.b.a''" "[''b'']" "''.''" True] by blast
  show "Tokenize ''.ab..c.'' [] ''.'' False = [''ab'', ''c'']"
    by (subst Tokenize_correct [THEN conjunct1]) simp
qed

text \<open>Tokenize inverts joining: non-empty tokens that contain no delimiter, joined with a
  delimiter between them, come back unchanged.\<close>

theorem Tokenize_intercalate:
  assumes "d \<in> set ds" and "\<forall>t \<in> set ts. t \<noteq> [] \<and> set t \<inter> set ds = {}"
  shows "Tokenize (intercalate [d] ts) [] ds False = ts"
  by (simp add: Tokenize_eq add_tokens_False pieces_intercalate [OF assms])

theorem Tokenize_intercalate_witness:
  "Tokenize (intercalate ''.'' [''UI'', ''Window'', ''open'']) [] ''.'' False
     = [''UI'', ''Window'', ''open'']"
  by (rule Tokenize_intercalate) simp_all

text \<open>Trim removes exactly the spaces at both ends: both of its loops end, and the result is
  the string without its longest suffix and its longest prefix of spaces.\<close>

theorem Trim_correct:
  "Trim s = dropWhile (\<lambda>c. c = CHR '' '') (rev (dropWhile (\<lambda>c. c = CHR '' '') (rev s)))"
  by (simp add: Trim_eq trim_spec_def)

text \<open>Join of a directory and clean component names puts exactly one separator between them,
  and GetDirectory and Basename take the joined path apart again.\<close>

theorem Join_Basename_GetDirectory:
  assumes "clean_part dir" and "clean_component name" and "KR_PATH_SEP_CHAR \<notin> set name"
  shows "Join [dir, name] = Some (dir @ KR_PATH_SEP @ name)
         \<and> Basename (dir @ KR_PATH_SEP @ name) = name
         \<and> GetDirectory (dir @ KR_PATH_SEP @ name) = dir"
proof -
  have "Join [dir, name] = Some (dir @ KR_PATH_SEP @ name)"
    using Join_clean [of dir "[name]"] assms by simp
  moreover have "find_last_of (dir @ KR_PATH_SEP @ name) KR_PATH_SEP = Some (length dir)"
    using assms(3) find_last_of_append_sep [of name KR_PATH_SEP KR_PATH_SEP_CHAR dir] by simp
  ultimately show ?thesis
    by (simp add: Basename_def GetDirectory_def)
qed

theorem Join_Basename_GetDirectory_witness:
  "Join [''/opt/titanium'', ''manifest''] = Some ''/opt/titanium/manifest''
   \<and> Basename ''/opt/titanium/manifest'' = ''manifest''
   \<and> GetDirectory ''/opt/titanium/manifest'' = ''/opt/titanium''"
proof -
  have c: "clean_part ''/opt/titanium''" "clean_component ''manifest''"
    "KR_PATH_SEP_CHAR \<notin> set ''manifest''"
    by (simp_all add: clean_part_def clean_component_def)
  show ?thesis
    using Join_Basename_GetDirectory [OF c] by simp
qed

text \<open>Join stays inside its strings exactly when no argument consists of spaces only; an
  argument of spaces makes it index before an empty string.\<close>

theorem Join_defined_iff:
  "Join ps \<noteq> None \<longleftrightarrow> (\<forall>p \<in> set ps. c_str p \<noteq> [] \<longrightarrow> (\<exists>c \<in> set (c_str p). c \<noteq> CHR '' ''))"
  unfolding Join_def join_parts_defined_iff by auto

theorem Join_defined_iff_witness:
  "Join [''/tmp'', '' ''] = None \<and> Join [''/tmp'', ''a''] \<noteq> None"
proof -
  have "\<not> Join [''/tmp'', '' ''] \<noteq> None" by (subst Join_defined_iff) (simp add: c_str_def)
  moreover have "Join [''/tmp'', ''a''] \<noteq> None" by (subst Join_defined_iff) (simp add: c_str_def)
  ultimately show ?thesis by blast
qed

end
