(* ===== verification/Kroll_BootUtils.thy ===== *)
theory Kroll_BootUtils
  imports Kroll_FileUtils "HOL-Library.Multiset"
begin

text \<open>
  \<^verbatim>\<open>src/api/utils/boot_utils.cpp\<close> and \<^verbatim>\<open>boot_utils.h\<close>: components and dependencies, the
  scans of the component directories, the version order, the manifest reader and the parser of
  dependency lines. The file system is the record \<^typ>\<open>os\<close>.
\<close>

section \<open>Data\<close>

datatype KComponentType = MODULE | RUNTIME | SDK | MOBILESDK | APP_UPDATE | UNKNOWN

datatype Requirement = EQ | GT | LT | GTE | LTE

record Dependency =
  dep_type :: KComponentType
  dep_name :: string
  dep_version :: string
  dep_requirement :: Requirement

record KComponent =
  comp_type :: KComponentType
  comp_name :: string
  comp_version :: string
  comp_path :: string
  comp_bundled :: bool

definition OS_NAME :: string where "OS_NAME = ''linux''"
definition MANIFEST_FILENAME :: string where "MANIFEST_FILENAME = ''manifest''"

definition NewComponent ::
  "KComponentType \<Rightarrow> string \<Rightarrow> string \<Rightarrow> string \<Rightarrow> bool \<Rightarrow> KComponent" where
  "NewComponent type name version path bundled =
     \<lparr>comp_type = type, comp_name = name, comp_version = version, comp_path = path,
      comp_bundled = bundled\<rparr>"

section \<open>Versions\<close>

text \<open>\<^verbatim>\<open>std::string::compare\<close>; callers use the sign of its result only, so the model returns
  the sign.\<close>

definition str_compare :: "string \<Rightarrow> string \<Rightarrow> int" where
  "str_compare s t = (if s < t then -1 else if s = t then 0 else 1)"

fun compare_pieces :: "string list \<Rightarrow> string list \<Rightarrow> int" where
  "compare_pieces (x # xs) (y # ys) =
     (let result = str_compare x y in if result \<noteq> 0 then result else compare_pieces xs ys)"
| "compare_pieces (x # xs) [] = 1"
| "compare_pieces [] (y # ys) = -1"
| "compare_pieces [] [] = 0"

definition CompareVersions :: "string \<Rightarrow> string \<Rightarrow> int" where
  "CompareVersions one two =
     (if one = [] \<and> two = [] then 0
      else if one = [] then -1
      else if two = [] then 1
      else compare_pieces (Tokenize one [] ''.'' False) (Tokenize two [] ''.'' False))"

definition WeakCompareComponents :: "KComponent \<Rightarrow> KComponent \<Rightarrow> bool" where
  "WeakCompareComponents one two \<longleftrightarrow> CompareVersions (comp_version one) (comp_version two) > 0"

text \<open>\<^verbatim>\<open>std::stable_sort\<close> with a strict weak order as its comparison.\<close>

fun stable_insert :: "('a \<Rightarrow> 'a \<Rightarrow> bool) \<Rightarrow> 'a \<Rightarrow> 'a list \<Rightarrow> 'a list" where
  "stable_insert lt x [] = [x]"
| "stable_insert lt x (y # ys) = (if lt y x then y # stable_insert lt x ys else x # y # ys)"

fun stable_sort :: "('a \<Rightarrow> 'a \<Rightarrow> bool) \<Rightarrow> 'a list \<Rightarrow> 'a list" where
  "stable_sort lt [] = []"
| "stable_sort lt (x # xs) = stable_insert lt x (stable_sort lt xs)"

section \<open>Scanning for components\<close>

definition AddToComponentVector :: "KComponent list \<Rightarrow> KComponent \<Rightarrow> KComponent list" where
  "AddToComponentVector components c =
     (if \<exists>e \<in> set components. comp_type e = comp_type c \<and> comp_path e = comp_path c
      then components else components @ [c])"

fun scan_versions ::
  "KComponentType \<Rightarrow> string \<Rightarrow> string \<Rightarrow> string list \<Rightarrow> KComponent list \<Rightarrow> KComponent list option" where
  "scan_versions type name dir [] results = Some results"
| "scan_versions type name dir (version # versions) results = do {
     fullPath \<leftarrow> Join [dir, version];
     scan_versions type name dir versions
       (AddToComponentVector results (NewComponent type name version fullPath False)) }"

definition ScanRuntimesAtPath :: "os \<Rightarrow> string \<Rightarrow> KComponent list \<Rightarrow> KComponent list option" where
  "ScanRuntimesAtPath fs path results =
     (if \<not> IsDirectory fs path then Some results
      else do {
        rtPath \<leftarrow> Join [path, ''runtime'', OS_NAME];
        scan_versions RUNTIME ''runtime'' rtPath (ListDir fs rtPath []) results })"

definition ScanSDKsAtPath :: "os \<Rightarrow> string \<Rightarrow> KComponent list \<Rightarrow> KComponent list option" where
  "ScanSDKsAtPath fs path results =
     (if \<not> IsDirectory fs path then Some results
      else do {
        sdkPath \<leftarrow> Join [path, ''sdk'', OS_NAME];
        scan_versions SDK ''sdk'' sdkPath (ListDir fs sdkPath []) results })"

definition ScanMobileSDKsAtPath :: "os \<Rightarrow> string \<Rightarrow> KComponent list \<Rightarrow> KComponent list option" where
  "ScanMobileSDKsAtPath fs path results =
     (if \<not> IsDirectory fs path then Some results
      else do {
        sdkPath \<leftarrow> Join [path, ''mobilesdk'', OS_NAME];
        scan_versions MOBILESDK ''mobilesdk'' sdkPath (ListDir fs sdkPath []) results })"

text \<open>The vector of version directories is declared outside the loop over module names, and
  \<^verbatim>\<open>ListDir\<close> clears it only when the name is a directory.\<close>

fun scan_modules ::
  "os \<Rightarrow> string \<Rightarrow> string list \<Rightarrow> string list \<Rightarrow> KComponent list \<Rightarrow> KComponent list option" where
  "scan_modules fs namesPath [] subpaths results = Some results"
| "scan_modules fs namesPath (name # names) subpaths results = do {
     versionsPath \<leftarrow> Join [namesPath, name];
     let subpaths' = ListDir fs versionsPath subpaths;
     results' \<leftarrow> scan_versions MODULE name versionsPath subpaths' results;
     scan_modules fs namesPath names subpaths' results' }"

definition ScanModulesAtPath :: "os \<Rightarrow> string \<Rightarrow> KComponent list \<Rightarrow> KComponent list option" where
  "ScanModulesAtPath fs path results =
     (if \<not> IsDirectory fs path then Some results
      else do {
        namesPath \<leftarrow> Join [path, ''modules'', OS_NAME];
        scan_modules fs namesPath (ListDir fs namesPath []) [] results })"

fun scan_bundled_modules :: "string \<Rightarrow> string list \<Rightarrow> KComponent list \<Rightarrow> KComponent list option" where
  "scan_bundled_modules modulesPath [] results = Some results"
| "scan_bundled_modules modulesPath (name # names) results = do {
     path \<leftarrow> Join [modulesPath, name];
     scan_bundled_modules modulesPath names
       (results @ [NewComponent MODULE name [] path True]) }"

definition ScanBundledComponents :: "os \<Rightarrow> string \<Rightarrow> KComponent list \<Rightarrow> KComponent list option" where
  "ScanBundledComponents fs path results = do {
     rtPath \<leftarrow> Join [path, ''runtime''];
     let results' = (if IsDirectory fs rtPath
                     then results @ [NewComponent RUNTIME ''runtime'' [] rtPath True] else results);
     modulesPath \<leftarrow> Join [path, ''modules''];
     scan_bundled_modules modulesPath (ListDir fs modulesPath []) results' }"

fun scan_paths :: "os \<Rightarrow> string list \<Rightarrow> KComponent list \<Rightarrow> KComponent list option" where
  "scan_paths fs [] results = Some results"
| "scan_paths fs (path # paths) results = do {
     r1 \<leftarrow> ScanRuntimesAtPath fs path results;
     r2 \<leftarrow> ScanSDKsAtPath fs path r1;
     r3 \<leftarrow> ScanMobileSDKsAtPath fs path r2;
     r4 \<leftarrow> ScanModulesAtPath fs path r3;
     scan_paths fs paths r4 }"

text \<open>The function-local static vector is passed in and returned.\<close>

definition GetInstalledComponents ::
  "os \<Rightarrow> string list \<Rightarrow> bool \<Rightarrow> KComponent list \<Rightarrow> KComponent list option" where
  "GetInstalledComponents fs searchPaths force installedComponents =
     (if installedComponents = [] \<or> force
      then do {
        components \<leftarrow> scan_paths fs searchPaths [];
        Some (stable_sort WeakCompareComponents components) }
      else Some installedComponents)"

section \<open>Manifests\<close>

text \<open>Reading with \<^verbatim>\<open>getline\<close> until \<^verbatim>\<open>eof\<close> yields the text between newlines, including a
  last piece after the final newline. For a line without a colon \<^verbatim>\<open>pos\<close> is \<^verbatim>\<open>npos\<close>, so
  \<^verbatim>\<open>pos + 1\<close> is 0 and both key and value are the whole line, unless the line is empty, when
  \<^verbatim>\<open>line.length() - 1\<close> is \<^verbatim>\<open>npos\<close> too.\<close>

definition manifest_line :: "string \<Rightarrow> (string \<times> string) option" where
  "manifest_line line0 =
     (let line = Trim line0
      in case str_find line '':'' 0 of
           None \<Rightarrow> if line = [] then None else Some (Trim line, Trim line)
         | Some pos \<Rightarrow>
             if pos = 0 \<or> pos = length line - 1 then None
             else Some (Trim (take pos line), Trim (take (length line) (drop (pos + 1) line))))"

definition ReadManifestFile :: "os \<Rightarrow> string \<Rightarrow> (string \<times> string) list" where
  "ReadManifestFile fs path =
     (if \<not> IsFile fs path then []
      else case file_contents fs (c_str path) of
             None \<Rightarrow> []
           | Some text \<Rightarrow> List.map_filter manifest_line (split_at [CHR 0x0A] text))"

definition ReadManifest :: "os \<Rightarrow> KComponent \<Rightarrow> (string \<times> string) list option" where
  "ReadManifest fs c = do {
     manifestPath \<leftarrow> Join [comp_path c, MANIFEST_FILENAME];
     Some (ReadManifestFile fs manifestPath) }"

section \<open>Dependencies\<close>

definition NewDependencyFromValues :: "KComponentType \<Rightarrow> string \<Rightarrow> string \<Rightarrow> Dependency" where
  "NewDependencyFromValues type name version =
     \<lparr>dep_type = type, dep_name = name, dep_version = version, dep_requirement = EQ\<rparr>"

definition parse_requirement :: "string \<Rightarrow> Requirement \<times> nat" where
  "parse_requirement value =
     (if str_find value ''>='' 0 \<noteq> None then (GTE, 2)
      else if str_find value ''<='' 0 \<noteq> None then (LTE, 2)
      else if str_find value ''<'' 0 \<noteq> None then (LT, 1)
      else if str_find value ''>'' 0 \<noteq> None then (GT, 1)
      else if str_find value ''='' 0 \<noteq> None then (EQ, 1)
      else (EQ, 0))"

definition component_type_of_key :: "string \<Rightarrow> KComponentType" where
  "component_type_of_key key =
     (if key = ''runtime'' then RUNTIME
      else if key = ''sdk'' then SDK
      else if key = ''mobilesdk'' then MOBILESDK
      else MODULE)"

definition NewDependencyFromManifestLine :: "string \<Rightarrow> string \<Rightarrow> Dependency" where
  "NewDependencyFromManifestLine key value =
     (let (requirement, versionStart) = parse_requirement value
      in \<lparr>dep_type = component_type_of_key key, dep_name = key,
          dep_version = drop versionStart value, dep_requirement = requirement\<rparr>)"

section \<open>The version order\<close>

text \<open>Versions are compared by their lists of pieces, in lexicographic order; an empty version
  comes before every other.\<close>

definition version_key :: "string \<Rightarrow> string list" where
  "version_key v = (if v = [] then [] else [] # pieces ''.'' v)"

definition order_sign :: "'a::linorder \<Rightarrow> 'a \<Rightarrow> int" where
  "order_sign x y = (if x < y then -1 else if x = y then 0 else 1)"

lemma compare_pieces_eq: "compare_pieces xs ys = order_sign xs ys"
  by (induction xs ys rule: compare_pieces.induct) (auto simp: order_sign_def str_compare_def)

lemma CompareVersions_eq: "CompareVersions a b = order_sign (version_key a) (version_key b)"
  by (auto simp: CompareVersions_def version_key_def order_sign_def compare_pieces_eq
      Tokenize_eq add_tokens_False)

lemma WeakCompareComponents_iff:
  "WeakCompareComponents c d \<longleftrightarrow> version_key (comp_version d) < version_key (comp_version c)"
  by (auto simp: WeakCompareComponents_def CompareVersions_eq order_sign_def)

section \<open>Stable sorting\<close>

text \<open>What \<^verbatim>\<open>std::stable_sort\<close> asks of its comparison, and what it gives back.\<close>

locale strict_weak_order =
  fixes lt :: "'a \<Rightarrow> 'a \<Rightarrow> bool"
  assumes lt_irrefl: "\<not> lt x x"
    and lt_trans: "lt x y \<Longrightarrow> lt y z \<Longrightarrow> lt x z"
    and not_lt_trans: "\<not> lt x y \<Longrightarrow> \<not> lt y z \<Longrightarrow> \<not> lt x z"
begin

lemma lt_asym: "lt x y \<Longrightarrow> \<not> lt y x"
  using lt_irrefl lt_trans by blast

lemma mset_stable_insert: "mset (stable_insert lt x xs) = add_mset x (mset xs)"
  by (induction xs) auto

lemma mset_stable_sort: "mset (stable_sort lt xs) = mset xs"
  by (induction xs) (auto simp: mset_stable_insert)

lemma set_stable_insert: "set (stable_insert lt x xs) = insert x (set xs)"
  using mset_stable_insert [of x xs] by (metis set_mset_add_mset_insert set_mset_mset)

lemma sorted_stable_insert:
  "sorted_wrt (\<lambda>a b. \<not> lt b a) xs \<Longrightarrow> sorted_wrt (\<lambda>a b. \<not> lt b a) (stable_insert lt x xs)"
proof (induction xs)
  case (Cons a xs)
  then show ?case
    using lt_asym [of a x] not_lt_trans [of _ a x] by (auto simp: set_stable_insert)
qed simp

lemma sorted_stable_sort: "sorted_wrt (\<lambda>a b. \<not> lt b a) (stable_sort lt xs)"
  by (induction xs) (auto simp: sorted_stable_insert)

lemma filter_stable_insert:
  assumes "\<And>a b. P a \<Longrightarrow> P b \<Longrightarrow> \<not> lt a b"
  shows "filter P (stable_insert lt x xs) = (if P x then x # filter P xs else filter P xs)"
  using assms by (induction xs) auto

lemma stable_sort_stable:
  assumes "\<And>a b. P a \<Longrightarrow> P b \<Longrightarrow> \<not> lt a b"
  shows "filter P (stable_sort lt xs) = filter P xs"
  by (induction xs) (auto simp: filter_stable_insert [OF assms])

end

interpretation components: strict_weak_order WeakCompareComponents
  by unfold_locales (auto simp: WeakCompareComponents_iff)

section \<open>Component vectors\<close>

text \<open>The duplicate check: no two components of the same type share a path.\<close>

definition comp_key :: "KComponent \<Rightarrow> KComponentType \<times> string" where
  "comp_key c = (comp_type c, comp_path c)"

definition no_duplicates :: "KComponent list \<Rightarrow> bool" where
  "no_duplicates cs \<longleftrightarrow> distinct (map comp_key cs)"

lemma no_duplicates_Nil [simp]: "no_duplicates []"
  by (simp add: no_duplicates_def)

lemma no_duplicates_Add: "no_duplicates cs \<Longrightarrow> no_duplicates (AddToComponentVector cs c)"
  by (auto simp: no_duplicates_def AddToComponentVector_def comp_key_def)

lemma no_duplicates_scan_versions:
  "scan_versions t n d vs cs = Some cs' \<Longrightarrow> no_duplicates cs \<Longrightarrow> no_duplicates cs'"
proof (induction vs arbitrary: cs)
  case (Cons v vs)
  from Cons.prems(1) obtain p where
    "scan_versions t n d vs (AddToComponentVector cs (NewComponent t n v p False)) = Some cs'"
    by (auto split: Option.bind_splits)
  with Cons.IH Cons.prems(2) show ?case by (blast intro: no_duplicates_Add)
qed simp

lemma no_duplicates_scan_modules:
  "scan_modules fs np ns sub cs = Some cs' \<Longrightarrow> no_duplicates cs \<Longrightarrow> no_duplicates cs'"
  by (induction fs np ns sub cs rule: scan_modules.induct)
     (auto simp: Let_def split: Option.bind_splits dest: no_duplicates_scan_versions)

lemmas scan_defs = ScanRuntimesAtPath_def ScanSDKsAtPath_def ScanMobileSDKsAtPath_def
  ScanModulesAtPath_def

lemma no_duplicates_scan_path:
  "ScanRuntimesAtPath fs p cs = Some cs' \<Longrightarrow> no_duplicates cs \<Longrightarrow> no_duplicates cs'"
  "ScanSDKsAtPath fs p cs = Some cs' \<Longrightarrow> no_duplicates cs \<Longrightarrow> no_duplicates cs'"
  "ScanMobileSDKsAtPath fs p cs = Some cs' \<Longrightarrow> no_duplicates cs \<Longrightarrow> no_duplicates cs'"
  "ScanModulesAtPath fs p cs = Some cs' \<Longrightarrow> no_duplicates cs \<Longrightarrow> no_duplicates cs'"
  by (auto simp: scan_defs split: if_splits Option.bind_splits
      dest: no_duplicates_scan_versions no_duplicates_scan_modules)

lemma no_duplicates_scan_paths:
  "scan_paths fs ps cs = Some cs' \<Longrightarrow> no_duplicates cs \<Longrightarrow> no_duplicates cs'"
proof (induction ps arbitrary: cs)
  case (Cons p ps)
  from Cons.prems obtain r1 r2 r3 r4 where
    "ScanRuntimesAtPath fs p cs = Some r1" "ScanSDKsAtPath fs p r1 = Some r2"
    "ScanMobileSDKsAtPath fs p r2 = Some r3" "ScanModulesAtPath fs p r3 = Some r4"
    "scan_paths fs ps r4 = Some cs'"
    by (auto split: Option.bind_splits)
  with Cons.prems(2) Cons.IH show ?case by (meson no_duplicates_scan_path)
qed simp

lemma no_duplicates_mset: "mset xs = mset ys \<Longrightarrow> no_duplicates xs = no_duplicates ys"
  unfolding no_duplicates_def by (metis mset_eq_imp_distinct_iff mset_map)

lemma GetInstalledComponents_cases:
  assumes "GetInstalledComponents fs ps True cache = Some cs"
  obtains scanned where "scan_paths fs ps [] = Some scanned"
    and "cs = stable_sort WeakCompareComponents scanned"
  using assms by (auto simp: GetInstalledComponents_def split: Option.bind_splits)

section \<open>Manifest lines\<close>

lemma str_find_char_append:
  "c \<notin> set k \<Longrightarrow> str_find (k @ c # v) [c] 0 = Some (length k)"
  by (auto simp: str_find_Some_iff matches_at_char nth_append)

definition trimmed :: "string \<Rightarrow> bool" where
  "trimmed s \<longleftrightarrow> s \<noteq> [] \<and> hd s \<noteq> CHR '' '' \<and> last s \<noteq> CHR '' ''"

lemma Trim_trimmed: "trimmed s \<Longrightarrow> Trim s = s"
  by (simp add: trimmed_def Trim_clean)

lemma manifest_line_pair:
  assumes "trimmed k" and "trimmed v" and "CHR '':'' \<notin> set k"
  shows "manifest_line (k @ '':'' @ v) = Some (k, v)"
proof -
  have "trimmed (k @ CHR '':'' # v)"
    using assms(1,2) by (auto simp: trimmed_def)
  moreover have "length k \<noteq> 0" "length k \<noteq> length (k @ CHR '':'' # v) - 1"
    using assms(1,2) by (auto simp: trimmed_def)
  moreover have "str_find (k @ CHR '':'' # v) '':'' 0 = Some (length k)"
    using assms(3) by (rule str_find_char_append)
  ultimately show ?thesis
    using assms(1,2) by (simp add: manifest_line_def Trim_trimmed Let_def)
qed

lemma manifest_line_no_colon:
  assumes "trimmed l" and "CHR '':'' \<notin> set l"
  shows "manifest_line l = Some (l, l)"
proof -
  have "str_find l '':'' 0 = None"
    using assms(2) by (auto simp: str_find_None_iff matches_at_char in_set_conv_nth)
  with assms(1) show ?thesis by (simp add: manifest_line_def Trim_trimmed trimmed_def)
qed

lemma split_at_intercalate:
  "ls \<noteq> [] \<Longrightarrow> \<forall>l \<in> set ls. set l \<inter> set ds = {} \<Longrightarrow> d \<in> set ds \<Longrightarrow>
     split_at ds (intercalate [d] ls) = ls"
proof (induction ls)
  case (Cons l ls)
  then show ?case by (cases ls) (auto simp: split_at_no_delim split_at_append_delim)
qed simp

lemma map_filter_all_Some:
  "\<forall>x \<in> set xs. f x = Some (g x) \<Longrightarrow> List.map_filter f xs = map g xs"
  by (induction xs) (auto simp: List.map_filter_simps)

section \<open>Dependency lines\<close>

definition operator_free :: "string \<Rightarrow> bool" where
  "operator_free v \<longleftrightarrow> CHR ''<'' \<notin> set v \<and> CHR ''>'' \<notin> set v \<and> CHR ''='' \<notin> set v"

lemma str_find_absent: "c \<in> set t \<Longrightarrow> c \<notin> set s \<Longrightarrow> str_find s t 0 = None"
  unfolding str_find_None_iff matches_at_def by (metis in_set_dropD in_set_takeD)

lemma str_find_prefix: "str_find (t @ s) t 0 = Some 0"
  by (simp add: str_find_zero_iff)

fun requirement_text :: "Requirement \<Rightarrow> string" where
  "requirement_text EQ = ''=''"
| "requirement_text GT = ''>''"
| "requirement_text LT = ''<''"
| "requirement_text GTE = ''>=''"
| "requirement_text LTE = ''<=''"

lemma parse_requirement_operator:
  assumes "operator_free v"
  shows "parse_requirement (requirement_text r @ v) = (r, length (requirement_text r))"
proof -
  have p: "str_find (requirement_text r @ v) (requirement_text r) 0 = Some 0"
    by (rule str_find_prefix)
  note n = str_find_absent [of "CHR ''=''" _ "requirement_text r @ v"]
    str_find_absent [of "CHR ''>''" _ "requirement_text r @ v"]
    str_find_absent [of "CHR ''<''" _ "requirement_text r @ v"]
  show ?thesis
    using assms p n by (cases r) (simp_all add: parse_requirement_def operator_free_def)
qed

lemma parse_requirement_plain: "operator_free v \<Longrightarrow> parse_requirement v = (EQ, 0)"
  using str_find_absent [of "CHR ''=''" _ v] str_find_absent [of "CHR ''>''" _ v]
    str_find_absent [of "CHR ''<''" _ v]
  by (simp add: parse_requirement_def operator_free_def)

section \<open>Properties\<close>

text \<open>CompareVersions is a total preorder on version strings: it is antisymmetric in sign and
  transitive, and it says equal exactly for versions with the same pieces (an empty version being
  equal to empty versions only).\<close>

theorem CompareVersions_preorder:
  "(CompareVersions a b = 0 \<longleftrightarrow> (a = [] \<longleftrightarrow> b = []) \<and> Tokenize a [] ''.'' False = Tokenize b [] ''.'' False)
   \<and> CompareVersions a b = - CompareVersions b a
   \<and> (CompareVersions a b \<le> 0 \<and> CompareVersions b c \<le> 0 \<longrightarrow> CompareVersions a c \<le> 0)"
  by (auto simp: CompareVersions_eq order_sign_def version_key_def Tokenize_eq add_tokens_False
      pieces_def)

theorem CompareVersions_preorder_witness:
  "CompareVersions ''1.0'' ''1.0.1'' \<le> 0 \<and> CompareVersions ''1.0.1'' ''1.2'' \<le> 0
   \<and> CompareVersions ''1.0'' ''1.2'' \<le> 0"
proof -
  have "CompareVersions ''1.0'' ''1.0.1'' \<le> 0" "CompareVersions ''1.0.1'' ''1.2'' \<le> 0"
    by (simp_all add: CompareVersions_eq order_sign_def version_key_def pieces_def less_char_def)
  then show ?thesis
    using CompareVersions_preorder [of "''1.0''" "''1.0.1''" "''1.2''"] by blast
qed

text \<open>the pieces of a version are compared as strings, not as numbers, so version 1.10 counts
  as older than version 1.9.\<close>

theorem CompareVersions_not_numeric:
  "CompareVersions ''1.10'' ''1.9'' < 0"
  by (simp add: CompareVersions_eq order_sign_def version_key_def pieces_def less_char_def)

text \<open>C16: a forced rescan of the installed components returns a permutation of what the scans of the
  search path found, newest version first, with components of equal version in the order of the
  search path, and with no two components of the same type and path.\<close>

theorem GetInstalledComponents_correct:
  assumes "GetInstalledComponents fs ps True cache = Some cs" and "scan_paths fs ps [] = Some found"
  shows "mset cs = mset found
    \<and> sorted_wrt (\<lambda>c d. CompareVersions (comp_version d) (comp_version c) \<le> 0) cs
    \<and> filter (\<lambda>c. CompareVersions (comp_version c) v = 0) cs
        = filter (\<lambda>c. CompareVersions (comp_version c) v = 0) found
    \<and> no_duplicates cs"
proof -
  from assms have cs: "cs = stable_sort WeakCompareComponents found"
    by (simp add: GetInstalledComponents_def)
  then have perm: "mset cs = mset found" by (simp add: components.mset_stable_sort)
  have "sorted_wrt (\<lambda>c d. \<not> WeakCompareComponents d c) cs"
    by (simp add: cs components.sorted_stable_sort)
  then have "sorted_wrt (\<lambda>c d. CompareVersions (comp_version d) (comp_version c) \<le> 0) cs"
    by (simp add: WeakCompareComponents_def not_less)
  moreover have "filter (\<lambda>c. CompareVersions (comp_version c) v = 0) cs
        = filter (\<lambda>c. CompareVersions (comp_version c) v = 0) found"
    unfolding cs by (rule components.stable_sort_stable)
      (auto simp: WeakCompareComponents_iff CompareVersions_eq order_sign_def split: if_splits)
  moreover have "no_duplicates cs"
    using no_duplicates_scan_paths [OF assms(2)] no_duplicates_mset [OF perm] by simp
  ultimately show ?thesis using perm by blast
qed

theorem GetInstalledComponents_correct_witness:
  "\<exists>cs. GetInstalledComponents
          (list_os [(''/r'', []), (''/r/runtime/linux'', [''0.8'', ''0.9''])] []) [''/r''] True [] = Some cs
        \<and> no_duplicates cs \<and> map comp_version cs = [''0.9'', ''0.8'']"
proof -
  let ?fs = "list_os [(''/r'', []), (''/r/runtime/linux'', [''0.8'', ''0.9''])] []"
  let ?a = "NewComponent RUNTIME ''runtime'' ''0.8'' ''/r/runtime/linux/0.8'' False"
  let ?b = "NewComponent RUNTIME ''runtime'' ''0.9'' ''/r/runtime/linux/0.9'' False"
  have j: "Join [''/r'', ''runtime'', ''linux''] = Some ''/r/runtime/linux''"
    "Join [''/r'', ''sdk'', ''linux''] = Some ''/r/sdk/linux''"
    "Join [''/r'', ''mobilesdk'', ''linux''] = Some ''/r/mobilesdk/linux''"
    "Join [''/r'', ''modules'', ''linux''] = Some ''/r/modules/linux''"
    "Join [''/r/runtime/linux'', ''0.8''] = Some ''/r/runtime/linux/0.8''"
    "Join [''/r/runtime/linux'', ''0.9''] = Some ''/r/runtime/linux/0.9''"
    by (simp_all add: Join_clean clean_part_def clean_component_def)
  have found: "scan_paths ?fs [''/r''] [] = Some [?a, ?b]"
    by (simp add: scan_defs OS_NAME_def j list_os_def IsDirectory_def ListDir_def
        AddToComponentVector_def NewComponent_def)
  then have inst: "GetInstalledComponents ?fs [''/r''] True [] = Some [?b, ?a]"
    by (simp add: GetInstalledComponents_def WeakCompareComponents_iff version_key_def pieces_def
        NewComponent_def less_char_def)
  show ?thesis
    using GetInstalledComponents_correct [OF inst found, of "''0.9''"] inst
    by (simp add: NewComponent_def)
qed

text \<open>a name under the modules directory that is not a directory itself (a stray file) is given
  the versions of the module listed before it: the scan adds a component for each of them, at paths
  below the stray file.\<close>

theorem ScanModules_stray_file:
  assumes "Join [namesPath, m] = Some mPath" and "IsDirectory fs mPath"
    and "Join [namesPath, f] = Some fPath" and "\<not> IsDirectory fs fPath"
    and "v \<in> set (ListDir fs mPath [])"
    and "Join [fPath, v] = Some vPath"
    and "scan_modules fs namesPath [m, f] [] [] = Some cs"
  shows "\<exists>c \<in> set cs. comp_type c = MODULE \<and> comp_path c = vPath"
proof -
  have keep: "(\<exists>c \<in> set cs. comp_type c = t \<and> comp_path c = p) \<or>
              (\<exists>v \<in> set vs. t = t' \<and> Join [d, v] = Some p)
              \<Longrightarrow> scan_versions t' n d vs cs = Some cs' \<Longrightarrow>
              \<exists>c \<in> set cs'. comp_type c = t \<and> comp_path c = p" for t t' n d vs cs cs' p
  proof (induction vs arbitrary: cs)
    case (Cons v vs)
    from Cons.prems(2) obtain q where q: "Join [d, v] = Some q"
      "scan_versions t' n d vs (AddToComponentVector cs (NewComponent t' n v q False)) = Some cs'"
      by (auto split: Option.bind_splits)
    from Cons.prems(1) q(1) show ?case
      by (intro Cons.IH [OF _ q(2)]) (auto simp: AddToComponentVector_def NewComponent_def)
  qed auto
  let ?vs = "ListDir fs mPath []"
  have "ListDir fs fPath ?vs = ?vs" using assms(4) by (simp add: ListDir_def)
  then obtain cs1 where "scan_versions MODULE f fPath ?vs cs1 = Some cs"
    using assms(1,3,7) by (auto simp: Let_def split: Option.bind_splits)
  then show ?thesis using assms(5,6) by (intro keep) auto
qed

theorem ScanModules_stray_file_witness:
  "\<exists>cs. scan_modules (list_os [(''/m/ui'', [''1.0''])] [(''/m/README'', ''x'')]) ''/m''
          [''ui'', ''README''] [] [] = Some cs
     \<and> (\<exists>c \<in> set cs. comp_type c = MODULE \<and> comp_path c = ''/m/README/1.0'')"
proof -
  let ?fs = "list_os [(''/m/ui'', [''1.0''])] [(''/m/README'', ''x'')]"
  have j: "Join [''/m'', ''ui''] = Some ''/m/ui''" "Join [''/m'', ''README''] = Some ''/m/README''"
    "Join [''/m/README'', ''1.0''] = Some ''/m/README/1.0''"
    "Join [''/m/ui'', ''1.0''] = Some ''/m/ui/1.0''"
    by (simp_all add: Join_clean clean_part_def clean_component_def)
  have d: "IsDirectory ?fs ''/m/ui''" "\<not> IsDirectory ?fs ''/m/README''"
    by (simp_all add: IsDirectory_def list_os_def)
  have v: "''1.0'' \<in> set (ListDir ?fs ''/m/ui'' [])"
    by (simp add: ListDir_def IsDirectory_def list_os_def)
  obtain cs where cs: "scan_modules ?fs ''/m'' [''ui'', ''README''] [] [] = Some cs"
    by (simp add: j ListDir_def IsDirectory_def list_os_def)
  show ?thesis
    using ScanModules_stray_file [OF j(1) d(1) j(2) d(2) v j(3) cs] cs by blast
qed

text \<open>a manifest written one key, colon, value per line is read back as exactly that list of
  pairs, for keys and values without line breaks and surrounding spaces and keys without a colon.\<close>

theorem ReadManifestFile_roundtrip:
  assumes "IsFile fs path"
    and "file_contents fs (c_str path) = Some (intercalate [CHR 0x0A] (map (\<lambda>(k, v). k @ '':'' @ v) kvs))"
    and "\<forall>(k, v) \<in> set kvs. trimmed k \<and> trimmed v \<and> CHR '':'' \<notin> set k
           \<and> CHR 0x0A \<notin> set k \<and> CHR 0x0A \<notin> set v"
  shows "ReadManifestFile fs path = kvs"
proof -
  let ?lines = "map (\<lambda>(k, v). k @ '':'' @ v) kvs"
  have read: "ReadManifestFile fs path =
      List.map_filter manifest_line (split_at [CHR 0x0A] (intercalate [CHR 0x0A] ?lines))"
    using assms(1,2) by (simp add: ReadManifestFile_def)
  show ?thesis
  proof (cases "kvs = []")
    case True
    have "manifest_line [] = None"
      by (simp add: manifest_line_def Trim_eq trim_spec_def str_find_def matches_at_def)
    with True read show ?thesis by (simp add: List.map_filter_simps)
  next
    case False
    have "split_at [CHR 0x0A] (intercalate [CHR 0x0A] ?lines) = ?lines"
      using False assms(3) by (intro split_at_intercalate) auto
    moreover have "List.map_filter manifest_line ?lines
        = List.map_filter (\<lambda>kv. manifest_line (fst kv @ '':'' @ snd kv)) kvs"
      by (induction kvs) (auto simp: List.map_filter_simps split: option.split)
    moreover have "List.map_filter (\<lambda>kv. manifest_line (fst kv @ '':'' @ snd kv)) kvs = map (\<lambda>kv. kv) kvs"
      using assms(3) manifest_line_pair by (intro map_filter_all_Some) auto
    ultimately show ?thesis using read by simp
  qed
qed

theorem ReadManifestFile_roundtrip_witness:
  "ReadManifestFile (list_os [] [(''/app/manifest'',
       intercalate [CHR 0x0A] [''#appname:Demo'', ''runtime:>=0.9''])]) ''/app/manifest''
   = [(''#appname'', ''Demo''), (''runtime'', ''>=0.9'')]"
  by (rule ReadManifestFile_roundtrip) (simp_all add: IsFile_def list_os_def trimmed_def)

text \<open>a manifest line without a colon is not skipped: it yields an entry whose key and whose
  value are both the whole line.\<close>

theorem manifest_line_without_colon:
  assumes "trimmed l" and "CHR '':'' \<notin> set l"
  shows "manifest_line l = Some (l, l)"
  by (rule manifest_line_no_colon [OF assms])

theorem manifest_line_without_colon_witness:
  "manifest_line ''tiui 0.9'' = Some (''tiui 0.9'', ''tiui 0.9'')"
  by (rule manifest_line_without_colon) (simp_all add: trimmed_def)

text \<open>a dependency line with an operator in front of a version without operator characters
  yields that requirement and that version, a bare version means equality, and the key decides the
  component type.\<close>

theorem NewDependencyFromManifestLine_correct:
  assumes "operator_free v"
  shows "dep_requirement (NewDependencyFromManifestLine key (requirement_text r @ v)) = r
    \<and> dep_version (NewDependencyFromManifestLine key (requirement_text r @ v)) = v
    \<and> dep_requirement (NewDependencyFromManifestLine key v) = EQ
    \<and> dep_version (NewDependencyFromManifestLine key v) = v
    \<and> dep_name (NewDependencyFromManifestLine key v) = key
    \<and> dep_type (NewDependencyFromManifestLine key v) = component_type_of_key key"
  by (simp add: NewDependencyFromManifestLine_def parse_requirement_operator [OF assms]
      parse_requirement_plain [OF assms])

theorem NewDependencyFromManifestLine_correct_witness:
  "dep_requirement (NewDependencyFromManifestLine ''runtime'' ''<=0.9'') = LTE
   \<and> dep_version (NewDependencyFromManifestLine ''runtime'' ''<=0.9'') = ''0.9''"
proof -
  have "operator_free ''0.9''" by (simp add: operator_free_def)
  from NewDependencyFromManifestLine_correct [OF this, of "''runtime''" LTE] show ?thesis by simp
qed

end
