(* ===== verification/Kroll_URLUtils.thy ===== *)
theory Kroll_URLUtils
  imports Kroll_FileUtils
begin

text \<open>
  \<^verbatim>\<open>src/api/utils/url_utils.cpp\<close>: percent-encoding and decoding of URI components, the
  conversions between paths and \<^verbatim>\<open>file://\<close> URLs, and the normalisation of
  \<^verbatim>\<open>app://\<close> URLs. Bytes are characters read as numbers below 256.
\<close>

section \<open>Encoding tables\<close>

text \<open>The tables of the source, row by row (16 entries each).\<close>

definition HEX2DEC :: "int list" where
  "HEX2DEC =
     replicate 48 (-1) @
     [0, 1, 2, 3, 4, 5, 6, 7, 8, 9, -1, -1, -1, -1, -1, -1] @
     [-1, 10, 11, 12, 13, 14, 15, -1, -1, -1, -1, -1, -1, -1, -1, -1] @
     replicate 16 (-1) @
     [-1, 10, 11, 12, 13, 14, 15, -1, -1, -1, -1, -1, -1, -1, -1, -1] @
     replicate 144 (-1)"

definition SAFE :: "nat list" where
  "SAFE =
     replicate 32 0 @
     [0, 0, 0, 0, 0, 0, 0, 0, 0, 0, 0, 0, 0, 0, 1, 0] @
     [1, 1, 1, 1, 1, 1, 1, 1, 1, 1, 0, 0, 0, 0, 0, 0] @
     [0, 1, 1, 1, 1, 1, 1, 1, 1, 1, 1, 1, 1, 1, 1, 1] @
     [1, 1, 1, 1, 1, 1, 1, 1, 1, 1, 1, 0, 0, 0, 0, 1] @
     [0, 1, 1, 1, 1, 1, 1, 1, 1, 1, 1, 1, 1, 1, 1, 1] @
     [1, 1, 1, 1, 1, 1, 1, 1, 1, 1, 1, 0, 0, 0, 0, 0] @
     replicate 128 0"

definition DEC2HEX :: string where
  "DEC2HEX = ''0123456789ABCDEF''"

abbreviation byte :: "char \<Rightarrow> nat" where
  "byte c \<equiv> of_char c"

section \<open>Encoding and decoding\<close>

text \<open>Both functions write into a buffer allocated beforehand (three bytes per source byte when
  encoding, one when decoding); the list they return is the part of the buffer that was written.\<close>

fun EncodeURIComponent :: "string \<Rightarrow> string" where
  "EncodeURIComponent [] = []"
| "EncodeURIComponent (c # src) =
     (if SAFE ! byte c \<noteq> 0 then [c]
      else [CHR ''%'', DEC2HEX ! (byte c div 16), DEC2HEX ! (byte c mod 16)])
     @ EncodeURIComponent src"

fun DecodeURIComponent :: "string \<Rightarrow> string" where
  "DecodeURIComponent (a # b # c # src) =
     (if a = CHR ''%'' \<and> HEX2DEC ! byte b \<noteq> -1 \<and> HEX2DEC ! byte c \<noteq> -1
      then char_of (nat ((HEX2DEC ! byte b) * 16 + HEX2DEC ! byte c)) # DecodeURIComponent src
      else a # DecodeURIComponent (b # c # src))"
| "DecodeURIComponent src = src"

section \<open>File URLs\<close>

definition FileURLToPath :: "string \<Rightarrow> string" where
  "FileURLToPath url = (if str_find url ''file://'' 0 = Some 0 then drop 7 url else url)"

definition PathToFileURL :: "string \<Rightarrow> string" where
  "PathToFileURL path =
     ''file://localhost'' @ concat (map (\<lambda>piece. ''/'' @ EncodeURIComponent piece)
       (Tokenize path [] ''/'' False))"

section \<open>Application URLs\<close>

text \<open>\<^verbatim>\<open>substr\<close> throws when the URL is shorter than \<^verbatim>\<open>app://\<close>.\<close>

definition NormalizeAppURL :: "string \<Rightarrow> string \<Rightarrow> string option" where
  "NormalizeAppURL appid url = do {
     idPart \<leftarrow> substr url 6 (Some (length appid));
     (if idPart = appid then Some url
      else do {
        rest \<leftarrow> substr url 6 None;
        Some (''app://'' @ appid @ ''/'' @ rest) }) }"

text \<open>\<^verbatim>\<open>Poco::URI\<close> is outside the repository: its scheme parser is the parameter
  \<open>getScheme\<close>.\<close>

definition NormalizeURL :: "(string \<Rightarrow> string) \<Rightarrow> string \<Rightarrow> string \<Rightarrow> string option" where
  "NormalizeURL getScheme appid url =
     (if getScheme url \<noteq> ''app'' then Some url else NormalizeAppURL appid url)"

section \<open>Facts about the tables\<close>

definition url_safe :: "char \<Rightarrow> bool" where
  "url_safe c \<longleftrightarrow> (48 \<le> byte c \<and> byte c \<le> 57) \<or> (65 \<le> byte c \<and> byte c \<le> 90)
      \<or> (97 \<le> byte c \<and> byte c \<le> 122) \<or> byte c = 46 \<or> byte c = 95"

lemma SAFE_iff: "SAFE ! byte c \<noteq> 0 \<longleftrightarrow> url_safe c"
proof -
  have "\<forall>n \<in> set [0..<256]. SAFE ! n \<noteq> 0 \<longleftrightarrow>
      (48 \<le> n \<and> n \<le> 57) \<or> (65 \<le> n \<and> n \<le> 90) \<or> (97 \<le> n \<and> n \<le> 122) \<or> n = 46 \<or> n = 95"
    by code_simp
  then show ?thesis by (auto simp: url_safe_def)
qed

lemma hex_digit_roundtrip:
  "\<forall>n \<in> set [0..<16]. HEX2DEC ! byte (DEC2HEX ! n) = int n"
  by code_simp

lemma hex_pair:
  fixes c :: char
  shows "HEX2DEC ! byte (DEC2HEX ! (byte c div 16)) = int (byte c div 16)"
    and "HEX2DEC ! byte (DEC2HEX ! (byte c mod 16)) = int (byte c mod 16)"
proof -
  have "byte c div 16 < 16" using nat_of_char_less_256 [of c] by (simp add: less_mult_imp_div_less)
  then show "HEX2DEC ! byte (DEC2HEX ! (byte c div 16)) = int (byte c div 16)"
    using hex_digit_roundtrip by simp
  show "HEX2DEC ! byte (DEC2HEX ! (byte c mod 16)) = int (byte c mod 16)"
    using hex_digit_roundtrip by simp
qed

lemma url_safe_not_percent: "url_safe c \<Longrightarrow> c \<noteq> CHR ''%''"
  by (auto simp: url_safe_def)

lemma Decode_Cons: "x \<noteq> CHR ''%'' \<Longrightarrow> DecodeURIComponent (x # xs) = x # DecodeURIComponent xs"
  by (induction xs rule: DecodeURIComponent.induct) auto

lemma Decode_Encode: "DecodeURIComponent (EncodeURIComponent s) = s"
proof (induction s)
  case Nil
  then show ?case by simp
next
  case (Cons c s)
  show ?case
  proof (cases "url_safe c")
    case True
    then have "SAFE ! byte c \<noteq> 0" by (rule SAFE_iff [THEN iffD2])
    then have "EncodeURIComponent (c # s) = c # EncodeURIComponent s" by simp
    with True Cons show ?thesis by (simp add: Decode_Cons url_safe_not_percent)
  next
    case False
    have "int (byte c div 16) * 16 + int (byte c mod 16) = int (byte c)"
      by (metis div_mult_mod_eq of_nat_add of_nat_mult of_nat_numeral)
    moreover from False have "SAFE ! byte c = 0" using SAFE_iff by blast
    ultimately show ?thesis
      using Cons by (simp add: hex_pair)
  qed
qed

lemma DEC2HEX_safe: "\<forall>n \<in> set [0..<16]. url_safe (DEC2HEX ! n)"
  by code_simp

lemma hex_pair_safe:
  "url_safe (DEC2HEX ! (byte c div 16))" "url_safe (DEC2HEX ! (byte c mod 16))"
  using DEC2HEX_safe nat_of_char_less_256 [of c] by (auto simp: less_mult_imp_div_less)

lemma set_Encode: "c \<in> set (EncodeURIComponent s) \<Longrightarrow> url_safe c \<or> c = CHR ''%''"
proof (induction s)
  case (Cons x s)
  then show ?case
    using SAFE_iff [of x] hex_pair_safe [of x] by (auto split: if_splits)
qed simp

lemma length_Encode: "length (EncodeURIComponent s) \<le> 3 * length s"
  by (induction s) auto

lemma length_Decode: "length (DecodeURIComponent s) \<le> length s"
  by (induction s rule: DecodeURIComponent.induct) auto

lemma NormalizeAppURL_rewritten:
  "NormalizeAppURL appid (''app://'' @ appid @ ''/'' @ rest) = Some (''app://'' @ appid @ ''/'' @ rest)"
  by (simp add: NormalizeAppURL_def substr_def)

section \<open>Properties\<close>

text \<open>C22: decoding inverts encoding, for every byte string.\<close>

theorem URIComponent_roundtrip: "DecodeURIComponent (EncodeURIComponent s) = s"
  by (rule Decode_Encode)

text \<open>both functions stay inside the buffers they allocate (three bytes per byte when encoding,
  one when decoding), and an encoded string holds only letters, digits, dot, underscore and the
  percent sign.\<close>

theorem URIComponent_buffers:
  "length (EncodeURIComponent s) \<le> 3 * length s
   \<and> length (DecodeURIComponent s) \<le> length s
   \<and> (\<forall>c \<in> set (EncodeURIComponent s). url_safe c \<or> c = CHR ''%'')"
  using length_Encode length_Decode set_Encode by blast

theorem URIComponent_buffers_witness:
  "length (EncodeURIComponent ''a b'') \<le> 9 \<and> length (DecodeURIComponent ''a%20b'') \<le> 5
   \<and> list_all (\<lambda>c. url_safe c \<or> c = CHR ''%'') (EncodeURIComponent ''a b'')"
  using URIComponent_buffers [of "''a b''"] URIComponent_buffers [of "''a%20b''"]
  unfolding list_all_iff by auto

text \<open>a path turned into a file URL and back does not come back: PathToFileURL writes the host
  name localhost, which FileURLToPath leaves in front of the path, and the pieces stay
  percent-encoded.\<close>

theorem file_url_not_inverted:
  "FileURLToPath (PathToFileURL p) =
     ''localhost'' @ concat (map (\<lambda>piece. ''/'' @ EncodeURIComponent piece)
        (filter (\<lambda>t. t \<noteq> []) (split_at ''/'' p)))"
proof -
  have "str_find (PathToFileURL p) ''file://'' 0 = Some 0"
    by (simp add: str_find_zero_iff PathToFileURL_def)
  then show ?thesis
    by (simp add: FileURLToPath_def PathToFileURL_def Tokenize_eq add_tokens_False pieces_def)
qed

text \<open>NormalizeAppURL throws exactly on URLs shorter than the scheme prefix, and applying it
  again to what it returns changes nothing.\<close>

theorem NormalizeAppURL_idempotent:
  "(NormalizeAppURL appid url = None \<longleftrightarrow> length url < 6)
   \<and> (\<forall>u. NormalizeAppURL appid url = Some u \<longrightarrow> NormalizeAppURL appid u = Some u)"
proof -
  have len: "NormalizeAppURL appid url = None \<longleftrightarrow> length url < 6"
    by (simp add: NormalizeAppURL_def substr_def)
  have idem: "NormalizeAppURL appid u = Some u" if u: "NormalizeAppURL appid url = Some u" for u
  proof (cases "take (length appid) (drop 6 url) = appid")
    case True
    with u len show ?thesis by (simp add: NormalizeAppURL_def substr_def split: if_splits)
  next
    case False
    with u have "u = ''app://'' @ appid @ ''/'' @ drop 6 url"
      by (auto simp: NormalizeAppURL_def substr_def split: if_splits)
    then show ?thesis using NormalizeAppURL_rewritten by blast
  qed
  from len idem show ?thesis by blast
qed

theorem NormalizeAppURL_idempotent_witness:
  "NormalizeAppURL ''com.x'' ''app://index.html'' = Some ''app://com.x/index.html''
   \<and> NormalizeAppURL ''com.x'' ''app://com.x/index.html'' = Some ''app://com.x/index.html''"
proof -
  have a: "NormalizeAppURL ''com.x'' ''app://index.html'' = Some ''app://com.x/index.html''"
    by (simp add: NormalizeAppURL_def substr_def)
  then show ?thesis
    using NormalizeAppURL_idempotent [of "''com.x''" "''app://index.html''"] by blast
qed

end
