(* ===== verification/Kroll_Application.thy ===== *)
theory Kroll_Application
  imports Kroll_BootUtils Kroll_URLUtils
begin

text \<open>
  \<^verbatim>\<open>src/api/utils/application.cpp\<close> and \<^verbatim>\<open>application.h\<close>: an application read from its
  manifest, the resolution of its dependencies against the bundled and installed components, its
  list of modules in use, its command line and its distribution URLs.

  A \<^verbatim>\<open>SharedComponent\<close> is a pointer to a component, and \<^verbatim>\<open>UsingModule\<close> writes through it, so
  the vectors of an application hold pairs of an address and the component stored there; entries
  with one address are one component. As before, \<^const>\<open>None\<close> marks undefined behaviour.
\<close>

type_synonym SharedComponent = "nat \<times> KComponent"

record Application =
  app_path :: string
  app_manifestPath :: string
  app_name :: string
  app_version :: string
  app_id :: string
  app_guid :: string
  app_publisher :: string
  app_url :: string
  app_image :: string
  app_stream :: string
  app_logLevel :: string
  app_dependencies :: "Dependency list"
  app_modules :: "SharedComponent list"
  app_sdks :: "SharedComponent list"
  app_runtime :: "SharedComponent option"
  app_queryString :: string
  app_arguments :: "string list"

definition new_application :: "string \<Rightarrow> string \<Rightarrow> Application" where
  "new_application path manifestPath =
     \<lparr>app_path = path, app_manifestPath = manifestPath, app_name = [], app_version = [],
      app_id = [], app_guid = [], app_publisher = [], app_url = [], app_image = [],
      app_stream = ''production'', app_logLevel = [], app_dependencies = [], app_modules = [],
      app_sdks = [], app_runtime = None, app_queryString = [], app_arguments = []\<rparr>"

definition GetResourcesPath :: "Application \<Rightarrow> string option" where
  "GetResourcesPath app = Join [app_path app, ''Resources'']"

section \<open>Reading the manifest\<close>

definition apply_manifest_entry :: "string \<Rightarrow> string \<Rightarrow> Application \<Rightarrow> Application option" where
  "apply_manifest_entry key value app =
     (if key = ''#appname'' then Some (app\<lparr>app_name := value\<rparr>)
      else if key = ''#appid'' then Some (app\<lparr>app_id := value\<rparr>)
      else if key = ''#guid'' then Some (app\<lparr>app_guid := value\<rparr>)
      else if key = ''#image'' then do {
        resources \<leftarrow> GetResourcesPath app;
        image \<leftarrow> Join [resources, value];
        Some (app\<lparr>app_image := image\<rparr>) }
      else if key = ''#publisher'' then Some (app\<lparr>app_publisher := value\<rparr>)
      else if key = ''#url'' then Some (app\<lparr>app_url := value\<rparr>)
      else if key = ''#version'' then Some (app\<lparr>app_version := value\<rparr>)
      else if key = ''#stream'' then Some (app\<lparr>app_stream := value\<rparr>)
      else if key = ''#loglevel'' then Some (app\<lparr>app_logLevel := value\<rparr>)
      else if key \<noteq> [] \<and> hd key = CHR ''#'' then Some app
      else Some (app\<lparr>app_dependencies :=
             app_dependencies app @ [NewDependencyFromManifestLine key value]\<rparr>))"

fun apply_manifest :: "(string \<times> string) list \<Rightarrow> Application \<Rightarrow> Application option" where
  "apply_manifest [] app = Some app"
| "apply_manifest ((key, value) # entries) app = do {
     app' \<leftarrow> apply_manifest_entry key value app;
     apply_manifest entries app' }"

text \<open>The inner option is the null pointer returned for an empty or unreadable manifest.\<close>

definition NewApplication :: "os \<Rightarrow> string \<Rightarrow> string \<Rightarrow> Application option option" where
  "NewApplication fs manifestPath appPath =
     (let manifest = ReadManifestFile fs manifestPath
      in if manifest = [] then Some None
         else map_option Some (apply_manifest manifest (new_application appPath manifestPath)))"

definition NewApplicationAt :: "os \<Rightarrow> string \<Rightarrow> Application option option" where
  "NewApplicationAt fs appPath = do {
     manifest \<leftarrow> Join [appPath, MANIFEST_FILENAME];
     NewApplication fs manifest appPath }"

section \<open>Paths and files\<close>

definition GetExecutablePath :: "os \<Rightarrow> Application \<Rightarrow> string option" where
  "GetExecutablePath fs app = do {
     path1 \<leftarrow> Join [app_path app, app_name app @ ''.exe''];
     if IsFile fs path1 then Some path1
     else do {
       path2 \<leftarrow> Join [app_path app, ''MacOS'', app_name app];
       if IsFile fs path2 then Some path2
       else do {
         path3 \<leftarrow> Join [app_path app, app_name app];
         if IsFile fs path3 then Some path3 else Some [] } } }"

definition GetComponentPath :: "Application \<Rightarrow> string \<Rightarrow> string option" where
  "GetComponentPath app name0 =
     (let name = map tolower name0
      in if name = ''runtime'' then map_option (comp_path \<circ> snd) (app_runtime app)
         else case List.find (\<lambda>c. comp_name (snd c) = name) (app_modules app) of
                Some c \<Rightarrow> Some (comp_path (snd c))
              | None \<Rightarrow> Some [])"

definition LICENSE_FILENAME :: string where "LICENSE_FILENAME = ''LICENSE.txt''"

definition GetLicenseText :: "os \<Rightarrow> Application \<Rightarrow> string option" where
  "GetLicenseText fs app = do {
     license \<leftarrow> Join [app_path app, LICENSE_FILENAME];
     if \<not> IsFile fs license then Some []
     else case file_contents fs (c_str license) of
            None \<Rightarrow> Some []
          | Some text \<Rightarrow> Some (concat (map (\<lambda>line. line @ [CHR 0x0A]) (split_at [CHR 0x0A] text))) }"

section \<open>Arguments\<close>

definition SetArguments_argv :: "string list \<Rightarrow> Application \<Rightarrow> Application" where
  "SetArguments_argv argv app = app\<lparr>app_arguments := app_arguments app @ argv\<rparr>"

definition SetArguments :: "string list \<Rightarrow> Application \<Rightarrow> Application" where
  "SetArguments arguments app = app\<lparr>app_arguments := arguments\<rparr>"

definition argument_matches :: "string \<Rightarrow> string \<Rightarrow> bool" where
  "argument_matches needle arg \<longleftrightarrow>
     str_find arg needle 0 = Some 0 \<or> str_find arg (''--'' @ needle) 0 = Some 0"

definition HasArgument :: "Application \<Rightarrow> string \<Rightarrow> bool" where
  "HasArgument app needle \<longleftrightarrow> (\<exists>arg \<in> set (app_arguments app). argument_matches needle arg)"

definition unquote_value :: "string \<Rightarrow> string" where
  "unquote_value value =
     (if value \<noteq> [] \<and> hd value = CHR 0x22 \<and> length value > 3
      then take (length value - 2) (drop 1 value) else value)"

fun argument_value :: "string \<Rightarrow> string list \<Rightarrow> string" where
  "argument_value needle [] = []"
| "argument_value needle (arg # args) =
     (case (argument_matches needle arg, str_find arg ''='' 0) of
        (True, Some start) \<Rightarrow> unquote_value (drop (start + 1) arg)
      | _ \<Rightarrow> argument_value needle args)"

definition GetArgumentValue :: "Application \<Rightarrow> string \<Rightarrow> string" where
  "GetArgumentValue app needle = argument_value needle (app_arguments app)"

section \<open>Dependency resolution\<close>

definition OVERRIDE_ARG :: string where "OVERRIDE_ARG = ''--bundled-component-override''"

definition GetAvailableComponents ::
  "os \<Rightarrow> string list \<Rightarrow> Application \<Rightarrow> KComponent list \<Rightarrow> bool \<Rightarrow> KComponent list option" where
  "GetAvailableComponents fs searchPaths app components onlyBundled = do {
     let override = HasArgument app OVERRIDE_ARG;
     components' \<leftarrow> ScanBundledComponents fs
       (if override then GetArgumentValue app OVERRIDE_ARG else app_path app) components;
     if override \<or> onlyBundled then Some components'
     else do {
       installed \<leftarrow> GetInstalledComponents fs searchPaths True [];
       Some (components' @ installed) } }"

definition satisfies :: "Dependency \<Rightarrow> KComponent \<Rightarrow> bool" where
  "satisfies dep cm =
     (let compare = CompareVersions (comp_version cm) (dep_version dep)
      in dep_type dep = comp_type cm \<and> dep_name dep = comp_name cm
         \<and> (comp_bundled cm
            \<or> (dep_requirement dep = EQ \<and> compare = 0)
            \<or> (dep_requirement dep = GTE \<and> compare \<ge> 0)
            \<or> (dep_requirement dep = GT \<and> compare > 0)
            \<or> (dep_requirement dep = LT \<and> compare < 0)))"

fun ResolveDependency :: "Dependency \<Rightarrow> SharedComponent list \<Rightarrow> SharedComponent option" where
  "ResolveDependency dep [] = None"
| "ResolveDependency dep (cm # components) =
     (if satisfies dep (snd cm) then Some cm else ResolveDependency dep components)"

fun resolve_all ::
  "SharedComponent list \<Rightarrow> Dependency list \<Rightarrow> Application \<Rightarrow> Dependency list \<Rightarrow>
   Application \<times> Dependency list" where
  "resolve_all components [] app unresolved = (app, unresolved)"
| "resolve_all components (d # ds) app unresolved =
     (case ResolveDependency d components of
        None \<Rightarrow> resolve_all components ds app (unresolved @ [d])
      | Some c \<Rightarrow>
          (case comp_type (snd c) of
             MODULE \<Rightarrow> resolve_all components ds (app\<lparr>app_modules := app_modules app @ [c]\<rparr>) unresolved
           | SDK \<Rightarrow> resolve_all components ds (app\<lparr>app_sdks := app_sdks app @ [c]\<rparr>) unresolved
           | MOBILESDK \<Rightarrow> resolve_all components ds (app\<lparr>app_sdks := app_sdks app @ [c]\<rparr>) unresolved
           | RUNTIME \<Rightarrow> resolve_all components ds (app\<lparr>app_runtime := Some c\<rparr>) unresolved
           | _ \<Rightarrow> resolve_all components ds app unresolved))"

text \<open>Every scanned component is a new object: its position in the vector stands for its address.\<close>

definition ResolveDependencies ::
  "os \<Rightarrow> string list \<Rightarrow> Application \<Rightarrow> (Application \<times> Dependency list) option" where
  "ResolveDependencies fs searchPaths app0 = do {
     let app = app0\<lparr>app_modules := [], app_sdks := [], app_runtime := None\<rparr>;
     components \<leftarrow> GetAvailableComponents fs searchPaths app [] False;
     Some (resolve_all (List.enumerate 0 components) (app_dependencies app) app []) }"

section \<open>Modules in use\<close>

definition fresh_address :: "SharedComponent list \<Rightarrow> nat" where
  "fresh_address cs = Suc (sum_list (map fst cs))"

definition UsingModule :: "string \<Rightarrow> string \<Rightarrow> string \<Rightarrow> Application \<Rightarrow> Application" where
  "UsingModule name version path app =
     (case List.find (\<lambda>c. comp_name (snd c) = name) (app_modules app) of
        Some c \<Rightarrow>
          app\<lparr>app_modules := map (\<lambda>(a, d). if a = fst c then (a, d\<lparr>comp_version := version\<rparr>) else (a, d))
                 (app_modules app)\<rparr>
      | None \<Rightarrow>
          app\<lparr>app_modules := app_modules app @
                 [(fresh_address (app_modules app), NewComponent MODULE name version path False)]\<rparr>)"

definition GetResolvedComponents :: "Application \<Rightarrow> SharedComponent list" where
  "GetResolvedComponents app =
     (case app_runtime app of None \<Rightarrow> [] | Some r \<Rightarrow> [r]) @ app_modules app @ app_sdks app"

section \<open>Distribution URLs\<close>

text \<open>What the URL builder reads from its surroundings: an environment variable, the machine
  identification and the build's version.\<close>

record platform =
  env_stream :: "string option"
  machine_id :: string
  os_version :: string
  os_arch :: string
  os_type :: string
  product_version :: string

definition DISTRIBUTION_URL :: string where "DISTRIBUTION_URL = ''http://api.appcelerator.net''"

definition component_uuid :: "KComponentType \<Rightarrow> string" where
  "component_uuid type = (case type of
      RUNTIME \<Rightarrow> ''A2AC5CB5-8C52-456C-9525-601A5B0725DA''
    | SDK \<Rightarrow> ''FF71038E-3CD6-40EA-A1C2-CFEE1D284CEA''
    | MOBILESDK \<Rightarrow> ''05645B49-C629-4D8F-93AF-F1CF83200E34''
    | MODULE \<Rightarrow> ''1ACE5D3A-2B52-43FB-A136-007BD166CFD0''
    | APP_UPDATE \<Rightarrow> ''353AACB5-A36C-406A-8A67-33CD45E36550''
    | UNKNOWN \<Rightarrow> [])"

definition dist_zipfile :: "Dependency \<Rightarrow> string" where
  "dist_zipfile d =
     (if dep_type d = RUNTIME then ''runtime-'' @ dep_version d @ ''.zip''
      else if dep_type d = SDK then ''sdk-'' @ dep_version d @ ''.zip''
      else if dep_type d = MOBILESDK then ''mobilesdk-'' @ dep_version d @ ''.zip''
      else if dep_type d = APP_UPDATE then ''appupdate''
      else ''module-'' @ dep_name d @ ''-'' @ dep_version d @ ''.zip'')"

definition build_query_string :: "platform \<Rightarrow> Application \<Rightarrow> string" where
  "build_query_string pf app =
     (case env_stream pf of
        Some stream \<Rightarrow> if stream = ''local'' \<or> stream = ''l'' then ''http://localhost''
                       else DISTRIBUTION_URL @ ''/'' @ take 1 stream
      | None \<Rightarrow> DISTRIBUTION_URL @ ''/'' @ take 1 (app_stream app))
     @ ''/v1/release-download''
     @ ''?os='' @ EncodeURIComponent OS_NAME
     @ ''&osver='' @ EncodeURIComponent (os_version pf)
     @ ''&tiver='' @ EncodeURIComponent (product_version pf)
     @ ''&mid='' @ EncodeURIComponent (machine_id pf)
     @ ''&aid='' @ EncodeURIComponent (app_id app)
     @ ''&guid='' @ EncodeURIComponent (app_guid app)
     @ ''&ostype='' @ EncodeURIComponent (os_type pf)
     @ ''&osarch='' @ EncodeURIComponent (os_arch pf)"

text \<open>Returns the path of a bundled archive or the URL, with the application, whose query string is
  filled in on first use.\<close>

definition GetURLForDependency ::
  "os \<Rightarrow> platform \<Rightarrow> Application \<Rightarrow> Dependency \<Rightarrow> (string \<times> Application) option" where
  "GetURLForDependency fs pf app d = do {
     zipfile \<leftarrow> Join [app_path app, ''dist'', dist_zipfile d];
     if IsFile fs zipfile then Some (zipfile, app)
     else do {
       let app' = (if app_queryString app = []
                   then app\<lparr>app_queryString := build_query_string pf app\<rparr> else app);
       Some (app_queryString app' @ ''&name='' @ dep_name d @ ''&version='' @ dep_version d
               @ ''&uuid='' @ component_uuid (dep_type d), app') } }"

definition GetUpdateURL :: "os \<Rightarrow> platform \<Rightarrow> Application \<Rightarrow> (string \<times> Application) option" where
  "GetUpdateURL fs pf app =
     GetURLForDependency fs pf app (NewDependencyFromValues APP_UPDATE ''app_update'' (app_version app))"

section \<open>Lemmas on resolution\<close>

lemma ResolveDependency_eq: "ResolveDependency dep cs = List.find (\<lambda>c. satisfies dep (snd c)) cs"
  by (induction cs) auto

lemma satisfies_type: "satisfies dep c \<Longrightarrow> comp_type c = dep_type dep \<and> comp_name c = dep_name dep"
  by (simp add: satisfies_def Let_def)

lemma satisfies_LTE: "dep_requirement dep = LTE \<Longrightarrow> satisfies dep c \<Longrightarrow> comp_bundled c"
  by (auto simp: satisfies_def Let_def)

lemma ResolveDependency_enumerate:
  "ResolveDependency dep (List.enumerate n cs) = Some (a, c) \<longleftrightarrow>
     (\<exists>i < length cs. a = n + i \<and> c = cs ! i \<and> satisfies dep c \<and> (\<forall>j < i. \<not> satisfies dep (cs ! j)))"
  unfolding ResolveDependency_eq find_Some_iff
  by (auto simp: nth_enumerate_eq)

lemma ResolveDependency_enumerate_None:
  "ResolveDependency dep (List.enumerate n cs) = None \<longleftrightarrow> (\<forall>c \<in> set cs. \<not> satisfies dep c)"
proof -
  have "set cs = snd ` set (List.enumerate n cs)"
    by (metis list.set_map map_snd_enumerate)
  then show ?thesis unfolding ResolveDependency_eq find_None_iff by auto
qed

lemma scan_bundled_modules_bundled:
  "scan_bundled_modules p ns cs = Some cs' \<Longrightarrow>
   \<exists>new. cs' = cs @ new \<and> (\<forall>c \<in> set new. comp_bundled c)"
  by (induction ns arbitrary: cs) (fastforce simp: NewComponent_def split: Option.bind_splits)+

lemma ScanBundledComponents_bundled:
  assumes "ScanBundledComponents fs p [] = Some cs"
  shows "\<forall>c \<in> set cs. comp_bundled c"
  using assms scan_bundled_modules_bundled
  by (fastforce simp: ScanBundledComponents_def NewComponent_def Let_def split: Option.bind_splits if_splits)

lemma GetAvailableComponents_split:
  assumes "GetAvailableComponents fs sp app [] False = Some comps"
    and "\<not> HasArgument app OVERRIDE_ARG"
  obtains bundled installed where "comps = bundled @ installed"
    and "\<forall>c \<in> set bundled. comp_bundled c"
    and "GetInstalledComponents fs sp True [] = Some installed"
  using assms ScanBundledComponents_bundled
  by (auto simp: GetAvailableComponents_def Let_def split: Option.bind_splits)

definition resolved :: "SharedComponent list \<Rightarrow> Dependency list \<Rightarrow> SharedComponent list" where
  "resolved cs ds = List.map_filter (\<lambda>d. ResolveDependency d cs) ds"

definition of_types :: "KComponentType list \<Rightarrow> SharedComponent list \<Rightarrow> SharedComponent list" where
  "of_types ts cs = filter (\<lambda>c. comp_type (snd c) \<in> set ts) cs"

lemma resolved_simps [simp]:
  "resolved cs [] = []"
  "resolved cs (d # ds) =
     (case ResolveDependency d cs of None \<Rightarrow> resolved cs ds | Some c \<Rightarrow> c # resolved cs ds)"
  by (simp_all add: resolved_def List.map_filter_simps split: option.split)

lemma of_types_simps [simp]:
  "of_types ts [] = []"
  "of_types ts (c # cs) = (if comp_type (snd c) \<in> set ts then c # of_types ts cs else of_types ts cs)"
  by (simp_all add: of_types_def)

lemma resolve_all_eq:
  "resolve_all cs ds app un =
     (app\<lparr>app_modules := app_modules app @ of_types [MODULE] (resolved cs ds),
          app_sdks := app_sdks app @ of_types [SDK, MOBILESDK] (resolved cs ds),
          app_runtime := (case of_types [RUNTIME] (resolved cs ds) of
                            [] \<Rightarrow> app_runtime app | rs \<Rightarrow> Some (last rs))\<rparr>,
      un @ filter (\<lambda>d. ResolveDependency d cs = None) ds)"
proof (induction ds arbitrary: app un)
  case Nil
  then show ?case by simp
next
  case (Cons d ds)
  show ?case
  proof (cases "ResolveDependency d cs")
    case None
    with Cons show ?thesis by simp
  next
    case (Some c)
    with Cons show ?thesis
      by (cases "comp_type (snd c)") (simp_all split: list.split)
  qed
qed

lemma resolved_satisfies:
  "c \<in> set (resolved cs ds) \<longleftrightarrow> (\<exists>d \<in> set ds. ResolveDependency d cs = Some c)"
  by (induction ds) (auto split: option.splits)

lemma ResolveDependency_bundled_first:
  assumes "ResolveDependency dep (List.enumerate n (bundled @ installed)) = Some (a, c)"
    and "\<forall>b \<in> set bundled. comp_bundled b" and "\<not> comp_bundled c"
  shows "c \<in> set installed \<and> (\<forall>b \<in> set bundled. \<not> satisfies dep b)
    \<and> (\<exists>i < length installed. c = installed ! i \<and> satisfies dep c
         \<and> (\<forall>j < i. \<not> satisfies dep (installed ! j)))"
proof -
  from assms(1) obtain i where i: "i < length (bundled @ installed)" "c = (bundled @ installed) ! i"
    "satisfies dep c" "\<forall>j < i. \<not> satisfies dep ((bundled @ installed) ! j)"
    unfolding ResolveDependency_enumerate by blast
  have le: "length bundled \<le> i"
    using assms(2,3) i(1,2) by (auto simp: nth_append split: if_splits dest: nth_mem)
  then have c: "c = installed ! (i - length bundled)" "i - length bundled < length installed"
    using i(1,2) by (auto simp: nth_append)
  have "\<not> satisfies dep b" if "b \<in> set bundled" for b
    using that i(4) le by (metis in_set_conv_nth nth_append order_less_le_trans)
  moreover have "\<not> satisfies dep (installed ! j)" if "j < i - length bundled" for j
    using that i(4) [rule_format, of "j + length bundled"] le by (simp add: nth_append)
  ultimately show ?thesis using c i(3) nth_mem by blast
qed

section \<open>A concrete application\<close>

text \<open>An application at \<^verbatim>\<open>/app\<close> with a bundled runtime, and a module installed in two versions.\<close>

definition demo_os :: os where
  "demo_os = list_os
     [(''/app/runtime'', []), (''/r'', []), (''/r/modules/linux'', [''ui'']),
      (''/r/modules/linux/ui'', [''1.0'', ''1.1''])] []"

definition demo_app :: Application where
  "demo_app = (new_application ''/app'' ''/app/manifest'')
     \<lparr>app_dependencies := [NewDependencyFromValues RUNTIME ''runtime'' ''0.9'',
        \<lparr>dep_type = MODULE, dep_name = ''ui'', dep_version = ''1.0'', dep_requirement = GTE\<rparr>]\<rparr>"

abbreviation demo_runtime :: KComponent where
  "demo_runtime \<equiv> NewComponent RUNTIME ''runtime'' [] ''/app/runtime'' True"

abbreviation demo_ui :: "string \<Rightarrow> KComponent" where
  "demo_ui v \<equiv> NewComponent MODULE ''ui'' v (''/r/modules/linux/ui/'' @ v) False"

lemma demo_joins:
  "Join [''/app'', ''runtime''] = Some ''/app/runtime''"
  "Join [''/app'', ''modules''] = Some ''/app/modules''"
  "Join [''/r'', ''runtime'', ''linux''] = Some ''/r/runtime/linux''"
  "Join [''/r'', ''sdk'', ''linux''] = Some ''/r/sdk/linux''"
  "Join [''/r'', ''mobilesdk'', ''linux''] = Some ''/r/mobilesdk/linux''"
  "Join [''/r'', ''modules'', ''linux''] = Some ''/r/modules/linux''"
  "Join [''/r/modules/linux'', ''ui''] = Some ''/r/modules/linux/ui''"
  "Join [''/r/modules/linux/ui'', ''1.0''] = Some ''/r/modules/linux/ui/1.0''"
  "Join [''/r/modules/linux/ui'', ''1.1''] = Some ''/r/modules/linux/ui/1.1''"
  by (simp_all add: Join_clean clean_part_def clean_component_def)

lemma demo_bundled: "ScanBundledComponents demo_os (app_path demo_app) [] = Some [demo_runtime]"
  by (simp add: ScanBundledComponents_def demo_app_def new_application_def demo_joins demo_os_def
      list_os_def IsDirectory_def ListDir_def)

lemma demo_installed:
  "GetInstalledComponents demo_os [''/r''] True [] = Some [demo_ui ''1.1'', demo_ui ''1.0'']"
  by (simp add: GetInstalledComponents_def scan_defs OS_NAME_def demo_joins demo_os_def list_os_def
      IsDirectory_def ListDir_def AddToComponentVector_def NewComponent_def
      WeakCompareComponents_iff version_key_def pieces_def less_char_def)

lemma demo_no_override: "\<not> HasArgument demo_app OVERRIDE_ARG"
  by (simp add: HasArgument_def demo_app_def new_application_def)

lemma demo_available:
  "GetAvailableComponents demo_os [''/r''] demo_app [] False
     = Some [demo_runtime, demo_ui ''1.1'', demo_ui ''1.0'']"
  using demo_no_override demo_bundled demo_installed by (simp add: GetAvailableComponents_def)

lemma demo_resolve_ui:
  "ResolveDependency \<lparr>dep_type = MODULE, dep_name = ''ui'', dep_version = ''1.0'', dep_requirement = GTE\<rparr>
     (List.enumerate 0 [demo_runtime, demo_ui ''1.1'', demo_ui ''1.0'']) = Some (1, demo_ui ''1.1'')"
  by (simp add: satisfies_def NewComponent_def CompareVersions_eq order_sign_def version_key_def
      pieces_def less_char_def)

section \<open>Properties\<close>

text \<open>C3: when a dependency resolves to a component that is not bundled, that component satisfies
  the dependency and no available component that satisfies it has a newer version.\<close>

theorem ResolveDependency_newest:
  assumes "GetAvailableComponents fs sp app [] False = Some comps"
    and "\<not> HasArgument app OVERRIDE_ARG"
    and "ResolveDependency dep (List.enumerate 0 comps) = Some (a, c)"
    and "\<not> comp_bundled c"
  shows "satisfies dep c \<and> c \<in> set comps
    \<and> (\<forall>d \<in> set comps. satisfies dep d \<longrightarrow> CompareVersions (comp_version d) (comp_version c) \<le> 0)"
proof -
  obtain bundled installed where comps: "comps = bundled @ installed"
    and b: "\<forall>c \<in> set bundled. comp_bundled c"
    and inst: "GetInstalledComponents fs sp True [] = Some installed"
    using GetAvailableComponents_split [OF assms(1,2)] .
  obtain found where f: "scan_paths fs sp [] = Some found"
    "installed = stable_sort WeakCompareComponents found"
    using GetInstalledComponents_cases [OF inst] .
  have "sorted_wrt (\<lambda>c d. \<not> WeakCompareComponents d c) installed"
    unfolding f(2) by (rule components.sorted_stable_sort)
  then have sorted: "CompareVersions (comp_version (installed ! j)) (comp_version (installed ! i)) \<le> 0"
    if "i < j" "j < length installed" for i j
    using that by (auto simp: sorted_wrt_iff_nth_less WeakCompareComponents_def not_less)
  from ResolveDependency_bundled_first [OF assms(3) [unfolded comps] b assms(4)]
  obtain i where i: "i < length installed" "c = installed ! i" "satisfies dep c"
    "\<forall>j < i. \<not> satisfies dep (installed ! j)" and nb: "\<forall>b \<in> set bundled. \<not> satisfies dep b"
    by blast
  have "CompareVersions (comp_version d) (comp_version c) \<le> 0"
    if "d \<in> set comps" "satisfies dep d" for d
  proof -
    from that nb comps have "d \<in> set installed" by auto
    then obtain j where j: "j < length installed" "d = installed ! j" by (auto simp: in_set_conv_nth)
    with that i(4) have "i \<le> j" by (meson not_less)
    then show ?thesis using sorted [of i j] j i(2)
      by (cases "i = j") (auto simp: CompareVersions_eq order_sign_def)
  qed
  then show ?thesis using i comps by (auto intro: nth_mem)
qed

theorem ResolveDependency_newest_witness:
  "CompareVersions (comp_version (demo_ui ''1.0'')) (comp_version (demo_ui ''1.1'')) \<le> 0
   \<and> demo_ui ''1.1'' \<in> set [demo_runtime, demo_ui ''1.1'', demo_ui ''1.0'']"
proof -
  let ?d = "\<lparr>dep_type = MODULE, dep_name = ''ui'', dep_version = ''1.0'', dep_requirement = GTE\<rparr>"
  have "\<not> comp_bundled (demo_ui ''1.1'')" by (simp add: NewComponent_def)
  note * = ResolveDependency_newest [OF demo_available demo_no_override demo_resolve_ui this]
  have "satisfies ?d (demo_ui ''1.0'')"
    by (simp add: satisfies_def NewComponent_def CompareVersions_eq order_sign_def)
  moreover have "demo_ui ''1.0'' \<in> set [demo_runtime, demo_ui ''1.1'', demo_ui ''1.0'']" by simp
  ultimately show ?thesis using * by blast
qed

text \<open>a bundled component of the right type and name is chosen before every installed one, whatever
  its version and the requirement say.\<close>

theorem ResolveDependency_prefers_bundled:
  assumes "GetAvailableComponents fs sp app [] False = Some comps"
    and "\<not> HasArgument app OVERRIDE_ARG"
    and "ScanBundledComponents fs (app_path app) [] = Some bundled" and "b \<in> set bundled"
    and "comp_type b = dep_type dep" and "comp_name b = dep_name dep"
  shows "\<exists>a c. ResolveDependency dep (List.enumerate 0 comps) = Some (a, c)
               \<and> comp_bundled c \<and> c \<in> set bundled"
proof -
  from assms(1-3) obtain installed where comps: "comps = bundled @ installed"
    by (auto simp: GetAvailableComponents_def Let_def split: Option.bind_splits)
  have all: "\<forall>c \<in> set bundled. comp_bundled c"
    using assms(3) by (rule ScanBundledComponents_bundled)
  with assms(4-6) have b: "satisfies dep b" by (simp add: satisfies_def Let_def)
  then have "ResolveDependency dep (List.enumerate 0 comps) \<noteq> None"
    using assms(4) comps by (auto simp: ResolveDependency_enumerate_None)
  then obtain a c where ac: "ResolveDependency dep (List.enumerate 0 comps) = Some (a, c)" by auto
  then obtain i where i: "i < length comps" "c = comps ! i" "\<forall>j < i. \<not> satisfies dep (comps ! j)"
    unfolding ResolveDependency_enumerate by blast
  obtain k where "k < length bundled" "bundled ! k = b" using assms(4) by (auto simp: in_set_conv_nth)
  then have "i < length bundled" using i(3) b comps by (metis nth_append not_less order_less_le_trans)
  with i(2) comps have "c \<in> set bundled" by (simp add: nth_append)
  with ac all show ?thesis by blast
qed

theorem ResolveDependency_prefers_bundled_witness:
  "\<exists>a c. ResolveDependency (NewDependencyFromValues RUNTIME ''runtime'' ''0.9'')
           (List.enumerate 0 [demo_runtime, demo_ui ''1.1'', demo_ui ''1.0'']) = Some (a, c)
         \<and> comp_bundled c \<and> c \<in> set [demo_runtime]"
  by (rule ResolveDependency_prefers_bundled [OF demo_available demo_no_override demo_bundled])
     (auto simp: NewComponent_def NewDependencyFromValues_def)

text \<open>a less-or-equal requirement is never satisfied by an installed component: the comparison
  has no case for it, so without a bundled component of that type and name the dependency stays
  unresolved.\<close>

theorem ResolveDependency_ignores_LTE:
  assumes "dep_requirement dep = LTE"
    and "\<forall>c \<in> set comps. comp_bundled c \<longrightarrow> comp_type c \<noteq> dep_type dep \<or> comp_name c \<noteq> dep_name dep"
  shows "ResolveDependency dep (List.enumerate 0 comps) = None"
  using assms satisfies_LTE satisfies_type unfolding ResolveDependency_enumerate_None by metis

theorem ResolveDependency_ignores_LTE_witness:
  "ResolveDependency (NewDependencyFromManifestLine ''runtime'' ''<=0.9'')
     (List.enumerate 0 [NewComponent RUNTIME ''runtime'' ''0.8'' ''/r'' False]) = None"
proof (rule ResolveDependency_ignores_LTE)
  show "dep_requirement (NewDependencyFromManifestLine ''runtime'' ''<=0.9'') = LTE"
    using parse_requirement_operator [of "''0.9''" LTE]
    by (simp add: NewDependencyFromManifestLine_def operator_free_def)
qed (simp add: NewComponent_def)

text \<open>C12: ResolveDependencies starts from a blank slate and files every dependency exactly once: the
  unresolved ones are returned in order, the components found become the modules, the SDKs
  and the runtime (the last one found), each under its own type, and nothing else of the
  application changes.\<close>

theorem ResolveDependencies_correct:
  assumes "ResolveDependencies fs sp app = Some (app', unresolved)"
    and "GetAvailableComponents fs sp app [] False = Some comps"
  shows "unresolved = filter (\<lambda>d. \<forall>c \<in> set comps. \<not> satisfies d c) (app_dependencies app)
    \<and> app_modules app' = of_types [MODULE] (resolved (List.enumerate 0 comps) (app_dependencies app))
    \<and> app_sdks app' = of_types [SDK, MOBILESDK] (resolved (List.enumerate 0 comps) (app_dependencies app))
    \<and> app_runtime app' = (let rs = of_types [RUNTIME] (resolved (List.enumerate 0 comps) (app_dependencies app))
                          in if rs = [] then None else Some (last rs))
    \<and> app'\<lparr>app_modules := app_modules app, app_sdks := app_sdks app, app_runtime := app_runtime app\<rparr> = app"
proof -
  let ?blank = "app\<lparr>app_modules := [], app_sdks := [], app_runtime := None\<rparr>"
  have "GetAvailableComponents fs sp ?blank [] False = GetAvailableComponents fs sp app [] False"
    by (simp add: GetAvailableComponents_def HasArgument_def GetArgumentValue_def)
  with assms have "resolve_all (List.enumerate 0 comps) (app_dependencies app) ?blank [] = (app', unresolved)"
    by (simp add: ResolveDependencies_def Let_def)
  then show ?thesis
    unfolding resolve_all_eq
    by (auto simp: ResolveDependency_enumerate_None Let_def split: list.splits)
qed

theorem ResolveDependencies_correct_witness:
  "\<exists>app' un. ResolveDependencies demo_os [''/r''] demo_app = Some (app', un)
     \<and> un = [] \<and> app_modules app' = [(1, demo_ui ''1.1'')] \<and> app_runtime app' = Some (0, demo_runtime)"
proof -
  obtain app' un where r: "ResolveDependencies demo_os [''/r''] demo_app = Some (app', un)"
  proof -
    have "GetAvailableComponents demo_os [''/r'']
        (demo_app\<lparr>app_modules := [], app_sdks := [], app_runtime := None\<rparr>) [] False
        = GetAvailableComponents demo_os [''/r''] demo_app [] False"
      by (simp add: GetAvailableComponents_def HasArgument_def GetArgumentValue_def)
    then show thesis
      using that demo_available by (cases "resolve_all (List.enumerate 0
          [demo_runtime, demo_ui ''1.1'', demo_ui ''1.0'']) (app_dependencies demo_app)
          (demo_app\<lparr>app_modules := [], app_sdks := [], app_runtime := None\<rparr>) []")
        (auto simp: ResolveDependencies_def Let_def)
  qed
  have res: "resolved (List.enumerate 0 [demo_runtime, demo_ui ''1.1'', demo_ui ''1.0''])
      (app_dependencies demo_app) = [(0, demo_runtime), (1, demo_ui ''1.1'')]"
    using demo_resolve_ui
    by (simp add: demo_app_def NewDependencyFromValues_def satisfies_def NewComponent_def)
  have un: "filter (\<lambda>d. \<forall>c \<in> set [demo_runtime, demo_ui ''1.1'', demo_ui ''1.0'']. \<not> satisfies d c)
      (app_dependencies demo_app) = []"
    by (simp add: demo_app_def NewDependencyFromValues_def satisfies_def NewComponent_def
        CompareVersions_eq order_sign_def)
  show ?thesis
    using ResolveDependencies_correct [OF r demo_available, unfolded res un] r
    by (simp add: NewComponent_def)
qed

lemma fresh_address_new: "(a, d) \<in> set cs \<Longrightarrow> a \<noteq> fresh_address cs"
proof -
  assume "(a, d) \<in> set cs"
  then have "a \<in> set (map fst cs)" by force
  from member_le_sum_list [OF this] show ?thesis by (simp add: fresh_address_def)
qed

text \<open>after UsingModule the application lists the module under its name with the given version;
  the list of names grows only if the name is new, modules of other names keep their version unless
  they are the same component, and a repeated call changes nothing.\<close>

theorem UsingModule_correct:
  "(\<exists>c. List.find (\<lambda>c. comp_name (snd c) = n) (app_modules (UsingModule n v p app)) = Some c
        \<and> comp_version (snd c) = v)
   \<and> map (comp_name \<circ> snd) (app_modules (UsingModule n v p app)) =
       (let ns = map (comp_name \<circ> snd) (app_modules app) in if n \<in> set ns then ns else ns @ [n])
   \<and> UsingModule n v p (UsingModule n v p app) = UsingModule n v p app"
proof (cases "List.find (\<lambda>c. comp_name (snd c) = n) (app_modules app)")
  case None
  then have "\<forall>c \<in> set (app_modules app). comp_name (snd c) \<noteq> n" by (rule find_NoneD)
  moreover from this have "n \<notin> set (map (comp_name \<circ> snd) (app_modules app))" by auto
  moreover have "map (\<lambda>(a, d). if a = fresh_address (app_modules app) then (a, d\<lparr>comp_version := v\<rparr>)
      else (a, d)) (app_modules app) = app_modules app"
    using fresh_address_new by (auto intro!: map_idI)
  ultimately show ?thesis
    using None by (simp add: UsingModule_def NewComponent_def find_append_None)
next
  case (Some c)
  let ?u = "\<lambda>(a, d :: KComponent). if a = fst c then (a, d\<lparr>comp_version := v\<rparr>) else (a, d)"
  have n: "comp_name (snd (?u x)) = comp_name (snd x)" for x by (auto split: prod.split)
  have "List.find (\<lambda>c. comp_name (snd c) = n) (map ?u xs) =
      map_option ?u (List.find (\<lambda>c. comp_name (snd c) = n) xs)" for xs
    by (induction xs) (auto simp: n)
  from this [of "app_modules app"] Some
  have f: "List.find (\<lambda>c. comp_name (snd c) = n) (map ?u (app_modules app)) = Some (?u c)"
    by simp
  have names: "map (comp_name \<circ> snd) (map ?u (app_modules app)) = map (comp_name \<circ> snd) (app_modules app)"
    using n by (simp add: comp_def)
  have idem: "map ?u (map ?u (app_modules app)) = map ?u (app_modules app)"
    by (auto simp: case_prod_beta)
  have mem: "n \<in> set (map (comp_name \<circ> snd) (app_modules app))"
    using Some by (force simp: find_Some_iff)
  have upd: "UsingModule n v p app = app\<lparr>app_modules := map ?u (app_modules app)\<rparr>"
    using Some by (simp add: UsingModule_def)
  have v: "comp_version (snd (?u c)) = v" by (simp add: case_prod_beta)
  have fst_u: "fst (?u c) = fst c" by (simp add: case_prod_beta)
  have "UsingModule n v p (app\<lparr>app_modules := map ?u (app_modules app)\<rparr>)
      = app\<lparr>app_modules := map ?u (map ?u (app_modules app))\<rparr>"
    using f fst_u by (simp add: UsingModule_def)
  then have "UsingModule n v p (UsingModule n v p app) = UsingModule n v p app"
    unfolding upd idem .
  with f names mem v show ?thesis unfolding upd Let_def by auto
qed

text \<open>the value of an argument given as needle=value or --needle=value is found; quotes around a
  value are removed only when the value has at least two characters, so a quoted single
  character keeps its quotes.\<close>

theorem GetArgumentValue_correct:
  assumes "CHR ''='' \<notin> set needle" and "pre = [] \<or> pre = ''--''"
  shows "HasArgument (SetArguments ((pre @ needle @ ''='' @ x) # args) app) needle
    \<and> GetArgumentValue (SetArguments ((pre @ needle @ ''='' @ x) # args) app) needle = unquote_value x
    \<and> unquote_value (CHR 0x22 # w @ [CHR 0x22]) = (if 2 \<le> length w then w else CHR 0x22 # w @ [CHR 0x22])"
proof -
  let ?arg = "pre @ needle @ ''='' @ x"
  have m: "argument_matches needle ?arg"
    using assms(2) str_find_prefix [of needle] str_find_prefix [of "''--'' @ needle"]
    by (auto simp: argument_matches_def)
  have "CHR ''='' \<notin> set (pre @ needle)" using assms by auto
  from str_find_char_append [OF this, of x]
  have "str_find ?arg ''='' 0 = Some (length (pre @ needle))" by simp
  then have v: "argument_value needle (?arg # args) = unquote_value x"
    using m by simp
  have "unquote_value (CHR 0x22 # w @ [CHR 0x22])
      = (if 2 \<le> length w then w else CHR 0x22 # w @ [CHR 0x22])"
    by (auto simp: unquote_value_def)
  with m v show ?thesis
    by (simp add: HasArgument_def SetArguments_def GetArgumentValue_def)
qed

theorem GetArgumentValue_correct_witness:
  "GetArgumentValue (SetArguments [''--logpath=/tmp/x''] demo_app) ''logpath'' = ''/tmp/x''"
proof -
  have "CHR ''='' \<notin> set ''logpath''" by simp
  from GetArgumentValue_correct [OF this disjI2 [OF refl], of "''/tmp/x''" "[]" demo_app "[]"]
  show ?thesis by (simp add: unquote_value_def)
qed

text \<open>every manifest entry whose key does not start with a hash sign becomes one dependency, in the
  order of the manifest; entries that do never add a dependency, and the application id is the
  value of the last id entry.\<close>

theorem apply_manifest_dependencies:
  assumes "apply_manifest entries app = Some app'"
  shows "app_dependencies app' = app_dependencies app @
      map (\<lambda>(k, v). NewDependencyFromManifestLine k v)
        (filter (\<lambda>(k, v). \<not> (k \<noteq> [] \<and> hd k = CHR ''#'')) entries)
    \<and> app_id app' = (case filter (\<lambda>(k, v). k = ''#appid'') entries of
        [] \<Rightarrow> app_id app | es \<Rightarrow> snd (last es))"
  using assms
proof (induction entries arbitrary: app)
  case Nil
  then show ?case by simp
next
  case (Cons e entries)
  obtain k v where e: "e = (k, v)" by (cases e)
  from Cons.prems e obtain app1 where a: "apply_manifest_entry k v app = Some app1"
    "apply_manifest entries app1 = Some app'"
    by (auto split: Option.bind_splits)
  have "app_dependencies app1 = app_dependencies app @
      (if k \<noteq> [] \<and> hd k = CHR ''#'' then [] else [NewDependencyFromManifestLine k v])"
    using a(1) by (auto simp: apply_manifest_entry_def split: if_splits Option.bind_splits)
  moreover have "app_id app1 = (if k = ''#appid'' then v else app_id app)"
    using a(1) by (auto simp: apply_manifest_entry_def split: if_splits Option.bind_splits)
  ultimately show ?case
    using Cons.IH [OF a(2)] by (auto simp: e split: list.splits)
qed

theorem apply_manifest_dependencies_witness:
  "\<exists>app'. apply_manifest [(''#appid'', ''com.x''), (''ui'', ''1.0'')] demo_app = Some app'
     \<and> app_id app' = ''com.x''
     \<and> app_dependencies app' = app_dependencies demo_app @ [NewDependencyFromManifestLine ''ui'' ''1.0'']"
proof -
  obtain app' where a: "apply_manifest [(''#appid'', ''com.x''), (''ui'', ''1.0'')] demo_app = Some app'"
    by (simp add: apply_manifest_entry_def)
  show ?thesis using apply_manifest_dependencies [OF a] a by simp
qed

end
