(* ===== verification/Kroll_AppURL.thy ===== *)
theory Kroll_AppURL
  imports Kroll_Application Kroll_URLUtils
begin

text \<open>
  The conversion of \<^verbatim>\<open>ti\<close> and \<^verbatim>\<open>app\<close> URLs to paths, the last part of \<^verbatim>\<open>src/api/utils/url_utils.cpp\<close>.
  \<^verbatim>\<open>Poco::URI\<close> is an argument: it splits a URL into scheme, host and path segments, or throws (\<^const>\<open>None\<close>).
  A conversion yields its result and whether an error was logged; \<^const>\<open>None\<close> is undefined behaviour of \<^verbatim>\<open>Join\<close>.
\<close>

section \<open>Conversion\<close>

record uri_parts =
  uri_scheme :: string
  uri_host :: string
  uri_segments :: "string list"

type_synonym uri_parser = "string \<Rightarrow> uri_parts option"

fun join_segments :: "string \<Rightarrow> string list \<Rightarrow> string option" where
  "join_segments path [] = Some path"
| "join_segments path (s # ss) = do {
     path' \<leftarrow> Join [path, s];
     join_segments path' ss }"

text \<open>A runtime that is null makes \<^verbatim>\<open>GetComponentPath\<close> throw, as an empty component path does here.\<close>

definition TiURLToPath :: "uri_parser \<Rightarrow> Application \<Rightarrow> string \<Rightarrow> (string \<times> bool) option" where
  "TiURLToPath parse app tiURL =
     (case parse tiURL of
        None \<Rightarrow> Some (tiURL, True)
      | Some inURI \<Rightarrow>
          if uri_scheme inURI \<noteq> ''ti'' then Some (tiURL, False)
          else case GetComponentPath app (uri_host inURI) of
                 None \<Rightarrow> Some (tiURL, True)
               | Some path \<Rightarrow>
                   if path = [] then Some (tiURL, True)
                   else map_option (\<lambda>p. (p, False)) (join_segments path (uri_segments inURI)))"

definition AppURLToPath :: "uri_parser \<Rightarrow> Application \<Rightarrow> string \<Rightarrow> (string \<times> bool) option" where
  "AppURLToPath parse app inURL =
     (case parse inURL of
        None \<Rightarrow> Some (inURL, True)
      | Some inURI \<Rightarrow>
          if uri_scheme inURI \<noteq> ''app'' then Some (inURL, False)
          else case Option.bind (NormalizeAppURL (app_id app) inURL) parse of
                 None \<Rightarrow> Some (inURL, True)
               | Some uri \<Rightarrow> do {
                   path \<leftarrow> GetResourcesPath app;
                   path' \<leftarrow> join_segments path (uri_segments uri);
                   Some (path', False) })"

text \<open>The first parse is outside of the handlers: its exception is the result \<^const>\<open>Inl\<close>.\<close>

definition URLToPath :: "uri_parser \<Rightarrow> Application \<Rightarrow> string \<Rightarrow> (unit + string \<times> bool) option" where
  "URLToPath parse app url =
     (case parse url of
        None \<Rightarrow> Some (Inl ())
      | Some inURI \<Rightarrow>
          if uri_scheme inURI = ''ti'' then map_option Inr (TiURLToPath parse app url)
          else if uri_scheme inURI = ''app'' then map_option Inr (AppURLToPath parse app url)
          else Some (Inr (url, False)))"

section \<open>Lemmas\<close>

lemma join_segments_clean:
  assumes "clean_part path" and "last path \<noteq> CHR ''/''" and "\<forall>s \<in> set ss. clean_component s"
  shows "join_segments path ss = Some (intercalate KR_PATH_SEP (path # ss))"
  using assms
proof (induction ss arbitrary: path)
  case (Cons s ss)
  have "clean_part (path @ ''/'' @ s)" "last (path @ ''/'' @ s) \<noteq> CHR ''/''"
    using Cons.prems by (auto simp: clean_part_def clean_component_def)
  with Cons.IH [of "path @ ''/'' @ s"] Cons.prems show ?case
    by (simp add: Join_clean intercalate_Cons) (cases ss; simp add: intercalate_Cons)
qed simp

lemma NormalizeAppURL_same_prefix:
  "NormalizeAppURL appid (''app://'' @ appid @ rest) = Some (''app://'' @ appid @ rest)"
  by (simp add: NormalizeAppURL_def substr_def)

lemma NormalizeAppURL_cases:
  assumes "NormalizeAppURL appid url = Some url'"
  shows "6 \<le> length url
    \<and> url' = (if take (length appid) (drop 6 url) = appid then url
              else ''app://'' @ appid @ ''/'' @ drop 6 url)"
  using assms by (auto simp: NormalizeAppURL_def substr_def split: if_splits bind_splits)

lemma clean_Resources: "clean_component ''Resources''"
  by (simp add: clean_component_def clean_part_def)

lemma clean_part_GetResourcesPath:
  assumes "clean_part (app_path app)"
  shows "GetResourcesPath app = Some (app_path app @ ''/Resources'')"
    and "clean_part (app_path app @ ''/Resources'')"
  using assms Join_clean [of "app_path app" "[''Resources'']"] clean_Resources
  by (simp_all add: GetResourcesPath_def intercalate_Cons clean_part_def)

section \<open>What is converted\<close>

text \<open>A URL that parses is left alone unless its scheme is one of the two; the conversions report no error for it.\<close>

theorem URLToPath_other_scheme:
  assumes "parse url = Some u" and "uri_scheme u \<noteq> ''ti''" and "uri_scheme u \<noteq> ''app''"
  shows "URLToPath parse app url = Some (Inr (url, False))"
    and "TiURLToPath parse app url = Some (url, False)"
    and "AppURLToPath parse app url = Some (url, False)"
  using assms by (simp_all add: URLToPath_def TiURLToPath_def AppURLToPath_def)

text \<open>An application URL whose segments are clean is the path of its segments under the resources.\<close>

theorem URLToPath_app:
  assumes "parse url = Some u" and "uri_scheme u = ''app''"
    and "NormalizeAppURL (app_id app) url = Some url'" and "parse url' = Some u'"
    and "clean_part (app_path app)" and "\<forall>s \<in> set (uri_segments u'). clean_component s"
  shows "URLToPath parse app url
    = Some (Inr (intercalate KR_PATH_SEP ((app_path app @ ''/Resources'') # uri_segments u'), False))"
proof -
  have "join_segments (app_path app @ ''/Resources'') (uri_segments u')
      = Some (intercalate KR_PATH_SEP ((app_path app @ ''/Resources'') # uri_segments u'))"
    using clean_part_GetResourcesPath(2) [OF assms(5)] assms(6) by (intro join_segments_clean) auto
  then show ?thesis
    using assms(1-4) clean_part_GetResourcesPath(1) [OF assms(5)]
    by (simp add: URLToPath_def AppURLToPath_def)
qed

text \<open>A \<^verbatim>\<open>ti\<close> URL is the path of its segments under the component that its host names, without regard to case.\<close>

theorem URLToPath_ti:
  assumes "parse url = Some u" and "uri_scheme u = ''ti''"
    and "List.find (\<lambda>c. comp_name (snd c) = map tolower (uri_host u)) (app_modules app) = Some c"
    and "map tolower (uri_host u) \<noteq> ''runtime''"
    and "clean_part (comp_path (snd c))" and "\<forall>s \<in> set (uri_segments u). clean_component s"
  shows "URLToPath parse app url
    = Some (Inr (intercalate KR_PATH_SEP (comp_path (snd c) # uri_segments u), False))"
proof -
  have "GetComponentPath app (uri_host u) = Some (comp_path (snd c))" "comp_path (snd c) \<noteq> []"
    using assms(3-5) by (simp_all add: GetComponentPath_def Let_def clean_part_def)
  moreover have "last (comp_path (snd c)) \<noteq> CHR ''/''"
    using assms(5) by (simp add: clean_part_def)
  ultimately show ?thesis
    using assms(1,2) join_segments_clean [OF assms(5) _ assms(6)]
    by (simp add: URLToPath_def TiURLToPath_def)
qed

text \<open>A URL whose component is not known is returned unchanged, with an error in the log.\<close>

theorem TiURLToPath_unknown:
  assumes "parse url = Some u" and "uri_scheme u = ''ti''"
    and "map tolower (uri_host u) \<noteq> ''runtime''"
    and "List.find (\<lambda>c. comp_name (snd c) = map tolower (uri_host u)) (app_modules app) = None"
  shows "TiURLToPath parse app url = Some (url, True)"
  using assms by (simp add: TiURLToPath_def GetComponentPath_def Let_def)

text \<open>The segments are not checked: a parent segment is joined like any other, so the path may leave the resources.\<close>

theorem URLToPath_parent_segment:
  assumes "parse url = Some u" and "uri_scheme u = ''app''"
    and "NormalizeAppURL (app_id app) url = Some url'" and "parse url' = Some u'"
    and "clean_part (app_path app)" and "uri_segments u' = [''..'', ''manifest'']"
  shows "URLToPath parse app url = Some (Inr (app_path app @ ''/Resources/../manifest'', False))"
  using URLToPath_app [OF assms(1-5)] assms(6)
  by (simp add: clean_component_def clean_part_def intercalate_Cons)

text \<open>A parser of such URLs for the theorems above: the path is what follows the first slash after the host.\<close>

definition demo_parse :: uri_parser where
  "demo_parse url =
     (if take 6 url = ''app://'' then
        let rest = drop 6 url in
        Some \<lparr>uri_scheme = ''app'', uri_host = takeWhile (\<lambda>c. c \<noteq> CHR ''/'') rest,
              uri_segments = Tokenize (dropWhile (\<lambda>c. c \<noteq> CHR ''/'') rest) [] ''/'' False\<rparr>
      else None)"

theorem URLToPath_parent_segment_witness:
  "URLToPath demo_parse ((new_application ''/opt/app'' [])\<lparr>app_id := ''id''\<rparr>) ''app://id/../manifest''
     = Some (Inr (''/opt/app/Resources/../manifest'', False))"
proof -
  let ?app = "(new_application ''/opt/app'' [])\<lparr>app_id := ''id''\<rparr>"
  have t: "Tokenize ''/../manifest'' [] ''/'' False = [''..'', ''manifest'']" by code_simp
  have p: "demo_parse ''app://id/../manifest''
      = Some \<lparr>uri_scheme = ''app'', uri_host = ''id'', uri_segments = [''..'', ''manifest'']\<rparr>"
    by (simp add: demo_parse_def t)
  have n: "NormalizeAppURL (app_id ?app) ''app://id/../manifest'' = Some ''app://id/../manifest''"
    by (simp add: NormalizeAppURL_def substr_def)
  have c: "clean_part (app_path ?app)" by (simp add: new_application_def clean_part_def)
  show ?thesis
    using URLToPath_parent_segment [where parse = demo_parse and app = ?app, OF p _ n p] c
    by (simp add: new_application_def)
qed

end
