(* ===== verification/Kroll_Value.thy ===== *)
theory Kroll_Value
  imports Complex_Main Kroll_Prelude
begin

text \<open>
  The variant type of the binding layer (\<^verbatim>\<open>src/api/binding/value.cpp\<close>): the type tag, one
  field per payload, the constructors, predicates, accessors and setters, the copy
  \<^verbatim>\<open>SetValue\<close> and the comparison \<^verbatim>\<open>Equals\<close>.

  A \<^verbatim>\<open>char*\<close> owned by a value is a pair of the address \<^verbatim>\<open>strdup\<close> returned and its
  contents, because \<^verbatim>\<open>Equals\<close> compares the addresses; the setters of strings take the address
  of the new block as their first argument.  \<^verbatim>\<open>boolValue\<close> is not initialised by any
  constructor: it is \<^const>\<open>None\<close> until \<^verbatim>\<open>SetBool\<close> runs.  Objects are addresses; what a
  value asks of them (the dynamic casts to \<^verbatim>\<open>KMethod\<close> and \<^verbatim>\<open>KList\<close>, the virtual
  \<^verbatim>\<open>Equals\<close> and \<^verbatim>\<open>GetType\<close>) are arguments here and are supplied by the object theories.

  A \<^verbatim>\<open>double\<close> is a superset of the IEEE values (every finite one is a rational); the class
  stores, compares and truncates doubles and never rounds one.  Truncation out of the range of
  \<^verbatim>\<open>int\<close> gives the integer indefinite value, as the conversion instruction of the x86
  platforms the program is built for does.
\<close>

type_synonym addr = nat

section \<open>Doubles and their conversion to int\<close>

datatype double = Fin rat | NegZero | Inf bool | NaN

fun dbl_eq :: "double \<Rightarrow> double \<Rightarrow> bool" where
  "dbl_eq (Fin p) (Fin q) \<longleftrightarrow> p = q"
| "dbl_eq (Fin p) NegZero \<longleftrightarrow> p = 0"
| "dbl_eq NegZero (Fin q) \<longleftrightarrow> q = 0"
| "dbl_eq NegZero NegZero \<longleftrightarrow> True"
| "dbl_eq (Inf s) (Inf t) \<longleftrightarrow> s = t"
| "dbl_eq _ _ \<longleftrightarrow> False"

definition dbl_of_int :: "int32 \<Rightarrow> double" where
  "dbl_of_int i = Fin (of_int (sint i))"

definition INT_MIN :: int32 where
  "INT_MIN = word_of_int (- (2 ^ 31))"

definition rat_trunc :: "rat \<Rightarrow> int" where
  "rat_trunc q = (if 0 \<le> q then \<lfloor>q\<rfloor> else \<lceil>q\<rceil>)"

fun cast_int :: "double \<Rightarrow> int32" where
  "cast_int (Fin q) = (if - (2 ^ 31) \<le> rat_trunc q \<and> rat_trunc q < 2 ^ 31
     then word_of_int (rat_trunc q) else INT_MIN)"
| "cast_int NegZero = 0"
| "cast_int (Inf _) = INT_MIN"
| "cast_int NaN = INT_MIN"

lemma sint_int32_bounds: "- (2 ^ 31) \<le> sint (i :: int32)" "sint (i :: int32) < 2 ^ 31"
  using sint_greater_eq [of i] sint_less [of i] by simp_all

lemma sint_word_of_int32:
  "- (2 ^ 31) \<le> k \<Longrightarrow> k < 2 ^ 31 \<Longrightarrow> sint (word_of_int k :: int32) = k"
  by (simp add: signed_of_int signed_take_bit_int_eq_self)

lemma rat_trunc_of_int [simp]: "rat_trunc (of_int k) = k"
  by (simp add: rat_trunc_def)

lemma rat_trunc_signed [simp]: "rat_trunc (signed (i :: int32)) = sint i"
  using rat_trunc_of_int [of "sint i"] by (simp only: of_int_sint)

lemma sint_INT_MIN [simp]: "sint INT_MIN = - (2 ^ 31)"
  unfolding INT_MIN_def by (rule sint_word_of_int32) auto

lemma cast_int_dbl_of_int [simp]: "cast_int (dbl_of_int i) = i"
  using sint_int32_bounds [of i] by (simp add: dbl_of_int_def)

lemma dbl_eq_refl_iff: "dbl_eq d d \<longleftrightarrow> d \<noteq> NaN"
  by (cases d) auto

lemma dbl_eq_sym: "dbl_eq d e \<longleftrightarrow> dbl_eq e d"
  by (cases d; cases e) auto

lemma dbl_eq_trans: "dbl_eq d e \<Longrightarrow> dbl_eq e f \<Longrightarrow> dbl_eq d f"
  by (cases d; cases e; cases f) auto

text \<open>The doubles that are equal to some \<^verbatim>\<open>int\<close>: the integers in range, and minus zero.\<close>

definition int_like :: "double \<Rightarrow> int32 \<Rightarrow> bool" where
  "int_like d i \<longleftrightarrow> d = Fin (of_int (sint i)) \<or> (d = NegZero \<and> i = 0)"

lemma dbl_eq_cast_int_iff: "dbl_eq (dbl_of_int (cast_int d)) d \<longleftrightarrow> int_like d (cast_int d)"
proof (cases d)
  case (Fin q)
  then show ?thesis by (auto simp: dbl_of_int_def int_like_def simp del: cast_int.simps)
next
  case NegZero
  then show ?thesis by (simp add: dbl_of_int_def int_like_def)
qed (simp_all add: dbl_of_int_def int_like_def)

lemma int_like_cast: "int_like d i \<Longrightarrow> cast_int d = i"
  using cast_int_dbl_of_int [of i] by (auto simp: int_like_def dbl_of_int_def simp del: cast_int.simps(1))

lemma dbl_eq_cast_int_ex: "dbl_eq (dbl_of_int (cast_int d)) d \<longleftrightarrow> (\<exists>i. int_like d i)"
  using dbl_eq_cast_int_iff int_like_cast by metis

lemma int_like_iff_cast: "int_like d i \<longleftrightarrow> int_like d (cast_int d) \<and> cast_int d = i"
  using int_like_cast by auto

lemma int_like_dbl_eq: "int_like d i \<Longrightarrow> int_like e i \<Longrightarrow> dbl_eq d e"
  by (auto simp: int_like_def)

section \<open>The record and its operations\<close>

datatype vtype = INTV | DOUBLE | BOOL | STRING | LIST | OBJECT | METHOD | VOIDPTR | NULLV | UNDEFINED

record Value =
  type :: vtype
  numberValue :: double
  boolValue :: "bool option"
  stringValue :: "(addr \<times> string) option"
  objectValue :: "addr option"
  voidPtrValue :: addr

definition Value_IsInt :: "Value \<Rightarrow> bool" where
  "Value_IsInt v \<longleftrightarrow> type v = INTV \<or>
     (type v = DOUBLE \<and> dbl_eq (dbl_of_int (cast_int (numberValue v))) (numberValue v))"

definition Value_IsDouble :: "Value \<Rightarrow> bool" where "Value_IsDouble v \<longleftrightarrow> type v = DOUBLE"

definition Value_IsNumber :: "Value \<Rightarrow> bool" where
  "Value_IsNumber v \<longleftrightarrow> type v = DOUBLE \<or> type v = INTV"

definition Value_IsBool :: "Value \<Rightarrow> bool" where "Value_IsBool v \<longleftrightarrow> type v = BOOL"

definition Value_IsString :: "Value \<Rightarrow> bool" where "Value_IsString v \<longleftrightarrow> type v = STRING"

definition Value_IsList :: "Value \<Rightarrow> bool" where "Value_IsList v \<longleftrightarrow> type v = LIST"

definition Value_IsObject :: "Value \<Rightarrow> bool" where "Value_IsObject v \<longleftrightarrow> type v = OBJECT"

definition Value_IsMethod :: "Value \<Rightarrow> bool" where "Value_IsMethod v \<longleftrightarrow> type v = METHOD"

definition Value_IsVoidPtr :: "Value \<Rightarrow> bool" where "Value_IsVoidPtr v \<longleftrightarrow> type v = VOIDPTR"

definition Value_IsNull :: "Value \<Rightarrow> bool" where "Value_IsNull v \<longleftrightarrow> type v = NULLV"

definition Value_IsUndefined :: "Value \<Rightarrow> bool" where "Value_IsUndefined v \<longleftrightarrow> type v = UNDEFINED"

lemmas Value_Is_defs = Value_IsInt_def Value_IsDouble_def Value_IsNumber_def Value_IsBool_def
  Value_IsString_def Value_IsList_def Value_IsObject_def Value_IsMethod_def Value_IsVoidPtr_def
  Value_IsNull_def Value_IsUndefined_def

definition Value_ToInt :: "Value \<Rightarrow> int32" where "Value_ToInt v = cast_int (numberValue v)"

definition Value_ToDouble :: "Value \<Rightarrow> double" where "Value_ToDouble v = numberValue v"

definition Value_ToNumber :: "Value \<Rightarrow> double" where "Value_ToNumber v = numberValue v"

definition Value_ToBool :: "Value \<Rightarrow> bool option" where "Value_ToBool v = boolValue v"

definition Value_ToString :: "Value \<Rightarrow> (addr \<times> string) option" where "Value_ToString v = stringValue v"

definition Value_ToObject :: "Value \<Rightarrow> addr option" where "Value_ToObject v = objectValue v"

text \<open>\<^verbatim>\<open>AutoPtr::cast\<close> is a \<^verbatim>\<open>dynamic_cast\<close>: null unless the object has the class.\<close>

definition autoptr_cast :: "(addr \<Rightarrow> bool) \<Rightarrow> addr option \<Rightarrow> addr option" where
  "autoptr_cast isA p = (case p of Some ob \<Rightarrow> if isA ob then Some ob else None | None \<Rightarrow> None)"

definition Value_ToMethod :: "(addr \<Rightarrow> bool) \<Rightarrow> Value \<Rightarrow> addr option" where
  "Value_ToMethod isMethod v = autoptr_cast isMethod (objectValue v)"

definition Value_ToList :: "(addr \<Rightarrow> bool) \<Rightarrow> Value \<Rightarrow> addr option" where
  "Value_ToList isList v = autoptr_cast isList (objectValue v)"

definition Value_ToVoidPtr :: "Value \<Rightarrow> addr" where "Value_ToVoidPtr v = voidPtrValue v"

lemmas Value_To_defs = Value_ToInt_def Value_ToDouble_def Value_ToNumber_def Value_ToBool_def
  Value_ToString_def Value_ToObject_def Value_ToMethod_def Value_ToList_def Value_ToVoidPtr_def

definition Value_new :: Value where
  "Value_new = \<lparr>type = UNDEFINED, numberValue = Fin 0, boolValue = None, stringValue = None,
     objectValue = None, voidPtrValue = 0\<rparr>"

definition Value_reset :: "Value \<Rightarrow> Value" where
  "Value_reset v = (let v1 = (if Value_IsString v \<and> stringValue v \<noteq> None
       then v\<lparr>stringValue := None\<rparr> else v) in
     v1\<lparr>type := UNDEFINED, objectValue := None, stringValue := None, numberValue := Fin 0,
        voidPtrValue := 0\<rparr>)"

definition Value_SetInt :: "int32 \<Rightarrow> Value \<Rightarrow> Value" where
  "Value_SetInt i v = (Value_reset v)\<lparr>numberValue := dbl_of_int i, type := INTV\<rparr>"

definition Value_SetDouble :: "double \<Rightarrow> Value \<Rightarrow> Value" where
  "Value_SetDouble d v = (Value_reset v)\<lparr>numberValue := d, type := DOUBLE\<rparr>"

definition Value_SetBool :: "bool option \<Rightarrow> Value \<Rightarrow> Value" where
  "Value_SetBool b v = (Value_reset v)\<lparr>boolValue := b, type := BOOL\<rparr>"

definition Value_SetString :: "addr \<Rightarrow> string \<Rightarrow> Value \<Rightarrow> Value" where
  "Value_SetString a s v = (Value_reset v)\<lparr>stringValue := Some (a, c_str s), type := STRING\<rparr>"

definition Value_SetList :: "addr option \<Rightarrow> Value \<Rightarrow> Value" where
  "Value_SetList p v = (Value_reset v)\<lparr>objectValue := p, type := (if p = None then NULLV else LIST)\<rparr>"

definition Value_SetObject :: "addr option \<Rightarrow> Value \<Rightarrow> Value" where
  "Value_SetObject p v = (Value_reset v)\<lparr>objectValue := p, type := (if p = None then NULLV else OBJECT)\<rparr>"

definition Value_SetMethod :: "addr option \<Rightarrow> Value \<Rightarrow> Value" where
  "Value_SetMethod p v = (Value_reset v)\<lparr>objectValue := p, type := (if p = None then NULLV else METHOD)\<rparr>"

definition Value_SetVoidPtr :: "addr \<Rightarrow> Value \<Rightarrow> Value" where
  "Value_SetVoidPtr p v = (Value_reset v)\<lparr>voidPtrValue := p, type := VOIDPTR\<rparr>"

definition Value_SetNull :: "Value \<Rightarrow> Value" where
  "Value_SetNull v = (Value_reset v)\<lparr>type := NULLV\<rparr>"

definition Value_SetUndefined :: "Value \<Rightarrow> Value" where
  "Value_SetUndefined v = (Value_reset v)\<lparr>type := UNDEFINED\<rparr>"

lemmas Value_Set_defs = Value_SetInt_def Value_SetDouble_def Value_SetBool_def Value_SetString_def
  Value_SetList_def Value_SetObject_def Value_SetMethod_def Value_SetVoidPtr_def Value_SetNull_def
  Value_SetUndefined_def

definition Value_NewUndefined :: Value where "Value_NewUndefined = Value_new"

definition Value_NewNull :: Value where "Value_NewNull = Value_SetNull Value_new"

definition Value_NewInt :: "int32 \<Rightarrow> Value" where "Value_NewInt i = Value_SetInt i Value_new"

definition Value_NewDouble :: "double \<Rightarrow> Value" where "Value_NewDouble d = Value_SetDouble d Value_new"

definition Value_NewBool :: "bool \<Rightarrow> Value" where "Value_NewBool b = Value_SetBool (Some b) Value_new"

definition Value_NewString :: "addr \<Rightarrow> string \<Rightarrow> Value" where
  "Value_NewString a s = Value_SetString a s Value_new"

definition Value_NewList :: "addr option \<Rightarrow> Value" where "Value_NewList p = Value_SetList p Value_new"

definition Value_NewMethod :: "addr option \<Rightarrow> Value" where
  "Value_NewMethod p = Value_SetMethod p Value_new"

definition Value_NewVoidPtr :: "addr \<Rightarrow> Value" where
  "Value_NewVoidPtr p = Value_SetVoidPtr p Value_new"

definition Value_NewObject :: "addr option \<Rightarrow> Value" where
  "Value_NewObject p = Value_SetObject p Value_new"

lemmas Value_New_defs = Value_NewUndefined_def Value_NewNull_def Value_NewInt_def Value_NewDouble_def
  Value_NewBool_def Value_NewString_def Value_NewList_def Value_NewMethod_def Value_NewVoidPtr_def
  Value_NewObject_def

text \<open>
  \<^verbatim>\<open>SetValue\<close> when the two values are different objects; \<^const>\<open>None\<close> is the
  \<^verbatim>\<open>strdup\<close> of a null pointer.  Setting a value to itself is treated with the heap.
\<close>

definition Value_SetValue ::
  "(addr \<Rightarrow> bool) \<Rightarrow> (addr \<Rightarrow> bool) \<Rightarrow> addr \<Rightarrow> Value \<Rightarrow> Value \<Rightarrow> Value option" where
  "Value_SetValue isList isMethod a other v =
    (if Value_IsInt other then Some (Value_SetInt (Value_ToInt other) v)
     else if Value_IsDouble other then Some (Value_SetDouble (Value_ToDouble other) v)
     else if Value_IsBool other then Some (Value_SetBool (Value_ToBool other) v)
     else if Value_IsString other then
       (case Value_ToString other of
          Some (_, s) \<Rightarrow> Some (Value_SetString a s v)
        | None \<Rightarrow> None)
     else if Value_IsList other then Some (Value_SetList (Value_ToList isList other) v)
     else if Value_IsMethod other then Some (Value_SetMethod (Value_ToMethod isMethod other) v)
     else if Value_IsVoidPtr other then Some (Value_SetVoidPtr (Value_ToVoidPtr other) v)
     else if Value_IsObject other then Some (Value_SetObject (Value_ToObject other) v)
     else if Value_IsNull other then Some (Value_SetNull v)
     else Some (Value_SetUndefined v))"

text \<open>
  \<^verbatim>\<open>Equals\<close>: \<^verbatim>\<open>ToString() == ToString()\<close> compares two \<^verbatim>\<open>char*\<close>.  The last test calls the
  virtual \<^verbatim>\<open>Equals\<close> of the object held.
\<close>

definition Value_Equals :: "(addr \<Rightarrow> addr option \<Rightarrow> bool) \<Rightarrow> Value \<Rightarrow> Value \<Rightarrow> bool option" where
  "Value_Equals objEquals v i =
    (if Value_IsInt v \<and> Value_IsInt i \<and> Value_ToInt v = Value_ToInt i then Some True
     else if Value_IsDouble v \<and> Value_IsDouble i \<and> dbl_eq (Value_ToDouble v) (Value_ToDouble i) then Some True
     else if Value_IsBool v \<and> Value_IsBool i \<and> Value_ToBool v = Value_ToBool i then Some True
     else if Value_IsString v \<and> Value_IsString i
        \<and> map_option fst (Value_ToString v) = map_option fst (Value_ToString i) then Some True
     else if Value_IsVoidPtr v \<and> Value_IsVoidPtr i \<and> Value_ToVoidPtr v = Value_ToVoidPtr i then Some True
     else if Value_IsNull v \<and> Value_IsNull i then Some True
     else if Value_IsUndefined v \<and> Value_IsUndefined i then Some True
     else if Value_IsList v \<and> Value_IsList i \<or> Value_IsMethod v \<and> Value_IsMethod i
        \<or> Value_IsObject v \<and> Value_IsObject i then
       (case Value_ToObject v of
          Some ob \<Rightarrow> Some (objEquals ob (Value_ToObject i))
        | None \<Rightarrow> None)
     else Some False)"

definition Value_GetType :: "(addr \<Rightarrow> string) \<Rightarrow> Value \<Rightarrow> string option" where
  "Value_GetType objType v =
    (if Value_IsInt v \<or> Value_IsDouble v then Some ''Number''
     else if Value_IsBool v then Some ''Boolean''
     else if Value_IsString v then Some ''String''
     else if Value_IsList v \<or> Value_IsObject v \<or> Value_IsMethod v then map_option objType (Value_ToObject v)
     else if Value_IsVoidPtr v then Some ''VoidPtr''
     else if Value_IsNull v then Some ''Null''
     else if Value_IsUndefined v then Some ''Undefined''
     else Some ''Unknown'')"

section \<open>The representation invariant\<close>

text \<open>Only the payload that the tag names is set, and it is set.\<close>

definition wf_value :: "(addr \<Rightarrow> bool) \<Rightarrow> (addr \<Rightarrow> bool) \<Rightarrow> Value \<Rightarrow> bool" where
  "wf_value isList isMethod v \<longleftrightarrow>
     (if type v = INTV then \<exists>i. numberValue v = dbl_of_int i
      else type v = DOUBLE \<or> numberValue v = Fin 0) \<and>
     (type v = BOOL \<longrightarrow> boolValue v \<noteq> None) \<and>
     (stringValue v \<noteq> None \<longleftrightarrow> type v = STRING) \<and>
     (\<forall>a s. stringValue v = Some (a, s) \<longrightarrow> c_str s = s) \<and>
     (objectValue v \<noteq> None \<longleftrightarrow> type v \<in> {LIST, OBJECT, METHOD}) \<and>
     (type v = LIST \<longrightarrow> isList (the (objectValue v))) \<and>
     (type v = METHOD \<longrightarrow> isMethod (the (objectValue v))) \<and>
     (type v = VOIDPTR \<or> voidPtrValue v = 0)"

lemma reset_fields [simp]:
  "type (Value_reset v) = UNDEFINED" "numberValue (Value_reset v) = Fin 0"
  "boolValue (Value_reset v) = boolValue v" "stringValue (Value_reset v) = None"
  "objectValue (Value_reset v) = None" "voidPtrValue (Value_reset v) = 0"
  by (simp_all add: Value_reset_def Let_def)

lemma wf_value_set:
  "wf_value L M (Value_SetInt i v)" "wf_value L M (Value_SetDouble d v)"
  "wf_value L M (Value_SetBool (Some b) v)" "wf_value L M (Value_SetString a s v)"
  "pred_option L p \<Longrightarrow> wf_value L M (Value_SetList p v)"
  "wf_value L M (Value_SetObject p v)"
  "pred_option M p \<Longrightarrow> wf_value L M (Value_SetMethod p v)"
  "wf_value L M (Value_SetVoidPtr q v)" "wf_value L M (Value_SetNull v)"
  "wf_value L M (Value_SetUndefined v)"
  by (auto simp: wf_value_def Value_Set_defs)

lemma wf_value_new: "wf_value L M Value_new"
  by (simp add: wf_value_def Value_new_def)

lemma autoptr_cast_Some [simp]: "isA ob \<Longrightarrow> autoptr_cast isA (Some ob) = Some ob"
  by (simp add: autoptr_cast_def)

section \<open>What a value denotes\<close>

text \<open>The abstract value: one alternative per tag, with the payload the tag selects.\<close>

datatype aval = AInt int32 | ADouble double | ABool bool | AString string | AList addr
  | AObject addr | AMethod addr | AVoidPtr addr | ANull | AUndefined

definition denotes :: "Value \<Rightarrow> aval" where
  "denotes v = (case type v of
     INTV \<Rightarrow> AInt (cast_int (numberValue v))
   | DOUBLE \<Rightarrow> ADouble (numberValue v)
   | BOOL \<Rightarrow> ABool (the (boolValue v))
   | STRING \<Rightarrow> AString (snd (the (stringValue v)))
   | LIST \<Rightarrow> AList (the (objectValue v))
   | OBJECT \<Rightarrow> AObject (the (objectValue v))
   | METHOD \<Rightarrow> AMethod (the (objectValue v))
   | VOIDPTR \<Rightarrow> AVoidPtr (voidPtrValue v)
   | NULLV \<Rightarrow> ANull
   | UNDEFINED \<Rightarrow> AUndefined)"

text \<open>Copying turns a double that is equal to an \<^verbatim>\<open>int\<close> into that \<^verbatim>\<open>int\<close>.\<close>

definition narrow :: "aval \<Rightarrow> aval" where
  "narrow x = (case x of
     ADouble d \<Rightarrow> if dbl_eq (dbl_of_int (cast_int d)) d then AInt (cast_int d) else ADouble d
   | _ \<Rightarrow> x)"

lemma denotes_set [simp]:
  "denotes (Value_SetInt i v) = AInt i" "denotes (Value_SetDouble d v) = ADouble d"
  "denotes (Value_SetBool (Some b) v) = ABool b" "denotes (Value_SetString a s v) = AString (c_str s)"
  "denotes (Value_SetList (Some ob) v) = AList ob" "denotes (Value_SetObject (Some ob) v) = AObject ob"
  "denotes (Value_SetMethod (Some ob) v) = AMethod ob" "denotes (Value_SetList None v) = ANull"
  "denotes (Value_SetObject None v) = ANull" "denotes (Value_SetMethod None v) = ANull"
  "denotes (Value_SetVoidPtr q v) = AVoidPtr q"
  "denotes (Value_SetNull v) = ANull" "denotes (Value_SetUndefined v) = AUndefined"
  by (simp_all add: denotes_def Value_Set_defs)

lemma denotes_new [simp]: "denotes Value_new = AUndefined"
  by (simp add: denotes_def Value_new_def)

lemma denotes_AUndefined_iff: "denotes v = AUndefined \<longleftrightarrow> Value_IsUndefined v"
  by (simp add: denotes_def Value_IsUndefined_def split: vtype.splits)

lemma Value_SetValue_works:
  assumes wf: "wf_value L M other"
  shows "\<exists>v'. Value_SetValue L M a other v = Some v' \<and> wf_value L M v' \<and> denotes v' = narrow (denotes other)"
proof (cases "type other")
  case INTV
  then show ?thesis
    by (simp add: Value_SetValue_def Value_Is_defs Value_To_defs wf_value_set narrow_def denotes_def [of other])
next
  case DOUBLE
  then show ?thesis
    by (auto simp: Value_SetValue_def Value_Is_defs Value_To_defs wf_value_set narrow_def denotes_def [of other])
next
  case BOOL
  with wf obtain b where "boolValue other = Some b" by (auto simp: wf_value_def)
  with BOOL show ?thesis
    by (simp add: Value_SetValue_def Value_Is_defs Value_To_defs wf_value_set narrow_def denotes_def [of other])
next
  case STRING
  with wf obtain b s where "stringValue other = Some (b, s)" "c_str s = s"
    by (cases "stringValue other") (auto simp: wf_value_def)
  with STRING show ?thesis
    by (simp add: Value_SetValue_def Value_Is_defs Value_To_defs wf_value_set narrow_def denotes_def [of other])
next
  case LIST
  with wf obtain ob where "objectValue other = Some ob" "L ob" by (auto simp: wf_value_def)
  with LIST show ?thesis
    by (simp add: Value_SetValue_def Value_Is_defs Value_To_defs wf_value_set narrow_def denotes_def [of other])
next
  case OBJECT
  with wf obtain ob where "objectValue other = Some ob" by (auto simp: wf_value_def)
  with OBJECT show ?thesis
    by (simp add: Value_SetValue_def Value_Is_defs Value_To_defs wf_value_set narrow_def denotes_def [of other])
next
  case METHOD
  with wf obtain ob where "objectValue other = Some ob" "M ob" by (auto simp: wf_value_def)
  with METHOD show ?thesis
    by (simp add: Value_SetValue_def Value_Is_defs Value_To_defs wf_value_set narrow_def denotes_def [of other])
next
  case VOIDPTR
  then show ?thesis
    by (simp add: Value_SetValue_def Value_Is_defs Value_To_defs wf_value_set narrow_def denotes_def [of other])
next
  case NULLV
  then show ?thesis
    by (simp add: Value_SetValue_def Value_Is_defs Value_To_defs wf_value_set narrow_def denotes_def [of other])
next
  case UNDEFINED
  then show ?thesis
    by (simp add: Value_SetValue_def Value_Is_defs Value_To_defs wf_value_set narrow_def denotes_def [of other])
qed

section \<open>Properties\<close>

text \<open>
  Every constructor gives a value that satisfies the representation invariant and denotes its
  argument, a string up to its first NUL and a null pointer as null.
\<close>

theorem Value_New_correct:
  "(wf_value L M Value_NewUndefined \<and> denotes Value_NewUndefined = AUndefined) \<and>
   (wf_value L M Value_NewNull \<and> denotes Value_NewNull = ANull) \<and>
   (wf_value L M (Value_NewInt i) \<and> denotes (Value_NewInt i) = AInt i) \<and>
   (wf_value L M (Value_NewDouble d) \<and> denotes (Value_NewDouble d) = ADouble d) \<and>
   (wf_value L M (Value_NewBool b) \<and> denotes (Value_NewBool b) = ABool b) \<and>
   (wf_value L M (Value_NewString a s) \<and> denotes (Value_NewString a s) = AString (c_str s)) \<and>
   (wf_value L M (Value_NewObject (Some ob)) \<and> denotes (Value_NewObject (Some ob)) = AObject ob) \<and>
   (wf_value L M (Value_NewVoidPtr q) \<and> denotes (Value_NewVoidPtr q) = AVoidPtr q) \<and>
   (denotes (Value_NewObject None) = ANull \<and> denotes (Value_NewList None) = ANull
      \<and> denotes (Value_NewMethod None) = ANull)"
  by (simp add: Value_New_defs wf_value_set wf_value_new)

text \<open>C21: 
  Copying a well-formed value never fails, whatever the target held before; the copy is well
  formed and denotes what the original denotes, except that a double which is equal to an
  \<^verbatim>\<open>int\<close> (minus zero included) becomes that \<^verbatim>\<open>int\<close>.
\<close>

theorem Value_SetValue_correct:
  assumes "wf_value isList isMethod other"
  shows "\<exists>v'. Value_SetValue isList isMethod a other v = Some v' \<and> wf_value isList isMethod v'
    \<and> denotes v' = narrow (denotes other)
    \<and> (Value_IsInt v' \<longleftrightarrow> Value_IsInt other) \<and> (Value_IsNumber v' \<longleftrightarrow> Value_IsNumber other)"
proof -
  obtain v' where v': "Value_SetValue isList isMethod a other v = Some v'" "wf_value isList isMethod v'"
      "denotes v' = narrow (denotes other)"
    using Value_SetValue_works [OF assms] by blast
  have "Value_IsInt v' \<longleftrightarrow> Value_IsInt other" "Value_IsNumber v' \<longleftrightarrow> Value_IsNumber other"
    using v'(3)
    by (auto simp: denotes_def narrow_def Value_IsInt_def Value_IsNumber_def split: vtype.splits if_splits)
  with v' show ?thesis by blast
qed

theorem Value_SetValue_correct_witness:
  "wf_value (\<lambda>_. True) (\<lambda>_. True) (Value_NewDouble (Fin 3)) \<and>
   (\<exists>v'. Value_SetValue (\<lambda>_. True) (\<lambda>_. True) 9 (Value_NewDouble (Fin 3)) (Value_NewString 5 ''x'') = Some v'
     \<and> denotes v' = narrow (denotes (Value_NewDouble (Fin 3))) \<and> Value_IsInt v')"
proof -
  have wf: "wf_value (\<lambda>_. True) (\<lambda>_. True) (Value_NewDouble (Fin 3))"
    by (simp add: Value_New_defs wf_value_set)
  have i: "Value_IsInt (Value_NewDouble (Fin 3))"
    using dbl_eq_cast_int_ex [of "Fin 3"] int_like_def [of "Fin 3" 3]
    by (auto simp: Value_IsInt_def Value_New_defs Value_Set_defs)
  show ?thesis
    using Value_SetValue_correct [OF wf, of 9 "Value_NewString 5 ''x''"] wf i by blast
qed

text \<open>
  A value answers \<^verbatim>\<open>IsInt\<close> exactly when it is tagged as an \<^verbatim>\<open>int\<close> or holds a double that is
  an integer of the 32 bit range (or minus zero), and then \<^verbatim>\<open>ToInt\<close> is that integer: no value
  that passes the test is truncated or wrapped by the conversion.
\<close>

theorem Value_IsInt_exact:
  assumes "wf_value isList isMethod v"
  shows "Value_IsInt v \<longleftrightarrow> (type v = INTV \<or> type v = DOUBLE) \<and> int_like (numberValue v) (Value_ToInt v)"
proof -
  have "int_like (dbl_of_int i) i" for i by (simp add: int_like_def dbl_of_int_def)
  with assms show ?thesis
    by (auto simp: Value_IsInt_def Value_ToInt_def wf_value_def dbl_eq_cast_int_iff)
qed

theorem Value_IsInt_exact_witness:
  "\<not> Value_IsInt (Value_NewDouble (Fin (5 / 2)))"
proof -
  have wf: "wf_value (\<lambda>_. True) (\<lambda>_. True) (Value_NewDouble (Fin (5 / 2)))"
    by (simp add: Value_New_defs wf_value_set)
  have "\<not> int_like (Fin (5 / 2)) i" for i
  proof
    assume "int_like (Fin (5 / 2)) i"
    then have "(of_int (2 * sint i) :: rat) = of_int 5" by (simp add: int_like_def)
    then have "2 * sint i = 5" by (simp only: of_int_eq_iff)
    then show False by presburger
  qed
  then show ?thesis
    using Value_IsInt_exact [OF wf] by (simp add: Value_New_defs Value_Set_defs)
qed

text \<open>C40: 
  \<^verbatim>\<open>Equals\<close> on two well-formed values compares numbers by value, objects with the virtual
  \<^verbatim>\<open>Equals\<close>, and strings by the address of their buffers: two values that own different
  buffers are unequal even when both hold the same text.
\<close>

theorem Value_Equals_correct:
  assumes "wf_value isList isMethod v" and "wf_value isList isMethod w"
  shows "Value_Equals objEquals v w = Some (case (denotes v, denotes w) of
      (AInt i, AInt j) \<Rightarrow> i = j
    | (AInt i, ADouble d) \<Rightarrow> int_like d i
    | (ADouble d, AInt i) \<Rightarrow> int_like d i
    | (ADouble d, ADouble e) \<Rightarrow> dbl_eq d e
    | (ABool b, ABool c) \<Rightarrow> b = c
    | (AString s, AString t) \<Rightarrow> fst (the (stringValue v)) = fst (the (stringValue w))
    | (AVoidPtr p, AVoidPtr q) \<Rightarrow> p = q
    | (AList p, AList q) \<Rightarrow> objEquals p (Some q)
    | (AMethod p, AMethod q) \<Rightarrow> objEquals p (Some q)
    | (AObject p, AObject q) \<Rightarrow> objEquals p (Some q)
    | (ANull, ANull) \<Rightarrow> True
    | (AUndefined, AUndefined) \<Rightarrow> True
    | _ \<Rightarrow> False)"
proof (cases "Value_IsNumber v \<and> Value_IsNumber w")
  case True
  from True consider "type v = INTV" "type w = INTV" | "type v = INTV" "type w = DOUBLE"
    | "type v = DOUBLE" "type w = INTV" | "type v = DOUBLE" "type w = DOUBLE"
    by (auto simp: Value_IsNumber_def)
  then show ?thesis
  proof cases
    case 1
    then show ?thesis by (simp add: Value_Equals_def Value_Is_defs Value_To_defs denotes_def)
  next
    case 2
    then show ?thesis
      by (simp add: Value_Equals_def Value_Is_defs Value_To_defs denotes_def dbl_eq_cast_int_iff)
        (metis int_like_cast)
  next
    case 3
    then show ?thesis
      by (simp add: Value_Equals_def Value_Is_defs Value_To_defs denotes_def dbl_eq_cast_int_iff)
        (metis int_like_cast)
  next
    case 4
    have "dbl_eq (numberValue v) (numberValue w)"
      if "int_like (numberValue v) (cast_int (numberValue v))" "int_like (numberValue w) (cast_int (numberValue w))"
        "cast_int (numberValue v) = cast_int (numberValue w)"
      using that int_like_dbl_eq by metis
    with 4 show ?thesis
      by (auto simp: Value_Equals_def Value_Is_defs Value_To_defs denotes_def dbl_eq_cast_int_iff)
  qed
next
  case False
  then show ?thesis
    using assms
    by (cases "type v"; cases "type w"; simp add: Value_IsNumber_def;
        force simp: Value_Equals_def Value_Is_defs Value_To_defs denotes_def wf_value_def)
qed

theorem Value_Equals_correct_witness:
  "Value_Equals (\<lambda>p q. Some p = q) (Value_NewString 7 ''abc'') (Value_NewString 8 ''abc'') = Some False"
proof -
  have wf: "wf_value (\<lambda>_. True) (\<lambda>_. True) (Value_NewString a ''abc'')" for a
    by (simp add: Value_New_defs wf_value_set)
  show ?thesis
    using Value_Equals_correct [OF wf wf] by (simp add: Value_New_defs) (simp add: Value_Set_defs)
qed

end
