(* ===== verification/Kroll_DataUtils.thy ===== *)
theory Kroll_DataUtils
  imports Kroll_Prelude "HOL-Library.Monad_Syntax"
begin

unbundle bit_operations_syntax

text \<open>
  The MD5 digest of \<^verbatim>\<open>src/api/utils/poco/KMD5Engine.cpp\<close> and \<^verbatim>\<open>KDigestEngine.cpp\<close>, the UUIDs of
  \<^verbatim>\<open>src/api/utils/kashmir/uuid.h\<close>, and the two functions of \<^verbatim>\<open>src/api/utils/data_utils.cpp\<close> and
  \<^verbatim>\<open>linux/data_utils_linux.cpp\<close> that use them. The engine keeps its context between updates; it is
  shown to refine the digest of the whole message. Reading outside of an array is \<^const>\<open>None\<close>.
\<close>

type_synonym byte = "8 word"

section \<open>The MD5 engine\<close>

definition md5_F :: "uint32 \<Rightarrow> uint32 \<Rightarrow> uint32 \<Rightarrow> uint32" where
  "md5_F x y z = (x AND y) OR (NOT x AND z)"

definition md5_G :: "uint32 \<Rightarrow> uint32 \<Rightarrow> uint32 \<Rightarrow> uint32" where
  "md5_G x y z = (x AND z) OR (y AND NOT z)"

definition md5_H :: "uint32 \<Rightarrow> uint32 \<Rightarrow> uint32 \<Rightarrow> uint32" where
  "md5_H x y z = (x XOR y) XOR z"

definition md5_I :: "uint32 \<Rightarrow> uint32 \<Rightarrow> uint32 \<Rightarrow> uint32" where
  "md5_I x y z = y XOR (x OR NOT z)"

definition ROTATE_LEFT :: "uint32 \<Rightarrow> nat \<Rightarrow> uint32" where
  "ROTATE_LEFT x n = push_bit n x OR drop_bit (32 - n) x"

abbreviation (input) S11 :: nat where "S11 \<equiv> 7"
abbreviation (input) S12 :: nat where "S12 \<equiv> 12"
abbreviation (input) S13 :: nat where "S13 \<equiv> 17"
abbreviation (input) S14 :: nat where "S14 \<equiv> 22"
abbreviation (input) S21 :: nat where "S21 \<equiv> 5"
abbreviation (input) S22 :: nat where "S22 \<equiv> 9"
abbreviation (input) S23 :: nat where "S23 \<equiv> 14"
abbreviation (input) S24 :: nat where "S24 \<equiv> 20"
abbreviation (input) S31 :: nat where "S31 \<equiv> 4"
abbreviation (input) S32 :: nat where "S32 \<equiv> 11"
abbreviation (input) S33 :: nat where "S33 \<equiv> 16"
abbreviation (input) S34 :: nat where "S34 \<equiv> 23"
abbreviation (input) S41 :: nat where "S41 \<equiv> 6"
abbreviation (input) S42 :: nat where "S42 \<equiv> 10"
abbreviation (input) S43 :: nat where "S43 \<equiv> 15"
abbreviation (input) S44 :: nat where "S44 \<equiv> 21"

text \<open>The 64 macro calls of \<^verbatim>\<open>transform\<close> in their order: the function of the round, the index into
  the block, the rotation and the added constant.\<close>

definition md5_ops :: "((uint32 \<Rightarrow> uint32 \<Rightarrow> uint32 \<Rightarrow> uint32) \<times> nat \<times> nat \<times> uint32) list" where
  "md5_ops =
     [
      (md5_F, 0, S11, 0xd76aa478), (md5_F, 1, S12, 0xe8c7b756), (md5_F, 2, S13, 0x242070db), (md5_F, 3, S14, 0xc1bdceee),
      (md5_F, 4, S11, 0xf57c0faf), (md5_F, 5, S12, 0x4787c62a), (md5_F, 6, S13, 0xa8304613), (md5_F, 7, S14, 0xfd469501),
      (md5_F, 8, S11, 0x698098d8), (md5_F, 9, S12, 0x8b44f7af), (md5_F, 10, S13, 0xffff5bb1), (md5_F, 11, S14, 0x895cd7be),
      (md5_F, 12, S11, 0x6b901122), (md5_F, 13, S12, 0xfd987193), (md5_F, 14, S13, 0xa679438e), (md5_F, 15, S14, 0x49b40821),
      (md5_G, 1, S21, 0xf61e2562), (md5_G, 6, S22, 0xc040b340), (md5_G, 11, S23, 0x265e5a51), (md5_G, 0, S24, 0xe9b6c7aa),
      (md5_G, 5, S21, 0xd62f105d), (md5_G, 10, S22, 0x2441453), (md5_G, 15, S23, 0xd8a1e681), (md5_G, 4, S24, 0xe7d3fbc8),
      (md5_G, 9, S21, 0x21e1cde6), (md5_G, 14, S22, 0xc33707d6), (md5_G, 3, S23, 0xf4d50d87), (md5_G, 8, S24, 0x455a14ed),
      (md5_G, 13, S21, 0xa9e3e905), (md5_G, 2, S22, 0xfcefa3f8), (md5_G, 7, S23, 0x676f02d9), (md5_G, 12, S24, 0x8d2a4c8a),
      (md5_H, 5, S31, 0xfffa3942), (md5_H, 8, S32, 0x8771f681), (md5_H, 11, S33, 0x6d9d6122), (md5_H, 14, S34, 0xfde5380c),
      (md5_H, 1, S31, 0xa4beea44), (md5_H, 4, S32, 0x4bdecfa9), (md5_H, 7, S33, 0xf6bb4b60), (md5_H, 10, S34, 0xbebfbc70),
      (md5_H, 13, S31, 0x289b7ec6), (md5_H, 0, S32, 0xeaa127fa), (md5_H, 3, S33, 0xd4ef3085), (md5_H, 6, S34, 0x4881d05),
      (md5_H, 9, S31, 0xd9d4d039), (md5_H, 12, S32, 0xe6db99e5), (md5_H, 15, S33, 0x1fa27cf8), (md5_H, 2, S34, 0xc4ac5665),
      (md5_I, 0, S41, 0xf4292244), (md5_I, 7, S42, 0x432aff97), (md5_I, 14, S43, 0xab9423a7), (md5_I, 5, S44, 0xfc93a039),
      (md5_I, 12, S41, 0x655b59c3), (md5_I, 3, S42, 0x8f0ccc92), (md5_I, 10, S43, 0xffeff47d), (md5_I, 1, S44, 0x85845dd1),
      (md5_I, 8, S41, 0x6fa87e4f), (md5_I, 15, S42, 0xfe2ce6e0), (md5_I, 6, S43, 0xa3014314), (md5_I, 13, S44, 0x4e0811a1),
      (md5_I, 4, S41, 0xf7537e82), (md5_I, 11, S42, 0xbd3af235), (md5_I, 2, S43, 0x2ad7d2bb), (md5_I, 9, S44, 0xeb86d391)]"

type_synonym md5_words = "uint32 \<times> uint32 \<times> uint32 \<times> uint32"

text \<open>One macro call \<^verbatim>\<open>FF(a, b, c, d, x, s, ac)\<close>. The next call of the source has its arguments
  rotated by one place, which is the order of the resulting tuple.\<close>

definition md5_step ::
  "uint32 list \<Rightarrow> md5_words \<Rightarrow> (uint32 \<Rightarrow> uint32 \<Rightarrow> uint32 \<Rightarrow> uint32) \<times> nat \<times> nat \<times> uint32 \<Rightarrow> md5_words"
  where
  "md5_step x = (\<lambda>(a, b, c, d) (f, k, s, ac).
     let a1 = a + (f b c d + x ! k + ac);
         a2 = ROTATE_LEFT a1 s;
         a3 = a2 + b
     in (d, a3, b, c))"

definition md5_decode_word :: "byte list \<Rightarrow> nat \<Rightarrow> uint32" where
  "md5_decode_word inp j =
     ucast (inp ! j) OR push_bit 8 (ucast (inp ! (j + 1)))
     OR push_bit 16 (ucast (inp ! (j + 2))) OR push_bit 24 (ucast (inp ! (j + 3)))"

definition md5_decode :: "byte list \<Rightarrow> nat \<Rightarrow> uint32 list" where
  "md5_decode inp len = map (\<lambda>i. md5_decode_word inp (4 * i)) [0..<len div 4]"

definition md5_encode_word :: "uint32 \<Rightarrow> byte list" where
  "md5_encode_word w =
     [ucast (w AND 0xff), ucast (drop_bit 8 w AND 0xff), ucast (drop_bit 16 w AND 0xff),
      ucast (drop_bit 24 w AND 0xff)]"

definition md5_encode :: "uint32 list \<Rightarrow> nat \<Rightarrow> byte list" where
  "md5_encode inp len = concat (map md5_encode_word (take (len div 4) inp))"

definition md5_transform :: "md5_words \<Rightarrow> byte list \<Rightarrow> md5_words" where
  "md5_transform st block =
     (case (st, foldl (md5_step (md5_decode block 64)) st md5_ops) of
        ((s0, s1, s2, s3), (a, b, c, d)) \<Rightarrow> (s0 + a, s1 + b, s2 + c, s3 + d))"

record md5_context =
  md5_state :: md5_words
  md5_count0 :: uint32
  md5_count1 :: uint32
  md5_buffer :: "byte list"

definition md5_reset :: md5_context where
  "md5_reset = \<lparr>md5_state = (0x67452301, 0xefcdab89, 0x98badcfe, 0x10325476),
     md5_count0 = 0, md5_count1 = 0, md5_buffer = replicate 64 0\<rparr>"

text \<open>\<^verbatim>\<open>memcpy\<close> into an array at an offset.\<close>

definition mem_copy :: "'a list \<Rightarrow> nat \<Rightarrow> 'a list \<Rightarrow> 'a list" where
  "mem_copy dst at src = take at dst @ src @ drop (at + length src) dst"

text \<open>The loop \<^verbatim>\<open>for (i = partLen; i + 63 < inputLen; i += 64)\<close>, whose \<^verbatim>\<open>i + 63\<close> is a 32 bit sum, with the
  index it leaves behind. A block that does not lie in the input is an access outside of it.\<close>

function md5_blocks :: "byte list \<Rightarrow> nat \<Rightarrow> md5_words \<Rightarrow> (nat \<times> md5_words) option" where
  "md5_blocks inp i st =
     (if (of_nat (i + 63) :: uint32) < of_nat (length inp)
      then if i + 64 \<le> length inp
           then md5_blocks inp (i + 64) (md5_transform st (take 64 (drop i inp)))
           else None
      else Some (i, st))"
  by pat_completeness auto
termination
  by (relation "measure (\<lambda>(inp, i, st). length inp - i)") auto

text \<open>\<^verbatim>\<open>updateImpl\<close>; the length of the input is an \<^verbatim>\<open>unsigned\<close>, so the input is shorter than \<open>2\<^sup>3\<^sup>2\<close>.\<close>

definition md5_updateImpl :: "md5_context \<Rightarrow> byte list \<Rightarrow> md5_context option" where
  "md5_updateImpl ctx inp = do {
     let inputLen = (of_nat (length inp) :: uint32);
     let index = unat (drop_bit 3 (md5_count0 ctx) AND 0x3F);
     let count0 = md5_count0 ctx + push_bit 3 inputLen;
     let count1 = (if count0 < push_bit 3 inputLen then md5_count1 ctx + 1 else md5_count1 ctx)
                  + drop_bit 29 inputLen;
     let partLen = 64 - index;
     if partLen \<le> length inp
     then do {
       let buffer = mem_copy (md5_buffer ctx) index (take partLen inp);
       (i, st) \<leftarrow> md5_blocks inp partLen (md5_transform (md5_state ctx) buffer);
       Some \<lparr>md5_state = st, md5_count0 = count0, md5_count1 = count1,
             md5_buffer = mem_copy buffer 0 (drop i inp)\<rparr> }
     else
       Some \<lparr>md5_state = md5_state ctx, md5_count0 = count0, md5_count1 = count1,
             md5_buffer = mem_copy (md5_buffer ctx) index inp\<rparr> }"

definition md5_PADDING :: "byte list" where
  "md5_PADDING = 0x80 # replicate 63 0"

text \<open>\<^verbatim>\<open>digest\<close> returns the digest and the context it has reset.\<close>

definition md5_digest :: "md5_context \<Rightarrow> (byte list \<times> md5_context) option" where
  "md5_digest ctx = do {
     let bits = md5_encode [md5_count0 ctx, md5_count1 ctx] 8;
     let index = unat (drop_bit 3 (md5_count0 ctx) AND 0x3f);
     let padLen = (if index < 56 then 56 - index else 120 - index);
     ctx1 \<leftarrow> md5_updateImpl ctx (take padLen md5_PADDING);
     ctx2 \<leftarrow> md5_updateImpl ctx1 bits;
     Some (case md5_state ctx2 of (a, b, c, d) \<Rightarrow> md5_encode [a, b, c, d] 16, md5_reset) }"

definition hex_digit :: "nat \<Rightarrow> char" where
  "hex_digit n = ''0123456789abcdef'' ! n"

definition hex_byte :: "byte \<Rightarrow> string" where
  "hex_byte c = [hex_digit (unat (drop_bit 4 c AND 0xF)), hex_digit (unat (c AND 0xF))]"

definition digestToHex :: "byte list \<Rightarrow> string" where
  "digestToHex bytes = concat (map hex_byte bytes)"

text \<open>\<^verbatim>\<open>update(const std::string&)\<close> casts the length to \<^verbatim>\<open>unsigned\<close>.\<close>

definition string_bytes :: "string \<Rightarrow> byte list" where
  "string_bytes s = map of_char s"

definition md5_update_string :: "md5_context \<Rightarrow> string \<Rightarrow> md5_context option" where
  "md5_update_string ctx s = md5_updateImpl ctx (take (unat (of_nat (length s) :: uint32)) (string_bytes s))"

definition HexMD5 :: "string \<Rightarrow> string option" where
  "HexMD5 text0 = do {
     ctx \<leftarrow> md5_update_string md5_reset text0;
     (d, _) \<leftarrow> md5_digest ctx;
     Some (digestToHex d) }"

section \<open>UUIDs\<close>

text \<open>A UUID is an array of 16 bytes. The extraction from a random stream sets variant and version.\<close>

definition uuid_of_random :: "byte list \<Rightarrow> byte list" where
  "uuid_of_random buffer =
     (let d1 = buffer[8 := (buffer ! 8 AND 0xbf) OR 0x80]
      in d1[6 := (d1 ! 6 AND 0x4f) OR 0x40])"

definition uuid_dash :: "nat \<Rightarrow> string" where
  "uuid_dash i = (if i = 3 \<or> i = 5 \<or> i = 7 \<or> i = 9 then ''-'' else [])"

text \<open>The output operator on a string stream, whose field width is zero; every byte is written in
  hexadecimal with the width two and the fill character zero.\<close>

fun uuid_put :: "nat \<Rightarrow> byte list \<Rightarrow> string" where
  "uuid_put i [] = []"
| "uuid_put i (c # cs) = hex_byte c @ uuid_dash i @ uuid_put (Suc i) cs"

definition uuid_print :: "byte list \<Rightarrow> string" where
  "uuid_print u = uuid_put 0 u"

text \<open>The input operator: \<^verbatim>\<open>is >> c\<close> skips white space; a digit, a dash or a character that is missing sets
  the fail bit, upon which the operator throws (\<^const>\<open>None\<close>).\<close>

definition is_white :: "char \<Rightarrow> bool" where
  "is_white c \<longleftrightarrow> c = CHR '' '' \<or> c \<in> {CHR 0x09, CHR 0x0A, CHR 0x0B, CHR 0x0C, CHR 0x0D}"

definition stream_get :: "string \<Rightarrow> (char \<times> string) option" where
  "stream_get s = (case dropWhile is_white s of [] \<Rightarrow> None | c # cs \<Rightarrow> Some (c, cs))"

definition hex_index :: "char \<Rightarrow> nat option" where
  "hex_index c = List.find (\<lambda>i. hex_digit i = c) [0..<16]"

fun uuid_get :: "nat \<Rightarrow> nat \<Rightarrow> string \<Rightarrow> (byte list \<times> string) option" where
  "uuid_get i 0 s = Some ([], s)"
| "uuid_get i (Suc n) s = do {
     (c, s) \<leftarrow> stream_get s;
     hi \<leftarrow> hex_index (tolower c);
     (c, s) \<leftarrow> stream_get s;
     lo \<leftarrow> hex_index (tolower c);
     s \<leftarrow> (if i = 3 \<or> i = 5 \<or> i = 7 \<or> i = 9
          then do { (c, s) \<leftarrow> stream_get s; if c \<noteq> CHR ''-'' then None else Some s }
          else Some s);
     (cs, s) \<leftarrow> uuid_get (Suc i) n s;
     Some ((push_bit 4 (of_nat hi) OR of_nat lo) # cs, s) }"

definition uuid_parse :: "string \<Rightarrow> (byte list \<times> string) option" where
  "uuid_parse s = uuid_get 0 16 s"

text \<open>The random device delivers the bytes; \<^const>\<open>None\<close> is a device that cannot be opened, for which the
  constructor throws.\<close>

definition GenerateUUID :: "byte list option \<Rightarrow> string option" where
  "GenerateUUID devrandom = do {
     buffer \<leftarrow> devrandom;
     Some (uuid_print (uuid_of_random buffer)) }"

section \<open>The digest of a whole message\<close>

text \<open>The specification: the message is padded to a multiple of 64 bytes, whose last eight hold its
  length in bits, and the blocks are absorbed in turn.\<close>

function md5_absorb :: "md5_words \<Rightarrow> byte list \<Rightarrow> md5_words" where
  "md5_absorb st m =
     (if length m < 64 then st else md5_absorb (md5_transform st (take 64 m)) (drop 64 m))"
  by pat_completeness auto
termination
  by (relation "measure (\<lambda>(st, m). length m)") auto

declare md5_absorb.simps [simp del] md5_blocks.simps [simp del]

definition md5_tail :: "byte list \<Rightarrow> byte list" where
  "md5_tail m = drop (64 * (length m div 64)) m"

definition md5_length_bytes :: "nat \<Rightarrow> byte list" where
  "md5_length_bytes n = map (\<lambda>i. of_nat (8 * n div 2 ^ (8 * i))) [0..<8]"

definition md5_pad :: "byte list \<Rightarrow> byte list" where
  "md5_pad m = m @ 0x80 # replicate ((119 - length m mod 64) mod 64) 0 @ md5_length_bytes (length m)"

definition md5_spec :: "byte list \<Rightarrow> byte list" where
  "md5_spec m = (case md5_absorb (md5_state md5_reset) (md5_pad m) of
     (a, b, c, d) \<Rightarrow> concat (map md5_encode_word [a, b, c, d]))"

lemma length_md5_tail [simp]: "length (md5_tail m) = length m mod 64"
  by (simp add: md5_tail_def minus_mult_div_eq_mod [symmetric])

lemma md5_tail_short: "length m < 64 \<Longrightarrow> md5_tail m = m"
  by (simp add: md5_tail_def)

lemma md5_tail_step:
  assumes "64 \<le> length m"
  shows "md5_tail m = md5_tail (drop 64 m)"
proof -
  have "length m div 64 = Suc ((length m - 64) div 64)" using assms by (simp add: le_div_geq)
  then show ?thesis by (simp add: md5_tail_def add.commute)
qed

lemma md5_absorb_short: "length m < 64 \<Longrightarrow> md5_absorb st m = st"
  by (simp add: md5_absorb.simps [of st m])

lemma md5_absorb_step:
  "64 \<le> length m \<Longrightarrow> md5_absorb st m = md5_absorb (md5_transform st (take 64 m)) (drop 64 m)"
  by (subst md5_absorb.simps) simp

lemma md5_absorb_append:
  "md5_absorb st (m @ n) = md5_absorb (md5_absorb st m) (md5_tail m @ n)
   \<and> md5_tail (m @ n) = md5_tail (md5_tail m @ n)"
proof (induction st m rule: md5_absorb.induct)
  case (1 st m)
  show ?case
  proof (cases "length m < 64")
    case True
    then show ?thesis by (simp add: md5_absorb_short md5_tail_short)
  next
    case False
    then have "md5_absorb st (m @ n) = md5_absorb (md5_transform st (take 64 m)) (drop 64 m @ n)"
      and "md5_tail (m @ n) = md5_tail (drop 64 m @ n)"
      by (simp_all add: md5_absorb_step [of "m @ n"] md5_tail_step [of "m @ n"])
    with 1 False show ?thesis by (simp add: md5_absorb_step [of m] md5_tail_step [of m])
  qed
qed

lemma md5_tail_eq_drop:
  assumes "i \<le> length inp"
  shows "drop (i + 64 * ((length inp - i) div 64)) inp = md5_tail (drop i inp)"
  by (simp add: md5_tail_def add.commute)

lemma word32_of_nat_less: "a < 2 ^ 32 \<Longrightarrow> b < 2 ^ 32 \<Longrightarrow> (of_nat a :: uint32) < of_nat b \<longleftrightarrow> a < b"
  by (simp add: word_less_nat_alt unat_of_nat)

lemma md5_blocks_eq:
  assumes "length inp + 63 < 2 ^ 32" and "i \<le> length inp"
  shows "\<exists>j. md5_blocks inp i st = Some (j, md5_absorb st (drop i inp)) \<and> drop j inp = md5_tail (drop i inp)"
  using assms
proof (induction inp i st rule: md5_blocks.induct)
  case (1 inp i st)
  have bound: "(of_nat (i + 63) :: uint32) < of_nat (length inp) \<longleftrightarrow> i + 64 \<le> length inp"
    using 1(2,3) by (subst word32_of_nat_less) auto
  show ?case
  proof (cases "i + 64 \<le> length inp")
    case True
    with 1 bound obtain j where "md5_blocks inp (i + 64) (md5_transform st (take 64 (drop i inp)))
        = Some (j, md5_absorb (md5_transform st (take 64 (drop i inp))) (drop (i + 64) inp))
        \<and> drop j inp = md5_tail (drop (i + 64) inp)"
      by fastforce
    with True bound show ?thesis
      by (simp add: md5_blocks.simps [of inp i st] md5_absorb_step [of "drop i inp"]
          md5_tail_step [of "drop i inp"] add.commute)
  next
    case False
    with bound show ?thesis
      by (simp add: md5_blocks.simps [of inp i st] md5_absorb_short md5_tail_short)
  qed
qed

lemma add_div_carry:
  fixes A B M :: nat
  assumes "0 < M"
  shows "(A + B) div M = A div M + B div M + (if (A + B) mod M < B mod M then 1 else 0)"
proof -
  let ?s = "A mod M + B mod M"
  have s: "?s < 2 * M" and b: "B mod M < M" and a: "A mod M < M"
    using assms by (simp_all add: add_strict_mono mult_2)
  have m: "(A + B) mod M = ?s mod M" by (simp add: mod_add_eq)
  show ?thesis
  proof (cases "?s < M")
    case True
    then show ?thesis by (simp add: div_add1_eq [of A B M] m)
  next
    case False
    then have "?s div M = Suc ((?s - M) div M)" "?s mod M = (?s - M) mod M" "?s - M < M"
      using s assms le_div_geq [of M ?s] le_mod_geq [of M ?s] by linarith+
    moreover have "?s - M < B mod M" using False a b by linarith
    ultimately show ?thesis by (simp add: div_add1_eq [of A B M] m)
  qed
qed

lemma md5_index: "unat (drop_bit 3 (of_nat (8 * a) :: uint32) AND 0x3F) = a mod 64"
proof -
  have "drop_bit 3 (of_nat (8 * a) :: uint32) AND 0x3F = take_bit 6 (drop_bit 3 (of_nat (8 * a)))"
    by (simp add: take_bit_eq_mask mask_numeral)
  then have "unat (drop_bit 3 (of_nat (8 * a) :: uint32) AND 0x3F) = 8 * a mod 2 ^ 32 div 8 mod 64"
    by (simp add: drop_bit_eq_div take_bit_eq_mod unat_div unat_mod unat_of_nat del: of_nat_mult)
  also have "8 * a mod 2 ^ 32 div 8 = a mod 2 ^ 29"
    using mult_mod_right [of 8 a "2 ^ 29"] by simp
  finally show ?thesis by (simp add: mod_mod_cancel)
qed

lemma unat_word32: "unat (of_nat x :: uint32) = x mod 2 ^ 32"
  by (simp add: unat_of_nat)

lemma md5_count_update:
  assumes "n < 2 ^ 32"
  shows "(of_nat (8 * a) :: uint32) + push_bit 3 (of_nat n) = of_nat (8 * (a + n))"
    and "(if (of_nat (8 * (a + n)) :: uint32) < push_bit 3 (of_nat n)
          then of_nat (8 * a div 2 ^ 32) + 1 else of_nat (8 * a div 2 ^ 32)) + drop_bit 29 (of_nat n)
         = (of_nat (8 * (a + n) div 2 ^ 32) :: uint32)"
proof -
  have p: "push_bit 3 (of_nat n :: uint32) = of_nat (8 * n)"
    by (simp add: push_bit_eq_mult)
  show "(of_nat (8 * a) :: uint32) + push_bit 3 (of_nat n) = of_nat (8 * (a + n))"
    by (simp add: push_bit_eq_mult algebra_simps)
  have d: "drop_bit 29 (of_nat n :: uint32) = of_nat (8 * n div 2 ^ 32)"
    using assms by (simp add: drop_bit_eq_div word_arith_nat_div unat_of_nat)
  have c: "(of_nat (8 * (a + n)) :: uint32) < of_nat (8 * n) \<longleftrightarrow> (8 * a + 8 * n) mod 2 ^ 32 < 8 * n mod 2 ^ 32"
    unfolding word_less_nat_alt unat_word32 distrib_left by (rule refl)
  have e: "8 * (a + n) div 2 ^ 32 = 8 * a div 2 ^ 32 + 8 * n div 2 ^ 32
      + (if (8 * a + 8 * n) mod 2 ^ 32 < 8 * n mod 2 ^ 32 then 1 else 0)"
    unfolding distrib_left by (rule add_div_carry) simp
  show "(if (of_nat (8 * (a + n)) :: uint32) < push_bit 3 (of_nat n)
          then of_nat (8 * a div 2 ^ 32) + 1 else of_nat (8 * a div 2 ^ 32)) + drop_bit 29 (of_nat n)
         = (of_nat (8 * (a + n) div 2 ^ 32) :: uint32)"
    unfolding p c d e by (simp del: of_nat_mult)
qed

text \<open>A sequence of updates.\<close>

fun md5_updates :: "md5_context \<Rightarrow> byte list list \<Rightarrow> md5_context option" where
  "md5_updates ctx [] = Some ctx"
| "md5_updates ctx (c # cs) = Option.bind (md5_updateImpl ctx c) (\<lambda>ctx'. md5_updates ctx' cs)"

text \<open>The context of an engine that has been fed the message \<^verbatim>\<open>m\<close>.\<close>

definition md5_fed :: "md5_context \<Rightarrow> byte list \<Rightarrow> bool" where
  "md5_fed ctx m \<longleftrightarrow>
     md5_state ctx = md5_absorb (md5_state md5_reset) m
     \<and> md5_count0 ctx = of_nat (8 * length m) \<and> md5_count1 ctx = of_nat (8 * length m div 2 ^ 32)
     \<and> length (md5_buffer ctx) = 64 \<and> take (length m mod 64) (md5_buffer ctx) = md5_tail m"

lemma md5_fed_reset: "md5_fed md5_reset []"
  by (simp add: md5_fed_def md5_reset_def md5_absorb.simps md5_tail_def)

lemma mem_copy_tail:
  assumes "take k buf = t" and "length t = k" and "k + length inp \<le> length buf"
  shows "take (k + length inp) (mem_copy buf k inp) = t @ inp"
    and "length (mem_copy buf k inp) = length buf"
  using assms by (auto simp: mem_copy_def min_def)

lemma md5_updateImpl_fed:
  assumes fed: "md5_fed ctx m" and len: "length inp + 63 < 2 ^ 32"
  shows "\<exists>ctx'. md5_updateImpl ctx inp = Some ctx' \<and> md5_fed ctx' (m @ inp)"
proof -
  let ?k = "length m mod 64"
  let ?st = "md5_absorb (md5_state md5_reset)"
  note count = md5_count_update [of "length inp" "length m"]
  from fed have st: "md5_state ctx = ?st m" and buf: "length (md5_buffer ctx) = 64"
    "take ?k (md5_buffer ctx) = md5_tail m"
    and c0: "md5_count0 ctx = of_nat (8 * length m)"
    and c1: "md5_count1 ctx = of_nat (8 * length m div 2 ^ 32)"
    by (simp_all add: md5_fed_def)
  have idx: "unat (drop_bit 3 (md5_count0 ctx) AND 0x3F) = ?k"
    unfolding c0 by (rule md5_index)
  have k: "?k < 64" by simp
  have n: "length inp < 2 ^ 32" using len by simp
  have upd: "md5_updateImpl ctx inp =
     (if 64 - ?k \<le> length inp
      then Option.bind (md5_blocks inp (64 - ?k) (md5_transform (?st m)
             (mem_copy (md5_buffer ctx) ?k (take (64 - ?k) inp)))) (\<lambda>(i, st).
           Some \<lparr>md5_state = st, md5_count0 = of_nat (8 * (length m + length inp)),
                 md5_count1 = of_nat (8 * (length m + length inp) div 2 ^ 32),
                 md5_buffer = mem_copy (mem_copy (md5_buffer ctx) ?k (take (64 - ?k) inp)) 0 (drop i inp)\<rparr>)
      else Some \<lparr>md5_state = ?st m, md5_count0 = of_nat (8 * (length m + length inp)),
                 md5_count1 = of_nat (8 * (length m + length inp) div 2 ^ 32),
                 md5_buffer = mem_copy (md5_buffer ctx) ?k inp\<rparr>)"
    unfolding md5_updateImpl_def Let_def idx st
    unfolding c0 c1 md5_count_update [OF n] by (rule refl)
  note app = md5_absorb_append [of "md5_state md5_reset" m inp]
  show ?thesis
  proof (cases "64 - ?k \<le> length inp")
    case True
    let ?b = "mem_copy (md5_buffer ctx) ?k (take (64 - ?k) inp)"
    have b: "?b = md5_tail m @ take (64 - ?k) inp"
      using buf k True mem_copy_tail [of ?k "md5_buffer ctx" "md5_tail m" "take (64 - ?k) inp"] by simp
    have first: "md5_absorb (?st m) (md5_tail m @ inp) = md5_absorb (md5_transform (?st m) ?b) (drop (64 - ?k) inp)"
      using True k by (simp add: b md5_absorb_step [of "md5_tail m @ inp"])
    have tl: "md5_tail (md5_tail m @ inp) = md5_tail (drop (64 - ?k) inp)"
      using True k md5_tail_step [of "md5_tail m @ inp"] by simp
    obtain j where j: "md5_blocks inp (64 - ?k) (md5_transform (?st m) ?b)
        = Some (j, md5_absorb (md5_transform (?st m) ?b) (drop (64 - ?k) inp))"
      "drop j inp = md5_tail (m @ inp)"
      using md5_blocks_eq [OF len True] app tl by metis
    have len_b: "length ?b = 64" using b True k by simp
    have len_j: "length (drop j inp) = (length m + length inp) mod 64" unfolding j(2) by simp
    have "take ((length m + length inp) mod 64) (mem_copy ?b 0 (drop j inp)) = md5_tail (m @ inp)"
      "length (mem_copy ?b 0 (drop j inp)) = 64"
      using mem_copy_tail [of 0 ?b "[]" "drop j inp"] unfolding len_b len_j j(2) by simp_all
    moreover have "md5_updateImpl ctx inp =
        Some \<lparr>md5_state = ?st (m @ inp), md5_count0 = of_nat (8 * (length m + length inp)),
              md5_count1 = of_nat (8 * (length m + length inp) div 2 ^ 32),
              md5_buffer = mem_copy ?b 0 (drop j inp)\<rparr>"
      unfolding upd j(1) using True app first by simp
    ultimately show ?thesis by (simp add: md5_fed_def)
  next
    case False
    then have short: "length (md5_tail m @ inp) < 64" by simp
    then have "?k + length inp = (length m + length inp) mod 64"
      by (metis length_append length_md5_tail mod_add_left_eq mod_less)
    with False short app upd st buf mem_copy_tail [of ?k "md5_buffer ctx" "md5_tail m" inp]
    show ?thesis
      by (simp add: md5_fed_def md5_tail_short md5_absorb_short del: of_nat_mult of_nat_add)
  qed
qed

lemma md5_byte_of_word:
  assumes "k \<le> 24"
  shows "ucast (drop_bit k (of_nat N :: uint32) AND 0xff) = (of_nat (N div 2 ^ k) :: byte)"
proof -
  have "drop_bit k (of_nat N :: uint32) AND 0xff = take_bit 8 (drop_bit k (of_nat N))"
    by (simp only: take_bit_eq_mask) (simp add: mask_numeral)
  then show ?thesis using assms
    by (intro bit_eqI) (auto simp: bit_simps drop_bit_eq_div [symmetric])
qed

lemma md5_byte_of_count:
  "ucast ((of_nat N :: uint32) AND 0xff) = (of_nat N :: byte)"
  using md5_byte_of_word [of 0 N] by simp

lemma md5_encode_number:
  "md5_encode [of_nat N, of_nat (N div 2 ^ 32)] 8 = map (\<lambda>i. of_nat (N div 2 ^ (8 * i))) [0..<8]"
proof -
  have "[0..<8] = [0, 1, 2, 3, 4, 5, 6, 7 :: nat]" by (simp add: upt_rec)
  moreover have "N div 2 ^ 32 div 2 ^ k = N div 2 ^ (32 + k)" for k
    by (simp add: power_add div_mult2_eq)
  ultimately show ?thesis
    using md5_byte_of_word [of 8] md5_byte_of_word [of 16] md5_byte_of_word [of 24]
    unfolding md5_encode_def md5_encode_word_def
    by (simp only:) (simp add: md5_byte_of_count numeral_2_eq_2)
qed

lemma md5_encode_count:
  "md5_encode [of_nat (8 * n), of_nat (8 * n div 2 ^ 32)] 8 = md5_length_bytes n"
  unfolding md5_length_bytes_def by (rule md5_encode_number)

lemma length_md5_length_bytes [simp]: "length (md5_length_bytes n) = 8"
  by (simp add: md5_length_bytes_def)

lemma md5_padding:
  fixes m :: "byte list"
  defines "k \<equiv> length m mod 64"
  shows "m @ take (if k < 56 then 56 - k else 120 - k) md5_PADDING @ md5_length_bytes (length m) = md5_pad m"
    and "length (md5_pad m) mod 64 = 0"
proof -
  have k: "k < 64" by (simp add: k_def)
  define p where "p = (if k < 56 then 56 - k else 120 - k)"
  have p: "p = Suc ((119 - k) mod 64)" "p \<le> 64"
    using k by (auto simp: p_def mod_if)
  have "take p md5_PADDING = 0x80 # replicate ((119 - k) mod 64) 0"
    using p(2) unfolding md5_PADDING_def p(1) by (simp only: take_Suc_Cons take_replicate) (simp add: min_def)
  then show "m @ take (if k < 56 then 56 - k else 120 - k) md5_PADDING @ md5_length_bytes (length m) = md5_pad m"
    unfolding p_def [symmetric] by (simp add: md5_pad_def k_def)
  have "(k + p + 8) mod 64 = 0" using k by (auto simp: p_def)
  moreover have "length (md5_pad m) = length m + p + 8" by (simp add: md5_pad_def p(1) k_def)
  ultimately show "length (md5_pad m) mod 64 = 0" by (simp add: k_def mod_add_left_eq add.assoc)
qed

lemma md5_digest_fed:
  assumes "md5_fed ctx m"
  shows "md5_digest ctx = Some (md5_spec m, md5_reset)"
proof -
  let ?k = "length m mod 64"
  let ?pad = "take (if ?k < 56 then 56 - ?k else 120 - ?k) md5_PADDING"
  have c: "md5_count0 ctx = of_nat (8 * length m)" "md5_count1 ctx = of_nat (8 * length m div 2 ^ 32)"
    using assms by (simp_all add: md5_fed_def)
  have "length ?pad + 63 < 2 ^ 32" by (simp add: md5_PADDING_def)
  with assms obtain c1 where c1: "md5_updateImpl ctx ?pad = Some c1" "md5_fed c1 (m @ ?pad)"
    using md5_updateImpl_fed by blast
  have "length (md5_length_bytes (length m)) + 63 < 2 ^ 32" by simp
  with c1(2) obtain c2 where c2: "md5_updateImpl c1 (md5_length_bytes (length m)) = Some c2"
    "md5_fed c2 ((m @ ?pad) @ md5_length_bytes (length m))"
    using md5_updateImpl_fed by blast
  then have st: "md5_state c2 = md5_absorb (md5_state md5_reset) (md5_pad m)"
    by (simp add: md5_fed_def md5_padding)
  have "md5_digest ctx = Option.bind (md5_updateImpl ctx ?pad) (\<lambda>ctx1.
      Option.bind (md5_updateImpl ctx1 (md5_length_bytes (length m))) (\<lambda>ctx2.
      Some (case md5_state ctx2 of (a, b, c, d) \<Rightarrow> md5_encode [a, b, c, d] 16, md5_reset)))"
    unfolding md5_digest_def Let_def c md5_index md5_encode_count by (rule refl)
  then show ?thesis
    by (simp add: c1(1) c2(1) st md5_spec_def md5_encode_def split: prod.split)
qed

lemma md5_updates_fed:
  assumes "md5_fed ctx m" and "\<forall>c \<in> set cs. length c + 63 < 2 ^ 32"
  shows "\<exists>ctx'. md5_updates ctx cs = Some ctx' \<and> md5_fed ctx' (m @ concat cs)"
  using assms
proof (induction cs arbitrary: ctx m)
  case Nil
  then show ?case by simp
next
  case (Cons c cs)
  then obtain ctx' where "md5_updateImpl ctx c = Some ctx'" "md5_fed ctx' (m @ c)"
    using md5_updateImpl_fed [of ctx m c] by auto
  with Cons.IH [of ctx' "m @ c"] Cons.prems show ?case by simp
qed

lemma HexMD5_eq:
  assumes "length s + 63 < 2 ^ 32"
  shows "HexMD5 s = Some (digestToHex (md5_spec (string_bytes s)))"
proof -
  have "take (unat (of_nat (length s) :: uint32)) (string_bytes s) = string_bytes s"
    using assms by (simp add: unat_word32 string_bytes_def)
  moreover have "\<exists>ctx. md5_updateImpl md5_reset (string_bytes s) = Some ctx \<and> md5_fed ctx (string_bytes s)"
    using md5_updateImpl_fed [OF md5_fed_reset, of "string_bytes s"] assms by (simp add: string_bytes_def)
  ultimately show ?thesis by (auto simp: HexMD5_def md5_update_string_def md5_digest_fed)
qed
section \<open>Lemmas on UUIDs\<close>

lemma hex_index_digit:
  assumes "n < 16"
  shows "hex_index (tolower (hex_digit n)) = Some n" and "\<not> is_white (hex_digit n)"
proof -
  have "n \<in> set [0..<16]" using assms by simp
  moreover have "\<forall>n \<in> set [0..<16].
      hex_index (tolower (hex_digit n)) = Some n \<and> \<not> is_white (hex_digit n)"
    by code_simp
  ultimately show "hex_index (tolower (hex_digit n)) = Some n" "\<not> is_white (hex_digit n)" by blast+
qed

lemma nibble_less: "unat (c AND 0xF :: byte) < 16"
proof -
  have "c AND 0xF = take_bit 4 c" by (simp only: take_bit_eq_mask) (simp add: mask_numeral)
  then show ?thesis by (simp add: unat_mod take_bit_eq_mod)
qed

lemma byte_of_nibbles: "push_bit 4 (of_nat (unat (drop_bit 4 c AND 0xF))) OR of_nat (unat (c AND 0xF)) = (c :: byte)"
proof -
  have "x AND 0xF = take_bit 4 x" for x :: byte
    by (simp only: take_bit_eq_mask) (simp add: mask_numeral)
  then show ?thesis by (intro bit_eqI) (auto simp: bit_simps)
qed

lemma byte_absorb: "(a AND b) OR b = (b :: byte)"
  by (rule bit_eqI) (auto simp: bit_simps)

lemma stream_get_char: "\<not> is_white c \<Longrightarrow> stream_get (c # s) = Some (c, s)"
  by (simp add: stream_get_def)

lemma stream_get_dash: "stream_get (CHR ''-'' # s) = Some (CHR ''-'', s)"
  by (simp add: stream_get_def is_white_def)

lemma uuid_get_put: "uuid_get i (length u) (uuid_put i u @ rest) = Some (u, rest)"
  by (induction u arbitrary: i)
    (simp_all add: hex_byte_def uuid_dash_def stream_get_char stream_get_dash hex_index_digit nibble_less
      byte_of_nibbles [simplified])

lemma uuid_parse_print:
  assumes "length u = 16"
  shows "uuid_parse (uuid_print u @ rest) = Some (u, rest)"
  using uuid_get_put [of 0 u rest] assms by (simp add: uuid_parse_def uuid_print_def)

lemma length_uuid_put: "length (uuid_put i u) = 2 * length u + length (concat (map uuid_dash [i..<i + length u]))"
  by (induction u arbitrary: i) (simp_all add: hex_byte_def upt_rec)

section \<open>Properties\<close>

text \<open>C19: however a message is split into updates, the engine returns its digest by the specification and
  is then ready for the next message.\<close>

theorem MD5Engine_correct:
  assumes "\<forall>c \<in> set cs. length c + 63 < 2 ^ 32"
  shows "\<exists>ctx. md5_updates md5_reset cs = Some ctx
           \<and> md5_digest ctx = Some (md5_spec (concat cs), md5_reset)"
  using md5_updates_fed [OF md5_fed_reset assms] md5_digest_fed by auto

theorem MD5Engine_correct_witness:
  "\<exists>ctx. md5_updates md5_reset [string_bytes ''a'', string_bytes ''bc''] = Some ctx
     \<and> map_option (digestToHex \<circ> fst) (md5_digest ctx) = Some ''900150983cd24fb0d6963f7d28e17f72''"
proof -
  have "HexMD5 ''abc'' = Some ''900150983cd24fb0d6963f7d28e17f72''" by code_simp
  then have "digestToHex (md5_spec (string_bytes ''abc'')) = ''900150983cd24fb0d6963f7d28e17f72''"
    by (simp add: HexMD5_eq)
  moreover have "concat [string_bytes ''a'', string_bytes ''bc''] = string_bytes ''abc''"
    by (simp add: string_bytes_def)
  moreover have "\<forall>c \<in> set [string_bytes ''a'', string_bytes ''bc'']. length c + 63 < 2 ^ 32"
    by (simp add: string_bytes_def)
  ultimately show ?thesis using MD5Engine_correct [of "[string_bytes ''a'', string_bytes ''bc'']"] by auto
qed

text \<open>a generated UUID is written with 36 characters from which the input operator reads it back; it
  has the version 4 and the variant of RFC 4122, and its other bytes are the random ones.\<close>

theorem GenerateUUID_version4:
  assumes "length buffer = 16"
  shows "\<exists>s u. GenerateUUID (Some buffer) = Some s \<and> length s = 36 \<and> uuid_parse s = Some (u, [])
           \<and> length u = 16 \<and> drop_bit 4 (u ! 6) = 4 \<and> drop_bit 6 (u ! 8) = 2
           \<and> (\<forall>i < 16. i \<noteq> 6 \<and> i \<noteq> 8 \<longrightarrow> u ! i = buffer ! i)"
proof -
  let ?u = "uuid_of_random buffer"
  have len: "length ?u = 16" using assms by (simp add: uuid_of_random_def Let_def)
  have six: "?u ! 6 = (buffer ! 6 AND 0x4f) OR 0x40" and eight: "?u ! 8 = (buffer ! 8 AND 0xbf) OR 0x80"
    using assms by (simp_all add: uuid_of_random_def Let_def)
  have "drop_bit 4 ((x AND 0x4f) OR 0x40) = 4" "drop_bit 6 ((x AND 0xbf) OR 0x80) = 2" for x :: byte
    by (simp_all add: byte_absorb)
  moreover have "length (uuid_print ?u) = 36"
    by (simp add: uuid_print_def length_uuid_put len uuid_dash_def upt_rec)
  moreover have "\<forall>i < 16. i \<noteq> 6 \<and> i \<noteq> 8 \<longrightarrow> ?u ! i = buffer ! i"
    by (simp add: uuid_of_random_def Let_def)
  moreover have "uuid_parse (uuid_print ?u) = Some (?u, [])"
    using uuid_parse_print [OF len, of "[]"] by simp
  ultimately show ?thesis using len by (simp add: GenerateUUID_def six eight)
qed

theorem GenerateUUID_version4_witness:
  "\<exists>u. uuid_parse (the (GenerateUUID (Some (replicate 16 0)))) = Some (u, []) \<and> drop_bit 4 (u ! 6) = 4"
  using GenerateUUID_version4 [of "replicate 16 0"] by fastforce

end
