(* ===== verification/Kroll_System.thy ===== *)
theory Kroll_System
  imports Kroll_Application Kroll_DataUtils
begin

unbundle bit_operations_syntax

text \<open>
  The utilities that touch the system: \<^verbatim>\<open>src/api/utils/environment_utils.cpp\<close>, \<^verbatim>\<open>platform_utils.cpp\<close>,
  \<^verbatim>\<open>linux/platform_utils_linux.cpp\<close>, \<^verbatim>\<open>linux/file_utils_linux.cpp\<close>, \<^verbatim>\<open>linux/boot_utils_linux.cpp\<close>, the
  rest of \<^verbatim>\<open>file_utils.cpp\<close> and \<^verbatim>\<open>posix/file_utils_posix.cpp\<close>, and what \<^verbatim>\<open>application.cpp\<close> builds on
  them. The state of the process and its surroundings is the record \<^verbatim>\<open>world\<close>; the system calls are the
  record \<^verbatim>\<open>machine\<close>, an argument of the definitions.
\<close>

section \<open>Processes and their surroundings\<close>

text \<open>The entries of \<^verbatim>\<open>environ\<close>, the file system, the numbers of random draws, the static vector of
  \<^verbatim>\<open>GetComponentSearchPaths\<close>, the commands given to the shell, and the output.\<close>

record world =
  w_environ :: "string list"
  w_fs :: os
  w_draws :: nat
  w_searchPaths :: "string list"
  w_commands :: "string list"
  w_output :: "string list"

record network_interface =
  if_flags :: "16 word option"
  if_hwaddr :: "byte list option"

text \<open>The system calls and the user: \<^verbatim>\<open>mkdir\<close>, opening a file for writing with the contents written
  to it, \<^verbatim>\<open>unlink\<close>, \<^verbatim>\<open>mkdtemp\<close>, \<^verbatim>\<open>system\<close> with the status it returns, the home directory and login name,
  the link \<^verbatim>\<open>/proc/self/exe\<close>, the interfaces that \<^verbatim>\<open>SIOCGIFCONF\<close> reports (\<^const>\<open>None\<close> when the socket cannot
  be opened), the random device, \<^verbatim>\<open>uname\<close> and the constants of the build. A call that fails is \<^const>\<open>None\<close>.\<close>

record machine =
  sys_mkdir :: "os \<Rightarrow> string \<Rightarrow> os option"
  sys_write :: "os \<Rightarrow> string \<Rightarrow> string \<Rightarrow> os option"
  sys_unlink :: "os \<Rightarrow> string \<Rightarrow> os option"
  sys_mkdtemp :: "os \<Rightarrow> string \<Rightarrow> (string \<times> os) option"
  sys_system :: "os \<Rightarrow> string \<Rightarrow> int32 \<times> os"
  sys_pw_dir :: "string option"
  sys_login :: "string option"
  sys_exe_link :: "string option"
  sys_interfaces :: "network_interface list option"
  sys_random :: "nat \<Rightarrow> byte list option"
  sys_release :: string
  sys_machine :: string
  build_os_type :: string
  build_version :: string

text \<open>What ends a computation other than its return: undefined behaviour, an exception with its text, a
  recursion without end, the end of the process, or its replacement by \<^verbatim>\<open>execv\<close>.\<close>

datatype sys_stop =
    Undefined
  | Throws string
  | Endless
  | ExitsWith int
  | Execs string "string list" "string list" os

type_synonym ('a, 'z) sysM = "'z world_scheme \<Rightarrow> sys_stop + 'a \<times> 'z world_scheme"

definition returnW :: "'a \<Rightarrow> ('a, 'z) sysM" where
  "returnW x w = Inr (x, w)"

definition bindW :: "('a, 'z) sysM \<Rightarrow> ('a \<Rightarrow> ('b, 'z) sysM) \<Rightarrow> ('b, 'z) sysM" where
  "bindW f g w = (case f w of Inl e \<Rightarrow> Inl e | Inr (x, w') \<Rightarrow> g x w')"

definition stopW :: "sys_stop \<Rightarrow> ('a, 'z) sysM" where
  "stopW e w = Inl e"

definition getsW :: "('z world_scheme \<Rightarrow> 'a) \<Rightarrow> ('a, 'z) sysM" where
  "getsW f w = Inr (f w, w)"

definition modifyW :: "('z world_scheme \<Rightarrow> 'z world_scheme) \<Rightarrow> (unit, 'z) sysM" where
  "modifyW f w = Inr ((), f w)"

definition liftW :: "'a option \<Rightarrow> ('a, 'z) sysM" where
  "liftW r = (case r of None \<Rightarrow> stopW Undefined | Some x \<Rightarrow> returnW x)"

lemmas sysM_defs = returnW_def bindW_def stopW_def getsW_def modifyW_def liftW_def

section \<open>Environment\<close>

text \<open>\<^verbatim>\<open>getenv\<close>, \<^verbatim>\<open>setenv\<close> and \<^verbatim>\<open>unsetenv\<close> on the entries \<^verbatim>\<open>NAME=value\<close> of \<^verbatim>\<open>environ\<close>.\<close>

definition env_matches :: "string \<Rightarrow> string \<Rightarrow> bool" where
  "env_matches name e \<longleftrightarrow> take (length name + 1) e = name @ ''=''"

definition env_name :: "string \<Rightarrow> bool" where
  "env_name name \<longleftrightarrow> name \<noteq> [] \<and> CHR ''='' \<notin> set name"

definition getenv :: "string list \<Rightarrow> string \<Rightarrow> string option" where
  "getenv env name =
     (if name = [] then None
      else map_option (drop (length name + 1)) (List.find (env_matches name) env))"

fun env_replace :: "string \<Rightarrow> string \<Rightarrow> string list \<Rightarrow> string list" where
  "env_replace name v [] = [name @ ''='' @ v]"
| "env_replace name v (e # es) =
     (if env_matches name e then (name @ ''='' @ v) # es else e # env_replace name v es)"

definition setenv :: "string \<Rightarrow> string \<Rightarrow> string list \<Rightarrow> string list option" where
  "setenv name v env = (if env_name name then Some (env_replace name v env) else None)"

definition unsetenv :: "string \<Rightarrow> string list \<Rightarrow> string list" where
  "unsetenv name env = (if env_name name then filter (\<lambda>e. \<not> env_matches name e) env else env)"

definition Environment_Has :: "string \<Rightarrow> (bool, 'z) sysM" where
  "Environment_Has name = getsW (\<lambda>w. getenv (w_environ w) (c_str name) \<noteq> None)"

definition Environment_Get :: "string \<Rightarrow> (string, 'z) sysM" where
  "Environment_Get name = getsW (\<lambda>w. case getenv (w_environ w) (c_str name) of Some v \<Rightarrow> v | None \<Rightarrow> [])"

definition Environment_Set :: "string \<Rightarrow> string \<Rightarrow> (unit, 'z) sysM" where
  "Environment_Set name v w =
     (case setenv (c_str name) (c_str v) (w_environ w) of
        Some env \<Rightarrow> Inr ((), w\<lparr>w_environ := env\<rparr>)
      | None \<Rightarrow> Inl (Throws (''Cannot set environment variable: '' @ name)))"

definition Environment_Unset :: "string \<Rightarrow> (unit, 'z) sysM" where
  "Environment_Unset name = modifyW (\<lambda>w. w\<lparr>w_environ := unsetenv (c_str name) (w_environ w)\<rparr>)"

text \<open>Without an equals sign \<^verbatim>\<open>find\<close> is \<^verbatim>\<open>npos\<close>, so that the key is the whole entry and, as \<^verbatim>\<open>npos + 1\<close> is
  zero, the value too.\<close>

definition environment_entry :: "string \<Rightarrow> string \<times> string" where
  "environment_entry e = (case str_find e ''='' 0 of
      Some pos \<Rightarrow> (take pos e, drop (pos + 1) e)
    | None \<Rightarrow> (e, e))"

fun GetEnvironment :: "string list \<Rightarrow> (string \<rightharpoonup> string) \<Rightarrow> (string \<rightharpoonup> string)" where
  "GetEnvironment [] environment = environment"
| "GetEnvironment (e # es) environment =
     (case environment_entry e of (key, val) \<Rightarrow> GetEnvironment es (environment(key \<mapsto> val)))"

section \<open>Directories and files\<close>

definition PRODUCT_NAME :: string where "PRODUCT_NAME = ''Kroll''"
definition UPDATE_FILENAME :: string where "UPDATE_FILENAME = ''.update''"
definition INSTALLED_MARKER_FILENAME :: string where "INSTALLED_MARKER_FILENAME = ''.installed''"

text \<open>\<^verbatim>\<open>dirname\<close> of the C library: the part before the last slash that is not at the end, without the
  slashes at its own end; a path without a slash is in the current directory.\<close>

definition strip_slashes :: "string \<Rightarrow> string" where
  "strip_slashes p = rev (dropWhile (\<lambda>c. c = CHR ''/'') (rev p))"

definition posix_dirname :: "string \<Rightarrow> string" where
  "posix_dirname path =
     (let p = (if strip_slashes path = [] then path else strip_slashes path)
      in case find_last_of p ''/'' of
           None \<Rightarrow> ''.''
         | Some pos \<Rightarrow>
             (case strip_slashes (take (pos + 1) p) of
                [] \<Rightarrow> if pos = 1 then ''//'' else ''/''
              | d \<Rightarrow> d))"

definition Dirname :: "string \<Rightarrow> string" where
  "Dirname path = posix_dirname (c_str path)"

definition CreateDirectoryImpl :: "machine \<Rightarrow> string \<Rightarrow> os \<Rightarrow> bool \<times> os" where
  "CreateDirectoryImpl m dir fs =
     (case sys_mkdir m fs (c_str dir) of Some fs' \<Rightarrow> (True, fs') | None \<Rightarrow> (False, fs))"

text \<open>The recursion to the parent has fuel; \<^const>\<open>None\<close> means that it is used up.\<close>

fun CreateDirectory :: "machine \<Rightarrow> nat \<Rightarrow> string \<Rightarrow> bool \<Rightarrow> os \<Rightarrow> (bool \<times> os) option" where
  "CreateDirectory m 0 dir recursive fs = None"
| "CreateDirectory m (Suc n) dir recursive fs =
     (if IsDirectory fs dir then Some (True, fs)
      else let parent = Dirname dir
           in if recursive \<and> parent \<noteq> [] \<and> \<not> IsDirectory fs parent
              then case CreateDirectory m n parent True fs of
                     None \<Rightarrow> None
                   | Some (False, fs') \<Rightarrow> Some (False, fs')
                   | Some (True, fs') \<Rightarrow> Some (CreateDirectoryImpl m dir fs')
              else Some (CreateDirectoryImpl m dir fs))"

definition DeleteDirectory :: "machine \<Rightarrow> string \<Rightarrow> os \<Rightarrow> bool \<times> os" where
  "DeleteDirectory m dir fs =
     (case sys_unlink m fs (c_str dir) of Some fs' \<Rightarrow> (True, fs') | None \<Rightarrow> (False, fs))"

definition IsHidden :: "string \<Rightarrow> bool" where
  "IsHidden file \<longleftrightarrow> file \<noteq> [] \<and> hd file = CHR ''.''"

definition WriteFile :: "machine \<Rightarrow> string \<Rightarrow> string \<Rightarrow> os \<Rightarrow> os" where
  "WriteFile m path content fs = (case sys_write m fs (c_str path) content of None \<Rightarrow> fs | Some fs' \<Rightarrow> fs')"

definition ReadFile :: "os \<Rightarrow> string \<Rightarrow> string" where
  "ReadFile fs path = (case file_contents fs (c_str path) of
      None \<Rightarrow> []
    | Some content \<Rightarrow> concat (map (\<lambda>line. line @ [CHR 0x0A]) (split_at [CHR 0x0A] content)))"

definition GetUserRuntimeHomeDirectory :: "machine \<Rightarrow> string option" where
  "GetUserRuntimeHomeDirectory m = do {
     pw_dir \<leftarrow> sys_pw_dir m;
     Join [pw_dir, ''.'' @ map tolower PRODUCT_NAME] }"

definition GetSystemRuntimeHomeDirectory :: "os \<Rightarrow> string option" where
  "GetSystemRuntimeHomeDirectory fs = do {
     let pname = map tolower PRODUCT_NAME;
     path \<leftarrow> Join [''/opt'', pname];
     path \<leftarrow> (if \<not> IsDirectory fs path then Join [''/usr/local/lib'', pname] else Some path);
     path \<leftarrow> (if \<not> IsDirectory fs path then Join [''/usr/lib'', pname] else Some path);
     if \<not> IsDirectory fs path then Join [''/opt'', pname] else Some path }"

definition GetApplicationDataDirectory :: "machine \<Rightarrow> string \<Rightarrow> (string, 'z) sysM" where
  "GetApplicationDataDirectory m appid =
     bindW (liftW (GetUserRuntimeHomeDirectory m)) (\<lambda>home.
     bindW (liftW (Join [home, ''appdata'', appid])) (\<lambda>dir w.
     case CreateDirectory m (length dir + 1) dir True (w_fs w) of
       None \<Rightarrow> Inl Endless
     | Some (_, fs) \<Rightarrow> Inr (dir, w\<lparr>w_fs := fs\<rparr>)))"

definition GetUsername :: "machine \<Rightarrow> (string, 'z) sysM" where
  "GetUsername m = (case sys_login m of
      Some loginName \<Rightarrow> returnW loginName
    | None \<Rightarrow> bindW (Environment_Has ''USER'') (\<lambda>has.
        if has then Environment_Get ''USER'' else returnW ''unknown''))"

text \<open>\<^verbatim>\<open>pbuf[c]\<close> is outside of the buffer of 255 characters when the link is as long or cannot be read.\<close>

definition GetExecutableDirectory :: "machine \<Rightarrow> string option" where
  "GetExecutableDirectory m = do {
     link \<leftarrow> sys_exe_link m;
     if 255 \<le> length link then None
     else Some (let str = c_str link in case str_rfind str ''/'' (length str) of
                  None \<Rightarrow> str
                | Some pos \<Rightarrow> take pos str) }"

text \<open>\<^verbatim>\<open>at\<close> on an empty string throws, as \<^verbatim>\<open>length() - 1\<close> wraps; a null pointer from \<^verbatim>\<open>mkdtemp\<close> is made a string.\<close>

definition GetTempDirectory :: "machine \<Rightarrow> (string, 'z) sysM" where
  "GetTempDirectory m =
     bindW (getsW (\<lambda>w. (getenv (w_environ w) ''TMPDIR'', getenv (w_environ w) ''TEMP''))) (\<lambda>(tmp, tmp2).
     let dir = (case tmp of Some t \<Rightarrow> t | None \<Rightarrow> (case tmp2 of Some t \<Rightarrow> t | None \<Rightarrow> ''/tmp''))
     in if dir = [] then stopW (Throws ''basic_string::at'')
        else (\<lambda>w. case sys_mkdtemp m (w_fs w) (dir @ (if last dir \<noteq> CHR ''/'' then ''/'' else []) @ ''kXXXXXX'') of
                   None \<Rightarrow> Inl Undefined
                 | Some (tempdir, fs) \<Rightarrow> Inr (tempdir, w\<lparr>w_fs := fs\<rparr>)))"

section \<open>Commands\<close>

definition quote_argument :: "string \<Rightarrow> string" where
  "quote_argument s = [CHR 0x22] @ s @ [CHR 0x22] @ '' ''"

definition command_line :: "string \<Rightarrow> string list \<Rightarrow> string" where
  "command_line path args = quote_argument path @ concat (map quote_argument args)"

definition WEXITSTATUS :: "int32 \<Rightarrow> nat" where
  "WEXITSTATUS status = unat (drop_bit 8 (status AND 0xff00))"

definition RunAndWait :: "machine \<Rightarrow> string \<Rightarrow> string list \<Rightarrow> (nat, 'z) sysM" where
  "RunAndWait m path args w =
     (let p = c_str (command_line path args)
      in case sys_system m (w_fs w) p of
           (status, fs) \<Rightarrow> Inr (WEXITSTATUS status, w\<lparr>w_fs := fs, w_commands := w_commands w @ [p]\<rparr>))"

definition Unzip :: "machine \<Rightarrow> string \<Rightarrow> string \<Rightarrow> (unit, 'z) sysM" where
  "Unzip m source destination =
     bindW (RunAndWait m ''/usr/bin/unzip'' [''-qq'', ''-o'', source, ''-d'', destination]) (\<lambda>_. returnW ())"

section \<open>Machine identification\<close>

datatype node_id = NodeId "byte list" | NodeThrows string | NodeUnset

definition IFF_LOOPBACK :: "16 word" where "IFF_LOOPBACK = 8"

definition usable_interface :: "network_interface \<Rightarrow> bool" where
  "usable_interface i \<longleftrightarrow>
     (case if_flags i of
        Some flags \<Rightarrow> flags AND IFF_LOOPBACK = 0 \<and> if_hwaddr i \<noteq> None
      | None \<Rightarrow> False)"

text \<open>When the socket cannot be opened the identifier of the caller stays as it is.\<close>

definition GetNodeId :: "machine \<Rightarrow> node_id" where
  "GetNodeId m = (case sys_interfaces m of
      None \<Rightarrow> NodeUnset
    | Some is \<Rightarrow>
        (case List.find usable_interface is of
           Some i \<Rightarrow> (case if_hwaddr i of Some addr \<Rightarrow> NodeId (take 6 addr) | None \<Rightarrow> NodeUnset)
         | None \<Rightarrow> NodeThrows ''00:00:00:00:00:00''))"

text \<open>\<^verbatim>\<open>GetNodeId\<close> throws a \<^verbatim>\<open>const char*\<close>, which the handler for \<^verbatim>\<open>std::string\<close> does not catch. An
  identifier that was not set is read uninitialised.\<close>

definition GetFirstMACAddress :: "machine \<Rightarrow> string option" where
  "GetFirstMACAddress m = (case GetNodeId m of
      NodeThrows _ \<Rightarrow> Some ''NoMACAddressFound''
    | NodeUnset \<Rightarrow> None
    | NodeId addr \<Rightarrow> Some (intercalate '':'' (map hex_byte addr)))"

definition MID_PREFIX :: string where "MID_PREFIX = ''v2:''"

text \<open>The result of \<^verbatim>\<open>Trim\<close> is dropped.\<close>

definition ReadMIDFromFile :: "os \<Rightarrow> string \<Rightarrow> string" where
  "ReadMIDFromFile fs path =
     (if IsFile fs path
      then case file_contents fs (c_str path) of
             None \<Rightarrow> []
           | Some content \<Rightarrow> hd (split_at [CHR 0x0A] content)
      else [])"

fun first_mid :: "os \<Rightarrow> string list \<Rightarrow> string option" where
  "first_mid fs [] = None"
| "first_mid fs (p # ps) = (let mid = ReadMIDFromFile fs p in if mid \<noteq> [] then Some mid else first_mid fs ps)"

definition GetOldMachineId :: "machine \<Rightarrow> string \<Rightarrow> (string, 'z) sysM" where
  "GetOldMachineId m midFileName =
     bindW (getsW (\<lambda>w. getenv (w_environ w) ''KR_RUNTIME'')) (\<lambda>runtime.
     bindW (case runtime of
              None \<Rightarrow> returnW []
            | Some r \<Rightarrow> bindW (liftW (Join [r, ''..'', ''..'', ''..'', midFileName])) (\<lambda>p. returnW [p])) (\<lambda>p1.
     bindW (liftW (GetUserRuntimeHomeDirectory m)) (\<lambda>home.
     bindW (liftW (Join [home, midFileName])) (\<lambda>p2.
     bindW (getsW w_fs) (\<lambda>fs.
     bindW (liftW (GetSystemRuntimeHomeDirectory fs)) (\<lambda>sys.
     bindW (liftW (Join [sys, midFileName])) (\<lambda>p3.
     case first_mid fs (p1 @ [p2, p3]) of
       Some mid \<Rightarrow> returnW mid
     | None \<Rightarrow>
         bindW (liftW (GetFirstMACAddress m)) (\<lambda>mac.
         liftW (HexMD5 mac)))))))))"

text \<open>A random device that cannot be opened makes the generator of UUIDs throw.\<close>

definition CreateMachineId :: "machine \<Rightarrow> string \<Rightarrow> (string, 'z) sysM" where
  "CreateMachineId m midFileName =
     bindW (\<lambda>w. case GenerateUUID (sys_random m (w_draws w)) of
              None \<Rightarrow> Inl (Throws ''failed to open random device.'')
            | Some uuid \<Rightarrow> Inr (uuid, w\<lparr>w_draws := w_draws w + 1\<rparr>)) (\<lambda>uuid.
     bindW (GetOldMachineId m midFileName) (\<lambda>old.
     let newMID = MID_PREFIX @ uuid @ ''|'' @ old
     in bindW (liftW (GetUserRuntimeHomeDirectory m)) (\<lambda>home.
        bindW (liftW (Join [home, midFileName])) (\<lambda>path.
        bindW (modifyW (\<lambda>w. w\<lparr>w_fs := WriteFile m path (newMID @ [CHR 0x0A]) (w_fs w)\<rparr>)) (\<lambda>_.
        returnW newMID)))))"

definition mid_file_name :: string where
  "mid_file_name = map tolower (''.'' @ PRODUCT_NAME)"

definition GetMachineId :: "machine \<Rightarrow> (string, 'z) sysM" where
  "GetMachineId m =
     bindW (liftW (GetUserRuntimeHomeDirectory m)) (\<lambda>home.
     bindW (liftW (Join [home, mid_file_name])) (\<lambda>path.
     bindW (getsW (\<lambda>w. ReadMIDFromFile (w_fs w) path)) (\<lambda>mid.
     if mid = [] \<or> str_find mid MID_PREFIX 0 \<noteq> Some 0 then CreateMachineId m mid_file_name
     else returnW mid)))"

section \<open>The application on its system\<close>

definition GetDataPath :: "machine \<Rightarrow> Application \<Rightarrow> (string, 'z) sysM" where
  "GetDataPath m app = GetApplicationDataDirectory m (app_id app)"

definition IsInstalled :: "machine \<Rightarrow> Application \<Rightarrow> (bool, 'z) sysM" where
  "IsInstalled m app =
     bindW (GetDataPath m app) (\<lambda>dataPath.
     bindW (liftW (Join [dataPath, INSTALLED_MARKER_FILENAME])) (\<lambda>dataDirMarker.
     bindW (liftW (Join [app_path app, INSTALLED_MARKER_FILENAME])) (\<lambda>appDirMarker.
     getsW (\<lambda>w. IsFile (w_fs w) dataDirMarker \<or> IsFile (w_fs w) appDirMarker))))"

definition platform_of :: "machine \<Rightarrow> 'z world_scheme \<Rightarrow> string \<Rightarrow> platform" where
  "platform_of m w mid =
     \<lparr>env_stream = getenv (w_environ w) ''TITANIUM_STREAM'', machine_id = mid, os_version = sys_release m,
      os_arch = sys_machine m, os_type = build_os_type m, product_version = build_version m\<rparr>"

text \<open>The URL of a dependency asks for the machine identification only while it builds the query
  string, which is done once.\<close>

definition URLForDependency :: "machine \<Rightarrow> Application \<Rightarrow> Dependency \<Rightarrow> (string \<times> Application, 'z) sysM" where
  "URLForDependency m app d =
     bindW (liftW (Join [app_path app, ''dist'', dist_zipfile d])) (\<lambda>zipfile.
     bindW (getsW (\<lambda>w. w)) (\<lambda>w.
     bindW (if IsFile (w_fs w) zipfile \<or> app_queryString app \<noteq> [] then returnW [] else GetMachineId m) (\<lambda>mid.
     liftW (GetURLForDependency (w_fs w) (platform_of m w mid) app d))))"

fun dependency_urls :: "machine \<Rightarrow> Application \<Rightarrow> Dependency list \<Rightarrow> (string list \<times> Application, 'z) sysM" where
  "dependency_urls m app [] = returnW ([], app)"
| "dependency_urls m app (d # ds) =
     bindW (URLForDependency m app d) (\<lambda>(url, app1).
     bindW (dependency_urls m app1 ds) (\<lambda>(urls, app2).
     returnW (url # urls, app2)))"

definition GetComponentSearchPaths :: "machine \<Rightarrow> (string list, 'z) sysM" where
  "GetComponentSearchPaths m =
     bindW (getsW w_searchPaths) (\<lambda>paths.
     if paths \<noteq> [] then returnW paths
     else
       bindW (getsW (\<lambda>w. getenv (w_environ w) ''KR_SEARCH_PATH'')) (\<lambda>forced.
       bindW (liftW (GetUserRuntimeHomeDirectory m)) (\<lambda>home.
       let pname = map tolower PRODUCT_NAME;
           all = (case forced of Some p \<Rightarrow> [p] | None \<Rightarrow> [])
                 @ [home, ''/opt/'' @ pname, ''/usr/local/lib/'' @ pname, ''/usr/lib/'' @ pname]
       in bindW (modifyW (\<lambda>w. w\<lparr>w_searchPaths := all\<rparr>)) (\<lambda>_. returnW all))))"

text \<open>\<^verbatim>\<open>BootUtils::RunInstaller\<close>; the installer for Linux has no quiet mode and the last two arguments
  are not used.\<close>

definition BootUtils_RunInstaller ::
  "machine \<Rightarrow> Dependency list \<Rightarrow> Application \<Rightarrow> string \<Rightarrow> string \<Rightarrow> (bool \<times> Application, 'z) sysM" where
  "BootUtils_RunInstaller m missing application updateFile installerPath =
     bindW (liftW (Join [if installerPath = [] then app_path application else installerPath,
                         ''installer'', ''installer''])) (\<lambda>exec.
     bindW (getsW (\<lambda>w. IsFile (w_fs w) exec)) (\<lambda>found.
     if \<not> found then returnW (False, application)
     else
       bindW (dependency_urls m application missing) (\<lambda>(urls, application').
       bindW (RunAndWait m exec
                ([''--apppath'', app_path application]
                 @ (if updateFile \<noteq> [] then [''--updatefile'', updateFile] else []) @ urls)) (\<lambda>_.
       returnW (True, application')))))"

section \<open>The environment as a store\<close>

text \<open>What the code relies on when it passes values through the environment.\<close>

locale environment_store =
  fixes get :: "'e \<Rightarrow> 'k \<Rightarrow> 'v option"
    and put :: "'k \<Rightarrow> 'v \<Rightarrow> 'e \<Rightarrow> 'e"
    and remove :: "'k \<Rightarrow> 'e \<Rightarrow> 'e"
    and valid :: "'k \<Rightarrow> bool"
  assumes get_put: "valid j \<Longrightarrow> valid k \<Longrightarrow> get (put j v e) k = (if k = j then Some v else get e k)"
    and get_remove: "valid j \<Longrightarrow> valid k \<Longrightarrow> get (remove j e) k = (if k = j then None else get e k)"
begin

lemma get_put_all_other:
  assumes "\<forall>j \<in> fst ` set kvs. valid j" and "valid k" and "k \<notin> fst ` set kvs"
  shows "get (foldl (\<lambda>e (j, v). put j v e) e kvs) k = get e k"
  using assms by (induction kvs arbitrary: e) (auto simp: get_put)

lemma get_put_all:
  assumes "distinct (map fst kvs)" and "\<forall>j \<in> fst ` set kvs. valid j" and "(k, v) \<in> set kvs"
  shows "get (foldl (\<lambda>e (j, v). put j v e) e kvs) k = Some v"
  using assms
proof (induction kvs arbitrary: e)
  case (Cons kv kvs)
  show ?case
  proof (cases "(k, v) \<in> set kvs")
    case True
    with Cons show ?thesis by (cases kv) simp
  next
    case False
    with Cons.prems(3) have kv: "kv = (k, v)" by simp
    with Cons.prems(1) have "k \<notin> fst ` set kvs" by simp
    with kv Cons.prems get_put_all_other [of kvs k "put k v e"] show ?thesis by (simp add: get_put)
  qed
qed simp

end

lemma env_matches_append: "env_matches name (name @ CHR ''='' # v)"
  by (simp add: env_matches_def)

lemma env_matches_unique:
  assumes "env_matches j e" and "env_matches k e" and "env_name j" and "env_name k"
  shows "j = k"
proof -
  have shape: "\<exists>v. e = n @ CHR ''='' # v" if "env_matches n e" for n
    using that append_take_drop_id [of "length n + 1" e] unfolding env_matches_def
    by (metis append.assoc append_Cons append_Nil)
  have pre: "takeWhile (\<lambda>c. c \<noteq> CHR ''='') e = n" if "env_matches n e" "env_name n" for n
    using shape [OF that(1)] that(2) by (auto simp: env_name_def takeWhile_append)
  from pre assms show ?thesis by blast
qed

lemma getenv_env_replace:
  assumes "env_name j" and "env_name k"
  shows "getenv (env_replace j v env) k = (if k = j then Some v else getenv env k)"
  using assms env_matches_append [of j v]
  by (induction env) (auto simp: getenv_def env_name_def dest: env_matches_unique [OF _ _ assms])

lemma getenv_filter:
  assumes "env_name j" and "env_name k"
  shows "getenv (filter (\<lambda>e. \<not> env_matches j e) env) k = (if k = j then None else getenv env k)"
  using assms by (induction env) (auto simp: getenv_def env_name_def dest: env_matches_unique [OF _ _ assms])

interpretation environ: environment_store getenv env_replace unsetenv env_name
  by unfold_locales (simp_all add: getenv_env_replace unsetenv_def getenv_filter)

lemma environment_entry_name:
  "env_name k \<Longrightarrow> environment_entry (k @ CHR ''='' # v) = (k, v)"
  by (simp add: environment_entry_def env_name_def str_find_char_append)

lemma GetEnvironment_entries:
  assumes "\<forall>k \<in> fst ` set kvs. env_name k"
  shows "GetEnvironment (map (\<lambda>(k, v). k @ ''='' @ v) kvs) environment = environment ++ map_of (rev kvs)"
  using assms
  by (induction kvs arbitrary: environment)
    (auto simp: environment_entry_name map_add_def fun_eq_iff split: option.splits)

lemma getenv_entries:
  assumes "\<forall>k \<in> fst ` set kvs. env_name k" and "env_name n"
  shows "getenv (map (\<lambda>(k, v). k @ ''='' @ v) kvs) n = map_of kvs n"
  using assms
  by (induction kvs)
    (auto simp: getenv_def env_name_def env_matches_append dest: env_matches_unique [OF _ env_matches_append])

section \<open>Lemmas on directories\<close>

text \<open>\<^verbatim>\<open>mkdir\<close> makes a directory and takes none away.\<close>

definition mkdir_laws :: "machine \<Rightarrow> bool" where
  "mkdir_laws m \<longleftrightarrow> (\<forall>fs p fs'. sys_mkdir m fs p = Some fs' \<longrightarrow>
     stat_dir fs' p \<and> (\<forall>q. stat_dir fs q \<longrightarrow> stat_dir fs' q))"

definition root_directories :: "string set" where
  "root_directories = {''.'', ''/'', ''//''}"

lemma length_strip_slashes: "length (strip_slashes p) \<le> length p"
  using length_dropWhile_le [of _ "rev p"] by (simp add: strip_slashes_def)

lemma strip_slashes_snoc: "strip_slashes (p @ ''/'') = strip_slashes p"
  by (simp add: strip_slashes_def)

lemma posix_dirname_shorter:
  "posix_dirname path \<in> root_directories \<or> length (posix_dirname path) < length path"
proof -
  define p where "p = (if strip_slashes path = [] then path else strip_slashes path)"
  have le: "length p \<le> length path" by (simp add: p_def length_strip_slashes)
  show ?thesis
  proof (cases "find_last_of p ''/''")
    case None
    then show ?thesis by (simp add: posix_dirname_def p_def [symmetric] Let_def root_directories_def)
  next
    case (Some pos)
    then have pos: "pos < length p" "p ! pos = CHR ''/''" by (simp_all add: find_last_of_Some_iff)
    then have "strip_slashes (take (pos + 1) p) = strip_slashes (take pos p)"
      using strip_slashes_snoc [of "take pos p"] by (simp add: take_Suc_conv_app_nth)
    with pos(1) have "length (strip_slashes (take (pos + 1) p)) < length p"
      using length_strip_slashes [of "take pos p"] by simp
    with Some le show ?thesis
      by (auto simp: posix_dirname_def p_def [symmetric] Let_def root_directories_def split: list.splits)
  qed
qed

text \<open>The directories on the way to \<open>dir\<close> that are missing, from the outermost one, whose parent exists,
  down to \<open>dir\<close>; and making a list of directories, up to the first that \<^verbatim>\<open>mkdir\<close> refuses.\<close>

definition missing_path :: "os \<Rightarrow> string \<Rightarrow> string list \<Rightarrow> bool" where
  "missing_path fs dir ds \<longleftrightarrow> (\<forall>d \<in> set ds. \<not> IsDirectory fs d) \<and> successively (\<lambda>a b. a = Dirname b) ds
     \<and> (if IsDirectory fs dir then ds = [] else ds \<noteq> [] \<and> last ds = dir \<and> IsDirectory fs (Dirname (hd ds)))"

primrec mkdirs :: "machine \<Rightarrow> string list \<Rightarrow> os \<Rightarrow> bool \<times> os" where
  "mkdirs m [] fs = (True, fs)"
| "mkdirs m (d # ds) fs = (case sys_mkdir m fs (c_str d) of Some fs' \<Rightarrow> mkdirs m ds fs' | None \<Rightarrow> (False, fs))"

lemma mkdirs_snoc:
  "mkdirs m (ds @ [d]) fs = (case mkdirs m ds fs of (True, fs') \<Rightarrow> CreateDirectoryImpl m d fs' | r \<Rightarrow> r)"
  by (induction ds arbitrary: fs) (auto simp: CreateDirectoryImpl_def split: option.split)

lemma mkdirs_directories:
  assumes "mkdir_laws m" and "mkdirs m ds fs = (ok, fs')"
  shows "IsDirectory fs q \<Longrightarrow> IsDirectory fs' q" and "ok \<Longrightarrow> d \<in> set ds \<Longrightarrow> IsDirectory fs' d"
proof -
  have "(\<forall>q. IsDirectory fs q \<longrightarrow> IsDirectory fs' q) \<and> (ok \<longrightarrow> (\<forall>d \<in> set ds. IsDirectory fs' d))"
    using assms(2)
  proof (induction ds arbitrary: fs)
    case (Cons d ds)
    show ?case
    proof (cases "sys_mkdir m fs (c_str d)")
      case (Some fs1)
      with assms(1) have "IsDirectory fs1 d" "\<forall>q. IsDirectory fs q \<longrightarrow> IsDirectory fs1 q"
        unfolding mkdir_laws_def IsDirectory_def by blast+
      with Cons.IH [of fs1] Cons.prems Some show ?thesis by auto
    qed (use Cons.prems in simp)
  qed simp
  then show "IsDirectory fs q \<Longrightarrow> IsDirectory fs' q" and "ok \<Longrightarrow> d \<in> set ds \<Longrightarrow> IsDirectory fs' d" by blast+
qed

lemma mkdirs_fails:
  "mkdirs m ds fs = (False, fs') \<Longrightarrow>
    \<exists>as d bs. ds = as @ d # bs \<and> mkdirs m as fs = (True, fs') \<and> sys_mkdir m fs' (c_str d) = None"
proof (induction ds arbitrary: fs)
  case (Cons d ds)
  show ?case
  proof (cases "sys_mkdir m fs (c_str d)")
    case None
    then show ?thesis using Cons.prems by (intro exI [of _ "[]"] exI [of _ d] exI [of _ ds]) auto
  next
    case (Some fs1)
    then obtain as e bs where "ds = as @ e # bs" "mkdirs m as fs1 = (True, fs')" "sys_mkdir m fs' (c_str e) = None"
      using Cons.IH [of fs1] Cons.prems by (simp add: Some) blast
    then show ?thesis using Some by (intro exI [of _ "d # as"] exI [of _ e] exI [of _ bs]) simp
  qed
qed simp

lemma Dirname_not_empty: "Dirname d \<noteq> []"
  by (auto simp: Dirname_def posix_dirname_def Let_def split: option.split list.split)

lemma CreateDirectory_mkdirs:
  assumes "\<forall>r \<in> root_directories. IsDirectory fs r" and "length dir < n"
  shows "\<exists>ds. missing_path fs dir ds \<and> CreateDirectory m n dir True fs = Some (mkdirs m ds fs)"
  using assms(2)
proof (induction n arbitrary: dir)
  case (Suc n)
  let ?p = "Dirname dir"
  consider "IsDirectory fs dir" | "\<not> IsDirectory fs dir" "IsDirectory fs ?p" | "\<not> IsDirectory fs dir" "\<not> IsDirectory fs ?p"
    by blast
  then show ?case
  proof cases
    case 1
    then show ?thesis by (intro exI [of _ "[]"]) (simp add: missing_path_def)
  next
    case 2
    then show ?thesis
      by (intro exI [of _ "[dir]"]) (simp add: missing_path_def Let_def CreateDirectoryImpl_def split: option.split)
  next
    case 3
    with assms(1) posix_dirname_shorter [of "c_str dir"] length_c_str_le [of dir] Suc.prems
    have "length ?p < n" by (fastforce simp: Dirname_def)
    with Suc.IH obtain ds where ds: "missing_path fs ?p ds" "CreateDirectory m n ?p True fs = Some (mkdirs m ds fs)"
      by blast
    have "missing_path fs dir (ds @ [dir])"
      using ds(1) 3 by (auto simp: missing_path_def successively_append_iff)
    moreover have "CreateDirectory m (Suc n) dir True fs = Some (mkdirs m (ds @ [dir]) fs)"
      using ds(2) 3 Dirname_not_empty [of dir] by (simp add: Let_def mkdirs_snoc split: prod.split bool.split)
    ultimately show ?thesis by blast
  qed
qed simp

text \<open>The parent of the directory that could not be made exists.\<close>

lemma missing_path_parent:
  assumes "mkdir_laws m" and "missing_path fs dir (as @ d # bs)" and "mkdirs m as fs = (True, fs')"
  shows "IsDirectory fs' (Dirname d)"
proof (cases "as = []")
  case True
  then show ?thesis using assms(2,3) by (simp add: missing_path_def split: if_splits)
next
  case False
  then have "last as = Dirname d" using assms(2) by (simp add: missing_path_def successively_append_iff)
  then show ?thesis using mkdirs_directories(2) [OF assms(1,3)] last_in_set [OF False] by auto
qed

section \<open>Lemmas on the machine identification\<close>

text \<open>A path at which a regular file can be created and written.\<close>

definition writable_file :: "machine \<Rightarrow> string \<Rightarrow> bool" where
  "writable_file m p \<longleftrightarrow>
     (\<forall>fs c. \<exists>fs'. sys_write m fs p c = Some fs' \<and> stat_reg fs' p \<and> file_contents fs' p = Some c)"

lemma hd_split_at_line: "CHR 0x0A \<notin> set s \<Longrightarrow> hd (split_at [CHR 0x0A] (s @ CHR 0x0A # r)) = s"
  by (simp add: split_at_append_delim)

lemma hex_digit_range: "n < 16 \<Longrightarrow> hex_digit n \<in> set ''0123456789abcdef''"
  unfolding hex_digit_def by (rule nth_mem) simp

lemma hex_byte_range: "set (hex_byte c) \<subseteq> set ''0123456789abcdef''"
  using hex_digit_range [OF nibble_less] by (simp add: hex_byte_def)

lemma hex_byte_no_newline: "CHR 0x0A \<notin> set (hex_byte c)"
  using hex_byte_range [of c] by auto

lemma GenerateUUID_no_newline: "GenerateUUID d = Some s \<Longrightarrow> CHR 0x0A \<notin> set s"
proof -
  have "CHR 0x0A \<notin> set (uuid_put i u)" for i u
    by (induction u arbitrary: i) (simp_all add: hex_byte_no_newline uuid_dash_def)
  then show "GenerateUUID d = Some s \<Longrightarrow> CHR 0x0A \<notin> set s"
    by (auto simp: GenerateUUID_def uuid_print_def bind_eq_Some_conv)
qed

lemma HexMD5_no_newline: "HexMD5 s = Some d \<Longrightarrow> CHR 0x0A \<notin> set d"
  by (auto simp: HexMD5_def bind_eq_Some_conv digestToHex_def hex_byte_no_newline)

lemma hd_split_at_no_newline: "CHR 0x0A \<notin> set (hd (split_at [CHR 0x0A] c))"
  using set_split_at [OF list.set_sel(1), OF split_at_nonempty, of "[CHR 0x0A]" c] by auto

lemma ReadMIDFromFile_no_newline: "CHR 0x0A \<notin> set (ReadMIDFromFile fs p)"
proof (cases "IsFile fs p")
  case True
  with hd_split_at_no_newline show ?thesis
    by (cases "file_contents fs (c_str p)") (simp_all only: ReadMIDFromFile_def if_True option.case list.set empty_iff not_False_eq_True)
next
  case False
  then show ?thesis by (simp add: ReadMIDFromFile_def)
qed

lemma first_mid_no_newline: "first_mid fs ps = Some mid \<Longrightarrow> CHR 0x0A \<notin> set mid"
  by (induction ps) (auto simp: Let_def ReadMIDFromFile_no_newline split: if_splits)

lemma bindW_Inr_iff: "bindW f g w = Inr r \<longleftrightarrow> (\<exists>x w'. f w = Inr (x, w') \<and> g x w' = Inr r)"
  by (auto simp: bindW_def split: sum.splits)

lemma liftW_Inr_iff: "liftW r w = Inr (x, w') \<longleftrightarrow> r = Some x \<and> w' = w"
  by (auto simp: sysM_defs split: option.splits)

lemma simple_Inr_iff [simp]:
  "returnW x w = Inr (y, w') \<longleftrightarrow> x = y \<and> w = w'"
  "getsW f w = Inr (y, w') \<longleftrightarrow> f w = y \<and> w = w'"
  "modifyW g w = Inr (u, w') \<longleftrightarrow> g w = w'"
  "stopW e w \<noteq> Inr r"
  by (simp_all add: sysM_defs)

lemmas sysM_run = bindW_Inr_iff liftW_Inr_iff

lemma GetOldMachineId_result:
  assumes "GetOldMachineId m name w = Inr (old, w')"
  shows "w' = w \<and> CHR 0x0A \<notin> set old"
  using assms
  by (auto simp: GetOldMachineId_def sysM_run HexMD5_no_newline first_mid_no_newline simp del: first_mid.simps
      split: option.splits)

lemma GetMachineId_read:
  assumes "GetUserRuntimeHomeDirectory m = Some home" and "Join [home, mid_file_name] = Some path"
    and "ReadMIDFromFile (w_fs w) path = mid" and "str_find mid MID_PREFIX 0 = Some 0"
  shows "GetMachineId m w = Inr (mid, w)"
proof -
  have "mid \<noteq> []" using assms(4) by (auto simp: str_find_zero_iff MID_PREFIX_def)
  with assms show ?thesis by (simp add: GetMachineId_def sysM_defs)
qed

lemma CreateMachineId_result:
  assumes "CreateMachineId m name w = Inr (mid, w')" and "GetUserRuntimeHomeDirectory m = Some home"
    and "Join [home, name] = Some path"
  shows "str_find mid MID_PREFIX 0 = Some 0 \<and> CHR 0x0A \<notin> set mid
    \<and> w_fs w' = WriteFile m path (mid @ [CHR 0x0A]) (w_fs w)"
proof -
  from assms obtain uuid old w1 where
    uuid: "GenerateUUID (sys_random m (w_draws w)) = Some uuid"
    and old: "GetOldMachineId m name (w\<lparr>w_draws := w_draws w + 1\<rparr>) = Inr (old, w1)"
    and mid: "mid = MID_PREFIX @ uuid @ ''|'' @ old"
    and fs: "w_fs w' = WriteFile m path (mid @ [CHR 0x0A]) (w_fs w1)"
    by (auto simp: CreateMachineId_def sysM_run Let_def split: option.splits)
  have "w_fs w1 = w_fs w" "CHR 0x0A \<notin> set old" using GetOldMachineId_result [OF old] by simp_all
  with GenerateUUID_no_newline [OF uuid] fs mid show ?thesis
    by (simp add: str_find_zero_iff MID_PREFIX_def)
qed

section \<open>A concrete machine\<close>

definition demo_machine :: machine where
  "demo_machine =
     \<lparr>sys_mkdir = (\<lambda>fs p. Some (fs\<lparr>stat_dir := (stat_dir fs)(p := True)\<rparr>)),
      sys_write = (\<lambda>fs p c. Some (fs\<lparr>stat_reg := (stat_reg fs)(p := True),
                                      file_contents := (file_contents fs)(p \<mapsto> c)\<rparr>)),
      sys_unlink = (\<lambda>fs p. None), sys_mkdtemp = (\<lambda>fs t. None), sys_system = (\<lambda>fs c. (0, fs)),
      sys_pw_dir = Some ''/home/u'', sys_login = Some ''u'', sys_exe_link = Some ''/app/demo'',
      sys_interfaces = Some [\<lparr>if_flags = Some 8, if_hwaddr = Some (replicate 14 0)\<rparr>,
                             \<lparr>if_flags = Some 3, if_hwaddr = Some (replicate 14 1)\<rparr>],
      sys_random = (\<lambda>n. Some (replicate 16 (of_nat n))), sys_release = ''2.6'', sys_machine = ''i686'',
      build_os_type = ''32bit'', build_version = ''0.8''\<rparr>"

definition demo_world :: "os \<Rightarrow> world" where
  "demo_world fs = \<lparr>w_environ = [''HOME=/home/u''], w_fs = fs, w_draws = 0, w_searchPaths = [],
     w_commands = [], w_output = []\<rparr>"

lemma demo_name: "map tolower ''Kroll'' = ''kroll''" "map tolower ''.Kroll'' = ''.kroll''"
  by code_simp+

lemma demo_home: "GetUserRuntimeHomeDirectory demo_machine = Some ''/home/u/.kroll''"
  unfolding GetUserRuntimeHomeDirectory_def PRODUCT_NAME_def demo_name
  by (simp add: demo_machine_def Join_clean clean_part_def clean_component_def)

lemma demo_mid_path: "Join [''/home/u/.kroll'', mid_file_name] = Some ''/home/u/.kroll/.kroll''"
proof -
  have name: "mid_file_name = ''.kroll''" unfolding mid_file_name_def PRODUCT_NAME_def by code_simp
  show ?thesis unfolding name by (simp add: Join_clean clean_part_def clean_component_def)
qed

lemma demo_mkdir_laws: "mkdir_laws demo_machine"
  by (simp add: mkdir_laws_def demo_machine_def)

lemma demo_writable: "writable_file demo_machine p"
  by (simp add: writable_file_def demo_machine_def)

section \<open>Properties\<close>

text \<open>C30: if the root and the current directory exist, creating a directory with its parents returns. It
  makes the missing directories on the path one after the other, from the outermost, whose parent
  exists, down to the one asked for (\<^const>\<open>missing_path\<close>, \<^const>\<open>mkdirs\<close>), and loses no directory. If it returns
  true, all of them are directories. If it returns false, \<^verbatim>\<open>mkdir\<close> has refused, in the final state, one of
  these missing directories whose parent does exist: it never fails because a parent is missing.
  The length of the path bounds the recursion.\<close>

theorem CreateDirectory_correct:
  assumes "mkdir_laws m" and "\<forall>r \<in> root_directories. IsDirectory fs r"
  shows "\<exists>ds ok fs'. CreateDirectory m (length dir + 1) dir True fs = Some (ok, fs')
    \<and> missing_path fs dir ds \<and> mkdirs m ds fs = (ok, fs')
    \<and> (\<forall>q. IsDirectory fs q \<longrightarrow> IsDirectory fs' q)
    \<and> (ok \<longrightarrow> IsDirectory fs' dir \<and> (\<forall>d \<in> set ds. IsDirectory fs' d))
    \<and> (\<not> ok \<longrightarrow> (\<exists>as d bs. ds = as @ d # bs \<and> mkdirs m as fs = (True, fs') \<and> IsDirectory fs' (Dirname d)
          \<and> sys_mkdir m fs' (c_str d) = None))"
proof -
  obtain ds ok fs' where ds: "missing_path fs dir ds" "CreateDirectory m (length dir + 1) dir True fs = Some (ok, fs')"
      "mkdirs m ds fs = (ok, fs')"
    using CreateDirectory_mkdirs [OF assms(2), of dir "length dir + 1" m] by (metis less_add_one surj_pair)
  note dirs = mkdirs_directories [OF assms(1) ds(3)]
  have "IsDirectory fs' dir" if ok
  proof (cases "IsDirectory fs dir")
    case False
    then have "dir \<in> set ds" using ds(1) last_in_set [of ds] by (auto simp: missing_path_def)
    then show ?thesis using dirs(2) that by blast
  qed (rule dirs(1))
  moreover have "\<exists>as d bs. ds = as @ d # bs \<and> mkdirs m as fs = (True, fs') \<and> IsDirectory fs' (Dirname d)
      \<and> sys_mkdir m fs' (c_str d) = None" if "\<not> ok"
  proof -
    obtain as d bs where "ds = as @ d # bs" "mkdirs m as fs = (True, fs')" "sys_mkdir m fs' (c_str d) = None"
      using mkdirs_fails [of m ds fs fs'] ds(3) \<open>\<not> ok\<close> by (metis (full_types))
    then show ?thesis using missing_path_parent [OF assms(1)] ds(1) by blast
  qed
  ultimately show ?thesis using ds dirs by blast
qed

theorem CreateDirectory_correct_witness:
  "\<exists>fs'. CreateDirectory demo_machine (length ''/a/b/c'' + 1) ''/a/b/c'' True (list_os [(''/'', []), (''//'', []), (''.'', [])] [])
     = Some (True, fs') \<and> IsDirectory fs' ''/a'' \<and> IsDirectory fs' ''/a/b'' \<and> IsDirectory fs' ''/a/b/c''"
proof -
  let ?fs = "list_os [(''/'', []), (''//'', []), (''.'', [])] []"
  have roots: "\<forall>r \<in> root_directories. IsDirectory ?fs r"
    by (simp add: root_directories_def list_os_def IsDirectory_def)
  obtain ds ok fs' where r: "CreateDirectory demo_machine (length ''/a/b/c'' + 1) ''/a/b/c'' True ?fs = Some (ok, fs')"
      "missing_path ?fs ''/a/b/c'' ds" "ok \<longrightarrow> IsDirectory fs' ''/a/b/c'' \<and> (\<forall>d \<in> set ds. IsDirectory fs' d)"
      "\<not> ok \<longrightarrow> (\<exists>d. sys_mkdir demo_machine fs' (c_str d) = None)"
    using CreateDirectory_correct [OF demo_mkdir_laws roots, of "''/a/b/c''"] by blast
  have ok using r(4) by (auto simp: demo_machine_def)
  have dirname: "Dirname ''/a/b/c'' = ''/a/b''" "Dirname ''/a/b'' = ''/a''" "Dirname ''/a'' = ''/''" by code_simp+
  have dir: "\<not> IsDirectory ?fs ''/a/b/c''" "\<not> IsDirectory ?fs ''/a/b''" "\<not> IsDirectory ?fs ''/a''"
    by (simp_all add: list_os_def IsDirectory_def)
  have chain: "last ds = ''/a/b/c''" "ds \<noteq> []" "IsDirectory ?fs (Dirname (hd ds))" "successively (\<lambda>a b. a = Dirname b) ds"
    using r(2) dir(1) by (simp_all add: missing_path_def)
  then obtain xs where xs: "ds = xs @ [''/a/b/c'']" by (metis append_butlast_last_id)
  then have "xs \<noteq> []" "last xs = ''/a/b''" using chain(3,4) dir(2) dirname(1) by (auto simp: successively_append_iff)
  then obtain ys where ys: "xs = ys @ [''/a/b'']" by (metis append_butlast_last_id)
  then have "ys \<noteq> []" "last ys = ''/a''" using chain(3,4) xs dir(3) dirname(2) by (auto simp: successively_append_iff)
  then have "''/a'' \<in> set ds" "''/a/b'' \<in> set ds" using xs ys last_in_set [of ys] by auto
  then show ?thesis using r(1,3) \<open>ok\<close> by auto
qed

text \<open>C31: if the file of the machine identification can be written, the identification is stable: a
  second call returns the same and changes nothing, and it has the prefix of the current version.\<close>

theorem GetMachineId_stable:
  assumes "GetUserRuntimeHomeDirectory m = Some home" and "Join [home, mid_file_name] = Some path"
    and "writable_file m (c_str path)" and "GetMachineId m w = Inr (mid, w')"
  shows "GetMachineId m w' = Inr (mid, w') \<and> str_find mid MID_PREFIX 0 = Some 0"
proof (cases "str_find (ReadMIDFromFile (w_fs w) path) MID_PREFIX 0 = Some 0")
  case True
  with GetMachineId_read [OF assms(1,2) refl, of w] assms(4) show ?thesis by simp
next
  case False
  with assms have create: "CreateMachineId m mid_file_name w = Inr (mid, w')"
    by (auto simp: GetMachineId_def sysM_run split: if_splits)
  note result = CreateMachineId_result [OF create assms(1,2)]
  from assms(3) obtain fs' where "sys_write m (w_fs w) (c_str path) (mid @ [CHR 0x0A]) = Some fs'"
    "stat_reg fs' (c_str path)" "file_contents fs' (c_str path) = Some (mid @ [CHR 0x0A])"
    unfolding writable_file_def by blast
  with result have "ReadMIDFromFile (w_fs w') path = mid"
    by (simp add: ReadMIDFromFile_def WriteFile_def IsFile_def hd_split_at_line)
  with GetMachineId_read [OF assms(1,2)] result show ?thesis by blast
qed

theorem GetMachineId_stable_witness:
  "GetMachineId demo_machine (demo_world (list_os [] [(''/home/u/.kroll/.kroll'', ''v2:abc'')]))
     = Inr (''v2:abc'', demo_world (list_os [] [(''/home/u/.kroll/.kroll'', ''v2:abc'')]))"
proof -
  let ?w = "demo_world (list_os [] [(''/home/u/.kroll/.kroll'', ''v2:abc'')])"
  have "ReadMIDFromFile (w_fs ?w) ''/home/u/.kroll/.kroll'' = ''v2:abc''"
    by (simp add: demo_world_def ReadMIDFromFile_def list_os_def IsFile_def)
  moreover have "str_find ''v2:abc'' MID_PREFIX 0 = Some 0" by (simp add: str_find_zero_iff MID_PREFIX_def)
  ultimately have "GetMachineId demo_machine ?w = Inr (''v2:abc'', ?w)"
    using GetMachineId_read [OF demo_home demo_mid_path] by blast
  with GetMachineId_stable [OF demo_home demo_mid_path demo_writable] show ?thesis by blast
qed

text \<open>The map of the environment that the host hands to scripts agrees with \<^verbatim>\<open>getenv\<close> when no name occurs
  twice.\<close>

theorem GetEnvironment_correct:
  assumes "\<forall>k \<in> fst ` set kvs. env_name k" and "distinct (map fst kvs)" and "env_name n"
  shows "GetEnvironment (map (\<lambda>(k, v). k @ ''='' @ v) kvs) Map.empty n
    = getenv (map (\<lambda>(k, v). k @ ''='' @ v) kvs) n"
proof -
  have "map_of (rev kvs) = map_of kvs"
    using assms(2) by (intro map_of_eqI) (auto simp: rev_map [symmetric] map_of_is_SomeI)
  then show ?thesis unfolding GetEnvironment_entries [OF assms(1)] getenv_entries [OF assms(1,3)] by simp
qed

text \<open>Reading a file that was written gives its contents with one more line end.\<close>

theorem ReadFile_WriteFile:
  assumes "writable_file m (c_str path)"
  shows "ReadFile (WriteFile m path content fs) path = content @ [CHR 0x0A]"
proof -
  from assms obtain fs' where "sys_write m fs (c_str path) content = Some fs'"
    "file_contents fs' (c_str path) = Some content"
    unfolding writable_file_def by blast
  moreover have "concat (map (\<lambda>line. line @ [CHR 0x0A]) (split_at [CHR 0x0A] c)) = c @ [CHR 0x0A]" for c
  proof (induction c)
    case (Cons x c)
    then show ?case by (cases "split_at [CHR 0x0A] c") auto
  qed simp
  ultimately show ?thesis by (simp add: ReadFile_def WriteFile_def)
qed

text \<open>Arguments are quoted but not escaped: a quote in an argument ends it, so that different argument
  lists make the same command.\<close>

theorem command_line_ambiguous:
  "command_line path [a @ [CHR 0x22] @ '' '' @ [CHR 0x22] @ b] = command_line path [a, b]"
  by (simp add: command_line_def quote_argument_def)

text \<open>Without a usable interface the address is the text of the second handler, not the address of zeros
  that was thrown.\<close>

theorem GetFirstMACAddress_none:
  assumes "sys_interfaces m = Some is" and "\<forall>i \<in> set is. \<not> usable_interface i"
  shows "GetFirstMACAddress m = Some ''NoMACAddressFound''"
proof -
  have "List.find usable_interface is = None" using assms(2) by (simp only: find_None_iff) blast
  with assms(1) show ?thesis by (simp add: GetFirstMACAddress_def GetNodeId_def)
qed

end
