(* ===== verification/Kroll_Logger.thy ===== *)
theory Kroll_Logger
  imports Kroll_Prelude
begin

text \<open>
  The loggers of \<^verbatim>\<open>src/api/logger.cpp\<close>: the registry of loggers by dotted name, levels that a new
  logger takes from its parent, filtering, and the root logger that writes the lines. Loggers are
  objects in a store: reading through a null pointer or one that was deleted is undefined behaviour,
  the result \<^const>\<open>None\<close>. The formatter of Poco and the product name of the build are arguments.
\<close>

section \<open>Data\<close>

text \<open>\<^verbatim>\<open>OtherLevel\<close> is a number cast to a level that is none of the enumerators.\<close>

datatype Level = LFATAL | LCRITICAL | LERROR | LWARN | LNOTICE | LINFO | LDEBUG | LTRACE | OtherLevel int

text \<open>The priorities of \<^verbatim>\<open>Poco::Message\<close>, from fatal, the smallest, to trace.\<close>

fun priority :: "Level \<Rightarrow> int" where
  "priority LFATAL = 1"
| "priority LCRITICAL = 2"
| "priority LERROR = 3"
| "priority LWARN = 4"
| "priority LNOTICE = 5"
| "priority LINFO = 6"
| "priority LDEBUG = 7"
| "priority LTRACE = 8"
| "priority (OtherLevel i) = i"

record logger_obj =
  log_name :: string
  log_level :: Level

text \<open>The static members of \<^verbatim>\<open>Logger\<close> and the members of its root logger. A callback is kept by
  its position; what it is called with is recorded.\<close>

record logging =
  log_objs :: "nat \<Rightarrow> logger_obj option"
  next_log :: nat
  loggers :: "string \<Rightarrow> nat option"
  root_instance :: "nat option"
  root_console :: bool
  root_file :: bool
  file_lines :: "string list"
  console_lines :: "string list"
  log_callbacks :: "nat list"
  callback_calls :: "(nat \<times> Level \<times> string) list"

definition no_logging :: logging where
  "no_logging = \<lparr>log_objs = (\<lambda>_. None), next_log = 0, loggers = (\<lambda>_. None), root_instance = None,
     root_console = False, root_file = False, file_lines = [], console_lines = [], log_callbacks = [],
     callback_calls = []\<rparr>"

definition new_logger :: "logger_obj \<Rightarrow> logging \<Rightarrow> nat \<times> logging" where
  "new_logger l L =
     (next_log L, L\<lparr>log_objs := (log_objs L)(next_log L \<mapsto> l), next_log := Suc (next_log L)\<rparr>)"

section \<open>The registry\<close>

text \<open>\<^verbatim>\<open>opens\<close> tells whether the log file could be opened.\<close>

definition RootLogger_new :: "string \<Rightarrow> bool \<Rightarrow> string \<Rightarrow> bool \<Rightarrow> Level \<Rightarrow> logging \<Rightarrow> nat \<times> logging" where
  "RootLogger_new product console logFilePath opens level L =
     (let (p, L') = new_logger \<lparr>log_name = product, log_level = level\<rparr> L
      in (p, L'\<lparr>root_instance := Some p, root_console := console,
                 root_file := (logFilePath \<noteq> [] \<and> opens), log_callbacks := []\<rparr>))"

definition Logger_Initialize :: "string \<Rightarrow> bool \<Rightarrow> string \<Rightarrow> bool \<Rightarrow> Level \<Rightarrow> logging \<Rightarrow> logging" where
  "Logger_Initialize product console logFilePath opens level L =
     (let (p, L') = RootLogger_new product console logFilePath opens level L
      in L'\<lparr>loggers := (loggers L')(product \<mapsto> p)\<rparr>)"

text \<open>\<^verbatim>\<open>Shutdown\<close> deletes every registered logger; the pointer to the root logger is left as it is.\<close>

definition Logger_Shutdown :: "logging \<Rightarrow> logging" where
  "Logger_Shutdown L =
     L\<lparr>log_objs := (\<lambda>p. if p \<in> ran (loggers L) then None else log_objs L p), loggers := (\<lambda>_. None)\<rparr>"

text \<open>The parent's name is what stands before the last period.\<close>

definition parent_name :: "string \<Rightarrow> string option" where
  "parent_name name = map_option (\<lambda>pos. take pos name) (str_rfind name ''.'' (length name))"

lemma parent_name_shorter: "parent_name name = Some q \<Longrightarrow> length q < length name"
  by (auto simp: parent_name_def str_rfind_Some_iff matches_at_char)

definition level_of :: "nat \<Rightarrow> logging \<Rightarrow> Level option" where
  "level_of p L = map_option log_level (log_objs L p)"

text \<open>\<^verbatim>\<open>GetImpl\<close> with the constructor and \<^verbatim>\<open>GetParent\<close>, which call each other: a logger that is not
  registered takes its level from its parent, which is looked up and made in the same way.\<close>

function GetImpl :: "string \<Rightarrow> logging \<Rightarrow> (nat \<times> logging) option" where
  "GetImpl name L =
     (case loggers L name of
        Some p \<Rightarrow> Some (p, L)
      | None \<Rightarrow>
          (case (case parent_name name of
                   None \<Rightarrow> (case root_instance L of None \<Rightarrow> None | Some r \<Rightarrow> Some (r, L))
                 | Some q \<Rightarrow> GetImpl q L) of
             None \<Rightarrow> None
           | Some (parent, L') \<Rightarrow>
               (case level_of parent L' of
                  None \<Rightarrow> None
                | Some l \<Rightarrow>
                    (let (p, L'') = new_logger \<lparr>log_name = name, log_level = l\<rparr> L'
                     in Some (p, L''\<lparr>loggers := (loggers L'')(name \<mapsto> p)\<rparr>)))))"
  by pat_completeness auto
termination by (relation "measure (\<lambda>(name, L). length name)") (auto simp: parent_name_shorter)

declare GetImpl.simps [simp del]

definition GetParent :: "nat \<Rightarrow> logging \<Rightarrow> (nat option \<times> logging) option" where
  "GetParent p L =
     (case log_objs L p of
        None \<Rightarrow> None
      | Some l \<Rightarrow>
          (case parent_name (log_name l) of
             None \<Rightarrow> Some (root_instance L, L)
           | Some q \<Rightarrow> map_option (\<lambda>(a, L'). (Some a, L')) (GetImpl q L)))"

definition Logger_Get :: "string \<Rightarrow> string \<Rightarrow> logging \<Rightarrow> (nat \<times> logging) option" where
  "Logger_Get product name = GetImpl (product @ ''.'' @ name)"

definition GetChild :: "nat \<Rightarrow> string \<Rightarrow> logging \<Rightarrow> (nat \<times> logging) option" where
  "GetChild p name L =
     (case log_objs L p of None \<Rightarrow> None | Some l \<Rightarrow> GetImpl (log_name l @ ''.'' @ name) L)"

definition SetLevel :: "nat \<Rightarrow> Level \<Rightarrow> logging \<Rightarrow> logging option" where
  "SetLevel p level L =
     (case log_objs L p of
        None \<Rightarrow> None
      | Some l \<Rightarrow> Some (L\<lparr>log_objs := (log_objs L)(p \<mapsto> l\<lparr>log_level := level\<rparr>)\<rparr>))"

definition GetLevel :: "bool \<Rightarrow> string \<Rightarrow> Level" where
  "GetLevel debugMode levelString =
     (if levelString = ''TRACE'' then LTRACE
      else if levelString = ''DEBUG'' then LDEBUG
      else if levelString = ''INFO'' then LINFO
      else if levelString = ''NOTICE'' then LNOTICE
      else if levelString = ''WARN'' then LWARN
      else if levelString = ''ERROR'' then LERROR
      else if levelString = ''CRITICAL'' then LCRITICAL
      else if levelString = ''FATAL'' then LFATAL
      else if debugMode then LDEBUG
      else LINFO)"

section \<open>Writing\<close>

type_synonym formatter = "string \<Rightarrow> string \<Rightarrow> Level \<Rightarrow> string"

definition IsEnabled :: "nat \<Rightarrow> Level \<Rightarrow> logging \<Rightarrow> bool option" where
  "IsEnabled p level L = map_option (\<lambda>l. priority level \<le> priority l) (level_of p L)"

definition LogImpl :: "formatter \<Rightarrow> string \<Rightarrow> string \<Rightarrow> Level \<Rightarrow> logging \<Rightarrow> logging option" where
  "LogImpl fmt source message level L =
     (case root_instance L of
        None \<Rightarrow> None
      | Some r \<Rightarrow>
          if log_objs L r = None then None
          else let line = fmt source message level
               in Some (L\<lparr>file_lines := file_lines L @ (if root_file L then [line] else []),
                          console_lines := console_lines L @ (if root_console L then [c_str line] else []),
                          callback_calls := callback_calls L @ map (\<lambda>c. (c, level, line)) (log_callbacks L)\<rparr>))"

definition Logger_Log :: "formatter \<Rightarrow> nat \<Rightarrow> Level \<Rightarrow> string \<Rightarrow> logging \<Rightarrow> logging option" where
  "Logger_Log fmt p level message L =
     (case log_objs L p of
        None \<Rightarrow> None
      | Some l \<Rightarrow>
          if priority level \<le> priority (log_level l) then LogImpl fmt (log_name l) message level L
          else Some L)"

text \<open>The formatted text of a message is cut to the buffer: \<^verbatim>\<open>vsnprintf\<close> is told one byte less than
  the buffer has and writes a terminating NUL within that.\<close>

definition LOGGER_MAX_ENTRY_SIZE :: nat where "LOGGER_MAX_ENTRY_SIZE = 2048"

definition Format :: "string \<Rightarrow> string" where
  "Format expansion = take (LOGGER_MAX_ENTRY_SIZE - 2) (c_str expansion)"

definition Log_va :: "formatter \<Rightarrow> nat \<Rightarrow> Level \<Rightarrow> string \<Rightarrow> logging \<Rightarrow> logging option" where
  "Log_va fmt p level expansion L =
     (case IsEnabled p level L of
        None \<Rightarrow> None
      | Some True \<Rightarrow> Logger_Log fmt p level (Format expansion) L
      | Some False \<Rightarrow> Some L)"

definition IsTraceEnabled :: "nat \<Rightarrow> logging \<Rightarrow> bool option" where
  "IsTraceEnabled p = IsEnabled p LTRACE"

definition IsDebugEnabled :: "nat \<Rightarrow> logging \<Rightarrow> bool option" where
  "IsDebugEnabled p = IsEnabled p LDEBUG"

definition IsInfoEnabled :: "nat \<Rightarrow> logging \<Rightarrow> bool option" where
  "IsInfoEnabled p = IsEnabled p LINFO"

definition IsNoticeEnabled :: "nat \<Rightarrow> logging \<Rightarrow> bool option" where
  "IsNoticeEnabled p = IsEnabled p LNOTICE"

definition IsWarningEnabled :: "nat \<Rightarrow> logging \<Rightarrow> bool option" where
  "IsWarningEnabled p = IsEnabled p LWARN"

definition IsErrorEnabled :: "nat \<Rightarrow> logging \<Rightarrow> bool option" where
  "IsErrorEnabled p = IsEnabled p LERROR"

definition IsCriticalEnabled :: "nat \<Rightarrow> logging \<Rightarrow> bool option" where
  "IsCriticalEnabled p = IsEnabled p LCRITICAL"

definition IsFatalEnabled :: "nat \<Rightarrow> logging \<Rightarrow> bool option" where
  "IsFatalEnabled p = IsEnabled p LFATAL"

text \<open>\<^verbatim>\<open>Trace\<close> to \<^verbatim>\<open>Fatal\<close>: each checks its level first and passes a string or a format on.\<close>

definition Log_string :: "formatter \<Rightarrow> nat \<Rightarrow> Level \<Rightarrow> string \<Rightarrow> logging \<Rightarrow> logging option" where
  "Log_string fmt p level message L =
     (case IsEnabled p level L of
        None \<Rightarrow> None
      | Some True \<Rightarrow> Logger_Log fmt p level message L
      | Some False \<Rightarrow> Some L)"

definition Log_format :: "formatter \<Rightarrow> nat \<Rightarrow> Level \<Rightarrow> string \<Rightarrow> logging \<Rightarrow> logging option" where
  "Log_format fmt p level expansion L =
     (case IsEnabled p level L of
        None \<Rightarrow> None
      | Some True \<Rightarrow> Log_va fmt p level expansion L
      | Some False \<Rightarrow> Some L)"

text \<open>One function for each level, with a string and with a format.\<close>

definition Logger_Trace :: "formatter \<Rightarrow> nat \<Rightarrow> string \<Rightarrow> logging \<Rightarrow> logging option" where
  "Logger_Trace fmt p = Log_string fmt p LTRACE"

definition Logger_Trace_format :: "formatter \<Rightarrow> nat \<Rightarrow> string \<Rightarrow> logging \<Rightarrow> logging option" where
  "Logger_Trace_format fmt p = Log_format fmt p LTRACE"

definition Logger_Debug :: "formatter \<Rightarrow> nat \<Rightarrow> string \<Rightarrow> logging \<Rightarrow> logging option" where
  "Logger_Debug fmt p = Log_string fmt p LDEBUG"

definition Logger_Debug_format :: "formatter \<Rightarrow> nat \<Rightarrow> string \<Rightarrow> logging \<Rightarrow> logging option" where
  "Logger_Debug_format fmt p = Log_format fmt p LDEBUG"

definition Logger_Info :: "formatter \<Rightarrow> nat \<Rightarrow> string \<Rightarrow> logging \<Rightarrow> logging option" where
  "Logger_Info fmt p = Log_string fmt p LINFO"

definition Logger_Info_format :: "formatter \<Rightarrow> nat \<Rightarrow> string \<Rightarrow> logging \<Rightarrow> logging option" where
  "Logger_Info_format fmt p = Log_format fmt p LINFO"

definition Logger_Notice :: "formatter \<Rightarrow> nat \<Rightarrow> string \<Rightarrow> logging \<Rightarrow> logging option" where
  "Logger_Notice fmt p = Log_string fmt p LNOTICE"

definition Logger_Notice_format :: "formatter \<Rightarrow> nat \<Rightarrow> string \<Rightarrow> logging \<Rightarrow> logging option" where
  "Logger_Notice_format fmt p = Log_format fmt p LNOTICE"

definition Logger_Warn :: "formatter \<Rightarrow> nat \<Rightarrow> string \<Rightarrow> logging \<Rightarrow> logging option" where
  "Logger_Warn fmt p = Log_string fmt p LWARN"

definition Logger_Warn_format :: "formatter \<Rightarrow> nat \<Rightarrow> string \<Rightarrow> logging \<Rightarrow> logging option" where
  "Logger_Warn_format fmt p = Log_format fmt p LWARN"

definition Logger_Error :: "formatter \<Rightarrow> nat \<Rightarrow> string \<Rightarrow> logging \<Rightarrow> logging option" where
  "Logger_Error fmt p = Log_string fmt p LERROR"

definition Logger_Error_format :: "formatter \<Rightarrow> nat \<Rightarrow> string \<Rightarrow> logging \<Rightarrow> logging option" where
  "Logger_Error_format fmt p = Log_format fmt p LERROR"

definition Logger_Critical :: "formatter \<Rightarrow> nat \<Rightarrow> string \<Rightarrow> logging \<Rightarrow> logging option" where
  "Logger_Critical fmt p = Log_string fmt p LCRITICAL"

definition Logger_Critical_format :: "formatter \<Rightarrow> nat \<Rightarrow> string \<Rightarrow> logging \<Rightarrow> logging option" where
  "Logger_Critical_format fmt p = Log_format fmt p LCRITICAL"

definition Logger_Fatal :: "formatter \<Rightarrow> nat \<Rightarrow> string \<Rightarrow> logging \<Rightarrow> logging option" where
  "Logger_Fatal fmt p = Log_string fmt p LFATAL"

definition Logger_Fatal_format :: "formatter \<Rightarrow> nat \<Rightarrow> string \<Rightarrow> logging \<Rightarrow> logging option" where
  "Logger_Fatal_format fmt p = Log_format fmt p LFATAL"

definition AddLoggerCallback :: "nat \<Rightarrow> logging \<Rightarrow> logging option" where
  "AddLoggerCallback c L =
     (case root_instance L of
        None \<Rightarrow> None
      | Some r \<Rightarrow> if log_objs L r = None then None else Some (L\<lparr>log_callbacks := log_callbacks L @ [c]\<rparr>))"

section \<open>Lookup and inheritance of levels\<close>

definition dotted_prefix :: "string \<Rightarrow> string \<Rightarrow> bool" where
  "dotted_prefix q name \<longleftrightarrow> q = name \<or> (\<exists>r. name = q @ ''.'' @ r)"

text \<open>The closest registered logger at or above a name.\<close>

definition nearest :: "logging \<Rightarrow> string \<Rightarrow> string \<Rightarrow> bool" where
  "nearest L name q \<longleftrightarrow> loggers L q \<noteq> None \<and> dotted_prefix q name
     \<and> (\<forall>s. loggers L s \<noteq> None \<longrightarrow> dotted_prefix s name \<longrightarrow> length s \<le> length q)"

text \<open>The registry between \<^verbatim>\<open>Initialize\<close> and \<^verbatim>\<open>Shutdown\<close>.\<close>

definition wf_logging :: "string \<Rightarrow> logging \<Rightarrow> bool" where
  "wf_logging product L \<longleftrightarrow>
     (\<exists>r. root_instance L = Some r \<and> loggers L product = Some r)
     \<and> (\<forall>n p. loggers L n = Some p \<longrightarrow> (\<exists>l. log_objs L p = Some l \<and> log_name l = n))
     \<and> (\<forall>p. log_objs L p \<noteq> None \<longrightarrow> p < next_log L)"

text \<open>What a lookup may change: it adds objects and registers them under names at or above the one
  asked for.\<close>

definition log_le :: "string \<Rightarrow> logging \<Rightarrow> logging \<Rightarrow> bool" where
  "log_le name L L' \<longleftrightarrow>
     (\<exists>objs n regs. L' = L\<lparr>log_objs := objs, next_log := n, loggers := regs\<rparr>)
     \<and> log_objs L \<subseteq>\<^sub>m log_objs L' \<and> loggers L \<subseteq>\<^sub>m loggers L'
     \<and> (\<forall>s. loggers L' s \<noteq> loggers L s \<longrightarrow> dotted_prefix s name)"

lemma parent_name_None: "parent_name name = None \<Longrightarrow> CHR ''.'' \<notin> set name"
  unfolding parent_name_def in_set_conv_nth
  by (auto simp: str_rfind_None_iff matches_at_char dest: less_imp_le)

lemma parent_name_SomeE:
  assumes "parent_name name = Some q"
  obtains r where "name = q @ ''.'' @ r" "CHR ''.'' \<notin> set r"
proof -
  obtain i where i: "i < length name" "name ! i = CHR ''.''" "q = take i name"
      and later: "\<forall>j. i < j \<longrightarrow> j \<le> length name \<longrightarrow> \<not> (j < length name \<and> name ! j = CHR ''.'')"
    using assms by (auto simp: parent_name_def str_rfind_Some_iff matches_at_char)
  have "name = q @ ''.'' @ drop (Suc i) name"
    using id_take_nth_drop [OF i(1)] i(2,3) by simp
  moreover have "name ! j \<noteq> CHR ''.''" if "i < j" "j < length name" for j
    using later that by auto
  then have "CHR ''.'' \<notin> set (drop (Suc i) name)"
    by (auto simp: in_set_conv_nth)
  ultimately show thesis by (rule that)
qed

lemma dotted_prefix_refl [simp]: "dotted_prefix q q"
  by (simp add: dotted_prefix_def)

lemma dotted_prefix_length: "dotted_prefix s name \<Longrightarrow> length s \<le> length name"
  by (auto simp: dotted_prefix_def)

lemma dotted_prefix_parent:
  assumes "parent_name name = Some q"
  shows "dotted_prefix s name \<longleftrightarrow> s = name \<or> dotted_prefix s q"
proof -
  obtain r where r: "name = q @ ''.'' @ r" "CHR ''.'' \<notin> set r"
    using assms by (rule parent_name_SomeE)
  have "s = q \<or> (\<exists>t. q = s @ ''.'' @ t)" if eq: "q @ ''.'' @ r = s @ ''.'' @ u" for u
    using eq r(2) by (auto simp: append_eq_append_conv2 append_eq_Cons_conv Cons_eq_append_conv)
  then show ?thesis using r by (auto simp: dotted_prefix_def)
qed

lemma dotted_prefix_no_dot:
  "CHR ''.'' \<notin> set name \<Longrightarrow> dotted_prefix s name \<longleftrightarrow> s = name"
  by (auto simp: dotted_prefix_def)

lemma log_le_refl [simp]: "log_le name L L"
proof -
  have "L = L\<lparr>log_objs := log_objs L, next_log := next_log L, loggers := loggers L\<rparr>" by simp
  then have "\<exists>objs n regs. L = L\<lparr>log_objs := objs, next_log := n, loggers := regs\<rparr>" by blast
  then show ?thesis by (simp add: log_le_def)
qed

lemma nearest_self: "loggers L name \<noteq> None \<Longrightarrow> nearest L name name"
  by (simp add: nearest_def dotted_prefix_length)

lemma nearest_parent:
  assumes "parent_name name = Some q" "loggers L name = None" "nearest L q s"
  shows "nearest L name s"
  using assms by (auto simp: nearest_def dotted_prefix_parent [OF assms(1)])

text \<open>One registration on top of a lookup of the parent.\<close>

lemma register_logger:
  assumes wf: "wf_logging product L" and le: "log_le q L0 L" and parent: "parent_name name = Some q"
    and new: "loggers L0 name = None"
    and mk: "new_logger \<lparr>log_name = name, log_level = l\<rparr> L = (p, L')"
  defines "M \<equiv> L'\<lparr>loggers := (loggers L')(name \<mapsto> p)\<rparr>"
  shows "wf_logging product M" "log_le name L0 M" "loggers M name = Some p" "level_of p M = Some l"
proof -
  have L': "p = next_log L"
      "M = L\<lparr>log_objs := (log_objs L)(next_log L \<mapsto> \<lparr>log_name = name, log_level = l\<rparr>),
             next_log := Suc (next_log L), loggers := (loggers L)(name \<mapsto> next_log L)\<rparr>"
    using mk by (auto simp: new_logger_def M_def)
  have "\<not> dotted_prefix name q"
    using parent_name_shorter [OF parent] dotted_prefix_length leD by blast
  then have not_new: "loggers L name = None" using le new unfolding log_le_def by metis
  have fresh: "log_objs L (next_log L) = None"
    using wf unfolding wf_logging_def by (metis less_irrefl)
  have bound: "p < Suc (next_log L)" if "log_objs L p \<noteq> None" for p
    using wf that by (auto simp: wf_logging_def intro: less_SucI)
  show "wf_logging product M"
    using wf not_new fresh unfolding wf_logging_def L'(2)
    by (auto simp: bound)
  show "loggers M name = Some p" "level_of p M = Some l" by (simp_all add: L' level_of_def)
  obtain objs n regs where shape: "L = L0\<lparr>log_objs := objs, next_log := n, loggers := regs\<rparr>"
    using le by (auto simp: log_le_def)
  have "dotted_prefix s name" if "s = name \<or> dotted_prefix s q" for s
    using that dotted_prefix_parent [OF parent] by simp
  moreover have "loggers L0 \<subseteq>\<^sub>m loggers M"
    using le new by (auto simp: log_le_def map_le_def L')
  moreover have "log_objs L0 \<subseteq>\<^sub>m log_objs M"
  proof -
    have "log_objs L \<subseteq>\<^sub>m log_objs M" using fresh by (auto simp: map_le_def L')
    then show ?thesis using le by (auto simp: log_le_def intro: map_le_trans)
  qed
  moreover have "\<exists>objs n regs. M = L0\<lparr>log_objs := objs, next_log := n, loggers := regs\<rparr>"
    unfolding L'(2) by (subst shape, simp) blast
  ultimately show "log_le name L0 M"
    using le by (auto simp: log_le_def L' split: if_splits)
qed

lemma GetImpl_inherits:
  assumes "wf_logging product L" "dotted_prefix product name" "CHR ''.'' \<notin> set product"
  shows "\<exists>p L' q a. GetImpl name L = Some (p, L') \<and> wf_logging product L' \<and> log_le name L L'
     \<and> loggers L' name = Some p \<and> nearest L name q \<and> loggers L q = Some a
     \<and> level_of p L' = level_of a L \<and> level_of a L \<noteq> None"
  using assms
proof (induction name L rule: GetImpl.induct)
  case (1 name L)
  note hyps = \<open>wf_logging product L\<close> \<open>dotted_prefix product name\<close> \<open>CHR ''.'' \<notin> set product\<close>
  have live: "level_of a L \<noteq> None" if "loggers L n = Some a" for n a
    using hyps(1) that unfolding wf_logging_def level_of_def by fastforce
  show ?case
  proof (cases "loggers L name")
    case (Some p)
    then show ?thesis
      using hyps live [OF Some] nearest_self [of L name]
      by (intro exI [of _ p] exI [of _ L] exI [of _ name])
         (simp add: GetImpl.simps [of name L])
  next
    case None
    have "name \<noteq> product" using None hyps(1) by (auto simp: wf_logging_def)
    then obtain r where "name = product @ ''.'' @ r" using hyps(2) by (auto simp: dotted_prefix_def)
    then have "CHR ''.'' \<in> set name" by simp
    then obtain q where q: "parent_name name = Some q"
      using parent_name_None [of name] by (cases "parent_name name") auto
    have "dotted_prefix product q"
      using hyps(2) \<open>name \<noteq> product\<close> dotted_prefix_parent [OF q] by auto
    then obtain p1 L1 s a where parent: "GetImpl q L = Some (p1, L1)" "wf_logging product L1"
        "log_le q L L1" "nearest L q s" "loggers L s = Some a" "level_of p1 L1 = level_of a L"
      using "1.IH" [OF None q] hyps by auto
    obtain l where l: "level_of a L = Some l" using live parent(5) by blast
    obtain p L2 where mk: "new_logger \<lparr>log_name = name, log_level = l\<rparr> L1 = (p, L2)"
      by fastforce
    note reg = register_logger [OF parent(2,3) q None mk]
    have "GetImpl name L = Some (p, L2\<lparr>loggers := (loggers L2)(name \<mapsto> p)\<rparr>)"
      using None q parent(1,6) l mk by (simp add: GetImpl.simps [of name L])
    then show ?thesis
      using reg parent(4,5) l nearest_parent [OF q None parent(4)] by auto
  qed
qed

section \<open>Properties\<close>

lemma Logger_Initialize_wf:
  assumes "\<forall>n p. loggers L n = Some p \<longrightarrow> (\<exists>l. log_objs L p = Some l \<and> log_name l = n)"
    and "\<forall>p. log_objs L p \<noteq> None \<longrightarrow> p < next_log L"
  shows "wf_logging product (Logger_Initialize product console logFilePath opens level L)"
  using assms
  by (auto simp: wf_logging_def Logger_Initialize_def RootLogger_new_def new_logger_def
      less_Suc_eq)

lemma SetLevel_wf: "SetLevel p level L = Some L' \<Longrightarrow> wf_logging product L \<Longrightarrow> wf_logging product L'"
  by (fastforce simp: SetLevel_def wf_logging_def split: option.splits if_splits)

lemma GetImpl_without_root:
  "root_instance L = None \<Longrightarrow> \<forall>n. loggers L n = None \<Longrightarrow> GetImpl name L = None"
  by (induction name L rule: GetImpl.induct)
     (subst GetImpl.simps, simp split: option.splits)

text \<open>C11: between \<^verbatim>\<open>Initialize\<close> and \<^verbatim>\<open>Shutdown\<close>, \<^verbatim>\<open>Logger::Get\<close> returns the logger registered
  under the product's name and the given one. Its level is the level of the closest registered
  logger at or above that name; every logger that was there keeps its place and its level, and only
  names at or above the one asked for are added.\<close>

theorem Logger_Get_inherits:
  assumes "wf_logging product L" "CHR ''.'' \<notin> set product"
  shows "\<exists>p L' q a. Logger_Get product name L = Some (p, L') \<and> wf_logging product L'
     \<and> log_le (product @ ''.'' @ name) L L' \<and> loggers L' (product @ ''.'' @ name) = Some p
     \<and> nearest L (product @ ''.'' @ name) q \<and> loggers L q = Some a
     \<and> level_of p L' = level_of a L \<and> level_of a L \<noteq> None"
  unfolding Logger_Get_def
  by (rule GetImpl_inherits [OF assms(1) _ assms(2)]) (simp add: dotted_prefix_def)

definition demo_logging :: logging where
  "demo_logging = Logger_Initialize ''Kroll'' True ''/tmp/app.log'' True LWARN no_logging"

lemma demo_logging_wf: "wf_logging ''Kroll'' demo_logging"
  unfolding demo_logging_def by (rule Logger_Initialize_wf) (simp_all add: no_logging_def)

theorem Logger_Get_inherits_witness:
  "\<exists>p L'. Logger_Get ''Kroll'' ''Host.UI'' demo_logging = Some (p, L')
     \<and> loggers L' ''Kroll.Host.UI'' = Some p"
  using Logger_Get_inherits [OF demo_logging_wf, of "''Host.UI''"] by auto

end
