(* ===== verification/Kroll_Heap.thy ===== *)
theory Kroll_Heap
  imports Kroll_Value Kroll_System Kroll_Logger
begin

text \<open>
  The store of the binding layer and its property maps.

  A \<^verbatim>\<open>SharedValue\<close> or a \<^verbatim>\<open>SharedKObject\<close> is an address; address 0 is the null pointer.
  Values and objects are mutated in place, so two references to one address see each other's
  changes.  The reference counts only decide when memory is released; the model never reuses an
  address.  \<^verbatim>\<open>Value::Undefined\<close> and \<^verbatim>\<open>Value::Null\<close> are ordinary shared cells.

  An operation is a function from a store to a result and a store: the store keeps the changes
  made before an exception was thrown.  \<^verbatim>\<open>UB\<close> is undefined behaviour (a null or dangling pointer),
  \<^verbatim>\<open>NoFuel\<close> the end of the bound on the depth of virtual calls.  The locks of the sources are
  recursive mutexes and have no effect on a single thread of execution.
\<close>

section \<open>Results\<close>

text \<open>\<^verbatim>\<open>ThrownString\<close> is a \<^verbatim>\<open>std::string\<close> that was thrown, \<^verbatim>\<open>NullPointer\<close> the exception of an empty
  \<^verbatim>\<open>Poco::SharedPtr\<close>.\<close>

datatype exn = ValueException addr | ThrownValue addr | ThrownString string | NullPointer | OutOfRange | UB | NoFuel

section \<open>Objects\<close>

text \<open>A \<^verbatim>\<open>MethodCallback\<close> is an object and one of its member functions; \<^verbatim>\<open>Native\<close> is any other.\<close>

datatype blob_op = Blob_toString | Blob_get | Blob_indexOf | Blob_lastIndexOf | Blob_charAt | Blob_split
  | Blob_substring | Blob_substr | Blob_toLowerCase | Blob_toUpperCase | Blob_concat

text \<open>The member functions that the API module binds: of the API object, of its script interface and of the
  bindings of components, dependencies and applications.\<close>

datatype api_op = API_set | API_get | API_addEventListener | API_removeEventListener | API_fireEvent
  | API_runOnMainThread | API_runOnMainThreadAsync | API_getApplication | API_getInstalledComponents
  | API_getInstalledSDKs | API_getInstalledMobileSDKs | API_getInstalledModules | API_getInstalledRuntimes
  | API_getComponentSearchPaths | API_readApplicationManifest | API_createDependency | API_installDependencies
  | API_componentGUIDToComponentType | API_getEnvironment | API_createKObject | API_createKMethod
  | API_createKList | API_createBlob | API_log | API_trace | API_debug | API_info | API_notice | API_warn
  | API_error | API_critical | API_fatal | API_setLogLevel | API_getLogLevel | API_print

datatype script_op = Script_addScriptEvaluator | Script_removeScriptEvaluator | Script_canEvaluate
  | Script_canPreprocess | Script_evaluate | Script_preprocess

datatype component_op = Component_getType | Component_getName | Component_getVersion | Component_getPath
  | Component_getManifest | Component_isBundled | Component_isLoaded

datatype dependency_op = Dependency_getType | Dependency_getName | Dependency_getVersion | Dependency_getRequirement

datatype application_op = Application_getID | Application_getGUID | Application_getName | Application_getVersion
  | Application_getPath | Application_getExecutablePath | Application_getResourcesPath | Application_getDataPath
  | Application_getManifestPath | Application_getManifest | Application_isCurrent | Application_getPID
  | Application_getArguments | Application_hasArgument | Application_getArgumentValue
  | Application_getDependencies | Application_resolveDependencies | Application_getComponents
  | Application_getModules | Application_getRuntime | Application_getAvailableComponents
  | Application_getAvailableModules | Application_getAvailableRuntimes | Application_getBundledComponents
  | Application_getBundledModules | Application_getBundledRuntimes

datatype callback = Native nat | Blob_Method blob_op addr
  | API_Method api_op addr | Script_Method script_op addr | Component_Method component_op addr
  | Dependency_Method dependency_op addr | Application_Method application_op addr
  | Event_GetTarget addr | Event_GetType addr | Event_GetTimestamp addr
  | Event_StopPropagation addr | Event_PreventDefault addr | ReadEvent_GetData addr
  | AsyncJob_GetProgress addr | AsyncJob_Cancel addr | AsyncJob_IsComplete addr
  | KEventObject_Add addr | KEventObject_Remove addr

datatype MethodDelegateType = GET | SET

text \<open>The members of \<^verbatim>\<open>AsyncJob\<close>; the null pointer is \<^const>\<open>None\<close>.\<close>

record AsyncJob =
  job :: "addr option"
  progress :: double
  completed :: bool
  job_result :: addr
  hadError :: bool
  cancelled :: bool
  sharedThis :: "addr option"
  progressCallbacks :: "addr list"
  completedCallbacks :: "addr list"
  errorCallbacks :: "addr list"

text \<open>The members of \<^verbatim>\<open>APIBinding\<close>: the global object, the logger, whether the mutex of the installer is
  locked, and what the installer was started with.\<close>

record APIBinding =
  api_global :: addr
  api_logger :: nat
  installerMutex :: bool
  installerDependencies :: "Dependency list"
  installerCallback :: "addr option"

text \<open>The classes of the binding layer, each with its own members; the property map is common.
  The last member of \<^verbatim>\<open>CEvent\<close> is the data of a \<^verbatim>\<open>ReadEvent\<close>.\<close>

datatype kclass =
    CStaticBoundObject
  | CStaticBoundList uint32
  | CStaticBoundMethod "callback option"
  | CKFunctionPtrMethod nat
  | CAccessorBoundObject
  | CAccessorBoundList uint32
  | CAccessorBoundMethod "callback option"
  | CDelegateStaticBoundObject addr addr
  | CScopeMethodDelegate MethodDelegateType addr addr addr
  | CProfiledBoundObject addr
  | CProfiledBoundMethod addr string
  | CProfiledBoundList addr
  | CKEventObject bool
  | CEvent addr string int bool bool "addr option"
  | CBlob "(addr \<times> string) option" int32
  | CAsyncJob AsyncJob
  | CKObjectWrapper addr
  | CKMethodWrapper addr
  | CKListWrapper addr
  | CEnvironmentBinding
  | CComponentBinding SharedComponent
  | CDependencyBinding Dependency
  | CApplicationBinding addr bool
  | CAPIBinding APIBinding

record kobj =
  cls :: kclass
  otype :: string
  properties :: "(string \<times> addr) list"

record listener =
  l_eventName :: string
  l_callback :: addr
  listenerId :: uint32

record LinuxJob =
  j_method :: addr
  j_args :: "addr list"
  synchronous :: bool

text \<open>The state of the process outside of the binding layer that its classes reach: the environment and the
  file system, the loggers, the \<^verbatim>\<open>Application\<close> objects, the one the host runs, the static vector
  of \<^verbatim>\<open>GetInstalledComponents\<close> and what was written to the standard output.\<close>

record process_state =
  p_world :: world
  p_logging :: logging
  p_applications :: "addr \<Rightarrow> Application option"
  p_application :: addr
  p_installed :: "SharedComponent list"
  p_stdout :: string

record heap =
  cells :: "addr \<Rightarrow> Value option"
  objs :: "addr \<Rightarrow> kobj option"
  next_addr :: addr
  stream :: "(string \<times> string) list option"
  clock :: int
  listenerMap :: "addr \<Rightarrow> addr list option"
  listeners :: "addr \<Rightarrow> listener option"
  currentId :: uint32
  jobs :: "LinuxJob list"
  proc :: process_state

type_synonym 'a M = "heap \<Rightarrow> (exn + 'a) \<times> heap"

definition retM :: "'a \<Rightarrow> 'a M" where "retM x h = (Inr x, h)"

definition raiseM :: "exn \<Rightarrow> 'a M" where "raiseM e h = (Inl e, h)"

definition bindM :: "'a M \<Rightarrow> ('a \<Rightarrow> 'b M) \<Rightarrow> 'b M" where
  "bindM m f h = (case m h of (Inl e, h') \<Rightarrow> (Inl e, h') | (Inr x, h') \<Rightarrow> f x h')"

lemmas M_defs = retM_def raiseM_def bindM_def

lemma bindM_ret [simp]: "bindM (retM x) f = f x"
  by (simp add: fun_eq_iff M_defs)

lemma bindM_raise [simp]: "bindM (raiseM e) f = raiseM e"
  by (simp add: fun_eq_iff M_defs)

lemma retM_bindM [simp]: "bindM m retM = m"
  by (auto simp: fun_eq_iff M_defs split: prod.splits sum.splits)

lemma bindM_assoc [simp]: "bindM (bindM m f) g = bindM m (\<lambda>x. bindM (f x) g)"
  by (auto simp: fun_eq_iff M_defs split: prod.splits sum.splits)

lemma bindM_Inr: "m h = (Inr x, h') \<Longrightarrow> bindM m f h = f x h'"
  by (simp add: bindM_def)

lemma bindM_eq_InrE:
  assumes "bindM m f h = (Inr y, h2)"
  obtains x h1 where "m h = (Inr x, h1)" "f x h1 = (Inr y, h2)"
  using assms by (auto simp: bindM_def split: prod.splits sum.splits)

section \<open>Access to the store\<close>

definition Undefined_addr :: addr where "Undefined_addr = 1"

definition Null_addr :: addr where "Null_addr = 2"

definition load :: "addr \<Rightarrow> Value M" where
  "load a h = (case cells h a of Some v \<Rightarrow> (Inr v, h) | None \<Rightarrow> (Inl UB, h))"

definition store :: "addr \<Rightarrow> Value \<Rightarrow> unit M" where
  "store a v h = (if cells h a = None then (Inl UB, h) else (Inr (), h\<lparr>cells := (cells h)(a \<mapsto> v)\<rparr>))"

definition load_obj :: "addr \<Rightarrow> kobj M" where
  "load_obj a h = (case objs h a of Some ob \<Rightarrow> (Inr ob, h) | None \<Rightarrow> (Inl UB, h))"

definition store_obj :: "addr \<Rightarrow> kobj \<Rightarrow> unit M" where
  "store_obj a ob h = (if objs h a = None then (Inl UB, h) else (Inr (), h\<lparr>objs := (objs h)(a \<mapsto> ob)\<rparr>))"

text \<open>\<^verbatim>\<open>malloc\<close>, \<^verbatim>\<open>new Value\<close> and \<^verbatim>\<open>new\<close> of an object: each takes an address never used before.\<close>

definition fresh :: "addr M" where
  "fresh h = (Inr (next_addr h), h\<lparr>next_addr := Suc (next_addr h)\<rparr>)"

definition new_value :: "Value \<Rightarrow> addr M" where
  "new_value v h = (Inr (next_addr h), h\<lparr>cells := (cells h)(next_addr h \<mapsto> v), next_addr := Suc (next_addr h)\<rparr>)"

definition new_object :: "kobj \<Rightarrow> addr M" where
  "new_object ob h = (Inr (next_addr h), h\<lparr>objs := (objs h)(next_addr h \<mapsto> ob), next_addr := Suc (next_addr h)\<rparr>)"

definition new_string :: "string \<Rightarrow> addr M" where
  "new_string s = bindM fresh (\<lambda>b. new_value (Value_NewString b s))"

text \<open>The dynamic type of an object: \<^verbatim>\<open>dynamic_cast\<close> to the interfaces and to the wrappers.\<close>

fun is_kmethod :: "kclass \<Rightarrow> bool" where
  "is_kmethod (CStaticBoundMethod _) = True"
| "is_kmethod (CKFunctionPtrMethod _) = True"
| "is_kmethod (CAccessorBoundMethod _) = True"
| "is_kmethod (CScopeMethodDelegate _ _ _ _) = True"
| "is_kmethod (CProfiledBoundMethod _ _) = True"
| "is_kmethod (CKMethodWrapper _) = True"
| "is_kmethod _ = False"

fun is_klist :: "kclass \<Rightarrow> bool" where
  "is_klist (CStaticBoundList _) = True"
| "is_klist (CAccessorBoundList _) = True"
| "is_klist (CProfiledBoundList _) = True"
| "is_klist (CKListWrapper _) = True"
| "is_klist _ = False"

definition isMethod :: "heap \<Rightarrow> addr \<Rightarrow> bool" where
  "isMethod h a = (case objs h a of Some ob \<Rightarrow> is_kmethod (cls ob) | None \<Rightarrow> False)"

definition isList :: "heap \<Rightarrow> addr \<Rightarrow> bool" where
  "isList h a = (case objs h a of Some ob \<Rightarrow> is_klist (cls ob) | None \<Rightarrow> False)"

text \<open>
  \<^verbatim>\<open>SetValue\<close> on the store.  When source and target are one string value, the buffer is freed
  before it is copied.
\<close>

definition SetValue :: "addr \<Rightarrow> addr \<Rightarrow> unit M" where
  "SetValue this other =
     bindM (load other) (\<lambda>vo.
     bindM (load this) (\<lambda>vt.
       if this = other \<and> Value_IsString vo then raiseM UB
       else bindM fresh (\<lambda>b h.
         (case Value_SetValue (isList h) (isMethod h) b vo vt of
            Some v \<Rightarrow> store this v h
          | None \<Rightarrow> (Inl UB, h)))))"

section \<open>Property maps\<close>

text \<open>The interface of \<^verbatim>\<open>std::map\<close> that the classes use.\<close>

locale std_map =
  fixes find :: "'k::linorder \<Rightarrow> 'm \<Rightarrow> 'v option"
    and insert :: "'k \<Rightarrow> 'v \<Rightarrow> 'm \<Rightarrow> 'm"
    and erase :: "'k \<Rightarrow> 'm \<Rightarrow> 'm"
    and keys :: "'m \<Rightarrow> 'k list"
    and ok :: "'m \<Rightarrow> bool"
  assumes find_insert: "ok m \<Longrightarrow> find k (insert j v m) = (if k = j then Some v else find k m)"
    and find_erase: "ok m \<Longrightarrow> find k (erase j m) = (if k = j then None else find k m)"
    and keys_sorted: "ok m \<Longrightarrow> sorted_wrt (<) (keys m)"
    and keys_find: "ok m \<Longrightarrow> k \<in> set (keys m) \<longleftrightarrow> find k m \<noteq> None"
    and ok_insert: "ok m \<Longrightarrow> ok (insert k v m)"
    and ok_erase: "ok m \<Longrightarrow> ok (erase k m)"
begin

lemma keys_insert_set: "ok m \<Longrightarrow> set (keys (insert k v m)) = Set.insert k (set (keys m))"
  by (auto simp: keys_find ok_insert find_insert split: if_splits)

lemma keys_distinct: "ok m \<Longrightarrow> distinct (keys m)"
  using keys_sorted strict_sorted_iff by blast

lemma keys_eq_sorted_list: "ok m \<Longrightarrow> keys m = sorted_list_of_set {k. find k m \<noteq> None}"
  using keys_sorted [of m] keys_find [of m] sorted_list_of_set.idem_if_sorted_distinct [of "keys m"]
    keys_distinct [of m] strict_sorted_imp_sorted [of "keys m"]
  by (metis (mono_tags, lifting) Collect_cong Collect_mem_eq)

text \<open>Replacing an entry by erasing it first gives the same map as inserting over it.\<close>

lemma erase_insert:
  "ok m \<Longrightarrow> find j (insert k v (erase k m)) = find j (insert k v m)"
  by (simp add: find_insert find_erase ok_erase)

lemma keys_erase_insert: "ok m \<Longrightarrow> keys (insert k v (erase k m)) = keys (insert k v m)"
  by (simp add: keys_eq_sorted_list ok_insert ok_erase erase_insert)

end

primrec pmap_find :: "'k \<Rightarrow> ('k \<times> 'v) list \<Rightarrow> 'v option" where
  "pmap_find k [] = None"
| "pmap_find k (p # m) = (if fst p = k then Some (snd p) else pmap_find k m)"

primrec pmap_insert :: "'k::linorder \<Rightarrow> 'v \<Rightarrow> ('k \<times> 'v) list \<Rightarrow> ('k \<times> 'v) list" where
  "pmap_insert k v [] = [(k, v)]"
| "pmap_insert k v (p # m) =
     (if k < fst p then (k, v) # p # m else if k = fst p then (k, v) # m else p # pmap_insert k v m)"

primrec pmap_erase :: "'k \<Rightarrow> ('k \<times> 'v) list \<Rightarrow> ('k \<times> 'v) list" where
  "pmap_erase k [] = []"
| "pmap_erase k (p # m) = (if fst p = k then m else p # pmap_erase k m)"

definition pmap_ok :: "('k::linorder \<times> 'v) list \<Rightarrow> bool" where
  "pmap_ok m \<longleftrightarrow> sorted_wrt (<) (map fst m)"

lemma pmap_find_keys: "k \<in> set (map fst m) \<longleftrightarrow> pmap_find k m \<noteq> None"
  by (induction m) auto

lemma pmap_find_in_set: "pmap_find k m = Some x \<Longrightarrow> (k, x) \<in> set m"
  by (induction m) (auto split: if_splits)

lemma pmap_insert_set: "set (pmap_insert k v m) \<subseteq> insert (k, v) (set m)"
  by (induction m) auto

lemma pmap_erase_set: "set (pmap_erase k m) \<subseteq> set m"
  by (induction m) auto

lemma pmap_insert_keys: "set (map fst (pmap_insert k v m)) = insert k (set (map fst m))"
  by (induction m) auto

lemma pmap_erase_keys: "set (map fst (pmap_erase k m)) \<subseteq> set (map fst m)"
  by (induction m) auto

lemma pmap_find_insert: "pmap_ok m \<Longrightarrow> pmap_find k (pmap_insert j v m) = (if k = j then Some v else pmap_find k m)"
  by (induction m) (auto simp: pmap_ok_def)

lemma pmap_find_smaller: "\<forall>p \<in> set m. k < fst p \<Longrightarrow> pmap_find k (m :: ('k::linorder \<times> 'v) list) = None"
  by (induction m) auto

lemma pmap_find_erase: "pmap_ok m \<Longrightarrow> pmap_find k (pmap_erase j m) = (if k = j then None else pmap_find k m)"
proof (induction m)
  case (Cons p m)
  then have "pmap_ok m" and "pmap_find (fst p) m = None"
    using pmap_find_smaller [of m "fst p"] by (simp_all add: pmap_ok_def)
  with Cons.IH show ?case by auto
qed simp

lemma pmap_erase_absent: "\<forall>q \<in> set m. k \<noteq> fst q \<Longrightarrow> pmap_erase k m = m"
  by (induction m) auto

lemma pmap_insert_erase: "pmap_ok m \<Longrightarrow> pmap_insert k v (pmap_erase k m) = pmap_insert k v m"
proof (induction m)
  case (Cons p m)
  have "pmap_insert (fst p) v m = (fst p, v) # m" if "\<forall>q \<in> set m. fst p < fst q"
    using that by (cases m) auto
  moreover have "pmap_erase k m = m" if "k < fst p" "\<forall>q \<in> set m. fst p < fst q"
    using that by (intro pmap_erase_absent) fastforce
  ultimately show ?case using Cons by (auto simp: pmap_ok_def)
qed simp

lemma pmap_ok_insert: "pmap_ok m \<Longrightarrow> pmap_ok (pmap_insert k v m)"
proof (induction m)
  case (Cons p m)
  then show ?case
    using pmap_insert_keys [of k v m] by (auto simp: pmap_ok_def)
qed (simp add: pmap_ok_def)

lemma pmap_ok_erase: "pmap_ok m \<Longrightarrow> pmap_ok (pmap_erase k m)"
proof (induction m)
  case (Cons p m)
  then show ?case
    using pmap_erase_keys [of k m] by (fastforce simp: pmap_ok_def)
qed simp

interpretation pmap: std_map pmap_find pmap_insert pmap_erase "map fst" pmap_ok
proof unfold_locales
  fix m :: "('k::linorder \<times> 'v) list" and k j :: 'k and v :: 'v
  assume ok: "pmap_ok m"
  show "pmap_find k (pmap_insert j v m) = (if k = j then Some v else pmap_find k m)"
    using ok by (rule pmap_find_insert)
  show "pmap_find k (pmap_erase j m) = (if k = j then None else pmap_find k m)"
    using ok by (rule pmap_find_erase)
  show "sorted_wrt (<) (map fst m)" using ok by (simp add: pmap_ok_def)
  show "k \<in> set (map fst m) \<longleftrightarrow> pmap_find k m \<noteq> None" by (rule pmap_find_keys)
  show "pmap_ok (pmap_insert k v m)" using ok by (rule pmap_ok_insert)
  show "pmap_ok (pmap_erase k m)" using ok by (rule pmap_ok_erase)
qed

end
