(* ===== verification/Kroll_Objects.thy ===== *)
theory Kroll_Objects
  imports Kroll_Heap Kroll_FileUtils
begin

text \<open>
  The object classes of the binding layer (\<^verbatim>\<open>src/api/binding\<close>): the static bound object, list and
  method, the operations that \<^verbatim>\<open>KObject\<close>, \<^verbatim>\<open>KList\<close> and \<^verbatim>\<open>KMethod\<close> give to every class, the
  accessor, delegating and profiling classes, and the dispatch of virtual calls.

  A definition whose code makes virtual calls takes the table \<open>V\<close> of virtual functions as an
  argument.  \<^verbatim>\<open>vtable n\<close> ties the knot: it resolves a call by the class of the object and
  resolves the calls made there with \<^verbatim>\<open>vtable (n - 1)\<close>, so that \<open>n\<close> bounds the depth of
  nested virtual calls (the program's call stack).  The name arguments of type
  \<^verbatim>\<open>const char*\<close> are strings; \<^const>\<open>c_str\<close> stands where the code converts a
  \<^verbatim>\<open>std::string\<close>.

  \<^verbatim>\<open>StaticBoundList\<close> and \<^verbatim>\<open>StaticBoundMethod\<close> keep their properties in a private
  \<^verbatim>\<open>StaticBoundObject\<close> that nothing else refers to; here it is the object's own property map.
\<close>

record vt =
  vGet :: "addr \<Rightarrow> string \<Rightarrow> addr M"
  vSet :: "addr \<Rightarrow> string \<Rightarrow> addr \<Rightarrow> unit M"
  vNames :: "addr \<Rightarrow> (addr \<times> string) list M"
  vHas :: "addr \<Rightarrow> string \<Rightarrow> bool M"
  vCall :: "addr \<Rightarrow> addr list \<Rightarrow> addr M"
  vSize :: "addr \<Rightarrow> uint32 M"
  vAt :: "addr \<Rightarrow> uint32 \<Rightarrow> addr M"
  vAppend :: "addr \<Rightarrow> addr \<Rightarrow> unit M"
  vSetAt :: "addr \<Rightarrow> uint32 \<Rightarrow> addr \<Rightarrow> unit M"
  vRemove :: "addr \<Rightarrow> uint32 \<Rightarrow> bool M"

definition gets :: "(heap \<Rightarrow> 'a) \<Rightarrow> 'a M" where "gets f h = (Inr (f h), h)"

definition of_opt :: "'a option \<Rightarrow> 'a M" where
  "of_opt p = (case p of Some x \<Rightarrow> retM x | None \<Rightarrow> raiseM UB)"

section \<open>StaticBoundObject\<close>

definition StaticBoundObject_new :: "string \<Rightarrow> kobj" where
  "StaticBoundObject_new ty = \<lparr>cls = CStaticBoundObject, otype = ty, properties = []\<rparr>"

definition StaticBoundObject_Get :: "addr \<Rightarrow> string \<Rightarrow> addr M" where
  "StaticBoundObject_Get this name =
     bindM (new_value Value_NewUndefined) (\<lambda>result.
     bindM (load_obj this) (\<lambda>ob.
       case pmap_find name (properties ob) of
         Some v \<Rightarrow> retM v
       | None \<Rightarrow> retM result))"

definition StaticBoundObject_UnSet :: "addr \<Rightarrow> string \<Rightarrow> unit M" where
  "StaticBoundObject_UnSet this name =
     bindM (load_obj this) (\<lambda>ob.
       if pmap_find name (properties ob) \<noteq> None
       then store_obj this (ob\<lparr>properties := pmap_erase name (properties ob)\<rparr>)
       else retM ())"

definition StaticBoundObject_Set :: "addr \<Rightarrow> string \<Rightarrow> addr \<Rightarrow> unit M" where
  "StaticBoundObject_Set this name v =
     bindM (StaticBoundObject_UnSet this name) (\<lambda>_.
     bindM (load_obj this) (\<lambda>ob.
       store_obj this (ob\<lparr>properties := pmap_insert name v (properties ob)\<rparr>)))"

text \<open>The list of names is built of new strings.\<close>

primrec new_names :: "string list \<Rightarrow> (addr \<times> string) list M" where
  "new_names [] = retM []"
| "new_names (n # ns) = bindM fresh (\<lambda>a. bindM (new_names ns) (\<lambda>rest. retM ((a, n) # rest)))"

definition StaticBoundObject_GetPropertyNames :: "addr \<Rightarrow> (addr \<times> string) list M" where
  "StaticBoundObject_GetPropertyNames this =
     bindM (load_obj this) (\<lambda>ob. new_names (map fst (properties ob)))"

section \<open>KObject\<close>

definition KObject_Equals :: "addr \<Rightarrow> addr option \<Rightarrow> bool" where
  "KObject_Equals this other \<longleftrightarrow> other = Some this"

definition KObject_HasProperty :: "vt \<Rightarrow> addr \<Rightarrow> string \<Rightarrow> bool M" where
  "KObject_HasProperty V this name =
     bindM (vNames V this) (\<lambda>names. retM (list_ex (\<lambda>p. name = c_str (snd p)) names))"

definition KObject_GetInt :: "vt \<Rightarrow> addr \<Rightarrow> string \<Rightarrow> int32 \<Rightarrow> int32 M" where
  "KObject_GetInt V this name defaultValue =
     bindM (vGet V this name) (\<lambda>prop. bindM (load prop) (\<lambda>v.
       if Value_IsInt v then retM (Value_ToInt v) else retM defaultValue))"

definition KObject_GetDouble :: "vt \<Rightarrow> addr \<Rightarrow> string \<Rightarrow> double \<Rightarrow> double M" where
  "KObject_GetDouble V this name defaultValue =
     bindM (vGet V this name) (\<lambda>prop. bindM (load prop) (\<lambda>v.
       if Value_IsDouble v then retM (Value_ToDouble v) else retM defaultValue))"

definition KObject_GetNumber :: "vt \<Rightarrow> addr \<Rightarrow> string \<Rightarrow> double \<Rightarrow> double M" where
  "KObject_GetNumber V this name defaultValue =
     bindM (vGet V this name) (\<lambda>prop. bindM (load prop) (\<lambda>v.
       if Value_IsNumber v then retM (Value_ToNumber v) else retM defaultValue))"

definition KObject_GetBool :: "vt \<Rightarrow> addr \<Rightarrow> string \<Rightarrow> bool \<Rightarrow> bool M" where
  "KObject_GetBool V this name defaultValue =
     bindM (vGet V this name) (\<lambda>prop. bindM (load prop) (\<lambda>v.
       if Value_IsBool v then of_opt (Value_ToBool v) else retM defaultValue))"

definition KObject_GetString :: "vt \<Rightarrow> addr \<Rightarrow> string \<Rightarrow> string \<Rightarrow> string M" where
  "KObject_GetString V this name defaultValue =
     bindM (vGet V this name) (\<lambda>prop. bindM (load prop) (\<lambda>v.
       if Value_IsString v then of_opt (map_option snd (Value_ToString v)) else retM defaultValue))"

definition KObject_GetObject :: "vt \<Rightarrow> addr \<Rightarrow> string \<Rightarrow> addr option \<Rightarrow> addr option M" where
  "KObject_GetObject V this name defaultValue =
     bindM (vGet V this name) (\<lambda>prop. bindM (load prop) (\<lambda>v.
       if Value_IsObject v then retM (Value_ToObject v) else retM defaultValue))"

definition KObject_GetMethod :: "vt \<Rightarrow> addr \<Rightarrow> string \<Rightarrow> addr option \<Rightarrow> addr option M" where
  "KObject_GetMethod V this name defaultValue =
     bindM (vGet V this name) (\<lambda>prop. bindM (load prop) (\<lambda>v.
       if Value_IsMethod v then gets (\<lambda>h. Value_ToMethod (isMethod h) v) else retM defaultValue))"

definition KObject_GetList :: "vt \<Rightarrow> addr \<Rightarrow> string \<Rightarrow> addr option \<Rightarrow> addr option M" where
  "KObject_GetList V this name defaultValue =
     bindM (vGet V this name) (\<lambda>prop. bindM (load prop) (\<lambda>v.
       if Value_IsList v then gets (\<lambda>h. Value_ToList (isList h) v) else retM defaultValue))"

lemmas KObject_Get_defs = KObject_GetInt_def KObject_GetDouble_def KObject_GetNumber_def
  KObject_GetBool_def KObject_GetString_def KObject_GetObject_def KObject_GetMethod_def
  KObject_GetList_def

definition KObject_SetUndefined :: "vt \<Rightarrow> addr \<Rightarrow> string \<Rightarrow> unit M" where
  "KObject_SetUndefined V this name = vSet V this name Undefined_addr"

definition KObject_SetNull :: "vt \<Rightarrow> addr \<Rightarrow> string \<Rightarrow> unit M" where
  "KObject_SetNull V this name = vSet V this name Null_addr"

definition KObject_SetInt :: "vt \<Rightarrow> addr \<Rightarrow> string \<Rightarrow> int32 \<Rightarrow> unit M" where
  "KObject_SetInt V this name i = bindM (new_value (Value_NewInt i)) (vSet V this name)"

definition KObject_SetDouble :: "vt \<Rightarrow> addr \<Rightarrow> string \<Rightarrow> double \<Rightarrow> unit M" where
  "KObject_SetDouble V this name d = bindM (new_value (Value_NewDouble d)) (vSet V this name)"

definition KObject_SetNumber :: "vt \<Rightarrow> addr \<Rightarrow> string \<Rightarrow> double \<Rightarrow> unit M" where
  "KObject_SetNumber V this name d = bindM (new_value (Value_NewDouble d)) (vSet V this name)"

definition KObject_SetBool :: "vt \<Rightarrow> addr \<Rightarrow> string \<Rightarrow> bool \<Rightarrow> unit M" where
  "KObject_SetBool V this name b = bindM (new_value (Value_NewBool b)) (vSet V this name)"

definition KObject_SetString :: "vt \<Rightarrow> addr \<Rightarrow> string \<Rightarrow> string \<Rightarrow> unit M" where
  "KObject_SetString V this name s = bindM (new_string s) (vSet V this name)"

definition KObject_SetObject :: "vt \<Rightarrow> addr \<Rightarrow> string \<Rightarrow> addr option \<Rightarrow> unit M" where
  "KObject_SetObject V this name p = bindM (new_value (Value_NewObject p)) (vSet V this name)"

definition KObject_SetMethod :: "vt \<Rightarrow> addr \<Rightarrow> string \<Rightarrow> addr option \<Rightarrow> unit M" where
  "KObject_SetMethod V this name p = bindM (new_value (Value_NewMethod p)) (vSet V this name)"

definition KObject_SetList :: "vt \<Rightarrow> addr \<Rightarrow> string \<Rightarrow> addr option \<Rightarrow> unit M" where
  "KObject_SetList V this name p = bindM (new_value (Value_NewList p)) (vSet V this name)"

lemmas KObject_Set_defs = KObject_SetUndefined_def KObject_SetNull_def KObject_SetInt_def
  KObject_SetDouble_def KObject_SetNumber_def KObject_SetBool_def KObject_SetString_def
  KObject_SetObject_def KObject_SetMethod_def KObject_SetList_def

text \<open>\<^verbatim>\<open>for (c = 0; c < values->Size(); c++)\<close>: the bound is asked for in every round.\<close>

primrec string_list_loop :: "nat \<Rightarrow> vt \<Rightarrow> addr \<Rightarrow> uint32 \<Rightarrow> string list \<Rightarrow> string list M" where
  "string_list_loop 0 V values c acc = raiseM NoFuel"
| "string_list_loop (Suc n) V values c acc =
     bindM (vSize V values) (\<lambda>size.
       if c < size then
         bindM (vAt V values c) (\<lambda>p. bindM (load p) (\<lambda>v.
           if Value_IsString v
           then bindM (of_opt (map_option snd (Value_ToString v)))
                  (\<lambda>s. string_list_loop n V values (c + 1) (acc @ [s]))
           else string_list_loop n V values (c + 1) acc))
       else retM acc)"

definition KObject_GetStringList :: "nat \<Rightarrow> vt \<Rightarrow> addr \<Rightarrow> string \<Rightarrow> string list \<Rightarrow> string list M" where
  "KObject_GetStringList n V this name acc =
     bindM (vGet V this name) (\<lambda>prop. bindM (load prop) (\<lambda>v.
       if \<not> Value_IsUndefined v \<and> Value_IsList v then
         bindM (gets (\<lambda>h. Value_ToList (isList h) v)) (\<lambda>p.
         bindM (of_opt p) (\<lambda>values.
         bindM (vSize V values) (\<lambda>size.
           if size > 0 then string_list_loop n V values 0 acc else retM acc)))
       else retM acc))"

text \<open>
  \<^verbatim>\<open>SetNS\<close>: without a token the loop bound \<^verbatim>\<open>tokens.size() - 1\<close> wraps and the first access is
  out of bounds.
\<close>

primrec SetNS_scope :: "vt \<Rightarrow> addr \<Rightarrow> string list \<Rightarrow> addr M" where
  "SetNS_scope V scope [] = retM scope"
| "SetNS_scope V scope (t # ts) =
     bindM (vGet V scope (c_str t)) (\<lambda>next_val.
     bindM (load next_val) (\<lambda>v.
       if Value_IsUndefined v then
         bindM (new_object (StaticBoundObject_new ''StaticBoundObject'')) (\<lambda>so.
         bindM (new_value (Value_NewObject (Some so))) (\<lambda>nv.
         bindM (vSet V scope (c_str t) nv) (\<lambda>_. SetNS_scope V so ts)))
       else if \<not> Value_IsObject v \<and> \<not> Value_IsMethod v \<and> \<not> Value_IsList v then
         bindM (new_string ''Invalid namespace on setNS'') (\<lambda>e. raiseM (ThrownValue e))
       else bindM (of_opt (Value_ToObject v)) (\<lambda>so. SetNS_scope V so ts)))"

definition KObject_SetNS :: "vt \<Rightarrow> addr \<Rightarrow> string \<Rightarrow> addr \<Rightarrow> unit M" where
  "KObject_SetNS V this name v =
     (let tokens = Tokenize name [] ''.'' False in
      if tokens = [] then raiseM UB
      else bindM (SetNS_scope V this (butlast tokens)) (\<lambda>scope. vSet V scope (c_str (last tokens)) v))"

function GetNS_loop :: "vt \<Rightarrow> string \<Rightarrow> addr \<Rightarrow> nat \<Rightarrow> addr M" where
  "GetNS_loop V s scope lst =
     (case find_first_of s ''.'' lst of
        Some pos \<Rightarrow>
          bindM (vGet V scope (c_str (take (pos - lst) (drop lst s)))) (\<lambda>current.
          bindM (load current) (\<lambda>v.
            if Value_IsObject v
            then bindM (of_opt (Value_ToObject v)) (\<lambda>so. GetNS_loop V s so (pos + 1))
            else retM Undefined_addr))
      | None \<Rightarrow> vGet V scope (c_str (drop lst s)))"
  by pat_completeness auto
termination
  by (relation "measure (\<lambda>(V, s, scope, lst). Suc (length s) - lst)")
    (auto simp: find_first_of_Some_iff)

declare GetNS_loop.simps [simp del]

definition KObject_GetNS :: "vt \<Rightarrow> addr \<Rightarrow> string \<Rightarrow> addr M" where
  "KObject_GetNS V this name = GetNS_loop V name this 0"

definition KObject_CallNS :: "vt \<Rightarrow> addr \<Rightarrow> string \<Rightarrow> addr list \<Rightarrow> addr M" where
  "KObject_CallNS V this name args =
     bindM (KObject_GetNS V this name) (\<lambda>callable.
     bindM (load callable) (\<lambda>v.
       if Value_IsUndefined v then retM callable
       else if \<not> Value_IsMethod v then retM Undefined_addr
       else bindM (gets (\<lambda>h. Value_ToMethod (isMethod h) v)) (\<lambda>p.
            bindM (of_opt p) (\<lambda>m. vCall V m args))))"

text \<open>The overloads for up to three arguments, and those that take a shared string.\<close>

definition KObject_CallNS0 :: "vt \<Rightarrow> addr \<Rightarrow> string \<Rightarrow> addr M" where
  "KObject_CallNS0 V this name = KObject_CallNS V this name []"

definition KObject_CallNS1 :: "vt \<Rightarrow> addr \<Rightarrow> string \<Rightarrow> addr \<Rightarrow> addr M" where
  "KObject_CallNS1 V this name val1 = KObject_CallNS V this name [val1]"

definition KObject_CallNS2 :: "vt \<Rightarrow> addr \<Rightarrow> string \<Rightarrow> addr \<Rightarrow> addr \<Rightarrow> addr M" where
  "KObject_CallNS2 V this name val1 val2 = KObject_CallNS V this name [val1, val2]"

definition KObject_CallNS3 :: "vt \<Rightarrow> addr \<Rightarrow> string \<Rightarrow> addr \<Rightarrow> addr \<Rightarrow> addr \<Rightarrow> addr M" where
  "KObject_CallNS3 V this name val1 val2 val3 = KObject_CallNS V this name [val1, val2, val3]"

definition KObject_Set_shared :: "vt \<Rightarrow> addr \<Rightarrow> string \<Rightarrow> addr \<Rightarrow> unit M" where
  "KObject_Set_shared V this name v = vSet V this (c_str name) v"

definition KObject_Get_shared :: "vt \<Rightarrow> addr \<Rightarrow> string \<Rightarrow> addr M" where
  "KObject_Get_shared V this name = vGet V this (c_str name)"

end
