(* ===== verification/Kroll_Classes.thy ===== *)
theory Kroll_Classes
  imports Kroll_Objects
begin

text \<open>
  The remaining classes of the binding layer: \<^verbatim>\<open>StaticBoundList\<close> with the operations of
  \<^verbatim>\<open>KList\<close>, \<^verbatim>\<open>StaticBoundMethod\<close> and the call overloads of \<^verbatim>\<open>KMethod\<close>, the accessor classes
  that turn property access into calls of getter and setter methods, the delegating object, the
  scope delegate, the profiling wrappers, and \<^verbatim>\<open>vtable\<close>, the dispatch of the virtual functions.
\<close>

section \<open>KList and StaticBoundList\<close>

definition KList_IntToChars :: "uint32 \<Rightarrow> string" where
  "KList_IntToChars i = dec_of_nat (unat i)"

definition KList_IsInt :: "string \<Rightarrow> bool" where
  "KList_IsInt name \<longleftrightarrow> list_all isdigit (c_str name)"

text \<open>\<^verbatim>\<open>atoi\<close> of a string of digits: a value that is not an \<^verbatim>\<open>int\<close> is undefined behaviour.\<close>

definition atoi_digits :: "string \<Rightarrow> uint32 option" where
  "atoi_digits s = (if nat_of_dec (c_str s) < 2 ^ 31 then Some (of_nat (nat_of_dec (c_str s))) else None)"

fun list_length :: "kclass \<Rightarrow> uint32 option" where
  "list_length (CStaticBoundList n) = Some n"
| "list_length (CAccessorBoundList n) = Some n"
| "list_length _ = None"

fun with_length :: "uint32 \<Rightarrow> kclass \<Rightarrow> kclass" where
  "with_length n (CStaticBoundList _) = CStaticBoundList n"
| "with_length n (CAccessorBoundList _) = CAccessorBoundList n"
| "with_length n c = c"

definition get_length :: "addr \<Rightarrow> uint32 M" where
  "get_length this = bindM (load_obj this) (\<lambda>ob. of_opt (list_length (cls ob)))"

definition set_length :: "addr \<Rightarrow> uint32 \<Rightarrow> unit M" where
  "set_length this n = bindM (load_obj this) (\<lambda>ob. store_obj this (ob\<lparr>cls := with_length n (cls ob)\<rparr>))"

definition StaticBoundList_new :: "string \<Rightarrow> kobj" where
  "StaticBoundList_new ty = \<lparr>cls = CStaticBoundList 0, otype = ty, properties = []\<rparr>"

definition StaticBoundList_Append :: "addr \<Rightarrow> addr \<Rightarrow> unit M" where
  "StaticBoundList_Append this v =
     bindM (get_length this) (\<lambda>len.
     bindM (StaticBoundObject_Set this (c_str (KList_IntToChars len)) v) (\<lambda>_.
       set_length this (len + 1)))"

definition StaticBoundList_SetAt :: "addr \<Rightarrow> uint32 \<Rightarrow> addr \<Rightarrow> unit M" where
  "StaticBoundList_SetAt this index v =
     bindM (StaticBoundObject_Set this (c_str (KList_IntToChars index)) v) (\<lambda>_.
     bindM (get_length this) (\<lambda>len.
       if index \<ge> len then set_length this (index + 1) else retM ()))"

definition StaticBoundList_Size :: "addr \<Rightarrow> uint32 M" where
  "StaticBoundList_Size this = get_length this"

definition StaticBoundList_At :: "addr \<Rightarrow> uint32 \<Rightarrow> addr M" where
  "StaticBoundList_At this index = StaticBoundObject_Get this (c_str (KList_IntToChars index))"

text \<open>The loop of \<^verbatim>\<open>Remove\<close>, with the length as the bound on its rounds.\<close>

primrec remove_loop :: "nat \<Rightarrow> addr \<Rightarrow> uint32 \<Rightarrow> unit M" where
  "remove_loop 0 this i = raiseM NoFuel"
| "remove_loop (Suc n) this i =
     bindM (get_length this) (\<lambda>len.
       if i + 1 < len then
         bindM (StaticBoundList_At this (i + 1)) (\<lambda>v.
         bindM (StaticBoundList_SetAt this i v) (\<lambda>_. remove_loop n this (i + 1)))
       else retM ())"

definition StaticBoundList_Remove :: "addr \<Rightarrow> uint32 \<Rightarrow> bool M" where
  "StaticBoundList_Remove this index =
     bindM (get_length this) (\<lambda>len.
       if index < len then
         bindM (StaticBoundObject_UnSet this (c_str (KList_IntToChars index))) (\<lambda>_.
         bindM (remove_loop (unat len) this index) (\<lambda>_.
         bindM (get_length this) (\<lambda>len'.
         bindM (set_length this (len' - 1)) (\<lambda>_. retM True))))
       else retM False)"

definition StaticBoundList_Set :: "addr \<Rightarrow> string \<Rightarrow> addr \<Rightarrow> unit M" where
  "StaticBoundList_Set this name v =
     (if KList_IsInt name then
        bindM (of_opt (atoi_digits name)) (\<lambda>index. StaticBoundList_SetAt this index v)
      else StaticBoundObject_Set this name v)"

definition StaticBoundList_Get :: "addr \<Rightarrow> string \<Rightarrow> addr M" where
  "StaticBoundList_Get this name = StaticBoundObject_Get this name"

definition StaticBoundList_GetPropertyNames :: "addr \<Rightarrow> (addr \<times> string) list M" where
  "StaticBoundList_GetPropertyNames this = StaticBoundObject_GetPropertyNames this"

primrec append_strings :: "addr \<Rightarrow> string list \<Rightarrow> unit M" where
  "append_strings l [] = retM ()"
| "append_strings l (s # ss) =
     bindM (new_string s) (\<lambda>v. bindM (StaticBoundList_Append l v) (\<lambda>_. append_strings l ss))"

definition StaticBoundList_FromStringVector :: "string list \<Rightarrow> addr M" where
  "StaticBoundList_FromStringVector values =
     bindM (new_object (StaticBoundList_new ''StaticBoundList'')) (\<lambda>l.
     bindM (append_strings l values) (\<lambda>_. retM l))"

text \<open>The two loops of \<^verbatim>\<open>ResizeTo\<close>; \<open>n\<close> bounds the rounds of each.\<close>

primrec resize_shrink :: "nat \<Rightarrow> vt \<Rightarrow> addr \<Rightarrow> uint32 \<Rightarrow> unit M" where
  "resize_shrink 0 V this newSize = raiseM NoFuel"
| "resize_shrink (Suc n) V this newSize =
     bindM (vSize V this) (\<lambda>len.
       if newSize < len then
         bindM (vSize V this) (\<lambda>len2.
         bindM (vRemove V this (len2 - 1)) (\<lambda>_. resize_shrink n V this newSize))
       else retM ())"

primrec resize_grow :: "nat \<Rightarrow> vt \<Rightarrow> addr \<Rightarrow> uint32 \<Rightarrow> unit M" where
  "resize_grow 0 V this newSize = raiseM NoFuel"
| "resize_grow (Suc n) V this newSize =
     bindM (vSize V this) (\<lambda>len.
       if newSize > len then
         bindM (vAppend V this Undefined_addr) (\<lambda>_. resize_grow n V this newSize)
       else retM ())"

definition KList_ResizeTo :: "nat \<Rightarrow> vt \<Rightarrow> addr \<Rightarrow> uint32 \<Rightarrow> unit M" where
  "KList_ResizeTo n V this newSize =
     bindM (vSize V this) (\<lambda>len.
       if newSize < 0 \<or> newSize = len then retM ()
       else bindM (resize_shrink n V this newSize) (\<lambda>_. resize_grow n V this newSize))"

section \<open>Methods\<close>

text \<open>The code a callback runs is an argument: it gets the virtual functions, the arguments and the
  result value it may set.\<close>

type_synonym natives = "callback \<Rightarrow> vt \<Rightarrow> addr list \<Rightarrow> addr \<Rightarrow> unit M"

type_synonym fnptrs = "nat \<Rightarrow> vt \<Rightarrow> addr list \<Rightarrow> addr M"

definition StaticBoundMethod_new :: "callback option \<Rightarrow> string \<Rightarrow> kobj" where
  "StaticBoundMethod_new cb ty = \<lparr>cls = CStaticBoundMethod cb, otype = ty, properties = []\<rparr>"

definition StaticBoundMethod_Call :: "natives \<Rightarrow> vt \<Rightarrow> callback option \<Rightarrow> addr list \<Rightarrow> addr M" where
  "StaticBoundMethod_Call N V cb args =
     bindM (new_value Value_NewUndefined) (\<lambda>tv.
       case cb of
         Some c \<Rightarrow> bindM (N c V args tv) (\<lambda>_. retM tv)
       | None \<Rightarrow> retM tv)"

definition KFunctionPtrMethod_Call :: "fnptrs \<Rightarrow> vt \<Rightarrow> nat \<Rightarrow> addr list \<Rightarrow> addr M" where
  "KFunctionPtrMethod_Call F V c args = F c V args"

definition KMethod_Call :: "vt \<Rightarrow> addr \<Rightarrow> addr M" where
  "KMethod_Call V this = vCall V this []"

definition KMethod_Call1 :: "vt \<Rightarrow> addr \<Rightarrow> addr \<Rightarrow> addr M" where
  "KMethod_Call1 V this one = vCall V this [one]"

definition KMethod_Call2 :: "vt \<Rightarrow> addr \<Rightarrow> addr \<Rightarrow> addr \<Rightarrow> addr M" where
  "KMethod_Call2 V this one two = vCall V this [one, two]"

definition KMethod_Call3 :: "vt \<Rightarrow> addr \<Rightarrow> addr \<Rightarrow> addr \<Rightarrow> addr \<Rightarrow> addr M" where
  "KMethod_Call3 V this one two three = vCall V this [one, two, three]"

text \<open>The overloads whose first argument is a string.\<close>

definition KMethod_CallS :: "vt \<Rightarrow> addr \<Rightarrow> string \<Rightarrow> addr list \<Rightarrow> addr M" where
  "KMethod_CallS V this one rest = bindM (new_string one) (\<lambda>s. vCall V this (s # rest))"

section \<open>Accessor classes\<close>

text \<open>
  \<^verbatim>\<open>FindMethod\<close>: the first property, in the order of the names, that is a method and whose
  name agrees up to case.  \<open>rawGet\<close> is the unqualified lookup of the class.
\<close>

primrec find_method :: "(string \<Rightarrow> addr M) \<Rightarrow> string \<Rightarrow> (addr \<times> string) list \<Rightarrow> addr option M" where
  "find_method rawGet lcname [] = retM None"
| "find_method rawGet lcname (p # ps) =
     bindM (rawGet (c_str (snd p))) (\<lambda>a.
     bindM (load a) (\<lambda>v.
       if Value_IsMethod v \<and> map tolower (snd p) = lcname
       then gets (\<lambda>h. Value_ToMethod (isMethod h) v)
       else find_method rawGet lcname ps))"

definition AccessorBoundObject_FindMethod :: "vt \<Rightarrow> addr \<Rightarrow> string \<Rightarrow> addr option M" where
  "AccessorBoundObject_FindMethod V this name =
     bindM (vNames V this) (find_method (StaticBoundObject_Get this) (map tolower name))"

definition AccessorBoundObject_HasProperty :: "vt \<Rightarrow> addr \<Rightarrow> string \<Rightarrow> bool M" where
  "AccessorBoundObject_HasProperty V this name =
     bindM (KObject_HasProperty V this name) (\<lambda>b.
       if b then retM True
       else bindM (AccessorBoundObject_FindMethod V this (''get'' @ name)) (\<lambda>m1.
         if m1 \<noteq> None then retM True
         else bindM (AccessorBoundObject_FindMethod V this (''is'' @ name)) (\<lambda>m2. retM (m2 \<noteq> None))))"

definition AccessorBoundObject_Set :: "vt \<Rightarrow> addr \<Rightarrow> string \<Rightarrow> addr \<Rightarrow> unit M" where
  "AccessorBoundObject_Set V this name v =
     bindM (AccessorBoundObject_FindMethod V this (''set'' @ name)) (\<lambda>p.
       case p of
         Some m \<Rightarrow> bindM (KMethod_Call1 V m v) (\<lambda>_. retM ())
       | None \<Rightarrow> StaticBoundObject_Set this name v)"

definition AccessorBoundObject_Get :: "vt \<Rightarrow> addr \<Rightarrow> string \<Rightarrow> addr M" where
  "AccessorBoundObject_Get V this name =
     bindM (AccessorBoundObject_FindMethod V this (''get'' @ name)) (\<lambda>m1.
     bindM (AccessorBoundObject_FindMethod V this (''is'' @ name)) (\<lambda>m2.
       case m1 of
         Some m \<Rightarrow> KMethod_Call V m
       | None \<Rightarrow> (case m2 of
           Some m \<Rightarrow> KMethod_Call V m
         | None \<Rightarrow> StaticBoundObject_Get this name)))"

text \<open>\<^verbatim>\<open>AccessorBoundMethod\<close> has the same code over \<^verbatim>\<open>StaticBoundMethod\<close>, whose properties are
  those of its private object.\<close>

definition AccessorBoundMethod_FindMethod :: "vt \<Rightarrow> addr \<Rightarrow> string \<Rightarrow> addr option M" where
  "AccessorBoundMethod_FindMethod V this name =
     bindM (vNames V this) (find_method (StaticBoundObject_Get this) (map tolower name))"

definition AccessorBoundMethod_HasProperty :: "vt \<Rightarrow> addr \<Rightarrow> string \<Rightarrow> bool M" where
  "AccessorBoundMethod_HasProperty V this name =
     bindM (KObject_HasProperty V this name) (\<lambda>b.
       if b then retM True
       else bindM (AccessorBoundMethod_FindMethod V this (''get'' @ name)) (\<lambda>m1.
         if m1 \<noteq> None then retM True
         else bindM (AccessorBoundMethod_FindMethod V this (''is'' @ name)) (\<lambda>m2. retM (m2 \<noteq> None))))"

definition AccessorBoundMethod_Set :: "vt \<Rightarrow> addr \<Rightarrow> string \<Rightarrow> addr \<Rightarrow> unit M" where
  "AccessorBoundMethod_Set V this name v =
     bindM (AccessorBoundMethod_FindMethod V this (''set'' @ name)) (\<lambda>p.
       case p of
         Some m \<Rightarrow> bindM (KMethod_Call1 V m v) (\<lambda>_. retM ())
       | None \<Rightarrow> StaticBoundObject_Set this name v)"

definition AccessorBoundMethod_Get :: "vt \<Rightarrow> addr \<Rightarrow> string \<Rightarrow> addr M" where
  "AccessorBoundMethod_Get V this name =
     bindM (AccessorBoundMethod_FindMethod V this (''get'' @ name)) (\<lambda>m1.
     bindM (AccessorBoundMethod_FindMethod V this (''is'' @ name)) (\<lambda>m2.
       case m1 of
         Some m \<Rightarrow> KMethod_Call V m
       | None \<Rightarrow> (case m2 of
           Some m \<Rightarrow> KMethod_Call V m
         | None \<Rightarrow> StaticBoundObject_Get this name)))"

definition AccessorBoundList_Capitalize :: "string \<Rightarrow> string" where
  "AccessorBoundList_Capitalize word = (case c_str word of [] \<Rightarrow> [] | c # cs \<Rightarrow> toupper c # cs)"

definition AccessorBoundList_Set :: "vt \<Rightarrow> addr \<Rightarrow> string \<Rightarrow> addr \<Rightarrow> unit M" where
  "AccessorBoundList_Set V this name v =
     bindM (StaticBoundList_Get this (''set'' @ AccessorBoundList_Capitalize name)) (\<lambda>a.
     bindM (load a) (\<lambda>sv.
       if Value_IsMethod sv then
         bindM (gets (\<lambda>h. Value_ToMethod (isMethod h) sv)) (\<lambda>p.
         bindM (of_opt p) (\<lambda>m. bindM (vCall V m [v]) (\<lambda>_. retM ())))
       else StaticBoundList_Set this name v))"

definition AccessorBoundList_Get :: "vt \<Rightarrow> addr \<Rightarrow> string \<Rightarrow> addr M" where
  "AccessorBoundList_Get V this name =
     bindM (StaticBoundList_Get this (''get'' @ AccessorBoundList_Capitalize name)) (\<lambda>a.
     bindM (load a) (\<lambda>gv.
       if Value_IsMethod gv then
         bindM (gets (\<lambda>h. Value_ToMethod (isMethod h) gv)) (\<lambda>p.
         bindM (of_opt p) (\<lambda>m. vCall V m []))
       else StaticBoundList_Get this name))"

section \<open>Delegates\<close>

definition DelegateStaticBoundObject_Get :: "vt \<Rightarrow> addr \<Rightarrow> addr \<Rightarrow> string \<Rightarrow> addr M" where
  "DelegateStaticBoundObject_Get V glob loc name =
     bindM (vGet V loc name) (\<lambda>val.
     bindM (load val) (\<lambda>v.
       if \<not> Value_IsUndefined v then retM val else vGet V glob name))"

definition DelegateStaticBoundObject_Set :: "vt \<Rightarrow> addr \<Rightarrow> addr \<Rightarrow> string \<Rightarrow> addr \<Rightarrow> unit M" where
  "DelegateStaticBoundObject_Set V glob loc name v =
     bindM (vSet V loc name v) (\<lambda>_. vSet V glob name v)"

definition DelegateStaticBoundObject_HasProperty :: "vt \<Rightarrow> addr \<Rightarrow> addr \<Rightarrow> string \<Rightarrow> bool M" where
  "DelegateStaticBoundObject_HasProperty V glob loc name =
     bindM (vHas V glob name) (\<lambda>b. if b then retM True else vHas V loc name)"

text \<open>The names are compared as pointers.\<close>

primrec merge_names :: "(addr \<times> string) list \<Rightarrow> (addr \<times> string) list \<Rightarrow> (addr \<times> string) list" where
  "merge_names localList [] = localList"
| "merge_names localList (g # gs) =
     merge_names (if list_ex (\<lambda>l. fst g = fst l) localList then localList else localList @ [g]) gs"

definition DelegateStaticBoundObject_GetPropertyNames :: "vt \<Rightarrow> addr \<Rightarrow> addr \<Rightarrow> (addr \<times> string) list M" where
  "DelegateStaticBoundObject_GetPropertyNames V glob loc =
     bindM (vNames V glob) (\<lambda>globalList.
     bindM (vNames V loc) (\<lambda>localList. retM (merge_names localList globalList)))"

definition ScopeMethodDelegate_IsGlobalKey :: "string \<Rightarrow> bool" where
  "ScopeMethodDelegate_IsGlobalKey key \<longleftrightarrow> find_first_of key ''.'' 0 \<noteq> None"

definition args_at :: "addr list \<Rightarrow> nat \<Rightarrow> addr M" where
  "args_at args i = (if i < length args then retM (args ! i) else raiseM OutOfRange)"

definition ScopeMethodDelegate_Call ::
  "vt \<Rightarrow> MethodDelegateType \<Rightarrow> addr \<Rightarrow> addr \<Rightarrow> addr list \<Rightarrow> addr M" where
  "ScopeMethodDelegate_Call V ty glob scope args =
     bindM (args_at args 0) (\<lambda>a. bindM (load a) (\<lambda>v.
     bindM (of_opt (map_option snd (Value_ToString v))) (\<lambda>key.
       let obj = (if ScopeMethodDelegate_IsGlobalKey key then glob else scope) in
       if ty = GET then vGet V obj (c_str key)
       else bindM (args_at args 1) (\<lambda>result.
            bindM (KObject_SetNS V obj (c_str key) result) (\<lambda>_. retM Undefined_addr)))))"

primrec copy_scope :: "vt \<Rightarrow> addr \<Rightarrow> addr \<Rightarrow> addr \<Rightarrow> (addr \<times> string) list \<Rightarrow> unit M" where
  "copy_scope V glob bo scope [] = retM ()"
| "copy_scope V glob bo scope (p # ps) =
     (let key = snd p in
      bindM (vGet V bo (c_str key)) (\<lambda>a.
      bindM (if key = ''set'' \<or> key = ''get'' then
               bindM (load a) (\<lambda>v.
               bindM (gets (\<lambda>h. Value_ToMethod (isMethod h) v)) (\<lambda>m.
               bindM (new_object \<lparr>cls = CScopeMethodDelegate (if key = ''set'' then SET else GET) glob scope
                        (case m of Some d \<Rightarrow> d | None \<Rightarrow> 0), otype = ''KMethod'', properties = []\<rparr>) (\<lambda>d.
               bindM (new_value (Value_NewMethod (Some d))) (\<lambda>nv.
                 StaticBoundObject_Set scope (c_str key) nv))))
             else StaticBoundObject_Set scope (c_str key) a) (\<lambda>_.
        copy_scope V glob bo scope ps)))"

definition ScopeMethodDelegate_CreateDelegate :: "vt \<Rightarrow> addr \<Rightarrow> addr \<Rightarrow> addr M" where
  "ScopeMethodDelegate_CreateDelegate V glob bo =
     bindM (new_object (StaticBoundObject_new ''StaticBoundObject'')) (\<lambda>scope.
     bindM (vNames V bo) (\<lambda>keys.
     bindM (copy_scope V glob bo scope keys) (\<lambda>_. retM scope)))"

section \<open>Profiling wrappers\<close>

text \<open>A line of the profile is its event and name; the two times are left out. The stream is the one that
  \<^verbatim>\<open>SetStream\<close> was given, none is a null pointer; writing to it is taken to succeed, so that a stream in a
  failed state, which would drop the line, is not distinguished.\<close>

definition ProfiledBoundObject_Log :: "string \<Rightarrow> string \<Rightarrow> unit M" where
  "ProfiledBoundObject_Log ev name h =
     (case stream h of Some out \<Rightarrow> (Inr (), h\<lparr>stream := Some (out @ [(ev, name)])\<rparr>) | None \<Rightarrow> (Inl UB, h))"

fun is_profiled_method :: "kclass \<Rightarrow> bool" where
  "is_profiled_method (CProfiledBoundMethod _ _) = True" | "is_profiled_method _ = False"

fun is_profiled_list :: "kclass \<Rightarrow> bool" where
  "is_profiled_list (CProfiledBoundList _) = True" | "is_profiled_list _ = False"

text \<open>\<^verbatim>\<open>ProfiledBoundMethod\<close> and \<^verbatim>\<open>ProfiledBoundList\<close> derive from \<^verbatim>\<open>ProfiledBoundObject\<close>.\<close>

fun is_profiled_object :: "kclass \<Rightarrow> bool" where
  "is_profiled_object (CProfiledBoundObject _) = True"
| "is_profiled_object (CProfiledBoundMethod _ _) = True"
| "is_profiled_object (CProfiledBoundList _) = True"
| "is_profiled_object _ = False"

definition has_class :: "(kclass \<Rightarrow> bool) \<Rightarrow> heap \<Rightarrow> addr option \<Rightarrow> bool" where
  "has_class P h p = (case p of Some a \<Rightarrow> (case objs h a of Some ob \<Rightarrow> P (cls ob) | None \<Rightarrow> False) | None \<Rightarrow> False)"

definition ProfiledBoundObject_AlreadyWrapped :: "heap \<Rightarrow> Value \<Rightarrow> bool" where
  "ProfiledBoundObject_AlreadyWrapped h v =
     (if Value_IsMethod v then has_class is_profiled_method h (Value_ToMethod (isMethod h) v)
      else if Value_IsList v then has_class is_profiled_list h (Value_ToList (isList h) v)
      else if Value_IsObject v then has_class is_profiled_object h (Value_ToObject v)
      else True)"

definition KObject_type :: "addr \<Rightarrow> string M" where
  "KObject_type a = bindM (load_obj a) (\<lambda>ob.
     case cls ob of CProfiledBoundMethod _ fullType \<Rightarrow> retM fullType | _ \<Rightarrow> retM (otype ob))"

definition ProfiledBoundObject_Wrap :: "addr \<Rightarrow> string \<Rightarrow> addr M" where
  "ProfiledBoundObject_Wrap a ty =
     bindM (load a) (\<lambda>v.
     bindM (gets (\<lambda>h. ProfiledBoundObject_AlreadyWrapped h v)) (\<lambda>wrapped.
       if wrapped then retM a
       else if Value_IsMethod v then
         bindM (gets (\<lambda>h. Value_ToMethod (isMethod h) v)) (\<lambda>p. bindM (of_opt p) (\<lambda>toWrap.
         bindM (KObject_type toWrap) (\<lambda>t.
         bindM (new_object \<lparr>cls = CProfiledBoundMethod toWrap ty, otype = t, properties = []\<rparr>) (\<lambda>w.
           new_value (Value_NewMethod (Some w))))))
       else if Value_IsList v then
         bindM (gets (\<lambda>h. Value_ToList (isList h) v)) (\<lambda>p. bindM (of_opt p) (\<lambda>toWrap.
         bindM (KObject_type toWrap) (\<lambda>t.
         bindM (new_object \<lparr>cls = CProfiledBoundList toWrap, otype = t, properties = []\<rparr>) (\<lambda>w.
           new_value (Value_NewList (Some w))))))
       else if Value_IsObject v then
         bindM (of_opt (Value_ToObject v)) (\<lambda>toWrap.
         bindM (KObject_type toWrap) (\<lambda>t.
         bindM (new_object \<lparr>cls = CProfiledBoundObject toWrap, otype = t, properties = []\<rparr>) (\<lambda>w.
           new_value (Value_NewObject (Some w)))))
       else retM a))"

definition ProfiledBoundObject_GetSubType :: "addr \<Rightarrow> string \<Rightarrow> string M" where
  "ProfiledBoundObject_GetSubType this name =
     bindM (KObject_type this) (\<lambda>t. if t \<noteq> [] then retM (t @ ''.'' @ name) else retM name)"

definition ProfiledBoundObject_Set :: "vt \<Rightarrow> addr \<Rightarrow> addr \<Rightarrow> string \<Rightarrow> addr \<Rightarrow> unit M" where
  "ProfiledBoundObject_Set V this delegate name v =
     bindM (ProfiledBoundObject_GetSubType this name) (\<lambda>ty.
     bindM (ProfiledBoundObject_Wrap v ty) (\<lambda>result.
     bindM (vSet V delegate name result) (\<lambda>_. ProfiledBoundObject_Log ''set'' ty)))"

definition ProfiledBoundObject_Get :: "vt \<Rightarrow> addr \<Rightarrow> addr \<Rightarrow> string \<Rightarrow> addr M" where
  "ProfiledBoundObject_Get V this delegate name =
     bindM (ProfiledBoundObject_GetSubType this name) (\<lambda>ty.
     bindM (vGet V delegate name) (\<lambda>v.
     bindM (ProfiledBoundObject_Log ''get'' ty) (\<lambda>_. ProfiledBoundObject_Wrap v ty)))"

definition ProfiledBoundMethod_Call :: "vt \<Rightarrow> addr \<Rightarrow> string \<Rightarrow> addr list \<Rightarrow> addr M" where
  "ProfiledBoundMethod_Call V method fullType args h =
     (case vCall V method args h of
        (Inl e, h') \<Rightarrow> bindM (ProfiledBoundObject_Log ''call'' fullType) (\<lambda>_. raiseM e) h'
      | (Inr v, h') \<Rightarrow>
          bindM (ProfiledBoundObject_Log ''call'' fullType) (\<lambda>_. ProfiledBoundObject_Wrap v fullType) h')"

definition profiled_delegate :: "heap \<Rightarrow> addr \<Rightarrow> addr option" where
  "profiled_delegate h a = (case objs h a of
     Some ob \<Rightarrow> (case cls ob of CProfiledBoundObject d \<Rightarrow> Some d | CProfiledBoundMethod d _ \<Rightarrow> Some d
       | CProfiledBoundList d \<Rightarrow> Some d | _ \<Rightarrow> None)
   | None \<Rightarrow> None)"

definition ProfiledBoundObject_Equals :: "heap \<Rightarrow> addr \<Rightarrow> addr option \<Rightarrow> bool" where
  "ProfiledBoundObject_Equals h delegate other =
     (case other of
        Some a \<Rightarrow> (case profiled_delegate h a of Some d \<Rightarrow> d = delegate | None \<Rightarrow> a = delegate)
      | None \<Rightarrow> False)"

text \<open>
  The virtual \<^verbatim>\<open>Equals\<close> of an object reached through a value.  The wrapped method and list derive
  from \<^verbatim>\<open>KObject\<close> twice, and on the side of \<^verbatim>\<open>KMethod\<close> and \<^verbatim>\<open>KList\<close> it is not overridden.
\<close>

definition obj_equals :: "heap \<Rightarrow> addr \<Rightarrow> addr option \<Rightarrow> bool" where
  "obj_equals h this other =
     (case objs h this of
        Some ob \<Rightarrow> (case cls ob of
          CProfiledBoundObject d \<Rightarrow> ProfiledBoundObject_Equals h d other
        | _ \<Rightarrow> KObject_Equals this other)
      | None \<Rightarrow> KObject_Equals this other)"

definition KObject_Unwrap :: "heap \<Rightarrow> addr \<Rightarrow> addr" where
  "KObject_Unwrap h a = (case profiled_delegate h a of Some d \<Rightarrow> d | None \<Rightarrow> a)"

definition KMethod_Unwrap :: "heap \<Rightarrow> addr \<Rightarrow> addr" where
  "KMethod_Unwrap h a =
     (if has_class is_profiled_method h (Some a) then KObject_Unwrap h a else a)"

definition KList_Unwrap :: "heap \<Rightarrow> addr \<Rightarrow> addr" where
  "KList_Unwrap h a =
     (if has_class is_profiled_list h (Some a) then KObject_Unwrap h a else a)"

definition Value_Unwrap :: "bool \<Rightarrow> addr \<Rightarrow> unit M" where
  "Value_Unwrap profiling a =
     (if \<not> profiling then retM ()
      else bindM (load a) (\<lambda>v.
        if Value_IsMethod v then
          bindM (gets (\<lambda>h. map_option (KMethod_Unwrap h) (Value_ToMethod (isMethod h) v))) (\<lambda>m.
            store a (Value_SetMethod m v))
        else if Value_IsList v then
          bindM (gets (\<lambda>h. map_option (KList_Unwrap h) (Value_ToList (isList h) v))) (\<lambda>m.
            store a (Value_SetList m v))
        else if Value_IsObject v then
          bindM (gets (\<lambda>h. map_option (KObject_Unwrap h) (Value_ToObject v))) (\<lambda>m.
            store a (Value_SetObject m v))
        else retM ()))"

section \<open>Functions that only forward\<close>

definition StaticBoundMethod_Get :: "addr \<Rightarrow> string \<Rightarrow> addr M" where
  "StaticBoundMethod_Get this name = StaticBoundObject_Get this name"

definition StaticBoundMethod_Set :: "addr \<Rightarrow> string \<Rightarrow> addr \<Rightarrow> unit M" where
  "StaticBoundMethod_Set this name v = StaticBoundObject_Set this name v"

definition StaticBoundMethod_GetPropertyNames :: "addr \<Rightarrow> (addr \<times> string) list M" where
  "StaticBoundMethod_GetPropertyNames this = StaticBoundObject_GetPropertyNames this"

definition KFunctionPtrMethod_Get :: "addr \<Rightarrow> string \<Rightarrow> addr M" where
  "KFunctionPtrMethod_Get this name = StaticBoundObject_Get this name"

definition KFunctionPtrMethod_Set :: "addr \<Rightarrow> string \<Rightarrow> addr \<Rightarrow> unit M" where
  "KFunctionPtrMethod_Set this name v = StaticBoundObject_Set this name v"

definition KFunctionPtrMethod_GetPropertyNames :: "addr \<Rightarrow> (addr \<times> string) list M" where
  "KFunctionPtrMethod_GetPropertyNames this = StaticBoundObject_GetPropertyNames this"

definition ScopeMethodDelegate_Set :: "vt \<Rightarrow> addr \<Rightarrow> string \<Rightarrow> addr \<Rightarrow> unit M" where
  "ScopeMethodDelegate_Set V delegate name v = vSet V delegate name v"

definition ScopeMethodDelegate_Get :: "vt \<Rightarrow> addr \<Rightarrow> string \<Rightarrow> addr M" where
  "ScopeMethodDelegate_Get V delegate name = vGet V delegate name"

definition ScopeMethodDelegate_GetPropertyNames :: "vt \<Rightarrow> addr \<Rightarrow> (addr \<times> string) list M" where
  "ScopeMethodDelegate_GetPropertyNames V delegate = vNames V delegate"

definition ProfiledBoundObject_GetPropertyNames :: "vt \<Rightarrow> addr \<Rightarrow> (addr \<times> string) list M" where
  "ProfiledBoundObject_GetPropertyNames V delegate = vNames V delegate"

definition ProfiledBoundObject_HasProperty :: "vt \<Rightarrow> addr \<Rightarrow> string \<Rightarrow> bool M" where
  "ProfiledBoundObject_HasProperty V delegate name = vHas V delegate name"

definition ProfiledBoundMethod_Set :: "vt \<Rightarrow> addr \<Rightarrow> string \<Rightarrow> addr \<Rightarrow> unit M" where
  "ProfiledBoundMethod_Set V method name v = vSet V method name v"

definition ProfiledBoundMethod_Get :: "vt \<Rightarrow> addr \<Rightarrow> string \<Rightarrow> addr M" where
  "ProfiledBoundMethod_Get V method name = vGet V method name"

definition ProfiledBoundMethod_GetPropertyNames :: "vt \<Rightarrow> addr \<Rightarrow> (addr \<times> string) list M" where
  "ProfiledBoundMethod_GetPropertyNames V method = vNames V method"

definition ProfiledBoundMethod_HasProperty :: "vt \<Rightarrow> addr \<Rightarrow> string \<Rightarrow> bool M" where
  "ProfiledBoundMethod_HasProperty V method name = vHas V method name"

definition ProfiledBoundList_Append :: "vt \<Rightarrow> addr \<Rightarrow> addr \<Rightarrow> unit M" where
  "ProfiledBoundList_Append V l v = vAppend V l v"

definition ProfiledBoundList_Size :: "vt \<Rightarrow> addr \<Rightarrow> uint32 M" where
  "ProfiledBoundList_Size V l = vSize V l"

definition ProfiledBoundList_At :: "vt \<Rightarrow> addr \<Rightarrow> uint32 \<Rightarrow> addr M" where
  "ProfiledBoundList_At V l i = vAt V l i"

definition ProfiledBoundList_SetAt :: "vt \<Rightarrow> addr \<Rightarrow> uint32 \<Rightarrow> addr \<Rightarrow> unit M" where
  "ProfiledBoundList_SetAt V l i v = vSetAt V l i v"

definition ProfiledBoundList_Remove :: "vt \<Rightarrow> addr \<Rightarrow> uint32 \<Rightarrow> bool M" where
  "ProfiledBoundList_Remove V l i = vRemove V l i"

definition ProfiledBoundList_Set :: "vt \<Rightarrow> addr \<Rightarrow> string \<Rightarrow> addr \<Rightarrow> unit M" where
  "ProfiledBoundList_Set V l name v = vSet V l name v"

definition ProfiledBoundList_Get :: "vt \<Rightarrow> addr \<Rightarrow> string \<Rightarrow> addr M" where
  "ProfiledBoundList_Get V l name = vGet V l name"

definition ProfiledBoundList_GetPropertyNames :: "vt \<Rightarrow> addr \<Rightarrow> (addr \<times> string) list M" where
  "ProfiledBoundList_GetPropertyNames V l = vNames V l"

definition ProfiledBoundList_HasProperty :: "vt \<Rightarrow> addr \<Rightarrow> string \<Rightarrow> bool M" where
  "ProfiledBoundList_HasProperty V l name = vHas V l name"

lemmas forward_defs = StaticBoundMethod_Get_def StaticBoundMethod_Set_def StaticBoundMethod_GetPropertyNames_def
  KFunctionPtrMethod_Get_def KFunctionPtrMethod_Set_def KFunctionPtrMethod_GetPropertyNames_def
  ScopeMethodDelegate_Set_def ScopeMethodDelegate_Get_def ScopeMethodDelegate_GetPropertyNames_def
  ProfiledBoundObject_GetPropertyNames_def ProfiledBoundObject_HasProperty_def
  ProfiledBoundMethod_Set_def ProfiledBoundMethod_Get_def ProfiledBoundMethod_GetPropertyNames_def
  ProfiledBoundMethod_HasProperty_def ProfiledBoundList_Append_def ProfiledBoundList_Size_def
  ProfiledBoundList_At_def ProfiledBoundList_SetAt_def ProfiledBoundList_Remove_def ProfiledBoundList_Set_def
  ProfiledBoundList_Get_def ProfiledBoundList_GetPropertyNames_def ProfiledBoundList_HasProperty_def

section \<open>Wrappers and the environment\<close>

text \<open>The classes that \<^verbatim>\<open>API.createKObject\<close>, \<^verbatim>\<open>createKMethod\<close> and \<^verbatim>\<open>createKList\<close> make
  (\<^verbatim>\<open>src/modules/api/api_binding.cpp\<close>).\<close>

definition KObjectWrapper_Set :: "vt \<Rightarrow> addr \<Rightarrow> string \<Rightarrow> addr \<Rightarrow> unit M" where
  "KObjectWrapper_Set V object name v = vSet V object name v"

definition KObjectWrapper_Get :: "vt \<Rightarrow> addr \<Rightarrow> string \<Rightarrow> addr M" where
  "KObjectWrapper_Get V object name = vGet V object name"

definition KObjectWrapper_GetPropertyNames :: "vt \<Rightarrow> addr \<Rightarrow> (addr \<times> string) list M" where
  "KObjectWrapper_GetPropertyNames V object = vNames V object"

definition KMethodWrapper_Call :: "vt \<Rightarrow> addr \<Rightarrow> addr list \<Rightarrow> addr M" where
  "KMethodWrapper_Call V method args = vCall V method args"

definition KMethodWrapper_Set :: "vt \<Rightarrow> addr \<Rightarrow> string \<Rightarrow> addr \<Rightarrow> unit M" where
  "KMethodWrapper_Set V method name v = vSet V method name v"

definition KMethodWrapper_Get :: "vt \<Rightarrow> addr \<Rightarrow> string \<Rightarrow> addr M" where
  "KMethodWrapper_Get V method name = vGet V method name"

definition KMethodWrapper_GetPropertyNames :: "vt \<Rightarrow> addr \<Rightarrow> (addr \<times> string) list M" where
  "KMethodWrapper_GetPropertyNames V method = vNames V method"

definition KListWrapper_Append :: "vt \<Rightarrow> addr \<Rightarrow> addr \<Rightarrow> unit M" where
  "KListWrapper_Append V l v = vAppend V l v"

definition KListWrapper_Size :: "vt \<Rightarrow> addr \<Rightarrow> uint32 M" where
  "KListWrapper_Size V l = vSize V l"

definition KListWrapper_At :: "vt \<Rightarrow> addr \<Rightarrow> uint32 \<Rightarrow> addr M" where
  "KListWrapper_At V l i = vAt V l i"

definition KListWrapper_SetAt :: "vt \<Rightarrow> addr \<Rightarrow> uint32 \<Rightarrow> addr \<Rightarrow> unit M" where
  "KListWrapper_SetAt V l i v = vSetAt V l i v"

definition KListWrapper_Remove :: "vt \<Rightarrow> addr \<Rightarrow> uint32 \<Rightarrow> bool M" where
  "KListWrapper_Remove V l i = vRemove V l i"

definition KListWrapper_Set :: "vt \<Rightarrow> addr \<Rightarrow> string \<Rightarrow> addr \<Rightarrow> unit M" where
  "KListWrapper_Set V l name v = vSet V l name v"

definition KListWrapper_Get :: "vt \<Rightarrow> addr \<Rightarrow> string \<Rightarrow> addr M" where
  "KListWrapper_Get V l name = vGet V l name"

definition KListWrapper_GetPropertyNames :: "vt \<Rightarrow> addr \<Rightarrow> (addr \<times> string) list M" where
  "KListWrapper_GetPropertyNames V l = vNames V l"

lemmas wrapper_defs = KObjectWrapper_Set_def KObjectWrapper_Get_def KObjectWrapper_GetPropertyNames_def
  KMethodWrapper_Call_def KMethodWrapper_Set_def KMethodWrapper_Get_def KMethodWrapper_GetPropertyNames_def
  KListWrapper_Append_def KListWrapper_Size_def KListWrapper_At_def KListWrapper_SetAt_def KListWrapper_Remove_def
  KListWrapper_Set_def KListWrapper_Get_def KListWrapper_GetPropertyNames_def

text \<open>A function of the process's surroundings run from the binding layer: what it throws is a string, and
  the other ways to stop are none of this program's results.\<close>

definition in_world :: "('a, unit) sysM \<Rightarrow> 'a M" where
  "in_world m h =
     (case m (p_world (proc h)) of
        Inr (x, w) \<Rightarrow> (Inr x, h\<lparr>proc := (proc h)\<lparr>p_world := w\<rparr>\<rparr>)
      | Inl e \<Rightarrow> (Inl (case e of Throws s \<Rightarrow> ThrownString s | Endless \<Rightarrow> NoFuel | _ \<Rightarrow> UB), h))"

text \<open>\<^verbatim>\<open>EnvironmentUtils::GetEnvironment\<close> as the sorted entries of its \<^verbatim>\<open>std::map\<close>.\<close>

definition environment_map :: "string list \<Rightarrow> (string \<times> string) list" where
  "environment_map env = foldl (\<lambda>m e. pmap_insert (fst (environment_entry e)) (snd (environment_entry e)) m) [] env"

definition EnvironmentBinding_Get :: "string \<Rightarrow> addr M" where
  "EnvironmentBinding_Get name = bindM (in_world (Environment_Get name)) new_string"

definition EnvironmentBinding_GetPropertyNames :: "(addr \<times> string) list M" where
  "EnvironmentBinding_GetPropertyNames =
     bindM (gets (\<lambda>h. environment_map (w_environ (p_world (proc h))))) (\<lambda>env. new_names (map fst env))"

definition EnvironmentBinding_Set :: "string \<Rightarrow> addr \<Rightarrow> unit M" where
  "EnvironmentBinding_Set name v =
     bindM (load v) (\<lambda>val.
       if Value_IsString val then
         bindM (of_opt (map_option snd (Value_ToString val))) (\<lambda>s. in_world (Environment_Set name (c_str s)))
       else retM ())"

section \<open>Virtual dispatch\<close>

definition dispatch_Get :: "vt \<Rightarrow> addr \<Rightarrow> string \<Rightarrow> addr M" where
  "dispatch_Get V this name = bindM (load_obj this) (\<lambda>ob. case cls ob of
      CStaticBoundObject \<Rightarrow> StaticBoundObject_Get this name
    | CStaticBoundList _ \<Rightarrow> StaticBoundList_Get this name
    | CStaticBoundMethod _ \<Rightarrow> StaticBoundMethod_Get this name
    | CKFunctionPtrMethod _ \<Rightarrow> KFunctionPtrMethod_Get this name
    | CAccessorBoundObject \<Rightarrow> AccessorBoundObject_Get V this name
    | CAccessorBoundList _ \<Rightarrow> AccessorBoundList_Get V this name
    | CAccessorBoundMethod _ \<Rightarrow> AccessorBoundMethod_Get V this name
    | CDelegateStaticBoundObject g l \<Rightarrow> DelegateStaticBoundObject_Get V g l name
    | CScopeMethodDelegate _ _ _ d \<Rightarrow> ScopeMethodDelegate_Get V d name
    | CProfiledBoundObject d \<Rightarrow> ProfiledBoundObject_Get V this d name
    | CProfiledBoundMethod d _ \<Rightarrow> ProfiledBoundMethod_Get V d name
    | CProfiledBoundList d \<Rightarrow> ProfiledBoundList_Get V d name
    | CKEventObject _ \<Rightarrow> AccessorBoundObject_Get V this name
    | CEvent _ _ _ _ _ _ \<Rightarrow> AccessorBoundObject_Get V this name
    | CBlob _ _ \<Rightarrow> StaticBoundObject_Get this name
    | CAsyncJob _ \<Rightarrow> StaticBoundObject_Get this name
    | CKObjectWrapper d \<Rightarrow> KObjectWrapper_Get V d name
    | CKMethodWrapper d \<Rightarrow> KMethodWrapper_Get V d name
    | CKListWrapper d \<Rightarrow> KListWrapper_Get V d name
    | CEnvironmentBinding \<Rightarrow> EnvironmentBinding_Get name
    | CComponentBinding _ \<Rightarrow> AccessorBoundObject_Get V this name
    | CDependencyBinding _ \<Rightarrow> AccessorBoundObject_Get V this name
    | CApplicationBinding _ _ \<Rightarrow> AccessorBoundObject_Get V this name
    | CAPIBinding _ \<Rightarrow> AccessorBoundObject_Get V this name)"

definition dispatch_Set :: "vt \<Rightarrow> addr \<Rightarrow> string \<Rightarrow> addr \<Rightarrow> unit M" where
  "dispatch_Set V this name v = bindM (load_obj this) (\<lambda>ob. case cls ob of
      CStaticBoundObject \<Rightarrow> StaticBoundObject_Set this name v
    | CStaticBoundList _ \<Rightarrow> StaticBoundList_Set this name v
    | CStaticBoundMethod _ \<Rightarrow> StaticBoundMethod_Set this name v
    | CKFunctionPtrMethod _ \<Rightarrow> KFunctionPtrMethod_Set this name v
    | CAccessorBoundObject \<Rightarrow> AccessorBoundObject_Set V this name v
    | CAccessorBoundList _ \<Rightarrow> AccessorBoundList_Set V this name v
    | CAccessorBoundMethod _ \<Rightarrow> AccessorBoundMethod_Set V this name v
    | CDelegateStaticBoundObject g l \<Rightarrow> DelegateStaticBoundObject_Set V g l name v
    | CScopeMethodDelegate _ _ _ d \<Rightarrow> ScopeMethodDelegate_Set V d name v
    | CProfiledBoundObject d \<Rightarrow> ProfiledBoundObject_Set V this d name v
    | CProfiledBoundMethod d _ \<Rightarrow> ProfiledBoundMethod_Set V d name v
    | CProfiledBoundList d \<Rightarrow> ProfiledBoundList_Set V d name v
    | CKEventObject _ \<Rightarrow> AccessorBoundObject_Set V this name v
    | CEvent _ _ _ _ _ _ \<Rightarrow> AccessorBoundObject_Set V this name v
    | CBlob _ _ \<Rightarrow> StaticBoundObject_Set this name v
    | CAsyncJob _ \<Rightarrow> StaticBoundObject_Set this name v
    | CKObjectWrapper d \<Rightarrow> KObjectWrapper_Set V d name v
    | CKMethodWrapper d \<Rightarrow> KMethodWrapper_Set V d name v
    | CKListWrapper d \<Rightarrow> KListWrapper_Set V d name v
    | CEnvironmentBinding \<Rightarrow> EnvironmentBinding_Set name v
    | CComponentBinding _ \<Rightarrow> AccessorBoundObject_Set V this name v
    | CDependencyBinding _ \<Rightarrow> AccessorBoundObject_Set V this name v
    | CApplicationBinding _ _ \<Rightarrow> AccessorBoundObject_Set V this name v
    | CAPIBinding _ \<Rightarrow> AccessorBoundObject_Set V this name v)"

definition dispatch_Names :: "vt \<Rightarrow> addr \<Rightarrow> (addr \<times> string) list M" where
  "dispatch_Names V this = bindM (load_obj this) (\<lambda>ob. case cls ob of
      CDelegateStaticBoundObject g l \<Rightarrow> DelegateStaticBoundObject_GetPropertyNames V g l
    | CScopeMethodDelegate _ _ _ d \<Rightarrow> ScopeMethodDelegate_GetPropertyNames V d
    | CProfiledBoundObject d \<Rightarrow> ProfiledBoundObject_GetPropertyNames V d
    | CProfiledBoundMethod d _ \<Rightarrow> ProfiledBoundMethod_GetPropertyNames V d
    | CProfiledBoundList d \<Rightarrow> ProfiledBoundList_GetPropertyNames V d
    | CStaticBoundMethod _ \<Rightarrow> StaticBoundMethod_GetPropertyNames this
    | CAccessorBoundMethod _ \<Rightarrow> StaticBoundMethod_GetPropertyNames this
    | CKFunctionPtrMethod _ \<Rightarrow> KFunctionPtrMethod_GetPropertyNames this
    | CAccessorBoundList _ \<Rightarrow> StaticBoundList_GetPropertyNames this
    | CStaticBoundList _ \<Rightarrow> StaticBoundList_GetPropertyNames this
    | CKObjectWrapper d \<Rightarrow> KObjectWrapper_GetPropertyNames V d
    | CKMethodWrapper d \<Rightarrow> KMethodWrapper_GetPropertyNames V d
    | CKListWrapper d \<Rightarrow> KListWrapper_GetPropertyNames V d
    | CEnvironmentBinding \<Rightarrow> EnvironmentBinding_GetPropertyNames
    | _ \<Rightarrow> StaticBoundObject_GetPropertyNames this)"

definition dispatch_Has :: "vt \<Rightarrow> addr \<Rightarrow> string \<Rightarrow> bool M" where
  "dispatch_Has V this name = bindM (load_obj this) (\<lambda>ob. case cls ob of
      CAccessorBoundObject \<Rightarrow> AccessorBoundObject_HasProperty V this name
    | CKEventObject _ \<Rightarrow> AccessorBoundObject_HasProperty V this name
    | CEvent _ _ _ _ _ _ \<Rightarrow> AccessorBoundObject_HasProperty V this name
    | CComponentBinding _ \<Rightarrow> AccessorBoundObject_HasProperty V this name
    | CDependencyBinding _ \<Rightarrow> AccessorBoundObject_HasProperty V this name
    | CApplicationBinding _ _ \<Rightarrow> AccessorBoundObject_HasProperty V this name
    | CAPIBinding _ \<Rightarrow> AccessorBoundObject_HasProperty V this name
    | CAccessorBoundMethod _ \<Rightarrow> AccessorBoundMethod_HasProperty V this name
    | CDelegateStaticBoundObject g l \<Rightarrow> DelegateStaticBoundObject_HasProperty V g l name
    | CProfiledBoundObject d \<Rightarrow> ProfiledBoundObject_HasProperty V d name
    | CProfiledBoundMethod d _ \<Rightarrow> ProfiledBoundMethod_HasProperty V d name
    | CProfiledBoundList d \<Rightarrow> ProfiledBoundList_HasProperty V d name
    | _ \<Rightarrow> KObject_HasProperty V this name)"

definition dispatch_Call :: "natives \<Rightarrow> fnptrs \<Rightarrow> vt \<Rightarrow> addr \<Rightarrow> addr list \<Rightarrow> addr M" where
  "dispatch_Call N F V this args = bindM (load_obj this) (\<lambda>ob. case cls ob of
      CStaticBoundMethod cb \<Rightarrow> StaticBoundMethod_Call N V cb args
    | CAccessorBoundMethod cb \<Rightarrow> StaticBoundMethod_Call N V cb args
    | CKFunctionPtrMethod c \<Rightarrow> KFunctionPtrMethod_Call F V c args
    | CScopeMethodDelegate ty g s _ \<Rightarrow> ScopeMethodDelegate_Call V ty g s args
    | CProfiledBoundMethod m ty \<Rightarrow> ProfiledBoundMethod_Call V m ty args
    | CKMethodWrapper m \<Rightarrow> KMethodWrapper_Call V m args
    | _ \<Rightarrow> raiseM UB)"

definition dispatch_list :: "(addr \<Rightarrow> 'a M) \<Rightarrow> (addr \<Rightarrow> 'a M) \<Rightarrow> (addr \<Rightarrow> 'a M) \<Rightarrow> addr \<Rightarrow> 'a M" where
  "dispatch_list static_op delegate_op wrapper_op this = bindM (load_obj this) (\<lambda>ob. case cls ob of
      CStaticBoundList _ \<Rightarrow> static_op this
    | CAccessorBoundList _ \<Rightarrow> static_op this
    | CProfiledBoundList d \<Rightarrow> delegate_op d
    | CKListWrapper d \<Rightarrow> wrapper_op d
    | _ \<Rightarrow> raiseM UB)"

primrec vtable :: "nat \<Rightarrow> natives \<Rightarrow> fnptrs \<Rightarrow> vt" where
  "vtable 0 N F =
     \<lparr>vGet = (\<lambda>_ _. raiseM NoFuel), vSet = (\<lambda>_ _ _. raiseM NoFuel), vNames = (\<lambda>_. raiseM NoFuel),
      vHas = (\<lambda>_ _. raiseM NoFuel), vCall = (\<lambda>_ _. raiseM NoFuel), vSize = (\<lambda>_. raiseM NoFuel),
      vAt = (\<lambda>_ _. raiseM NoFuel), vAppend = (\<lambda>_ _. raiseM NoFuel),
      vSetAt = (\<lambda>_ _ _. raiseM NoFuel), vRemove = (\<lambda>_ _. raiseM NoFuel)\<rparr>"
| "vtable (Suc n) N F =
     (let V = vtable n N F in
     \<lparr>vGet = dispatch_Get V, vSet = dispatch_Set V, vNames = dispatch_Names V, vHas = dispatch_Has V,
      vCall = dispatch_Call N F V,
      vSize = dispatch_list StaticBoundList_Size (ProfiledBoundList_Size V) (KListWrapper_Size V),
      vAt = (\<lambda>this i. dispatch_list (\<lambda>l. StaticBoundList_At l i) (\<lambda>d. ProfiledBoundList_At V d i) (\<lambda>d. KListWrapper_At V d i) this),
      vAppend = (\<lambda>this v. dispatch_list (\<lambda>l. StaticBoundList_Append l v) (\<lambda>d. ProfiledBoundList_Append V d v) (\<lambda>d. KListWrapper_Append V d v) this),
      vSetAt = (\<lambda>this i v. dispatch_list (\<lambda>l. StaticBoundList_SetAt l i v) (\<lambda>d. ProfiledBoundList_SetAt V d i v) (\<lambda>d. KListWrapper_SetAt V d i v) this),
      vRemove = (\<lambda>this i. dispatch_list (\<lambda>l. StaticBoundList_Remove l i) (\<lambda>d. ProfiledBoundList_Remove V d i) (\<lambda>d. KListWrapper_Remove V d i) this)\<rparr>)"

end
