(* ===== verification/Kroll_ObjectLaws.thy ===== *)
theory Kroll_ObjectLaws
  imports Kroll_Classes
begin

text \<open>
  The store invariant of the binding layer and its preservation.  \<^verbatim>\<open>wf_heap\<close> says that no
  pointer held by a value or an object dangles, that every value satisfies its representation
  invariant and every property map is sorted.  \<^verbatim>\<open>sound h m Q\<close> is the judgement that running
  \<open>m\<close> from \<open>h\<close> keeps the invariant, on normal and exceptional return, forgets no address and
  changes no object's class, and that a normal result satisfies \<open>Q\<close>.  The locale
  \<^verbatim>\<open>virtual_table\<close> is the contract of the virtual functions, \<^verbatim>\<open>native_code\<close> that of the callbacks;
  the dispatch table satisfies the first whenever the callbacks satisfy the second.
\<close>

declare not_None_eq [iff del]

section \<open>The invariant\<close>

definition wf_cell :: "heap \<Rightarrow> Value \<Rightarrow> bool" where
  "wf_cell h v \<longleftrightarrow> wf_value (isList h) (isMethod h) v \<and> pred_option (\<lambda>ob. objs h ob \<noteq> None) (objectValue v)"

fun wf_class :: "heap \<Rightarrow> kclass \<Rightarrow> bool" where
  "wf_class h (CDelegateStaticBoundObject g l) \<longleftrightarrow> objs h g \<noteq> None \<and> objs h l \<noteq> None"
| "wf_class h (CScopeMethodDelegate ty g s d) \<longleftrightarrow> objs h g \<noteq> None \<and> objs h s \<noteq> None \<and> (d = 0 \<or> isMethod h d)"
| "wf_class h (CProfiledBoundObject d) \<longleftrightarrow> objs h d \<noteq> None"
| "wf_class h (CProfiledBoundMethod d ty) \<longleftrightarrow> isMethod h d"
| "wf_class h (CProfiledBoundList d) \<longleftrightarrow> isList h d"
| "wf_class h (CEvent t n ts st pd d) \<longleftrightarrow> objs h t \<noteq> None \<and> pred_option (\<lambda>b. objs h b \<noteq> None) d"
| "wf_class h (CAsyncJob j) \<longleftrightarrow> pred_option (isMethod h) (job j) \<and> cells h (job_result j) \<noteq> None
     \<and> pred_option (\<lambda>a. objs h a \<noteq> None) (sharedThis j)
     \<and> list_all (isMethod h) (progressCallbacks j @ completedCallbacks j @ errorCallbacks j)"
| "wf_class h (CKObjectWrapper d) \<longleftrightarrow> objs h d \<noteq> None"
| "wf_class h (CKMethodWrapper d) \<longleftrightarrow> isMethod h d"
| "wf_class h (CKListWrapper d) \<longleftrightarrow> isList h d"
| "wf_class h (CAPIBinding b) \<longleftrightarrow> objs h (api_global b) \<noteq> None \<and> pred_option (isMethod h) (installerCallback b)"
| "wf_class h _ \<longleftrightarrow> True"

definition wf_obj :: "heap \<Rightarrow> kobj \<Rightarrow> bool" where
  "wf_obj h ob \<longleftrightarrow> pmap_ok (properties ob) \<and> (\<forall>p \<in> set (properties ob). cells h (snd p) \<noteq> None)
     \<and> wf_class h (cls ob)"

text \<open>
  The registry of event listeners: a registered object exists, a listener belongs to at most one
  place of one vector, no vector holds a deleted listener, and every callback is a method.
\<close>

definition wf_listeners :: "heap \<Rightarrow> bool" where
  "wf_listeners h \<longleftrightarrow> (\<forall>a ls. listenerMap h a = Some ls \<longrightarrow> objs h a \<noteq> None \<and> distinct ls)
     \<and> (\<forall>a ls l. listenerMap h a = Some ls \<longrightarrow> l \<in> set ls \<longrightarrow>
          (\<exists>r. listeners h l = Some r \<and> isMethod h (l_callback r)))
     \<and> (\<forall>a b ls ms. listenerMap h a = Some ls \<longrightarrow> listenerMap h b = Some ms \<longrightarrow> a \<noteq> b \<longrightarrow> set ls \<inter> set ms = {})
     \<and> (\<forall>l r. listeners h l = Some r \<longrightarrow> isMethod h (l_callback r))
     \<and> (\<forall>l \<ge> next_addr h. listeners h l = None)"

definition wf_jobs :: "heap \<Rightarrow> bool" where
  "wf_jobs h \<longleftrightarrow> (\<forall>j \<in> set (jobs h). isMethod h (j_method j) \<and> (\<forall>x \<in> set (j_args j). cells h x \<noteq> None))"

definition wf_heap :: "heap \<Rightarrow> bool" where
  "wf_heap h \<longleftrightarrow> wf_listeners h \<and> wf_jobs h \<and> cells h Undefined_addr \<noteq> None \<and> cells h Null_addr \<noteq> None
     \<and> (\<forall>a \<ge> next_addr h. cells h a = None \<and> objs h a = None)
     \<and> (\<forall>a v. cells h a = Some v \<longrightarrow> wf_cell h v)
     \<and> (\<forall>a ob. objs h a = Some ob \<longrightarrow> wf_obj h ob)"

text \<open>
  What no operation undoes: addresses stay allocated, and an object keeps its class and the members
  that only its constructor sets.  \<^verbatim>\<open>fixed\<close> blanks the other members.
\<close>

fun fixed :: "kclass \<Rightarrow> kclass" where
  "fixed (CStaticBoundList _) = CStaticBoundList 0"
| "fixed (CAccessorBoundList _) = CAccessorBoundList 0"
| "fixed (CEvent t n ts _ _ d) = CEvent t n ts False False d"
| "fixed (CBlob _ _) = CBlob None 0"
| "fixed (CAsyncJob j) = CAsyncJob \<lparr>job = job j, progress = NaN, completed = False, job_result = 0, hadError = False,
     cancelled = False, sharedThis = None, progressCallbacks = [], completedCallbacks = [], errorCallbacks = []\<rparr>"
| "fixed (CAPIBinding b) = CAPIBinding (b\<lparr>installerMutex := False, installerDependencies := [], installerCallback := None\<rparr>)"
| "fixed c = c"

lemma fixed_kind: "is_kmethod (fixed c) = is_kmethod c" "is_klist (fixed c) = is_klist c"
  by (cases c; simp)+

lemma fixed_eq_kind: "fixed c = fixed d \<Longrightarrow> is_kmethod c = is_kmethod d" "fixed c = fixed d \<Longrightarrow> is_klist c = is_klist d"
  by (metis fixed_kind)+

definition heap_le :: "heap \<Rightarrow> heap \<Rightarrow> bool" where
  "heap_le h h' \<longleftrightarrow> next_addr h \<le> next_addr h' \<and> (\<forall>a. cells h a \<noteq> None \<longrightarrow> cells h' a \<noteq> None)
     \<and> (\<forall>a ob. objs h a = Some ob \<longrightarrow> (\<exists>ob'. objs h' a = Some ob' \<and> fixed (cls ob') = fixed (cls ob)))"

lemma heap_le_refl [simp, intro]: "heap_le h h"
  by (simp add: heap_le_def)

lemma heap_le_trans [trans]: "heap_le h h1 \<Longrightarrow> heap_le h1 h2 \<Longrightarrow> heap_le h h2"
  unfolding heap_le_def by (metis le_trans)

lemma heap_le_cells: "heap_le h h' \<Longrightarrow> cells h a \<noteq> None \<Longrightarrow> cells h' a \<noteq> None"
  by (simp add: heap_le_def)

lemma heap_le_None: "heap_le h h' \<Longrightarrow> cells h' a = None \<Longrightarrow> cells h a = None"
  using heap_le_cells by blast

lemma heap_le_objs: "heap_le h h' \<Longrightarrow> objs h a \<noteq> None \<Longrightarrow> objs h' a \<noteq> None"
  by (cases "objs h a") (fastforce simp: heap_le_def)+

lemma heap_le_isMethod: "heap_le h h' \<Longrightarrow> isMethod h a \<Longrightarrow> isMethod h' a"
  unfolding isMethod_def by (cases "objs h a") (auto simp: heap_le_def dest!: spec [of _ a] fixed_eq_kind(1))

lemma heap_le_isList: "heap_le h h' \<Longrightarrow> isList h a \<Longrightarrow> isList h' a"
  unfolding isList_def by (cases "objs h a") (auto simp: heap_le_def dest!: spec [of _ a] fixed_eq_kind(2))

lemma heap_le_objE:
  assumes "heap_le h h'" and "objs h a = Some ob"
  obtains ob' where "objs h' a = Some ob'" "fixed (cls ob') = fixed (cls ob)"
  using assms unfolding heap_le_def by blast

lemma wf_value_mono:
  "wf_value L M v \<Longrightarrow> (\<And>a. L a \<Longrightarrow> L' a) \<Longrightarrow> (\<And>a. M a \<Longrightarrow> M' a) \<Longrightarrow> wf_value L' M' v"
  by (auto simp: wf_value_def)

lemma wf_cell_mono: "heap_le h h' \<Longrightarrow> wf_cell h v \<Longrightarrow> wf_cell h' v"
  unfolding wf_cell_def
  by (auto intro: wf_value_mono heap_le_isMethod heap_le_isList dest: heap_le_objs simp: pred_option_def)

lemma wf_class_mono: "heap_le h h' \<Longrightarrow> wf_class h c \<Longrightarrow> wf_class h' c"
  by (cases "(h, c)" rule: wf_class.cases)
    (auto dest: heap_le_objs heap_le_isMethod heap_le_isList heap_le_cells simp: pred_option_def list_all_iff)

lemma wf_obj_mono: "heap_le h h' \<Longrightarrow> wf_obj h ob \<Longrightarrow> wf_obj h' ob"
  unfolding wf_obj_def using wf_class_mono heap_le_cells by blast

lemma wf_listeners_mono:
  assumes "heap_le h h'" and "wf_listeners h" and "listenerMap h' = listenerMap h" "listeners h' = listeners h"
  shows "wf_listeners h'"
proof -
  note old = assms(2) [unfolded wf_listeners_def]
  have n: "next_addr h \<le> next_addr h'" using assms(1) by (simp add: heap_le_def)
  show ?thesis
    unfolding wf_listeners_def assms(3,4)
  proof (intro conjI allI impI)
    fix a ls assume "listenerMap h a = Some ls"
    with old show "objs h' a \<noteq> None" "distinct ls" using heap_le_objs [OF assms(1)] by blast+
  next
    fix a ls l assume "listenerMap h a = Some ls" "l \<in> set ls"
    with old show "\<exists>r. listeners h l = Some r \<and> isMethod h' (l_callback r)" using heap_le_isMethod [OF assms(1)] by blast
  next
    fix a b ls ms assume "listenerMap h a = Some ls" "listenerMap h b = Some ms" "a \<noteq> b"
    with old show "set ls \<inter> set ms = {}" by blast
  next
    fix l r assume "listeners h l = Some r"
    with old show "isMethod h' (l_callback r)" using heap_le_isMethod [OF assms(1)] by blast
  next
    fix l assume "next_addr h' \<le> l"
    with n old show "listeners h l = None" by auto
  qed
qed

lemma wf_jobs_mono: "heap_le h h' \<Longrightarrow> wf_jobs h \<Longrightarrow> jobs h' = jobs h \<Longrightarrow> wf_jobs h'"
  unfolding wf_jobs_def using heap_le_isMethod heap_le_cells by metis

lemma wf_heap_jobs: "wf_heap h \<Longrightarrow> wf_jobs h"
  by (simp add: wf_heap_def)

lemma wf_heap_listeners: "wf_heap h \<Longrightarrow> wf_listeners h"
  by (simp add: wf_heap_def)

lemma wf_heap_cell: "wf_heap h \<Longrightarrow> cells h a = Some v \<Longrightarrow> wf_cell h v"
  by (simp add: wf_heap_def)

lemma wf_heap_obj: "wf_heap h \<Longrightarrow> objs h a = Some ob \<Longrightarrow> wf_obj h ob"
  by (simp add: wf_heap_def)

lemma wf_heap_fresh: "wf_heap h \<Longrightarrow> cells h (next_addr h) = None" "wf_heap h \<Longrightarrow> objs h (next_addr h) = None"
  by (simp_all add: wf_heap_def)

lemma wf_heap_Undefined: "wf_heap h \<Longrightarrow> cells h Undefined_addr \<noteq> None"
  by (simp add: wf_heap_def)

lemma wf_heap_Null: "wf_heap h \<Longrightarrow> cells h Null_addr \<noteq> None"
  by (simp add: wf_heap_def)

lemma wf_heap_property:
  "wf_heap h \<Longrightarrow> objs h a = Some ob \<Longrightarrow> pmap_find k (properties ob) = Some x \<Longrightarrow> cells h x \<noteq> None"
proof -
  assume h: "wf_heap h" "objs h a = Some ob" "pmap_find k (properties ob) = Some x"
  have "(k, x) \<in> set (properties ob)" using h(3) by (rule pmap_find_in_set)
  then show ?thesis using wf_heap_obj [OF h(1,2)] by (fastforce simp: wf_obj_def)
qed

text \<open>Extending a well-formed store keeps it well formed when what is new is well formed.\<close>

lemma wf_heap_extend:
  assumes "wf_heap h" and le: "heap_le h h'"
    and "\<And>a. a \<ge> next_addr h' \<Longrightarrow> cells h' a = None \<and> objs h' a = None"
    and "\<And>a v. cells h' a = Some v \<Longrightarrow> cells h a = Some v \<or> wf_cell h' v"
    and "\<And>a ob. objs h' a = Some ob \<Longrightarrow> objs h a = Some ob \<or> wf_obj h' ob"
    and "listenerMap h' = listenerMap h" "listeners h' = listeners h" "jobs h' = jobs h"
  shows "wf_heap h'"
  using assms wf_cell_mono [OF le] wf_obj_mono [OF le] wf_listeners_mono [OF le] wf_jobs_mono [OF le]
  unfolding wf_heap_def
  by (metis heap_le_cells [OF le])

section \<open>The judgement\<close>

definition exn_ok :: "exn \<Rightarrow> heap \<Rightarrow> bool" where
  "exn_ok e h = (case e of ValueException a \<Rightarrow> cells h a \<noteq> None | ThrownValue a \<Rightarrow> cells h a \<noteq> None | _ \<Rightarrow> True)"

definition sound :: "heap \<Rightarrow> 'a M \<Rightarrow> ('a \<Rightarrow> heap \<Rightarrow> bool) \<Rightarrow> bool" where
  "sound h m Q \<longleftrightarrow> wf_heap (snd (m h)) \<and> heap_le h (snd (m h)) \<and>
     (case fst (m h) of Inr x \<Rightarrow> Q x (snd (m h)) | Inl e \<Rightarrow> exn_ok e (snd (m h)))"

lemma sound_bind:
  assumes "sound h m Q"
    and "\<And>x h'. wf_heap h' \<Longrightarrow> heap_le h h' \<Longrightarrow> Q x h' \<Longrightarrow> sound h' (f x) R"
  shows "sound h (bindM m f) R"
proof (cases "m h")
  case (Pair r h')
  show ?thesis
  proof (cases r)
    case (Inl e)
    with Pair assms(1) show ?thesis by (simp add: sound_def bindM_def)
  next
    case (Inr x)
    with Pair assms(1) have "wf_heap h'" "heap_le h h'" "Q x h'" by (simp_all add: sound_def)
    with assms(2) [of h' x] have "sound h' (f x) R" and le: "heap_le h h'" by blast+
    moreover have "bindM m f h = f x h'" using Pair Inr by (simp add: bindM_def)
    ultimately show ?thesis using heap_le_trans [OF le] by (auto simp: sound_def split: sum.splits)
  qed
qed

lemma sound_run:
  assumes "sound h m Q" and "m h = (r, h')"
  shows "wf_heap h'" "heap_le h h'" "r = Inr x \<Longrightarrow> Q x h'" "r = Inl e \<Longrightarrow> exn_ok e h'"
  using assms by (simp_all add: sound_def)

lemma sound_conseq: "sound h m Q \<Longrightarrow> (\<And>x h'. heap_le h h' \<Longrightarrow> wf_heap h' \<Longrightarrow> Q x h' \<Longrightarrow> R x h') \<Longrightarrow> sound h m R"
  by (auto simp: sound_def split: sum.splits)

lemma sound_ret: "wf_heap h \<Longrightarrow> Q x h \<Longrightarrow> sound h (retM x) Q"
  by (simp add: sound_def retM_def)

lemma sound_raise: "wf_heap h \<Longrightarrow> exn_ok e h \<Longrightarrow> sound h (raiseM e) Q"
  by (simp add: sound_def raiseM_def)

lemma sound_gets: "wf_heap h \<Longrightarrow> Q (f h) h \<Longrightarrow> sound h (gets f) Q"
  by (simp add: sound_def gets_def)

lemma sound_of_opt: "wf_heap h \<Longrightarrow> (\<And>x. p = Some x \<Longrightarrow> Q x h) \<Longrightarrow> sound h (of_opt p) Q"
  by (cases p) (auto simp: of_opt_def sound_ret sound_raise exn_ok_def)

lemma sound_load: "wf_heap h \<Longrightarrow> sound h (load a) (\<lambda>v h'. h' = h \<and> cells h a = Some v \<and> wf_cell h v)"
  by (auto simp: sound_def load_def exn_ok_def wf_heap_cell split: option.splits)

lemma sound_load_obj: "wf_heap h \<Longrightarrow> sound h (load_obj a) (\<lambda>ob h'. h' = h \<and> objs h a = Some ob \<and> wf_obj h ob)"
  by (auto simp: sound_def load_obj_def exn_ok_def wf_heap_obj split: option.splits)

lemma sound_fresh: "wf_heap h \<Longrightarrow> sound h fresh (\<lambda>_ _. True)"
proof -
  assume h: "wf_heap h"
  let ?h = "h\<lparr>next_addr := Suc (next_addr h)\<rparr>"
  have le: "heap_le h ?h" by (auto simp: heap_le_def)
  have "wf_heap ?h" using h by (intro wf_heap_extend [OF h le]) (auto simp: wf_heap_def)
  with le show ?thesis by (simp add: sound_def fresh_def)
qed

lemma sound_new_value: "wf_heap h \<Longrightarrow> wf_cell h v \<Longrightarrow> sound h (new_value v) (\<lambda>x h'. cells h' x = Some v)"
proof -
  assume h: "wf_heap h" and v: "wf_cell h v"
  let ?h = "h\<lparr>cells := (cells h)(next_addr h \<mapsto> v), next_addr := Suc (next_addr h)\<rparr>"
  have le: "heap_le h ?h" by (auto simp: heap_le_def)
  have "wf_heap ?h"
    using h wf_cell_mono [OF le v] by (intro wf_heap_extend [OF h le]) (auto simp: wf_heap_def split: if_splits)
  with le show ?thesis by (simp add: sound_def new_value_def)
qed

lemma sound_store: "wf_heap h \<Longrightarrow> wf_cell h v \<Longrightarrow> sound h (store a v) (\<lambda>_ _. True)"
proof -
  assume h: "wf_heap h" and v: "wf_cell h v"
  let ?h = "h\<lparr>cells := (cells h)(a \<mapsto> v)\<rparr>"
  have le: "heap_le h ?h" by (auto simp: heap_le_def)
  have "wf_heap ?h" if "cells h a \<noteq> None"
    using h that wf_cell_mono [OF le v] by (intro wf_heap_extend [OF h le]) (auto simp: wf_heap_def split: if_splits)
  with le h show ?thesis by (simp add: sound_def store_def exn_ok_def)
qed

lemma sound_new_object:
  "wf_heap h \<Longrightarrow> wf_obj h ob \<Longrightarrow> sound h (new_object ob) (\<lambda>x h'. objs h' x = Some ob)"
proof -
  assume h: "wf_heap h" and ob: "wf_obj h ob"
  let ?h = "h\<lparr>objs := (objs h)(next_addr h \<mapsto> ob), next_addr := Suc (next_addr h)\<rparr>"
  have le: "heap_le h ?h" using wf_heap_fresh(2) [OF h] by (auto simp: heap_le_def)
  have "wf_heap ?h"
    using h wf_obj_mono [OF le ob] by (intro wf_heap_extend [OF h le]) (auto simp: wf_heap_def split: if_splits)
  with le show ?thesis by (simp add: sound_def new_object_def)
qed

lemma sound_store_obj:
  assumes h: "wf_heap h" and old: "objs h a = Some ob" and ob: "wf_obj h ob'"
    and kind: "fixed (cls ob') = fixed (cls ob)"
  shows "sound h (store_obj a ob') (\<lambda>_ h'. objs h' a = Some ob')"
proof -
  let ?h = "h\<lparr>objs := (objs h)(a \<mapsto> ob')\<rparr>"
  have le: "heap_le h ?h" using old kind by (auto simp: heap_le_def)
  have "wf_heap ?h"
    using h old wf_obj_mono [OF le ob] by (intro wf_heap_extend [OF h le]) (auto simp: wf_heap_def split: if_splits)
  with le old show ?thesis by (simp add: sound_def store_obj_def)
qed

lemma heap_le_proc [simp]: "heap_le h (h\<lparr>proc := p\<rparr>)"
  by (simp add: heap_le_def)

lemma wf_heap_proc: "wf_heap h \<Longrightarrow> wf_heap (h\<lparr>proc := p\<rparr>)"
  by (rule wf_heap_extend [of h]) (auto simp: wf_heap_def)

lemma sound_in_world: "wf_heap h \<Longrightarrow> sound h (in_world m) (\<lambda>_ _. True)"
  by (auto simp: sound_def in_world_def exn_ok_def wf_heap_proc split: sum.splits prod.splits sys_stop.splits)

section \<open>New values\<close>

lemma isMethod_objs: "isMethod h a \<Longrightarrow> objs h a \<noteq> None"
  by (auto simp: isMethod_def split: option.splits)

lemma isList_objs: "isList h a \<Longrightarrow> objs h a \<noteq> None"
  by (auto simp: isList_def split: option.splits)

lemma wf_cell_set [simp]:
  "wf_cell h (Value_SetInt i v)" "wf_cell h (Value_SetDouble d v)" "wf_cell h (Value_SetBool (Some b) v)"
  "wf_cell h (Value_SetString a s v)" "wf_cell h (Value_SetVoidPtr q v)" "wf_cell h (Value_SetNull v)"
  "wf_cell h (Value_SetUndefined v)"
  "wf_cell h (Value_SetObject p v) \<longleftrightarrow> pred_option (\<lambda>ob. objs h ob \<noteq> None) p"
  "wf_cell h (Value_SetMethod p v) \<longleftrightarrow> pred_option (isMethod h) p"
  "wf_cell h (Value_SetList p v) \<longleftrightarrow> pred_option (isList h) p"
  using isMethod_objs isList_objs
  by (auto simp: wf_cell_def wf_value_set) (auto simp: wf_value_def Value_Set_defs pred_option_def)

lemma wf_cell_new [simp]:
  "wf_cell h Value_NewUndefined" "wf_cell h Value_NewNull" "wf_cell h (Value_NewInt i)"
  "wf_cell h (Value_NewDouble d)" "wf_cell h (Value_NewBool b)" "wf_cell h (Value_NewString a s)"
  "wf_cell h (Value_NewVoidPtr q)"
  "wf_cell h (Value_NewObject p) \<longleftrightarrow> pred_option (\<lambda>ob. objs h ob \<noteq> None) p"
  "wf_cell h (Value_NewMethod p) \<longleftrightarrow> pred_option (isMethod h) p"
  "wf_cell h (Value_NewList p) \<longleftrightarrow> pred_option (isList h) p"
  by (simp_all add: Value_New_defs) (simp add: wf_cell_def wf_value_new, simp add: Value_new_def)

lemma wf_cell_ToObject: "wf_cell h v \<Longrightarrow> Value_ToObject v = Some ob \<Longrightarrow> objs h ob \<noteq> None"
  by (simp add: wf_cell_def Value_ToObject_def)

lemma ToMethod_isMethod: "Value_ToMethod isM v = Some m \<Longrightarrow> isM m"
  by (auto simp: Value_ToMethod_def autoptr_cast_def split: option.splits if_splits)

lemma ToList_isList: "Value_ToList isL v = Some m \<Longrightarrow> isL m"
  by (auto simp: Value_ToList_def autoptr_cast_def split: option.splits if_splits)

lemma sound_new_string: "wf_heap h \<Longrightarrow> sound h (new_string s) (\<lambda>x h'. cells h' x \<noteq> None)"
  unfolding new_string_def
  by (rule sound_bind [OF sound_fresh]) (auto intro: sound_conseq [OF sound_new_value])

section \<open>Static objects\<close>

lemma wf_obj_insert:
  assumes "wf_obj h ob" and "cells h v \<noteq> None"
  shows "wf_obj h (ob\<lparr>properties := pmap_insert k v (properties ob)\<rparr>)"
  using assms pmap_insert_set [of k v "properties ob"]
  by (auto simp: wf_obj_def pmap_ok_insert dest!: subsetD)

lemma wf_obj_erase:
  assumes "wf_obj h ob"
  shows "wf_obj h (ob\<lparr>properties := pmap_erase k (properties ob)\<rparr>)"
  using assms pmap_erase_set [of k "properties ob"]
  by (auto simp: wf_obj_def pmap_ok_erase dest!: subsetD)

lemma sound_Static_Get:
  assumes "wf_heap h"
  shows "sound h (StaticBoundObject_Get this name) (\<lambda>x h'. cells h' x \<noteq> None)"
  unfolding StaticBoundObject_Get_def
proof (rule sound_bind [OF sound_new_value [OF assms]], simp, rule sound_bind [OF sound_load_obj], assumption)
  fix r h1 ob h2
  assume h: "wf_heap h2" "cells h1 r = Some Value_NewUndefined" "h2 = h1 \<and> objs h1 this = Some ob \<and> wf_obj h1 ob"
  then show "sound h2 (case pmap_find name (properties ob) of None \<Rightarrow> retM r | Some x \<Rightarrow> retM x)
      (\<lambda>x h'. cells h' x \<noteq> None)"
    using wf_heap_property [of h1 this ob name] by (auto intro!: sound_ret split: option.split)
qed

lemma sound_Static_UnSet:
  assumes "wf_heap h"
  shows "sound h (StaticBoundObject_UnSet this name) (\<lambda>_ _. True)"
  unfolding StaticBoundObject_UnSet_def
  by (rule sound_bind [OF sound_load_obj [OF assms]])
    (auto intro!: sound_ret sound_conseq [OF sound_store_obj] wf_obj_erase)

lemma sound_Static_Set:
  assumes "wf_heap h" and "cells h v \<noteq> None"
  shows "sound h (StaticBoundObject_Set this name v) (\<lambda>_ _. True)"
  unfolding StaticBoundObject_Set_def
proof (rule sound_bind [OF sound_Static_UnSet [OF assms(1)]], rule sound_bind [OF sound_load_obj], assumption)
  fix h1 ob h2
  assume h: "wf_heap h2" "heap_le h h1" "h2 = h1 \<and> objs h1 this = Some ob \<and> wf_obj h1 ob"
  then show "sound h2 (store_obj this (ob\<lparr>properties := pmap_insert name v (properties ob)\<rparr>)) (\<lambda>_ _. True)"
    using heap_le_cells [OF h(2) assms(2)]
    by (auto intro!: sound_conseq [OF sound_store_obj] wf_obj_insert)
qed

lemma sound_new_names: "wf_heap h \<Longrightarrow> sound h (new_names ns) (\<lambda>_ _. True)"
proof (induction ns arbitrary: h)
  case (Cons a ns)
  show ?case
    unfolding new_names.simps
    by (rule sound_bind [OF sound_fresh [OF Cons.prems]], rule sound_bind [OF Cons.IH])
      (auto intro: sound_ret)
qed (simp add: sound_ret)

lemma sound_Static_Names:
  assumes "wf_heap h"
  shows "sound h (StaticBoundObject_GetPropertyNames this) (\<lambda>_ _. True)"
  unfolding StaticBoundObject_GetPropertyNames_def
  by (rule sound_bind [OF sound_load_obj [OF assms]]) (simp add: sound_new_names)

section \<open>The environment\<close>

lemma sound_environment_get: "wf_heap h \<Longrightarrow> sound h (EnvironmentBinding_Get name) (\<lambda>x h'. cells h' x \<noteq> None)"
  unfolding EnvironmentBinding_Get_def by (rule sound_bind [OF sound_in_world]) (auto intro: sound_new_string)

lemma sound_environment_set: "wf_heap h \<Longrightarrow> sound h (EnvironmentBinding_Set name v) (\<lambda>_ _. True)"
  unfolding EnvironmentBinding_Set_def
  by (rule sound_bind [OF sound_load]) (auto intro!: sound_bind [OF sound_of_opt] sound_in_world sound_ret)

lemma sound_environment_names: "wf_heap h \<Longrightarrow> sound h EnvironmentBinding_GetPropertyNames (\<lambda>_ _. True)"
  unfolding EnvironmentBinding_GetPropertyNames_def
  by (rule sound_bind [OF sound_gets]) (auto intro: sound_new_names)

section \<open>Static lists\<close>

lemma with_length_kind [simp]:
  "fixed (with_length n c) = fixed c"
  "wf_class h (with_length n c) = wf_class h c"
  by (cases c; simp)+

lemma sound_get_length: "wf_heap h \<Longrightarrow> sound h (get_length this) (\<lambda>_ _. True)"
  unfolding get_length_def by (rule sound_bind [OF sound_load_obj]) (auto intro: sound_of_opt)

lemma sound_set_length: "wf_heap h \<Longrightarrow> sound h (set_length this n) (\<lambda>_ _. True)"
  unfolding set_length_def
  by (rule sound_bind [OF sound_load_obj])
    (auto intro!: sound_conseq [OF sound_store_obj] simp: wf_obj_def)

lemma sound_List_Append:
  "wf_heap h \<Longrightarrow> cells h v \<noteq> None \<Longrightarrow> sound h (StaticBoundList_Append this v) (\<lambda>_ _. True)"
  unfolding StaticBoundList_Append_def
  by (rule sound_bind [OF sound_get_length], assumption, rule sound_bind [OF sound_Static_Set])
    (auto intro!: sound_set_length dest: heap_le_cells)

lemma sound_List_SetAt:
  "wf_heap h \<Longrightarrow> cells h v \<noteq> None \<Longrightarrow> sound h (StaticBoundList_SetAt this i v) (\<lambda>_ _. True)"
  unfolding StaticBoundList_SetAt_def
  by (rule sound_bind [OF sound_Static_Set], assumption, assumption, rule sound_bind [OF sound_get_length])
    (auto intro!: sound_set_length sound_ret)

lemma sound_List_At: "wf_heap h \<Longrightarrow> sound h (StaticBoundList_At this i) (\<lambda>x h'. cells h' x \<noteq> None)"
  unfolding StaticBoundList_At_def by (rule sound_Static_Get)

lemma sound_remove_loop: "wf_heap h \<Longrightarrow> sound h (remove_loop n this i) (\<lambda>_ _. True)"
proof (induction n arbitrary: h i)
  case 0
  then show ?case by (simp add: sound_raise exn_ok_def)
next
  case (Suc n)
  show ?case
    unfolding remove_loop.simps
  proof (rule sound_bind [OF sound_get_length [OF Suc.prems]])
    fix len h1
    assume h1: "wf_heap h1"
    show "sound h1 (if i + 1 < len then bindM (StaticBoundList_At this (i + 1)) (\<lambda>v.
        bindM (StaticBoundList_SetAt this i v) (\<lambda>_. remove_loop n this (i + 1))) else retM ()) (\<lambda>_ _. True)"
      using h1 Suc.IH
      by (auto intro!: sound_ret sound_bind [OF sound_List_At] sound_bind [OF sound_List_SetAt])
  qed
qed

lemma sound_List_Remove: "wf_heap h \<Longrightarrow> sound h (StaticBoundList_Remove this i) (\<lambda>_ _. True)"
  unfolding StaticBoundList_Remove_def
  by (rule sound_bind [OF sound_get_length], assumption)
    (auto intro!: sound_ret sound_bind [OF sound_Static_UnSet] sound_bind [OF sound_remove_loop]
      sound_bind [OF sound_get_length] sound_bind [OF sound_set_length])

lemma sound_List_Set:
  "wf_heap h \<Longrightarrow> cells h v \<noteq> None \<Longrightarrow> sound h (StaticBoundList_Set this name v) (\<lambda>_ _. True)"
  unfolding StaticBoundList_Set_def
  by (auto intro!: sound_Static_Set sound_bind [OF sound_of_opt [where Q = "\<lambda>_ h'. cells h' v \<noteq> None"]]
      sound_List_SetAt)

lemma sound_List_Get: "wf_heap h \<Longrightarrow> sound h (StaticBoundList_Get this name) (\<lambda>x h'. cells h' x \<noteq> None)"
  unfolding StaticBoundList_Get_def by (rule sound_Static_Get)

lemma sound_List_Names: "wf_heap h \<Longrightarrow> sound h (StaticBoundList_GetPropertyNames this) (\<lambda>_ _. True)"
  unfolding StaticBoundList_GetPropertyNames_def by (rule sound_Static_Names)

text \<open>Reading from the store, with the rest of the computation.\<close>

lemma sound_gets_bind: "sound h (f (g h)) Q \<Longrightarrow> sound h (bindM (gets g) f) Q"
proof -
  assume "sound h (f (g h)) Q"
  moreover have "bindM (gets g) f h = f (g h) h" by (simp add: bindM_def gets_def)
  ultimately show ?thesis by (simp only: sound_def)
qed

lemma sound_opt_bind: "wf_heap h \<Longrightarrow> (\<And>x. p = Some x \<Longrightarrow> sound h (f x) Q) \<Longrightarrow> sound h (bindM (of_opt p) f) Q"
  by (cases p) (auto simp: of_opt_def sound_raise exn_ok_def)

lemma sound_load_bind:
  "wf_heap h \<Longrightarrow> (\<And>v. cells h a = Some v \<Longrightarrow> wf_cell h v \<Longrightarrow> sound h (f v) Q) \<Longrightarrow> sound h (bindM (load a) f) Q"
  by (rule sound_bind [OF sound_load]) auto

lemma sound_load_obj_bind:
  "wf_heap h \<Longrightarrow> (\<And>ob. objs h a = Some ob \<Longrightarrow> wf_obj h ob \<Longrightarrow> sound h (f ob) Q) \<Longrightarrow> sound h (bindM (load_obj a) f) Q"
  by (rule sound_bind [OF sound_load_obj]) auto

section \<open>The contract of the virtual functions\<close>

locale virtual_table =
  fixes V :: vt
  assumes v_get: "wf_heap h \<Longrightarrow> sound h (vGet V a name) (\<lambda>x h'. cells h' x \<noteq> None)"
    and v_set: "wf_heap h \<Longrightarrow> cells h x \<noteq> None \<Longrightarrow> sound h (vSet V a name x) (\<lambda>_ _. True)"
    and v_names: "wf_heap h \<Longrightarrow> sound h (vNames V a) (\<lambda>_ _. True)"
    and v_has: "wf_heap h \<Longrightarrow> sound h (vHas V a name) (\<lambda>_ _. True)"
    and v_call: "wf_heap h \<Longrightarrow> \<forall>x \<in> set args. cells h x \<noteq> None \<Longrightarrow>
      sound h (vCall V a args) (\<lambda>x h'. cells h' x \<noteq> None)"
    and v_size: "wf_heap h \<Longrightarrow> sound h (vSize V a) (\<lambda>_ _. True)"
    and v_at: "wf_heap h \<Longrightarrow> sound h (vAt V a i) (\<lambda>x h'. cells h' x \<noteq> None)"
    and v_append: "wf_heap h \<Longrightarrow> cells h x \<noteq> None \<Longrightarrow> sound h (vAppend V a x) (\<lambda>_ _. True)"
    and v_setat: "wf_heap h \<Longrightarrow> cells h x \<noteq> None \<Longrightarrow> sound h (vSetAt V a i x) (\<lambda>_ _. True)"
    and v_remove: "wf_heap h \<Longrightarrow> sound h (vRemove V a i) (\<lambda>_ _. True)"
begin

lemma sound_has_property: "wf_heap h \<Longrightarrow> sound h (KObject_HasProperty V a name) (\<lambda>_ _. True)"
  unfolding KObject_HasProperty_def by (rule sound_bind [OF v_names]) (auto intro: sound_ret)

lemma sound_SetNS_scope:
  "wf_heap h \<Longrightarrow> sound h (SetNS_scope V scope ts) (\<lambda>_ _. True)"
proof (induction ts arbitrary: h scope)
  case Nil
  then show ?case by (simp add: sound_ret)
next
  case (Cons t ts)
  show ?case
    unfolding SetNS_scope.simps
  proof (rule sound_bind [OF v_get [OF Cons.prems]], rule sound_bind [OF sound_load], assumption, goal_cases)
    case (1 a h1 v h2)
    have new: "sound h2 (bindM (new_object (StaticBoundObject_new ''StaticBoundObject'')) (\<lambda>so.
        bindM (new_value (Value_NewObject (Some so))) (\<lambda>nv.
        bindM (vSet V scope (c_str t) nv) (\<lambda>_. SetNS_scope V so ts)))) (\<lambda>_ _. True)"
      using 1(4)
      by (auto intro!: sound_bind [OF sound_new_object] sound_bind [OF sound_new_value]
          sound_bind [OF v_set] Cons.IH simp: StaticBoundObject_new_def wf_obj_def pmap_ok_def)
    have throw: "sound h2 (bindM (new_string ''Invalid namespace on setNS'') (\<lambda>e. raiseM (ThrownValue e)) :: addr M) (\<lambda>_ _. True)"
      using 1(4) by (auto intro!: sound_bind [OF sound_new_string] sound_raise simp: exn_ok_def)
    have step: "sound h2 (bindM (of_opt (Value_ToObject v)) (\<lambda>so. SetNS_scope V so ts)) (\<lambda>_ _. True)"
      using 1(4) by (auto intro!: sound_bind [OF sound_of_opt [where Q = "\<lambda>_ _. True"]] Cons.IH)
    from new throw step show ?case by (simp del: bindM_assoc)
  qed
qed

lemma sound_SetNS:
  assumes "wf_heap h" and "cells h v \<noteq> None"
  shows "sound h (KObject_SetNS V a name v) (\<lambda>_ _. True)"
  unfolding KObject_SetNS_def Let_def
  using assms
  by (auto intro!: sound_raise sound_bind [OF sound_SetNS_scope] v_set dest: heap_le_cells simp: exn_ok_def)

lemma sound_GetNS_loop: "wf_heap h \<Longrightarrow> sound h (GetNS_loop V s scope lst) (\<lambda>x h'. cells h' x \<noteq> None)"
proof (induction "Suc (length s) - lst" arbitrary: h scope lst rule: less_induct)
  case less
  show ?case
  proof (cases "find_first_of s ''.'' lst")
    case None
    with v_get [OF less.prems] show ?thesis by (simp add: GetNS_loop.simps [of V s scope lst])
  next
    case (Some pos)
    then have dec: "Suc (length s) - (pos + 1) < Suc (length s) - lst" by (auto simp: find_first_of_Some_iff)
    have "sound h (bindM (vGet V scope (c_str (take (pos - lst) (drop lst s)))) (\<lambda>current.
          bindM (load current) (\<lambda>v.
            if Value_IsObject v
            then bindM (of_opt (Value_ToObject v)) (\<lambda>so. GetNS_loop V s so (pos + 1))
            else retM Undefined_addr))) (\<lambda>x h'. cells h' x \<noteq> None)"
      by (rule sound_bind [OF v_get [OF less.prems]], rule sound_bind [OF sound_load], assumption)
        (auto intro!: sound_ret sound_bind [OF sound_of_opt [where Q = "\<lambda>_ _. True"]]
          less.hyps [OF dec, simplified] simp: wf_heap_Undefined [simplified])
    with Some show ?thesis by (simp add: GetNS_loop.simps [of V s scope lst])
  qed
qed

lemma sound_GetNS: "wf_heap h \<Longrightarrow> sound h (KObject_GetNS V a name) (\<lambda>x h'. cells h' x \<noteq> None)"
  unfolding KObject_GetNS_def by (rule sound_GetNS_loop)

lemma sound_CallNS:
  assumes "wf_heap h" and "\<forall>x \<in> set args. cells h x \<noteq> None"
  shows "sound h (KObject_CallNS V a name args) (\<lambda>x h'. cells h' x \<noteq> None)"
  unfolding KObject_CallNS_def
proof (rule sound_bind [OF sound_GetNS [OF assms(1)]])
  fix c h1
  assume h1: "wf_heap h1" "heap_le h h1" "cells h1 c \<noteq> None"
  then have "\<forall>x \<in> set args. cells h1 x \<noteq> None" using assms(2) heap_le_cells by blast
  with h1 wf_heap_Undefined [OF h1(1)] show "sound h1 (bindM (load c) (\<lambda>v.
       if Value_IsUndefined v then retM c
       else if \<not> Value_IsMethod v then retM Undefined_addr
       else bindM (gets (\<lambda>h. Value_ToMethod (isMethod h) v)) (\<lambda>p.
            bindM (of_opt p) (\<lambda>m. vCall V m args)))) (\<lambda>x h'. cells h' x \<noteq> None)"
    by (auto intro!: sound_load_bind sound_ret sound_gets_bind sound_opt_bind v_call)
qed

lemma sound_method_call:
  assumes "wf_heap h" and "\<forall>x \<in> set args. cells h x \<noteq> None"
  shows "sound h (bindM (vCall V m args) (\<lambda>_. retM ())) (\<lambda>_ _. True)"
  by (rule sound_bind [OF v_call [OF assms]]) (auto intro: sound_ret)

lemma sound_find_method:
  assumes raw: "\<And>h name. wf_heap h \<Longrightarrow> sound h (raw name) (\<lambda>x h'. cells h' x \<noteq> None)"
  shows "wf_heap h \<Longrightarrow> sound h (find_method raw lc ps) (\<lambda>_ _. True)"
proof (induction ps arbitrary: h)
  case Nil
  then show ?case by (simp add: sound_ret)
next
  case (Cons p ps)
  show ?case
    unfolding find_method.simps
    by (rule sound_bind [OF raw [OF Cons.prems]], rule sound_load_bind)
      (auto intro: sound_gets Cons.IH)
qed

lemma sound_accessor_find: "wf_heap h \<Longrightarrow> sound h (AccessorBoundObject_FindMethod V a name) (\<lambda>_ _. True)"
  unfolding AccessorBoundObject_FindMethod_def
  by (rule sound_bind [OF v_names]) (auto intro: sound_find_method sound_Static_Get)

lemma sound_accessor_has: "wf_heap h \<Longrightarrow> sound h (AccessorBoundObject_HasProperty V a name) (\<lambda>_ _. True)"
  unfolding AccessorBoundObject_HasProperty_def
  by (rule sound_bind [OF sound_has_property], assumption)
    (auto intro!: sound_ret sound_bind [OF sound_accessor_find])

lemma sound_accessor_set:
  assumes "wf_heap h" and "cells h v \<noteq> None"
  shows "sound h (AccessorBoundObject_Set V a name v) (\<lambda>_ _. True)"
  unfolding AccessorBoundObject_Set_def KMethod_Call1_def
  by (rule sound_bind [OF sound_accessor_find [OF assms(1)]])
    (auto intro!: sound_method_call sound_Static_Set dest: heap_le_None simp: assms(2) split: option.split)

lemma sound_accessor_get:
  assumes "wf_heap h"
  shows "sound h (AccessorBoundObject_Get V a name) (\<lambda>x h'. cells h' x \<noteq> None)"
  unfolding AccessorBoundObject_Get_def KMethod_Call_def
  by (rule sound_bind [OF sound_accessor_find [OF assms]], rule sound_bind [OF sound_accessor_find], assumption)
    (auto intro!: v_call sound_Static_Get split: option.split)

lemma accessor_method_eq:
  "AccessorBoundMethod_FindMethod V = AccessorBoundObject_FindMethod V"
  "AccessorBoundMethod_HasProperty V = AccessorBoundObject_HasProperty V"
  "AccessorBoundMethod_Set V = AccessorBoundObject_Set V"
  "AccessorBoundMethod_Get V = AccessorBoundObject_Get V"
proof -
  show find: "AccessorBoundMethod_FindMethod V = AccessorBoundObject_FindMethod V"
    by (simp add: fun_eq_iff AccessorBoundMethod_FindMethod_def AccessorBoundObject_FindMethod_def)
  show "AccessorBoundMethod_HasProperty V = AccessorBoundObject_HasProperty V"
    "AccessorBoundMethod_Set V = AccessorBoundObject_Set V"
    "AccessorBoundMethod_Get V = AccessorBoundObject_Get V"
    by (intro ext, simp only: find AccessorBoundMethod_HasProperty_def AccessorBoundObject_HasProperty_def
        AccessorBoundMethod_Set_def AccessorBoundObject_Set_def
        AccessorBoundMethod_Get_def AccessorBoundObject_Get_def)+
qed

lemma sound_accessor_list_set:
  assumes "wf_heap h" and "cells h v \<noteq> None"
  shows "sound h (AccessorBoundList_Set V a name v) (\<lambda>_ _. True)"
  unfolding AccessorBoundList_Set_def
  by (rule sound_bind [OF sound_List_Get [OF assms(1)]], rule sound_load_bind)
    (auto intro!: sound_gets_bind sound_opt_bind sound_method_call sound_List_Set dest: heap_le_None simp: assms(2))

lemma sound_accessor_list_get:
  assumes "wf_heap h"
  shows "sound h (AccessorBoundList_Get V a name) (\<lambda>x h'. cells h' x \<noteq> None)"
  unfolding AccessorBoundList_Get_def
  by (rule sound_bind [OF sound_List_Get [OF assms]], rule sound_load_bind)
    (auto intro!: sound_gets_bind sound_opt_bind v_call sound_List_Get)

lemma sound_delegate_get:
  "wf_heap h \<Longrightarrow> sound h (DelegateStaticBoundObject_Get V g l name) (\<lambda>x h'. cells h' x \<noteq> None)"
  unfolding DelegateStaticBoundObject_Get_def
  by (rule sound_bind [OF v_get], assumption, rule sound_load_bind) (auto intro!: sound_ret v_get)

lemma sound_delegate_set:
  assumes "wf_heap h" and "cells h v \<noteq> None"
  shows "sound h (DelegateStaticBoundObject_Set V g l name v) (\<lambda>_ _. True)"
  unfolding DelegateStaticBoundObject_Set_def
  by (rule sound_bind [OF v_set [OF assms]]) (auto intro!: v_set dest: heap_le_None simp: assms(2))

lemma sound_delegate_has:
  "wf_heap h \<Longrightarrow> sound h (DelegateStaticBoundObject_HasProperty V g l name) (\<lambda>_ _. True)"
  unfolding DelegateStaticBoundObject_HasProperty_def
  by (rule sound_bind [OF v_has]) (auto intro!: sound_ret v_has)

lemma sound_delegate_names:
  "wf_heap h \<Longrightarrow> sound h (DelegateStaticBoundObject_GetPropertyNames V g l) (\<lambda>_ _. True)"
  unfolding DelegateStaticBoundObject_GetPropertyNames_def
  by (rule sound_bind [OF v_names], assumption, rule sound_bind [OF v_names]) (auto intro!: sound_ret)

lemma sound_args_at:
  "wf_heap h \<Longrightarrow> \<forall>x \<in> set args. cells h x \<noteq> None \<Longrightarrow> sound h (args_at args i) (\<lambda>x h'. h' = h \<and> cells h x \<noteq> None)"
  by (auto simp: args_at_def exn_ok_def intro!: sound_ret sound_raise)

lemma sound_scope_call:
  assumes "wf_heap h" and "\<forall>x \<in> set args. cells h x \<noteq> None"
  shows "sound h (ScopeMethodDelegate_Call V ty g s args) (\<lambda>x h'. cells h' x \<noteq> None)"
  unfolding ScopeMethodDelegate_Call_def Let_def
proof (rule sound_bind [OF sound_args_at [OF assms]], rule sound_load_bind, assumption,
    rule sound_opt_bind, assumption, goal_cases)
  case (1 x h' v key)
  then have h': "h' = h" by simp
  show ?case
    unfolding h'
    by (auto intro!: v_get assms sound_bind [OF sound_args_at [OF assms]] sound_bind [OF sound_SetNS] sound_ret
        wf_heap_Undefined)
qed

end

section \<open>Profiling\<close>

lemma wf_heap_stream: "wf_heap (h\<lparr>stream := s\<rparr>) = wf_heap h" "heap_le h (h\<lparr>stream := s\<rparr>)"
proof -
  have "isList (h\<lparr>stream := s\<rparr>) = isList h" "isMethod (h\<lparr>stream := s\<rparr>) = isMethod h"
    by (simp_all add: isList_def isMethod_def fun_eq_iff)
  moreover from this have "wf_class (h\<lparr>stream := s\<rparr>) c = wf_class h c" for c
    by (cases "(h, c)" rule: wf_class.cases) simp_all
  ultimately show "wf_heap (h\<lparr>stream := s\<rparr>) = wf_heap h"
    by (simp add: wf_heap_def wf_cell_def wf_obj_def wf_listeners_def wf_jobs_def)
  show "heap_le h (h\<lparr>stream := s\<rparr>)" by (simp add: heap_le_def)
qed

lemma sound_Log: "wf_heap h \<Longrightarrow> sound h (ProfiledBoundObject_Log ev name) (\<lambda>_ _. True)"
  by (cases "stream h") (simp_all add: sound_def ProfiledBoundObject_Log_def wf_heap_stream exn_ok_def)

lemma sound_KObject_type: "wf_heap h \<Longrightarrow> sound h (KObject_type a) (\<lambda>_ h'. h' = h \<and> objs h a \<noteq> None)"
  unfolding KObject_type_def
  by (rule sound_load_obj_bind) (auto intro!: sound_ret split: kclass.split)

lemma sound_wrap_new:
  assumes "wf_heap h" and ob: "\<And>h' t. heap_le h h' \<Longrightarrow> wf_obj h' \<lparr>cls = c, otype = t, properties = []\<rparr>"
    and new: "\<And>h' w. wf_heap h' \<Longrightarrow> (\<exists>t. objs h' w = Some \<lparr>cls = c, otype = t, properties = []\<rparr>) \<Longrightarrow> wf_cell h' (mk w)"
  shows "sound h (bindM (KObject_type d) (\<lambda>t. bindM (new_object \<lparr>cls = c, otype = t, properties = []\<rparr>)
     (\<lambda>w. new_value (mk w)))) (\<lambda>x h'. cells h' x \<noteq> None)"
proof (rule sound_bind [OF sound_KObject_type [OF assms(1)]])
  fix t h1
  assume h1: "wf_heap h1" "heap_le h h1" "h1 = h \<and> objs h d \<noteq> None"
  show "sound h1 (bindM (new_object \<lparr>cls = c, otype = t, properties = []\<rparr>) (\<lambda>w. new_value (mk w)))
      (\<lambda>x h'. cells h' x \<noteq> None)"
  proof (rule sound_bind [OF sound_new_object [OF h1(1) ob [OF h1(2)]]])
    fix w h2
    assume h2: "wf_heap h2" "objs h2 w = Some \<lparr>cls = c, otype = t, properties = []\<rparr>"
    then have "wf_cell h2 (mk w)" using new by blast
    then show "sound h2 (new_value (mk w)) (\<lambda>x h'. cells h' x \<noteq> None)"
      using sound_conseq [OF sound_new_value [OF h2(1)]] by fastforce
  qed
qed

lemma sound_Wrap:
  assumes "wf_heap h" and a: "cells h a \<noteq> None"
  shows "sound h (ProfiledBoundObject_Wrap a ty) (\<lambda>x h'. cells h' x \<noteq> None)"
  unfolding ProfiledBoundObject_Wrap_def
proof (rule sound_load_bind [OF assms(1)], rule sound_gets_bind)
  fix v
  assume v: "cells h a = Some v" "wf_cell h v"
  have meth: "sound h (bindM (KObject_type d) (\<lambda>t. bindM (new_object \<lparr>cls = CProfiledBoundMethod d ty, otype = t,
      properties = []\<rparr>) (\<lambda>w. new_value (Value_NewMethod (Some w))))) (\<lambda>x h'. cells h' x \<noteq> None)"
    if "isMethod h d" for d
    using that by (intro sound_wrap_new [OF assms(1)])
      (auto simp: wf_obj_def pmap_ok_def isMethod_def [of _ "_ :: addr"] dest: heap_le_isMethod)
  have lst: "sound h (bindM (KObject_type d) (\<lambda>t. bindM (new_object \<lparr>cls = CProfiledBoundList d, otype = t,
      properties = []\<rparr>) (\<lambda>w. new_value (Value_NewList (Some w))))) (\<lambda>x h'. cells h' x \<noteq> None)"
    if "isList h d" for d
    using that by (intro sound_wrap_new [OF assms(1)])
      (auto simp: wf_obj_def pmap_ok_def isList_def [of _ "_ :: addr"] dest: heap_le_isList)
  have obj: "sound h (bindM (KObject_type d) (\<lambda>t. bindM (new_object \<lparr>cls = CProfiledBoundObject d, otype = t,
      properties = []\<rparr>) (\<lambda>w. new_value (Value_NewObject (Some w))))) (\<lambda>x h'. cells h' x \<noteq> None)"
    if "objs h d \<noteq> None" for d
    using that by (intro sound_wrap_new [OF assms(1)]) (auto simp: wf_obj_def pmap_ok_def dest: heap_le_objs)
  show "sound h (if ProfiledBoundObject_AlreadyWrapped h v then retM a
     else if Value_IsMethod v then
       bindM (gets (\<lambda>h. Value_ToMethod (isMethod h) v)) (\<lambda>p. bindM (of_opt p) (\<lambda>toWrap.
       bindM (KObject_type toWrap) (\<lambda>t.
       bindM (new_object \<lparr>cls = CProfiledBoundMethod toWrap ty, otype = t, properties = []\<rparr>) (\<lambda>w.
         new_value (Value_NewMethod (Some w))))))
     else if Value_IsList v then
       bindM (gets (\<lambda>h. Value_ToList (isList h) v)) (\<lambda>p. bindM (of_opt p) (\<lambda>toWrap.
       bindM (KObject_type toWrap) (\<lambda>t.
       bindM (new_object \<lparr>cls = CProfiledBoundList toWrap, otype = t, properties = []\<rparr>) (\<lambda>w.
         new_value (Value_NewList (Some w))))))
     else if Value_IsObject v then
       bindM (of_opt (Value_ToObject v)) (\<lambda>toWrap.
       bindM (KObject_type toWrap) (\<lambda>t.
       bindM (new_object \<lparr>cls = CProfiledBoundObject toWrap, otype = t, properties = []\<rparr>) (\<lambda>w.
         new_value (Value_NewObject (Some w)))))
     else retM a) (\<lambda>x h'. cells h' x \<noteq> None)"
    using a assms(1) v
    by (auto intro!: sound_ret sound_gets_bind sound_opt_bind meth lst obj
        dest: ToMethod_isMethod ToList_isList wf_cell_ToObject)
qed

context virtual_table
begin

lemma sound_subtype: "wf_heap h \<Longrightarrow> sound h (ProfiledBoundObject_GetSubType a name) (\<lambda>_ _. True)"
  unfolding ProfiledBoundObject_GetSubType_def
  by (rule sound_bind [OF sound_KObject_type]) (auto intro!: sound_ret)

lemma sound_profiled_set:
  assumes "wf_heap h" and "cells h v \<noteq> None"
  shows "sound h (ProfiledBoundObject_Set V a d name v) (\<lambda>_ _. True)"
  unfolding ProfiledBoundObject_Set_def
  by (rule sound_bind [OF sound_subtype [OF assms(1)]], rule sound_bind [OF sound_Wrap], assumption,
      erule heap_le_cells, rule assms(2), rule sound_bind [OF v_set]) (auto intro: sound_Log)

lemma sound_profiled_get:
  assumes "wf_heap h"
  shows "sound h (ProfiledBoundObject_Get V a d name) (\<lambda>x h'. cells h' x \<noteq> None)"
  unfolding ProfiledBoundObject_Get_def
  by (rule sound_bind [OF sound_subtype [OF assms]], rule sound_bind [OF v_get], assumption,
      rule sound_bind [OF sound_Log], assumption) (auto intro!: sound_Wrap dest: heap_le_None)

lemma sound_profiled_call:
  assumes "wf_heap h" and "\<forall>x \<in> set args. cells h x \<noteq> None"
  shows "sound h (ProfiledBoundMethod_Call V m ty args) (\<lambda>x h'. cells h' x \<noteq> None)"
proof (cases "vCall V m args h")
  case (Pair r h1)
  have call: "sound h (vCall V m args) (\<lambda>x h'. cells h' x \<noteq> None)" by (rule v_call [OF assms])
  then have h1: "wf_heap h1" "heap_le h h1" using Pair by (simp_all add: sound_def)
  have "sound h1 (case r of Inl e \<Rightarrow> bindM (ProfiledBoundObject_Log ''call'' ty) (\<lambda>_. raiseM e)
      | Inr v \<Rightarrow> bindM (ProfiledBoundObject_Log ''call'' ty) (\<lambda>_. ProfiledBoundObject_Wrap v ty))
      (\<lambda>x h'. cells h' x \<noteq> None)"
  proof (cases r)
    case (Inl e)
    with call Pair have "exn_ok e h1" by (simp add: sound_def)
    then have "exn_ok e h2" if "heap_le h1 h2" for h2
      using that by (auto simp: exn_ok_def dest: heap_le_None split: exn.splits)
    with Inl show ?thesis by (auto intro!: sound_bind [OF sound_Log [OF h1(1)]] sound_raise)
  next
    case (Inr v)
    with call Pair have "cells h1 v \<noteq> None" by (simp add: sound_def)
    with Inr show ?thesis
      by (auto intro!: sound_bind [OF sound_Log [OF h1(1)]] sound_Wrap dest: heap_le_None)
  qed
  moreover have "ProfiledBoundMethod_Call V m ty args h =
    (case r of Inl e \<Rightarrow> bindM (ProfiledBoundObject_Log ''call'' ty) (\<lambda>_. raiseM e)
      | Inr v \<Rightarrow> bindM (ProfiledBoundObject_Log ''call'' ty) (\<lambda>_. ProfiledBoundObject_Wrap v ty)) h1"
    using Pair by (cases r) (simp_all add: ProfiledBoundMethod_Call_def)
  ultimately show ?thesis
    using heap_le_trans [OF h1(2)] by (simp only: sound_def)
qed

end

section \<open>The dispatch table meets the contract\<close>

text \<open>What a callback must do: given a table that keeps the invariant, keep it.\<close>

locale native_code =
  fixes N :: natives and F :: fnptrs
  assumes native: "virtual_table V \<Longrightarrow> wf_heap h \<Longrightarrow> \<forall>x \<in> set args. cells h x \<noteq> None \<Longrightarrow>
      cells h r \<noteq> None \<Longrightarrow> sound h (N c V args r) (\<lambda>_ _. True)"
    and fnptr: "virtual_table V \<Longrightarrow> wf_heap h \<Longrightarrow> \<forall>x \<in> set args. cells h x \<noteq> None \<Longrightarrow>
      sound h (F i V args) (\<lambda>x h'. cells h' x \<noteq> None)"
begin

lemma sound_static_call:
  assumes "virtual_table V" and "wf_heap h" and "\<forall>x \<in> set args. cells h x \<noteq> None"
  shows "sound h (StaticBoundMethod_Call N V cb args) (\<lambda>x h'. cells h' x \<noteq> None)"
  unfolding StaticBoundMethod_Call_def
proof (rule sound_bind [OF sound_new_value [OF assms(2)]], simp)
  fix tv h1
  assume h1: "wf_heap h1" "heap_le h h1" "cells h1 tv = Some Value_NewUndefined"
  then have args: "\<forall>x \<in> set args. cells h1 x \<noteq> None" using assms(3) heap_le_cells by blast
  show "sound h1 (case cb of None \<Rightarrow> retM tv | Some c \<Rightarrow> bindM (N c V args tv) (\<lambda>_. retM tv))
      (\<lambda>x h'. cells h' x \<noteq> None)"
  proof (cases cb)
    case None
    with h1 show ?thesis by (simp add: sound_ret)
  next
    case (Some c)
    have "sound h1 (bindM (N c V args tv) (\<lambda>_. retM tv)) (\<lambda>x h'. cells h' x \<noteq> None)"
      by (rule sound_bind [OF native [OF assms(1) h1(1) args]])
        (use h1(3) in \<open>auto intro!: sound_ret dest: heap_le_None\<close>)
    with Some show ?thesis by simp
  qed
qed

lemma sound_dispatch_list:
  assumes "wf_heap h" and "\<And>a. sound h (f a) Q" and "\<And>a. sound h (g a) Q" and "\<And>a. sound h (k a) Q"
  shows "sound h (dispatch_list f g k this) Q"
  unfolding dispatch_list_def
  by (rule sound_load_obj_bind [OF assms(1)])
    (auto intro!: assms sound_raise simp: exn_ok_def split: kclass.split)

lemma table_step:
  assumes "virtual_table V"
  shows "virtual_table (\<lparr>vGet = dispatch_Get V, vSet = dispatch_Set V, vNames = dispatch_Names V, vHas = dispatch_Has V,
      vCall = dispatch_Call N F V, vSize = dispatch_list StaticBoundList_Size (ProfiledBoundList_Size V) (KListWrapper_Size V),
      vAt = (\<lambda>this i. dispatch_list (\<lambda>l. StaticBoundList_At l i) (\<lambda>d. ProfiledBoundList_At V d i) (\<lambda>d. KListWrapper_At V d i) this),
      vAppend = (\<lambda>this v. dispatch_list (\<lambda>l. StaticBoundList_Append l v) (\<lambda>d. ProfiledBoundList_Append V d v) (\<lambda>d. KListWrapper_Append V d v) this),
      vSetAt = (\<lambda>this i v. dispatch_list (\<lambda>l. StaticBoundList_SetAt l i v) (\<lambda>d. ProfiledBoundList_SetAt V d i v) (\<lambda>d. KListWrapper_SetAt V d i v) this),
      vRemove = (\<lambda>this i. dispatch_list (\<lambda>l. StaticBoundList_Remove l i) (\<lambda>d. ProfiledBoundList_Remove V d i) (\<lambda>d. KListWrapper_Remove V d i) this)\<rparr>)"
proof (unfold_locales, goal_cases)
  case (1 h a name)
  then show ?case
    unfolding vt.simps forward_defs wrapper_defs dispatch_Get_def forward_defs using virtual_table.accessor_method_eq [OF assms]
    by (intro sound_load_obj_bind)
      (auto intro!: sound_Static_Get sound_List_Get virtual_table.sound_accessor_get [OF assms]
        virtual_table.sound_accessor_list_get [OF assms] virtual_table.sound_delegate_get [OF assms]
        virtual_table.sound_profiled_get [OF assms] virtual_table.v_get [OF assms] sound_environment_get split: kclass.split)
next
  case (2 h x a name)
  then show ?case
    unfolding vt.simps forward_defs wrapper_defs dispatch_Set_def forward_defs using virtual_table.accessor_method_eq [OF assms]
    by (intro sound_load_obj_bind)
      (auto intro!: sound_Static_Set sound_List_Set virtual_table.sound_accessor_set [OF assms]
        virtual_table.sound_accessor_list_set [OF assms] virtual_table.sound_delegate_set [OF assms]
        virtual_table.sound_profiled_set [OF assms] virtual_table.v_set [OF assms] sound_environment_set split: kclass.split)
next
  case (3 h a)
  then show ?case
    unfolding vt.simps forward_defs wrapper_defs dispatch_Names_def forward_defs
    by (intro sound_load_obj_bind)
      (auto intro!: sound_Static_Names sound_List_Names virtual_table.sound_delegate_names [OF assms]
        virtual_table.v_names [OF assms] sound_environment_names split: kclass.split)
next
  case (4 h a name)
  then show ?case
    unfolding vt.simps forward_defs wrapper_defs dispatch_Has_def forward_defs using virtual_table.accessor_method_eq [OF assms]
    by (intro sound_load_obj_bind)
      (auto intro!: virtual_table.sound_has_property [OF assms] virtual_table.sound_accessor_has [OF assms]
        virtual_table.sound_delegate_has [OF assms] virtual_table.v_has [OF assms] split: kclass.split)
next
  case (5 h args a)
  then show ?case
    unfolding vt.simps forward_defs wrapper_defs dispatch_Call_def KFunctionPtrMethod_Call_def
    by (intro sound_load_obj_bind)
      (auto intro!: sound_static_call [OF assms] fnptr [OF assms] virtual_table.sound_scope_call [OF assms]
        virtual_table.sound_profiled_call [OF assms] virtual_table.v_call [OF assms] sound_raise simp: exn_ok_def split: kclass.split)
next
  case (6 h a)
  then show ?case unfolding vt.simps forward_defs wrapper_defs StaticBoundList_Size_def
    by (intro sound_dispatch_list sound_get_length virtual_table.v_size [OF assms])
next
  case (7 h a i)
  then show ?case unfolding vt.simps forward_defs wrapper_defs
    by (intro sound_dispatch_list sound_List_At virtual_table.v_at [OF assms])
next
  case (8 h x a)
  then show ?case unfolding vt.simps forward_defs wrapper_defs
    by (intro sound_dispatch_list sound_List_Append virtual_table.v_append [OF assms])
next
  case (9 h x a i)
  then show ?case unfolding vt.simps forward_defs wrapper_defs
    by (intro sound_dispatch_list sound_List_SetAt virtual_table.v_setat [OF assms])
next
  case (10 h a i)
  then show ?case unfolding vt.simps forward_defs wrapper_defs
    by (intro sound_dispatch_list sound_List_Remove virtual_table.v_remove [OF assms])
qed

lemma table_zero: "virtual_table (vtable 0 N F)"
  by unfold_locales (simp_all add: sound_raise exn_ok_def)

end

sublocale native_code \<subseteq> table: virtual_table "vtable n N F" for n
proof (induction n)
  case 0
  show ?case by (rule table_zero)
next
  case (Suc n)
  then show ?case using table_step [OF Suc] by (simp add: Let_def)
qed

end
