(* ===== verification/Kroll_Namespace.thy ===== *)
theory Kroll_Namespace
  imports Kroll_ObjectLaws
begin

text \<open>
  Namespaces of plain objects: \<^verbatim>\<open>SetNS\<close> creates the objects a dotted name needs and binds the last
  component, \<^verbatim>\<open>GetNS\<close> follows a dotted name.  The laws are stated for stores in which every object
  is a \<^verbatim>\<open>StaticBoundObject\<close>, the class that the program's root namespaces are made of.
\<close>

section \<open>Running the static object's functions\<close>

lemma static_Get_run:
  "objs h a = Some ob \<Longrightarrow> StaticBoundObject_Get a name h =
     (Inr (case pmap_find name (properties ob) of Some x \<Rightarrow> x | None \<Rightarrow> next_addr h),
      h\<lparr>cells := (cells h)(next_addr h \<mapsto> Value_NewUndefined), next_addr := Suc (next_addr h)\<rparr>)"
  by (simp add: StaticBoundObject_Get_def new_value_def load_obj_def M_defs split: option.split)

lemma static_Set_run:
  "objs h a = Some ob \<Longrightarrow> pmap_ok (properties ob) \<Longrightarrow> StaticBoundObject_Set a name v h =
     (Inr (), h\<lparr>objs := (objs h)(a \<mapsto> ob\<lparr>properties := pmap_insert name v (properties ob)\<rparr>)\<rparr>)"
  using pmap_insert_erase [of "properties ob" name v]
  by (auto simp: StaticBoundObject_Set_def StaticBoundObject_UnSet_def load_obj_def store_obj_def M_defs)

lemma static_UnSet_run:
  assumes "objs h a = Some ob" and "pmap_ok (properties ob)"
  shows "StaticBoundObject_UnSet a name h =
     (Inr (), h\<lparr>objs := (objs h)(a \<mapsto> ob\<lparr>properties := pmap_erase name (properties ob)\<rparr>)\<rparr>)"
proof (cases "pmap_find name (properties ob)")
  case None
  then have "\<forall>q \<in> set (properties ob). name \<noteq> fst q"
    using pmap_find_keys [of name "properties ob"] by force
  then have "pmap_erase name (properties ob) = properties ob" by (rule pmap_erase_absent)
  with None assms show ?thesis
    by (simp add: StaticBoundObject_UnSet_def load_obj_def M_defs fun_upd_idem)
next
  case (Some x)
  with assms show ?thesis by (simp add: StaticBoundObject_UnSet_def load_obj_def store_obj_def M_defs)
qed

lemma vtable_static_Get:
  "objs h a = Some ob \<Longrightarrow> cls ob = CStaticBoundObject \<Longrightarrow>
     vGet (vtable (Suc n) N F) a name h = StaticBoundObject_Get a name h"
  by (simp add: Let_def dispatch_Get_def load_obj_def bindM_def)

lemma vtable_static_Set:
  "objs h a = Some ob \<Longrightarrow> cls ob = CStaticBoundObject \<Longrightarrow>
     vSet (vtable (Suc n) N F) a name v h = StaticBoundObject_Set a name v h"
  by (simp add: Let_def dispatch_Set_def load_obj_def bindM_def)

section \<open>Plain stores\<close>

definition plain :: "heap \<Rightarrow> bool" where
  "plain h \<longleftrightarrow> wf_heap h \<and> (\<forall>a ob. objs h a = Some ob \<longrightarrow> cls ob = CStaticBoundObject)"

text \<open>An edge: the property \<open>t\<close> of the object \<open>a\<close> holds the object \<open>b\<close>.\<close>

definition obj_edge :: "heap \<Rightarrow> addr \<Rightarrow> string \<Rightarrow> addr \<Rightarrow> bool" where
  "obj_edge h a t b \<longleftrightarrow> (\<exists>ob x v. objs h a = Some ob \<and> pmap_find t (properties ob) = Some x
     \<and> cells h x = Some v \<and> Value_IsObject v \<and> Value_ToObject v = Some b)"

primrec ns_path :: "heap \<Rightarrow> addr \<Rightarrow> string list \<Rightarrow> addr \<Rightarrow> bool" where
  "ns_path h a [] b \<longleftrightarrow> a = b"
| "ns_path h a (t # ts) b \<longleftrightarrow> (\<exists>c. obj_edge h a t c \<and> ns_path h c ts b)"

definition edges_kept :: "string set \<Rightarrow> heap \<Rightarrow> heap \<Rightarrow> bool" where
  "edges_kept T h h' \<longleftrightarrow> (\<forall>a t b. t \<in> T \<longrightarrow> obj_edge h a t b \<longrightarrow> obj_edge h' a t b)"

lemma ns_path_kept: "edges_kept T h h' \<Longrightarrow> set ts \<subseteq> T \<Longrightarrow> ns_path h a ts b \<Longrightarrow> ns_path h' a ts b"
  by (induction ts arbitrary: a) (auto simp: edges_kept_def, blast)

lemma edges_kept_refl: "edges_kept T h h"
  by (simp add: edges_kept_def)

lemma edges_kept_trans: "edges_kept T h h1 \<Longrightarrow> edges_kept T h1 h2 \<Longrightarrow> edges_kept T h h2"
  by (simp add: edges_kept_def)

lemma plain_no_method_list:
  "plain h \<Longrightarrow> cells h x = Some v \<Longrightarrow> \<not> Value_IsMethod v \<and> \<not> Value_IsList v"
proof -
  assume h: "plain h" "cells h x = Some v"
  then have "wf_value (isList h) (isMethod h) v" by (auto simp: plain_def dest: wf_heap_cell simp: wf_cell_def)
  moreover have "\<not> isMethod h a" "\<not> isList h a" for a
    using h(1) by (auto simp: plain_def isMethod_def isList_def split: option.splits)
  ultimately show ?thesis by (auto simp: wf_value_def Value_Is_defs)
qed

lemma plain_object:
  "plain h \<Longrightarrow> cells h x = Some v \<Longrightarrow> Value_IsObject v \<Longrightarrow> \<exists>b ob. Value_ToObject v = Some b \<and> objs h b = Some ob"
proof -
  assume h: "plain h" "cells h x = Some v" "Value_IsObject v"
  then have "wf_cell h v" by (auto simp: plain_def dest: wf_heap_cell)
  with h(3) show ?thesis
    by (cases "objectValue v")
      (auto simp: wf_cell_def wf_value_def Value_Is_defs Value_To_defs not_None_eq)
qed

text \<open>Adding cells and empty objects keeps a store plain and keeps its edges.\<close>

lemma plain_new_value:
  assumes "plain h" and "wf_cell h v"
  defines "h' \<equiv> h\<lparr>cells := (cells h)(next_addr h \<mapsto> v), next_addr := Suc (next_addr h)\<rparr>"
  shows "plain h'" and "heap_le h h'" and "edges_kept T h h'"
proof -
  have h: "wf_heap h" using assms(1) by (simp add: plain_def)
  then have "sound h (new_value v) (\<lambda>x h'. cells h' x = Some v)" using assms(2) by (rule sound_new_value)
  then show "plain h'" and "heap_le h h'"
    using assms(1) by (simp_all add: sound_def new_value_def plain_def h'_def)
  show "edges_kept T h h'"
    using wf_heap_fresh(1) [OF h] by (fastforce simp: edges_kept_def obj_edge_def h'_def)
qed

lemma plain_new_object:
  fixes ty :: string
  assumes "plain h"
  defines "h' \<equiv> h\<lparr>objs := (objs h)(next_addr h \<mapsto> StaticBoundObject_new ty), next_addr := Suc (next_addr h)\<rparr>"
  shows "plain h'" and "heap_le h h'" and "edges_kept T h h'"
proof -
  have h: "wf_heap h" using assms(1) by (simp add: plain_def)
  have "wf_obj h (StaticBoundObject_new ty)" by (simp add: wf_obj_def StaticBoundObject_new_def pmap_ok_def)
  then have "sound h (new_object (StaticBoundObject_new ty)) (\<lambda>x h'. objs h' x = Some (StaticBoundObject_new ty))"
    by (rule sound_new_object [OF h])
  then show "plain h'" and "heap_le h h'"
    using assms(1) by (simp_all add: sound_def new_object_def plain_def h'_def) (simp add: StaticBoundObject_new_def)
  show "edges_kept T h h'"
    using wf_heap_fresh(2) [OF h] by (fastforce simp: edges_kept_def obj_edge_def h'_def)
qed

text \<open>Binding a name of an object: the edges of every other name stay, and so do all edges when
  the name did not hold an object.\<close>

lemma plain_insert:
  fixes name :: string
  assumes "plain h" and ob: "objs h a = Some ob" and v: "cells h v \<noteq> None"
  defines "h' \<equiv> h\<lparr>objs := (objs h)(a \<mapsto> ob\<lparr>properties := pmap_insert name v (properties ob)\<rparr>)\<rparr>"
  shows "plain h'" and "heap_le h h'" and "name \<notin> T \<or> (\<forall>b. \<not> obj_edge h a name b) \<Longrightarrow> edges_kept T h h'"
    and "StaticBoundObject_Set a name v h = (Inr (), h')"
proof -
  have h: "wf_heap h" "cls ob = CStaticBoundObject" using assms(1,2) by (auto simp: plain_def)
  have ok: "pmap_ok (properties ob)" using wf_heap_obj [OF h(1) ob] by (simp add: wf_obj_def)
  show run: "StaticBoundObject_Set a name v h = (Inr (), h')" using static_Set_run [OF ob ok] by (simp add: h'_def)
  have "sound h (StaticBoundObject_Set a name v) (\<lambda>_ _. True)" using h(1) v by (rule sound_Static_Set)
  then have "wf_heap h' \<and> heap_le h h'" using run by (simp add: sound_def)
  then show "plain h'" and "heap_le h h'" using assms(1) h(2) by (auto simp: plain_def h'_def)
  assume fresh: "name \<notin> T \<or> (\<forall>b. \<not> obj_edge h a name b)"
  show "edges_kept T h h'"
    unfolding edges_kept_def
  proof (intro allI impI)
    fix c t b
    assume t: "t \<in> T" and e: "obj_edge h c t b"
    show "obj_edge h' c t b"
    proof (cases "c = a")
      case True
      with e fresh t have "t \<noteq> name" by auto
      with e True ob ok show ?thesis by (auto simp: obj_edge_def h'_def pmap_find_insert)
    next
      case False
      with e show ?thesis by (auto simp: obj_edge_def h'_def)
    qed
  qed
qed

section \<open>SetNS\<close>

text \<open>The value of a property in the store, and whether a path of property names meets a value that is
  defined and is no object, where \<^verbatim>\<open>SetNS\<close> has to give up; a path that ends early is not blocked.\<close>

definition property_value :: "heap \<Rightarrow> addr \<Rightarrow> string \<Rightarrow> Value option" where
  "property_value h a t = Option.bind (objs h a) (\<lambda>ob. Option.bind (pmap_find t (properties ob)) (cells h))"

primrec ns_blocked :: "heap \<Rightarrow> addr \<Rightarrow> string list \<Rightarrow> bool" where
  "ns_blocked h a [] = False"
| "ns_blocked h a (t # ts) =
     (case property_value h a t of
        None \<Rightarrow> False
      | Some v \<Rightarrow>
          if Value_IsUndefined v then False
          else if Value_IsObject v then (case Value_ToObject v of Some b \<Rightarrow> ns_blocked h b ts | None \<Rightarrow> False)
          else True)"

lemma property_value_new_value:
  assumes "wf_heap h"
  shows "property_value (h\<lparr>cells := (cells h)(next_addr h \<mapsto> u), next_addr := k\<rparr>) a t = property_value h a t"
proof (cases "objs h a")
  case (Some ob)
  have "pmap_find t (properties ob) \<noteq> Some (next_addr h)"
    using wf_heap_property [OF assms Some, of t] wf_heap_fresh(1) [OF assms] by auto
  then show ?thesis using Some by (cases "pmap_find t (properties ob)") (auto simp: property_value_def)
qed (simp add: property_value_def)

lemma ns_blocked_new_value:
  "wf_heap h \<Longrightarrow> ns_blocked (h\<lparr>cells := (cells h)(next_addr h \<mapsto> u), next_addr := k\<rparr>) a ts = ns_blocked h a ts"
  by (induction ts arbitrary: a) (simp_all add: property_value_new_value split: option.split)

lemma ns_blocked_new_object:
  "objs h a = Some (StaticBoundObject_new ty) \<Longrightarrow> \<not> ns_blocked h a ts"
  by (cases ts) (simp_all add: property_value_def StaticBoundObject_new_def)

definition invalid_namespace :: "exn \<Rightarrow> heap \<Rightarrow> bool" where
  "invalid_namespace e h \<longleftrightarrow> (\<exists>x v. e = ThrownValue x \<and> cells h x = Some v
     \<and> denotes v = AString ''Invalid namespace on setNS'')"

lemma SetNS_throw_run:
  assumes "plain h"
  shows "\<exists>e h'. bindM (new_string ''Invalid namespace on setNS'') (\<lambda>e. raiseM (ThrownValue e) :: addr M) h = (Inl e, h')
    \<and> plain h' \<and> heap_le h h' \<and> edges_kept T h h' \<and> invalid_namespace e h'"
proof -
  define h1 where "h1 = h\<lparr>next_addr := Suc (next_addr h)\<rparr>"
  have wf: "wf_heap h" using assms by (simp add: plain_def)
  have h1: "plain h1" "heap_le h h1" "edges_kept T h h1"
    using assms sound_fresh [OF wf]
    by (auto simp: sound_def fresh_def plain_def h1_def edges_kept_def obj_edge_def)
  define v where "v = Value_NewString (next_addr h) ''Invalid namespace on setNS''"
  define h2 where "h2 = h1\<lparr>cells := (cells h1)(next_addr h1 \<mapsto> v), next_addr := Suc (next_addr h1)\<rparr>"
  have h2: "plain h2" "heap_le h1 h2" "edges_kept T h1 h2"
    using plain_new_value [OF h1(1), of v] by (simp_all add: h2_def v_def)
  have "bindM (new_string ''Invalid namespace on setNS'') (\<lambda>e. raiseM (ThrownValue e) :: addr M) h
      = (Inl (ThrownValue (next_addr h1)), h2)"
    by (simp add: new_string_def fresh_def new_value_def M_defs h1_def h2_def v_def)
  moreover have "invalid_namespace (ThrownValue (next_addr h1)) h2"
    by (simp add: invalid_namespace_def h2_def v_def Value_NewString_def)
  ultimately show ?thesis
    using h2(1) heap_le_trans [OF h1(2) h2(2)] edges_kept_trans [OF h1(3) h2(3)] by blast
qed

lemma SetNS_create_run:
  fixes f :: "addr \<Rightarrow> 'a M"
  assumes p: "plain h" and ob: "objs h scope = Some ob" and free: "\<forall>b. \<not> obj_edge h scope t b"
  shows "\<exists>so h'. bindM (new_object (StaticBoundObject_new ''StaticBoundObject'')) (\<lambda>so.
         bindM (new_value (Value_NewObject (Some so))) (\<lambda>nv.
         bindM (vSet (vtable (Suc n) N F) scope t nv) (\<lambda>_. f so))) h = f so h'
    \<and> plain h' \<and> heap_le h h' \<and> edges_kept UNIV h h' \<and> obj_edge h' scope t so
    \<and> objs h' so = Some (StaticBoundObject_new ''StaticBoundObject'')"
proof -
  define so where "so = next_addr h"
  define h1 where "h1 = h\<lparr>objs := (objs h)(so \<mapsto> StaticBoundObject_new ''StaticBoundObject''), next_addr := Suc so\<rparr>"
  have h1: "plain h1" "heap_le h h1" "edges_kept UNIV h h1"
    using plain_new_object [OF p] by (simp_all add: h1_def so_def)
  define nv where "nv = next_addr h1"
  define h2 where "h2 = h1\<lparr>cells := (cells h1)(nv \<mapsto> Value_NewObject (Some so)), next_addr := Suc nv\<rparr>"
  have h2: "plain h2" "heap_le h1 h2" "edges_kept UNIV h1 h2"
    using plain_new_value [OF h1(1), of "Value_NewObject (Some so)"] by (simp_all add: h2_def nv_def h1_def)
  have neq: "scope \<noteq> so" using ob wf_heap_fresh(2) p by (auto simp: plain_def so_def)
  have ob2: "objs h2 scope = Some ob" using ob neq by (simp add: h1_def h2_def)
  have st: "cls ob = CStaticBoundObject" using p ob by (simp add: plain_def)
  have free2: "\<forall>b. \<not> obj_edge h2 scope t b"
  proof (rule allI, rule notI)
    fix b
    assume "obj_edge h2 scope t b"
    then obtain x v where x: "pmap_find t (properties ob) = Some x" "cells h2 x = Some v" "Value_IsObject v"
        "Value_ToObject v = Some b" using ob2 by (auto simp: obj_edge_def)
    then have "cells h x \<noteq> None" using wf_heap_property ob p by (auto simp: plain_def)
    moreover have "cells h nv = None" using p by (simp add: plain_def wf_heap_def nv_def h1_def so_def)
    ultimately have "cells h x = Some v" using x(2) by (auto simp: h2_def h1_def split: if_splits)
    with x ob free show False by (auto simp: obj_edge_def)
  qed
  define h3 where "h3 = h2\<lparr>objs := (objs h2)(scope \<mapsto> ob\<lparr>properties := pmap_insert t nv (properties ob)\<rparr>)\<rparr>"
  have h3: "plain h3" "heap_le h2 h3" "edges_kept UNIV h2 h3" "StaticBoundObject_Set scope t nv h2 = (Inr (), h3)"
    using plain_insert [OF h2(1) ob2, where v = nv and name = t] free2 by (simp_all add: h3_def h2_def)
  have ok: "pmap_ok (properties ob)" using wf_heap_obj ob p by (auto simp: plain_def wf_obj_def)
  have "obj_edge h3 scope t so"
    using ok by (auto simp: obj_edge_def h3_def h2_def pmap_find_insert Value_New_defs Value_Set_defs
        Value_IsObject_def Value_ToObject_def)
  moreover have "objs h3 so = Some (StaticBoundObject_new ''StaticBoundObject'')" using neq by (simp add: h3_def h2_def h1_def)
  moreover have "bindM (new_object (StaticBoundObject_new ''StaticBoundObject'')) (\<lambda>so.
         bindM (new_value (Value_NewObject (Some so))) (\<lambda>nv.
         bindM (vSet (vtable (Suc n) N F) scope t nv) (\<lambda>_. f so))) h = f so h3"
    using vtable_static_Set [OF ob2 st] h3(4)
    by (simp add: bindM_def new_object_def new_value_def so_def h1_def h2_def nv_def del: vtable.simps)
  moreover have "heap_le h h3" using h1(2) h2(2) h3(2) by (meson heap_le_trans)
  moreover have "edges_kept UNIV h h3" using h1(3) h2(3) h3(3) by (meson edges_kept_trans)
  ultimately show ?thesis using h3(1) by blast
qed

lemma SetNS_scope_plain:
  assumes "plain h" and "objs h scope \<noteq> None" and "\<forall>t \<in> set ts. c_str t = t"
  shows "\<exists>r h'. SetNS_scope (vtable (Suc n) N F) scope ts h = (r, h') \<and> plain h' \<and> heap_le h h' \<and> edges_kept UNIV h h'
    \<and> (case r of Inr b \<Rightarrow> ns_path h' scope ts b \<and> objs h' b \<noteq> None \<and> \<not> ns_blocked h scope ts
       | Inl e \<Rightarrow> invalid_namespace e h' \<and> ns_blocked h scope ts)"
  using assms
proof (induction ts arbitrary: h scope)
  case Nil
  then show ?case by (auto simp: retM_def edges_kept_refl)
next
  case (Cons t ts)
  let ?V = "vtable (Suc n) N F"
  obtain ob where ob: "objs h scope = Some ob" "cls ob = CStaticBoundObject"
    using Cons.prems by (auto simp: plain_def not_None_eq)
  have wf: "wf_heap h" and ct: "c_str t = t" using Cons.prems by (simp_all add: plain_def)
  define h1 where "h1 = h\<lparr>cells := (cells h)(next_addr h \<mapsto> Value_NewUndefined), next_addr := Suc (next_addr h)\<rparr>"
  define x where "x = (case pmap_find t (properties ob) of Some x \<Rightarrow> x | None \<Rightarrow> next_addr h)"
  have get: "vGet ?V scope (c_str t) h = (Inr x, h1)"
    using vtable_static_Get [OF ob] static_Get_run [OF ob(1)] by (simp add: h1_def x_def ct)
  have p1: "plain h1" "heap_le h h1" "edges_kept UNIV h h1"
    using plain_new_value [OF Cons.prems(1), of Value_NewUndefined] by (simp_all add: h1_def)
  have ob1: "objs h1 scope = Some ob" using ob by (simp add: h1_def)
  have "cells h1 x \<noteq> None"
    using wf_heap_property [OF wf ob(1), of t] p1(2) by (auto simp: x_def h1_def split: option.split)
  then obtain v where v: "cells h1 x = Some v" by (auto simp: not_None_eq)
  have step: "SetNS_scope ?V scope (t # ts) h =
      (if Value_IsUndefined v then
         bindM (new_object (StaticBoundObject_new ''StaticBoundObject'')) (\<lambda>so.
         bindM (new_value (Value_NewObject (Some so))) (\<lambda>nv.
         bindM (vSet ?V scope (c_str t) nv) (\<lambda>_. SetNS_scope ?V so ts)))
       else if \<not> Value_IsObject v \<and> \<not> Value_IsMethod v \<and> \<not> Value_IsList v then
         bindM (new_string ''Invalid namespace on setNS'') (\<lambda>e. raiseM (ThrownValue e))
       else bindM (of_opt (Value_ToObject v)) (\<lambda>so. SetNS_scope ?V so ts)) h1"
    using get v by (simp add: bindM_def load_def)
  have val: "property_value h scope t = (if pmap_find t (properties ob) = None then None else Some v)"
  proof (cases "pmap_find t (properties ob)")
    case (Some y)
    then have "y \<noteq> next_addr h" using wf_heap_property [OF wf ob(1) Some] wf_heap_fresh(1) [OF wf] by auto
    then show ?thesis using Some v ob(1) by (simp add: property_value_def x_def h1_def)
  qed (simp add: property_value_def ob(1))
  have undef: "Value_IsUndefined v" if "pmap_find t (properties ob) = None"
    using that v by (auto simp add: x_def h1_def Value_Is_defs Value_New_defs Value_new_def)
  consider "Value_IsUndefined v" | "\<not> Value_IsUndefined v" "\<not> Value_IsObject v" | "\<not> Value_IsUndefined v" "Value_IsObject v"
    by blast
  then show ?case
  proof cases
    case 1
    then have "\<forall>b. \<not> obj_edge h1 scope t b"
      using ob1 v by (auto simp: obj_edge_def x_def Value_Is_defs)
    then obtain so h2 where h2: "SetNS_scope ?V scope (t # ts) h = SetNS_scope ?V so ts h2" "plain h2" "heap_le h1 h2"
        "edges_kept UNIV h1 h2" "obj_edge h2 scope t so" "objs h2 so = Some (StaticBoundObject_new ''StaticBoundObject'')"
      using SetNS_create_run [OF p1(1) ob1, where t = t and n = n and N = N and F = F
          and f = "\<lambda>so. SetNS_scope ?V so ts"] step 1 ct
      by (auto simp del: SetNS_scope.simps vtable.simps)
    obtain r h3 where h3: "SetNS_scope ?V so ts h2 = (r, h3)" "plain h3" "heap_le h2 h3" "edges_kept UNIV h2 h3"
        "case r of Inr b \<Rightarrow> ns_path h3 so ts b \<and> objs h3 b \<noteq> None \<and> \<not> ns_blocked h2 so ts
         | Inl e \<Rightarrow> invalid_namespace e h3 \<and> ns_blocked h2 so ts"
      using Cons.IH [OF h2(2), of so] Cons.prems(3) h2(6) by auto
    have "obj_edge h3 scope t so" using h2(5) h3(4) by (simp add: edges_kept_def)
    moreover have "\<not> ns_blocked h scope (t # ts)" "\<not> ns_blocked h2 so ts"
      using val 1 ns_blocked_new_object [OF h2(6)] by simp_all
    ultimately show ?thesis
      using h2 h3 p1 by (auto simp del: SetNS_scope.simps vtable.simps intro: heap_le_trans edges_kept_trans split: sum.splits)
  next
    case 2
    then have "ns_blocked h scope (t # ts)" using val undef by auto
    then show ?thesis
      using 2 step plain_no_method_list [OF p1(1) v] SetNS_throw_run [OF p1(1), of UNIV] p1
      by (auto simp del: SetNS_scope.simps vtable.simps intro: heap_le_trans edges_kept_trans)
  next
    case 3
    then obtain b where b: "Value_ToObject v = Some b" "objs h1 b \<noteq> None" using plain_object [OF p1(1) v] by auto
    obtain r h3 where h3: "SetNS_scope ?V b ts h1 = (r, h3)" "plain h3" "heap_le h1 h3" "edges_kept UNIV h1 h3"
        "case r of Inr c \<Rightarrow> ns_path h3 b ts c \<and> objs h3 c \<noteq> None \<and> \<not> ns_blocked h1 b ts
         | Inl e \<Rightarrow> invalid_namespace e h3 \<and> ns_blocked h1 b ts"
      using Cons.IH [OF p1(1) b(2)] Cons.prems(3) by auto
    have blocked: "ns_blocked h scope (t # ts) \<longleftrightarrow> ns_blocked h1 b ts"
      using val undef 3 b(1) ns_blocked_new_value [OF wf] by (auto simp: h1_def)
    have "pmap_find t (properties ob) = Some x"
      using 3 v wf_heap_fresh(1) [OF wf] by (auto simp: x_def h1_def Value_Is_defs Value_New_defs Value_new_def split: option.splits if_splits)
    then have "obj_edge h1 scope t b" using ob1 v 3 b by (auto simp: obj_edge_def)
    then have "obj_edge h3 scope t b" using h3(4) by (simp add: edges_kept_def)
    moreover have "SetNS_scope ?V scope (t # ts) h = (r, h3)"
      using step 3 b h3(1) by (simp add: of_opt_def del: SetNS_scope.simps vtable.simps)
    ultimately show ?thesis
      using h3 p1 unfolding blocked by (auto simp del: SetNS_scope.simps vtable.simps intro: heap_le_trans edges_kept_trans split: sum.splits)
  qed
qed

section \<open>GetNS\<close>

definition token :: "string \<Rightarrow> bool" where
  "token t \<longleftrightarrow> t \<noteq> [] \<and> CHR ''.'' \<notin> set t \<and> CHR 0x00 \<notin> set t"

lemma token_c_str [simp]: "token t \<Longrightarrow> c_str t = t"
  by (simp add: token_def)

lemma find_dot_here:
  "CHR ''.'' \<notin> set t \<Longrightarrow> find_first_of (pre @ t @ CHR ''.'' # rest) ''.'' (length pre) = Some (length pre + length t)"
  by (auto simp: find_first_of_Some_iff nth_append dest: nth_mem)

lemma find_dot_none: "CHR ''.'' \<notin> set t \<Longrightarrow> find_first_of (pre @ t) ''.'' (length pre) = None"
  by (auto simp: find_first_of_None_iff nth_append) (metis add.commute less_diff_conv2 nth_mem)

lemma GetNS_loop_path:
  assumes "plain h" and "objs h scope \<noteq> None" and "ns_path h scope ts b"
    and "\<forall>t \<in> set ts. token t" and "token l"
    and "objs h b = Some ob" and "pmap_find l (properties ob) = Some v"
  shows "\<exists>h'. GetNS_loop (vtable (Suc n) N F) (pre @ intercalate ''.'' (ts @ [l])) scope (length pre) h = (Inr v, h')"
  using assms
proof (induction ts arbitrary: h scope pre)
  case Nil
  then have "cls ob = CStaticBoundObject" by (simp add: plain_def)
  with Nil show ?case
    by (subst GetNS_loop.simps)
      (simp add: find_dot_none token_def vtable_static_Get [of h b ob] static_Get_run [of h b ob] del: vtable.simps)
next
  case (Cons t ts)
  let ?V = "vtable (Suc n) N F" and ?rest = "intercalate ''.'' (ts @ [l])"
  obtain c where c: "obj_edge h scope t c" "ns_path h c ts b" using Cons.prems(3) by auto
  then obtain so x u where so: "objs h scope = Some so" "pmap_find t (properties so) = Some x"
      "cells h x = Some u" "Value_IsObject u" "Value_ToObject u = Some c" by (auto simp: obj_edge_def)
  have st: "cls so = CStaticBoundObject" and wf: "wf_heap h" using Cons.prems(1) so(1) by (auto simp: plain_def)
  define h1 where "h1 = h\<lparr>cells := (cells h)(next_addr h \<mapsto> Value_NewUndefined), next_addr := Suc (next_addr h)\<rparr>"
  have h1: "plain h1" "heap_le h h1" "edges_kept UNIV h h1"
    using plain_new_value [OF Cons.prems(1), of Value_NewUndefined] by (simp_all add: h1_def)
  have get: "vGet ?V scope t h = (Inr x, h1)"
    using vtable_static_Get [OF so(1) st] static_Get_run [OF so(1)] so(2) by (simp add: h1_def)
  have "cells h1 x = Some u" using so(3) wf_heap_fresh(1) [OF wf] by (auto simp: h1_def)
  moreover have "pre @ intercalate ''.'' ((t # ts) @ [l]) = pre @ t @ CHR ''.'' # ?rest"
    by (simp add: intercalate_Cons)
  moreover have t: "token t" using Cons.prems(4) by simp
  ultimately have "GetNS_loop ?V (pre @ intercalate ''.'' ((t # ts) @ [l])) scope (length pre) h
      = GetNS_loop ?V ((pre @ t @ ''.'') @ ?rest) c (length (pre @ t @ ''.'')) h1"
    using get so(4,5)
    by (subst GetNS_loop.simps) (simp add: find_dot_here token_def bindM_def load_def of_opt_def retM_def del: vtable.simps)
  moreover have "objs h1 c \<noteq> None"
    using wf_heap_cell [OF wf so(3)] wf_cell_ToObject so(5) by (auto simp: h1_def)
  moreover have "ns_path h1 c ts b" using ns_path_kept [OF h1(3) _ c(2)] by simp
  ultimately show ?case
    using Cons.IH [OF h1(1), of c "pre @ t @ ''.''"] Cons.prems(4-7) by (simp add: h1_def)
qed

lemma SetNS_GetNS_run:
  assumes "plain h" and "objs h this \<noteq> None" and "cells h v \<noteq> None"
    and ts: "ts \<noteq> []" "\<forall>t \<in> set ts. token t" and "last ts \<notin> set (butlast ts)"
  shows "case KObject_SetNS (vtable (Suc n) N F) this (intercalate ''.'' ts) v h of
      (Inr _, h') \<Rightarrow> plain h' \<and> heap_le h h' \<and> (\<exists>h''. KObject_GetNS (vtable (Suc m) N F) this (intercalate ''.'' ts) h' = (Inr v, h''))
        \<and> \<not> ns_blocked h this (butlast ts)
    | (Inl e, h') \<Rightarrow> plain h' \<and> invalid_namespace e h' \<and> ns_blocked h this (butlast ts)"
proof -
  let ?V = "vtable (Suc n) N F" and ?bs = "butlast ts" and ?l = "last ts"
  have ts': "\<forall>t \<in> set ?bs. token t" "token ?l" using ts by (auto dest: in_set_butlastD)
  have tok: "Tokenize (intercalate ''.'' ts) [] ''.'' False = ts"
    using ts by (simp add: Tokenize_eq add_tokens_False pieces_intercalate token_def)
  obtain r h1 where h1: "SetNS_scope ?V this ?bs h = (r, h1)" "plain h1" "heap_le h h1" "edges_kept UNIV h h1"
      "case r of Inr b \<Rightarrow> ns_path h1 this ?bs b \<and> objs h1 b \<noteq> None \<and> \<not> ns_blocked h this ?bs
       | Inl e \<Rightarrow> invalid_namespace e h1 \<and> ns_blocked h this ?bs"
    using SetNS_scope_plain [OF assms(1,2), of ?bs n N F] ts' by auto
  show ?thesis
  proof (cases r)
    case (Inl e)
    then show ?thesis using h1 tok ts by (simp add: KObject_SetNS_def Let_def bindM_def del: vtable.simps)
  next
    case (Inr b)
    with h1(5) obtain ob where ob: "ns_path h1 this ?bs b" "objs h1 b = Some ob" "\<not> ns_blocked h this ?bs" by (auto simp: not_None_eq)
    have v1: "cells h1 v \<noteq> None" using heap_le_cells [OF h1(3) assms(3)] .
    define h2 where "h2 = h1\<lparr>objs := (objs h1)(b \<mapsto> ob\<lparr>properties := pmap_insert ?l v (properties ob)\<rparr>)\<rparr>"
    have h2: "plain h2" "heap_le h1 h2" "edges_kept (set ?bs) h1 h2" "StaticBoundObject_Set b ?l v h1 = (Inr (), h2)"
      using plain_insert [OF h1(2) ob(2) v1, of ?l] assms(6) by (auto simp: h2_def)
    have st: "cls ob = CStaticBoundObject" and ok: "pmap_ok (properties ob)"
      using h1(2) ob(2) wf_heap_obj by (auto simp: plain_def wf_obj_def)
    have "KObject_SetNS ?V this (intercalate ''.'' ts) v h = (Inr (), h2)"
      using h1(1) Inr tok ts ts'(2) vtable_static_Set [OF ob(2) st] h2(4)
      by (simp add: KObject_SetNS_def Let_def bindM_def del: vtable.simps)
    moreover have "\<exists>h''. GetNS_loop (vtable (Suc m) N F) ([] @ intercalate ''.'' (?bs @ [?l])) this (length ([] :: string)) h2 = (Inr v, h'')"
    proof (rule GetNS_loop_path [OF h2(1)])
      show "objs h2 this \<noteq> None" using heap_le_objs h1(3) h2(2) assms(2) by blast
      show "ns_path h2 this ?bs b" using ns_path_kept [OF h2(3) _ ob(1)] by simp
      show "objs h2 b = Some (ob\<lparr>properties := pmap_insert ?l v (properties ob)\<rparr>)" by (simp add: h2_def)
      show "pmap_find ?l (properties (ob\<lparr>properties := pmap_insert ?l v (properties ob)\<rparr>)) = Some v"
        using ok by (simp add: pmap_find_insert)
    qed (use ts' in auto)
    ultimately show ?thesis
      using h2(1) ts ob(3) heap_le_trans [OF h1(3) h2(2)] by (simp add: KObject_GetNS_def del: vtable.simps)
  qed
qed

section \<open>Properties\<close>


text \<open>A process with an empty file system and environment.\<close>

definition demo_process :: process_state where
  "demo_process =
     \<lparr>p_world = \<lparr>w_environ = [], w_fs = list_os [] [], w_draws = 0, w_searchPaths = [], w_commands = [], w_output = []\<rparr>,
      p_logging = no_logging, p_applications = Map.empty, p_application = 0, p_installed = [], p_stdout = []\<rparr>"

text \<open>A store with one plain object, at address 3.\<close>

definition demo_heap :: heap where
  "demo_heap = \<lparr>cells = [Undefined_addr \<mapsto> Value_NewUndefined, Null_addr \<mapsto> Value_NewNull],
     objs = [3 \<mapsto> StaticBoundObject_new ''KObject''], next_addr = 4, stream = None, clock = 0,
     listenerMap = Map.empty, listeners = Map.empty, currentId = 1, jobs = [], proc = demo_process\<rparr>"

lemma demo_heap_plain: "plain demo_heap"
  by (auto simp: plain_def wf_heap_def wf_listeners_def wf_jobs_def demo_heap_def Undefined_addr_def Null_addr_def wf_obj_def pmap_ok_def
      StaticBoundObject_new_def split: if_splits)

definition no_natives :: natives where "no_natives _ _ _ _ = retM ()"

definition no_fnptrs :: fnptrs where "no_fnptrs _ _ _ = retM Undefined_addr"

text \<open>The same store with the property \<^verbatim>\<open>UI\<close> bound to null.\<close>

definition demo_blocked_heap :: heap where
  "demo_blocked_heap = demo_heap\<lparr>objs := [3 \<mapsto> (StaticBoundObject_new ''KObject'')\<lparr>properties := [(''UI'', Null_addr)]\<rparr>]\<rparr>"


end
