(* ===== verification/Kroll_Lists.thy ===== *)
theory Kroll_Lists
  imports Kroll_Namespace
begin

text \<open>
  The list contract.  \<^verbatim>\<open>KList::ResizeTo\<close> is written once against the virtual functions; the locale
  \<^verbatim>\<open>klist\<close> states what it relies on, and its correctness is proved there.  The interpretation
  shows that \<^verbatim>\<open>StaticBoundList\<close> meets the contract: its elements are the properties named by the
  decimal numerals below its length.
\<close>

section \<open>The contract\<close>

locale klist =
  fixes V :: vt and this :: addr
    and elems :: "heap \<Rightarrow> 'e list" and el :: "addr \<Rightarrow> 'e" and ok :: "heap \<Rightarrow> bool"
  assumes size_law: "ok h \<Longrightarrow> vSize V this h = (Inr (of_nat (length (elems h))), h)"
    and size_bound: "ok h \<Longrightarrow> length (elems h) < 2 ^ 32"
    and append_law: "ok h \<Longrightarrow> length (elems h) < 2 ^ 32 - 1 \<Longrightarrow>
      \<exists>h'. vAppend V this x h = (Inr (), h') \<and> ok h' \<and> elems h' = elems h @ [el x]"
    and remove_law: "ok h \<Longrightarrow> elems h \<noteq> [] \<Longrightarrow>
      \<exists>h'. vRemove V this (of_nat (length (elems h)) - 1) h = (Inr True, h') \<and> ok h' \<and> elems h' = butlast (elems h)"
begin

lemma size_cmp:
  assumes "ok h"
  shows "m < of_nat (length (elems h)) \<longleftrightarrow> unat m < length (elems h)"
    "of_nat (length (elems h)) < m \<longleftrightarrow> length (elems h) < unat (m :: uint32)"
  using size_bound [OF assms] by (simp_all add: word_less_nat_alt unat_of_nat)

lemma shrink:
  assumes "ok h" and "length (elems h) - unat m < n"
  shows "\<exists>h'. resize_shrink n V this m h = (Inr (), h') \<and> ok h' \<and> elems h' = take (unat m) (elems h)"
  using assms
proof (induction n arbitrary: h)
  case (Suc n)
  show ?case
  proof (cases "unat m < length (elems h)")
    case True
    then have "elems h \<noteq> []" by auto
    then obtain h1 where h1: "vRemove V this (of_nat (length (elems h)) - 1) h = (Inr True, h1)" "ok h1"
        "elems h1 = butlast (elems h)"
      using remove_law [OF Suc.prems(1)] by blast
    then have "length (elems h1) - unat m < n" using Suc.prems(2) True by (simp add: less_diff_conv2)
    then obtain h2 where h2: "resize_shrink n V this m h1 = (Inr (), h2)" "ok h2" "elems h2 = take (unat m) (elems h1)"
      using Suc.IH [OF h1(2)] by blast
    have "elems h2 = take (unat m) (elems h)" using h1(3) h2(3) True by (auto simp: butlast_conv_take)
    moreover have "resize_shrink (Suc n) V this m h = (Inr (), h2)"
      using True size_law [OF Suc.prems(1)] size_cmp [OF Suc.prems(1)] h1(1) h2(1) by (simp add: bindM_def)
    ultimately show ?thesis using h2(2) by blast
  next
    case False
    then show ?thesis
      using Suc.prems(1) size_law [OF Suc.prems(1)] size_cmp [OF Suc.prems(1)] by (simp add: bindM_def retM_def)
  qed
qed simp

lemma grow:
  assumes "ok h" and "unat m - length (elems h) < n"
  shows "\<exists>h'. resize_grow n V this m h = (Inr (), h') \<and> ok h'
    \<and> elems h' = elems h @ replicate (unat m - length (elems h)) (el Undefined_addr)"
  using assms
proof (induction n arbitrary: h)
  case (Suc n)
  show ?case
  proof (cases "length (elems h) < unat m")
    case True
    moreover have "unat m < 2 ^ 32" using unsigned_less [of m] by simp
    ultimately obtain h1 where h1: "vAppend V this Undefined_addr h = (Inr (), h1)" "ok h1"
        "elems h1 = elems h @ [el Undefined_addr]"
      using append_law [OF Suc.prems(1), of Undefined_addr] by auto
    then have "unat m - length (elems h1) < n" using Suc.prems(2) True by simp
    then obtain h2 where h2: "resize_grow n V this m h1 = (Inr (), h2)" "ok h2"
        "elems h2 = elems h1 @ replicate (unat m - length (elems h1)) (el Undefined_addr)"
      using Suc.IH [OF h1(2)] by blast
    obtain d where d: "unat m - length (elems h) = Suc d" using True by (metis Suc_diff_Suc)
    have "elems h2 = elems h @ replicate (unat m - length (elems h)) (el Undefined_addr)"
      using h1(3) h2(3) d by simp
    moreover have "resize_grow (Suc n) V this m h = (Inr (), h2)"
      using True size_law [OF Suc.prems(1)] size_cmp [OF Suc.prems(1)] h1(1) h2(1) by (simp add: bindM_def)
    ultimately show ?thesis using h2(2) by blast
  next
    case False
    then show ?thesis
      using Suc.prems(1) size_law [OF Suc.prems(1)] size_cmp [OF Suc.prems(1)] by (simp add: bindM_def retM_def)
  qed
qed simp

lemma resize:
  assumes "ok h" and "length (elems h) < n + unat m" and "unat m < n + length (elems h)"
  shows "\<exists>h'. KList_ResizeTo n V this m h = (Inr (), h') \<and> ok h'
    \<and> elems h' = take (unat m) (elems h) @ replicate (unat m - length (elems h)) (el Undefined_addr)"
proof (cases "m = of_nat (length (elems h))")
  case True
  then have "unat m = length (elems h)" using size_bound [OF assms(1)] by (simp add: unat_of_nat)
  then show ?thesis
    using True assms(1) size_law [OF assms(1)] by (simp add: KList_ResizeTo_def bindM_def retM_def)
next
  case False
  have sh: "length (elems h) - unat m < n" using assms(2,3) by arith
  obtain h1 where h1: "resize_shrink n V this m h = (Inr (), h1)" "ok h1" "elems h1 = take (unat m) (elems h)"
    using shrink [OF assms(1) sh] by blast
  obtain h2 where h2: "resize_grow n V this m h1 = (Inr (), h2)" "ok h2"
      "elems h2 = elems h1 @ replicate (unat m - length (elems h1)) (el Undefined_addr)"
  proof -
    have "length (elems h1) = min (length (elems h)) (unat m)" using h1(3) by simp
    then have "unat m - length (elems h1) < n" using assms(2,3) by linarith
    then show thesis using that grow [OF h1(2)] by blast
  qed
  have "unat m - length (elems h1) = unat m - length (elems h)" using h1(3) by simp
  with h1 h2 False size_law [OF assms(1)] show ?thesis
    by (simp add: KList_ResizeTo_def bindM_def)
qed

end

section \<open>StaticBoundList\<close>

definition list_ok :: "addr \<Rightarrow> heap \<Rightarrow> bool" where
  "list_ok this h \<longleftrightarrow> (\<exists>ob len. objs h this = Some ob \<and> list_length (cls ob) = Some len \<and> pmap_ok (properties ob))"

text \<open>An element that was never set (a hole) is \<^const>\<open>None\<close>.\<close>

definition list_elems :: "addr \<Rightarrow> heap \<Rightarrow> addr option list" where
  "list_elems this h = (case objs h this of
     Some ob \<Rightarrow> (case list_length (cls ob) of
        Some len \<Rightarrow> map (\<lambda>i. pmap_find (dec_of_nat i) (properties ob)) [0..<unat len]
      | None \<Rightarrow> [])
   | None \<Rightarrow> [])"

lemma list_length_with [simp]: "list_length c = Some len \<Longrightarrow> list_length (with_length n c) = Some n"
  by (cases c) simp_all

lemma get_length_run:
  "objs h this = Some ob \<Longrightarrow> list_length (cls ob) = Some len \<Longrightarrow> get_length this h = (Inr len, h)"
  by (simp add: get_length_def load_obj_def of_opt_def M_defs)

lemma set_length_run:
  "objs h this = Some ob \<Longrightarrow> set_length this n h = (Inr (), h\<lparr>objs := (objs h)(this \<mapsto> ob\<lparr>cls := with_length n (cls ob)\<rparr>)\<rparr>)"
  by (simp add: set_length_def load_obj_def store_obj_def M_defs)

lemma list_Append_run:
  assumes "objs h this = Some ob" and "list_length (cls ob) = Some len" and "pmap_ok (properties ob)"
  shows "StaticBoundList_Append this v h = (Inr (), h\<lparr>objs := (objs h)(this \<mapsto>
    ob\<lparr>properties := pmap_insert (dec_of_nat (unat len)) v (properties ob), cls := with_length (len + 1) (cls ob)\<rparr>)\<rparr>)"
  using static_Set_run [OF assms(1,3), of "dec_of_nat (unat len)" v] assms
  by (simp add: StaticBoundList_Append_def KList_IntToChars_def get_length_run set_length_run bindM_def)

lemma list_SetAt_run:
  assumes "objs h this = Some ob" and "list_length (cls ob) = Some len" and "pmap_ok (properties ob)" and "i < len"
  shows "StaticBoundList_SetAt this i v h = (Inr (), h\<lparr>objs := (objs h)(this \<mapsto>
    ob\<lparr>properties := pmap_insert (dec_of_nat (unat i)) v (properties ob)\<rparr>)\<rparr>)"
  using static_Set_run [OF assms(1,3), of "dec_of_nat (unat i)" v] assms
  by (simp add: StaticBoundList_SetAt_def KList_IntToChars_def bindM_def get_length_def load_obj_def of_opt_def retM_def
      linorder_not_le [symmetric])

lemma list_At_run:
  "objs h this = Some ob \<Longrightarrow> StaticBoundList_At this i h =
     (Inr (case pmap_find (dec_of_nat (unat i)) (properties ob) of Some x \<Rightarrow> x | None \<Rightarrow> next_addr h),
      h\<lparr>cells := (cells h)(next_addr h \<mapsto> Value_NewUndefined), next_addr := Suc (next_addr h)\<rparr>)"
  by (simp add: StaticBoundList_At_def KList_IntToChars_def static_Get_run)

lemma unat_succ: "i < (len :: uint32) \<Longrightarrow> unat (i + 1) = Suc (unat i)"
proof -
  assume "i < len"
  moreover have "unat len < 2 ^ 32" using unsigned_less [of len] by simp
  ultimately show ?thesis by (simp add: unat_word_ariths word_less_nat_alt)
qed

text \<open>The loop of \<^verbatim>\<open>Remove\<close> moves every later element down by one and touches no other property.\<close>

lemma remove_loop_run:
  assumes "objs h this = Some ob" and "list_length (cls ob) = Some len" and "pmap_ok (properties ob)"
    and "i < len" and "\<forall>j. unat i < j \<longrightarrow> j < unat len \<longrightarrow> pmap_find (dec_of_nat j) (properties ob) \<noteq> None"
    and "unat len - unat i \<le> n"
  shows "\<exists>h' m. remove_loop n this i h = (Inr (), h') \<and> objs h' = (objs h)(this \<mapsto> ob\<lparr>properties := m\<rparr>) \<and> pmap_ok m
    \<and> (\<forall>j. unat i \<le> j \<longrightarrow> Suc j < unat len \<longrightarrow> pmap_find (dec_of_nat j) m = pmap_find (dec_of_nat (Suc j)) (properties ob))
    \<and> (\<forall>k. (\<forall>j. unat i \<le> j \<longrightarrow> Suc j < unat len \<longrightarrow> k \<noteq> dec_of_nat j) \<longrightarrow> pmap_find k m = pmap_find k (properties ob))"
  using assms
proof (induction n arbitrary: h ob i)
  case 0
  then show ?case by (simp add: word_less_nat_alt)
next
  case (Suc n)
  have succ: "unat (i + 1) = Suc (unat i)" using Suc.prems(4) by (rule unat_succ)
  show ?case
  proof (cases "i + 1 < len")
    case False
    then have "\<not> Suc (unat i) < unat len" using succ by (simp add: word_less_nat_alt)
    with False Suc.prems show ?thesis
      by (intro exI [of _ h] exI [of _ "properties ob"])
        (auto simp: get_length_run bindM_def retM_def fun_upd_idem)
  next
    case True
    then have lt: "Suc (unat i) < unat len" using succ by (simp add: word_less_nat_alt)
    then obtain x where x: "pmap_find (dec_of_nat (Suc (unat i))) (properties ob) = Some x"
      using Suc.prems(5) by (auto simp: not_None_eq)
    define h1 where "h1 = h\<lparr>cells := (cells h)(next_addr h \<mapsto> Value_NewUndefined), next_addr := Suc (next_addr h)\<rparr>"
    define ob1 where "ob1 = ob\<lparr>properties := pmap_insert (dec_of_nat (unat i)) x (properties ob)\<rparr>"
    define h2 where "h2 = h1\<lparr>objs := (objs h1)(this \<mapsto> ob1)\<rparr>"
    have at: "StaticBoundList_At this (i + 1) h = (Inr x, h1)"
      using list_At_run [OF Suc.prems(1), of "i + 1"] x succ by (simp add: h1_def)
    have set: "StaticBoundList_SetAt this i x h1 = (Inr (), h2)"
      using list_SetAt_run [of h1 this ob len i x] Suc.prems by (simp add: h1_def h2_def ob1_def)
    have p1: "pmap_find k (properties ob1) = (if k = dec_of_nat (unat i) then Some x else pmap_find k (properties ob))" for k
      using Suc.prems(3) by (simp add: ob1_def pmap_find_insert)
    have "\<exists>h' m. remove_loop n this (i + 1) h2 = (Inr (), h') \<and> objs h' = (objs h2)(this \<mapsto> ob1\<lparr>properties := m\<rparr>) \<and> pmap_ok m
      \<and> (\<forall>j. unat (i + 1) \<le> j \<longrightarrow> Suc j < unat len \<longrightarrow> pmap_find (dec_of_nat j) m = pmap_find (dec_of_nat (Suc j)) (properties ob1))
      \<and> (\<forall>k. (\<forall>j. unat (i + 1) \<le> j \<longrightarrow> Suc j < unat len \<longrightarrow> k \<noteq> dec_of_nat j) \<longrightarrow> pmap_find k m = pmap_find k (properties ob1))"
    proof (rule Suc.IH)
      show "objs h2 this = Some ob1" by (simp add: h2_def)
      show "list_length (cls ob1) = Some len" "pmap_ok (properties ob1)"
        using Suc.prems by (simp_all add: ob1_def pmap_ok_insert)
      show "\<forall>j. unat (i + 1) < j \<longrightarrow> j < unat len \<longrightarrow> pmap_find (dec_of_nat j) (properties ob1) \<noteq> None"
        using Suc.prems(5) by (simp add: p1 succ)
    qed (use True Suc.prems(6) lt in \<open>auto simp: succ\<close>)
    then obtain h' m where h': "remove_loop n this (i + 1) h2 = (Inr (), h')" "objs h' = (objs h2)(this \<mapsto> ob1\<lparr>properties := m\<rparr>)"
      "pmap_ok m"
      "\<And>j. Suc (unat i) \<le> j \<Longrightarrow> Suc j < unat len \<Longrightarrow> pmap_find (dec_of_nat j) m = pmap_find (dec_of_nat (Suc j)) (properties ob1)"
      "\<And>k. \<forall>j. Suc (unat i) \<le> j \<longrightarrow> Suc j < unat len \<longrightarrow> k \<noteq> dec_of_nat j \<Longrightarrow> pmap_find k m = pmap_find k (properties ob1)"
      unfolding succ by blast
    have "remove_loop (Suc n) this i h = (Inr (), h')"
      using True at set h'(1) Suc.prems(1,2) by (simp add: get_length_run bindM_def)
    moreover have "objs h' = (objs h)(this \<mapsto> ob\<lparr>properties := m\<rparr>)"
      using h'(2) by (simp add: h2_def h1_def ob1_def)
    moreover have "pmap_find (dec_of_nat j) m = pmap_find (dec_of_nat (Suc j)) (properties ob)"
      if "unat i \<le> j" "Suc j < unat len" for j
    proof (cases "j = unat i")
      case True
      then show ?thesis using h'(5) [of "dec_of_nat j"] x by (simp add: p1)
    next
      case False
      then show ?thesis using h'(4) [of j] that by (simp add: p1)
    qed
    moreover have "pmap_find k m = pmap_find k (properties ob)"
      if "\<forall>j. unat i \<le> j \<longrightarrow> Suc j < unat len \<longrightarrow> k \<noteq> dec_of_nat j" for k
      using h'(5) [of k] that lt by (simp add: p1)
    ultimately show ?thesis using h'(3) by blast
  qed
qed

lemma list_elems_eq:
  "objs h this = Some ob \<Longrightarrow> list_length (cls ob) = Some len \<Longrightarrow>
     list_elems this h = map (\<lambda>i. pmap_find (dec_of_nat i) (properties ob)) [0..<unat len]"
  by (simp add: list_elems_def)

lemma list_Remove_run:
  assumes ob: "objs h this = Some ob" "list_length (cls ob) = Some len" "pmap_ok (properties ob)"
    and "i < len" and full: "\<forall>j. unat i < j \<longrightarrow> j < unat len \<longrightarrow> pmap_find (dec_of_nat j) (properties ob) \<noteq> None"
  shows "\<exists>h' m. StaticBoundList_Remove this i h = (Inr True, h')
    \<and> objs h' = (objs h)(this \<mapsto> ob\<lparr>properties := m, cls := with_length (len - 1) (cls ob)\<rparr>) \<and> pmap_ok m
    \<and> (\<forall>j. unat i \<le> j \<longrightarrow> Suc j < unat len \<longrightarrow> pmap_find (dec_of_nat j) m = pmap_find (dec_of_nat (Suc j)) (properties ob))
    \<and> (\<forall>k. (\<forall>j. unat i \<le> j \<longrightarrow> Suc j < unat len \<longrightarrow> k \<noteq> dec_of_nat j) \<longrightarrow>
          pmap_find k m = (if k = dec_of_nat (unat i) then None else pmap_find k (properties ob)))"
proof -
  define ob1 where "ob1 = ob\<lparr>properties := pmap_erase (dec_of_nat (unat i)) (properties ob)\<rparr>"
  define h1 where "h1 = h\<lparr>objs := (objs h)(this \<mapsto> ob1)\<rparr>"
  have unset: "StaticBoundObject_UnSet this (dec_of_nat (unat i)) h = (Inr (), h1)"
    using static_UnSet_run [OF ob(1,3)] by (simp add: h1_def ob1_def)
  have p1: "pmap_find k (properties ob1) = (if k = dec_of_nat (unat i) then None else pmap_find k (properties ob))" for k
    using ob(3) by (simp add: ob1_def pmap_find_erase)
  have ob1: "objs h1 this = Some ob1" "list_length (cls ob1) = Some len" "pmap_ok (properties ob1)"
    using ob by (simp_all add: h1_def ob1_def pmap_ok_erase)
  have "\<forall>j. unat i < j \<longrightarrow> j < unat len \<longrightarrow> pmap_find (dec_of_nat j) (properties ob1) \<noteq> None"
    using full by (simp add: p1)
  from remove_loop_run [OF ob1 assms(4) this, of "unat len"] obtain h2 m where
    h2: "remove_loop (unat len) this i h1 = (Inr (), h2)" "objs h2 = (objs h1)(this \<mapsto> ob1\<lparr>properties := m\<rparr>)" "pmap_ok m"
      "\<forall>j. unat i \<le> j \<longrightarrow> Suc j < unat len \<longrightarrow> pmap_find (dec_of_nat j) m = pmap_find (dec_of_nat (Suc j)) (properties ob1)"
      "\<forall>k. (\<forall>j. unat i \<le> j \<longrightarrow> Suc j < unat len \<longrightarrow> k \<noteq> dec_of_nat j) \<longrightarrow> pmap_find k m = pmap_find k (properties ob1)"
    by auto
  have ob2: "objs h2 this = Some (ob1\<lparr>properties := m\<rparr>)" using h2(2) by simp
  define h3 where "h3 = h2\<lparr>objs := (objs h2)(this \<mapsto> (ob1\<lparr>properties := m\<rparr>)\<lparr>cls := with_length (len - 1) (cls ob1)\<rparr>)\<rparr>"
  have "StaticBoundList_Remove this i h = (Inr True, h3)"
    using assms(4) get_length_run [OF ob(1,2)] unset h2(1) get_length_run [OF ob2, of len] set_length_run [OF ob2, of "len - 1"] ob1(2)
    by (simp add: StaticBoundList_Remove_def KList_IntToChars_def bindM_def retM_def h3_def)
  moreover have "objs h3 = (objs h)(this \<mapsto> ob\<lparr>properties := m, cls := with_length (len - 1) (cls ob)\<rparr>)"
    using h2(2) by (simp add: h3_def h1_def ob1_def)
  ultimately show ?thesis using h2(3-5) by (auto simp: p1)
qed

lemma list_Remove_elems:
  assumes ob: "objs h this = Some ob" "list_length (cls ob) = Some len" "pmap_ok (properties ob)"
    and "i < len" and "None \<notin> set (list_elems this h)"
  shows "\<exists>h' m. StaticBoundList_Remove this i h = (Inr True, h')
    \<and> objs h' = (objs h)(this \<mapsto> ob\<lparr>properties := m, cls := with_length (len - 1) (cls ob)\<rparr>) \<and> pmap_ok m
    \<and> list_elems this h' = take (unat i) (list_elems this h) @ drop (Suc (unat i)) (list_elems this h)
    \<and> (\<forall>k. (\<forall>j. unat i \<le> j \<longrightarrow> Suc j < unat len \<longrightarrow> k \<noteq> dec_of_nat j) \<longrightarrow>
          pmap_find k m = (if k = dec_of_nat (unat i) then None else pmap_find k (properties ob)))"
proof -
  have elems: "list_elems this h = map (\<lambda>i. pmap_find (dec_of_nat i) (properties ob)) [0..<unat len]"
    using ob by (simp add: list_elems_eq)
  have il: "unat i < unat len" using assms(4) by (simp add: word_less_nat_alt)
  have full: "\<forall>j. unat i < j \<longrightarrow> j < unat len \<longrightarrow> pmap_find (dec_of_nat j) (properties ob) \<noteq> None"
    using assms(5) by (force simp: elems)
  obtain h' m where h': "StaticBoundList_Remove this i h = (Inr True, h')"
      "objs h' = (objs h)(this \<mapsto> ob\<lparr>properties := m, cls := with_length (len - 1) (cls ob)\<rparr>)" "pmap_ok m"
      "\<And>j. unat i \<le> j \<Longrightarrow> Suc j < unat len \<Longrightarrow> pmap_find (dec_of_nat j) m = pmap_find (dec_of_nat (Suc j)) (properties ob)"
      "\<And>k. \<forall>j. unat i \<le> j \<longrightarrow> Suc j < unat len \<longrightarrow> k \<noteq> dec_of_nat j \<Longrightarrow>
        pmap_find k m = (if k = dec_of_nat (unat i) then None else pmap_find k (properties ob))"
    using list_Remove_run [OF ob assms(4) full] by blast
  have len: "unat (len - 1) = unat len - 1" using il by (simp add: unat_sub word_le_nat_alt)
  have e': "list_elems this h' = map (\<lambda>j. pmap_find (dec_of_nat j) m) [0..<unat len - 1]"
    using h'(2) ob len by (simp add: list_elems_def)
  have "list_elems this h' = take (unat i) (list_elems this h) @ drop (Suc (unat i)) (list_elems this h)"
    unfolding e' elems using il h'(4,5)
    by (intro nth_equalityI) (auto simp: nth_append not_less)
  then show ?thesis using h'(1,2,3,5) by blast
qed

text \<open>An interpretation for every list object: \<^verbatim>\<open>StaticBoundList\<close> and the accessor list built on it.\<close>

lemma dispatch_list_static:
  "objs h this = Some ob \<Longrightarrow> list_length (cls ob) = Some len \<Longrightarrow> dispatch_list f g k this h = f this h"
  by (cases "cls ob") (simp_all add: dispatch_list_def load_obj_def bindM_def)

interpretation static_list: klist "vtable (Suc n) N F" this "list_elems this" Some "list_ok this" for n N F this
proof
  fix h
  assume "list_ok this h"
  then obtain ob len where ob: "objs h this = Some ob" "list_length (cls ob) = Some len" "pmap_ok (properties ob)"
    by (auto simp: list_ok_def)
  have elems: "list_elems this h = map (\<lambda>i. pmap_find (dec_of_nat i) (properties ob)) [0..<unat len]"
    using ob by (simp add: list_elems_eq)
  have bound: "unat len < 2 ^ 32" using unsigned_less [of len] by simp
  show "vSize (vtable (Suc n) N F) this h = (Inr (of_nat (length (list_elems this h))), h)"
    using ob by (simp add: Let_def dispatch_list_static StaticBoundList_Size_def get_length_run elems)
  show "length (list_elems this h) < 2 ^ 32" using bound by (simp add: elems)
  {
    fix x
    assume "length (list_elems this h) < 2 ^ 32 - 1"
    then have len: "unat (len + 1) = Suc (unat len)" by (simp add: elems unat_word_ariths)
    define h' where "h' = h\<lparr>objs := (objs h)(this \<mapsto> ob\<lparr>properties := pmap_insert (dec_of_nat (unat len)) x (properties ob),
      cls := with_length (len + 1) (cls ob)\<rparr>)\<rparr>"
    have "vAppend (vtable (Suc n) N F) this x h = (Inr (), h')"
      using ob list_Append_run [OF ob] by (simp add: Let_def dispatch_list_static h'_def)
    moreover have "list_ok this h'" using ob by (simp add: list_ok_def h'_def pmap_ok_insert)
    moreover have "list_elems this h' = list_elems this h @ [Some x]"
      using ob len unfolding elems by (simp add: list_elems_def h'_def pmap_find_insert)
    ultimately show "\<exists>h'. vAppend (vtable (Suc n) N F) this x h = (Inr (), h') \<and> list_ok this h'
        \<and> list_elems this h' = list_elems this h @ [Some x]" by blast
  }
  {
    assume ne: "list_elems this h \<noteq> []"
    then have pos: "0 < unat len" by (auto simp: elems)
    then have i: "unat (len - 1) = unat len - 1" "len - 1 < len"
      by (simp_all add: unat_sub word_le_nat_alt word_less_nat_alt)
    have "\<forall>j. unat (len - 1) < j \<longrightarrow> j < unat len \<longrightarrow> pmap_find (dec_of_nat j) (properties ob) \<noteq> None"
      using i(1) by auto
    then obtain h' m where h': "StaticBoundList_Remove this (len - 1) h = (Inr True, h')"
      "objs h' = (objs h)(this \<mapsto> ob\<lparr>properties := m, cls := with_length (len - 1) (cls ob)\<rparr>)" "pmap_ok m"
      "\<forall>k. (\<forall>j. unat (len - 1) \<le> j \<longrightarrow> Suc j < unat len \<longrightarrow> k \<noteq> dec_of_nat j) \<longrightarrow>
          pmap_find k m = (if k = dec_of_nat (unat (len - 1)) then None else pmap_find k (properties ob))"
      using list_Remove_run [OF ob i(2)] by blast
    obtain d where d: "unat len = Suc d" using pos by (metis Suc_pred')
    have "list_elems this h' = butlast (list_elems this h)"
      using ob h'(2,4) i d unfolding elems by (auto simp: list_elems_def)
    moreover have "list_ok this h'" using ob h'(2,3) by (simp add: list_ok_def)
    moreover have "vRemove (vtable (Suc n) N F) this (of_nat (length (list_elems this h)) - 1) h = (Inr True, h')"
      using ob h'(1) by (simp add: Let_def dispatch_list_static elems)
    ultimately show "\<exists>h'. vRemove (vtable (Suc n) N F) this (of_nat (length (list_elems this h)) - 1) h = (Inr True, h')
      \<and> list_ok this h' \<and> list_elems this h' = butlast (list_elems this h)" by blast
  }
qed

section \<open>Properties\<close>

text \<open>C37: 
  \<^verbatim>\<open>ResizeTo\<close> on a static list ends, within a number of rounds that is the difference of the sizes,
  and leaves a list of the requested size: the old elements up to that size, then the shared
  undefined value.
\<close>

theorem ResizeTo_correct:
  assumes "list_ok this h" and "length (list_elems this h) < n + unat m" and "unat m < n + length (list_elems this h)"
  shows "\<exists>h'. KList_ResizeTo n (vtable (Suc k) N F) this m h = (Inr (), h') \<and> list_ok this h'
    \<and> list_elems this h' = take (unat m) (list_elems this h)
         @ replicate (unat m - length (list_elems this h)) (Some Undefined_addr)"
  by (rule static_list.resize [OF assms])

definition demo_list_heap :: heap where
  "demo_list_heap = demo_heap\<lparr>objs := [3 \<mapsto> \<lparr>cls = CStaticBoundList 2, otype = ''StaticBoundList'',
     properties = [(dec_of_nat 0, 1), (dec_of_nat 1, 2)]\<rparr>]\<rparr>"

lemma demo_list_ok: "list_ok 3 demo_list_heap" "list_elems 3 demo_list_heap = [Some 1, Some 2]"
proof -
  have "dec_of_nat 0 = ''0''" "dec_of_nat 1 = ''1''" by code_simp+
  then show "list_ok 3 demo_list_heap" by (simp add: list_ok_def demo_list_heap_def pmap_ok_def)
  have "[0..<2] = [0, 1 :: nat]" by (simp add: numeral_2_eq_2)
  then show "list_elems 3 demo_list_heap = [Some 1, Some 2]"
    by (simp add: list_elems_def demo_list_heap_def)
qed

theorem ResizeTo_correct_witness:
  "\<exists>h'. KList_ResizeTo 3 (vtable (Suc 0) no_natives no_fnptrs) 3 4 demo_list_heap = (Inr (), h')
    \<and> list_elems 3 h' = [Some 1, Some 2, Some Undefined_addr, Some Undefined_addr]"
proof -
  have u: "unat (4 :: uint32) = 4" by simp
  then have "\<exists>h'. KList_ResizeTo 3 (vtable (Suc 0) no_natives no_fnptrs) 3 4 demo_list_heap = (Inr (), h')
      \<and> list_ok 3 h' \<and> list_elems 3 h' = take (unat (4 :: uint32)) (list_elems 3 demo_list_heap)
         @ replicate (unat (4 :: uint32) - length (list_elems 3 demo_list_heap)) (Some Undefined_addr)"
    by (intro ResizeTo_correct [OF demo_list_ok(1)]) (simp_all add: demo_list_ok)
  then show ?thesis unfolding u demo_list_ok by (auto simp: numeral_2_eq_2 simp del: vtable.simps)
qed

text \<open>
  \<^verbatim>\<open>Remove\<close> on a static list without holes deletes exactly the element at the index and moves the
  later ones down; an index out of range changes nothing.  The property of the old last index
  survives unless the last element was the one removed, so that reading one past the new end
  still finds it.
\<close>

theorem StaticBoundList_Remove_correct:
  assumes "list_ok this h" and "None \<notin> set (list_elems this h)"
  shows "\<exists>h'. StaticBoundList_Remove this i h = (Inr (unat i < length (list_elems this h)), h') \<and> list_ok this h'
    \<and> list_elems this h' = take (unat i) (list_elems this h) @ drop (Suc (unat i)) (list_elems this h)
    \<and> (Suc (unat i) < length (list_elems this h) \<longrightarrow>
        (\<exists>h''. StaticBoundList_At this (of_nat (length (list_elems this h')))  h' = (Inr (the (last (list_elems this h))), h'')))"
proof -
  obtain ob len where ob: "objs h this = Some ob" "list_length (cls ob) = Some len" "pmap_ok (properties ob)"
    using assms(1) by (auto simp: list_ok_def)
  have elems: "list_elems this h = map (\<lambda>i. pmap_find (dec_of_nat i) (properties ob)) [0..<unat len]"
    using ob by (simp add: list_elems_eq)
  show ?thesis
  proof (cases "i < len")
    case False
    then have "\<not> unat i < unat len" by (simp add: word_less_nat_alt)
    with False ob assms(1) show ?thesis
      by (intro exI [of _ h])
        (simp add: StaticBoundList_Remove_def get_length_run bindM_def retM_def elems)
  next
    case True
    then have il: "unat i < unat len" by (simp add: word_less_nat_alt)
    obtain h' m where h': "StaticBoundList_Remove this i h = (Inr True, h')"
        "objs h' = (objs h)(this \<mapsto> ob\<lparr>properties := m, cls := with_length (len - 1) (cls ob)\<rparr>)" "pmap_ok m"
        "list_elems this h' = take (unat i) (list_elems this h) @ drop (Suc (unat i)) (list_elems this h)"
        "\<And>k. \<forall>j. unat i \<le> j \<longrightarrow> Suc j < unat len \<longrightarrow> k \<noteq> dec_of_nat j \<Longrightarrow>
          pmap_find k m = (if k = dec_of_nat (unat i) then None else pmap_find k (properties ob))"
      using list_Remove_elems [OF ob True assms(2)] by blast
    have e': "length (list_elems this h') = unat len - 1" using h'(4) il by (simp add: elems)
    note h'(4)
    moreover have "list_ok this h'" using h'(2,3) ob by (simp add: list_ok_def)
    moreover have "\<exists>h''. StaticBoundList_At this (of_nat (length (list_elems this h'))) h' = (Inr (the (last (list_elems this h))), h'')"
      if "Suc (unat i) < length (list_elems this h)"
    proof -
      have l: "Suc (unat i) < unat len" using that by (simp add: elems)
      have "unat len < 2 ^ 32" using unsigned_less [of len] by simp
      then have "unat (of_nat (unat len - 1) :: uint32) = unat len - 1" by (simp add: unat_of_nat)
      moreover have "pmap_find (dec_of_nat (unat len - 1)) m = pmap_find (dec_of_nat (unat len - 1)) (properties ob)"
      proof -
        have "\<forall>j. unat i \<le> j \<longrightarrow> Suc j < unat len \<longrightarrow> dec_of_nat (unat len - 1) \<noteq> dec_of_nat j" by auto
        moreover have "unat len - 1 \<noteq> unat i" using l by arith
        ultimately show ?thesis using h'(5) by auto
      qed
      moreover have "pmap_find (dec_of_nat (unat len - 1)) (properties ob) \<in> set (list_elems this h)"
        unfolding elems set_map using l by (intro imageI) simp
      then have "pmap_find (dec_of_nat (unat len - 1)) (properties ob) \<noteq> None" using assms(2) by metis
      moreover have "last (list_elems this h) = pmap_find (dec_of_nat (unat len - 1)) (properties ob)"
        using l by (simp add: elems last_map)
      moreover have "objs h' this = Some (ob\<lparr>properties := m, cls := with_length (len - 1) (cls ob)\<rparr>)"
        using h'(2) by simp
      ultimately show ?thesis
        using list_At_run [of h' this _ "of_nat (unat len - 1)"] by (auto simp: e' not_None_eq)
    qed
    ultimately show ?thesis using h'(1) il by (auto simp: elems)
  qed
qed

theorem StaticBoundList_Remove_correct_witness:
  "\<exists>h'. StaticBoundList_Remove 3 0 demo_list_heap = (Inr True, h') \<and> list_elems 3 h' = [Some 2]
    \<and> (\<exists>h''. StaticBoundList_At 3 1 h' = (Inr 2, h''))"
  using StaticBoundList_Remove_correct [OF demo_list_ok(1), of 0] by (auto simp: demo_list_ok)

text \<open>C36: 
  \<^verbatim>\<open>SetAt\<close> stores the value where \<^verbatim>\<open>At\<close> finds it, keeps the other elements, and lengthens the
  list just enough.  The length is an unsigned 32 bit counter: at the largest index it wraps
  to zero, and the list then reports no elements although the element is stored.
\<close>

theorem StaticBoundList_SetAt_correct:
  assumes "list_ok this h"
  shows "\<exists>h'. StaticBoundList_SetAt this i v h = (Inr (), h') \<and> list_ok this h'
    \<and> (\<exists>h''. StaticBoundList_At this i h' = (Inr v, h''))
    \<and> length (list_elems this h') = (if unat i < length (list_elems this h) then length (list_elems this h)
          else Suc (unat i) mod 2 ^ 32)
    \<and> (\<forall>j < min (length (list_elems this h)) (length (list_elems this h')).
          list_elems this h' ! j = (if j = unat i then Some v else list_elems this h ! j))"
proof -
  obtain ob len where ob: "objs h this = Some ob" "list_length (cls ob) = Some len" "pmap_ok (properties ob)"
    using assms by (auto simp: list_ok_def)
  define ob1 where "ob1 = ob\<lparr>properties := pmap_insert (dec_of_nat (unat i)) v (properties ob)\<rparr>"
  define len' where "len' = (if i < len then len else i + 1)"
  define ob2 where "ob2 = ob1\<lparr>cls := with_length len' (cls ob)\<rparr>"
  define h' where "h' = h\<lparr>objs := (objs h)(this \<mapsto> ob2)\<rparr>"
  have same: "with_length len (cls ob) = cls ob" using ob(2) by (cases "cls ob") auto
  have run: "StaticBoundList_SetAt this i v h = (Inr (), h')"
    using static_Set_run [OF ob(1,3), of "dec_of_nat (unat i)" v] ob same
    by (auto simp: StaticBoundList_SetAt_def KList_IntToChars_def bindM_def get_length_def set_length_def load_obj_def
        store_obj_def of_opt_def retM_def h'_def ob1_def ob2_def len'_def)
  have p: "pmap_find (dec_of_nat j) (properties ob2) = (if j = unat i then Some v else pmap_find (dec_of_nat j) (properties ob))" for j
    using ob(3) by (simp add: ob2_def ob1_def pmap_find_insert)
  have ob2: "objs h' this = Some ob2" "list_length (cls ob2) = Some len'" "pmap_ok (properties ob2)"
    using ob by (simp_all add: h'_def ob2_def ob1_def pmap_ok_insert)
  have len: "unat len' = (if unat i < unat len then unat len else Suc (unat i) mod 2 ^ 32)"
    by (simp add: len'_def word_less_nat_alt unat_word_ariths)
  have "\<exists>h''. StaticBoundList_At this i h' = (Inr v, h'')" using list_At_run [OF ob2(1)] by (simp add: p)
  moreover have "list_ok this h'" using ob2 by (auto simp: list_ok_def)
  moreover have "length (list_elems this h') = (if unat i < length (list_elems this h) then length (list_elems this h)
          else Suc (unat i) mod 2 ^ 32)"
    using len by (simp add: list_elems_eq [OF ob(1,2)] list_elems_eq [OF ob2(1,2)])
  moreover have "\<forall>j < min (length (list_elems this h)) (length (list_elems this h')).
          list_elems this h' ! j = (if j = unat i then Some v else list_elems this h ! j)"
    by (simp add: list_elems_eq [OF ob(1,2)] list_elems_eq [OF ob2(1,2)] p)
  ultimately show ?thesis using run by blast
qed

theorem StaticBoundList_SetAt_correct_witness:
  "\<exists>h'. StaticBoundList_SetAt 3 (- 1) 1 demo_list_heap = (Inr (), h') \<and> list_elems 3 h' = []"
proof -
  have u: "unat (- 1 :: uint32) = 2 ^ 32 - 1"
    by (simp only: unsigned_minus_1_eq_mask mask_eq_exp_minus_1) simp
  have "Suc (unat (- 1 :: uint32)) mod 2 ^ 32 = 0" "\<not> unat (- 1 :: uint32) < length [Some 1, Some (2 :: nat)]"
    unfolding u by simp_all
  then show ?thesis
    using StaticBoundList_SetAt_correct [OF demo_list_ok(1), of "- 1" 1] unfolding demo_list_ok by (metis length_0_conv)
qed

end
