(* ===== verification/Kroll_ArgList.thy ===== *)
theory Kroll_ArgList
  imports Kroll_Lists
begin

text \<open>
  Argument lists of methods (\<^verbatim>\<open>src/api/binding/arg_list.cpp\<close>): signature strings, the check of the
  arguments against a signature, the text of the error, and the typed getters.  An argument list
  is the list of the addresses of its values.
\<close>

section \<open>Signatures\<close>

text \<open>One pass over the characters: a comma or a blank ends a type, even an empty one.\<close>

primrec parse_sig :: "string \<Rightarrow> string \<Rightarrow> string list \<Rightarrow> string list" where
  "parse_sig [] types acc = (if types \<noteq> [] then acc @ [types] else acc)"
| "parse_sig (c # cs) types acc =
     (if c = CHR '','' \<or> c = CHR '' '' then parse_sig cs [] (acc @ [types])
      else parse_sig cs (types @ [c]) acc)"

definition ArgList_ParseSigString :: "string \<Rightarrow> string list" where
  "ArgList_ParseSigString sig = parse_sig (c_str sig) [] []"

primrec ArgList_VerifyArg :: "Value \<Rightarrow> string \<Rightarrow> bool" where
  "ArgList_VerifyArg arg [] = False"
| "ArgList_VerifyArg arg (t # ts) =
     (if (t = CHR ''s'' \<and> Value_IsString arg) \<or> (t = CHR ''b'' \<and> Value_IsBool arg)
       \<or> (t = CHR ''i'' \<and> Value_IsInt arg) \<or> (t = CHR ''d'' \<and> Value_IsDouble arg)
       \<or> (t = CHR ''n'' \<and> Value_IsNumber arg) \<or> (t = CHR ''o'' \<and> Value_IsObject arg)
       \<or> (t = CHR ''l'' \<and> Value_IsList arg) \<or> (t = CHR ''m'' \<and> Value_IsMethod arg)
       \<or> (t = CHR ''0'' \<and> Value_IsNull arg)
      then True else ArgList_VerifyArg arg ts)"

definition starts_optional :: "string \<Rightarrow> bool" where
  "starts_optional t \<longleftrightarrow> (case t of c # _ \<Rightarrow> c = CHR ''?'' | [] \<Rightarrow> False)"

definition strip_optional :: "string \<Rightarrow> string" where
  "strip_optional t = (if starts_optional t then tl t else t)"

primrec verify_loop :: "addr list \<Rightarrow> nat \<Rightarrow> bool \<Rightarrow> string list \<Rightarrow> bool M" where
  "verify_loop args i optional [] = retM True"
| "verify_loop args i optional (t # ts) =
     (let opt = (optional \<or> starts_optional t) in
      if length args < i + 1 \<and> opt then retM True
      else if length args < i + 1 then retM False
      else bindM (load (args ! i)) (\<lambda>v.
        if \<not> ArgList_VerifyArg v (strip_optional t) then retM False
        else verify_loop args (i + 1) opt ts))"

definition ArgList_VerifyImpl :: "addr list \<Rightarrow> string list \<Rightarrow> bool M" where
  "ArgList_VerifyImpl args sig_vector = verify_loop args 0 False sig_vector"

definition ArgList_Verify :: "addr list \<Rightarrow> string \<Rightarrow> bool M" where
  "ArgList_Verify args sig = ArgList_VerifyImpl args (ArgList_ParseSigString sig)"

text \<open>The name of a type character; the first test is an \<^verbatim>\<open>if\<close> of its own, which the others do not
  extend.\<close>

definition type_name :: "char \<Rightarrow> string" where
  "type_name t = (if t = CHR ''s'' then ''String'' else []) @
     (if t = CHR ''b'' then ''Boolean'' else if t = CHR ''i'' then ''Integer'' else if t = CHR ''d'' then ''Double''
      else if t = CHR ''n'' then ''Number'' else if t = CHR ''o'' then ''Object'' else if t = CHR ''l'' then ''List''
      else if t = CHR ''m'' then ''Function'' else if t = CHR ''0'' then ''Null'' else [])"

primrec type_names :: "string \<Rightarrow> string" where
  "type_names [] = []"
| "type_names (t # ts) = type_name t @ (if ts \<noteq> [] then ''|'' else []) @ type_names ts"

primrec signature_loop :: "bool \<Rightarrow> string list \<Rightarrow> string" where
  "signature_loop optional [] = (if optional then '']'' else [])"
| "signature_loop optional (t # ts) =
     (if starts_optional t then ''['' else []) @ type_names (strip_optional t)
      @ (if ts \<noteq> [] then '','' else []) @ signature_loop (optional \<or> starts_optional t) ts"

definition ArgList_GenerateSignature :: "string \<Rightarrow> string list \<Rightarrow> string" where
  "ArgList_GenerateSignature name sig_vector = name @ ''('' @ signature_loop False sig_vector @ '')''"

definition ArgList_VerifyException :: "addr list \<Rightarrow> string \<Rightarrow> string \<Rightarrow> unit M" where
  "ArgList_VerifyException args name sig =
     bindM (ArgList_VerifyImpl args (ArgList_ParseSigString sig)) (\<lambda>ok.
       if \<not> ok then
         bindM (new_string (''Invalid arguments passed for: '' @
            ArgList_GenerateSignature name (ArgList_ParseSigString sig))) (\<lambda>e. raiseM (ValueException e))
       else retM ())"

section \<open>Getters\<close>

definition ArgList_GetInt :: "addr list \<Rightarrow> nat \<Rightarrow> int32 \<Rightarrow> int32 M" where
  "ArgList_GetInt args index defaultValue =
     (if length args > index then bindM (load (args ! index)) (\<lambda>v.
        if Value_IsInt v then retM (Value_ToInt v) else retM defaultValue)
      else retM defaultValue)"

definition ArgList_GetDouble :: "addr list \<Rightarrow> nat \<Rightarrow> double \<Rightarrow> double M" where
  "ArgList_GetDouble args index defaultValue =
     (if length args > index then bindM (load (args ! index)) (\<lambda>v.
        if Value_IsDouble v then retM (Value_ToDouble v) else retM defaultValue)
      else retM defaultValue)"

definition ArgList_GetNumber :: "addr list \<Rightarrow> nat \<Rightarrow> double \<Rightarrow> double M" where
  "ArgList_GetNumber args index defaultValue =
     (if length args > index then bindM (load (args ! index)) (\<lambda>v.
        if Value_IsNumber v then retM (Value_ToDouble v) else retM defaultValue)
      else retM defaultValue)"

definition ArgList_GetBool :: "addr list \<Rightarrow> nat \<Rightarrow> bool \<Rightarrow> bool M" where
  "ArgList_GetBool args index defaultValue =
     (if length args > index then bindM (load (args ! index)) (\<lambda>v.
        if Value_IsBool v then of_opt (Value_ToBool v) else retM defaultValue)
      else retM defaultValue)"

definition ArgList_GetString :: "addr list \<Rightarrow> nat \<Rightarrow> string \<Rightarrow> string M" where
  "ArgList_GetString args index defaultValue =
     (if length args > index then bindM (load (args ! index)) (\<lambda>v.
        if Value_IsString v then of_opt (map_option snd (Value_ToString v)) else retM defaultValue)
      else retM defaultValue)"

definition ArgList_GetObject :: "addr list \<Rightarrow> nat \<Rightarrow> addr option \<Rightarrow> addr option M" where
  "ArgList_GetObject args index defaultValue =
     (if length args > index then bindM (load (args ! index)) (\<lambda>v.
        if Value_IsObject v then retM (Value_ToObject v) else retM defaultValue)
      else retM defaultValue)"

definition ArgList_GetMethod :: "addr list \<Rightarrow> nat \<Rightarrow> addr option \<Rightarrow> addr option M" where
  "ArgList_GetMethod args index defaultValue =
     (if length args > index then bindM (load (args ! index)) (\<lambda>v.
        if Value_IsMethod v then gets (\<lambda>h. Value_ToMethod (isMethod h) v) else retM defaultValue)
      else retM defaultValue)"

definition ArgList_GetList :: "addr list \<Rightarrow> nat \<Rightarrow> addr option \<Rightarrow> addr option M" where
  "ArgList_GetList args index defaultValue =
     (if length args > index then bindM (load (args ! index)) (\<lambda>v.
        if Value_IsList v then gets (\<lambda>h. Value_ToList (isList h) v) else retM defaultValue)
      else retM defaultValue)"

lemmas ArgList_Get_defs = ArgList_GetInt_def ArgList_GetDouble_def ArgList_GetNumber_def ArgList_GetBool_def
  ArgList_GetString_def ArgList_GetObject_def ArgList_GetMethod_def ArgList_GetList_def

section \<open>What a signature means\<close>

text \<open>The characters of a type that a value has.\<close>

definition conforms :: "Value \<Rightarrow> string \<Rightarrow> bool" where
  "conforms v t \<longleftrightarrow> (\<exists>c \<in> set t. c \<in> (case type v of
      STRING \<Rightarrow> {CHR ''s''} | BOOL \<Rightarrow> {CHR ''b''} | INTV \<Rightarrow> {CHR ''i'', CHR ''n''}
    | DOUBLE \<Rightarrow> (if Value_IsInt v then {CHR ''i'', CHR ''d'', CHR ''n''} else {CHR ''d'', CHR ''n''})
    | OBJECT \<Rightarrow> {CHR ''o''} | LIST \<Rightarrow> {CHR ''l''} | METHOD \<Rightarrow> {CHR ''m''} | NULLV \<Rightarrow> {CHR ''0''} | _ \<Rightarrow> {}))"

lemma VerifyArg_conforms: "ArgList_VerifyArg v t = conforms v t"
proof (induction t)
  case (Cons c t)
  have "conforms v (c # t) \<longleftrightarrow> conforms v [c] \<or> conforms v t" by (auto simp: conforms_def)
  moreover have "conforms v [c] \<longleftrightarrow>
      (c = CHR ''s'' \<and> Value_IsString v) \<or> (c = CHR ''b'' \<and> Value_IsBool v)
       \<or> (c = CHR ''i'' \<and> Value_IsInt v) \<or> (c = CHR ''d'' \<and> Value_IsDouble v)
       \<or> (c = CHR ''n'' \<and> Value_IsNumber v) \<or> (c = CHR ''o'' \<and> Value_IsObject v)
       \<or> (c = CHR ''l'' \<and> Value_IsList v) \<or> (c = CHR ''m'' \<and> Value_IsMethod v)
       \<or> (c = CHR ''0'' \<and> Value_IsNull v)"
    by (cases "type v") (auto simp: conforms_def Value_Is_defs)
  ultimately show ?case unfolding ArgList_VerifyArg.simps Cons.IH by argo
qed (simp add: conforms_def)

lemma conforms_single:
  "conforms v ''s'' = Value_IsString v" "conforms v ''b'' = Value_IsBool v" "conforms v ''i'' = Value_IsInt v"
  "conforms v ''n'' = Value_IsNumber v" "conforms v ''o'' = Value_IsObject v" "conforms v ''m'' = Value_IsMethod v"
  "conforms v ''l'' = Value_IsList v"
  by (simp_all add: VerifyArg_conforms [symmetric])

lemma wf_value_payload:
  assumes "wf_value L M v"
  shows "Value_IsString v \<Longrightarrow> \<exists>a s. stringValue v = Some (a, s) \<and> denotes v = AString s"
    "Value_IsBool v \<Longrightarrow> \<exists>b. boolValue v = Some b \<and> denotes v = ABool b"
    "Value_IsObject v \<Longrightarrow> \<exists>p. objectValue v = Some p \<and> denotes v = AObject p"
    "Value_IsMethod v \<Longrightarrow> \<exists>p. objectValue v = Some p \<and> M p \<and> denotes v = AMethod p"
    "Value_IsList v \<Longrightarrow> \<exists>p. objectValue v = Some p \<and> L p \<and> denotes v = AList p"
  using assms
  by (cases "stringValue v"; cases "boolValue v"; cases "objectValue v";
      auto simp: wf_value_def Value_Is_defs denotes_def)+

lemma wf_value_int_like:
  "wf_value L M v \<Longrightarrow> Value_IsInt v \<Longrightarrow> int_like (numberValue v) (Value_ToInt v)"
proof -
  have "int_like (dbl_of_int i) i" for i by (simp add: int_like_def dbl_of_int_def)
  then show "wf_value L M v \<Longrightarrow> Value_IsInt v \<Longrightarrow> int_like (numberValue v) (Value_ToInt v)"
    by (auto simp: Value_IsInt_def Value_ToInt_def wf_value_def dbl_eq_cast_int_iff)
qed

definition args_conform :: "Value list \<Rightarrow> string list \<Rightarrow> bool" where
  "args_conform vs ts \<longleftrightarrow> (\<forall>i < min (length vs) (length ts). conforms (vs ! i) (strip_optional (ts ! i)))
     \<and> (length ts \<le> length vs \<or> (\<exists>j \<le> length vs. starts_optional (ts ! j)))"

lemma verify_loop_correct:
  assumes "\<forall>i < length args. cells h (args ! i) = Some (vs ! i)" and "length vs = length args" and "i \<le> length args"
  shows "verify_loop args i opt ts h = (Inr (
      (\<forall>j < min (length args - i) (length ts). conforms (vs ! (i + j)) (strip_optional (ts ! j)))
      \<and> (length ts \<le> length args - i \<or> opt \<or> (\<exists>j \<le> length args - i. starts_optional (ts ! j)))), h)"
  using assms
proof (induction ts arbitrary: i opt)
  case Nil
  then show ?case by (simp add: retM_def)
next
  case (Cons t ts)
  show ?case
  proof (cases "i = length args")
    case True
    then show ?thesis by (auto simp: Let_def retM_def)
  next
    case False
    then have i: "i < length args" using Cons.prems(3) by simp
    then obtain k where k: "length args - i = Suc k" by (metis Suc_diff_Suc)
    then have k': "length args - Suc i = k" by simp
    have load: "load (args ! i) h = (Inr (vs ! i), h)" using Cons.prems(1) i by (simp add: load_def)
    have run: "verify_loop args i opt (t # ts) h = (if \<not> conforms (vs ! i) (strip_optional t) then (Inr False, h)
        else verify_loop args (Suc i) (opt \<or> starts_optional t) ts h)"
      using i load by (simp add: Let_def bindM_def VerifyArg_conforms retM_def)
    have all: "(\<forall>j < min (Suc k) (Suc (length ts)). P j) \<longleftrightarrow> P 0 \<and> (\<forall>j < min k (length ts). P (Suc j))" for P :: "nat \<Rightarrow> bool"
      by (simp only: min_Suc_Suc All_less_Suc2)
    have ex: "(\<exists>j \<le> Suc k. P j) \<longleftrightarrow> P 0 \<or> (\<exists>j \<le> k. P (Suc j))" for P :: "nat \<Rightarrow> bool"
      by (metis Suc_le_mono le0 not0_implies_Suc)
    show ?thesis
      unfolding run k length_Cons all ex using Cons.IH [of "Suc i" "opt \<or> starts_optional t"] Cons.prems i k'
      by auto
  qed
qed

lemma VerifyException_ok:
  assumes "list_all2 (\<lambda>a v. cells h a = Some v) args vs" and "args_conform vs (ArgList_ParseSigString sig)"
  shows "ArgList_VerifyException args name sig h = (Inr (), h)"
proof -
  have "\<forall>i < length args. cells h (args ! i) = Some (vs ! i)" "length vs = length args"
    using assms(1) by (simp_all add: list_all2_conv_all_nth)
  from verify_loop_correct [OF this, of 0 False] assms(2) \<open>length vs = length args\<close> show ?thesis
    by (simp add: ArgList_VerifyException_def ArgList_VerifyImpl_def args_conform_def bindM_def retM_def)
qed

lemma args_conform_Nil [simp]: "args_conform vs [] \<longleftrightarrow> True"
  by (simp add: args_conform_def)

lemma args_conform_simps [simp]:
  "args_conform [] (t # ts) \<longleftrightarrow> starts_optional t"
  "args_conform [v] [t] \<longleftrightarrow> conforms v (strip_optional t)"
  "args_conform [v] (t # t' # ts) \<longleftrightarrow> conforms v (strip_optional t) \<and> (starts_optional t \<or> starts_optional t')"
  "args_conform [v, w] [t, t'] \<longleftrightarrow> conforms v (strip_optional t) \<and> conforms w (strip_optional t')"
  by (auto simp: args_conform_def less_Suc_eq le_Suc_eq)

lemma denotes_Is:
  "denotes v = AString s \<Longrightarrow> Value_IsString v" "denotes v = AInt i \<Longrightarrow> Value_IsInt v \<and> Value_ToInt v = i \<and> \<not> Value_IsString v"
  by (auto simp: denotes_def Value_Is_defs Value_ToInt_def split: vtype.splits)

lemma GetString_run:
  assumes "wf_heap h" and "i < length args" and "cells h (args ! i) = Some v" and "denotes v = AString s"
  shows "ArgList_GetString args i d h = (Inr s, h)"
proof -
  have "wf_value (isList h) (isMethod h) v" using wf_heap_cell [OF assms(1,3)] by (simp add: wf_cell_def)
  then obtain a where "stringValue v = Some (a, s)" using wf_value_payload(1) denotes_Is(1) [OF assms(4)] assms(4) by fastforce
  then show ?thesis
    using assms denotes_Is(1) [OF assms(4)]
    by (simp add: ArgList_GetString_def bindM_def load_def of_opt_def Value_ToString_def retM_def)
qed

lemma GetInt_run:
  assumes "i < length args" and "cells h (args ! i) = Some v" and "denotes v = AInt k"
  shows "ArgList_GetInt args i d h = (Inr k, h)"
  using assms denotes_Is(2) [OF assms(3)] by (simp add: ArgList_GetInt_def bindM_def load_def retM_def)

lemma parse_sig_split:
  "parse_sig s types acc = acc @ (let ps = (types @ hd (split_at '', '' s)) # tl (split_at '', '' s) in
     if last ps = [] then butlast ps else ps)"
proof (induction s arbitrary: types acc)
  case Nil
  then show ?case by simp
next
  case (Cons c s)
  obtain p ps where ps: "split_at '', '' s = p # ps" by (cases "split_at '', '' s") auto
  show ?case
  proof (cases "c = CHR '','' \<or> c = CHR '' ''")
    case True
    then show ?thesis using Cons.IH [of "[]" "acc @ [types]"] ps by (auto simp: Let_def)
  next
    case False
    then show ?thesis using Cons.IH [of "types @ [c]" acc] ps by (simp add: Let_def)
  qed
qed

section \<open>Properties\<close>

text \<open>
  A signature string is cut at every comma and blank; only an empty last type is dropped, so a
  separator of more than one character leaves empty types, which no value has.
\<close>

theorem ParseSigString_correct:
  "ArgList_ParseSigString sig = (let ps = split_at '', '' (c_str sig) in if last ps = [] then butlast ps else ps)
   \<and> \<not> conforms v (strip_optional [])"
proof -
  obtain p ps where "split_at '', '' (c_str sig) = p # ps" by (cases "split_at '', '' (c_str sig)") auto
  then show ?thesis
    using parse_sig_split [of "c_str sig" "[]" "[]"]
    by (simp add: ArgList_ParseSigString_def Let_def conforms_def strip_optional_def starts_optional_def)
qed

text \<open>C38: 
  \<^verbatim>\<open>Verify\<close> accepts exactly the argument lists whose every argument that the signature covers has
  one of the types of its position, and that are long enough, or end at or after a type marked
  optional.  \<^verbatim>\<open>VerifyException\<close> returns for these and throws the error text for all others.
\<close>

theorem ArgList_Verify_correct:
  assumes "\<forall>i < length args. cells h (args ! i) = Some (vs ! i)" and "length vs = length args"
  shows "ArgList_Verify args sig h = (Inr (args_conform vs (ArgList_ParseSigString sig)), h)
    \<and> (args_conform vs (ArgList_ParseSigString sig) \<longrightarrow> ArgList_VerifyException args name sig h = (Inr (), h))
    \<and> (\<not> args_conform vs (ArgList_ParseSigString sig) \<longrightarrow>
        (\<exists>e h' v. ArgList_VerifyException args name sig h = (Inl (ValueException e), h') \<and> cells h' e = Some v
          \<and> denotes v = AString (c_str (''Invalid arguments passed for: '' @
              ArgList_GenerateSignature name (ArgList_ParseSigString sig)))))"
proof -
  have v: "ArgList_VerifyImpl args ts h = (Inr (args_conform vs ts), h)" for ts
    using verify_loop_correct [OF assms, of 0 False ts] assms(2)
    by (simp add: ArgList_VerifyImpl_def args_conform_def)
  show ?thesis
    by (simp add: ArgList_Verify_def v ArgList_VerifyException_def bindM_def retM_def raiseM_def new_string_def
        fresh_def new_value_def Value_NewString_def)
qed

theorem ArgList_Verify_correct_witness:
  "ArgList_Verify [1, 2] ''s ?0'' (demo_heap\<lparr>cells := [1 \<mapsto> Value_NewString 9 ''x'', 2 \<mapsto> Value_NewNull]\<rparr>)
     = (Inr True, demo_heap\<lparr>cells := [1 \<mapsto> Value_NewString 9 ''x'', 2 \<mapsto> Value_NewNull]\<rparr>)"
proof -
  define h where "h = demo_heap\<lparr>cells := [1 \<mapsto> Value_NewString 9 ''x'', 2 \<mapsto> Value_NewNull]\<rparr>"
  have "\<forall>i < length [1, 2]. cells h ([1, 2] ! i) = Some ([Value_NewString 9 ''x'', Value_NewNull] ! i)"
    by (simp add: h_def less_Suc_eq numeral_2_eq_2)
  then have "ArgList_Verify [1, 2] ''s ?0'' h
      = (Inr (args_conform [Value_NewString 9 ''x'', Value_NewNull] (ArgList_ParseSigString ''s ?0'')), h)"
    using ArgList_Verify_correct [of "[1, 2]" h "[Value_NewString 9 ''x'', Value_NewNull]"] by simp
  moreover have "ArgList_ParseSigString ''s ?0'' = [''s'', ''?0'']" by (simp add: ArgList_ParseSigString_def)
  moreover have "args_conform [Value_NewString 9 ''x'', Value_NewNull] [''s'', ''?0'']"
    by (simp add: args_conform_def conforms_def strip_optional_def starts_optional_def Value_New_defs Value_Set_defs less_Suc_eq)
  ultimately show ?thesis by (simp add: h_def)
qed

text \<open>C39: 
  A position whose type is the one of a getter is never answered with the default: once a list
  has passed \<^verbatim>\<open>Verify\<close>, the getter of the type returns the argument itself.
\<close>

theorem ArgList_getters_after_Verify:
  assumes "wf_heap h" and "\<forall>i < length args. cells h (args ! i) = Some (vs ! i)" and "length vs = length args"
    and "args_conform vs ts" and "i < length args" and "i < length ts"
  shows "(strip_optional (ts ! i) = ''s'' \<longrightarrow> (\<exists>s. denotes (vs ! i) = AString s \<and> ArgList_GetString args i d1 h = (Inr s, h)))
    \<and> (strip_optional (ts ! i) = ''b'' \<longrightarrow> (\<exists>b. denotes (vs ! i) = ABool b \<and> ArgList_GetBool args i d2 h = (Inr b, h)))
    \<and> (strip_optional (ts ! i) = ''i'' \<longrightarrow> (\<exists>k. int_like (numberValue (vs ! i)) k \<and> ArgList_GetInt args i d3 h = (Inr k, h)))
    \<and> (strip_optional (ts ! i) = ''n'' \<longrightarrow> ArgList_GetNumber args i d4 h = (Inr (numberValue (vs ! i)), h))
    \<and> (strip_optional (ts ! i) = ''o'' \<longrightarrow> (\<exists>p. denotes (vs ! i) = AObject p \<and> ArgList_GetObject args i d5 h = (Inr (Some p), h)))
    \<and> (strip_optional (ts ! i) = ''m'' \<longrightarrow> (\<exists>p. denotes (vs ! i) = AMethod p \<and> ArgList_GetMethod args i d6 h = (Inr (Some p), h)))
    \<and> (strip_optional (ts ! i) = ''l'' \<longrightarrow> (\<exists>p. denotes (vs ! i) = AList p \<and> ArgList_GetList args i d7 h = (Inr (Some p), h)))"
proof -
  let ?v = "vs ! i"
  have load: "load (args ! i) h = (Inr ?v, h)" and cell: "cells h (args ! i) = Some ?v"
    using assms(2,5) by (simp_all add: load_def)
  have wf: "wf_value (isList h) (isMethod h) ?v" using wf_heap_cell [OF assms(1) cell] by (simp add: wf_cell_def)
  have c: "conforms ?v (strip_optional (ts ! i))" using assms(3-6) by (simp add: args_conform_def)
  note run = ArgList_Get_defs assms(5) load bindM_def retM_def of_opt_def gets_def
  show ?thesis
    using c wf_value_payload [OF wf] wf_value_int_like [OF wf]
    by (intro conjI impI) (auto simp: conforms_single run Value_To_defs autoptr_cast_def)
qed

theorem ArgList_getters_after_Verify_witness:
  "ArgList_GetNumber [Undefined_addr, Null_addr] 0 NaN (demo_heap\<lparr>cells := (cells demo_heap)(Undefined_addr \<mapsto> Value_NewInt 7)\<rparr>)
     = (Inr (dbl_of_int 7), demo_heap\<lparr>cells := (cells demo_heap)(Undefined_addr \<mapsto> Value_NewInt 7)\<rparr>)"
proof -
  define h where "h = demo_heap\<lparr>cells := (cells demo_heap)(Undefined_addr \<mapsto> Value_NewInt 7)\<rparr>"
  have "sound demo_heap (store Undefined_addr (Value_NewInt 7)) (\<lambda>_ _. True)"
    using demo_heap_plain by (intro sound_store) (auto simp: plain_def)
  then have wf: "wf_heap h" by (simp add: sound_def store_def h_def demo_heap_def Undefined_addr_def Null_addr_def)
  have cells: "\<forall>i < length [Undefined_addr, Null_addr]. cells h ([Undefined_addr, Null_addr] ! i)
      = Some ([Value_NewInt 7, Value_NewNull] ! i)"
    by (simp add: h_def demo_heap_def less_Suc_eq Undefined_addr_def Null_addr_def)
  have "args_conform [Value_NewInt 7, Value_NewNull] [''n'']"
    by (simp add: args_conform_def conforms_def strip_optional_def starts_optional_def Value_New_defs Value_Set_defs)
  then show ?thesis
    using ArgList_getters_after_Verify [OF wf cells, of "[''n'']" 0]
    by (simp add: strip_optional_def starts_optional_def h_def Value_New_defs Value_Set_defs)
qed

end
