(* ===== verification/Kroll_Blob.thy ===== *)
theory Kroll_Blob
  imports Kroll_ArgList
begin

text \<open>
  Blobs (\<^verbatim>\<open>src/api/binding/blob.cpp\<close>): byte buffers with a length, bound to scripts with the
  methods of a string.  The buffer is its address and its bytes; it is followed by a NUL, as the
  constructors make it and the header demands of a caller who passes a buffer, so that reading it
  as a C string stops at its first NUL or at its end.  The two case conversions call
  \<^verbatim>\<open>Poco::toLower\<close> and \<^verbatim>\<open>Poco::toUpper\<close>, which are arguments here.  Lengths and positions are
  \<^verbatim>\<open>int\<close>s.
\<close>

section \<open>Results\<close>

definition set_result :: "addr \<Rightarrow> (Value \<Rightarrow> Value) \<Rightarrow> unit M" where
  "set_result r f = bindM (load r) (\<lambda>v. store r (f v))"

definition set_string_result :: "addr \<Rightarrow> string \<Rightarrow> unit M" where
  "set_string_result r s = bindM fresh (\<lambda>b. set_result r (Value_SetString b s))"

section \<open>Construction\<close>

definition Blob_obj :: "(addr \<times> string) option \<Rightarrow> int32 \<Rightarrow> kobj" where
  "Blob_obj b len = \<lparr>cls = CBlob b len, otype = ''Blob'', properties = []\<rparr>"

definition blob_methods :: "(string \<times> blob_op) list" where
  "blob_methods = [(''toString'', Blob_toString), (''get'', Blob_get), (''indexOf'', Blob_indexOf),
     (''lastIndexOf'', Blob_lastIndexOf), (''charAt'', Blob_charAt), (''split'', Blob_split),
     (''substring'', Blob_substring), (''substr'', Blob_substr), (''toLowerCase'', Blob_toLowerCase),
     (''toUpperCase'', Blob_toUpperCase), (''concat'', Blob_concat)]"

text \<open>\<^verbatim>\<open>SetMethod\<close> of a static object: a method value for a member function of the object.\<close>

definition StaticBoundObject_SetMethod :: "addr \<Rightarrow> string \<Rightarrow> callback \<Rightarrow> unit M" where
  "StaticBoundObject_SetMethod this name cb =
     bindM (new_object (StaticBoundMethod_new (Some cb) ''StaticBoundMethod'')) (\<lambda>m.
     bindM (new_value (Value_NewMethod (Some m))) (\<lambda>v. StaticBoundObject_Set this name v))"

primrec set_methods :: "addr \<Rightarrow> (string \<times> blob_op) list \<Rightarrow> unit M" where
  "set_methods this [] = retM ()"
| "set_methods this (p # ps) =
     bindM (StaticBoundObject_SetMethod this (fst p) (Blob_Method (snd p) this)) (\<lambda>_. set_methods this ps)"

definition Blob_CreateWithReference :: "addr \<Rightarrow> (addr \<times> string) option \<Rightarrow> int32 \<Rightarrow> unit M" where
  "Blob_CreateWithReference this b len =
     bindM (load_obj this) (\<lambda>ob.
     bindM (store_obj this (ob\<lparr>cls := CBlob b len\<rparr>)) (\<lambda>_.
     bindM (set_methods this blob_methods) (\<lambda>_.
     bindM (new_value (Value_NewInt len)) (\<lambda>v. StaticBoundObject_Set this ''length'' v))))"

definition Blob_CreateWithCopy :: "addr \<Rightarrow> string \<Rightarrow> int32 \<Rightarrow> unit M" where
  "Blob_CreateWithCopy this bytes len =
     (if 0 < sint len
      then bindM fresh (\<lambda>b. Blob_CreateWithReference this (Some (b, take (nat (sint len)) bytes)) len)
      else Blob_CreateWithReference this None len)"

definition Blob_new :: "string \<Rightarrow> int32 \<Rightarrow> addr M" where
  "Blob_new bytes len =
     bindM (new_object (Blob_obj None 0)) (\<lambda>this.
     bindM (Blob_CreateWithCopy this bytes len) (\<lambda>_. retM this))"

text \<open>\<^verbatim>\<open>Blob(std::string)\<close>: the length of the string is converted to an \<^verbatim>\<open>int\<close>.\<close>

definition Blob_new_string :: "string \<Rightarrow> addr M" where
  "Blob_new_string s = Blob_new s (of_nat (length s))"

definition Blob_new_reference :: "(addr \<times> string) option \<Rightarrow> int32 \<Rightarrow> addr M" where
  "Blob_new_reference b len =
     bindM (new_object (Blob_obj None 0)) (\<lambda>this.
     bindM (Blob_CreateWithReference this b len) (\<lambda>_. retM this))"

definition get_blob :: "addr \<Rightarrow> ((addr \<times> string) option \<times> int32) M" where
  "get_blob this = bindM (load_obj this) (\<lambda>ob. case cls ob of CBlob b len \<Rightarrow> retM (b, len) | _ \<Rightarrow> raiseM UB)"

text \<open>\<^verbatim>\<open>std::string target = this->buffer\<close>.\<close>

definition blob_c_str :: "(addr \<times> string) option \<Rightarrow> string M" where
  "blob_c_str b = bindM (of_opt b) (\<lambda>p. retM (c_str (snd p)))"

definition blob_target :: "(addr \<times> string) option \<Rightarrow> int32 \<Rightarrow> string M" where
  "blob_target b len = (if 0 < sint len then blob_c_str b else retM [])"

section \<open>Methods\<close>

definition Blob_ToString :: "addr \<Rightarrow> addr \<Rightarrow> unit M" where
  "Blob_ToString this result = bindM (get_blob this) (\<lambda>(b, len).
     if len = 0 then set_string_result result []
     else bindM (of_opt b) (\<lambda>p. set_string_result result (snd p)))"

definition Blob_Get :: "addr \<Rightarrow> addr \<Rightarrow> unit M" where
  "Blob_Get this result = bindM (get_blob this) (\<lambda>(b, len).
     set_result result (Value_SetVoidPtr (case b of Some p \<Rightarrow> fst p | None \<Rightarrow> 0)))"

definition Blob_Length :: "addr \<Rightarrow> addr \<Rightarrow> unit M" where
  "Blob_Length this result = bindM (get_blob this) (\<lambda>(b, len). set_result result (Value_SetInt len))"

text \<open>A position of \<^verbatim>\<open>std::string\<close> stored in an \<^verbatim>\<open>int\<close>; \<^verbatim>\<open>npos\<close> becomes -1.\<close>

definition int_of_pos :: "nat option \<Rightarrow> int32" where
  "int_of_pos p = (case p of Some i \<Rightarrow> of_nat i | None \<Rightarrow> - 1)"

definition arg_string :: "addr list \<Rightarrow> nat \<Rightarrow> string M" where
  "arg_string args i = bindM (args_at args i) (\<lambda>a. bindM (load a) (\<lambda>v. of_opt (map_option snd (Value_ToString v))))"

text \<open>\<^verbatim>\<open>int start = args.GetNumber(1)\<close>, and negative starts are zero.\<close>

definition start_arg :: "addr list \<Rightarrow> int \<Rightarrow> int M" where
  "start_arg args dflt =
     (if length args > 1 then bindM (ArgList_GetNumber args 1 (Fin 0)) (\<lambda>d.
        let s = sint (cast_int d) in retM (if s < 0 then 0 else s))
      else retM dflt)"

definition Blob_IndexOf :: "addr \<Rightarrow> addr list \<Rightarrow> addr \<Rightarrow> unit M" where
  "Blob_IndexOf this args result =
     bindM (ArgList_VerifyException args ''Blob.indexOf'' ''s,?i'') (\<lambda>_.
     bindM (get_blob this) (\<lambda>(b, len).
       if sint len \<le> 0 then set_result result (Value_SetInt (- 1))
       else bindM (blob_c_str b) (\<lambda>target.
            bindM (arg_string args 0) (\<lambda>needle.
            bindM (start_arg args 0) (\<lambda>start.
              set_result result (Value_SetInt (int_of_pos (str_find target needle (nat start)))))))))"

definition Blob_LastIndexOf :: "addr \<Rightarrow> addr list \<Rightarrow> addr \<Rightarrow> unit M" where
  "Blob_LastIndexOf this args result =
     bindM (ArgList_VerifyException args ''Blob.lastIndexOf'' ''s,?i'') (\<lambda>_.
     bindM (get_blob this) (\<lambda>(b, len).
       if sint len \<le> 0 then set_result result (Value_SetInt (- 1))
       else bindM (blob_c_str b) (\<lambda>target.
            bindM (arg_string args 0) (\<lambda>needle.
            bindM (start_arg args (int (length target) + 1)) (\<lambda>start.
              set_result result (Value_SetInt (int_of_pos (str_rfind target needle (nat start)))))))))"

definition Blob_CharAt :: "addr \<Rightarrow> addr list \<Rightarrow> addr \<Rightarrow> unit M" where
  "Blob_CharAt this args result =
     bindM (ArgList_VerifyException args ''Blob.charAt'' ''n'') (\<lambda>_.
     bindM (args_at args 0) (\<lambda>a. bindM (load a) (\<lambda>v.
     bindM (get_blob this) (\<lambda>(b, len).
       let position = sint (Value_ToInt v) in
       if 0 \<le> position \<and> position < sint len
       then bindM (of_opt b) (\<lambda>p.
            if nat position < length (snd p) then set_string_result result [snd p ! nat position] else raiseM UB)
       else set_string_result result []))))"

text \<open>The loop of \<^verbatim>\<open>Split\<close>: the rest of the target always starts one character after the match.\<close>

definition split_token :: "string \<Rightarrow> string \<Rightarrow> nat \<Rightarrow> string" where
  "split_token target separator next = (if separator = [] then take 1 target else take next target)"

function split_loop :: "addr \<Rightarrow> string \<Rightarrow> int \<Rightarrow> string \<Rightarrow> unit M" where
  "split_loop lst separator limit target =
     (case str_find target separator 0 of
        Some nxt \<Rightarrow>
          (if target \<noteq> [] then
             bindM (StaticBoundList_Size lst) (\<lambda>size.
               if sint size \<ge> limit then retM ()
               else bindM (new_string (split_token target separator nxt)) (\<lambda>tok.
                    bindM (StaticBoundList_Append lst tok) (\<lambda>_.
                      split_loop lst separator limit (drop (nxt + 1) target))))
           else
             bindM (StaticBoundList_Size lst) (\<lambda>size.
               if sint size < limit \<and> separator \<noteq> []
               then bindM (new_string target) (\<lambda>tok. StaticBoundList_Append lst tok)
               else retM ()))
      | None \<Rightarrow>
          bindM (StaticBoundList_Size lst) (\<lambda>size.
            if sint size < limit \<and> separator \<noteq> []
            then bindM (new_string target) (\<lambda>tok. StaticBoundList_Append lst tok)
            else retM ()))"
  by pat_completeness auto
termination
  by (relation "measure (\<lambda>(lst, separator, limit, target). length target)") auto

declare split_loop.simps [simp del]

definition Blob_Split :: "addr \<Rightarrow> addr list \<Rightarrow> addr \<Rightarrow> unit M" where
  "Blob_Split this args result =
     bindM (ArgList_VerifyException args ''Blob.split'' ''?s,i'') (\<lambda>_.
     bindM (new_object (StaticBoundList_new ''StaticBoundList'')) (\<lambda>lst.
     bindM (set_result result (Value_SetList (Some lst))) (\<lambda>_.
     bindM (get_blob this) (\<lambda>(b, len).
       if \<not> 0 < sint len then bindM (new_string []) (\<lambda>v. StaticBoundList_Append lst v)
       else bindM (blob_c_str b) (\<lambda>target.
         if args = [] then bindM (new_string target) (\<lambda>v. StaticBoundList_Append lst v)
         else bindM (ArgList_GetString args 0 []) (\<lambda>separator.
              bindM (if length args > 1 then bindM (ArgList_GetInt args 1 0) (\<lambda>i. retM (sint i)) else retM (2 ^ 31 - 1))
                (\<lambda>limit. split_loop lst separator limit target)))))))"

text \<open>\<^verbatim>\<open>-1 * start\<close> overflows for the least \<^verbatim>\<open>int\<close>; \<^verbatim>\<open>substr\<close> throws when it starts past the end.\<close>

definition Blob_Substr :: "addr \<Rightarrow> addr list \<Rightarrow> addr \<Rightarrow> unit M" where
  "Blob_Substr this args result =
     bindM (ArgList_VerifyException args ''Blob.substr'' ''i,?i'') (\<lambda>_.
     bindM (get_blob this) (\<lambda>(b, len).
     bindM (blob_target b len) (\<lambda>target.
     bindM (ArgList_GetInt args 0 0) (\<lambda>i0.
       let blen = sint len; s0 = sint i0 in
       if s0 > 0 \<and> s0 \<ge> blen then set_string_result result []
       else if s0 = - (2 ^ 31) then raiseM UB
       else
         let start = (if s0 < 0 \<and> - s0 > blen then 0 else if s0 < 0 then blen + s0 else s0) in
         bindM (if length args > 1 then bindM (ArgList_GetInt args 1 0) (\<lambda>i1. retM (sint i1)) else retM (blen - start)) (\<lambda>n.
           if n \<le> 0 then set_string_result result []
           else (case substr target (nat start) (Some (nat n)) of
               Some r \<Rightarrow> set_string_result result r
             | None \<Rightarrow> raiseM OutOfRange))))))"

definition clamp_index :: "int \<Rightarrow> string \<Rightarrow> int" where
  "clamp_index i target = (let j = (if i < 0 then 0 else i) in if j > int (length target) then int (length target) else j)"

definition substring_between :: "addr \<Rightarrow> string \<Rightarrow> int \<Rightarrow> int \<Rightarrow> unit M" where
  "substring_between result target indexA indexB =
     (if indexA = indexB then set_string_result result []
      else
        let lo = (if indexA > indexB then indexB else indexA);
            hi = (if indexA > indexB then indexA else indexB) in
        (case substr target (nat lo) (Some (nat (hi - lo))) of
           Some r \<Rightarrow> set_string_result result r | None \<Rightarrow> raiseM OutOfRange))"

definition Blob_Substring :: "addr \<Rightarrow> addr list \<Rightarrow> addr \<Rightarrow> unit M" where
  "Blob_Substring this args result =
     bindM (ArgList_VerifyException args ''Blob.substring'' ''i,?i'') (\<lambda>_.
     bindM (get_blob this) (\<lambda>(b, len).
     bindM (blob_target b len) (\<lambda>target.
     bindM (ArgList_GetInt args 0 0) (\<lambda>a0.
       let indexA = clamp_index (sint a0) target in
       if length args < 2 then
         (case substr target (nat indexA) None of
            Some r \<Rightarrow> set_string_result result r | None \<Rightarrow> raiseM OutOfRange)
       else bindM (ArgList_GetInt args 1 0) (\<lambda>b0.
         substring_between result target indexA (clamp_index (sint b0) target))))))"

definition Blob_ToLowerCase :: "(string \<Rightarrow> string) \<Rightarrow> addr \<Rightarrow> addr \<Rightarrow> unit M" where
  "Blob_ToLowerCase toLower this result = bindM (get_blob this) (\<lambda>(b, len).
     if 0 < sint len then bindM (blob_c_str b) (\<lambda>target. set_string_result result (toLower target))
     else set_result result Value_SetNull)"

definition Blob_ToUpperCase :: "(string \<Rightarrow> string) \<Rightarrow> addr \<Rightarrow> addr \<Rightarrow> unit M" where
  "Blob_ToUpperCase toUpper this result = bindM (get_blob this) (\<lambda>(b, len).
     if 0 < sint len then bindM (blob_c_str b) (\<lambda>target. set_string_result result (toUpper target))
     else set_result result Value_SetNull)"

text \<open>Concatenation: the lengths are added as \<^verbatim>\<open>int\<close>s, the buffers copied one after the other.  With
  nothing to add the blob itself is returned, after \<^verbatim>\<open>duplicate\<close> has touched it.\<close>

primrec concat_size :: "addr list \<Rightarrow> int \<Rightarrow> int M" where
  "concat_size [] sz = retM sz"
| "concat_size (p # ps) sz =
     bindM (get_blob p) (\<lambda>(b, len).
       if sz + sint len < 2 ^ 31 \<and> sz + sint len \<ge> - (2 ^ 31)
       then concat_size ps (sz + sint len) else raiseM UB)"

primrec concat_bytes :: "addr list \<Rightarrow> string \<Rightarrow> string M" where
  "concat_bytes [] acc = retM acc"
| "concat_bytes (p # ps) acc =
     bindM (get_blob p) (\<lambda>(b, len).
       if 0 < sint len then bindM (of_opt b) (\<lambda>q. concat_bytes ps (acc @ take (nat (sint len)) (snd q)))
       else concat_bytes ps acc)"

definition Blob_ConcatBlobs :: "addr \<Rightarrow> addr list \<Rightarrow> addr M" where
  "Blob_ConcatBlobs this blobs =
     (if blobs = [] then bindM (load_obj this) (\<lambda>_. retM this)
      else bindM (get_blob this) (\<lambda>(b, len).
           bindM (concat_size blobs (sint len)) (\<lambda>size.
           bindM fresh (\<lambda>buf.
           bindM (if sint len < 0 then raiseM UB
                  else if 0 < sint len then bindM (of_opt b) (\<lambda>q. retM (take (nat (sint len)) (snd q))) else retM []) (\<lambda>first.
           bindM (concat_bytes blobs first) (\<lambda>bytes.
             Blob_new_reference (Some (buf, bytes)) (word_of_int size)))))))"

definition is_blob :: "kclass \<Rightarrow> bool" where
  "is_blob c = (case c of CBlob _ _ \<Rightarrow> True | _ \<Rightarrow> False)"

primrec concat_args :: "addr list \<Rightarrow> addr list \<Rightarrow> addr list M" where
  "concat_args [] blobs = retM blobs"
| "concat_args (a # args) blobs =
     bindM (load a) (\<lambda>v.
       if Value_IsObject v then
         bindM (gets (\<lambda>h. has_class is_blob h (Value_ToObject v))) (\<lambda>isb.
           if isb then bindM (of_opt (Value_ToObject v)) (\<lambda>p. concat_args args (blobs @ [p]))
           else concat_args args blobs)
       else if Value_IsString v then
         bindM (of_opt (map_option snd (Value_ToString v))) (\<lambda>s.
         bindM (Blob_new_string s) (\<lambda>p. concat_args args (blobs @ [p])))
       else concat_args args blobs)"

definition Blob_Concat :: "addr \<Rightarrow> addr list \<Rightarrow> addr \<Rightarrow> unit M" where
  "Blob_Concat this args result =
     bindM (concat_args args []) (\<lambda>blobs.
     bindM (Blob_ConcatBlobs this blobs) (\<lambda>p. set_result result (Value_SetObject (Some p))))"

definition Blob_GlobBlobs :: "addr list \<Rightarrow> addr M" where
  "Blob_GlobBlobs blobs = bindM (Blob_new [] 0) (\<lambda>blob. Blob_ConcatBlobs blob blobs)"

text \<open>The member function behind each bound name.\<close>

fun Blob_call :: "(string \<Rightarrow> string) \<Rightarrow> (string \<Rightarrow> string) \<Rightarrow> blob_op \<Rightarrow> addr \<Rightarrow> addr list \<Rightarrow> addr \<Rightarrow> unit M" where
  "Blob_call lo up Blob_toString this args result = Blob_ToString this result"
| "Blob_call lo up Blob_get this args result = Blob_Get this result"
| "Blob_call lo up Blob_indexOf this args result = Blob_IndexOf this args result"
| "Blob_call lo up Blob_lastIndexOf this args result = Blob_LastIndexOf this args result"
| "Blob_call lo up Blob_charAt this args result = Blob_CharAt this args result"
| "Blob_call lo up Blob_split this args result = Blob_Split this args result"
| "Blob_call lo up Blob_substring this args result = Blob_Substring this args result"
| "Blob_call lo up Blob_substr this args result = Blob_Substr this args result"
| "Blob_call lo up Blob_toLowerCase this args result = Blob_ToLowerCase lo this result"
| "Blob_call lo up Blob_toUpperCase this args result = Blob_ToUpperCase up this result"
| "Blob_call lo up Blob_concat this args result = Blob_Concat this args result"

section \<open>Running list and object updates\<close>

text \<open>What an update keeps: the values of all cells, and of all objects but one.\<close>

definition frame :: "addr set \<Rightarrow> heap \<Rightarrow> heap \<Rightarrow> bool" where
  "frame A h h' \<longleftrightarrow> heap_le h h' \<and> (\<forall>a. cells h a \<noteq> None \<longrightarrow> cells h' a = cells h a)
     \<and> (\<forall>a. a \<notin> A \<longrightarrow> objs h a \<noteq> None \<longrightarrow> objs h' a = objs h a)"

lemma frame_refl: "frame A h h"
  by (simp add: frame_def)

lemma frame_trans: "frame A h h1 \<Longrightarrow> frame A h1 h2 \<Longrightarrow> frame A h h2"
  unfolding frame_def by (metis heap_le_trans)

lemma frame_mono: "frame A h h' \<Longrightarrow> A \<subseteq> B \<Longrightarrow> frame B h h'"
  by (auto simp: frame_def)

lemma new_value_run:
  assumes "wf_heap h" and "wf_cell h v"
  shows "\<exists>x h'. new_value v h = (Inr x, h') \<and> wf_heap h' \<and> cells h' x = Some v \<and> cells h x = None \<and> frame {} h h' \<and> objs h' = objs h"
  using sound_new_value [OF assms] wf_heap_fresh [OF assms(1)]
  by (auto simp: sound_def new_value_def frame_def)

lemma new_string_run:
  assumes "wf_heap h"
  shows "\<exists>x h' v. new_string s h = (Inr x, h') \<and> wf_heap h' \<and> cells h' x = Some v \<and> denotes v = AString (c_str s)
    \<and> frame {} h h' \<and> objs h' = objs h"
proof -
  define h1 where "h1 = h\<lparr>next_addr := Suc (next_addr h)\<rparr>"
  have h1: "wf_heap h1" "frame {} h h1" "objs h1 = objs h"
    using sound_fresh [OF assms] by (simp_all add: sound_def fresh_def h1_def frame_def)
  obtain x h2 where h2: "new_value (Value_NewString (next_addr h) s) h1 = (Inr x, h2)" "wf_heap h2"
      "cells h2 x = Some (Value_NewString (next_addr h) s)" "frame {} h1 h2" "objs h2 = objs h1"
    using new_value_run [OF h1(1), of "Value_NewString (next_addr h) s"] by auto
  moreover have "new_string s h = (Inr x, h2)" using h2(1) by (simp add: new_string_def bindM_def fresh_def h1_def)
  ultimately show ?thesis
    using h1 frame_trans [OF h1(2) h2(4)] by (auto simp: Value_NewString_def)
qed

definition list_values :: "addr \<Rightarrow> heap \<Rightarrow> aval list" where
  "list_values l h = map (\<lambda>p. case p of Some x \<Rightarrow> (case cells h x of Some v \<Rightarrow> denotes v | None \<Rightarrow> AUndefined)
     | None \<Rightarrow> AUndefined) (list_elems l h)"

lemma list_elems_live: "wf_heap h \<Longrightarrow> Some x \<in> set (list_elems l h) \<Longrightarrow> cells h x \<noteq> None"
  by (auto simp: list_elems_def dest: wf_heap_property [OF _ sym sym] split: option.splits)

lemma list_values_frame:
  assumes "wf_heap h" and "frame A h h'" and "objs h' l = objs h l"
  shows "list_values l h' = list_values l h"
proof -
  have "list_elems l h' = list_elems l h" using assms(3) by (simp add: list_elems_def)
  moreover have "cells h' x = cells h x" if "Some x \<in> set (list_elems l h)" for x
    using that list_elems_live [OF assms(1)] assms(2) by (simp add: frame_def)
  ultimately show ?thesis by (auto simp: list_values_def split: option.split)
qed

lemma push_string_run:
  assumes wf: "wf_heap h" and ob: "objs h l = Some ob" "list_length (cls ob) = Some len" and len: "unat len < 2 ^ 32 - 1"
  shows "\<exists>h' ob'. bindM (new_string s) (\<lambda>v. StaticBoundList_Append l v) h = (Inr (), h') \<and> wf_heap h' \<and> frame {l} h h'
    \<and> objs h' l = Some ob' \<and> list_length (cls ob') = Some (len + 1)
    \<and> list_values l h' = list_values l h @ [AString (c_str s)]"
proof -
  obtain x h1 v where h1: "new_string s h = (Inr x, h1)" "wf_heap h1" "cells h1 x = Some v" "denotes v = AString (c_str s)"
      "frame {} h h1" "objs h1 = objs h"
    using new_string_run [OF wf] by blast
  have ob1: "objs h1 l = Some ob" and ok: "pmap_ok (properties ob)"
    using h1(6) ob wf_heap_obj [OF wf ob(1)] by (simp_all add: wf_obj_def)
  define ob' where "ob' = ob\<lparr>properties := pmap_insert (dec_of_nat (unat len)) x (properties ob), cls := with_length (len + 1) (cls ob)\<rparr>"
  define h2 where "h2 = h1\<lparr>objs := (objs h1)(l \<mapsto> ob')\<rparr>"
  have run: "StaticBoundList_Append l x h1 = (Inr (), h2)"
    using list_Append_run [OF ob1 ob(2) ok] by (simp add: h2_def ob'_def)
  have snd: "wf_heap h2" "heap_le h1 h2"
    using sound_List_Append [OF h1(2), of x l] h1(3) run by (simp_all add: sound_def)
  have fr: "frame {l} h h2"
    using frame_trans [OF frame_mono [OF h1(5)], of "{l}" h2] snd(2) by (simp add: frame_def h2_def)
  have ul: "unat (len + 1) = Suc (unat len)" using len by (simp add: unat_word_ariths)
  have "list_elems l h2 = list_elems l h1 @ [Some x]"
    using ob1 ob(2) ok ul by (simp add: list_elems_def h2_def ob'_def pmap_find_insert)
  moreover have "cells h2 = cells h1" by (simp add: h2_def)
  ultimately have "list_values l h2 = list_values l h1 @ [AString (c_str s)]"
    using h1(3,4) by (simp only: list_values_def map_append list.map option.case)
  then have "list_values l h2 = list_values l h @ [AString (c_str s)]"
    using list_values_frame [OF wf h1(5)] h1(6) by simp
  moreover have "objs h2 l = Some ob'" "list_length (cls ob') = Some (len + 1)"
    using ob(2) by (simp_all add: h2_def ob'_def)
  moreover have "bindM (new_string s) (\<lambda>v. StaticBoundList_Append l v) h = (Inr (), h2)"
    using h1(1) run by (simp add: bindM_def)
  ultimately show ?thesis using snd(1) fr by blast
qed

section \<open>Split\<close>

lemma str_find_char:
  "str_find s [c] 0 = (if c \<in> set s then Some (length (takeWhile (\<lambda>x. x \<noteq> c) s)) else None)"
proof (cases "c \<in> set s")
  case True
  let ?n = "length (takeWhile (\<lambda>x. x \<noteq> c) s)"
  have n: "?n < length s" using True by (induction s) auto
  have "s ! ?n = c" using nth_length_takeWhile [OF n] by simp
  moreover have "s ! j \<noteq> c" if "j < ?n" for j
    using takeWhile_nth [OF that] set_takeWhileD [OF nth_mem [OF that]] by simp
  ultimately have "str_find s [c] 0 = Some ?n" using n by (auto simp: str_find_Some_iff matches_at_char)
  with True show ?thesis by simp
next
  case False
  then show ?thesis by (auto simp: str_find_None_iff matches_at_char)
qed

lemma split_at_found:
  "c \<in> set s \<Longrightarrow> split_at [c] s = takeWhile (\<lambda>x. x \<noteq> c) s
     # split_at [c] (drop (Suc (length (takeWhile (\<lambda>x. x \<noteq> c) s))) s)"
  by (induction s) auto

lemma sint_small: "unat (w :: uint32) < 2 ^ 31 \<Longrightarrow> sint w = int (unat w)"
proof -
  assume "unat w < 2 ^ 31"
  then have "int (unat w) < 2 ^ 31" by (simp only: of_nat_less_numeral_power_cancel_iff)
  moreover have "- (2 ^ 31) \<le> int (unat w)" by (rule order_trans [OF _ of_nat_0_le_iff]) simp
  ultimately have "sint (word_of_int (int (unat w)) :: uint32) = int (unat w)" by (intro sint_word_of_int32)
  then show ?thesis by simp
qed

lemma split_loop_run:
  assumes "wf_heap h" and "objs h l = Some ob" and "list_length (cls ob) = Some len"
    and "unat len + length target + 1 < 2 ^ 31" and "CHR 0x00 \<notin> set target"
  shows "\<exists>h'. split_loop l [c] limit target h = (Inr (), h') \<and> wf_heap h' \<and> frame {l} h h'
    \<and> list_values l h' = list_values l h @ map AString (take (nat (limit - int (unat len))) (split_at [c] target))"
  using assms
proof (induction "length target" arbitrary: h ob len target rule: less_induct)
  case less
  have size: "StaticBoundList_Size l h = (Inr len, h)"
    using less.prems(2,3) by (simp add: StaticBoundList_Size_def get_length_run)
  have slen: "sint len = int (unat len)" using less.prems(4) by (intro sint_small) simp
  have cs: "c_str t = t" if "set t \<subseteq> set target" for t using that less.prems(5) by (intro c_str_id) auto
  have ul: "unat (len + 1) = Suc (unat len)" using less.prems(4) by (simp add: unat_word_ariths)
  show ?case
  proof (cases "limit \<le> int (unat len)")
    case True
    then have "split_loop l [c] limit target h = (Inr (), h)"
      using size slen by (subst split_loop.simps) (simp add: str_find_char bindM_def retM_def)
    with True less.prems(1) show ?thesis by (auto simp: frame_refl)
  next
    case below: False
    show ?thesis
    proof (cases "c \<in> set target")
      case False
      then have "split_at [c] target = [target]" by (intro split_at_no_delim) simp
      moreover obtain h' where "bindM (new_string target) (\<lambda>v. StaticBoundList_Append l v) h = (Inr (), h')" "wf_heap h'"
          "frame {l} h h'" "list_values l h' = list_values l h @ [AString (c_str target)]"
        using push_string_run [OF less.prems(1-3), of target] less.prems(4) by auto
      ultimately show ?thesis
        using False below size slen cs [of target]
        by (subst split_loop.simps) (auto simp: str_find_char bindM_Inr Suc_nat_eq_nat_zadd1 take_Cons' simp del: bindM_assoc)
    next
      case True
      let ?n = "length (takeWhile (\<lambda>x. x \<noteq> c) target)" and ?tok = "takeWhile (\<lambda>x. x \<noteq> c) target"
      have tok: "split_token target [c] ?n = ?tok"
        by (metis split_token_def append_take_drop_id list.distinct(1) takeWhile_eq_take)
      obtain h1 ob1 where h1: "bindM (new_string ?tok) (\<lambda>v. StaticBoundList_Append l v) h = (Inr (), h1)" "wf_heap h1"
          "frame {l} h h1" "objs h1 l = Some ob1" "list_length (cls ob1) = Some (len + 1)"
          "list_values l h1 = list_values l h @ [AString (c_str ?tok)]"
        using push_string_run [OF less.prems(1-3), of ?tok] less.prems(4) by auto
      have ne: "target \<noteq> []" using True by auto
      then have len1: "1 \<le> length target" by (cases target) auto
      have "\<exists>h'. split_loop l [c] limit (drop (?n + 1) target) h1 = (Inr (), h') \<and> wf_heap h' \<and> frame {l} h1 h'
         \<and> list_values l h' = list_values l h1 @ map AString (take (nat (limit - int (unat (len + 1)))) (split_at [c] (drop (?n + 1) target)))"
        using less.prems(4,5) ne ul len1 by (intro less.hyps [OF _ h1(2,4,5)]) (auto dest: in_set_dropD)
      then obtain h2 where h2: "split_loop l [c] limit (drop (?n + 1) target) h1 = (Inr (), h2)" "wf_heap h2" "frame {l} h1 h2"
         "list_values l h2 = list_values l h1 @ map AString (take (nat (limit - int (Suc (unat len)))) (split_at [c] (drop (?n + 1) target)))"
        unfolding ul by blast
      have "split_loop l [c] limit target h = (Inr (), h2)"
        using True below size slen ne h1(1) h2(1)
        by (subst split_loop.simps) (auto simp: str_find_char bindM_def tok split: prod.splits sum.splits)
      moreover have k: "nat (limit - int (unat len)) = Suc (nat (limit - int (Suc (unat len))))"
        using below by arith
      moreover have "c_str ?tok = ?tok" by (rule cs) (auto dest: set_takeWhileD)
      ultimately show ?thesis
        using h1(6) h2 frame_trans [OF h1(3) h2(3)] split_at_found [OF True] by auto
    qed
  qed
qed

section \<open>Reading a blob\<close>

text \<open>A blob object: its buffer holds exactly its length of bytes, and there is one unless it is empty.\<close>

definition blob_at :: "heap \<Rightarrow> addr \<Rightarrow> string \<Rightarrow> bool" where
  "blob_at h a bytes \<longleftrightarrow> (\<exists>ob b. objs h a = Some ob \<and> cls ob = CBlob b (of_nat (length bytes)) \<and> length bytes < 2 ^ 31
     \<and> (bytes \<noteq> [] \<longrightarrow> map_option snd b = Some bytes))"

lemma blob_len: "length bytes < 2 ^ 31 \<Longrightarrow> sint (of_nat (length bytes) :: int32) = int (length bytes)"
  by (subst sint_small) (simp_all add: unat_of_nat)

lemma get_blob_run:
  assumes "blob_at h a bytes"
  shows "\<exists>b. get_blob a h = (Inr (b, of_nat (length bytes)), h) \<and> (bytes \<noteq> [] \<longrightarrow> map_option snd b = Some bytes)"
  using assms by (auto simp: blob_at_def get_blob_def load_obj_def bindM_def retM_def)

lemma set_string_result_run:
  assumes "wf_heap h" and "cells h r \<noteq> None"
  shows "\<exists>h' v. set_string_result r s h = (Inr (), h') \<and> wf_heap h' \<and> cells h' r = Some v \<and> denotes v = AString (c_str s)"
proof -
  define h1 where "h1 = h\<lparr>next_addr := Suc (next_addr h)\<rparr>"
  have h1: "wf_heap h1" using sound_fresh [OF assms(1)] by (simp add: sound_def fresh_def h1_def)
  obtain u where u: "cells h1 r = Some u" using assms(2) by (auto simp: h1_def not_None_eq)
  define h2 where "h2 = h1\<lparr>cells := (cells h1)(r \<mapsto> Value_SetString (next_addr h) s u)\<rparr>"
  have "set_string_result r s h = (Inr (), h2)"
    using u by (simp add: set_string_result_def set_result_def bindM_def fresh_def load_def store_def h1_def h2_def)
  moreover have "wf_heap h2"
    using sound_store [OF h1, of "Value_SetString (next_addr h) s u" r] u by (simp add: sound_def store_def h2_def)
  ultimately show ?thesis by (auto simp: h2_def)
qed

section \<open>Creating a blob\<close>

text \<open>What creating a blob keeps: all values, and the class of every object.\<close>

definition kept :: "heap \<Rightarrow> heap \<Rightarrow> bool" where
  "kept h h' \<longleftrightarrow> heap_le h h' \<and> (\<forall>a v. cells h a = Some v \<longrightarrow> cells h' a = Some v)
     \<and> (\<forall>a ob. objs h a = Some ob \<longrightarrow> (\<exists>ob'. objs h' a = Some ob' \<and> cls ob' = cls ob))"

lemma kept_refl: "kept h h"
  by (simp add: kept_def)

lemma kept_trans: "kept h h1 \<Longrightarrow> kept h1 h2 \<Longrightarrow> kept h h2"
proof -
  assume k: "kept h h1" "kept h1 h2"
  have "heap_le h h2" using k heap_le_trans by (auto simp: kept_def)
  moreover have "\<exists>ob'. objs h2 a = Some ob' \<and> cls ob' = cls ob" if "objs h a = Some ob" for a ob
    using k that by (fastforce simp: kept_def)
  ultimately show ?thesis using k by (simp add: kept_def)
qed

lemma kept_blob: "kept h h' \<Longrightarrow> blob_at h a bytes \<Longrightarrow> blob_at h' a bytes"
proof -
  assume k: "kept h h'" and "blob_at h a bytes"
  then obtain ob b where ob: "objs h a = Some ob" "cls ob = CBlob b (of_nat (length bytes))" "length bytes < 2 ^ 31"
      "bytes \<noteq> [] \<longrightarrow> map_option snd b = Some bytes" by (auto simp: blob_at_def)
  then obtain ob' where "objs h' a = Some ob'" "cls ob' = cls ob" using k by (fastforce simp: kept_def)
  with ob show ?thesis unfolding blob_at_def by (intro exI [of _ ob'] exI [of _ b]) simp
qed

lemma kept_objs: "kept h h' \<Longrightarrow> objs h a \<noteq> None \<Longrightarrow> objs h' a \<noteq> None"
  unfolding kept_def using heap_le_objs by blast

lemma new_object_run:
  assumes "wf_heap h" and "wf_obj h ob"
  shows "\<exists>p h'. new_object ob h = (Inr p, h') \<and> wf_heap h' \<and> objs h' p = Some ob \<and> objs h p = None \<and> cells h' = cells h \<and> kept h h'"
  using sound_new_object [OF assms] wf_heap_fresh [OF assms(1)]
  by (auto simp: sound_def new_object_def kept_def)

lemma Set_wf_run:
  assumes "wf_heap h" and "objs h this = Some ob" and "cells h v \<noteq> None"
  shows "\<exists>h'. StaticBoundObject_Set this name v h = (Inr (), h') \<and> wf_heap h' \<and> kept h h'"
proof -
  have "pmap_ok (properties ob)" using wf_heap_obj [OF assms(1,2)] by (simp add: wf_obj_def)
  from static_Set_run [OF assms(2) this] sound_Static_Set [OF assms(1,3), of this name] assms(2) show ?thesis
    by (auto simp: sound_def kept_def)
qed

lemma SetMethod_run:
  assumes "wf_heap h" and "objs h this \<noteq> None"
  shows "\<exists>h'. StaticBoundObject_SetMethod this name cb h = (Inr (), h') \<and> wf_heap h' \<and> kept h h'"
proof -
  have "wf_obj h (StaticBoundMethod_new (Some cb) ''StaticBoundMethod'')"
    by (simp add: wf_obj_def StaticBoundMethod_new_def pmap_ok_def)
  then obtain m h1 where h1: "new_object (StaticBoundMethod_new (Some cb) ''StaticBoundMethod'') h = (Inr m, h1)"
      "wf_heap h1" "objs h1 m = Some (StaticBoundMethod_new (Some cb) ''StaticBoundMethod'')" "kept h h1"
    using new_object_run [OF assms(1)] by blast
  have "wf_cell h1 (Value_NewMethod (Some m))" using h1(3) by (simp add: isMethod_def StaticBoundMethod_new_def)
  then obtain x h2 where h2: "new_value (Value_NewMethod (Some m)) h1 = (Inr x, h2)" "wf_heap h2"
      "cells h2 x = Some (Value_NewMethod (Some m))" "frame {} h1 h2" "objs h2 = objs h1"
    using new_value_run [OF h1(2)] by blast
  have k2: "kept h1 h2" using h2(4,5) by (auto simp: kept_def frame_def)
  obtain ob where "objs h2 this = Some ob" using kept_objs [OF h1(4) assms(2)] h2(5) by (auto simp: not_None_eq)
  then obtain h3 where "StaticBoundObject_Set this name x h2 = (Inr (), h3)" "wf_heap h3" "kept h2 h3"
    using Set_wf_run [OF h2(2)] h2(3) by (metis option.distinct(1))
  then show ?thesis
    using h1(1) h2(1) kept_trans [OF kept_trans [OF h1(4) k2]] by (auto simp: StaticBoundObject_SetMethod_def bindM_def)
qed

lemma set_methods_run:
  "wf_heap h \<Longrightarrow> objs h this \<noteq> None \<Longrightarrow> \<exists>h'. set_methods this ps h = (Inr (), h') \<and> wf_heap h' \<and> kept h h'"
proof (induction ps arbitrary: h)
  case Nil
  then show ?case by (simp add: retM_def kept_refl)
next
  case (Cons p ps)
  obtain h1 where h1: "StaticBoundObject_SetMethod this (fst p) (Blob_Method (snd p) this) h = (Inr (), h1)" "wf_heap h1" "kept h h1"
    using SetMethod_run [OF Cons.prems] by blast
  obtain h2 where "set_methods this ps h1 = (Inr (), h2)" "wf_heap h2" "kept h1 h2"
    using Cons.IH [OF h1(2) kept_objs [OF h1(3) Cons.prems(2)]] by blast
  with h1 show ?case by (auto simp: bindM_def intro: kept_trans)
qed

lemma CreateWithReference_run:
  assumes wf: "wf_heap h" and ob: "objs h this = Some ob" "fixed (cls ob) = CBlob None 0"
  shows "\<exists>h' ob'. Blob_CreateWithReference this b len h = (Inr (), h') \<and> wf_heap h' \<and> heap_le h h'
    \<and> objs h' this = Some ob' \<and> cls ob' = CBlob b len
    \<and> (\<forall>a v. cells h a = Some v \<longrightarrow> cells h' a = Some v)
    \<and> (\<forall>a u. a \<noteq> this \<longrightarrow> objs h a = Some u \<longrightarrow> (\<exists>u'. objs h' a = Some u' \<and> cls u' = cls u))"
proof -
  define h1 where "h1 = h\<lparr>objs := (objs h)(this \<mapsto> ob\<lparr>cls := CBlob b len\<rparr>)\<rparr>"
  have st: "store_obj this (ob\<lparr>cls := CBlob b len\<rparr>) h = (Inr (), h1)" using ob(1) by (simp add: store_obj_def h1_def)
  have wf1: "wf_heap h1"
    using sound_store_obj [OF wf ob(1), of "ob\<lparr>cls := CBlob b len\<rparr>"] ob wf_heap_obj [OF wf ob(1)] st
    by (simp add: sound_def wf_obj_def)
  have "objs h1 this \<noteq> None" by (simp add: h1_def)
  then obtain h2 where h2: "set_methods this blob_methods h1 = (Inr (), h2)" "wf_heap h2" "kept h1 h2"
    using set_methods_run [OF wf1] by blast
  obtain x h3 where h3: "new_value (Value_NewInt len) h2 = (Inr x, h3)" "wf_heap h3" "cells h3 x = Some (Value_NewInt len)"
      "frame {} h2 h3" "objs h3 = objs h2"
    using new_value_run [OF h2(2), of "Value_NewInt len"] by auto
  have k3: "kept h2 h3" using h3(4,5) by (auto simp: kept_def frame_def)
  obtain ob3 where "objs h3 this = Some ob3"
    using kept_objs [OF h2(3) \<open>objs h1 this \<noteq> None\<close>] h3(5) by (auto simp: not_None_eq)
  then obtain h4 where h4: "StaticBoundObject_Set this ''length'' x h3 = (Inr (), h4)" "wf_heap h4" "kept h3 h4"
    using Set_wf_run [OF h3(2)] h3(3) by (metis option.distinct(1))
  have "kept h1 h4" using kept_trans [OF kept_trans [OF h2(3) k3] h4(3)] .
  moreover have "Blob_CreateWithReference this b len h = (Inr (), h4)"
    using ob(1) st h2(1) h3(1) h4(1) by (simp add: Blob_CreateWithReference_def bindM_def load_obj_def)
  moreover have le1: "heap_le h h1" using ob by (auto simp: heap_le_def h1_def)
  moreover have "objs h1 this = Some (ob\<lparr>cls := CBlob b len\<rparr>)" by (simp add: h1_def)
  with \<open>kept h1 h4\<close> obtain ob4 where "objs h4 this = Some ob4" "cls ob4 = CBlob b len" by (fastforce simp: kept_def)
  moreover have "\<forall>a v. cells h a = Some v \<longrightarrow> cells h4 a = Some v"
    using \<open>kept h1 h4\<close> by (simp add: kept_def h1_def)
  moreover have "\<forall>a u. a \<noteq> this \<longrightarrow> objs h a = Some u \<longrightarrow> (\<exists>u'. objs h4 a = Some u' \<and> cls u' = cls u)"
    using \<open>kept h1 h4\<close> by (simp add: kept_def h1_def)
  moreover have "heap_le h h4" using le1 \<open>kept h1 h4\<close> heap_le_trans by (auto simp: kept_def)
  ultimately show ?thesis using h4(2) by blast
qed

lemma new_reference_run:
  assumes wf: "wf_heap h" and "length bytes < 2 ^ 31" and b: "bytes \<noteq> [] \<Longrightarrow> map_option snd b = Some bytes"
  shows "\<exists>p h'. Blob_new_reference b (of_nat (length bytes)) h = (Inr p, h') \<and> wf_heap h' \<and> blob_at h' p bytes \<and> kept h h'"
proof -
  obtain p h1 where h1: "new_object (Blob_obj None 0) h = (Inr p, h1)" "wf_heap h1" "objs h1 p = Some (Blob_obj None 0)"
      "objs h p = None" "kept h h1"
    using new_object_run [OF wf, of "Blob_obj None 0"] by (auto simp: Blob_obj_def wf_obj_def pmap_ok_def)
  obtain h2 ob where h2: "Blob_CreateWithReference p b (of_nat (length bytes)) h1 = (Inr (), h2)" "wf_heap h2"
      "objs h2 p = Some ob" "cls ob = CBlob b (of_nat (length bytes))" "heap_le h1 h2" "\<forall>a v. cells h1 a = Some v \<longrightarrow> cells h2 a = Some v"
      "\<forall>a u. a \<noteq> p \<longrightarrow> objs h1 a = Some u \<longrightarrow> (\<exists>u'. objs h2 a = Some u' \<and> cls u' = cls u)"
    using CreateWithReference_run [OF h1(2,3), of b "of_nat (length bytes)"] by (auto simp: Blob_obj_def)
  have "Blob_new_reference b (of_nat (length bytes)) h = (Inr p, h2)"
    using h1(1) h2(1) by (simp add: Blob_new_reference_def bindM_def retM_def)
  moreover have "blob_at h2 p bytes" using h2(3,4) assms(2) b by (auto simp: blob_at_def)
  moreover have "kept h h2"
    unfolding kept_def
  proof (intro conjI allI impI)
    show "heap_le h h2"
      using h1(5) heap_le_trans [OF _ h2(5)] by (simp add: kept_def)
    show "\<And>a v. cells h a = Some v \<Longrightarrow> cells h2 a = Some v" using h1(5) h2(6) by (simp add: kept_def)
    show "\<And>a u. objs h a = Some u \<Longrightarrow> \<exists>u'. objs h2 a = Some u' \<and> cls u' = cls u"
      using h1(4,5) h2(7) by (metis kept_def option.distinct(1))
  qed
  ultimately show ?thesis using h2(2) by blast
qed

lemma demo_blob_wf:
  assumes "wf_cell demo_heap v"
  shows "wf_heap (demo_heap\<lparr>objs := (objs demo_heap)(3 \<mapsto> Blob_obj (Some (9, bytes)) n),
    cells := (cells demo_heap)(Undefined_addr \<mapsto> v)\<rparr>)"
proof -
  have "sound demo_heap (store Undefined_addr v) (\<lambda>_ _. True)"
    using demo_heap_plain assms by (intro sound_store) (auto simp: plain_def)
  then have wf: "wf_heap (demo_heap\<lparr>cells := (cells demo_heap)(Undefined_addr \<mapsto> v)\<rparr>)" (is "wf_heap ?h")
    by (simp add: sound_def store_def demo_heap_def Undefined_addr_def Null_addr_def)
  let ?g = "?h\<lparr>objs := (objs demo_heap)(3 \<mapsto> Blob_obj (Some (9, bytes)) n)\<rparr>"
  have same: "isList ?g = isList ?h" "isMethod ?g = isMethod ?h" "\<And>a. objs ?g a = None \<longleftrightarrow> objs ?h a = None"
    by (auto simp: fun_eq_iff isList_def isMethod_def demo_heap_def Blob_obj_def StaticBoundObject_new_def)
  have "wf_obj ?g (Blob_obj (Some (9, bytes)) n)" by (simp add: wf_obj_def Blob_obj_def pmap_ok_def)
  moreover have "wf_cell ?g w" if "wf_cell ?h w" for w using that same by (simp add: wf_cell_def)
  ultimately have "wf_heap ?g"
    using wf by (auto simp: wf_heap_def wf_listeners_def wf_jobs_def demo_heap_def StaticBoundObject_new_def split: if_splits)
  then show ?thesis by (simp add: demo_heap_def)
qed

section \<open>Concatenation\<close>

lemma concat_size_run:
  assumes "list_all2 (blob_at h) blobs bss" and "0 \<le> k" and "k + int (length (concat bss)) < 2 ^ 31"
  shows "concat_size blobs k h = (Inr (k + int (length (concat bss))), h)"
  using assms
proof (induction blobs bss arbitrary: k rule: list_all2_induct)
  case Nil
  then show ?case by (simp add: retM_def)
next
  case (Cons p ps bs bss)
  obtain b where b: "get_blob p h = (Inr (b, of_nat (length bs)), h)" using get_blob_run [OF Cons.hyps(1)] by blast
  have len: "sint (of_nat (length bs) :: int32) = int (length bs)"
    using Cons.hyps(1) blob_len by (auto simp: blob_at_def)
  have "concat_size ps (k + int (length bs)) h = (Inr (k + int (length bs) + int (length (concat bss))), h)"
    using Cons.prems by (intro Cons.IH) auto
  moreover have "k + int (length bs) < 2 ^ 31" "k + int (length bs) \<ge> - (2 ^ 31)"
    using Cons.prems by simp_all
  ultimately show ?case using b len by (simp add: bindM_def)
qed

lemma concat_bytes_run:
  assumes "list_all2 (blob_at h) blobs bss"
  shows "concat_bytes blobs acc h = (Inr (acc @ concat bss), h)"
  using assms
proof (induction blobs bss arbitrary: acc rule: list_all2_induct)
  case Nil
  then show ?case by (simp add: retM_def)
next
  case (Cons p ps bs bss)
  obtain b where b: "get_blob p h = (Inr (b, of_nat (length bs)), h)" "bs \<noteq> [] \<longrightarrow> map_option snd b = Some bs"
    using get_blob_run [OF Cons.hyps(1)] by blast
  have len: "sint (of_nat (length bs) :: int32) = int (length bs)"
    using Cons.hyps(1) blob_len by (auto simp: blob_at_def)
  show ?case
  proof (cases "bs = []")
    case True
    then show ?thesis using b(1) Cons.IH by (simp add: bindM_def)
  next
    case False
    then obtain q where "b = Some q" "snd q = bs" using b(2) by auto
    with False show ?thesis using b(1) len Cons.IH by (simp add: bindM_def of_opt_def retM_def)
  qed
qed

section \<open>Properties\<close>

text \<open>
  Concatenating blobs whose total length is an \<^verbatim>\<open>int\<close> gives a blob that holds all the bytes in order,
  embedded NULs included, and leaves every existing blob as it was; with nothing to append the
  blob itself is returned.
\<close>

theorem Blob_Concat_correct:
  assumes wf: "wf_heap h" and self: "blob_at h this bs" and blobs: "list_all2 (blob_at h) blobs bss"
    and small: "length bs + length (concat bss) < 2 ^ 31"
  shows "\<exists>p h'. Blob_ConcatBlobs this blobs h = (Inr p, h') \<and> wf_heap h' \<and> blob_at h' p (bs @ concat bss)
    \<and> (\<forall>a bytes. blob_at h a bytes \<longrightarrow> blob_at h' a bytes)"
proof (cases "blobs = []")
  case True
  with blobs self wf show ?thesis by (auto simp: Blob_ConcatBlobs_def retM_def bindM_def load_obj_def blob_at_def)
next
  case False
  obtain b where b: "get_blob this h = (Inr (b, of_nat (length bs)), h)" "bs \<noteq> [] \<longrightarrow> map_option snd b = Some bs"
    using get_blob_run [OF self] by blast
  have len: "sint (of_nat (length bs) :: int32) = int (length bs)" using self blob_len by (auto simp: blob_at_def)
  define h1 where "h1 = h\<lparr>next_addr := Suc (next_addr h)\<rparr>"
  have wf1: "wf_heap h1" "kept h h1"
    using sound_fresh [OF wf] by (simp_all add: sound_def fresh_def h1_def kept_def)
  have blobs1: "list_all2 (blob_at h1) blobs bss"
    using blobs kept_blob [OF wf1(2)] by (metis (no_types, lifting) list_all2_mono)
  have "int (length bs) + int (length (concat bss)) < 2 ^ 31" using small by (simp flip: of_nat_add)
  then have size: "concat_size blobs (int (length bs)) h = (Inr (int (length (bs @ concat bss))), h)"
    using concat_size_run [OF blobs] by simp
  have first: "(if sint (of_nat (length bs) :: int32) < 0 then raiseM UB
       else if 0 < sint (of_nat (length bs) :: int32)
       then bindM (of_opt b) (\<lambda>q. retM (take (nat (sint (of_nat (length bs) :: int32))) (snd q))) else retM []) h1 = (Inr bs, h1)"
    using b(2) len by (cases "bs = []") (auto simp: of_opt_def retM_def)
  obtain p h2 where p: "Blob_new_reference (Some (next_addr h, bs @ concat bss)) (of_nat (length (bs @ concat bss))) h1 = (Inr p, h2)"
      "wf_heap h2" "blob_at h2 p (bs @ concat bss)" "kept h1 h2"
    using new_reference_run [OF wf1(1), of "bs @ concat bss" "Some (next_addr h, bs @ concat bss)"] small by auto
  have "Blob_ConcatBlobs this blobs h = (Inr p, h2)"
    using False b(1) size concat_bytes_run [OF blobs1, of bs] first p(1)
    by (simp add: Blob_ConcatBlobs_def bindM_def fresh_def h1_def len)
  with p kept_trans [OF wf1(2) p(4)] kept_blob show ?thesis by blast
qed

theorem Blob_Concat_correct_witness:
  "\<exists>p h'. Blob_ConcatBlobs 3 [3] (demo_heap\<lparr>objs := (objs demo_heap)(3 \<mapsto> Blob_obj (Some (9, [CHR 0x00])) 1),
      cells := (cells demo_heap)(Undefined_addr \<mapsto> Value_NewUndefined)\<rparr>) = (Inr p, h')
    \<and> blob_at h' p [CHR 0x00, CHR 0x00]"
proof -
  let ?h = "demo_heap\<lparr>objs := (objs demo_heap)(3 \<mapsto> Blob_obj (Some (9, [CHR 0x00])) 1),
      cells := (cells demo_heap)(Undefined_addr \<mapsto> Value_NewUndefined)\<rparr>"
  have "blob_at ?h 3 [CHR 0x00]" by (simp add: blob_at_def Blob_obj_def)
  then have "\<exists>p h'. Blob_ConcatBlobs 3 [3] ?h = (Inr p, h') \<and> wf_heap h' \<and> blob_at h' p ([CHR 0x00] @ concat [[CHR 0x00]])
    \<and> (\<forall>a bytes. blob_at ?h a bytes \<longrightarrow> blob_at h' a bytes)"
    by (intro Blob_Concat_correct demo_blob_wf) auto
  then show ?thesis by auto
qed

text \<open>
  A blob made of a string holds all its bytes; its \<^verbatim>\<open>toString\<close> is the string up to its first NUL.
\<close>

theorem Blob_toString_correct:
  assumes wf: "wf_heap h" and "length s < 2 ^ 31" and res: "cells h result \<noteq> None"
  shows "\<exists>p h1 h2 v. Blob_new_string s h = (Inr p, h1) \<and> blob_at h1 p s \<and> Blob_ToString p result h1 = (Inr (), h2)
    \<and> cells h2 result = Some v \<and> denotes v = AString (c_str s)"
proof -
  have len: "sint (of_nat (length s) :: int32) = int (length s)" using assms(2) by (rule blob_len)
  obtain p h0 where h0: "new_object (Blob_obj None 0) h = (Inr p, h0)" "wf_heap h0" "objs h0 p = Some (Blob_obj None 0)" "kept h h0"
    using new_object_run [OF wf, of "Blob_obj None 0"] by (auto simp: Blob_obj_def wf_obj_def pmap_ok_def)
  define h1 where "h1 = (if s = [] then h0 else h0\<lparr>next_addr := Suc (next_addr h0)\<rparr>)"
  define b where "b = (if s = [] then None else Some (next_addr h0, s))"
  have h1: "wf_heap h1" "objs h1 p = Some (Blob_obj None 0)" "cells h1 = cells h0"
    using h0(2,3) sound_fresh [OF h0(2)] by (simp_all add: sound_def fresh_def h1_def)
  obtain h2 ob where h2: "Blob_CreateWithReference p b (of_nat (length s)) h1 = (Inr (), h2)" "wf_heap h2" "heap_le h1 h2"
      "objs h2 p = Some ob" "cls ob = CBlob b (of_nat (length s))"
    using CreateWithReference_run [OF h1(1,2), of b "of_nat (length s)"] by (auto simp: Blob_obj_def)
  have new: "Blob_new_string s h = (Inr p, h2)"
    using h0(1) h2(1) len
    by (cases "s = []")
      (simp_all add: Blob_new_string_def Blob_new_def Blob_CreateWithCopy_def bindM_def fresh_def retM_def h1_def b_def)
  have blob: "blob_at h2 p s" using h2(4,5) assms(2) by (simp add: blob_at_def b_def)
  have "cells h2 result \<noteq> None" using res h0(4) heap_le_cells [OF h2(3)] h1(3) by (auto simp: kept_def not_None_eq)
  then obtain h3 v where h3: "set_string_result result s h2 = (Inr (), h3)" "cells h3 result = Some v" "denotes v = AString (c_str s)"
    using set_string_result_run [OF h2(2)] by blast
  have z: "(of_nat (length s) :: int32) = 0 \<longleftrightarrow> s = []"
  proof
    assume "(of_nat (length s) :: int32) = 0"
    then have "int (length s) = 0" using len by (simp only: signed_0)
    then show "s = []" by simp
  qed simp
  have "get_blob p h2 = (Inr (b, of_nat (length s)), h2)"
    using h2(4,5) by (simp add: get_blob_def load_obj_def bindM_def retM_def)
  then have "Blob_ToString p result h2 = (Inr (), h3)"
    using h3(1) z by (auto simp: Blob_ToString_def bindM_def b_def of_opt_def retM_def)
  with new blob h3 show ?thesis by blast
qed

theorem Blob_toString_correct_witness:
  "\<exists>p h1 h2 v. Blob_new_string [CHR ''a'', CHR 0x00, CHR ''b''] demo_heap = (Inr p, h1)
    \<and> Blob_ToString p Null_addr h1 = (Inr (), h2) \<and> cells h2 Null_addr = Some v \<and> denotes v = AString ''a''"
proof -
  have "wf_heap demo_heap" "cells demo_heap Null_addr \<noteq> None"
    using demo_heap_plain by (simp_all add: plain_def demo_heap_def)
  from Blob_toString_correct [OF this(1) _ this(2), of "[CHR ''a'', CHR 0x00, CHR ''b'']"] show ?thesis
    by (auto simp: c_str_def)
qed


text \<open>C35: 
  Splitting a blob at a separator of one character gives exactly the pieces between the separators,
  empty ones included, cut off at the limit when one is given; the result value holds the list.
\<close>

theorem Blob_Split_correct:
  assumes wf: "wf_heap h" and blob: "blob_at h this bytes" and ne: "bytes \<noteq> []" and small: "length bytes < 2 ^ 31 - 1"
    and res: "cells h result \<noteq> None" and sep: "cells h a = Some va" "denotes va = AString [c]" "a \<noteq> result"
    and lim: "args = [a] \<and> limit = 2 ^ 31 - 1 \<or>
      args = [a, b] \<and> b \<noteq> result \<and> cells h b = Some vb \<and> denotes vb = AInt i \<and> limit = sint i"
  shows "\<exists>h' v l. Blob_Split this args result h = (Inr (), h') \<and> wf_heap h' \<and> cells h' result = Some v \<and> denotes v = AList l
    \<and> list_values l h' = map AString (take (nat limit) (split_at [c] (c_str bytes)))"
proof -
  have wfv: "wf_value (isList h) (isMethod h) va" using wf_heap_cell [OF wf sep(1)] by (simp add: wf_cell_def)
  have sig: "ArgList_ParseSigString ''?s,i'' = [''?s'', ''i'']" by (simp add: ArgList_ParseSigString_def)
  have verify: "ArgList_VerifyException args ''Blob.split'' ''?s,i'' h = (Inr (), h)"
  proof (rule VerifyException_ok)
    show "list_all2 (\<lambda>a v. cells h a = Some v) args (if length args = 1 then [va] else [va, vb])"
      using lim sep(1) by auto
    show "args_conform (if length args = 1 then [va] else [va, vb]) (ArgList_ParseSigString ''?s,i'')"
      using lim denotes_Is sep(2)
      by (auto simp: sig strip_optional_def starts_optional_def conforms_single)
  qed
  define l where "l = next_addr h"
  define h1 where "h1 = h\<lparr>objs := (objs h)(l \<mapsto> StaticBoundList_new ''StaticBoundList''), next_addr := Suc l\<rparr>"
  have new: "new_object (StaticBoundList_new ''StaticBoundList'') h = (Inr l, h1)"
    by (simp add: new_object_def l_def h1_def)
  have wf1: "wf_heap h1"
    using sound_new_object [OF wf, of "StaticBoundList_new ''StaticBoundList''"] new
    by (simp add: sound_def StaticBoundList_new_def wf_obj_def pmap_ok_def)
  obtain u where u: "cells h result = Some u" using res by (auto simp: not_None_eq)
  define h2 where "h2 = h1\<lparr>cells := (cells h1)(result \<mapsto> Value_SetList (Some l) u)\<rparr>"
  have set: "set_result result (Value_SetList (Some l)) h1 = (Inr (), h2)"
    using u by (simp add: set_result_def bindM_def load_def store_def h1_def h2_def)
  have wf2: "wf_heap h2"
    using sound_store [OF wf1, of "Value_SetList (Some l) u" result] u
    by (simp add: sound_def store_def h2_def h1_def isList_def StaticBoundList_new_def)
  have "objs h this \<noteq> None" using blob by (auto simp: blob_at_def)
  then have "this \<noteq> l" using wf_heap_fresh(2) [OF wf] by (auto simp: l_def)
  then have blob2: "blob_at h2 this bytes" using blob by (simp add: blob_at_def h2_def h1_def)
  obtain bf where bf: "get_blob this h2 = (Inr (bf, of_nat (length bytes)), h2)" "map_option snd bf = Some bytes"
    using get_blob_run [OF blob2] ne by blast
  have pos: "0 < sint (of_nat (length bytes) :: int32)" using blob_len [of bytes] small ne by simp
  have tgt: "blob_c_str bf h2 = (Inr (c_str bytes), h2)"
    using bf(2) by (auto simp: blob_c_str_def of_opt_def bindM_def retM_def)
  have str: "ArgList_GetString args 0 [] h2 = (Inr [c], h2)"
    using lim sep wf2 by (intro GetString_run [of _ _ _ va]) (auto simp: h2_def h1_def)
  have lim2: "(if length args > 1 then bindM (ArgList_GetInt args 1 0) (\<lambda>i. retM (sint i)) else retM (2 ^ 31 - 1)) h2 = (Inr limit, h2)"
  proof -
    from lim consider "args = [a]" "limit = 2 ^ 31 - 1" | "args = [a, b]" "b \<noteq> result" "cells h b = Some vb" "denotes vb = AInt i" "limit = sint i"
      by blast
    then show ?thesis
    proof cases
      case 1
      then show ?thesis by (simp add: retM_def)
    next
      case 2
      then have "ArgList_GetInt args 1 0 h2 = (Inr i, h2)" by (intro GetInt_run [of _ _ _ vb]) (auto simp: h2_def h1_def)
      with 2 show ?thesis by (simp add: bindM_def retM_def)
    qed
  qed
  have obl: "objs h2 l = Some (StaticBoundList_new ''StaticBoundList'')" by (simp add: h2_def h1_def)
  have "CHR 0x00 \<notin> set (c_str bytes)" "length (c_str bytes) + 1 < 2 ^ 31" using c_str_no_nul length_c_str_le [of bytes] small by auto
  then obtain h3 where h3: "split_loop l [c] limit (c_str bytes) h2 = (Inr (), h3)" "wf_heap h3" "frame {l} h2 h3"
      "list_values l h3 = list_values l h2 @ map AString (take (nat limit) (split_at [c] (c_str bytes)))"
    using split_loop_run [OF wf2 obl, of 0 "c_str bytes" c limit] by (auto simp: StaticBoundList_new_def)
  have "Blob_Split this args result h = (Inr (), h3)"
    using verify new set bf(1) pos tgt str lim2 h3(1) lim by (auto simp: Blob_Split_def bindM_def)
  moreover have "cells h3 result = Some (Value_SetList (Some l) u)" using h3(3) by (simp add: frame_def h2_def)
  moreover have "list_values l h2 = []" using obl by (simp add: list_values_def list_elems_def StaticBoundList_new_def)
  ultimately show ?thesis using h3 by auto
qed

theorem Blob_Split_correct_witness:
  "\<exists>h' v l. Blob_Split 3 [Undefined_addr] Null_addr (demo_heap\<lparr>objs := (objs demo_heap)(3 \<mapsto> Blob_obj (Some (9, ''a,,b'')) 4),
      cells := (cells demo_heap)(Undefined_addr \<mapsto> Value_NewString 8 '','')\<rparr>) = (Inr (), h')
    \<and> cells h' Null_addr = Some v \<and> denotes v = AList l
    \<and> list_values l h' = [AString ''a'', AString [], AString ''b'']"
proof -
  let ?h = "demo_heap\<lparr>objs := (objs demo_heap)(3 \<mapsto> Blob_obj (Some (9, ''a,,b'')) 4),
      cells := (cells demo_heap)(Undefined_addr \<mapsto> Value_NewString 8 '','')\<rparr>"
  have "\<exists>h' v l. Blob_Split 3 [Undefined_addr] Null_addr ?h = (Inr (), h') \<and> wf_heap h' \<and> cells h' Null_addr = Some v
      \<and> denotes v = AList l \<and> list_values l h' = map AString (take (nat (2 ^ 31 - 1)) (split_at '','' (c_str ''a,,b'')))"
  proof (rule Blob_Split_correct [OF demo_blob_wf])
    show "blob_at ?h 3 ''a,,b''" by (simp add: blob_at_def Blob_obj_def)
    show "cells ?h Null_addr \<noteq> None" by (simp add: demo_heap_def Null_addr_def)
    show "denotes (Value_NewString 8 '','') = AString '',''" by (simp add: Value_NewString_def)
  qed (auto simp: Undefined_addr_def Null_addr_def)
  moreover have "c_str ''a,,b'' = ''a,,b''" by (simp add: c_str_def)
  ultimately show ?thesis by (auto simp: take_Cons')
qed

lemma blob_target_run:
  assumes "blob_at h this bytes"
  shows "\<exists>b. get_blob this h = (Inr (b, of_nat (length bytes)), h) \<and> blob_target b (of_nat (length bytes)) h = (Inr (c_str bytes), h)"
proof -
  obtain b where b: "get_blob this h = (Inr (b, of_nat (length bytes)), h)" "bytes \<noteq> [] \<longrightarrow> map_option snd b = Some bytes"
    using get_blob_run [OF assms] by blast
  have len: "sint (of_nat (length bytes) :: int32) = int (length bytes)"
    using assms blob_len by (auto simp: blob_at_def)
  show ?thesis
  proof (cases "bytes = []")
    case True
    then show ?thesis using b(1) by (intro exI [of _ b]) (simp add: blob_target_def c_str_def retM_def)
  next
    case False
    then show ?thesis
      using b len by (intro exI [of _ b]) (auto simp: blob_target_def blob_c_str_def of_opt_def bindM_def retM_def)
  qed
qed

text \<open>The substring between two positions, in either order, each moved into the range of the text.\<close>

definition js_substring :: "string \<Rightarrow> int \<Rightarrow> int \<Rightarrow> string" where
  "js_substring txt i j = (let p = min (nat i) (length txt); q = min (nat j) (length txt) in
     take (max p q - min p q) (drop (min p q) txt))"

lemma clamp_index_nat: "clamp_index i txt = int (min (nat i) (length txt))"
  by (auto simp: clamp_index_def Let_def)

lemma substring_between_eq:
  assumes "p \<le> length txt" and "q \<le> length txt"
  shows "substring_between result txt (int p) (int q) = set_string_result result (take (max p q - min p q) (drop (min p q) txt))"
proof -
  consider "p = q" | "p < q" | "q < p" by arith
  then show ?thesis using assms by cases (simp_all add: substring_between_def Let_def nat_diff_distrib)
qed

lemma substring_between_clamped:
  "substring_between result txt (clamp_index i txt) (clamp_index j txt) = set_string_result result (js_substring txt i j)"
  unfolding clamp_index_nat js_substring_def Let_def by (rule substring_between_eq) simp_all

lemma c_str_sub: "c_str (take n (drop m (c_str s))) = take n (drop m (c_str s))"
  using c_str_no_nul [of s] by (intro c_str_id) (auto dest: in_set_takeD in_set_dropD)

text \<open>
  \<^verbatim>\<open>substring\<close> never throws, for any pair of integers: it returns the characters of the blob's text
  between the two positions.
\<close>

theorem Blob_Substring_correct:
  assumes wf: "wf_heap h" and blob: "blob_at h this bytes" and res: "cells h result \<noteq> None"
    and a: "cells h a = Some va" "denotes va = AInt i"
    and args: "args = [a] \<and> j = int (length bytes) \<or> args = [a, b] \<and> cells h b = Some vb \<and> denotes vb = AInt k \<and> j = sint k"
  shows "\<exists>h' v. Blob_Substring this args result h = (Inr (), h') \<and> wf_heap h' \<and> cells h' result = Some v
    \<and> denotes v = AString (js_substring (c_str bytes) (sint i) j)"
proof -
  let ?t = "c_str bytes"
  have sig: "ArgList_ParseSigString ''i,?i'' = [''i'', ''?i'']" by (simp add: ArgList_ParseSigString_def)
  have verify: "ArgList_VerifyException args ''Blob.substring'' ''i,?i'' h = (Inr (), h)"
  proof (rule VerifyException_ok)
    show "list_all2 (\<lambda>a v. cells h a = Some v) args (if length args = 1 then [va] else [va, vb])"
      using args a by auto
    show "args_conform (if length args = 1 then [va] else [va, vb]) (ArgList_ParseSigString ''i,?i'')"
      using args denotes_Is(2) a(2)
      by (auto simp: sig strip_optional_def starts_optional_def conforms_single)
  qed
  obtain bf where bf: "get_blob this h = (Inr (bf, of_nat (length bytes)), h)"
      "blob_target bf (of_nat (length bytes)) h = (Inr ?t, h)"
    using blob_target_run [OF blob] by blast
  have i: "ArgList_GetInt args 0 0 h = (Inr i, h)"
    using args a by (intro GetInt_run [of _ _ _ va]) auto
  define p where "p = min (nat (sint i)) (length ?t)"
  have run: "Blob_Substring this args result h = (if length args < 2 then set_string_result result (drop p ?t)
      else bindM (ArgList_GetInt args 1 0) (\<lambda>b0. set_string_result result (js_substring ?t (sint i) (sint b0)))) h"
  proof -
    have "nat (clamp_index (sint i) ?t) = p" by (simp only: clamp_index_nat p_def nat_int)
    moreover have "p \<le> length ?t" by (simp add: p_def)
    ultimately show ?thesis
      using verify bf i by (simp add: Blob_Substring_def bindM_def Let_def substring_between_clamped)
  qed
  from args consider "args = [a]" "j = int (length bytes)" | "args = [a, b]" "cells h b = Some vb" "denotes vb = AInt k" "j = sint k"
    by blast
  then show ?thesis
  proof cases
    case 1
    have "js_substring ?t (sint i) j = drop p ?t"
      using length_c_str_le [of bytes] by (simp add: js_substring_def 1 p_def Let_def max_def min_def)
    moreover have "c_str (drop p ?t) = drop p ?t" using c_str_sub [of "length ?t" p bytes] by simp
    ultimately show ?thesis using set_string_result_run [OF wf res, of "drop p ?t"] run 1 by auto
  next
    case 2
    have "ArgList_GetInt args 1 0 h = (Inr k, h)" using 2 by (intro GetInt_run [of _ _ _ vb]) auto
    moreover have "c_str (js_substring ?t (sint i) j) = js_substring ?t (sint i) j"
      by (simp add: js_substring_def Let_def c_str_sub)
    ultimately show ?thesis
      using set_string_result_run [OF wf res, of "js_substring ?t (sint i) j"] run 2 by (auto simp: bindM_def)
  qed
qed

theorem Blob_Substring_correct_witness:
  "\<exists>h' v. Blob_Substring 3 [Undefined_addr] Null_addr (demo_heap\<lparr>objs := (objs demo_heap)(3 \<mapsto> Blob_obj (Some (9, ''abc'')) 3),
      cells := (cells demo_heap)(Undefined_addr \<mapsto> Value_NewInt 1)\<rparr>) = (Inr (), h')
    \<and> cells h' Null_addr = Some v \<and> denotes v = AString (js_substring (c_str ''abc'') (sint (1 :: int32)) 3)"
proof -
  let ?h = "demo_heap\<lparr>objs := (objs demo_heap)(3 \<mapsto> Blob_obj (Some (9, ''abc'')) 3),
      cells := (cells demo_heap)(Undefined_addr \<mapsto> Value_NewInt 1)\<rparr>"
  show ?thesis
  proof -
    have "\<exists>h' v. Blob_Substring 3 [Undefined_addr] Null_addr ?h = (Inr (), h') \<and> wf_heap h' \<and> cells h' Null_addr = Some v
        \<and> denotes v = AString (js_substring (c_str ''abc'') (sint (1 :: int32)) 3)"
    proof (rule Blob_Substring_correct [OF demo_blob_wf])
      show "blob_at ?h 3 ''abc''" by (simp add: blob_at_def Blob_obj_def)
      show "cells ?h Null_addr \<noteq> None" by (simp add: demo_heap_def Null_addr_def)
      show "denotes (Value_NewInt 1) = AInt 1" by (simp add: Value_NewInt_def)
    qed auto
    then show ?thesis by blast
  qed
qed

end
