(* ===== verification/Kroll_Show.thy ===== *)
theory Kroll_Show
  imports Kroll_Blob
begin

text \<open>
  \<^verbatim>\<open>DisplayString\<close>, the printed form of values and objects (\<^verbatim>\<open>value.cpp\<close>, \<^verbatim>\<open>kobject.cpp\<close>, \<^verbatim>\<open>klist.cpp\<close>,
  \<^verbatim>\<open>kmethod.cpp\<close>, \<^verbatim>\<open>profiled_bound_object.cpp\<close>, \<^verbatim>\<open>value_exception.cpp\<close>), with the output of integers,
  doubles and pointers on a C++ stream.

  The argument \<^verbatim>\<open>levels\<close> is meant to bound the depth. A value passes one level less to its object, an
  object passes its own number on to the values of its properties, and a list passes one less to its
  elements; the recursion stops where the number is exactly zero. \<^verbatim>\<open>vDisplay n\<close> is the virtual function
  with \<open>n\<close> as the bound on its depth, as \<^const>\<open>vtable\<close> is for the other virtual functions.

  Displaying calls the virtual functions of the objects, so it may throw or fail to return; the
  callers (the queue of jobs, the printing functions of the API, the host) are modelled with it.
\<close>

section \<open>Numbers and pointers on a stream\<close>

definition dec_of_int :: "int \<Rightarrow> string" where
  "dec_of_int i = (if i < 0 then CHR ''-'' # dec_of_nat (nat (- i)) else dec_of_nat (nat i))"

definition hex_char :: "nat \<Rightarrow> char" where
  "hex_char d = ''0123456789abcdef'' ! d"

fun hex_of_nat :: "nat \<Rightarrow> string" where
  "hex_of_nat n = (if n < 16 then [hex_char n] else hex_of_nat (n div 16) @ [hex_char (n mod 16)])"

declare hex_of_nat.simps [simp del]

definition show_pointer :: "addr \<Rightarrow> string" where
  "show_pointer a = (if a = 0 then ''0'' else ''0x'' @ hex_of_nat a)"

text \<open>The default format of a double: six significant digits, rounded to nearest with ties to even,
  without trailing zeros; the exponential form if the decimal exponent is below \<open>- 4\<close> or above 5.\<close>

definition round_half_even :: "rat \<Rightarrow> int" where
  "round_half_even r =
     (let f = \<lfloor>r\<rfloor>; d = r - of_int f
      in if d < 1 / 2 then f else if d > 1 / 2 then f + 1 else if even f then f else f + 1)"

text \<open>The exponent of the first digit of a positive number.\<close>

definition decimal_exponent :: "rat \<Rightarrow> int" where
  "decimal_exponent q =
     (if q \<ge> 1 then int (length (dec_of_nat (nat \<lfloor>q\<rfloor>))) - 1
      else - int (length (dec_of_nat (nat (\<lceil>1 / q\<rceil> - 1)))))"

definition six_digits :: "rat \<Rightarrow> nat \<times> int" where
  "six_digits q =
     (let e = decimal_exponent q;
          m = nat (round_half_even (if e \<le> 5 then q * 10 ^ nat (5 - e) else q / 10 ^ nat (e - 5)))
      in if m = 10 ^ 6 then (10 ^ 5, e + 1) else (m, e))"

definition strip_zeros :: "string \<Rightarrow> string" where
  "strip_zeros s = rev (dropWhile (\<lambda>c. c = CHR ''0'') (rev s))"

definition with_point :: "string \<Rightarrow> string \<Rightarrow> string" where
  "with_point a b = (if strip_zeros b = [] then a else a @ ''.'' @ strip_zeros b)"

definition exponent_digits :: "int \<Rightarrow> string" where
  "exponent_digits e =
     (let s = dec_of_nat (nat \<bar>e\<bar>)
      in (if e < 0 then ''-'' else ''+'') @ (if length s < 2 then ''0'' @ s else s))"

definition show_positive :: "rat \<Rightarrow> string" where
  "show_positive q =
     (let (m, e) = six_digits q; ds = dec_of_nat m
      in if e < - 4 \<or> 6 \<le> e then with_point (take 1 ds) (drop 1 ds) @ ''e'' @ exponent_digits e
         else if 0 \<le> e then with_point (take (nat e + 1) ds) (drop (nat e + 1) ds)
         else with_point ''0'' (replicate (nat (- e) - 1) (CHR ''0'') @ ds))"

fun show_double :: "double \<Rightarrow> string" where
  "show_double (Fin q) = (if q = 0 then ''0'' else if q < 0 then ''-'' @ show_positive (- q) else show_positive q)"
| "show_double NegZero = ''-0''"
| "show_double (Inf neg) = (if neg then ''-inf'' else ''inf'')"
| "show_double NaN = ''nan''"

section \<open>Values and objects\<close>

text \<open>\<^verbatim>\<open>levels - 1\<close> on an \<^verbatim>\<open>int\<close>.\<close>

definition less_levels :: "int \<Rightarrow> int M" where
  "less_levels levels = (if levels \<le> - (2 ^ 31) then raiseM UB else retM (levels - 1))"

text \<open>\<open>D\<close> is the virtual \<^verbatim>\<open>DisplayString\<close> of objects.\<close>

definition Value_DisplayString :: "(addr \<Rightarrow> int \<Rightarrow> string M) \<Rightarrow> addr \<Rightarrow> int \<Rightarrow> string M" where
  "Value_DisplayString D this levels =
     bindM (load this) (\<lambda>v.
       if Value_IsInt v then retM (dec_of_int (sint (Value_ToInt v)) @ ''i'')
       else if Value_IsDouble v then retM (show_double (Value_ToDouble v) @ ''d'')
       else if Value_IsBool v then
         bindM (of_opt (Value_ToBool v)) (\<lambda>b. retM (if b then ''true'' else ''false''))
       else if Value_IsString v then
         bindM (of_opt (Value_ToString v)) (\<lambda>(_, s). retM ([CHR 0x22] @ c_str s @ [CHR 0x22]))
       else if Value_IsList v then
         bindM (gets (\<lambda>h. Value_ToList (isList h) v)) (\<lambda>p. bindM (of_opt p) (\<lambda>a.
         bindM (less_levels levels) (D a)))
       else if Value_IsMethod v then
         bindM (gets (\<lambda>h. Value_ToMethod (isMethod h) v)) (\<lambda>p. bindM (of_opt p) (\<lambda>a.
         bindM (less_levels levels) (D a)))
       else if Value_IsObject v then
         bindM (of_opt (Value_ToObject v)) (\<lambda>a. bindM (less_levels levels) (D a))
       else if Value_IsVoidPtr v then retM (''<void* addr: '' @ show_pointer (Value_ToVoidPtr v) @ ''>'')
       else if Value_IsNull v then retM ''<null>''
       else if Value_IsUndefined v then retM ''<undefined>''
       else retM ''<unknown>'')"

primrec display_properties ::
  "vt \<Rightarrow> (addr \<Rightarrow> int \<Rightarrow> string M) \<Rightarrow> addr \<Rightarrow> int \<Rightarrow> (addr \<times> string) list \<Rightarrow> string \<Rightarrow> string M" where
  "display_properties V D this levels [] ss = retM ss"
| "display_properties V D this levels (p # props) ss =
     bindM (vGet V this (c_str (snd p))) (\<lambda>prop.
     bindM (Value_DisplayString D prop levels) (\<lambda>disp_string.
       display_properties V D this levels props (ss @ '' '' @ snd p @ '' : '' @ disp_string @ '','')))"

text \<open>The closing brace is written over the last comma.\<close>

definition KObject_DisplayString :: "vt \<Rightarrow> (addr \<Rightarrow> int \<Rightarrow> string M) \<Rightarrow> addr \<Rightarrow> int \<Rightarrow> string M" where
  "KObject_DisplayString V D this levels =
     (if levels = 0 then retM (''<KObject at '' @ show_pointer this @ ''>'')
      else bindM (vNames V this) (\<lambda>props.
           bindM (display_properties V D this levels props ''{'') (\<lambda>ss.
             retM ((if length props > 0 then butlast ss else ss) @ ''}''))))"

primrec display_elements ::
  "nat \<Rightarrow> vt \<Rightarrow> (addr \<Rightarrow> int \<Rightarrow> string M) \<Rightarrow> addr \<Rightarrow> int \<Rightarrow> uint32 \<Rightarrow> string \<Rightarrow> string M" where
  "display_elements 0 V D this levels i oss = raiseM NoFuel"
| "display_elements (Suc n) V D this levels i oss =
     bindM (vSize V this) (\<lambda>sz.
       if i < sz then
         bindM (vAt V this i) (\<lambda>list_val.
         bindM (less_levels levels) (\<lambda>l.
         bindM (Value_DisplayString D list_val l) (\<lambda>list_str.
           display_elements n V D this levels (i + 1) (oss @ '' '' @ list_str @ '',''))))
       else retM oss)"

definition KList_DisplayString :: "nat \<Rightarrow> vt \<Rightarrow> (addr \<Rightarrow> int \<Rightarrow> string M) \<Rightarrow> addr \<Rightarrow> int \<Rightarrow> string M" where
  "KList_DisplayString n V D this levels =
     (if levels = 0 then retM (''<KList at '' @ show_pointer this @ ''>'')
      else bindM (display_elements n V D this levels 0 ''['') (\<lambda>oss. retM (oss @ '' ]'')))"

definition KMethod_DisplayString :: "addr \<Rightarrow> string M" where
  "KMethod_DisplayString this = retM (''<KMethod at '' @ show_pointer this @ ''>'')"

definition ProfiledBoundObject_DisplayString :: "(addr \<Rightarrow> int \<Rightarrow> string M) \<Rightarrow> addr \<Rightarrow> int \<Rightarrow> string M" where
  "ProfiledBoundObject_DisplayString D delegate levels = D delegate levels"

definition KObjectWrapper_DisplayString :: "(addr \<Rightarrow> int \<Rightarrow> string M) \<Rightarrow> addr \<Rightarrow> int \<Rightarrow> string M" where
  "KObjectWrapper_DisplayString D object levels = D object levels"

definition KMethodWrapper_DisplayString :: "(addr \<Rightarrow> int \<Rightarrow> string M) \<Rightarrow> addr \<Rightarrow> int \<Rightarrow> string M" where
  "KMethodWrapper_DisplayString D method levels = D method levels"

definition KListWrapper_DisplayString :: "(addr \<Rightarrow> int \<Rightarrow> string M) \<Rightarrow> addr \<Rightarrow> int \<Rightarrow> string M" where
  "KListWrapper_DisplayString D l levels = D l levels"

definition EnvironmentBinding_DisplayString :: "string M" where
  "EnvironmentBinding_DisplayString =
     gets (\<lambda>h. concat (map (\<lambda>e. fst e @ ''='' @ snd e @ '','') (environment_map (w_environ (p_world (proc h))))))"

text \<open>The profiled method and list have two base classes; they are held by pointers to \<^verbatim>\<open>KMethod\<close> and
  \<^verbatim>\<open>KList\<close>, whose functions are called.\<close>

primrec vDisplay :: "nat \<Rightarrow> vt \<Rightarrow> addr \<Rightarrow> int \<Rightarrow> string M" where
  "vDisplay 0 V this levels = raiseM NoFuel"
| "vDisplay (Suc n) V this levels =
     bindM (load_obj this) (\<lambda>ob.
       case cls ob of
         CProfiledBoundObject d \<Rightarrow> ProfiledBoundObject_DisplayString (vDisplay n V) d levels
       | CKObjectWrapper d \<Rightarrow> KObjectWrapper_DisplayString (vDisplay n V) d levels
       | CKMethodWrapper d \<Rightarrow> KMethodWrapper_DisplayString (vDisplay n V) d levels
       | CKListWrapper d \<Rightarrow> KListWrapper_DisplayString (vDisplay n V) d levels
       | CEnvironmentBinding \<Rightarrow> EnvironmentBinding_DisplayString
       | _ \<Rightarrow>
           if is_kmethod (cls ob) then KMethod_DisplayString this
           else if is_klist (cls ob) then KList_DisplayString n V (vDisplay n V) this levels
           else KObject_DisplayString V (vDisplay n V) this levels)"

text \<open>The value of an exception; \<^verbatim>\<open>levels\<close> has the default 3.\<close>

definition ValueException_DisplayString :: "(addr \<Rightarrow> int \<Rightarrow> string M) \<Rightarrow> addr option \<Rightarrow> string M" where
  "ValueException_DisplayString D val =
     (case val of Some v \<Rightarrow> Value_DisplayString D v 3 | None \<Rightarrow> retM ''<no exception>'')"

lemmas wrapper_display_defs = ProfiledBoundObject_DisplayString_def KObjectWrapper_DisplayString_def
  KMethodWrapper_DisplayString_def KListWrapper_DisplayString_def EnvironmentBinding_DisplayString_def

text \<open>\<^verbatim>\<open>std::cout\<close>.\<close>

definition write_stdout :: "string \<Rightarrow> unit M" where
  "write_stdout s h = (Inr (), h\<lparr>proc := (proc h)\<lparr>p_stdout := p_stdout (proc h) @ s\<rparr>\<rparr>)"

section \<open>The invariant\<close>

lemma sound_write_stdout: "wf_heap h \<Longrightarrow> sound h (write_stdout s) (\<lambda>_ _. True)"
  by (simp add: sound_def write_stdout_def wf_heap_proc)

context virtual_table
begin

lemma sound_less_levels: "wf_heap h \<Longrightarrow> sound h (less_levels l) (\<lambda>_ _. True)"
  by (simp add: less_levels_def sound_ret sound_raise exn_ok_def)

lemma sound_Value_Display:
  assumes "wf_heap h" and D: "\<And>h a l. wf_heap h \<Longrightarrow> sound h (D a l) (\<lambda>_ _. True)"
  shows "sound h (Value_DisplayString D x levels) (\<lambda>_ _. True)"
  unfolding Value_DisplayString_def using assms(1)
  by (auto intro!: sound_load_bind sound_opt_bind sound_gets_bind sound_ret D sound_bind [OF sound_less_levels])

lemma sound_display_properties:
  assumes "wf_heap h" and D: "\<And>h a l. wf_heap h \<Longrightarrow> sound h (D a l) (\<lambda>_ _. True)"
  shows "sound h (display_properties V D this levels props ss) (\<lambda>_ _. True)"
  using assms(1)
  by (induction props arbitrary: h ss)
    (auto intro!: sound_ret sound_bind [OF v_get] sound_bind [OF sound_Value_Display] D)

lemma sound_display_elements:
  assumes "wf_heap h" and D: "\<And>h a l. wf_heap h \<Longrightarrow> sound h (D a l) (\<lambda>_ _. True)"
  shows "sound h (display_elements n V D this levels i oss) (\<lambda>_ _. True)"
  using assms(1)
  by (induction n arbitrary: h i oss)
    (auto intro!: sound_ret sound_raise sound_bind [OF v_size] sound_bind [OF v_at] sound_bind [OF sound_less_levels]
      sound_bind [OF sound_Value_Display] D simp: exn_ok_def)

lemma sound_vDisplay: "wf_heap h \<Longrightarrow> sound h (vDisplay n V this levels) (\<lambda>_ _. True)"
proof (induction n arbitrary: h this levels)
  case (Suc n)
  have "sound h (KList_DisplayString n V (vDisplay n V) this levels) (\<lambda>_ _. True)"
    unfolding KList_DisplayString_def using Suc.prems
    by (auto intro!: sound_ret sound_bind [OF sound_display_elements] Suc.IH)
  moreover have "sound h (KObject_DisplayString V (vDisplay n V) this levels) (\<lambda>_ _. True)"
    unfolding KObject_DisplayString_def using Suc.prems
    by (auto intro!: sound_ret sound_bind [OF v_names] sound_bind [OF sound_display_properties] Suc.IH)
  ultimately show ?case
    unfolding vDisplay.simps using Suc.prems
    by (intro sound_load_obj_bind)
      (auto intro!: sound_ret Suc.IH sound_gets simp: KMethod_DisplayString_def wrapper_display_defs split: kclass.split)
qed (simp add: sound_raise exn_ok_def)

end

end
