(* ===== verification/Kroll_Jobs.thy ===== *)
theory Kroll_Jobs
  imports Kroll_Show
begin

text \<open>
  The queue of jobs for the main thread (\<^verbatim>\<open>src/host/linux/linux_job.cpp\<close>,
  \<^verbatim>\<open>src/host/linux/host.cpp\<close>) and the jobs that report through it (\<^verbatim>\<open>src/api/async_job.cpp\<close>).

  The model is the main thread: \<^verbatim>\<open>IsMainThread\<close> holds, so a synchronous invocation runs at once
  and an asynchronous one is queued until the handler of the main loop takes it.  The semaphore of
  a job only wakes another thread.  \<^verbatim>\<open>LinuxJob::Execute\<close> turns every exception into a
  \<^verbatim>\<open>ValueException\<close>; \<open>what\<close> is the text of \<^verbatim>\<open>std::out_of_range\<close>, which the library chooses.
  Undefined behaviour and the end of the bound on nested calls are no exceptions and pass through.
\<close>

section \<open>Jobs\<close>

text \<open>A \<^verbatim>\<open>try\<close> block, what follows its normal end, and its handlers.\<close>

definition tryM :: "'a M \<Rightarrow> ('a \<Rightarrow> 'b M) \<Rightarrow> (exn \<Rightarrow> 'b M) \<Rightarrow> 'b M" where
  "tryM m f g h = (case m h of (Inr x, h') \<Rightarrow> f x h' | (Inl e, h') \<Rightarrow> g e h')"

lemma sound_try:
  assumes "sound h m Q"
    and "\<And>x h'. wf_heap h' \<Longrightarrow> heap_le h h' \<Longrightarrow> Q x h' \<Longrightarrow> sound h' (f x) R"
    and "\<And>e h'. wf_heap h' \<Longrightarrow> heap_le h h' \<Longrightarrow> exn_ok e h' \<Longrightarrow> sound h' (g e) R"
  shows "sound h (tryM m f g) R"
proof (cases "m h")
  case (Pair r h')
  with assms(1) have h': "wf_heap h'" "heap_le h h'" "case r of Inr x \<Rightarrow> Q x h' | Inl e \<Rightarrow> exn_ok e h'"
    by (simp_all add: sound_def split: sum.splits)
  have *: "sound h (tryM m f g) R" if "tryM m f g h = n h'" "sound h' n R" for n
    using that heap_le_trans [OF h'(2)] by (auto simp: sound_def split: sum.splits)
  show ?thesis
  proof (cases r)
    case (Inl e)
    then show ?thesis using Pair h' by (intro * [of "g e"] assms(3)) (auto simp: tryM_def)
  next
    case (Inr x)
    then show ?thesis using Pair h' by (intro * [of "f x"] assms(2)) (auto simp: tryM_def)
  qed
qed

text \<open>The members \<^verbatim>\<open>return_value\<close> and \<^verbatim>\<open>exception\<close>: the left side is the value of the exception.\<close>

type_synonym job_outcome = "addr + addr"

definition job_failure :: "string \<Rightarrow> job_outcome M" where
  "job_failure s = bindM (new_string s) (\<lambda>e. retM (Inl e))"

definition LinuxJob_Execute :: "string \<Rightarrow> vt \<Rightarrow> LinuxJob \<Rightarrow> job_outcome M" where
  "LinuxJob_Execute what V j = tryM (vCall V (j_method j) (j_args j)) (\<lambda>v. retM (Inr v)) (\<lambda>e.
     case e of
       ValueException a \<Rightarrow> retM (Inl a)
     | OutOfRange \<Rightarrow> job_failure what
     | NullPointer \<Rightarrow> job_failure ''Null pointer''
     | ThrownValue a \<Rightarrow> job_failure ''Unknown Exception from job queue''
     | ThrownString s \<Rightarrow> job_failure ''Unknown Exception from job queue''
     | UB \<Rightarrow> raiseM UB
     | NoFuel \<Rightarrow> raiseM NoFuel)"

definition push_job :: "LinuxJob \<Rightarrow> unit M" where
  "push_job j h = (Inr (), h\<lparr>jobs := jobs h @ [j]\<rparr>)"

definition InvokeMethodOnMainThread :: "string \<Rightarrow> vt \<Rightarrow> addr \<Rightarrow> addr list \<Rightarrow> bool \<Rightarrow> addr M" where
  "InvokeMethodOnMainThread what V m args sync =
     (let j = \<lparr>j_method = m, j_args = args, synchronous = sync\<rparr> in
      if sync then
        bindM (LinuxJob_Execute what V j) (\<lambda>r.
          case r of Inr v \<Rightarrow> retM v | Inl e \<Rightarrow> raiseM (ValueException e))
      else bindM (push_job j) (\<lambda>_. retM Undefined_addr))"

text \<open>\<^verbatim>\<open>PrintException\<close> displays the value of the exception, with the default of three levels; \<open>D\<close> is the
  virtual \<^verbatim>\<open>DisplayString\<close> of objects. It runs after \<^verbatim>\<open>Execute\<close>, outside its \<^verbatim>\<open>try\<close> block.\<close>

definition LinuxJob_PrintException :: "(addr \<Rightarrow> int \<Rightarrow> string M) \<Rightarrow> job_outcome \<Rightarrow> unit M" where
  "LinuxJob_PrintException D r =
     (case r of
        Inl e \<Rightarrow> bindM (Value_DisplayString D e 3) (\<lambda>ss.
          write_stdout (''Exception in job queue: '' @ ss @ [CHR 0x0A]))
      | Inr _ \<Rightarrow> retM ())"

primrec run_jobs :: "string \<Rightarrow> vt \<Rightarrow> (addr \<Rightarrow> int \<Rightarrow> string M) \<Rightarrow> LinuxJob list \<Rightarrow> unit M" where
  "run_jobs what V D [] = retM ()"
| "run_jobs what V D (j # js) =
     bindM (LinuxJob_Execute what V j) (\<lambda>r.
     bindM (if \<not> synchronous j then LinuxJob_PrintException D r else retM ()) (\<lambda>_.
       run_jobs what V D js))"

definition take_jobs :: "LinuxJob list M" where
  "take_jobs h = (Inr (jobs h), h\<lparr>jobs := []\<rparr>)"

definition main_thread_job_handler :: "string \<Rightarrow> vt \<Rightarrow> (addr \<Rightarrow> int \<Rightarrow> string M) \<Rightarrow> bool M" where
  "main_thread_job_handler what V D =
     bindM take_jobs (\<lambda>js. bindM (run_jobs what V D js) (\<lambda>_. retM True))"

section \<open>Asynchronous jobs\<close>

text \<open>Comparison of doubles; \<^verbatim>\<open>Inf True\<close> is the negative infinity.\<close>

fun dbl_less :: "double \<Rightarrow> double \<Rightarrow> bool" where
  "dbl_less (Fin p) (Fin q) \<longleftrightarrow> p < q"
| "dbl_less (Fin p) NegZero \<longleftrightarrow> p < 0"
| "dbl_less NegZero (Fin q) \<longleftrightarrow> 0 < q"
| "dbl_less (Inf s) (Inf t) \<longleftrightarrow> s \<and> \<not> t"
| "dbl_less (Inf s) (Fin q) \<longleftrightarrow> s"
| "dbl_less (Inf s) NegZero \<longleftrightarrow> s"
| "dbl_less (Fin p) (Inf t) \<longleftrightarrow> \<not> t"
| "dbl_less NegZero (Inf t) \<longleftrightarrow> \<not> t"
| "dbl_less _ _ \<longleftrightarrow> False"

definition get_job :: "addr \<Rightarrow> AsyncJob M" where
  "get_job this = bindM (load_obj this) (\<lambda>ob. case cls ob of CAsyncJob d \<Rightarrow> retM d | _ \<Rightarrow> raiseM UB)"

definition update_job :: "addr \<Rightarrow> (AsyncJob \<Rightarrow> AsyncJob) \<Rightarrow> unit M" where
  "update_job this f = bindM (load_obj this) (\<lambda>ob.
     case cls ob of CAsyncJob d \<Rightarrow> store_obj this (ob\<lparr>cls := CAsyncJob (f d)\<rparr>) | _ \<Rightarrow> raiseM UB)"

definition AsyncJob_DoCallback :: "string \<Rightarrow> vt \<Rightarrow> addr \<Rightarrow> addr \<Rightarrow> unit M" where
  "AsyncJob_DoCallback what V this m =
     bindM (get_job this) (\<lambda>d.
     bindM (new_value (Value_NewObject (sharedThis d))) (\<lambda>v.
     bindM (InvokeMethodOnMainThread what V m [v] False) (\<lambda>_. retM ())))"

primrec do_callbacks :: "string \<Rightarrow> vt \<Rightarrow> addr \<Rightarrow> addr list \<Rightarrow> unit M" where
  "do_callbacks what V this [] = retM ()"
| "do_callbacks what V this (m # ms) =
     bindM (AsyncJob_DoCallback what V this m) (\<lambda>_. do_callbacks what V this ms)"

definition clamp_progress :: "double \<Rightarrow> double" where
  "clamp_progress p = (if dbl_less p (Fin 0) then Fin 0 else if dbl_less (Fin 1) p then Fin 1 else p)"

text \<open>The virtual hooks \<^verbatim>\<open>OnProgressChanged\<close>, \<^verbatim>\<open>OnCompleted\<close> and \<^verbatim>\<open>OnError\<close> are empty in this class.\<close>

definition AsyncJob_SetProgress :: "string \<Rightarrow> vt \<Rightarrow> addr \<Rightarrow> double \<Rightarrow> bool \<Rightarrow> unit M" where
  "AsyncJob_SetProgress what V this p callbacks =
     bindM (update_job this (\<lambda>d. d\<lparr>progress := clamp_progress p\<rparr>)) (\<lambda>_.
       if callbacks then bindM (get_job this) (\<lambda>d. do_callbacks what V this (progressCallbacks d))
       else retM ())"

definition AsyncJob_obj :: "addr option \<Rightarrow> kobj" where
  "AsyncJob_obj j = \<lparr>cls = CAsyncJob \<lparr>job = j, progress = Fin 0, completed = False, job_result = Undefined_addr,
     hadError = False, cancelled = False, sharedThis = None, progressCallbacks = [], completedCallbacks = [],
     errorCallbacks = []\<rparr>, otype = ''StaticBoundObject'', properties = []\<rparr>"

definition AsyncJob_new :: "string \<Rightarrow> vt \<Rightarrow> addr option \<Rightarrow> addr M" where
  "AsyncJob_new what V j =
     bindM (new_object (AsyncJob_obj j)) (\<lambda>this.
     bindM (AsyncJob_SetProgress what V this (Fin 0) False) (\<lambda>_.
     bindM (StaticBoundObject_SetMethod this ''getProgress'' (AsyncJob_GetProgress this)) (\<lambda>_.
     bindM (StaticBoundObject_SetMethod this ''cancel'' (AsyncJob_Cancel this)) (\<lambda>_.
     bindM (StaticBoundObject_SetMethod this ''isComplete'' (AsyncJob_IsComplete this)) (\<lambda>_.
     bindM (update_job this (\<lambda>d. d\<lparr>sharedThis := Some this\<rparr>)) (\<lambda>_. retM this))))))"

definition AsyncJob_Error :: "string \<Rightarrow> vt \<Rightarrow> addr \<Rightarrow> unit M" where
  "AsyncJob_Error what V this =
     bindM (update_job this (\<lambda>d. d\<lparr>hadError := True\<rparr>)) (\<lambda>_.
     bindM (get_job this) (\<lambda>d. do_callbacks what V this (errorCallbacks d)))"

definition AsyncJob_Execute :: "string \<Rightarrow> vt \<Rightarrow> addr \<Rightarrow> addr M" where
  "AsyncJob_Execute what V this =
     bindM (get_job this) (\<lambda>d.
     bindM (of_opt (job d)) (\<lambda>m.
       tryM (vCall V m []) retM (\<lambda>e.
         case e of
           ValueException a \<Rightarrow> bindM (AsyncJob_Error what V this) (\<lambda>_. retM Undefined_addr)
         | _ \<Rightarrow> raiseM e)))"

definition AsyncJob_Run :: "string \<Rightarrow> vt \<Rightarrow> addr \<Rightarrow> unit M" where
  "AsyncJob_Run what V this =
     bindM (AsyncJob_Execute what V this) (\<lambda>v.
     bindM (update_job this (\<lambda>d. d\<lparr>job_result := v\<rparr>)) (\<lambda>_.
     bindM (get_job this) (\<lambda>d.
     bindM (if \<not> hadError d then
              bindM (update_job this (\<lambda>d. d\<lparr>completed := True\<rparr>)) (\<lambda>_.
              bindM (get_job this) (\<lambda>d. do_callbacks what V this (completedCallbacks d)))
            else retM ()) (\<lambda>_.
     update_job this (\<lambda>d. d\<lparr>sharedThis := None\<rparr>)))))"

definition AsyncJob_Cancel_op :: "addr \<Rightarrow> unit M" where
  "AsyncJob_Cancel_op this = update_job this (\<lambda>d. d\<lparr>cancelled := True\<rparr>)"

definition AsyncJob_AddProgressCallback :: "addr \<Rightarrow> addr \<Rightarrow> unit M" where
  "AsyncJob_AddProgressCallback this m = update_job this (\<lambda>d. d\<lparr>progressCallbacks := progressCallbacks d @ [m]\<rparr>)"

definition AsyncJob_AddCompletedCallback :: "addr \<Rightarrow> addr \<Rightarrow> unit M" where
  "AsyncJob_AddCompletedCallback this m = update_job this (\<lambda>d. d\<lparr>completedCallbacks := completedCallbacks d @ [m]\<rparr>)"

definition AsyncJob_AddErrorCallback :: "addr \<Rightarrow> addr \<Rightarrow> unit M" where
  "AsyncJob_AddErrorCallback this m = update_job this (\<lambda>d. d\<lparr>errorCallbacks := errorCallbacks d @ [m]\<rparr>)"

definition AsyncJob__GetProgress :: "addr \<Rightarrow> addr \<Rightarrow> unit M" where
  "AsyncJob__GetProgress this result = bindM (get_job this) (\<lambda>d. set_result result (Value_SetDouble (progress d)))"

definition AsyncJob__IsComplete :: "addr \<Rightarrow> addr \<Rightarrow> unit M" where
  "AsyncJob__IsComplete this result = bindM (get_job this) (\<lambda>d. set_result result (Value_SetBool (Some (completed d))))"

section \<open>The invariant\<close>

lemma sound_set_result:
  "wf_heap h \<Longrightarrow> (\<And>v. wf_cell h v \<Longrightarrow> wf_cell h (f v)) \<Longrightarrow> sound h (set_result r f) (\<lambda>_ _. True)"
  unfolding set_result_def by (rule sound_load_bind) (auto intro: sound_store)

lemma sound_set_string_result: "wf_heap h \<Longrightarrow> sound h (set_string_result r s) (\<lambda>_ _. True)"
  unfolding set_string_result_def by (rule sound_bind [OF sound_fresh]) (auto intro: sound_set_result)

lemma sound_SetMethod: "wf_heap h \<Longrightarrow> sound h (StaticBoundObject_SetMethod this name cb) (\<lambda>_ _. True)"
  unfolding StaticBoundObject_SetMethod_def StaticBoundMethod_new_def
  by (rule sound_bind [OF sound_new_object], assumption, simp add: wf_obj_def pmap_ok_def)
    (auto intro!: sound_bind [OF sound_new_value] sound_Static_Set simp: isMethod_def)

lemma wf_heap_push_job:
  assumes "wf_heap h" and "isMethod h m" and "\<forall>x \<in> set args. cells h x \<noteq> None"
  shows "wf_heap (h\<lparr>jobs := jobs h @ [\<lparr>j_method = m, j_args = args, synchronous = s\<rparr>]\<rparr>)"
proof -
  let ?h = "h\<lparr>jobs := jobs h @ [\<lparr>j_method = m, j_args = args, synchronous = s\<rparr>]\<rparr>"
  have same: "isList ?h = isList h" "isMethod ?h = isMethod h" by (auto simp: isList_def isMethod_def fun_eq_iff)
  have "wf_class ?h c = wf_class h c" for c by (cases "(h, c)" rule: wf_class.cases) (simp_all add: same)
  then show ?thesis using assms by (auto simp: wf_heap_def wf_cell_def wf_obj_def wf_listeners_def wf_jobs_def same)
qed

lemma sound_push_job:
  assumes "wf_heap h" and "isMethod h m" and "\<forall>x \<in> set args. cells h x \<noteq> None"
  shows "sound h (push_job \<lparr>j_method = m, j_args = args, synchronous = s\<rparr>) (\<lambda>_ _. True)"
  using wf_heap_push_job [OF assms] by (simp add: sound_def push_job_def heap_le_def)

lemma wf_heap_take_jobs: "wf_heap h \<Longrightarrow> wf_heap (h\<lparr>jobs := []\<rparr>)"
proof -
  assume wf: "wf_heap h"
  have same: "isList (h\<lparr>jobs := []\<rparr>) = isList h" "isMethod (h\<lparr>jobs := []\<rparr>) = isMethod h"
    by (auto simp: isList_def isMethod_def fun_eq_iff)
  have "wf_class (h\<lparr>jobs := []\<rparr>) c = wf_class h c" for c by (cases "(h, c)" rule: wf_class.cases) (simp_all add: same)
  then show ?thesis using wf by (auto simp: wf_heap_def wf_cell_def wf_obj_def wf_listeners_def wf_jobs_def same)
qed

lemma sound_job_failure:
  "wf_heap h \<Longrightarrow> sound h (job_failure s) (\<lambda>r h'. case r of Inl a \<Rightarrow> cells h' a \<noteq> None | Inr a \<Rightarrow> cells h' a \<noteq> None)"
  unfolding job_failure_def by (rule sound_bind [OF sound_new_string]) (auto intro: sound_ret)

lemma wf_class_job: "wf_obj h ob \<Longrightarrow> cls ob = CAsyncJob d \<Longrightarrow> wf_class h (CAsyncJob d)"
  by (simp add: wf_obj_def)

lemma sound_get_job: "wf_heap h \<Longrightarrow> sound h (get_job this) (\<lambda>d h'. h' = h \<and> wf_class h (CAsyncJob d)
    \<and> (\<exists>ob. objs h this = Some ob \<and> cls ob = CAsyncJob d))"
  unfolding get_job_def
  by (rule sound_load_obj_bind) (auto intro!: sound_ret sound_raise simp: exn_ok_def wf_obj_def split: kclass.split)

lemma sound_get_job_bind:
  assumes "wf_heap h"
    and "\<And>d ob. wf_class h (CAsyncJob d) \<Longrightarrow> objs h this = Some ob \<Longrightarrow> cls ob = CAsyncJob d \<Longrightarrow> sound h (f d) Q"
  shows "sound h (bindM (get_job this) f) Q"
  by (rule sound_bind [OF sound_get_job [OF assms(1)]]) (use assms(2) in blast)

lemma sound_update_job:
  assumes "wf_heap h" and "\<And>d. wf_class h (CAsyncJob d) \<Longrightarrow> wf_class h (CAsyncJob (f d)) \<and> job (f d) = job d"
  shows "sound h (update_job this f) (\<lambda>_ _. True)"
  unfolding update_job_def
proof (rule sound_load_obj_bind [OF assms(1)])
  fix ob assume ob: "objs h this = Some ob" "wf_obj h ob"
  show "sound h (case cls ob of CAsyncJob d \<Rightarrow> store_obj this (ob\<lparr>cls := CAsyncJob (f d)\<rparr>) | _ \<Rightarrow> raiseM UB) (\<lambda>_ _. True)"
  proof (cases "cls ob")
    case (CAsyncJob d)
    have f: "wf_class h (CAsyncJob (f d))" "job (f d) = job d" using assms(2) [OF wf_class_job [OF ob(2) CAsyncJob]] by blast+
    then have "fixed (CAsyncJob (f d)) = fixed (CAsyncJob d)" by simp
    then have "sound h (store_obj this (ob\<lparr>cls := CAsyncJob (f d)\<rparr>)) (\<lambda>_ h'. objs h' this = Some (ob\<lparr>cls := CAsyncJob (f d)\<rparr>))"
      using CAsyncJob ob f(1) by (intro sound_store_obj [OF assms(1) ob(1)]) (simp_all add: wf_obj_def del: wf_class.simps)
    then show ?thesis using CAsyncJob by (auto intro: sound_conseq)
  qed (simp_all add: sound_raise assms(1) exn_ok_def)
qed

lemma sound_do_callback:
  assumes "wf_heap h" and "isMethod h m"
  shows "sound h (AsyncJob_DoCallback what V this m) (\<lambda>_ _. True)"
  unfolding AsyncJob_DoCallback_def InvokeMethodOnMainThread_def Let_def if_False
proof (rule sound_get_job_bind [OF assms(1)], goal_cases)
  case (1 d)
  then have "wf_cell h (Value_NewObject (sharedThis d))" by simp
  then show ?case
    by (rule sound_bind [OF sound_new_value [OF assms(1)]])
      (use assms(2) heap_le_isMethod in \<open>auto intro!: sound_bind [OF sound_push_job] sound_push_job sound_ret wf_heap_Undefined\<close>)
qed

lemma sound_do_callbacks:
  "wf_heap h \<Longrightarrow> list_all (isMethod h) ms \<Longrightarrow> sound h (do_callbacks what V this ms) (\<lambda>_ _. True)"
proof (induction ms arbitrary: h)
  case (Cons m ms)
  have "list_all (isMethod h') ms" if "heap_le h h'" for h'
    using Cons.prems heap_le_isMethod [OF that] by (auto simp: list_all_iff)
  with Cons show ?case by (auto intro!: sound_bind [OF sound_do_callback])
qed (simp add: sound_ret)

lemma sound_SetProgress: "wf_heap h \<Longrightarrow> sound h (AsyncJob_SetProgress what V this p cbs) (\<lambda>_ _. True)"
  unfolding AsyncJob_SetProgress_def
  by (rule sound_bind [OF sound_update_job])
    (auto intro!: sound_ret sound_get_job_bind sound_do_callbacks)

context virtual_table
begin

lemma sound_Execute:
  assumes "wf_heap h" and "\<forall>x \<in> set (j_args j). cells h x \<noteq> None"
  shows "sound h (LinuxJob_Execute what V j) (\<lambda>r h'. case r of Inl a \<Rightarrow> cells h' a \<noteq> None | Inr a \<Rightarrow> cells h' a \<noteq> None)"
  unfolding LinuxJob_Execute_def
  by (rule sound_try [OF v_call [OF assms]])
    (auto intro!: sound_ret sound_raise sound_job_failure simp: exn_ok_def split: exn.splits)

lemma sound_Invoke:
  assumes "wf_heap h" and "isMethod h m" and "\<forall>x \<in> set args. cells h x \<noteq> None"
  shows "sound h (InvokeMethodOnMainThread what V m args sync) (\<lambda>x h'. cells h' x \<noteq> None)"
  using assms unfolding InvokeMethodOnMainThread_def Let_def
  by (auto intro!: sound_bind [OF sound_Execute] sound_bind [OF sound_push_job] sound_ret sound_raise
      simp: exn_ok_def wf_heap_Undefined split: sum.splits)

lemma sound_PrintException:
  assumes "wf_heap h"
  shows "sound h (LinuxJob_PrintException (vDisplay n V) r) (\<lambda>_ _. True)"
  unfolding LinuxJob_PrintException_def using assms
  by (auto intro!: sound_ret sound_bind [OF sound_Value_Display] sound_vDisplay sound_write_stdout split: sum.split)

lemma sound_run_jobs:
  "wf_heap h \<Longrightarrow> \<forall>j \<in> set js. \<forall>x \<in> set (j_args j). cells h x \<noteq> None \<Longrightarrow>
    sound h (run_jobs what V (vDisplay n V) js) (\<lambda>_ _. True)"
proof (induction js arbitrary: h)
  case (Cons j js)
  have "sound h1 (bindM (if \<not> synchronous j then LinuxJob_PrintException (vDisplay n V) r else retM ())
      (\<lambda>_. run_jobs what V (vDisplay n V) js)) (\<lambda>_ _. True)" if h1: "wf_heap h1" "heap_le h h1" for h1 r
  proof (rule sound_bind [of _ _ "\<lambda>_ _. True"])
    show "sound h1 (if \<not> synchronous j then LinuxJob_PrintException (vDisplay n V) r else retM ()) (\<lambda>_ _. True)"
      using h1(1) by (simp add: sound_PrintException sound_ret)
    fix h2 assume "wf_heap h2" "heap_le h1 h2"
    then show "sound h2 (run_jobs what V (vDisplay n V) js) (\<lambda>_ _. True)"
      using Cons.prems(2) heap_le_trans [OF h1(2)] heap_le_cells by (intro Cons.IH) (simp, metis list.set_intros(2))
  qed
  then show ?case
    using Cons.prems by (auto intro!: sound_bind [OF sound_Execute])
qed (simp add: sound_ret)

lemma sound_handler: "wf_heap h \<Longrightarrow> sound h (main_thread_job_handler what V (vDisplay n V)) (\<lambda>_ _. True)"
proof -
  assume wf: "wf_heap h"
  have "sound h take_jobs (\<lambda>js h'. \<forall>j \<in> set js. \<forall>x \<in> set (j_args j). cells h' x \<noteq> None)"
    using wf_heap_take_jobs [OF wf] wf_heap_jobs [OF wf] by (simp add: sound_def take_jobs_def heap_le_def wf_jobs_def)
  then show ?thesis
    unfolding main_thread_job_handler_def by (rule sound_bind) (auto intro!: sound_bind [OF sound_run_jobs] sound_ret)
qed

end

section \<open>Running the queue\<close>

lemma vtable_sel:
  "vCall (vtable (Suc n) N F) = dispatch_Call N F (vtable n N F)"
  "vGet (vtable (Suc n) N F) = dispatch_Get (vtable n N F)"
  "vSet (vtable (Suc n) N F) = dispatch_Set (vtable n N F)"
  "vNames (vtable (Suc n) N F) = dispatch_Names (vtable n N F)"
  by (simp_all add: Let_def)

definition returns :: "(exn + 'a) \<Rightarrow> bool" where
  "returns r \<longleftrightarrow> r \<noteq> Inl UB \<and> r \<noteq> Inl NoFuel"

lemma Execute_returns:
  assumes "returns (fst (vCall V (j_method j) (j_args j) h))"
  shows "\<exists>r. fst (LinuxJob_Execute what V j h) = Inr r"
  using assms
  by (auto simp: returns_def LinuxJob_Execute_def tryM_def retM_def job_failure_def new_string_def bindM_def fresh_def
      new_value_def split: prod.splits sum.splits exn.splits)

text \<open>One job of the queue: it is executed, and the exception of an asynchronous one is printed.\<close>

definition job_reported :: "string \<Rightarrow> vt \<Rightarrow> (addr \<Rightarrow> int \<Rightarrow> string M) \<Rightarrow> LinuxJob \<Rightarrow> heap \<Rightarrow> heap \<Rightarrow> bool" where
  "job_reported what V D j h h' \<longleftrightarrow> (\<exists>r h1. LinuxJob_Execute what V j h = (Inr r, h1) \<and>
     (case r of
        Inr v \<Rightarrow> h' = h1
      | Inl e \<Rightarrow> if synchronous j then h' = h1
          else \<exists>s h2. Value_DisplayString D e 3 h1 = (Inr s, h2)
            \<and> write_stdout (''Exception in job queue: '' @ s @ [CHR 0x0A]) h2 = (Inr (), h')))"

text \<open>One job whose exception cannot be printed: displaying it ends in \<open>x\<close>, an exception or one of the
  results that stand for undefined behaviour and for a depth that is not enough.\<close>

definition report_throws :: "string \<Rightarrow> vt \<Rightarrow> (addr \<Rightarrow> int \<Rightarrow> string M) \<Rightarrow> LinuxJob \<Rightarrow> heap \<Rightarrow> exn \<Rightarrow> heap \<Rightarrow> bool" where
  "report_throws what V D j h x h' \<longleftrightarrow> \<not> synchronous j \<and>
     (\<exists>e h1. LinuxJob_Execute what V j h = (Inr (Inl e), h1) \<and> Value_DisplayString D e 3 h1 = (Inl x, h'))"

lemma run_job_cases:
  assumes "virtual_table V" and "wf_heap h" and "\<forall>x \<in> set (j_args j). cells h x \<noteq> None"
    and "returns (fst (vCall V (j_method j) (j_args j) h))"
  obtains (reported) h' where "job_reported what V (vDisplay n V) j h h'" "wf_heap h'" "heap_le h h'"
      "run_jobs what V (vDisplay n V) (j # js) h = run_jobs what V (vDisplay n V) js h'"
  | (throws) x h' where "report_throws what V (vDisplay n V) j h x h'" "wf_heap h'"
      "run_jobs what V (vDisplay n V) (j # js) h = (Inl x, h')"
proof -
  let ?D = "vDisplay n V"
  obtain r h1 where h1: "LinuxJob_Execute what V j h = (Inr r, h1)"
    using Execute_returns [OF assms(4)] by (metis prod.collapse)
  note h1s = sound_run(1,2) [OF virtual_table.sound_Execute [OF assms(1-3)] h1]
  show ?thesis
  proof (cases "synchronous j \<or> (\<exists>v. r = Inr v)")
    case True
    then have "job_reported what V ?D j h h1" and "run_jobs what V ?D (j # js) h = run_jobs what V ?D js h1"
      using h1 by (auto simp: job_reported_def bindM_def LinuxJob_PrintException_def retM_def split: sum.split)
    then show ?thesis using h1s reported by blast
  next
    case False
    then obtain e where e: "\<not> synchronous j" "r = Inl e" by (cases r) auto
    obtain d h2 where h2: "Value_DisplayString ?D e 3 h1 = (d, h2)" by fastforce
    have h2s: "wf_heap h2" "heap_le h1 h2"
      using sound_run(1,2) [OF virtual_table.sound_Value_Display [OF assms(1) h1s(1) virtual_table.sound_vDisplay [OF assms(1)]] h2]
      by auto
    show ?thesis
    proof (cases d)
      case (Inl x)
      then have "report_throws what V ?D j h x h2" "run_jobs what V ?D (j # js) h = (Inl x, h2)"
        using h1 h2 e by (auto simp: report_throws_def bindM_def LinuxJob_PrintException_def)
      then show ?thesis using throws h2s by blast
    next
      case (Inr s)
      obtain h3 where h3: "write_stdout (''Exception in job queue: '' @ s @ [CHR 0x0A]) h2 = (Inr (), h3)"
        by (simp add: write_stdout_def)
      have "wf_heap h3" "heap_le h2 h3" using sound_run(1,2) [OF sound_write_stdout [OF h2s(1)] h3] by auto
      moreover have "job_reported what V ?D j h h3" "run_jobs what V ?D (j # js) h = run_jobs what V ?D js h3"
        using h1 h2 h3 e Inr by (auto simp: job_reported_def bindM_def LinuxJob_PrintException_def)
      ultimately show ?thesis using reported h1s h2s heap_le_trans by blast
    qed
  qed
qed

lemma run_jobs_in_order:
  assumes "virtual_table V" and "wf_heap h"
    and "\<forall>j \<in> set js. \<forall>h'. wf_heap h' \<longrightarrow> heap_le h h' \<longrightarrow> returns (fst (vCall V (j_method j) (j_args j) h'))"
    and "\<forall>j \<in> set js. \<forall>x \<in> set (j_args j). cells h x \<noteq> None"
  shows "\<exists>k hs. k \<le> length js \<and> length hs = Suc k \<and> hs ! 0 = h
    \<and> (\<forall>i < k. job_reported what V (vDisplay n V) (js ! i) (hs ! i) (hs ! Suc i))
    \<and> (k = length js \<and> run_jobs what V (vDisplay n V) js h = (Inr (), last hs) \<and> wf_heap (last hs)
      \<or> k < length js \<and> (\<exists>x h'. report_throws what V (vDisplay n V) (js ! k) (last hs) x h' \<and> wf_heap h'
          \<and> run_jobs what V (vDisplay n V) js h = (Inl x, h')))"
  using assms(2-)
proof (induction js arbitrary: h)
  case Nil
  then show ?case by (intro exI [of _ 0] exI [of _ "[h]"]) (simp add: retM_def)
next
  case (Cons j js)
  have ret: "returns (fst (vCall V (j_method j) (j_args j) h))" "\<forall>x \<in> set (j_args j). cells h x \<noteq> None"
    using Cons.prems by auto
  show ?case
  proof (rule run_job_cases [OF assms(1) Cons.prems(1) ret(2,1), where what = what and n = n and js = js], goal_cases)
    case reported: (1 h1)
    have args: "\<forall>j \<in> set js. \<forall>x \<in> set (j_args j). cells h1 x \<noteq> None"
      using Cons.prems(3) heap_le_cells [OF reported(3)] by simp
    have calls: "\<forall>j \<in> set js. \<forall>h'. wf_heap h' \<longrightarrow> heap_le h1 h' \<longrightarrow> returns (fst (vCall V (j_method j) (j_args j) h'))"
      using Cons.prems(2) heap_le_trans [OF reported(3)] by simp
    from Cons.IH [OF reported(2) calls args] obtain k hs where ks: "k \<le> length js" "length hs = Suc k" "hs ! 0 = h1"
        "\<forall>i < k. job_reported what V (vDisplay n V) (js ! i) (hs ! i) (hs ! Suc i)"
        "k = length js \<and> run_jobs what V (vDisplay n V) js h1 = (Inr (), last hs) \<and> wf_heap (last hs)
        \<or> k < length js \<and> (\<exists>x h'. report_throws what V (vDisplay n V) (js ! k) (last hs) x h' \<and> wf_heap h'
          \<and> run_jobs what V (vDisplay n V) js h1 = (Inl x, h'))"
      by (elim exE conjE) blast
    have "job_reported what V (vDisplay n V) ((j # js) ! i) ((h # hs) ! i) ((h # hs) ! Suc i)" if "i < Suc k" for i
      using that reported(1) ks(3,4) by (cases i) auto
    moreover have "last (h # hs) = last hs" using ks(2) by auto
    ultimately show ?case
      using ks by (intro exI [of _ "Suc k"] exI [of _ "h # hs"]) (auto simp del: run_jobs.simps simp: reported(4))
  next
    case (2 x h')
    then show ?case
      by (intro exI [of _ 0] exI [of _ "[h]"]) (auto simp del: run_jobs.simps)
  qed
qed

text \<open>C15: 
  The handler of the main loop takes the jobs that are queued when it starts and executes each of
  them once, in the order they were queued, whatever exceptions the methods throw, and jobs queued
  meanwhile are left for its next run. After an asynchronous job that threw, the displayed exception
  is written to the standard output. The handler returns when all jobs are run; it ends earlier in
  exactly one case, when displaying the exception of an asynchronous job does not return a string:
  an exception of the display leaves the handler (a display that does not end, or that is undefined,
  is such a result too), and the jobs behind are neither run nor queued any more. (The calls
  of the jobs' methods are assumed to return or throw.)
\<close>

theorem main_thread_job_handler_runs_all:
  assumes "virtual_table V" and "wf_heap h"
    and "\<And>j h'. j \<in> set (jobs h) \<Longrightarrow> wf_heap h' \<Longrightarrow> heap_le h h' \<Longrightarrow> returns (fst (vCall V (j_method j) (j_args j) h'))"
  shows "\<exists>k hs. k \<le> length (jobs h) \<and> length hs = Suc k \<and> hs ! 0 = h\<lparr>jobs := []\<rparr>
    \<and> (\<forall>i < k. job_reported what V (vDisplay n V) (jobs h ! i) (hs ! i) (hs ! Suc i))
    \<and> (k = length (jobs h) \<and> main_thread_job_handler what V (vDisplay n V) h = (Inr True, last hs) \<and> wf_heap (last hs)
      \<or> k < length (jobs h) \<and> (\<exists>x h'. report_throws what V (vDisplay n V) (jobs h ! k) (last hs) x h' \<and> wf_heap h'
          \<and> main_thread_job_handler what V (vDisplay n V) h = (Inl x, h')))"
proof -
  have le: "heap_le h (h\<lparr>jobs := []\<rparr>)" by (simp add: heap_le_def)
  have handler: "main_thread_job_handler what V (vDisplay n V) h =
      bindM (run_jobs what V (vDisplay n V) (jobs h)) (\<lambda>_. retM True) (h\<lparr>jobs := []\<rparr>)"
    by (simp add: main_thread_job_handler_def take_jobs_def bindM_def)
  have "\<forall>j \<in> set (jobs h). \<forall>x \<in> set (j_args j). cells (h\<lparr>jobs := []\<rparr>) x \<noteq> None"
    using wf_heap_jobs [OF assms(2)] by (simp add: wf_jobs_def)
  moreover have "\<forall>j \<in> set (jobs h). \<forall>h'. wf_heap h' \<longrightarrow> heap_le (h\<lparr>jobs := []\<rparr>) h' \<longrightarrow>
      returns (fst (vCall V (j_method j) (j_args j) h'))"
    using assms(3) heap_le_trans [OF le] by blast
  ultimately obtain k hs where "k \<le> length (jobs h)" "length hs = Suc k" "hs ! 0 = h\<lparr>jobs := []\<rparr>"
      "\<forall>i < k. job_reported what V (vDisplay n V) (jobs h ! i) (hs ! i) (hs ! Suc i)"
      "k = length (jobs h) \<and> run_jobs what V (vDisplay n V) (jobs h) (h\<lparr>jobs := []\<rparr>) = (Inr (), last hs) \<and> wf_heap (last hs)
      \<or> k < length (jobs h) \<and> (\<exists>x h'. report_throws what V (vDisplay n V) (jobs h ! k) (last hs) x h' \<and> wf_heap h'
          \<and> run_jobs what V (vDisplay n V) (jobs h) (h\<lparr>jobs := []\<rparr>) = (Inl x, h'))"
    using run_jobs_in_order [OF assms(1) wf_heap_take_jobs [OF assms(2)], of "jobs h" what n] by blast
  then show ?thesis
    by (intro exI [of _ k] exI [of _ hs]) (auto simp: handler bindM_def retM_def)
qed

text \<open>A queue of two asynchronous jobs: the native of the first throws \<^verbatim>\<open>null\<close>, the second has no callback.\<close>

definition null_natives :: natives where
  "null_natives _ _ _ _ = raiseM (ValueException Null_addr)"

definition demo_job_heap :: heap where
  "demo_job_heap = demo_heap\<lparr>objs := [3 \<mapsto> StaticBoundMethod_new None ''StaticBoundMethod'',
       4 \<mapsto> StaticBoundMethod_new (Some (AsyncJob_Cancel 3)) ''StaticBoundMethod''], next_addr := 5,
     jobs := [\<lparr>j_method = 4, j_args = [], synchronous = False\<rparr>, \<lparr>j_method = 3, j_args = [], synchronous = False\<rparr>]\<rparr>"

lemma demo_job_heap_wf: "wf_heap demo_job_heap"
  by (auto simp: wf_heap_def wf_listeners_def wf_jobs_def demo_job_heap_def demo_heap_def StaticBoundMethod_new_def
      Undefined_addr_def Null_addr_def wf_obj_def pmap_ok_def isMethod_def split: if_splits)

text \<open>The natives and function pointers that do nothing, or always throw \<^verbatim>\<open>null\<close>, satisfy the contract of
  native code.\<close>

interpretation idle: native_code no_natives no_fnptrs
  by unfold_locales (simp_all add: no_natives_def no_fnptrs_def sound_ret wf_heap_Undefined)

interpretation throwing: native_code null_natives no_fnptrs
  by unfold_locales (simp_all add: null_natives_def no_fnptrs_def sound_ret sound_raise wf_heap_Undefined wf_heap_Null exn_ok_def)

lemmas demo_call_defs = vtable_sel dispatch_Call_def bindM_def load_obj_def StaticBoundMethod_Call_def new_value_def retM_def
  raiseM_def null_natives_def returns_def

lemma demo_job_calls:
  fixes V defines "V \<equiv> vtable (Suc 0) null_natives no_fnptrs"
  assumes "heap_le demo_job_heap h'" and "m = 3 \<or> m = 4"
  shows "returns (fst (vCall V m [] h'))"
proof -
  obtain ob0 c where ob0: "objs demo_job_heap m = Some ob0" "cls ob0 = CStaticBoundMethod c"
    using assms(3) by (auto simp: demo_job_heap_def StaticBoundMethod_new_def)
  obtain ob where ob: "objs h' m = Some ob" "fixed (cls ob) = CStaticBoundMethod c"
    by (rule heap_le_objE [OF assms(2) ob0(1)]) (use ob0(2) in simp)
  then obtain cb where "cls ob = CStaticBoundMethod cb" by (cases "cls ob") auto
  then show ?thesis using ob(1) unfolding V_def by (cases cb) (simp_all add: demo_call_defs del: vtable.simps)
qed

theorem main_thread_job_handler_runs_all_witness:
  "\<exists>h'. main_thread_job_handler ''out of range'' (vtable (Suc 0) null_natives no_fnptrs)
      (vDisplay 0 (vtable (Suc 0) null_natives no_fnptrs)) demo_job_heap = (Inr True, h') \<and> wf_heap h'
    \<and> p_stdout (proc h') = ''Exception in job queue: <null>'' @ [CHR 0x0A]"
proof -
  let ?V = "vtable (Suc 0) null_natives no_fnptrs" and ?h = demo_job_heap
  let ?D = "vDisplay 0 ?V"
  let ?rep = "job_reported ''out of range'' ?V ?D" and ?thr = "report_throws ''out of range'' ?V ?D"
  have js: "length (jobs ?h) = 2" by (simp add: demo_job_heap_def)
  define h1 where "h1 = ?h\<lparr>cells := (cells ?h)(5 \<mapsto> Value_NewUndefined), next_addr := 6, jobs := [],
    proc := (proc ?h)\<lparr>p_stdout := ''Exception in job queue: <null>'' @ [CHR 0x0A]\<rparr>\<rparr>"
  have exec: "LinuxJob_Execute ''out of range'' ?V (jobs ?h ! 0) (?h\<lparr>jobs := []\<rparr>)
      = (Inr (Inl Null_addr), ?h\<lparr>cells := (cells ?h)(5 \<mapsto> Value_NewUndefined), next_addr := 6, jobs := []\<rparr>)"
    and exec1: "LinuxJob_Execute ''out of range'' ?V (jobs ?h ! Suc 0) h1 =
      (Inr (Inr 6), h1\<lparr>cells := (cells h1)(6 \<mapsto> Value_NewUndefined), next_addr := 7\<rparr>)"
    by (simp_all add: LinuxJob_Execute_def tryM_def demo_call_defs demo_job_heap_def demo_heap_def StaticBoundMethod_new_def
        h1_def del: vtable.simps)
  have disp: "Value_DisplayString ?D Null_addr 3 h = (Inr ''<null>'', h)" if "cells h Null_addr = Some Value_NewNull" for h
    using that
    by (simp add: Value_DisplayString_def bindM_def load_def retM_def Value_New_defs Value_Set_defs Value_new_def Value_reset_def
        Value_Is_defs)
  have cell: "cells ?h Null_addr = Some Value_NewNull" "Null_addr \<noteq> 5" "p_stdout (proc ?h) = []"
    by (simp_all add: demo_job_heap_def demo_heap_def Null_addr_def Undefined_addr_def demo_process_def)
  have sync: "\<not> synchronous (jobs ?h ! 0)" "\<not> synchronous (jobs ?h ! Suc 0)" by (simp_all add: demo_job_heap_def)
  have rep: "?rep (jobs ?h ! 0) (?h\<lparr>jobs := []\<rparr>) x \<longleftrightarrow> x = h1" for x
    by (auto simp: job_reported_def exec disp cell sync write_stdout_def h1_def simp del: vtable.simps vDisplay.simps)
  have thr: "\<not> ?thr (jobs ?h ! 0) (?h\<lparr>jobs := []\<rparr>) x h'" "\<not> ?thr (jobs ?h ! Suc 0) h1 x h'" for x h'
    by (auto simp: report_throws_def exec exec1 disp cell simp del: vtable.simps vDisplay.simps)
  have calls: "returns (fst (vCall ?V (j_method j) (j_args j) h'))" if "j \<in> set (jobs ?h)" "heap_le ?h h'" for j h'
    using that(1) demo_job_calls [OF that(2)] by (auto simp: demo_job_heap_def simp del: vtable.simps)
  let ?out = "\<lambda>k hs. k = 2 \<and> main_thread_job_handler ''out of range'' ?V ?D ?h = (Inr True, last hs) \<and> wf_heap (last hs)
      \<or> k < 2 \<and> (\<exists>x h'. ?thr (jobs ?h ! k) (last hs) x h' \<and> wf_heap h'
          \<and> main_thread_job_handler ''out of range'' ?V ?D ?h = (Inl x, h'))"
  have "\<exists>k hs. k \<le> 2 \<and> length hs = Suc k \<and> hs ! 0 = ?h\<lparr>jobs := []\<rparr>
      \<and> (\<forall>i < k. ?rep (jobs ?h ! i) (hs ! i) (hs ! Suc i)) \<and> ?out k hs"
    using main_thread_job_handler_runs_all [OF throwing.table.virtual_table_axioms [of "Suc 0"] demo_job_heap_wf, where
        what = "''out of range''" and n = 0, unfolded js, OF calls] .
  then obtain k hs where ks: "k \<le> 2" "length hs = Suc k" "hs ! 0 = ?h\<lparr>jobs := []\<rparr>"
      "\<forall>i < k. ?rep (jobs ?h ! i) (hs ! i) (hs ! Suc i)" "?out k hs"
    by (elim exE conjE)
  have lst: "last hs = hs ! k" using ks(2) last_conv_nth [of hs] by (cases hs) auto
  have "0 < k" using ks(2,3,5) thr(1) by (cases hs) (auto simp del: vtable.simps vDisplay.simps)
  then have hs1: "hs ! Suc 0 = h1" using ks(3,4) rep by (auto simp del: vtable.simps vDisplay.simps)
  have "k \<noteq> 1" using ks(5) hs1 thr(2) by (auto simp: lst simp del: vtable.simps vDisplay.simps)
  then have k: "k = 2" using ks(1) \<open>0 < k\<close> by simp
  then have "?rep (jobs ?h ! Suc 0) h1 (hs ! Suc (Suc 0))" using ks(4) hs1 by (auto simp: numeral_2_eq_2 simp del: vtable.simps vDisplay.simps)
  then have "p_stdout (proc (hs ! Suc (Suc 0))) = ''Exception in job queue: <null>'' @ [CHR 0x0A]"
    by (simp add: job_reported_def exec1 del: vtable.simps vDisplay.simps) (simp add: h1_def)
  then show ?thesis using ks(2,5) k by (auto simp: lst numeral_2_eq_2 simp del: vtable.simps vDisplay.simps)
qed

section \<open>Progress and completion\<close>

lemma update_job_run:
  assumes "objs h this = Some ob" and "cls ob = CAsyncJob d"
  shows "update_job this f h = (Inr (), h\<lparr>objs := (objs h)(this \<mapsto> ob\<lparr>cls := CAsyncJob (f d)\<rparr>)\<rparr>)"
  using assms by (simp add: update_job_def bindM_def load_obj_def store_obj_def)

lemma get_job_run:
  "objs h this = Some ob \<Longrightarrow> cls ob = CAsyncJob d \<Longrightarrow> get_job this h = (Inr d, h)"
  by (simp add: get_job_def bindM_def load_obj_def retM_def)

text \<open>The queue entries that \<^verbatim>\<open>DoCallback\<close> makes: one call each, whose argument is the job itself.\<close>

definition callback_job :: "heap \<Rightarrow> addr option \<Rightarrow> addr \<Rightarrow> LinuxJob \<Rightarrow> bool" where
  "callback_job h self m j \<longleftrightarrow> j_method j = m \<and> \<not> synchronous j
     \<and> (\<exists>v. j_args j = [v] \<and> cells h v = Some (Value_NewObject self))"

lemma callback_job_objs [simp]: "callback_job (h\<lparr>objs := x\<rparr>) = callback_job h"
  by (simp add: fun_eq_iff callback_job_def)

lemma do_callbacks_run:
  assumes "objs h this = Some ob" and "cls ob = CAsyncJob d" and "\<forall>a \<ge> next_addr h. cells h a = None"
  shows "\<exists>h' js. do_callbacks what V this ms h = (Inr (), h') \<and> objs h' = objs h \<and> jobs h' = jobs h @ js
    \<and> list_all2 (callback_job h' (sharedThis d)) ms js \<and> (\<forall>a v. cells h a = Some v \<longrightarrow> cells h' a = Some v)"
  using assms
proof (induction ms arbitrary: h)
  case (Cons m ms)
  let ?v = "next_addr h" and ?j = "\<lparr>j_method = m, j_args = [next_addr h], synchronous = False\<rparr>"
  define h1 where "h1 = h\<lparr>cells := (cells h)(?v \<mapsto> Value_NewObject (sharedThis d)), next_addr := Suc ?v, jobs := jobs h @ [?j]\<rparr>"
  have step: "AsyncJob_DoCallback what V this m h = (Inr (), h1)"
    using Cons.prems(1,2)
    by (simp add: AsyncJob_DoCallback_def bindM_def get_job_run new_value_def InvokeMethodOnMainThread_def push_job_def
        retM_def h1_def)
  obtain h' js where h': "do_callbacks what V this ms h1 = (Inr (), h')" "objs h' = objs h1" "jobs h' = jobs h1 @ js"
      "list_all2 (callback_job h' (sharedThis d)) ms js" "\<forall>a v. cells h1 a = Some v \<longrightarrow> cells h' a = Some v"
    using Cons.IH [of h1] Cons.prems by (auto simp: h1_def)
  have "callback_job h' (sharedThis d) m ?j" using h'(5) by (simp add: callback_job_def h1_def)
  moreover have "\<forall>a v. cells h a = Some v \<longrightarrow> cells h' a = Some v"
  proof (intro allI impI)
    fix a v assume "cells h a = Some v"
    moreover from this have "a \<noteq> ?v" using Cons.prems(3) by auto
    ultimately show "cells h' a = Some v" using h'(5) by (simp add: h1_def)
  qed
  ultimately show ?case using step h' by (auto simp: bindM_def h1_def)
qed (simp add: retM_def)

text \<open>
  A progress value is stored clamped to the interval from 0 to 1, and nothing else of the job
  changes; a NaN passes both comparisons and is stored as it is.
\<close>

theorem AsyncJob_SetProgress_clamps:
  assumes "objs h this = Some ob" and "cls ob = CAsyncJob d"
  shows "\<exists>h' q. AsyncJob_SetProgress what V this p False h = (Inr (), h')
    \<and> h' = h\<lparr>objs := (objs h)(this \<mapsto> ob\<lparr>cls := CAsyncJob (d\<lparr>progress := q\<rparr>)\<rparr>)\<rparr>
    \<and> \<not> dbl_less q (Fin 0) \<and> \<not> dbl_less (Fin 1) q
    \<and> (\<not> dbl_less p (Fin 0) \<and> \<not> dbl_less (Fin 1) p \<longrightarrow> q = p) \<and> (q = NaN \<longleftrightarrow> p = NaN)"
proof -
  have "\<not> dbl_less (clamp_progress p) (Fin 0)" "\<not> dbl_less (Fin 1) (clamp_progress p)"
    by (simp_all add: clamp_progress_def)
  moreover have "clamp_progress p = NaN \<longleftrightarrow> p = NaN" by (cases p) (auto simp: clamp_progress_def)
  ultimately show ?thesis
    using update_job_run [OF assms, of "\<lambda>d. d\<lparr>progress := clamp_progress p\<rparr>"]
    by (auto simp: AsyncJob_SetProgress_def bindM_def retM_def clamp_progress_def)
qed

theorem AsyncJob_SetProgress_clamps_witness:
  "\<exists>h' ob d. AsyncJob_SetProgress ''out of range'' (vtable 0 no_natives no_fnptrs) 3 (Inf False) False
      (demo_heap\<lparr>objs := [3 \<mapsto> AsyncJob_obj None]\<rparr>) = (Inr (), h')
    \<and> objs h' 3 = Some ob \<and> cls ob = CAsyncJob d \<and> \<not> dbl_less (Fin 1) (progress d) \<and> progress d \<noteq> NaN"
  using AsyncJob_SetProgress_clamps [of "demo_heap\<lparr>objs := [3 \<mapsto> AsyncJob_obj None]\<rparr>" 3 "AsyncJob_obj None" _
      "''out of range''" "vtable 0 no_natives no_fnptrs" "Inf False"]
  by (fastforce simp: AsyncJob_obj_def)

text \<open>C26: 
  What a run of a job leaves behind, relative to the state \<open>h1\<close> and the members \<open>d1\<close> that the
  job's method left.  When the method returns, the job is completed, holds the returned value and
  its completion callbacks are queued in order; when it throws, the job has failed, its result is
  \<^verbatim>\<open>Undefined\<close> and its error callbacks are queued instead.  Either way the job drops its reference
  to itself, and the queued calls get the job as their argument.
\<close>

theorem AsyncJob_Run_correct:
  assumes "objs h this = Some ob" and "cls ob = CAsyncJob d" and "job d = Some m"
    and call: "vCall V m [] h = (r, h1)" and "wf_heap h1" and ob1: "objs h1 this = Some ob1" "cls ob1 = CAsyncJob d1" "\<not> hadError d1"
    and r: "r = Inr v \<and> cbs = completedCallbacks d1 \<and> d2 = d1\<lparr>job_result := v, completed := True\<rparr>
      \<or> r = Inl (ValueException e) \<and> cbs = errorCallbacks d1 \<and> d2 = d1\<lparr>hadError := True, job_result := Undefined_addr\<rparr>"
  shows "\<exists>h' js. AsyncJob_Run what V this h = (Inr (), h')
    \<and> objs h' = (objs h1)(this \<mapsto> ob1\<lparr>cls := CAsyncJob (d2\<lparr>sharedThis := None\<rparr>)\<rparr>)
    \<and> jobs h' = jobs h1 @ js \<and> list_all2 (callback_job h' (sharedThis d1)) cbs js"
proof -
  have fresh: "\<forall>a \<ge> next_addr h1. cells h1 a = None" using assms(5) by (simp add: wf_heap_def)
  let ?up = "\<lambda>d'. h1\<lparr>objs := (objs h1)(this \<mapsto> ob1\<lparr>cls := CAsyncJob d'\<rparr>)\<rparr>"
  show ?thesis
    using r
  proof (elim disjE conjE)
    assume r': "r = Inr v" "cbs = completedCallbacks d1" "d2 = d1\<lparr>job_result := v, completed := True\<rparr>"
    obtain h2 js where h2: "do_callbacks what V this cbs (?up d2) = (Inr (), h2)" "objs h2 = objs (?up d2)" "jobs h2 = jobs h1 @ js"
        "list_all2 (callback_job h2 (sharedThis d2)) cbs js"
      using do_callbacks_run [of "?up d2" this "ob1\<lparr>cls := CAsyncJob d2\<rparr>" d2 what V cbs] fresh by auto
    have "AsyncJob_Execute what V this h = (Inr v, h1)"
      using get_job_run [OF assms(1,2)] call r'(1) assms(3)
      by (simp add: AsyncJob_Execute_def bindM_def of_opt_def tryM_def retM_def)
    then have "AsyncJob_Run what V this h = update_job this (\<lambda>d. d\<lparr>sharedThis := None\<rparr>) h2"
      using ob1 h2(1) r' by (simp add: AsyncJob_Run_def bindM_def update_job_run get_job_run)
    then show ?thesis
      using update_job_run [of h2 this "ob1\<lparr>cls := CAsyncJob d2\<rparr>" d2] h2 r'(3) by auto
  next
    assume r': "r = Inl (ValueException e)" "cbs = errorCallbacks d1" "d2 = d1\<lparr>hadError := True, job_result := Undefined_addr\<rparr>"
    let ?d = "d1\<lparr>hadError := True\<rparr>"
    obtain h2 js where h2: "do_callbacks what V this cbs (?up ?d) = (Inr (), h2)" "objs h2 = objs (?up ?d)" "jobs h2 = jobs h1 @ js"
        "list_all2 (callback_job h2 (sharedThis ?d)) cbs js"
      using do_callbacks_run [of "?up ?d" this "ob1\<lparr>cls := CAsyncJob ?d\<rparr>" ?d what V cbs] fresh by auto
    have "AsyncJob_Error what V this h1 = (Inr (), h2)"
      using ob1 h2(1) r'(2) by (simp add: AsyncJob_Error_def bindM_def update_job_run get_job_run)
    then have "AsyncJob_Execute what V this h = (Inr Undefined_addr, h2)"
      using get_job_run [OF assms(1,2)] call r'(1) assms(3)
      by (simp add: AsyncJob_Execute_def bindM_def of_opt_def tryM_def retM_def)
    then have "AsyncJob_Run what V this h =
        update_job this (\<lambda>d. d\<lparr>sharedThis := None\<rparr>) (h2\<lparr>objs := (objs h1)(this \<mapsto> ob1\<lparr>cls := CAsyncJob d2\<rparr>)\<rparr>)"
      using h2(2) r'(3) by (simp add: AsyncJob_Run_def bindM_def update_job_run [of h2 this "ob1\<lparr>cls := CAsyncJob ?d\<rparr>" ?d]
          get_job_run [of _ this "ob1\<lparr>cls := CAsyncJob d2\<rparr>" d2] retM_def)
    then show ?thesis
      using update_job_run [of _ this "ob1\<lparr>cls := CAsyncJob d2\<rparr>" d2] h2 r'(3) by auto
  qed
qed

definition demo_async_job :: AsyncJob where
  "demo_async_job = \<lparr>job = Some 4, progress = Fin 0, completed = False, job_result = Undefined_addr, hadError = False,
     cancelled = False, sharedThis = Some 3, progressCallbacks = [], completedCallbacks = [4], errorCallbacks = []\<rparr>"

definition demo_run_heap :: heap where
  "demo_run_heap = demo_heap\<lparr>objs := [3 \<mapsto> \<lparr>cls = CAsyncJob demo_async_job, otype = [], properties = []\<rparr>,
     4 \<mapsto> StaticBoundMethod_new None []], next_addr := 5\<rparr>"

lemma demo_run_heap_wf: "wf_heap demo_run_heap"
  by (auto simp: wf_heap_def wf_listeners_def wf_jobs_def demo_run_heap_def demo_async_job_def demo_heap_def
      StaticBoundMethod_new_def Undefined_addr_def Null_addr_def wf_obj_def pmap_ok_def isMethod_def split: if_splits)

theorem AsyncJob_Run_correct_witness:
  "\<exists>h' j. AsyncJob_Run ''out of range'' (vtable (Suc 0) no_natives no_fnptrs) 3 demo_run_heap = (Inr (), h')
    \<and> jobs h' = [j] \<and> j_method j = 4
    \<and> (\<exists>ob d. objs h' 3 = Some ob \<and> cls ob = CAsyncJob d \<and> completed d \<and> \<not> hadError d \<and> sharedThis d = None)"
proof -
  let ?V = "vtable (Suc 0) no_natives no_fnptrs"
  define h1 where "h1 = snd (vCall ?V 4 [] demo_run_heap)"
  have call: "vCall ?V 4 [] demo_run_heap = (Inr 5, h1)" and objs: "objs h1 = objs demo_run_heap" "jobs h1 = []"
    by (simp_all add: h1_def vtable_sel dispatch_Call_def bindM_def load_obj_def StaticBoundMethod_Call_def new_value_def
        retM_def demo_run_heap_def StaticBoundMethod_new_def demo_heap_def del: vtable.simps)
  have wf: "wf_heap h1" using sound_run(1) [OF idle.table.v_call [OF demo_run_heap_wf, of "[]" "Suc 0"] call] by simp
  have "\<exists>h' js. AsyncJob_Run ''out of range'' ?V 3 demo_run_heap = (Inr (), h')
      \<and> objs h' = (objs h1)(3 \<mapsto> \<lparr>cls = CAsyncJob demo_async_job, otype = [], properties = []\<rparr>\<lparr>cls :=
           CAsyncJob (demo_async_job\<lparr>job_result := 5, completed := True\<rparr>\<lparr>sharedThis := None\<rparr>)\<rparr>)
      \<and> jobs h' = jobs h1 @ js \<and> list_all2 (callback_job h' (sharedThis demo_async_job)) [4] js"
    by (rule AsyncJob_Run_correct [OF _ _ _ call wf, where d = demo_async_job
        and ob = "\<lparr>cls = CAsyncJob demo_async_job, otype = [], properties = []\<rparr>"])
      (simp_all add: objs demo_run_heap_def demo_async_job_def)
  then show ?thesis by (auto simp: objs callback_job_def demo_async_job_def list_all2_Cons1 simp del: vtable.simps)
qed

end
