(* ===== verification/Kroll_Events.thy ===== *)
theory Kroll_Events
  imports Kroll_Jobs
begin

text \<open>
  Events and their listeners (\<^verbatim>\<open>src/api/binding/event.cpp\<close>, \<^verbatim>\<open>read_event.cpp\<close>,
  \<^verbatim>\<open>k_event_object.cpp\<close>).

  \<^verbatim>\<open>KEventObject::listenerMap\<close> maps an object to its vector of pointers to listeners.  A listener is
  allocated by \<^verbatim>\<open>new\<close> and freed by \<^verbatim>\<open>delete\<close>, so the store keeps the live listeners by address and a
  read through a pointer to a deleted one is undefined behaviour.  \<^verbatim>\<open>currentId\<close> is the static counter
  of listener ids.  The member \<^verbatim>\<open>eventName\<close> of an event is a reference to a string of the code that
  fires it; the model holds the contents, as long as that string lives.  The log line for an
  exception of a callback is left out.  The object \<^verbatim>\<open>KEventObject::root\<close> is an argument.
\<close>

section \<open>Event constants\<close>

definition Event_ALL :: string where "Event_ALL = ''all''"

definition Event_READ :: string where "Event_READ = ''read''"

definition event_constants :: "(string \<times> string) list" where
  "event_constants = [(''ALL'', Event_ALL), (''FOCUSED'', ''focused''), (''UNFOCUSED'', ''unfocused''),
     (''OPEN'', ''open''), (''OPENED'', ''opened''), (''CLOSE'', ''close''), (''CLOSED'', ''closed''),
     (''HIDDEN'', ''hidden''), (''SHOWN'', ''shown''), (''FULLSCREENED'', ''fullscreened''),
     (''UNFULLSCREENED'', ''unfullscreened''), (''MAXIMIZED'', ''maximized''), (''MINIMIZED'', ''minimized''),
     (''RESIZED'', ''resized''), (''MOVED'', ''moved''), (''PAGE_INITIALIZED'', ''page.init''),
     (''PAGE_LOADED'', ''page.load''), (''CREATED'', ''create''), (''EXIT'', ''exit''), (''READ'', Event_READ)]"

primrec set_constants :: "vt \<Rightarrow> addr \<Rightarrow> (string \<times> string) list \<Rightarrow> unit M" where
  "set_constants V target [] = retM ()"
| "set_constants V target (p # ps) =
     bindM (new_string (snd p)) (\<lambda>v. bindM (vSet V target (fst p) v) (\<lambda>_. set_constants V target ps))"

definition Event_SetEventConstants :: "vt \<Rightarrow> addr \<Rightarrow> unit M" where
  "Event_SetEventConstants V target = set_constants V target event_constants"

section \<open>Events\<close>

text \<open>\<^verbatim>\<open>SetMethod\<close> for a class that overrides \<^verbatim>\<open>Set\<close>.\<close>

definition virtual_SetMethod :: "vt \<Rightarrow> addr \<Rightarrow> string \<Rightarrow> callback \<Rightarrow> unit M" where
  "virtual_SetMethod V this name cb =
     bindM (new_object (StaticBoundMethod_new (Some cb) ''StaticBoundMethod'')) (\<lambda>m.
     bindM (new_value (Value_NewMethod (Some m))) (\<lambda>v. vSet V this name v))"

primrec virtual_methods :: "vt \<Rightarrow> addr \<Rightarrow> (string \<times> callback) list \<Rightarrow> unit M" where
  "virtual_methods V this [] = retM ()"
| "virtual_methods V this (p # ps) =
     bindM (virtual_SetMethod V this (fst p) (snd p)) (\<lambda>_. virtual_methods V this ps)"

definition Event_obj :: "addr \<Rightarrow> string \<Rightarrow> int \<Rightarrow> addr option \<Rightarrow> kobj" where
  "Event_obj target name time data =
     \<lparr>cls = CEvent target name time False False data, otype = ''Event'', properties = []\<rparr>"

definition Event_setup :: "vt \<Rightarrow> addr \<Rightarrow> unit M" where
  "Event_setup V this =
     bindM (Event_SetEventConstants V this) (\<lambda>_.
     virtual_methods V this [(''getTarget'', Event_GetTarget this), (''getType'', Event_GetType this),
       (''getTimestamp'', Event_GetTimestamp this), (''stopPropagation'', Event_StopPropagation this),
       (''preventDefault'', Event_PreventDefault this)])"

definition Event_new :: "vt \<Rightarrow> addr \<Rightarrow> string \<Rightarrow> addr M" where
  "Event_new V target name =
     bindM (gets clock) (\<lambda>time.
     bindM (new_object (Event_obj target name time None)) (\<lambda>this.
     bindM (Event_setup V this) (\<lambda>_. retM this)))"

definition ReadEvent_new :: "vt \<Rightarrow> addr \<Rightarrow> addr \<Rightarrow> addr M" where
  "ReadEvent_new V target data =
     bindM (gets clock) (\<lambda>time.
     bindM (new_object (Event_obj target Event_READ time (Some data))) (\<lambda>this.
     bindM (Event_setup V this) (\<lambda>_.
     bindM (virtual_SetMethod V this ''getData'' (ReadEvent_GetData this)) (\<lambda>_. retM this))))"

text \<open>The members of an event: target, name, time in microseconds, \<^verbatim>\<open>stopped\<close>, \<^verbatim>\<open>preventedDefault\<close>, data.\<close>

definition get_event :: "addr \<Rightarrow> (addr \<times> string \<times> int \<times> bool \<times> bool \<times> addr option) M" where
  "get_event this = bindM (load_obj this) (\<lambda>ob.
     case cls ob of CEvent t n ts st pd d \<Rightarrow> retM (t, n, ts, st, pd, d) | _ \<Rightarrow> raiseM UB)"

definition set_flags :: "addr \<Rightarrow> bool \<Rightarrow> bool \<Rightarrow> unit M" where
  "set_flags this stop prevent = bindM (load_obj this) (\<lambda>ob.
     case cls ob of
       CEvent t n ts st pd d \<Rightarrow> store_obj this (ob\<lparr>cls := CEvent t n ts (st \<or> stop) (pd \<or> prevent) d\<rparr>)
     | _ \<Rightarrow> raiseM UB)"

definition Event__GetTarget :: "addr \<Rightarrow> addr \<Rightarrow> unit M" where
  "Event__GetTarget this result = bindM (get_event this) (\<lambda>(t, _). set_result result (Value_SetObject (Some t)))"

definition Event__GetType :: "addr \<Rightarrow> addr \<Rightarrow> unit M" where
  "Event__GetType this result = bindM (get_event this) (\<lambda>(_, n, _). set_string_result result n)"

text \<open>The cast binds tighter than the division: the microseconds are cut to 32 bits first.\<close>

definition timestamp_ms :: "int \<Rightarrow> int32" where
  "timestamp_ms us = word_of_int (rat_trunc (of_int (sint (word_of_int us :: int32)) / 1000))"

definition Event__GetTimestamp :: "addr \<Rightarrow> addr \<Rightarrow> unit M" where
  "Event__GetTimestamp this result =
     bindM (get_event this) (\<lambda>(_, _, ts, _). set_result result (Value_SetDouble (dbl_of_int (timestamp_ms ts))))"

definition Event__StopPropagation :: "addr \<Rightarrow> unit M" where
  "Event__StopPropagation this = set_flags this True True"

definition Event__PreventDefault :: "addr \<Rightarrow> unit M" where
  "Event__PreventDefault this = set_flags this False True"

definition ReadEvent__GetData :: "addr \<Rightarrow> addr \<Rightarrow> unit M" where
  "ReadEvent__GetData this result =
     bindM (get_event this) (\<lambda>(_, _, _, _, _, d). set_result result (Value_SetObject d))"

section \<open>Listeners\<close>

definition load_listener :: "addr \<Rightarrow> listener M" where
  "load_listener l h = (case listeners h l of Some r \<Rightarrow> (Inr r, h) | None \<Rightarrow> (Inl UB, h))"

text \<open>\<^verbatim>\<open>listenerMap[this]\<close>: the vector of an object without an entry is a null pointer.\<close>

definition get_vector :: "addr \<Rightarrow> addr list M" where
  "get_vector this h = (case listenerMap h this of Some ls \<Rightarrow> (Inr ls, h) | None \<Rightarrow> (Inl UB, h))"

definition set_vector :: "addr \<Rightarrow> addr list \<Rightarrow> unit M" where
  "set_vector this ls h = (Inr (), h\<lparr>listenerMap := (listenerMap h)(this \<mapsto> ls)\<rparr>)"

definition delete_listener :: "addr \<Rightarrow> unit M" where
  "delete_listener l h = (Inr (), h\<lparr>listeners := (listeners h)(l := None)\<rparr>)"

definition EventListener_new :: "string \<Rightarrow> addr \<Rightarrow> (addr \<times> uint32) M" where
  "EventListener_new name cb h =
     (Inr (next_addr h, currentId h + 1),
      h\<lparr>currentId := currentId h + 1, next_addr := Suc (next_addr h),
        listeners := (listeners h)(next_addr h \<mapsto> \<lparr>l_eventName = name, l_callback = cb, listenerId = currentId h + 1\<rparr>)\<rparr>)"

text \<open>The name is compared with itself.  Ids are unsigned, the null callback is \<^const>\<open>None\<close>.\<close>

definition EventListener_Matches :: "heap \<Rightarrow> listener \<Rightarrow> string \<Rightarrow> uint32 \<Rightarrow> addr option \<Rightarrow> bool" where
  "EventListener_Matches h this eventName lid cb \<longleftrightarrow> eventName = eventName \<and>
     ((cb = None \<and> lid = 0) \<or>
      (case cb of Some m \<Rightarrow> obj_equals h m (Some (l_callback this)) | None \<Rightarrow> False) \<or>
      (lid \<noteq> 0 \<and> lid = listenerId this))"

definition EventListener_FireEventIfMatches :: "string \<Rightarrow> vt \<Rightarrow> addr \<Rightarrow> addr \<Rightarrow> unit M" where
  "EventListener_FireEventIfMatches what V this event =
     bindM (load_listener this) (\<lambda>r.
     bindM (get_event event) (\<lambda>(_, name, _).
       if name \<noteq> l_eventName r \<and> l_eventName r \<noteq> Event_ALL then retM ()
       else bindM (new_value (Value_NewObject (Some event))) (\<lambda>v.
         tryM (InvokeMethodOnMainThread what V (l_callback r) [v] True) (\<lambda>_. retM ()) (\<lambda>e.
           case e of ValueException a \<Rightarrow> retM () | _ \<Rightarrow> raiseM e))))"

section \<open>Event objects\<close>

definition KEventObject_obj :: "bool \<Rightarrow> string \<Rightarrow> kobj" where
  "KEventObject_obj isRoot ty = \<lparr>cls = CKEventObject isRoot, otype = ty, properties = []\<rparr>"

definition KEventObject_new :: "vt \<Rightarrow> bool \<Rightarrow> string \<Rightarrow> addr M" where
  "KEventObject_new V isRoot ty =
     bindM (new_object (KEventObject_obj isRoot ty)) (\<lambda>this.
     bindM (set_vector this []) (\<lambda>_.
     bindM (virtual_methods V this [(''addEventListener'', KEventObject_Add this),
       (''removeEventListener'', KEventObject_Remove this)]) (\<lambda>_. retM this)))"

text \<open>The destructor deletes the listeners and the entry of the map.\<close>

definition KEventObject_destroy :: "addr \<Rightarrow> unit M" where
  "KEventObject_destroy this =
     bindM (get_vector this) (\<lambda>ls h.
       (Inr (), h\<lparr>listeners := (\<lambda>l. if l \<in> set ls then None else listeners h l),
          listenerMap := (listenerMap h)(this := None)\<rparr>))"

primrec remove_matching :: "string \<Rightarrow> uint32 \<Rightarrow> addr option \<Rightarrow> addr list \<Rightarrow> addr list M" where
  "remove_matching name lid cb [] = retM []"
| "remove_matching name lid cb (l # ls) =
     bindM (load_listener l) (\<lambda>r.
     bindM (gets (\<lambda>h. EventListener_Matches h r name lid cb)) (\<lambda>b.
       if b then bindM (delete_listener l) (\<lambda>_. remove_matching name lid cb ls)
       else bindM (remove_matching name lid cb ls) (\<lambda>rest. retM (l # rest))))"

definition KEventObject_RemoveEventListener :: "addr \<Rightarrow> string \<Rightarrow> uint32 \<Rightarrow> addr option \<Rightarrow> unit M" where
  "KEventObject_RemoveEventListener this name lid cb =
     bindM (get_vector this) (\<lambda>ls.
     bindM (remove_matching name lid cb ls) (\<lambda>rest. set_vector this rest))"

definition KEventObject_RemoveByMethod :: "addr \<Rightarrow> string \<Rightarrow> addr option \<Rightarrow> unit M" where
  "KEventObject_RemoveByMethod this name m = KEventObject_RemoveEventListener this name 0 m"

definition KEventObject_RemoveById :: "addr \<Rightarrow> string \<Rightarrow> uint32 \<Rightarrow> unit M" where
  "KEventObject_RemoveById this name lid = KEventObject_RemoveEventListener this name lid None"

definition KEventObject_AddEventListener :: "addr \<Rightarrow> string \<Rightarrow> addr \<Rightarrow> uint32 M" where
  "KEventObject_AddEventListener this name cb =
     bindM (EventListener_new name cb) (\<lambda>(l, lid).
     bindM (get_vector this) (\<lambda>ls.
     bindM (set_vector this (ls @ [l])) (\<lambda>_. retM lid)))"

definition KEventObject_AddEventListenerForAllEvents :: "addr \<Rightarrow> addr \<Rightarrow> uint32 M" where
  "KEventObject_AddEventListenerForAllEvents this cb = KEventObject_AddEventListener this Event_ALL cb"

text \<open>The loop over the copied vector: \<^const>\<open>Some\<close> is the result of the early return.\<close>

primrec fire_loop :: "string \<Rightarrow> vt \<Rightarrow> addr \<Rightarrow> addr list \<Rightarrow> bool option M" where
  "fire_loop what V event [] = retM None"
| "fire_loop what V event (l # ls) =
     bindM (EventListener_FireEventIfMatches what V l event) (\<lambda>_.
     bindM (get_event event) (\<lambda>(_, _, _, stopped, prevented, _).
       if stopped then retM (Some (\<not> prevented)) else fire_loop what V event ls))"

definition get_isRoot :: "addr \<Rightarrow> bool M" where
  "get_isRoot this = bindM (load_obj this) (\<lambda>ob. case cls ob of CKEventObject b \<Rightarrow> retM b | _ \<Rightarrow> raiseM UB)"

text \<open>The call of \<^verbatim>\<open>root->FireEvent\<close> is recursive; the first argument bounds its depth.\<close>

primrec KEventObject_FireEvent :: "nat \<Rightarrow> string \<Rightarrow> vt \<Rightarrow> addr \<Rightarrow> addr \<Rightarrow> addr \<Rightarrow> bool M" where
  "KEventObject_FireEvent 0 what V rootObj this event = raiseM NoFuel"
| "KEventObject_FireEvent (Suc n) what V rootObj this event =
     bindM (get_vector this) (\<lambda>ls.
     bindM (fire_loop what V event ls) (\<lambda>r.
       case r of
         Some b \<Rightarrow> retM b
       | None \<Rightarrow>
           bindM (get_isRoot this) (\<lambda>isRoot.
           bindM (if \<not> isRoot then bindM (KEventObject_FireEvent n what V rootObj rootObj event) (\<lambda>_. retM ()) else retM ()) (\<lambda>_.
           bindM (get_event event) (\<lambda>(_, _, _, _, prevented, _). retM (\<not> prevented))))))"

definition KEventObject_FireEventNamed :: "string \<Rightarrow> vt \<Rightarrow> addr \<Rightarrow> addr \<Rightarrow> string \<Rightarrow> bool M" where
  "KEventObject_FireEventNamed what V rootObj this name =
     bindM (Event_new V this name) (\<lambda>event. KEventObject_FireEvent 2 what V rootObj this event)"

definition KEventObject_FireRootEventNamed :: "string \<Rightarrow> vt \<Rightarrow> addr \<Rightarrow> string \<Rightarrow> bool M" where
  "KEventObject_FireRootEventNamed what V rootObj name = KEventObject_FireEventNamed what V rootObj rootObj name"

definition KEventObject_FireRootEvent :: "string \<Rightarrow> vt \<Rightarrow> addr \<Rightarrow> addr \<Rightarrow> bool M" where
  "KEventObject_FireRootEvent what V rootObj event = KEventObject_FireEvent 2 what V rootObj rootObj event"

section \<open>The script interface\<close>

definition null_ptr :: "addr option \<Rightarrow> addr" where
  "null_ptr p = (case p of Some a \<Rightarrow> a | None \<Rightarrow> 0)"

definition arg_is :: "(Value \<Rightarrow> bool) \<Rightarrow> addr list \<Rightarrow> nat \<Rightarrow> bool M" where
  "arg_is P args i = (if i < length args then bindM (load (args ! i)) (\<lambda>v. retM (P v)) else retM False)"

definition uint_to_double :: "uint32 \<Rightarrow> double" where
  "uint_to_double i = Fin (of_nat (unat i))"

definition KEventObject__AddEventListener :: "addr \<Rightarrow> addr list \<Rightarrow> addr \<Rightarrow> unit M" where
  "KEventObject__AddEventListener this args result =
     bindM (if length args > 1 then
              bindM (arg_is Value_IsString args 0) (\<lambda>b. if b then arg_is Value_IsMethod args 1 else retM False)
            else retM False) (\<lambda>named.
     bindM (if named then
              bindM (ArgList_GetString args 0 []) (\<lambda>eventName.
              bindM (ArgList_GetMethod args 1 None) (\<lambda>m. KEventObject_AddEventListener this eventName (null_ptr m)))
            else bindM (arg_is Value_IsMethod args 0) (\<lambda>b.
              if b then bindM (ArgList_GetMethod args 0 None) (\<lambda>m. KEventObject_AddEventListenerForAllEvents this (null_ptr m))
              else bindM (new_string ''Incorrect arguments passed to addEventListener'') (\<lambda>e. raiseM (ValueException e))))
       (\<lambda>lid. set_result result (Value_SetDouble (uint_to_double lid))))"

definition KEventObject__RemoveEventListener :: "addr \<Rightarrow> addr list \<Rightarrow> unit M" where
  "KEventObject__RemoveEventListener this args =
     bindM (ArgList_VerifyException args ''removeEventListener'' ''s n|m'') (\<lambda>_.
     bindM (ArgList_GetString args 0 []) (\<lambda>eventName.
     bindM (args_at args 1) (\<lambda>a. bindM (load a) (\<lambda>v.
       if Value_IsMethod v then bindM (ArgList_GetMethod args 1 None) (KEventObject_RemoveByMethod this eventName)
       else bindM (ArgList_GetInt args 1 0) (\<lambda>i. KEventObject_RemoveById this eventName (ucast i))))))"

section \<open>The registry\<close>

lemma wf_heap_registry:
  assumes "wf_heap h" and "wf_listeners h'" and "cells h' = cells h" "objs h' = objs h" "jobs h' = jobs h"
    and "next_addr h \<le> next_addr h'"
  shows "wf_heap h'" "heap_le h h'"
proof -
  have same: "isList h' = isList h" "isMethod h' = isMethod h" using assms(4) by (auto simp: isList_def isMethod_def fun_eq_iff)
  have "wf_class h' c = wf_class h c" for c using assms by (cases "(h, c)" rule: wf_class.cases) (simp_all add: same)
  then show "wf_heap h'" using assms by (auto simp: wf_heap_def wf_cell_def wf_obj_def wf_jobs_def same)
  show "heap_le h h'" using assms by (auto simp: heap_le_def)
qed

lemma wf_listenersD:
  assumes "wf_heap h" and "listenerMap h this = Some ls"
  shows "distinct ls" "objs h this \<noteq> None" "l \<in> set ls \<Longrightarrow> \<exists>r. listeners h l = Some r \<and> isMethod h (l_callback r)"
    "this \<noteq> b \<Longrightarrow> listenerMap h b = Some ms \<Longrightarrow> set ls \<inter> set ms = {}"
  using wf_heap_listeners [OF assms(1)] assms(2) unfolding wf_listeners_def by blast+

lemma wf_callback: "wf_heap h \<Longrightarrow> listeners h l = Some r \<Longrightarrow> isMethod h (l_callback r)"
  using wf_heap_listeners unfolding wf_listeners_def by blast

lemma obj_equals_listeners [simp]: "obj_equals (h\<lparr>listeners := x\<rparr>) = obj_equals h"
proof -
  have "profiled_delegate (h\<lparr>listeners := x\<rparr>) = profiled_delegate h" by (simp add: fun_eq_iff profiled_delegate_def)
  then have "ProfiledBoundObject_Equals (h\<lparr>listeners := x\<rparr>) = ProfiledBoundObject_Equals h"
    by (intro ext) (simp only: ProfiledBoundObject_Equals_def)
  then show ?thesis by (intro ext) (simp only: obj_equals_def, simp)
qed

lemma Matches_listeners [simp]: "EventListener_Matches (h\<lparr>listeners := x\<rparr>) = EventListener_Matches h"
  by (intro ext) (simp only: EventListener_Matches_def obj_equals_listeners)

lemma remove_matching_run:
  assumes "distinct ls" and "\<And>l. l \<in> set ls \<Longrightarrow> listeners h l \<noteq> None"
  shows "remove_matching name lid cb ls h =
    (Inr (filter (\<lambda>l. \<not> EventListener_Matches h (the (listeners h l)) name lid cb) ls),
     h\<lparr>listeners := (\<lambda>l. if l \<in> set ls \<and> EventListener_Matches h (the (listeners h l)) name lid cb then None else listeners h l)\<rparr>)"
  using assms
proof (induction ls arbitrary: h)
  case (Cons l ls)
  obtain r where r: "listeners h l = Some r" using Cons.prems(2) [of l] by (auto simp: not_None_eq)
  show ?case
  proof (cases "EventListener_Matches h r name lid cb")
    case True
    let ?h = "h\<lparr>listeners := (listeners h)(l := None)\<rparr>"
    have "remove_matching name lid cb ls ?h =
      (Inr (filter (\<lambda>l. \<not> EventListener_Matches ?h (the (listeners ?h l)) name lid cb) ls),
       ?h\<lparr>listeners := (\<lambda>l. if l \<in> set ls \<and> EventListener_Matches ?h (the (listeners ?h l)) name lid cb then None else listeners ?h l)\<rparr>)"
      using Cons.prems by (intro Cons.IH) auto
    moreover have "filter (\<lambda>l. \<not> EventListener_Matches ?h (the (listeners ?h l)) name lid cb) ls
        = filter (\<lambda>l. \<not> EventListener_Matches h (the (listeners h l)) name lid cb) ls"
      using Cons.prems(1) by (intro filter_cong) auto
    moreover have "(\<lambda>k. if k \<in> set ls \<and> EventListener_Matches ?h (the (listeners ?h k)) name lid cb then None else listeners ?h k)
        = (\<lambda>k. if k \<in> set (l # ls) \<and> EventListener_Matches h (the (listeners h k)) name lid cb then None else listeners h k)"
      using True r Cons.prems(1) by (auto simp: fun_eq_iff)
    ultimately show ?thesis
      using True r by (simp add: bindM_def load_listener_def gets_def delete_listener_def)
  next
    case False
    moreover have "(\<lambda>k. if k \<in> set ls \<and> EventListener_Matches h (the (listeners h k)) name lid cb then None else listeners h k)
        = (\<lambda>k. if k \<in> set (l # ls) \<and> EventListener_Matches h (the (listeners h k)) name lid cb then None else listeners h k)"
      using False r by (auto simp: fun_eq_iff)
    ultimately show ?thesis
      using r Cons.IH [of h] Cons.prems by (simp add: bindM_def load_listener_def gets_def retM_def)
  qed
qed (simp add: retM_def)

lemma Remove_run:
  assumes "wf_heap h" and ls: "listenerMap h this = Some ls"
  shows "KEventObject_RemoveEventListener this name lid cb h = (Inr (),
    h\<lparr>listeners := (\<lambda>l. if l \<in> set ls \<and> EventListener_Matches h (the (listeners h l)) name lid cb then None else listeners h l),
      listenerMap := (listenerMap h)(this \<mapsto> filter (\<lambda>l. \<not> EventListener_Matches h (the (listeners h l)) name lid cb) ls)\<rparr>)"
proof -
  have "distinct ls" "\<And>l. l \<in> set ls \<Longrightarrow> listeners h l \<noteq> None"
    using wf_listenersD [OF assms] by fastforce+
  from remove_matching_run [OF this] show ?thesis
    using ls by (simp add: KEventObject_RemoveEventListener_def get_vector_def set_vector_def bindM_def)
qed

lemma Remove_wf:
  assumes "wf_heap h" and ls: "listenerMap h this = Some ls"
    and h': "h' = h\<lparr>listeners := (\<lambda>l. if l \<in> set ls \<and> P l then None else listeners h l),
      listenerMap := (listenerMap h)(this \<mapsto> filter (\<lambda>l. \<not> P l) ls)\<rparr>"
  shows "wf_heap h'" "heap_le h h'"
proof -
  have same: "isMethod h' = isMethod h" by (simp add: h' isMethod_def fun_eq_iff)
  have "wf_listeners h'"
    unfolding wf_listeners_def
  proof (intro conjI allI impI)
    fix a ms assume "listenerMap h' a = Some ms"
    then show "objs h' a \<noteq> None" "distinct ms"
      using wf_listenersD(1,2) [OF assms(1)] ls by (auto simp: h' split: if_splits)
  next
    fix a ms l assume "listenerMap h' a = Some ms" "l \<in> set ms"
    then show "\<exists>r. listeners h' l = Some r \<and> isMethod h' (l_callback r)"
      using wf_listenersD(3) [OF assms(1)] wf_listenersD(4) [OF assms(1) ls, of a ms] ls unfolding same
      by (fastforce simp: h' split: if_splits)
  next
    fix a b ms ns assume "listenerMap h' a = Some ms" "listenerMap h' b = Some ns" "a \<noteq> b"
    then show "set ms \<inter> set ns = {}"
      using wf_listenersD(4) [OF assms(1)] ls by (auto simp: h' split: if_splits) blast+
  next
    fix l r assume "listeners h' l = Some r"
    then show "isMethod h' (l_callback r)" using wf_callback [OF assms(1)] unfolding same by (auto simp: h' split: if_splits)
  next
    fix l assume "next_addr h' \<le> l"
    then show "listeners h' l = None" using wf_heap_listeners [OF assms(1)] by (simp add: h' wf_listeners_def)
  qed
  then show "wf_heap h'" "heap_le h h'" using wf_heap_registry [OF assms(1), of h'] by (simp_all add: h')
qed

lemma Add_run:
  assumes "listenerMap h this = Some ls"
  shows "KEventObject_AddEventListener this name cb h = (Inr (currentId h + 1),
    h\<lparr>currentId := currentId h + 1, next_addr := Suc (next_addr h),
      listeners := (listeners h)(next_addr h \<mapsto> \<lparr>l_eventName = name, l_callback = cb, listenerId = currentId h + 1\<rparr>),
      listenerMap := (listenerMap h)(this \<mapsto> ls @ [next_addr h])\<rparr>)"
  using assms by (simp add: KEventObject_AddEventListener_def EventListener_new_def get_vector_def set_vector_def
      bindM_def retM_def)

lemma wf_fresh_listener:
  assumes "wf_heap h" and "listenerMap h a = Some ls"
  shows "next_addr h \<notin> set ls"
  using wf_heap_listeners [OF assms(1)] wf_listenersD(3) [OF assms] by (fastforce simp: wf_listeners_def)

lemma Add_wf:
  assumes "wf_heap h" and ls: "listenerMap h this = Some ls" and "isMethod h (l_callback r)"
    and h': "h' = h\<lparr>currentId := c, next_addr := Suc (next_addr h), listeners := (listeners h)(next_addr h \<mapsto> r),
      listenerMap := (listenerMap h)(this \<mapsto> ls @ [next_addr h])\<rparr>"
  shows "wf_heap h'" "heap_le h h'"
proof -
  have same: "isMethod h' = isMethod h" by (simp add: h' isMethod_def fun_eq_iff)
  have "wf_listeners h'"
    unfolding wf_listeners_def
  proof (intro conjI allI impI)
    fix a ms assume "listenerMap h' a = Some ms"
    then show "objs h' a \<noteq> None" "distinct ms"
      using wf_listenersD(1,2) [OF assms(1)] wf_fresh_listener [OF assms(1)] ls by (auto simp: h' split: if_splits)
  next
    fix a ms l assume "listenerMap h' a = Some ms" "l \<in> set ms"
    then show "\<exists>r. listeners h' l = Some r \<and> isMethod h' (l_callback r)"
      using wf_listenersD(3) [OF assms(1)] ls assms(3) unfolding same by (auto simp: h' split: if_splits)
  next
    fix a b ms ns assume "listenerMap h' a = Some ms" "listenerMap h' b = Some ns" "a \<noteq> b"
    then show "set ms \<inter> set ns = {}"
      using wf_listenersD(4) [OF assms(1)] wf_fresh_listener [OF assms(1)] ls by (auto simp: h' split: if_splits) blast+
  next
    fix l r assume "listeners h' l = Some r"
    then show "isMethod h' (l_callback r)" using wf_callback [OF assms(1)] assms(3) unfolding same by (auto simp: h' split: if_splits)
  next
    fix l assume "next_addr h' \<le> l"
    then show "listeners h' l = None" using wf_heap_listeners [OF assms(1)] by (simp add: h' wf_listeners_def)
  qed
  then show "wf_heap h'" "heap_le h h'" using wf_heap_registry [OF assms(1), of h'] by (simp_all add: h')
qed

text \<open>C24: 
  Removal deletes from the object's vector exactly the listeners that the id or the callback
  selects, keeps the others in order, frees the removed listeners and no others, and keeps the
  invariant.  The event name selects nothing, and the id 0 with no callback selects everything.
\<close>

theorem RemoveEventListener_correct:
  assumes "wf_heap h" and ls: "listenerMap h this = Some ls"
  shows "\<exists>h' gone. KEventObject_RemoveEventListener this name lid cb h = (Inr (), h') \<and> wf_heap h'
    \<and> (\<forall>r. gone r \<longleftrightarrow> (case cb of Some m \<Rightarrow> obj_equals h m (Some (l_callback r)) \<or> lid \<noteq> 0 \<and> lid = listenerId r
          | None \<Rightarrow> lid = 0 \<or> lid = listenerId r))
    \<and> listenerMap h' = (listenerMap h)(this \<mapsto> filter (\<lambda>l. \<not> gone (the (listeners h l))) ls)
    \<and> (\<forall>l. listeners h' l = (if l \<in> set ls \<and> gone (the (listeners h l)) then None else listeners h l))"
proof -
  let ?g = "\<lambda>r. EventListener_Matches h r name lid cb"
  note run = Remove_run [OF assms, of name lid cb]
  have "wf_heap (snd (KEventObject_RemoveEventListener this name lid cb h))"
    unfolding run snd_conv by (rule Remove_wf(1) [OF assms refl])
  moreover have "\<forall>r. ?g r \<longleftrightarrow> (case cb of Some m \<Rightarrow> obj_equals h m (Some (l_callback r)) \<or> lid \<noteq> 0 \<and> lid = listenerId r
          | None \<Rightarrow> lid = 0 \<or> lid = listenerId r)"
    by (auto simp: EventListener_Matches_def split: option.split)
  ultimately show ?thesis unfolding run by (intro exI [of _ ?g] exI) auto
qed

definition demo_event_heap :: heap where
  "demo_event_heap = demo_heap\<lparr>objs := [3 \<mapsto> KEventObject_obj True ''Host'', 4 \<mapsto> StaticBoundMethod_new None []],
     listenerMap := [3 \<mapsto> [5, 6]],
     listeners := [5 \<mapsto> \<lparr>l_eventName = ''open'', l_callback = 4, listenerId = 2\<rparr>,
       6 \<mapsto> \<lparr>l_eventName = ''close'', l_callback = 4, listenerId = 3\<rparr>],
     currentId := 3, next_addr := 7\<rparr>"

lemma demo_event_heap_wf: "wf_heap demo_event_heap"
  by (auto simp: wf_heap_def wf_listeners_def wf_jobs_def demo_event_heap_def demo_heap_def KEventObject_obj_def
      StaticBoundMethod_new_def Undefined_addr_def Null_addr_def wf_obj_def pmap_ok_def isMethod_def split: if_splits)

theorem RemoveEventListener_correct_witness:
  "\<exists>h'. KEventObject_RemoveEventListener 3 ''open'' 3 None demo_event_heap = (Inr (), h')
    \<and> listenerMap h' 3 = Some [5] \<and> listeners h' 6 = None \<and> listeners h' 5 = listeners demo_event_heap 5"
proof -
  have ls: "listenerMap demo_event_heap 3 = Some [5, 6]" by (simp add: demo_event_heap_def)
  show ?thesis
    using RemoveEventListener_correct [OF demo_event_heap_wf ls, of "''open''" 3 None]
    by (auto simp: demo_event_heap_def)
qed

section \<open>Listener ids\<close>

definition ids_ok :: "heap \<Rightarrow> bool" where
  "ids_ok h \<longleftrightarrow> (\<forall>l r. listeners h l = Some r \<longrightarrow> 0 < unat (listenerId r) \<and> unat (listenerId r) \<le> unat (currentId h))
     \<and> (\<forall>l r k s. listeners h l = Some r \<longrightarrow> listeners h k = Some s \<longrightarrow> listenerId r = listenerId s \<longrightarrow> l = k)"

lemma unat_next_id: "unat (i :: uint32) < 2 ^ 32 - 1 \<Longrightarrow> unat (i + 1) = unat i + 1"
  by (subst unat_word_ariths(1)) simp

lemma ids_ok_fewer: "ids_ok h \<Longrightarrow> currentId h' = currentId h \<Longrightarrow> (\<And>l r. listeners h' l = Some r \<Longrightarrow> listeners h l = Some r) \<Longrightarrow> ids_ok h'"
  unfolding ids_ok_def by metis

lemma ids_ok_add:
  assumes "ids_ok h" and "unat (currentId h) < 2 ^ 32 - 1"
    and "listeners h' = (listeners h)(l \<mapsto> r)" and "listenerId r = currentId h + 1" and "currentId h' = currentId h + 1"
  shows "ids_ok h'"
proof -
  have n: "unat (currentId h') = unat (currentId h) + 1" using unat_next_id [OF assms(2)] assms(5) by simp
  have old: "unat (listenerId s) \<le> unat (currentId h)" if "listeners h k = Some s" for k s
    using assms(1) that by (auto simp: ids_ok_def)
  have new: "unat (listenerId r) = unat (currentId h) + 1" using n assms(4,5) by simp
  have "listenerId s \<noteq> listenerId r" if "listeners h k = Some s" for k s using old [OF that] new by auto
  then show ?thesis
    using assms(1,3) old new n unfolding ids_ok_def by (auto split: if_splits) (metis le_SucI)+
qed

text \<open>
  A listener that was added is removed again by the id that adding it returned, under any event
  name, and the registry is then as before; this needs that the counter of ids has not wrapped.
\<close>

theorem AddEventListener_RemoveById:
  assumes "wf_heap h" and "ids_ok h" and "unat (currentId h) < 2 ^ 32 - 1" and ls: "listenerMap h this = Some ls" and "isMethod h cb"
  shows "\<exists>i h1 h2. KEventObject_AddEventListener this name cb h = (Inr i, h1) \<and> wf_heap h1 \<and> ids_ok h1
    \<and> KEventObject_RemoveById this other i h1 = (Inr (), h2) \<and> wf_heap h2
    \<and> listenerMap h2 = listenerMap h \<and> listeners h2 = listeners h"
proof -
  let ?r = "\<lparr>l_eventName = name, l_callback = cb, listenerId = currentId h + 1\<rparr>" and ?l = "next_addr h"
  define h1 where "h1 = h\<lparr>currentId := currentId h + 1, next_addr := Suc ?l, listeners := (listeners h)(?l \<mapsto> ?r),
      listenerMap := (listenerMap h)(this \<mapsto> ls @ [?l])\<rparr>"
  have add: "KEventObject_AddEventListener this name cb h = (Inr (currentId h + 1), h1)"
    using Add_run [OF ls] by (simp add: h1_def)
  have wf1: "wf_heap h1" using Add_wf(1) [OF assms(1) ls, of ?r h1] assms(5) by (simp add: h1_def)
  have ids1: "ids_ok h1" by (rule ids_ok_add [OF assms(2,3), of h1 ?l ?r]) (simp_all add: h1_def)
  have i0: "currentId h + 1 \<noteq> 0" using unat_next_id [OF assms(3)] by (auto simp: unat_eq_zero [symmetric])
  have vec: "listenerMap h1 this = Some (ls @ [?l])" by (simp add: h1_def)
  have match: "EventListener_Matches h1 (the (listeners h1 l)) other (currentId h + 1) None \<longleftrightarrow> l = ?l" if l: "l \<in> set (ls @ [?l])" for l
  proof -
    obtain r where r: "listeners h1 l = Some r" using wf_listenersD(3) [OF wf1 vec l] by blast
    have "listeners h1 ?l = Some ?r" by (simp add: h1_def)
    with ids1 r have "listenerId r = currentId h + 1 \<longleftrightarrow> l = ?l" by (auto simp: ids_ok_def)
    with r i0 show ?thesis by (auto simp: EventListener_Matches_def)
  qed
  have notin: "?l \<notin> set ls" using wf_fresh_listener [OF assms(1) ls] .
  have free: "listeners h ?l = None" using wf_heap_listeners [OF assms(1)] by (simp add: wf_listeners_def)
  note rem = Remove_run [OF wf1 vec, of other "currentId h + 1" None]
  have f: "filter (\<lambda>l. \<not> EventListener_Matches h1 (the (listeners h1 l)) other (currentId h + 1) None) (ls @ [?l]) = ls"
    using match notin by (auto simp: filter_id_conv intro!: filter_True)
  have g: "(\<lambda>l. if l \<in> set (ls @ [?l]) \<and> EventListener_Matches h1 (the (listeners h1 l)) other (currentId h + 1) None then None
      else listeners h1 l) = listeners h" (is "?g = _")
  proof
    fix l
    show "?g l = listeners h l"
    proof (cases "l = ?l")
      case True
      with match [of ?l] free show ?thesis by simp
    next
      case False
      then have "listeners h1 l = listeners h l" by (simp add: h1_def)
      with False match [of l] show ?thesis by metis
    qed
  qed
  have wf2: "wf_heap (snd (KEventObject_RemoveEventListener this other (currentId h + 1) None h1))"
    unfolding rem snd_conv by (rule Remove_wf(1) [OF wf1 vec refl])
  have "listenerMap h = (listenerMap h1)(this \<mapsto> ls)" using ls by (auto simp: h1_def fun_eq_iff)
  then show ?thesis
    using add wf1 ids1 wf2 rem unfolding KEventObject_RemoveById_def f g by auto
qed

theorem AddEventListener_RemoveById_witness:
  "\<exists>i h1 h2. KEventObject_AddEventListener 3 ''open'' 4 demo_event_heap = (Inr i, h1)
    \<and> KEventObject_RemoveById 3 ''shown'' i h1 = (Inr (), h2) \<and> listenerMap h2 3 = Some [5, 6]"
proof -
  have "ids_ok demo_event_heap" by (auto simp: ids_ok_def demo_event_heap_def split: if_splits)
  moreover have "unat (currentId demo_event_heap) < 2 ^ 32 - 1" "listenerMap demo_event_heap 3 = Some [5, 6]"
    "isMethod demo_event_heap 4"
    by (simp_all add: demo_event_heap_def isMethod_def StaticBoundMethod_new_def)
  ultimately show ?thesis
    using AddEventListener_RemoveById [OF demo_event_heap_wf, of 3 "[5, 6]" 4 "''open''" "''shown''"] by fastforce
qed

text \<open>
  The histories of the registry: listeners are added and removed, event objects are created and
  destroyed, and anything else happens that leaves the registry alone.  The number counts the
  listeners added so far.
\<close>

inductive registry_run :: "heap \<Rightarrow> nat \<Rightarrow> heap \<Rightarrow> bool" for h0 where
  start: "registry_run h0 0 h0"
| add: "registry_run h0 n h \<Longrightarrow> isMethod h cb \<Longrightarrow> KEventObject_AddEventListener this name cb h = (Inr i, h') \<Longrightarrow>
    registry_run h0 (Suc n) h'"
| remove: "registry_run h0 n h \<Longrightarrow> KEventObject_RemoveEventListener this name lid cb h = (Inr (), h') \<Longrightarrow>
    registry_run h0 n h'"
| create: "registry_run h0 n h \<Longrightarrow>
    bindM (new_object (KEventObject_obj isRoot ty)) (\<lambda>this. set_vector this []) h = (Inr (), h') \<Longrightarrow>
    registry_run h0 n h'"
| destroy: "registry_run h0 n h \<Longrightarrow> KEventObject_destroy this h = (Inr (), h') \<Longrightarrow> registry_run h0 n h'"
| other: "registry_run h0 n h \<Longrightarrow> wf_heap h' \<Longrightarrow> listeners h' = listeners h \<Longrightarrow> listenerMap h' = listenerMap h \<Longrightarrow>
    currentId h' = currentId h \<Longrightarrow> registry_run h0 n h'"

lemma vector_defined:
  "KEventObject_AddEventListener this name cb h = (Inr i, h') \<Longrightarrow> \<exists>ls. listenerMap h this = Some ls"
  "KEventObject_RemoveEventListener this name lid cb' h = (Inr (), h') \<Longrightarrow> \<exists>ls. listenerMap h this = Some ls"
  "KEventObject_destroy this h = (Inr (), h') \<Longrightarrow> \<exists>ls. listenerMap h this = Some ls"
  by (auto simp: KEventObject_AddEventListener_def KEventObject_RemoveEventListener_def KEventObject_destroy_def
      EventListener_new_def get_vector_def bindM_def split: option.splits)

lemma create_wf:
  assumes "wf_heap h" and "bindM (new_object (KEventObject_obj isRoot ty)) (\<lambda>this. set_vector this []) h = (Inr (), h')"
  shows "wf_heap h'" "heap_le h h'" "listeners h' = listeners h" "currentId h' = currentId h"
proof -
  let ?a = "next_addr h"
  define h1 where "h1 = h\<lparr>objs := (objs h)(?a \<mapsto> KEventObject_obj isRoot ty), next_addr := Suc ?a\<rparr>"
  have run: "new_object (KEventObject_obj isRoot ty) h = (Inr ?a, h1)" by (simp add: new_object_def h1_def)
  have "wf_obj h (KEventObject_obj isRoot ty)" by (simp add: wf_obj_def KEventObject_obj_def pmap_ok_def)
  note h1 = sound_run [OF sound_new_object [OF assms(1) this] run]
  have h': "h' = h1\<lparr>listenerMap := (listenerMap h1)(?a \<mapsto> [])\<rparr>" using assms(2) run by (simp add: bindM_def set_vector_def)
  have m: "isMethod h' = isMethod h1" by (simp add: h' isMethod_def fun_eq_iff)
  have "wf_listeners h'"
    using wf_heap_listeners [OF h1(1)] h1(3) unfolding wf_listeners_def m
    by (auto simp: h' h1_def split: if_splits)
  then show "wf_heap h'" "heap_le h h'"
    using wf_heap_registry [OF h1(1), of h'] heap_le_trans [OF h1(2)] by (simp_all add: h')
  show "listeners h' = listeners h" "currentId h' = currentId h" by (simp_all add: h' h1_def)
qed

lemma destroy_wf:
  assumes "wf_heap h" and "KEventObject_destroy this h = (Inr (), h')"
  shows "wf_heap h'" "heap_le h h'" "listeners h' l = Some r \<Longrightarrow> listeners h l = Some r" "currentId h' = currentId h"
proof -
  obtain ls where ls: "listenerMap h this = Some ls" using vector_defined(3) [OF assms(2)] by blast
  have h': "h' = h\<lparr>listeners := (\<lambda>l. if l \<in> set ls then None else listeners h l), listenerMap := (listenerMap h)(this := None)\<rparr>"
    using assms(2) ls by (simp add: KEventObject_destroy_def bindM_def get_vector_def)
  have m: "isMethod h' = isMethod h" by (simp add: h' isMethod_def fun_eq_iff)
  have "wf_listeners h'"
    unfolding wf_listeners_def m
  proof (intro conjI allI impI)
    fix a ms l assume "listenerMap h' a = Some ms" "l \<in> set ms"
    then show "\<exists>r. listeners h' l = Some r \<and> isMethod h (l_callback r)"
      using wf_listenersD(3) [OF assms(1), of a ms l] wf_listenersD(4) [OF assms(1) ls, of a ms]
      by (fastforce simp: h' split: if_splits)
  qed (use wf_heap_listeners [OF assms(1)] in \<open>auto simp: h' wf_listeners_def split: if_splits\<close>)
  then show "wf_heap h'" "heap_le h h'" using wf_heap_registry [OF assms(1), of h'] by (simp_all add: h')
  show "listeners h' l = Some r \<Longrightarrow> listeners h l = Some r" "currentId h' = currentId h" by (auto simp: h' split: if_splits)
qed

text \<open>C5: 
  In every history in which fewer than \<open>2\<^sup>3\<^sup>2 - 2\<close> listeners have been added, the registry is
  well formed (no vector holds a deleted listener, no listener is in two vectors), the counter
  has counted them, and the ids of the live listeners are pairwise distinct and not 0.
\<close>

theorem registry_invariant:
  assumes "registry_run h0 n h" and "wf_heap h0" and "listeners h0 = Map.empty" and "currentId h0 = 1" and "n < 2 ^ 32 - 2"
  shows "wf_heap h \<and> ids_ok h \<and> unat (currentId h) = Suc n"
  using assms
proof (induction rule: registry_run.induct)
  case start
  then show ?case by (simp add: ids_ok_def)
next
  case (add n h cb this name i h')
  then have IH: "wf_heap h" "ids_ok h" "unat (currentId h) = Suc n" by simp_all
  have n: "unat (currentId h) < 2 ^ 32 - 1" using IH(3) add.prems(4) by simp
  obtain ls where ls: "listenerMap h this = Some ls" using vector_defined(1) add.hyps(3) by blast
  let ?r = "\<lparr>l_eventName = name, l_callback = cb, listenerId = currentId h + 1\<rparr>"
  have h': "h' = h\<lparr>currentId := currentId h + 1, next_addr := Suc (next_addr h), listeners := (listeners h)(next_addr h \<mapsto> ?r),
      listenerMap := (listenerMap h)(this \<mapsto> ls @ [next_addr h])\<rparr>"
    using add.hyps(3) Add_run [OF ls, of name cb] by (metis Pair_inject)
  have "wf_heap h'" using Add_wf(1) [OF IH(1) ls _ h'] add.hyps(2) by simp
  moreover have "ids_ok h'" by (rule ids_ok_add [OF IH(2) n, of h' "next_addr h" ?r]) (simp_all add: h')
  moreover have "unat (currentId h') = Suc (Suc n)" using unat_next_id [OF n] IH(3) by (simp add: h')
  ultimately show ?case by blast
next
  case (remove n h this name lid cb h')
  then have IH: "wf_heap h" "ids_ok h" "unat (currentId h) = Suc n" by simp_all
  obtain ls where ls: "listenerMap h this = Some ls" using vector_defined(2) remove.hyps(2) by blast
  have h': "h' = h\<lparr>listeners := (\<lambda>l. if l \<in> set ls \<and> EventListener_Matches h (the (listeners h l)) name lid cb then None else listeners h l),
      listenerMap := (listenerMap h)(this \<mapsto> filter (\<lambda>l. \<not> EventListener_Matches h (the (listeners h l)) name lid cb) ls)\<rparr>"
    using remove.hyps(2) Remove_run [OF IH(1) ls, of name lid cb] by simp
  have "ids_ok h'" by (rule ids_ok_fewer [OF IH(2)]) (auto simp: h' split: if_splits)
  then show ?case using Remove_wf(1) [OF IH(1) ls h'] IH(3) by (simp add: h')
next
  case (create n h isRoot ty h')
  then have IH: "wf_heap h" "ids_ok h" "unat (currentId h) = Suc n" by simp_all
  note h' = create_wf [OF IH(1) create.hyps(2)]
  show ?case using h' IH ids_ok_fewer [OF IH(2), of h'] by simp
next
  case (destroy n h this h')
  then have IH: "wf_heap h" "ids_ok h" "unat (currentId h) = Suc n" by simp_all
  note h' = destroy_wf [OF IH(1) destroy.hyps(2)]
  show ?case using h' IH ids_ok_fewer [OF IH(2), of h'] by simp
next
  case (other n h h')
  then have IH: "wf_heap h" "ids_ok h" "unat (currentId h) = Suc n" by simp_all
  then show ?case using other.hyps ids_ok_fewer [OF IH(2), of h'] by simp
qed

definition demo_registry :: heap where
  "demo_registry = demo_event_heap\<lparr>listenerMap := [3 \<mapsto> []], listeners := Map.empty, currentId := 1\<rparr>"

theorem registry_invariant_witness:
  "\<exists>h. registry_run demo_registry 1 h \<and> ids_ok h \<and> unat (currentId h) = 2 \<and> listenerMap h 3 = Some [7]"
proof -
  have wf: "wf_heap demo_registry"
    using wf_heap_registry(1) [OF demo_event_heap_wf, of demo_registry]
    by (simp add: demo_registry_def demo_event_heap_def wf_listeners_def)
  have ls: "listenerMap demo_registry 3 = Some []" and m: "isMethod demo_registry 4"
    by (simp_all add: demo_registry_def demo_event_heap_def isMethod_def StaticBoundMethod_new_def)
  obtain h where add: "KEventObject_AddEventListener 3 ''open'' 4 demo_registry = (Inr (currentId demo_registry + 1), h)"
      "listenerMap h 3 = Some [7]"
    using Add_run [OF ls, of "''open''" 4] by (simp add: demo_registry_def demo_event_heap_def)
  have run: "registry_run demo_registry 1 h" using registry_run.add [OF registry_run.start m add(1)] by simp
  then show ?thesis
    using registry_invariant [OF run wf] add(2) by (auto simp: demo_registry_def)
qed

section \<open>Firing events\<close>

definition event_name :: "heap \<Rightarrow> addr \<Rightarrow> string option" where
  "event_name h e = (case objs h e of Some ob \<Rightarrow> (case cls ob of CEvent t n ts st pd d \<Rightarrow> Some n | _ \<Rightarrow> None) | None \<Rightarrow> None)"

definition event_stopped :: "heap \<Rightarrow> addr \<Rightarrow> bool" where
  "event_stopped h e = (case objs h e of Some ob \<Rightarrow> (case cls ob of CEvent t n ts st pd d \<Rightarrow> st | _ \<Rightarrow> False) | None \<Rightarrow> False)"

definition event_prevented :: "heap \<Rightarrow> addr \<Rightarrow> bool" where
  "event_prevented h e = (case objs h e of Some ob \<Rightarrow> (case cls ob of CEvent t n ts st pd d \<Rightarrow> pd | _ \<Rightarrow> False) | None \<Rightarrow> False)"

lemma get_event_run:
  "event_name h e = Some n \<Longrightarrow> \<exists>t ts d. get_event e h = (Inr (t, n, ts, event_stopped h e, event_prevented h e, d), h)"
  by (auto simp: event_name_def event_stopped_def event_prevented_def get_event_def bindM_def load_obj_def retM_def
      split: option.splits kclass.splits)

lemma event_name_mono: "heap_le h h' \<Longrightarrow> event_name h e = Some n \<Longrightarrow> event_name h' e = Some n"
proof -
  assume le: "heap_le h h'" and n: "event_name h e = Some n"
  obtain ob t ts st pd d where ob: "objs h e = Some ob" "cls ob = CEvent t n ts st pd d"
    using n by (auto simp: event_name_def split: option.splits kclass.splits)
  obtain ob' where "objs h' e = Some ob'" "fixed (cls ob') = fixed (cls ob)" using heap_le_objE [OF le ob(1)] .
  then show ?thesis using ob(2) by (cases "cls ob'") (auto simp: event_name_def)
qed

text \<open>
  The specification of delivery.  Notifying a listener does nothing when the names differ;
  otherwise it runs the callback once, with the event as its only argument, and forgets its
  outcome.  Delivery notifies the listeners in order until the event is stopped.
\<close>

inductive notify :: "string \<Rightarrow> vt \<Rightarrow> addr \<Rightarrow> heap \<Rightarrow> addr \<Rightarrow> heap \<Rightarrow> bool" for what V event where
  skip: "listeners h l = Some r \<Longrightarrow> event_name h event = Some n \<Longrightarrow> l_eventName r \<noteq> n \<Longrightarrow> l_eventName r \<noteq> Event_ALL \<Longrightarrow>
    notify what V event h l h"
| call: "listeners h l = Some r \<Longrightarrow> event_name h event = Some n \<Longrightarrow> l_eventName r = n \<or> l_eventName r = Event_ALL \<Longrightarrow>
    new_value (Value_NewObject (Some event)) h = (Inr v, h1) \<Longrightarrow>
    LinuxJob_Execute what V \<lparr>j_method = l_callback r, j_args = [v], synchronous = True\<rparr> h1 = (Inr outcome, h2) \<Longrightarrow>
    notify what V event h l h2"

inductive delivered :: "string \<Rightarrow> vt \<Rightarrow> addr \<Rightarrow> heap \<Rightarrow> addr list \<Rightarrow> bool \<Rightarrow> heap \<Rightarrow> bool" for what V event where
  done_all: "delivered what V event h [] False h"
| stop: "notify what V event h l h1 \<Longrightarrow> event_stopped h1 event \<Longrightarrow> delivered what V event h (l # ls) True h1"
| more: "notify what V event h l h1 \<Longrightarrow> \<not> event_stopped h1 event \<Longrightarrow> delivered what V event h1 ls b h2 \<Longrightarrow>
    delivered what V event h (l # ls) b h2"

inductive_cases notifyE: "notify what V event h l h'"

text \<open>A callback is quiet when it returns or throws, and leaves the registry alone.\<close>

definition quiet :: "vt \<Rightarrow> heap \<Rightarrow> addr \<Rightarrow> bool" where
  "quiet V h m \<longleftrightarrow> (\<forall>h' v. wf_heap h' \<longrightarrow> heap_le h h' \<longrightarrow> cells h' v \<noteq> None \<longrightarrow>
     (case vCall V m [v] h' of (r, h'') \<Rightarrow> returns r \<and> listeners h'' = listeners h' \<and> listenerMap h'' = listenerMap h'))"

lemma quietD:
  assumes "quiet V h m" and "wf_heap h'" and "heap_le h h'" and "cells h' v \<noteq> None" and "vCall V m [v] h' = (r, h'')"
  shows "returns r" "listeners h'' = listeners h'" "listenerMap h'' = listenerMap h'"
  using assms unfolding quiet_def by fastforce+

lemma quiet_mono: "quiet V h m \<Longrightarrow> heap_le h h' \<Longrightarrow> quiet V h' m"
proof -
  assume q: "quiet V h m" and le: "heap_le h h'"
  show ?thesis
    unfolding quiet_def
  proof (intro allI impI)
    fix g v assume g: "wf_heap g" "heap_le h' g" "cells g v \<noteq> None"
    note quietD [OF q g(1) heap_le_trans [OF le g(2)] g(3) surjective_pairing]
    then show "case vCall V m [v] g of (r, h'') \<Rightarrow> returns r \<and> listeners h'' = listeners g \<and> listenerMap h'' = listenerMap g"
      by (simp add: case_prod_beta)
  qed
qed

lemma Execute_registry:
  assumes "vCall V (j_method j) (j_args j) h = (r, h1)" and "LinuxJob_Execute what V j h = (r', h2)"
  shows "listeners h2 = listeners h1" "listenerMap h2 = listenerMap h1"
  using assms
  by (auto simp: LinuxJob_Execute_def tryM_def retM_def raiseM_def job_failure_def new_string_def bindM_def fresh_def
      new_value_def split: sum.splits exn.splits)

lemma FireIfMatches_call:
  assumes "listeners h l = Some r" and n: "event_name h event = Some n" and "l_eventName r = n \<or> l_eventName r = Event_ALL"
    and "new_value (Value_NewObject (Some event)) h = (Inr v, h1)"
    and "LinuxJob_Execute what V \<lparr>j_method = l_callback r, j_args = [v], synchronous = True\<rparr> h1 = (Inr outcome, h2)"
  shows "EventListener_FireEventIfMatches what V l event h = (Inr (), h2)"
proof -
  obtain t ts d where "get_event event h = (Inr (t, n, ts, event_stopped h event, event_prevented h event, d), h)"
    using get_event_run [OF n] by blast
  with assms show ?thesis
    by (auto simp: EventListener_FireEventIfMatches_def bindM_def load_listener_def tryM_def InvokeMethodOnMainThread_def
        retM_def raiseM_def split: sum.splits)
qed

lemma FireIfMatches_quiet:
  assumes V: "virtual_table V" and wf: "wf_heap h" and r: "listeners h l = Some r" and q: "quiet V h (l_callback r)"
    and n: "event_name h event = Some n"
  shows "\<exists>h'. EventListener_FireEventIfMatches what V l event h = (Inr (), h') \<and> notify what V event h l h'
    \<and> wf_heap h' \<and> heap_le h h' \<and> listeners h' = listeners h \<and> listenerMap h' = listenerMap h"
proof (cases "l_eventName r = n \<or> l_eventName r = Event_ALL")
  case False
  moreover obtain t ts d where "get_event event h = (Inr (t, n, ts, event_stopped h event, event_prevented h event, d), h)"
    using get_event_run [OF n] by blast
  ultimately have "EventListener_FireEventIfMatches what V l event h = (Inr (), h)"
    using r by (auto simp: EventListener_FireEventIfMatches_def bindM_def load_listener_def retM_def)
  then show ?thesis using False wf notify.skip [OF r n] by auto
next
  case True
  have "objs h event \<noteq> None" using n by (auto simp: event_name_def split: option.splits)
  then have c: "wf_cell h (Value_NewObject (Some event))" by simp
  obtain v h1 where h1: "new_value (Value_NewObject (Some event)) h = (Inr v, h1)" "wf_heap h1" "heap_le h h1"
      "cells h1 v \<noteq> None" "listeners h1 = listeners h" "listenerMap h1 = listenerMap h"
    using sound_run [OF sound_new_value [OF wf c]] by (auto simp: new_value_def)
  let ?j = "\<lparr>j_method = l_callback r, j_args = [v], synchronous = True\<rparr>"
  obtain r0 h0 where call: "vCall V (l_callback r) [v] h1 = (r0, h0)" by fastforce
  note q' = quietD [OF q h1(2-4) call]
  obtain r' h2 where h2: "LinuxJob_Execute what V ?j h1 = (Inr r', h2)"
    using Execute_returns [of V ?j h1] q'(1) call by (metis LinuxJob.select_convs(1,2) eq_fst_iff)
  have "sound h1 (LinuxJob_Execute what V ?j) (\<lambda>r h'. case r of Inl a \<Rightarrow> cells h' a \<noteq> None | Inr a \<Rightarrow> cells h' a \<noteq> None)"
    using h1(4) by (intro virtual_table.sound_Execute [OF V h1(2)]) simp
  note s = sound_run [OF this h2]
  have "EventListener_FireEventIfMatches what V l event h = (Inr (), h2)" using FireIfMatches_call [OF r n True h1(1) h2] .
  moreover have "listeners h2 = listeners h" "listenerMap h2 = listenerMap h"
    using Execute_registry [of V ?j h1 r0 h0, OF _ h2] call q'(2,3) h1(5,6) by simp_all
  ultimately show ?thesis
    using notify.call [OF r n True h1(1) h2] s(1) heap_le_trans [OF h1(3) s(2)] by auto
qed

lemma fire_loop_delivers:
  assumes V: "virtual_table V" and "wf_heap h" and "event_name h event = Some n"
    and "\<And>l. l \<in> set ls \<Longrightarrow> \<exists>r. listeners h l = Some r \<and> quiet V h (l_callback r)"
  shows "\<exists>b h'. fire_loop what V event ls h = (Inr (if b then Some (\<not> event_prevented h' event) else None), h')
    \<and> delivered what V event h ls b h' \<and> wf_heap h' \<and> heap_le h h' \<and> listeners h' = listeners h \<and> listenerMap h' = listenerMap h"
  using assms(2-)
proof (induction ls arbitrary: h)
  case Nil
  then show ?case using delivered.done_all by (intro exI [of _ False] exI [of _ h]) (simp add: retM_def)
next
  case (Cons l ls)
  obtain r where r: "listeners h l = Some r" "quiet V h (l_callback r)" using Cons.prems(3) [of l] by auto
  obtain h1 where h1: "EventListener_FireEventIfMatches what V l event h = (Inr (), h1)" "notify what V event h l h1"
      "wf_heap h1" "heap_le h h1" "listeners h1 = listeners h" "listenerMap h1 = listenerMap h"
    using FireIfMatches_quiet [OF V Cons.prems(1) r Cons.prems(2)] by blast
  have n1: "event_name h1 event = Some n" using event_name_mono [OF h1(4) Cons.prems(2)] .
  obtain t ts d where ev: "get_event event h1 = (Inr (t, n, ts, event_stopped h1 event, event_prevented h1 event, d), h1)"
    using get_event_run [OF n1] by blast
  show ?case
  proof (cases "event_stopped h1 event")
    case True
    then show ?thesis
      using h1 ev delivered.stop [OF h1(2) True] by (intro exI [of _ True] exI [of _ h1]) (simp add: bindM_def retM_def)
  next
    case False
    have "\<exists>r. listeners h1 k = Some r \<and> quiet V h1 (l_callback r)" if k: "k \<in> set ls" for k
      using Cons.prems(3) [of k] k quiet_mono [OF _ h1(4)] h1(5) by auto
    from Cons.IH [OF h1(3) n1 this] obtain b h2 where h2:
      "fire_loop what V event ls h1 = (Inr (if b then Some (\<not> event_prevented h2 event) else None), h2)"
      "delivered what V event h1 ls b h2" "wf_heap h2" "heap_le h1 h2" "listeners h2 = listeners h1" "listenerMap h2 = listenerMap h1"
      by blast
    have "fire_loop what V event (l # ls) h = fire_loop what V event ls h1"
      using h1(1) ev False by (simp add: bindM_def)
    then show ?thesis
      using h2 h1 delivered.more [OF h1(2) False h2(2)] heap_le_trans [OF h1(4) h2(4)]
      by (intro exI [of _ b] exI [of _ h2]) simp
  qed
qed


definition demo_fire_heap :: "callback option \<Rightarrow> heap" where
  "demo_fire_heap cb = demo_event_heap\<lparr>objs := [3 \<mapsto> KEventObject_obj True ''Host'', 4 \<mapsto> StaticBoundMethod_new cb [],
     7 \<mapsto> Event_obj 3 ''open'' 0 None], next_addr := 8\<rparr>"

lemma demo_fire_heap_wf: "wf_heap (demo_fire_heap cb)"
  by (auto simp: wf_heap_def wf_listeners_def wf_jobs_def demo_fire_heap_def demo_event_heap_def demo_heap_def KEventObject_obj_def
      StaticBoundMethod_new_def Event_obj_def Undefined_addr_def Null_addr_def wf_obj_def pmap_ok_def isMethod_def split: if_splits)


section \<open>Callbacks that remove listeners\<close>

lemma fire_loop_append:
  "fire_loop what V event (as @ bs) =
     bindM (fire_loop what V event as) (\<lambda>r. case r of None \<Rightarrow> fire_loop what V event bs | Some b \<Rightarrow> retM (Some b))"
  by (induction as) (auto simp: bindM_def retM_def fun_eq_iff split: prod.splits sum.splits option.splits)

lemma delivered_append:
  "delivered what V event h as False h1 \<Longrightarrow> delivered what V event h1 bs b h2 \<Longrightarrow> delivered what V event h (as @ bs) b h2"
  by (induction h as False h1 rule: delivered.induct) (auto intro: delivered.more)

lemma delivered_stopped: "delivered what V event h as True h1 \<Longrightarrow> delivered what V event h (as @ bs) True h1"
  by (induction h as True h1 rule: delivered.induct) (auto intro: delivered.stop delivered.more)

text \<open>A callback that removes the listeners of \<open>this\<close> with the id \<open>lid\<close>, by \<^verbatim>\<open>removeEventListener\<close>, and
  does nothing else to the registry.\<close>

definition removes_listener :: "vt \<Rightarrow> heap \<Rightarrow> addr \<Rightarrow> addr \<Rightarrow> string \<Rightarrow> uint32 \<Rightarrow> bool" where
  "removes_listener V h m this name lid \<longleftrightarrow> (\<forall>h' v. wf_heap h' \<longrightarrow> heap_le h h' \<longrightarrow> cells h' v \<noteq> None \<longrightarrow>
     listeners h' = listeners h \<longrightarrow> listenerMap h' = listenerMap h \<longrightarrow>
     (\<exists>x h1 h2. vCall V m [v] h' = (Inr x, h1) \<and> KEventObject_RemoveById this name lid h' = (Inr (), h2)
        \<and> listeners h1 = listeners h2 \<and> listenerMap h1 = listenerMap h2))"

lemma FireIfMatches_remover:
  assumes V: "virtual_table V" and wf: "wf_heap h" and r: "listeners h l = Some r"
    and n: "event_name h event = Some n" "l_eventName r = n \<or> l_eventName r = Event_ALL"
    and rem: "removes_listener V h (l_callback r) this name lid" and ls: "listenerMap h this = Some ls" and lid: "lid \<noteq> 0"
  shows "\<exists>h'. EventListener_FireEventIfMatches what V l event h = (Inr (), h') \<and> notify what V event h l h'
    \<and> wf_heap h' \<and> heap_le h h'
    \<and> listeners h' = (\<lambda>k. if k \<in> set ls \<and> listenerId (the (listeners h k)) = lid then None else listeners h k)"
proof -
  have "objs h event \<noteq> None" using n(1) by (auto simp: event_name_def split: option.splits)
  then have c: "wf_cell h (Value_NewObject (Some event))" by simp
  obtain v h1 where h1: "new_value (Value_NewObject (Some event)) h = (Inr v, h1)" "wf_heap h1" "heap_le h h1"
      "cells h1 v \<noteq> None" "listeners h1 = listeners h" "listenerMap h1 = listenerMap h"
    using sound_run [OF sound_new_value [OF wf c]] by (auto simp: new_value_def)
  obtain x h2 h3 where h2: "vCall V (l_callback r) [v] h1 = (Inr x, h2)" "KEventObject_RemoveById this name lid h1 = (Inr (), h3)"
      "listeners h2 = listeners h3"
    using rem h1(2-6) unfolding removes_listener_def by blast
  have "sound h1 (vCall V (l_callback r) [v]) (\<lambda>x h'. cells h' x \<noteq> None)"
    using h1(4) by (intro virtual_table.v_call [OF V h1(2)]) simp
  note s = sound_run [OF this h2(1)]
  have ex: "LinuxJob_Execute what V \<lparr>j_method = l_callback r, j_args = [v], synchronous = True\<rparr> h1 = (Inr (Inr x), h2)"
    using h2(1) by (simp add: LinuxJob_Execute_def tryM_def retM_def)
  have "listeners h3 = (\<lambda>k. if k \<in> set ls \<and> listenerId (the (listeners h k)) = lid then None else listeners h k)"
    using h2(2) Remove_run [OF h1(2), of this ls name lid None] ls h1(5,6) lid
    by (auto simp: KEventObject_RemoveById_def EventListener_Matches_def fun_eq_iff)
  then show ?thesis
    using FireIfMatches_call [OF r n h1(1) ex] notify.call [OF r n h1(1) ex] s(1) heap_le_trans [OF h1(3) s(2)] h2(3) by auto
qed

text \<open>The part of the loop after a listener that was notified.\<close>

lemma fire_loop_step:
  assumes "EventListener_FireEventIfMatches what V l event h = (Inr (), h1)" and "event_name h1 event = Some n"
  shows "fire_loop what V event (l # ls) h =
    (if event_stopped h1 event then (Inr (Some (\<not> event_prevented h1 event)), h1) else fire_loop what V event ls h1)"
  using assms(1) get_event_run [OF assms(2)] by (auto simp: bindM_def retM_def)


text \<open>Two listeners with the ids 2 and 3; the callback of the first removes the second one.\<close>

definition removing_natives :: natives where
  "removing_natives _ _ _ _ = KEventObject_RemoveById 3 ''open'' 3"

lemma sound_Remove: "wf_heap h \<Longrightarrow> sound h (KEventObject_RemoveEventListener this name lid cb) (\<lambda>_ _. True)"
proof (cases "listenerMap h this")
  case None
  then show "wf_heap h \<Longrightarrow> ?thesis"
    by (simp add: KEventObject_RemoveEventListener_def bindM_def get_vector_def sound_def exn_ok_def)
next
  case (Some ls)
  assume wf: "wf_heap h"
  show ?thesis using Remove_wf [OF wf Some refl] by (simp add: sound_def Remove_run [OF wf Some])
qed

lemma sound_RemoveById:
  "wf_heap h \<Longrightarrow> sound h (KEventObject_RemoveById this name lid) (\<lambda>_ _. True)"
  unfolding KEventObject_RemoveById_def by (rule sound_Remove)

interpretation removing: native_code removing_natives no_fnptrs
  by unfold_locales (simp_all add: removing_natives_def no_fnptrs_def sound_RemoveById sound_ret wf_heap_Undefined)

lemma removing_call:
  assumes wf: "wf_heap h'" and le: "heap_le (demo_fire_heap (Some (Native 0))) h'"
    and reg: "listenerMap h' = listenerMap (demo_fire_heap (Some (Native 0)))"
  shows "\<exists>x h1 h2. vCall (vtable (Suc 0) removing_natives no_fnptrs) 4 [v] h' = (Inr x, h1) \<and> objs h1 = objs h'
    \<and> KEventObject_RemoveById 3 ''open'' 3 h' = (Inr (), h2) \<and> listeners h1 = listeners h2 \<and> listenerMap h1 = listenerMap h2"
proof -
  have ls: "listenerMap h' 3 = Some [5, 6]" using reg by (simp add: demo_fire_heap_def demo_event_heap_def)
  obtain ob where ob: "objs h' 4 = Some ob" "fixed (cls ob) = CStaticBoundMethod (Some (Native 0))"
    by (rule heap_le_objE [OF le, of 4]) (auto simp: demo_fire_heap_def StaticBoundMethod_new_def)
  have cb: "cls ob = CStaticBoundMethod (Some (Native 0))" using ob(2) by (cases "cls ob") auto
  obtain a h1 where h1: "new_value Value_NewUndefined h' = (Inr a, h1)" "listenerMap h1 = listenerMap h'"
      "listeners h1 = listeners h'" "objs h1 = objs h'"
    by (simp add: new_value_def)
  have "sound h' (new_value Value_NewUndefined) (\<lambda>x h1. cells h1 x = Some Value_NewUndefined)"
    by (rule sound_new_value [OF wf]) simp
  then have wf1: "wf_heap h1" using h1(1) by (rule sound_run(1))
  have "EventListener_Matches h1 r s i None = EventListener_Matches h' r s i None" for r s i
    by (simp add: EventListener_Matches_def)
  then show ?thesis
    using Remove_run [OF wf1, of 3 "[5, 6]" "''open''" 3 None] Remove_run [OF wf, of 3 "[5, 6]" "''open''" 3 None]
      ls ob(1) cb
    by (simp add: vtable_sel dispatch_Call_def bindM_def load_obj_def StaticBoundMethod_Call_def removing_natives_def
        KEventObject_RemoveById_def retM_def h1 cong: if_cong del: vtable.simps)
qed


end
