(* ===== verification/Kroll_Natives.thy ===== *)
theory Kroll_Natives
  imports Kroll_Events
begin

text \<open>
  The member functions of the binding layer as native code: which function a callback runs, the
  proof that all of them keep the store invariant, and with it the interpretation of the
  contract of native code, on which the invariant of every virtual call rests.
\<close>

definition kroll_natives :: "(string \<Rightarrow> string) \<Rightarrow> (string \<Rightarrow> string) \<Rightarrow> natives \<Rightarrow> natives" where
  "kroll_natives lo up ext cb V args result =
     (case cb of
        Blob_Method op this \<Rightarrow> Blob_call lo up op this args result
      | Event_GetTarget this \<Rightarrow> Event__GetTarget this result
      | Event_GetType this \<Rightarrow> Event__GetType this result
      | Event_GetTimestamp this \<Rightarrow> Event__GetTimestamp this result
      | Event_StopPropagation this \<Rightarrow> Event__StopPropagation this
      | Event_PreventDefault this \<Rightarrow> Event__PreventDefault this
      | ReadEvent_GetData this \<Rightarrow> ReadEvent__GetData this result
      | KEventObject_Add this \<Rightarrow> KEventObject__AddEventListener this args result
      | KEventObject_Remove this \<Rightarrow> KEventObject__RemoveEventListener this args
      | AsyncJob_GetProgress this \<Rightarrow> AsyncJob__GetProgress this result
      | AsyncJob_Cancel this \<Rightarrow> AsyncJob_Cancel_op this
      | AsyncJob_IsComplete this \<Rightarrow> AsyncJob__IsComplete this result
      | _ \<Rightarrow> ext cb V args result)"

section \<open>Arguments\<close>

lemma sound_args_at':
  "wf_heap h \<Longrightarrow> \<forall>x \<in> set args. cells h x \<noteq> None \<Longrightarrow> sound h (args_at args i) (\<lambda>_ _. True)"
  by (auto simp: args_at_def intro: sound_ret sound_raise simp: exn_ok_def)

lemma sound_verify_loop: "wf_heap h \<Longrightarrow> sound h (verify_loop args i opt ts) (\<lambda>_ _. True)"
  by (induction ts arbitrary: i opt) (auto simp: Let_def intro!: sound_ret sound_load_bind)

lemma sound_VerifyException: "wf_heap h \<Longrightarrow> sound h (ArgList_VerifyException args name sig) (\<lambda>_ _. True)"
  unfolding ArgList_VerifyException_def ArgList_VerifyImpl_def
  by (rule sound_bind [OF sound_verify_loop])
    (auto intro!: sound_ret sound_bind [OF sound_new_string] sound_raise simp: exn_ok_def)

lemma sound_ArgList_getters:
  assumes "wf_heap h"
  shows "sound h (ArgList_GetInt args i d1) (\<lambda>_ _. True)" "sound h (ArgList_GetNumber args i d2) (\<lambda>_ _. True)"
    "sound h (ArgList_GetString args i d3) (\<lambda>_ _. True)"
  unfolding ArgList_Get_defs using assms by (auto intro!: sound_load_bind sound_ret sound_of_opt)

lemma sound_GetMethod:
  "wf_heap h \<Longrightarrow> sound h (ArgList_GetMethod args i None) (\<lambda>p h'. pred_option (isMethod h') p)"
  unfolding ArgList_GetMethod_def
  by (auto intro!: sound_load_bind sound_gets sound_ret simp: pred_option_def dest: ToMethod_isMethod)

lemma sound_arg_is: "wf_heap h \<Longrightarrow> sound h (arg_is P args i) (\<lambda>b h'. h' = h \<and>
    (b \<longrightarrow> i < length args \<and> (\<exists>v. cells h (args ! i) = Some v \<and> P v)))"
  unfolding arg_is_def by (auto intro!: sound_load_bind sound_ret)

lemma sound_GetMethod_of_method:
  assumes "wf_heap h" and "i < length args" and v: "cells h (args ! i) = Some v" "Value_IsMethod v"
  shows "sound h (ArgList_GetMethod args i None) (\<lambda>p h'. h' = h \<and> isMethod h (null_ptr p))"
proof -
  have "wf_value (isList h) (isMethod h) v" using wf_heap_cell [OF assms(1) v(1)] by (simp add: wf_cell_def)
  then obtain m where "Value_ToMethod (isMethod h) v = Some m" "isMethod h m"
    using v(2) by (auto simp: wf_value_def Value_IsMethod_def Value_ToMethod_def autoptr_cast_def not_None_eq)
  then show ?thesis
    using assms by (simp add: sound_def ArgList_GetMethod_def bindM_def load_def gets_def null_ptr_def)
qed

lemmas sound_arg_steps = sound_bind [OF sound_VerifyException] sound_bind [OF sound_ArgList_getters(1)]
  sound_bind [OF sound_ArgList_getters(2)] sound_bind [OF sound_ArgList_getters(3)] sound_bind [OF sound_arg_is]

section \<open>Blobs\<close>

lemma sound_get_blob: "wf_heap h \<Longrightarrow> sound h (get_blob this) (\<lambda>_ _. True)"
  unfolding get_blob_def
  by (rule sound_load_obj_bind) (auto intro!: sound_ret sound_raise simp: exn_ok_def split: kclass.split)

lemma sound_get_blob_bind: "wf_heap h \<Longrightarrow> (\<And>b len h'. wf_heap h' \<Longrightarrow> heap_le h h' \<Longrightarrow> sound h' (f b len) Q) \<Longrightarrow>
    sound h (bindM (get_blob this) (\<lambda>(b, len). f b len)) Q"
  by (rule sound_bind [OF sound_get_blob]) (auto split: prod.split)

lemma sound_blob_str: "wf_heap h \<Longrightarrow> sound h (blob_c_str b) (\<lambda>_ _. True)" "wf_heap h \<Longrightarrow> sound h (blob_target b len) (\<lambda>_ _. True)"
  unfolding blob_target_def blob_c_str_def by (auto intro!: sound_opt_bind sound_ret)

lemma sound_arg_string: "wf_heap h \<Longrightarrow> sound h (arg_string args i) (\<lambda>_ _. True)"
  unfolding arg_string_def args_at_def
  by (auto intro!: sound_load_bind sound_of_opt sound_raise simp: exn_ok_def)

lemma sound_start_arg: "wf_heap h \<Longrightarrow> sound h (start_arg args d) (\<lambda>_ _. True)"
  unfolding start_arg_def Let_def by (auto intro!: sound_bind [OF sound_ArgList_getters(2)] sound_ret)

lemmas sound_blob_steps = sound_arg_steps sound_get_blob_bind sound_bind [OF sound_blob_str(1)] sound_bind [OF sound_blob_str(2)]
  sound_bind [OF sound_arg_string] sound_bind [OF sound_start_arg] sound_opt_bind sound_load_bind
  sound_set_result sound_set_string_result

lemma sound_blob_find:
  assumes "wf_heap h"
  shows "sound h (Blob_IndexOf this args result) (\<lambda>_ _. True)" "sound h (Blob_LastIndexOf this args result) (\<lambda>_ _. True)"
    "sound h (Blob_ToString this result) (\<lambda>_ _. True)" "sound h (Blob_Get this result) (\<lambda>_ _. True)"
    "sound h (Blob_ToLowerCase lo this result) (\<lambda>_ _. True)" "sound h (Blob_ToUpperCase up this result) (\<lambda>_ _. True)"
  unfolding Blob_IndexOf_def Blob_LastIndexOf_def Blob_ToString_def Blob_Get_def Blob_ToLowerCase_def Blob_ToUpperCase_def
  using assms by (auto intro!: sound_blob_steps)

lemma sound_blob_CharAt: "wf_heap h \<Longrightarrow> sound h (Blob_CharAt this args result) (\<lambda>_ _. True)"
  unfolding Blob_CharAt_def args_at_def Let_def
  by (auto intro!: sound_blob_steps sound_raise simp: exn_ok_def)

lemma sound_substring_result:
  "wf_heap h \<Longrightarrow> sound h (case p of Some r \<Rightarrow> set_string_result result r | None \<Rightarrow> raiseM OutOfRange) (\<lambda>_ _. True)"
  by (auto intro!: sound_set_string_result sound_raise simp: exn_ok_def split: option.split)

lemma sound_blob_Substring: "wf_heap h \<Longrightarrow> sound h (Blob_Substring this args result) (\<lambda>_ _. True)"
  unfolding Blob_Substring_def Let_def substring_between_def
  by (auto intro!: sound_blob_steps sound_substring_result)

lemma sound_length_arg:
  "wf_heap h \<Longrightarrow> sound h (if length args > 1 then bindM (ArgList_GetInt args 1 0) (\<lambda>i1. retM (sint i1)) else retM d) (\<lambda>_ _. True)"
  by (auto intro!: sound_arg_steps sound_ret)

lemma sound_blob_Substr: "wf_heap h \<Longrightarrow> sound h (Blob_Substr this args result) (\<lambda>_ _. True)"
  unfolding Blob_Substr_def Let_def
  by (intro sound_blob_steps) (auto intro!: sound_bind [OF sound_length_arg] sound_blob_steps sound_substring_result sound_raise simp: exn_ok_def)

lemma sound_append_string:
  "wf_heap h \<Longrightarrow> sound h (bindM (new_string s) (\<lambda>v. StaticBoundList_Append lst v)) (\<lambda>_ _. True)"
  by (rule sound_bind [OF sound_new_string]) (auto intro: sound_List_Append)

lemma sound_split_loop: "wf_heap h \<Longrightarrow> sound h (split_loop lst sep limit target) (\<lambda>_ _. True)"
proof (induction lst sep limit target arbitrary: h rule: split_loop.induct)
  case (1 lst sep limit target)
  show ?case
    by (subst split_loop.simps, unfold StaticBoundList_Size_def)
      (auto intro!: sound_bind [OF sound_get_length] sound_append_string sound_ret sound_bind [OF sound_new_string]
        sound_bind [OF sound_List_Append] 1(1) [simplified] 1(2) split: option.split)
qed

lemma sound_blob_Split: "wf_heap h \<Longrightarrow> sound h (Blob_Split this args result) (\<lambda>_ _. True)"
proof -
  assume wf: "wf_heap h"
  have list: "sound h (new_object (StaticBoundList_new ''StaticBoundList'')) (\<lambda>p h'. isList h' p)" if "wf_heap h" for h
    by (rule sound_conseq [OF sound_new_object [OF that]])
      (auto simp: StaticBoundList_new_def wf_obj_def pmap_ok_def isList_def)
  show ?thesis
    unfolding Blob_Split_def
    by (rule sound_bind [OF sound_VerifyException [OF wf]], rule sound_bind [OF list], assumption,
        rule sound_bind [OF sound_set_result], assumption, simp)
      (auto intro!: sound_blob_steps sound_append_string sound_bind [OF sound_length_arg] sound_split_loop)
qed

lemma sound_set_methods: "wf_heap h \<Longrightarrow> sound h (set_methods this ps) (\<lambda>_ _. True)"
  by (induction ps arbitrary: h) (auto intro!: sound_ret sound_bind [OF sound_SetMethod])

lemma sound_CreateWithReference:
  assumes "wf_heap h" and "objs h this = Some ob" and "fixed (cls ob) = CBlob None 0"
  shows "sound h (Blob_CreateWithReference this b len) (\<lambda>_ h'. objs h' this \<noteq> None)"
proof -
  obtain h' ob' where "Blob_CreateWithReference this b len h = (Inr (), h')" "wf_heap h'" "heap_le h h'" "objs h' this = Some ob'"
    using CreateWithReference_run [OF assms, of b len] by blast
  then show ?thesis by (simp add: sound_def)
qed

lemma sound_Blob_construct:
  assumes "\<And>h this ob. wf_heap h \<Longrightarrow> objs h this = Some ob \<Longrightarrow> fixed (cls ob) = CBlob None 0 \<Longrightarrow>
      sound h (f this) (\<lambda>_ h'. objs h' this \<noteq> None)" and "wf_heap h"
  shows "sound h (bindM (new_object (Blob_obj None 0)) (\<lambda>this. bindM (f this) (\<lambda>_. retM this))) (\<lambda>p h'. objs h' p \<noteq> None)"
proof -
  have "wf_obj h (Blob_obj None 0)" by (simp add: wf_obj_def Blob_obj_def pmap_ok_def)
  then show ?thesis
    by (intro sound_bind [OF sound_new_object [OF assms(2)]])
      (auto intro!: sound_bind [OF assms(1)] sound_ret simp: Blob_obj_def)
qed

lemma sound_Blob_new: "wf_heap h \<Longrightarrow> sound h (Blob_new bytes len) (\<lambda>p h'. objs h' p \<noteq> None)"
  unfolding Blob_new_def
proof (rule sound_Blob_construct)
  fix h this ob assume h: "wf_heap h" "objs h this = Some ob" "fixed (cls ob) = CBlob None 0"
  have "sound h' (Blob_CreateWithReference this b len) (\<lambda>_ h'. objs h' this \<noteq> None)" if g: "wf_heap h'" "heap_le h h'" for h' b
  proof -
    obtain ob' where "objs h' this = Some ob'" "fixed (cls ob') = fixed (cls ob)" using heap_le_objE [OF g(2) h(2)] .
    then show ?thesis using h(3) by (intro sound_CreateWithReference [OF g(1)]) auto
  qed
  then show "sound h (Blob_CreateWithCopy this bytes len) (\<lambda>_ h'. objs h' this \<noteq> None)"
    using h unfolding Blob_CreateWithCopy_def by (auto intro!: sound_bind [OF sound_fresh])
qed

lemma sound_Blob_new_reference: "wf_heap h \<Longrightarrow> sound h (Blob_new_reference b len) (\<lambda>p h'. objs h' p \<noteq> None)"
  unfolding Blob_new_reference_def by (rule sound_Blob_construct [OF sound_CreateWithReference])

lemma sound_concat_size: "wf_heap h \<Longrightarrow> sound h (concat_size ps sz) (\<lambda>_ _. True)"
  by (induction ps arbitrary: h sz) (auto intro!: sound_ret sound_get_blob_bind sound_raise simp: exn_ok_def)

lemma sound_concat_bytes: "wf_heap h \<Longrightarrow> sound h (concat_bytes ps acc) (\<lambda>_ _. True)"
  by (induction ps arbitrary: h acc) (auto intro!: sound_ret sound_get_blob_bind sound_opt_bind)

lemma sound_first_bytes:
  "wf_heap h \<Longrightarrow> sound h (if sint len < 0 then raiseM UB
     else if 0 < sint len then bindM (of_opt b) (\<lambda>q. retM (take (nat (sint len)) (snd q))) else retM []) (\<lambda>_ _. True)"
  by (auto intro!: sound_opt_bind sound_ret sound_raise simp: exn_ok_def)

lemma sound_ConcatBlobs: "wf_heap h \<Longrightarrow> sound h (Blob_ConcatBlobs this blobs) (\<lambda>p h'. objs h' p \<noteq> None)"
  unfolding Blob_ConcatBlobs_def
  by (cases "blobs = []")
    (auto intro!: sound_load_obj_bind sound_ret sound_get_blob_bind sound_bind [OF sound_concat_size] sound_bind [OF sound_fresh]
      sound_bind [OF sound_first_bytes] sound_bind [OF sound_concat_bytes] sound_Blob_new_reference)

lemma sound_concat_args: "wf_heap h \<Longrightarrow> sound h (concat_args args blobs) (\<lambda>_ _. True)"
  by (induction args arbitrary: h blobs)
    (auto intro!: sound_ret sound_load_bind sound_gets_bind sound_opt_bind sound_bind [OF sound_Blob_new] simp: Blob_new_string_def)

lemma sound_blob_Concat: "wf_heap h \<Longrightarrow> sound h (Blob_Concat this args result) (\<lambda>_ _. True)"
  unfolding Blob_Concat_def
  by (rule sound_bind [OF sound_concat_args], assumption)
    (auto intro!: sound_bind [OF sound_ConcatBlobs] sound_set_result)

lemma sound_Blob_call: "wf_heap h \<Longrightarrow> sound h (Blob_call lo up op this args result) (\<lambda>_ _. True)"
  by (cases op) (auto intro: sound_blob_find sound_blob_CharAt sound_blob_Split sound_blob_Substring sound_blob_Substr sound_blob_Concat)

section \<open>Events and jobs\<close>

lemma sound_get_event_bind:
  assumes "wf_heap h"
    and "\<And>t n ts st pd d. objs h t \<noteq> None \<Longrightarrow> pred_option (\<lambda>b. objs h b \<noteq> None) d \<Longrightarrow> sound h (f (t, n, ts, st, pd, d)) Q"
  shows "sound h (bindM (get_event this) f) Q"
proof -
  have "sound h (get_event this) (\<lambda>(t, n, ts, st, pd, d) h'. h' = h \<and> objs h t \<noteq> None \<and> pred_option (\<lambda>b. objs h b \<noteq> None) d)"
    unfolding get_event_def using assms(1)
    by (intro sound_load_obj_bind) (auto intro!: sound_ret sound_raise simp: exn_ok_def wf_obj_def split: kclass.split)
  then show ?thesis by (rule sound_bind) (auto intro!: assms(2))
qed

lemma sound_set_flags: "wf_heap h \<Longrightarrow> sound h (set_flags this a b) (\<lambda>_ _. True)"
  unfolding set_flags_def
  by (rule sound_load_obj_bind)
    (auto intro!: sound_raise sound_conseq [OF sound_store_obj] simp: exn_ok_def wf_obj_def split: kclass.split)

lemma sound_event_natives:
  assumes "wf_heap h"
  shows "sound h (Event__GetTarget this result) (\<lambda>_ _. True)" "sound h (Event__GetType this result) (\<lambda>_ _. True)"
    "sound h (Event__GetTimestamp this result) (\<lambda>_ _. True)" "sound h (ReadEvent__GetData this result) (\<lambda>_ _. True)"
    "sound h (Event__StopPropagation this) (\<lambda>_ _. True)" "sound h (Event__PreventDefault this) (\<lambda>_ _. True)"
  unfolding Event__GetTarget_def Event__GetType_def Event__GetTimestamp_def ReadEvent__GetData_def
    Event__StopPropagation_def Event__PreventDefault_def
  using assms by (auto intro!: sound_get_event_bind sound_set_result sound_set_string_result sound_set_flags)

lemma sound_job_natives:
  assumes "wf_heap h"
  shows "sound h (AsyncJob__GetProgress this result) (\<lambda>_ _. True)" "sound h (AsyncJob__IsComplete this result) (\<lambda>_ _. True)"
    "sound h (AsyncJob_Cancel_op this) (\<lambda>_ _. True)"
  unfolding AsyncJob__GetProgress_def AsyncJob__IsComplete_def AsyncJob_Cancel_op_def
  using assms by (auto intro!: sound_get_job_bind sound_set_result sound_update_job)

lemma sound_Add:
  assumes "wf_heap h" and "isMethod h cb"
  shows "sound h (KEventObject_AddEventListener this name cb) (\<lambda>_ _. True)"
proof (cases "listenerMap h this")
  case None
  let ?r = "\<lparr>l_eventName = name, l_callback = cb, listenerId = currentId h + 1\<rparr>"
  define h' where "h' = h\<lparr>currentId := currentId h + 1, next_addr := Suc (next_addr h), listeners := (listeners h)(next_addr h \<mapsto> ?r)\<rparr>"
  have m: "isMethod h' = isMethod h" by (simp add: h'_def isMethod_def fun_eq_iff)
  have "next_addr h \<notin> set ls" if "listenerMap h a = Some ls" for a ls using wf_fresh_listener [OF assms(1) that] .
  then have "wf_listeners h'"
    using wf_heap_listeners [OF assms(1)] assms(2) unfolding wf_listeners_def m by (auto simp: h'_def split: if_splits)
  then have "wf_heap h'" "heap_le h h'" using wf_heap_registry [OF assms(1), of h'] by (simp_all add: h'_def)
  moreover have "KEventObject_AddEventListener this name cb h = (Inl UB, h')"
    using None by (simp add: KEventObject_AddEventListener_def EventListener_new_def bindM_def get_vector_def h'_def)
  ultimately show ?thesis by (simp add: sound_def exn_ok_def)
next
  case (Some ls)
  show ?thesis
    using Add_wf [OF assms(1) Some, of "\<lparr>l_eventName = name, l_callback = cb, listenerId = currentId h + 1\<rparr>"] assms(2)
    by (simp add: sound_def Add_run [OF Some])
qed

lemma sound__Add: "wf_heap h \<Longrightarrow> sound h (KEventObject__AddEventListener this args result) (\<lambda>_ _. True)"
proof -
  assume wf: "wf_heap h"
  have named: "sound h (if length args > 1 then
      bindM (arg_is Value_IsString args 0) (\<lambda>b. if b then arg_is Value_IsMethod args 1 else retM False) else retM False)
      (\<lambda>b h'. h' = h \<and> (b \<longrightarrow> 1 < length args \<and> (\<exists>v. cells h (args ! 1) = Some v \<and> Value_IsMethod v)))"
    using wf by (auto intro!: sound_bind [OF sound_arg_is] sound_conseq [OF sound_arg_is] sound_ret)
  have add: "sound h (bindM (ArgList_GetMethod args i None) (\<lambda>m. KEventObject_AddEventListener this name (null_ptr m))) (\<lambda>_ _. True)"
    if "wf_heap h" "i < length args" "\<exists>v. cells h (args ! i) = Some v \<and> Value_IsMethod v" for h i name
    using that by (auto intro!: sound_bind [OF sound_GetMethod_of_method] sound_Add)
  have str: "sound h (ArgList_GetString args 0 []) (\<lambda>_ h'. h' = h)" if "wf_heap h" for h
    unfolding ArgList_GetString_def using that by (auto intro!: sound_load_bind sound_of_opt sound_ret)
  show ?thesis
    unfolding KEventObject__AddEventListener_def KEventObject_AddEventListenerForAllEvents_def
  proof (rule sound_bind [OF named], elim conjE)
    fix b h' assume h': "wf_heap h'" "h' = h" "b \<longrightarrow> 1 < length args \<and> (\<exists>v. cells h (args ! 1) = Some v \<and> Value_IsMethod v)"
    show "sound h' (bindM (if b then
        bindM (ArgList_GetString args 0 []) (\<lambda>eventName.
        bindM (ArgList_GetMethod args 1 None) (\<lambda>m. KEventObject_AddEventListener this eventName (null_ptr m)))
      else bindM (arg_is Value_IsMethod args 0) (\<lambda>b.
        if b then bindM (ArgList_GetMethod args 0 None) (\<lambda>m. KEventObject_AddEventListener this Event_ALL (null_ptr m))
        else bindM (new_string ''Incorrect arguments passed to addEventListener'') (\<lambda>e. raiseM (ValueException e))))
       (\<lambda>lid. set_result result (Value_SetDouble (uint_to_double lid)))) (\<lambda>_ _. True)"
    proof (rule sound_bind [where Q = "\<lambda>_ _. True"])
      show "sound h' (if b then
          bindM (ArgList_GetString args 0 []) (\<lambda>eventName.
          bindM (ArgList_GetMethod args 1 None) (\<lambda>m. KEventObject_AddEventListener this eventName (null_ptr m)))
        else bindM (arg_is Value_IsMethod args 0) (\<lambda>b.
          if b then bindM (ArgList_GetMethod args 0 None) (\<lambda>m. KEventObject_AddEventListener this Event_ALL (null_ptr m))
          else bindM (new_string ''Incorrect arguments passed to addEventListener'') (\<lambda>e. raiseM (ValueException e)))) (\<lambda>_ _. True)"
        using h' by (auto intro!: sound_bind [OF str] add sound_bind [OF sound_arg_is] sound_bind [OF sound_new_string] sound_raise
            simp: exn_ok_def)
    qed (auto intro!: sound_set_result)
  qed
qed

lemma sound__Remove: "wf_heap h \<Longrightarrow> sound h (KEventObject__RemoveEventListener this args) (\<lambda>_ _. True)"
  unfolding KEventObject__RemoveEventListener_def KEventObject_RemoveByMethod_def KEventObject_RemoveById_def args_at_def
  by (auto intro!: sound_arg_steps sound_load_bind sound_bind [OF sound_GetMethod] sound_Remove sound_raise simp: exn_ok_def)

section \<open>The contract of native code\<close>

lemma kroll_natives_sound:
  assumes "native_code N F" and "virtual_table V" and "wf_heap h" and "\<forall>x \<in> set args. cells h x \<noteq> None" and "cells h result \<noteq> None"
  shows "sound h (kroll_natives lo up N cb V args result) (\<lambda>_ _. True)"
  unfolding kroll_natives_def
  using assms(3) native_code.native [OF assms(1-5)]
  by (auto intro: sound_Blob_call sound_event_natives sound_job_natives sound__Add sound__Remove split: callback.split)

lemma kroll_native_code: "native_code N F \<Longrightarrow> native_code (kroll_natives lo up N) F"
  by unfold_locales (auto intro: kroll_natives_sound native_code.fnptr)

text \<open>The program's own member functions, with foreign code that does nothing.\<close>

interpretation kroll: native_code "kroll_natives lo up no_natives" no_fnptrs for lo up
  by (rule kroll_native_code [OF idle.native_code_axioms])

section \<open>The invariant of the whole layer\<close>

context native_code
begin

lemma table_contract: "virtual_table (vtable n N F)"
  by (rule table.virtual_table_axioms)

end

lemmas native_code_table = native_code.table_contract

context virtual_table
begin

lemma sound_FireIfMatches:
  assumes "wf_heap h" and "objs h event \<noteq> None"
  shows "sound h (EventListener_FireEventIfMatches what V l event) (\<lambda>_ _. True)"
proof -
  have load: "sound h (load_listener l) (\<lambda>r h'. h' = h \<and> isMethod h (l_callback r))"
    using assms(1) wf_callback [OF assms(1)] by (auto simp: sound_def load_listener_def exn_ok_def split: option.split)
  have "wf_cell h (Value_NewObject (Some event))" using assms(2) by simp
  then have fire: "sound h (bindM (new_value (Value_NewObject (Some event))) (\<lambda>v.
      tryM (InvokeMethodOnMainThread what V m [v] True) (\<lambda>_. retM ())
        (\<lambda>e. case e of ValueException a \<Rightarrow> retM () | _ \<Rightarrow> raiseM e))) (\<lambda>_ _. True)" if m: "isMethod h m" for m
    using m heap_le_isMethod
    by (intro sound_bind [OF sound_new_value [OF assms(1)]] sound_try [OF sound_Invoke])
      (auto intro!: sound_ret sound_raise split: exn.split)
  show ?thesis
    unfolding EventListener_FireEventIfMatches_def
    by (rule sound_bind [OF load]) (auto intro!: sound_get_event_bind sound_ret fire assms(1))
qed

lemma sound_fire_loop:
  "wf_heap h \<Longrightarrow> objs h event \<noteq> None \<Longrightarrow> sound h (fire_loop what V event ls) (\<lambda>_ _. True)"
proof (induction ls arbitrary: h)
  case (Cons l ls)
  then show ?case
    using heap_le_objs
    by (auto intro!: sound_bind [OF sound_FireIfMatches] sound_get_event_bind sound_ret Cons.IH)
qed (simp add: sound_ret)

lemma sound_FireEvent:
  "wf_heap h \<Longrightarrow> objs h event \<noteq> None \<Longrightarrow> sound h (KEventObject_FireEvent n what V rootObj this event) (\<lambda>_ _. True)"
proof (induction n arbitrary: h this)
  case (Suc n)
  have vec: "sound h (get_vector this) (\<lambda>_ h'. h' = h)"
    using Suc.prems by (simp add: sound_def get_vector_def exn_ok_def split: option.split)
  have isRoot: "sound h (get_isRoot this) (\<lambda>_ h'. h' = h)" if "wf_heap h" for h
    unfolding get_isRoot_def using that
    by (intro sound_load_obj_bind) (auto intro!: sound_ret sound_raise simp: exn_ok_def split: kclass.split)
  have up: "sound h' (if \<not> b then bindM (KEventObject_FireEvent n what V rootObj rootObj event) (\<lambda>_. retM ()) else retM ()) (\<lambda>_ _. True)"
    if h': "wf_heap h'" "heap_le h h'" for h' b
    using h' heap_le_objs [OF h'(2) Suc.prems(2)] by (auto intro!: sound_bind [OF Suc.IH] sound_ret)
  show ?case
    unfolding KEventObject_FireEvent.simps
  proof (rule sound_bind [OF vec], rule sound_bind [OF sound_fire_loop], goal_cases)
    case (3 ls h1 r h2)
    then have le: "heap_le h h2" using heap_le_trans by blast
    show ?case
      using 3 le
      by (auto intro!: sound_ret sound_bind [OF isRoot] sound_bind [OF up] sound_get_event_bind split: option.split)
  qed (use Suc.prems in auto)
qed (simp add: sound_raise exn_ok_def)

end



end
