(* ===== verification/Kroll_Host.thy ===== *)
theory Kroll_Host
  imports Kroll_Application Kroll_Natives Kroll_Logger
begin

text \<open>
  The host of \<^verbatim>\<open>src/api/host.cpp\<close> with the Linux parts of \<^verbatim>\<open>src/host/linux/host.cpp\<close>:
  start-up, the registry of module providers, loading, starting and unloading modules, the
  rescan of files that no provider recognised, the main run and the exit signal. The providers
  of the script languages (\<^verbatim>\<open>javascript_module.cpp\<close>, \<^verbatim>\<open>python_module.cpp\<close>,
  \<^verbatim>\<open>php_module.cpp\<close>, \<^verbatim>\<open>ruby_module.cpp\<close>) decide by the suffix of a file.

  The code of a module is an argument: its \<^verbatim>\<open>Initialize\<close>, \<^verbatim>\<open>Start\<close>, \<^verbatim>\<open>Stop\<close> and
  \<^verbatim>\<open>Unload\<close> see the host and may add and remove providers and then return or throw. The dynamic
  linker and the path functions of Poco are arguments too.
\<close>

section \<open>Data\<close>

datatype ModuleProvider =
    NullProvider
  | HostProvider
  | JavascriptModule
  | PythonModule
  | PHPModule
  | RubyModule
  | OtherProvider nat

record Module =
  mod_addr :: nat
  mod_path :: string
  mod_name :: string
  mod_version :: string
  mod_provider :: ModuleProvider

text \<open>The calls of a module's virtual functions, in the order they were made.\<close>

datatype lifecycle = On_Initialize nat | On_Start nat | On_Stop nat | On_Unload nat

record module_host =
  application :: Application
  module_paths :: "string list"
  module_providers :: "ModuleProvider list"
  loadedModules :: "Module list"
  invalid_module_files :: "string list"
  autoScan :: bool
  running :: bool
  runUILoop :: bool
  exitCode :: int
  debug :: bool
  waitForDebugger :: bool
  consoleLogging :: bool
  fileLogging :: bool
  logFilePath :: string
  profile :: bool
  profilePath :: string
  libraryPath :: "string option"
  appFiles :: "string list"
  copiedFiles :: "string list"
  modules_made :: nat
  trace :: "lifecycle list"

text \<open>An exception that code outside of the host throws. The handlers of the host display the value of
  a \<^verbatim>\<open>ValueException\<close>, which runs code of that value: its argument is the exception that the display
  throws, if it does.\<close>

datatype thrown = Throws_ValueException "thrown option" | Throws_other

fun display_throws :: "thrown \<Rightarrow> thrown option" where
  "display_throws (Throws_ValueException d) = d"
| "display_throws Throws_other = None"

text \<open>\<^verbatim>\<open>HostUB\<close> is undefined behaviour of C++; \<^verbatim>\<open>HostNoFuel\<close> marks a run that was given too
  little fuel and stands for no behaviour of the program.\<close>

datatype host_exn = Thrown thrown | HostUB | HostNoFuel

datatype host_call = Call_AddModuleProvider ModuleProvider | Call_RemoveModuleProvider ModuleProvider

type_synonym hook = "Module \<Rightarrow> module_host \<Rightarrow> host_call list \<times> thrown option"

text \<open>
  Code outside of the host: \<^verbatim>\<open>dlopen\<close> with \<^verbatim>\<open>dlsym\<close> (no handle, no symbol, or the factory, which
  maps the directory to the module's path, name and version); \<^verbatim>\<open>Poco::Path\<close>; the files of a module
  directory with their absolute path (an exception when it cannot be read) and whether they are a
  directory or hidden; the \<^verbatim>\<open>libpath\<close> tokens of a module manifest; the entries of a resource
  directory; and the code of the modules.
\<close>

record module_code =
  other_IsModule :: "nat \<Rightarrow> string \<Rightarrow> bool option"
  other_CreateModule :: "nat \<Rightarrow> string \<Rightarrow> thrown + (string \<times> string \<times> string)"
  dlopen :: "string \<Rightarrow> (string \<Rightarrow> string \<times> string \<times> string) option option"
  Path_getBaseName :: "string \<Rightarrow> string"
  Path_getFileName :: "string \<Rightarrow> string"
  Path_parent :: "string \<Rightarrow> string"
  DirectoryIterator :: "string \<Rightarrow> (string \<times> bool \<times> bool) list option"
  manifest_libpath :: "string \<Rightarrow> thrown + string list option"
  resource_files :: "string \<Rightarrow> string list option"
  copy_fails :: "string \<Rightarrow> bool"
  on_Initialize :: hook
  on_Start :: hook
  on_Stop :: hook
  on_Unload :: hook

section \<open>Computations of the host\<close>

type_synonym 'a H = "module_host \<Rightarrow> (host_exn + 'a) \<times> module_host"

definition retH :: "'a \<Rightarrow> 'a H" where "retH x hs = (Inr x, hs)"

definition throwH :: "host_exn \<Rightarrow> 'a H" where "throwH e hs = (Inl e, hs)"

definition bindH :: "'a H \<Rightarrow> ('a \<Rightarrow> 'b H) \<Rightarrow> 'b H" where
  "bindH m f hs = (case m hs of (Inl e, hs') \<Rightarrow> (Inl e, hs') | (Inr x, hs') \<Rightarrow> f x hs')"

definition getH :: "(module_host \<Rightarrow> 'a) \<Rightarrow> 'a H" where "getH f hs = (Inr (f hs), hs)"

definition modifyH :: "(module_host \<Rightarrow> module_host) \<Rightarrow> unit H" where "modifyH f hs = (Inr (), f hs)"

text \<open>A \<^verbatim>\<open>try\<close> block with the given handlers: the result is \<^const>\<open>None\<close> when one of them ran. The handler
  displays what it caught; an exception of the display leaves the handler.\<close>

definition tryH :: "(thrown \<Rightarrow> bool) \<Rightarrow> 'a H \<Rightarrow> 'a option H" where
  "tryH catches m hs =
     (case m hs of
        (Inr x, hs') \<Rightarrow> (Inr (Some x), hs')
      | (Inl (Thrown t), hs') \<Rightarrow>
          if catches t
          then (case display_throws t of None \<Rightarrow> (Inr None, hs') | Some t' \<Rightarrow> (Inl (Thrown t'), hs'))
          else (Inl (Thrown t), hs')
      | (Inl e, hs') \<Rightarrow> (Inl e, hs'))"

definition liftH :: "host_exn \<Rightarrow> 'a option \<Rightarrow> 'a H" where
  "liftH e r = (case r of Some x \<Rightarrow> retH x | None \<Rightarrow> throwH e)"

definition sumH :: "thrown + 'a \<Rightarrow> 'a H" where
  "sumH r = (case r of Inr x \<Rightarrow> retH x | Inl t \<Rightarrow> throwH (Thrown t))"

section \<open>Module providers\<close>

definition GetModuleSuffix :: string where "GetModuleSuffix = ''module.so''"

definition has_suffix :: "string \<Rightarrow> string \<Rightarrow> bool" where
  "has_suffix suffix path \<longleftrightarrow>
     length path > length suffix \<and> drop (length path - length suffix) path = suffix"

definition Host_IsModule :: "string \<Rightarrow> bool" where
  "Host_IsModule filename = has_suffix GetModuleSuffix filename"

definition Javascript_IsModule :: "string \<Rightarrow> bool" where
  "Javascript_IsModule path = has_suffix ''module.js'' path"

text \<open>The other languages call \<^verbatim>\<open>substr\<close> at the difference of two unsigned lengths: on a path
  shorter than the suffix the position wraps and \<^verbatim>\<open>substr\<close> throws \<^verbatim>\<open>std::out_of_range\<close>.\<close>

definition substr_suffix :: "string \<Rightarrow> string \<Rightarrow> bool option" where
  "substr_suffix suffix path =
     map_option (\<lambda>s. s = suffix)
       (substr path (nat ((int (length path) - int (length suffix)) mod 2 ^ 64)) None)"

definition Python_IsModule :: "string \<Rightarrow> bool option" where
  "Python_IsModule path = substr_suffix ''module.py'' path"

definition PHP_IsModule :: "string \<Rightarrow> bool option" where
  "PHP_IsModule path = substr_suffix ''module.php'' path"

definition Ruby_IsModule :: "string \<Rightarrow> bool option" where
  "Ruby_IsModule path = substr_suffix ''module.rb'' path"

fun provider_IsModule :: "module_code \<Rightarrow> ModuleProvider \<Rightarrow> string \<Rightarrow> bool option" where
  "provider_IsModule E NullProvider path = Some False"
| "provider_IsModule E HostProvider path = Some (Host_IsModule path)"
| "provider_IsModule E JavascriptModule path = Some (Javascript_IsModule path)"
| "provider_IsModule E PythonModule path = Python_IsModule path"
| "provider_IsModule E PHPModule path = PHP_IsModule path"
| "provider_IsModule E RubyModule path = Ruby_IsModule path"
| "provider_IsModule E (OtherProvider i) path = other_IsModule E i path"

text \<open>The outer option is the exception of a provider's \<^verbatim>\<open>IsModule\<close>, the inner one the null
  pointer.\<close>

fun find_provider :: "module_code \<Rightarrow> ModuleProvider list \<Rightarrow> string \<Rightarrow> ModuleProvider option option" where
  "find_provider E [] filename = Some None"
| "find_provider E (p # ps) filename =
     (case provider_IsModule E p filename of
        None \<Rightarrow> None
      | Some True \<Rightarrow> Some (Some p)
      | Some False \<Rightarrow> find_provider E ps filename)"

definition FindModuleProvider :: "module_code \<Rightarrow> string \<Rightarrow> ModuleProvider option H" where
  "FindModuleProvider E filename =
     bindH (getH module_providers) (\<lambda>ps. liftH (Thrown Throws_other) (find_provider E ps filename))"

definition push_provider :: "ModuleProvider \<Rightarrow> module_host \<Rightarrow> module_host" where
  "push_provider p hs = hs\<lparr>module_providers := module_providers hs @ [p]\<rparr>"

text \<open>\<^verbatim>\<open>scan\<close> is the call of \<^verbatim>\<open>ScanInvalidModuleFiles\<close>, which is defined below by recursion on
  its fuel.\<close>

definition AddModuleProvider :: "unit H \<Rightarrow> ModuleProvider \<Rightarrow> unit H" where
  "AddModuleProvider scan p =
     bindH (modifyH (push_provider p)) (\<lambda>_.
     bindH (getH autoScan) (\<lambda>auto. if auto then scan else retH ()))"

definition RemoveModuleProvider :: "ModuleProvider \<Rightarrow> unit H" where
  "RemoveModuleProvider p = modifyH (\<lambda>hs. hs\<lparr>module_providers := remove1 p (module_providers hs)\<rparr>)"

function unload_providers :: "ModuleProvider list \<Rightarrow> ModuleProvider list" where
  "unload_providers [] = []"
| "unload_providers (p # ps) = unload_providers (remove1 p (p # ps))"
  by pat_completeness auto
termination by (relation "measure length") auto

definition UnloadModuleProviders :: "unit H" where
  "UnloadModuleProviders =
     modifyH (\<lambda>hs. hs\<lparr>module_providers := unload_providers (module_providers hs)\<rparr>)"

section \<open>Creating modules\<close>

definition LinuxHost_CreateModule :: "module_code \<Rightarrow> string \<Rightarrow> thrown + (string \<times> string \<times> string)" where
  "LinuxHost_CreateModule E path =
     (case dlopen E path of
        None \<Rightarrow> Inl (Throws_ValueException None)
      | Some None \<Rightarrow> Inl (Throws_ValueException None)
      | Some (Some create) \<Rightarrow> Inr (create (GetDirectory path)))"

text \<open>The script languages derive the name and the directory of a module from its path: \<^verbatim>\<open>ext\<close> is
  the length of the extension with its dot. A count below zero wraps to one past every string.\<close>

definition prefix_count :: "string \<Rightarrow> int \<Rightarrow> string" where
  "prefix_count s n = take (nat (n mod 2 ^ 64)) s"

definition script_CreateModule :: "module_code \<Rightarrow> string \<Rightarrow> nat \<Rightarrow> string \<Rightarrow> string \<times> string \<times> string" where
  "script_CreateModule E suffix ext path =
     (let basename = Path_getBaseName E path;
          name = prefix_count basename (int (length basename) - int (length suffix) + int ext);
          moduledir = prefix_count path (int (length path) - int (length basename) - int ext)
      in (moduledir, name, ''0.1''))"

definition Javascript_CreateModule :: "module_code \<Rightarrow> string \<Rightarrow> string \<times> string \<times> string" where
  "Javascript_CreateModule E path = script_CreateModule E ''module.js'' 3 path"

definition Python_CreateModule :: "module_code \<Rightarrow> string \<Rightarrow> string \<times> string \<times> string" where
  "Python_CreateModule E path = script_CreateModule E ''module.py'' 3 path"

definition PHP_CreateModule :: "module_code \<Rightarrow> string \<Rightarrow> string \<times> string \<times> string" where
  "PHP_CreateModule E path = script_CreateModule E ''module.php'' 4 path"

definition Ruby_CreateModule :: "module_code \<Rightarrow> string \<Rightarrow> string \<times> string \<times> string" where
  "Ruby_CreateModule E path = script_CreateModule E ''module.rb'' 3 path"

fun CreateModule :: "module_code \<Rightarrow> ModuleProvider \<Rightarrow> string \<Rightarrow> (string \<times> string \<times> string) H" where
  "CreateModule E NullProvider path = throwH HostUB"
| "CreateModule E HostProvider path = sumH (LinuxHost_CreateModule E path)"
| "CreateModule E JavascriptModule path = retH (Javascript_CreateModule E path)"
| "CreateModule E PythonModule path = retH (Python_CreateModule E path)"
| "CreateModule E PHPModule path = retH (PHP_CreateModule E path)"
| "CreateModule E RubyModule path = retH (Ruby_CreateModule E path)"
| "CreateModule E (OtherProvider i) path = sumH (other_CreateModule E i path)"

definition new_module :: "ModuleProvider \<Rightarrow> string \<times> string \<times> string \<Rightarrow> Module H" where
  "new_module provider x hs = (case x of (path, name, version) \<Rightarrow>
     (Inr \<lparr>mod_addr = modules_made hs, mod_path = path, mod_name = name, mod_version = version,
           mod_provider = provider\<rparr>, hs\<lparr>modules_made := Suc (modules_made hs)\<rparr>))"

text \<open>A resource is copied unless the application directory has an entry of its base name, the
  name without the extension.\<close>

fun copy_files :: "module_code \<Rightarrow> string list \<Rightarrow> unit H" where
  "copy_files E [] = retH ()"
| "copy_files E (f # fs) =
     bindH (getH appFiles) (\<lambda>present.
     bindH (if Path_getBaseName E f \<in> set present then retH ()
            else if copy_fails E f then throwH (Thrown Throws_other)
            else modifyH (\<lambda>hs. hs\<lparr>appFiles := List.insert (Path_getFileName E f) (appFiles hs),
                                   copiedFiles := copiedFiles hs @ [f]\<rparr>))
       (\<lambda>_. copy_files E fs))"

definition copy_directory :: "module_code \<Rightarrow> string \<Rightarrow> unit H" where
  "copy_directory E dir =
     (case resource_files E dir of None \<Rightarrow> retH () | Some files \<Rightarrow> copy_files E files)"

definition CopyModuleAppResources :: "module_code \<Rightarrow> string \<Rightarrow> unit option H" where
  "CopyModuleAppResources E modulePath =
     tryH (\<lambda>_. True)
       (bindH (liftH HostUB (Join [Path_parent E modulePath, ''AppResources''])) (\<lambda>resources_dir.
        bindH (liftH HostUB (Join [resources_dir, ''linux''])) (\<lambda>plt_resources_dir.
        bindH (liftH HostUB (Join [resources_dir, ''all''])) (\<lambda>all_resources_dir.
        bindH (copy_directory E plt_resources_dir) (\<lambda>_.
        copy_directory E all_resources_dir)))))"

definition KR_LIB_SEP :: string where "KR_LIB_SEP = '':''"

fun prepend_libs :: "string \<Rightarrow> string list \<Rightarrow> string \<Rightarrow> string option" where
  "prepend_libs topDir [] newLibPath = Some newLibPath"
| "prepend_libs topDir (lib # libs) newLibPath = do {
     dir \<leftarrow> Join [topDir, lib];
     prepend_libs topDir libs (dir @ KR_LIB_SEP @ newLibPath) }"

definition ReadModuleManifest :: "module_code \<Rightarrow> string \<Rightarrow> unit H" where
  "ReadModuleManifest E modulePath =
     (let moduleTopDir = Path_parent E modulePath
      in bindH (liftH HostUB (Join [moduleTopDir, ''manifest''])) (\<lambda>manifestPath.
         bindH (sumH (manifest_libpath E manifestPath)) (\<lambda>libpath.
         case libpath of
           None \<Rightarrow> retH ()
         | Some libs \<Rightarrow>
             bindH (getH libraryPath) (\<lambda>env.
             bindH (liftH HostUB (prepend_libs moduleTopDir libs (case env of Some s \<Rightarrow> s | None \<Rightarrow> [])))
               (\<lambda>newLibPath. modifyH (\<lambda>hs. hs\<lparr>libraryPath := Some newLibPath\<rparr>))))))"

section \<open>Calls of module code\<close>

fun run_calls :: "unit H \<Rightarrow> host_call list \<Rightarrow> unit H" where
  "run_calls scan [] = retH ()"
| "run_calls scan (Call_AddModuleProvider p # cs) =
     bindH (AddModuleProvider scan p) (\<lambda>_. run_calls scan cs)"
| "run_calls scan (Call_RemoveModuleProvider p # cs) =
     bindH (RemoveModuleProvider p) (\<lambda>_. run_calls scan cs)"

definition log_event :: "lifecycle \<Rightarrow> module_host \<Rightarrow> module_host" where
  "log_event e hs = hs\<lparr>trace := trace hs @ [e]\<rparr>"

definition call_hook :: "hook \<Rightarrow> (nat \<Rightarrow> lifecycle) \<Rightarrow> unit H \<Rightarrow> Module \<Rightarrow> unit H" where
  "call_hook f event scan m =
     bindH (modifyH (log_event (event (mod_addr m)))) (\<lambda>_.
     bindH (getH (f m)) (\<lambda>(calls, result).
     bindH (run_calls scan calls) (\<lambda>_.
     case result of None \<Rightarrow> retH () | Some t \<Rightarrow> throwH (Thrown t))))"

definition Module_Initialize :: "module_code \<Rightarrow> unit H \<Rightarrow> Module \<Rightarrow> unit H" where
  "Module_Initialize E = call_hook (on_Initialize E) On_Initialize"

definition Module_Start :: "module_code \<Rightarrow> unit H \<Rightarrow> Module \<Rightarrow> unit H" where
  "Module_Start E = call_hook (on_Start E) On_Start"

definition Module_Stop :: "module_code \<Rightarrow> unit H \<Rightarrow> Module \<Rightarrow> unit H" where
  "Module_Stop E = call_hook (on_Stop E) On_Stop"

definition Module_Unload :: "module_code \<Rightarrow> unit H \<Rightarrow> Module \<Rightarrow> unit H" where
  "Module_Unload E = call_hook (on_Unload E) On_Unload"

section \<open>Loading and starting modules\<close>

definition GetModuleByPath :: "string \<Rightarrow> module_host \<Rightarrow> Module option" where
  "GetModuleByPath path hs = List.find (\<lambda>m. mod_path m = path) (loadedModules hs)"

definition GetModuleByName :: "string \<Rightarrow> module_host \<Rightarrow> Module option" where
  "GetModuleByName name hs = List.find (\<lambda>m. mod_name m = name) (loadedModules hs)"

definition register_module :: "Module \<Rightarrow> string \<Rightarrow> module_host \<Rightarrow> module_host" where
  "register_module m path hs =
     hs\<lparr>loadedModules := loadedModules hs @ [m],
        application := UsingModule (mod_name m) (mod_version m) path (application hs)\<rparr>"

definition prepare_module :: "module_code \<Rightarrow> string \<Rightarrow> ModuleProvider \<Rightarrow> (string \<times> string \<times> string) H" where
  "prepare_module E path provider =
     bindH (CopyModuleAppResources E path) (\<lambda>_.
     bindH (ReadModuleManifest E path) (\<lambda>_.
     CreateModule E provider path))"

text \<open>The variable \<^verbatim>\<open>module\<close> keeps the created module when \<^verbatim>\<open>Initialize\<close> throws, so the block is
  split at its assignment.\<close>

definition LoadModule :: "module_code \<Rightarrow> unit H \<Rightarrow> string \<Rightarrow> ModuleProvider \<Rightarrow> Module option H" where
  "LoadModule E scan path provider =
     bindH (getH (GetModuleByPath path)) (\<lambda>present.
     case present of
       Some m \<Rightarrow> retH None
     | None \<Rightarrow>
         bindH (tryH (\<lambda>_. True) (bindH (prepare_module E path provider) (new_module provider))) (\<lambda>created.
         case created of
           None \<Rightarrow> retH None
         | Some m \<Rightarrow>
             bindH (tryH (\<lambda>_. True)
               (bindH (Module_Initialize E scan m) (\<lambda>_. modifyH (register_module m path))))
             (\<lambda>_. retH (Some m))))"

definition AddInvalidModuleFile :: "string \<Rightarrow> unit H" where
  "AddInvalidModuleFile path = modifyH (\<lambda>hs.
     if path \<in> set (invalid_module_files hs) then hs
     else hs\<lparr>invalid_module_files := invalid_module_files hs @ [path]\<rparr>)"

fun find_modules :: "module_code \<Rightarrow> unit H \<Rightarrow> (string \<times> bool \<times> bool) list \<Rightarrow> unit H" where
  "find_modules E scan [] = retH ()"
| "find_modules E scan ((fpath, isDirectory, isHidden) # files) =
     bindH (if isDirectory \<or> isHidden then retH ()
            else if Host_IsModule fpath then bindH (LoadModule E scan fpath HostProvider) (\<lambda>_. retH ())
            else AddInvalidModuleFile fpath) (\<lambda>_.
     find_modules E scan files)"

definition FindBasicModules :: "module_code \<Rightarrow> unit H \<Rightarrow> string \<Rightarrow> unit H" where
  "FindBasicModules E scan dir =
     bindH (liftH (Thrown Throws_other) (DirectoryIterator E dir)) (find_modules E scan)"

fun StartModules :: "module_code \<Rightarrow> unit H \<Rightarrow> Module list \<Rightarrow> unit H" where
  "StartModules E scan [] = retH ()"
| "StartModules E scan (m # ms) = bindH (Module_Start E scan m) (\<lambda>_. StartModules E scan ms)"

text \<open>The loop over the files no provider recognised: \<^verbatim>\<open>i\<close> is the position of the iterator, the
  list what is left to visit, \<^verbatim>\<open>modulesLoaded\<close> the modules loaded so far.\<close>

definition erase_file :: "nat \<Rightarrow> module_host \<Rightarrow> module_host" where
  "erase_file i hs = hs\<lparr>invalid_module_files :=
     take i (invalid_module_files hs) @ drop (Suc i) (invalid_module_files hs)\<rparr>"

fun scan_files :: "module_code \<Rightarrow> unit H \<Rightarrow> nat \<Rightarrow> string list \<Rightarrow> Module list \<Rightarrow> Module list H" where
  "scan_files E scan i [] modulesLoaded = retH modulesLoaded"
| "scan_files E scan i (path # files) modulesLoaded =
     bindH (FindModuleProvider E path) (\<lambda>found.
     case found of
       None \<Rightarrow> scan_files E scan (Suc i) files modulesLoaded
     | Some provider \<Rightarrow>
         bindH (LoadModule E scan path provider) (\<lambda>m.
         bindH (modifyH (erase_file i)) (\<lambda>_.
         scan_files E scan i files
           (case m of None \<Rightarrow> modulesLoaded | Some m \<Rightarrow> modulesLoaded @ [m]))))"

definition set_autoScan :: "bool \<Rightarrow> unit H" where
  "set_autoScan b = modifyH (\<lambda>hs. hs\<lparr>autoScan := b\<rparr>)"

fun ScanInvalidModuleFiles :: "module_code \<Rightarrow> nat \<Rightarrow> unit H" where
  "ScanInvalidModuleFiles E 0 = throwH HostNoFuel"
| "ScanInvalidModuleFiles E (Suc n) =
     bindH (set_autoScan False) (\<lambda>_.
     bindH (getH invalid_module_files) (\<lambda>files.
     bindH (scan_files E (ScanInvalidModuleFiles E n) 0 files []) (\<lambda>modulesLoaded.
     bindH (if modulesLoaded = [] then retH ()
            else bindH (StartModules E (ScanInvalidModuleFiles E n) modulesLoaded) (\<lambda>_.
                 ScanInvalidModuleFiles E n)) (\<lambda>_.
     set_autoScan True))))"

fun find_all_modules :: "module_code \<Rightarrow> unit H \<Rightarrow> string list \<Rightarrow> unit H" where
  "find_all_modules E scan [] = retH ()"
| "find_all_modules E scan (dir # dirs) =
     bindH (FindBasicModules E scan dir) (\<lambda>_. find_all_modules E scan dirs)"

definition LoadModules :: "module_code \<Rightarrow> nat \<Rightarrow> unit H" where
  "LoadModules E n =
     bindH (getH module_paths) (\<lambda>dirs.
     bindH (find_all_modules E (ScanInvalidModuleFiles E n) dirs) (\<lambda>_.
     bindH (ScanInvalidModuleFiles E n) (\<lambda>_.
     bindH (getH loadedModules) (\<lambda>modules.
     bindH (StartModules E (ScanInvalidModuleFiles E n) modules) (\<lambda>_.
     set_autoScan True)))))"

section \<open>Unloading modules\<close>

definition erase_module :: "Module \<Rightarrow> module_host \<Rightarrow> module_host" where
  "erase_module m hs =
     hs\<lparr>loadedModules := filter (\<lambda>l. mod_addr l \<noteq> mod_addr m) (loadedModules hs),
        application := (application hs)\<lparr>app_modules :=
          filter (\<lambda>c. comp_path (snd c) \<noteq> mod_path m) (app_modules (application hs))\<rparr>\<rparr>"

definition UnregisterModule :: "module_code \<Rightarrow> unit H \<Rightarrow> Module \<Rightarrow> unit H" where
  "UnregisterModule E scan m =
     bindH (Module_Unload E scan m) (\<lambda>_. modifyH (erase_module m))"

text \<open>Both loops of \<^verbatim>\<open>UnloadModules\<close> read the size of the vector in every round, since the code of
  a module may change it.\<close>

fun stop_modules :: "module_code \<Rightarrow> unit H \<Rightarrow> nat \<Rightarrow> nat \<Rightarrow> unit H" where
  "stop_modules E scan 0 i = throwH HostNoFuel"
| "stop_modules E scan (Suc n) i =
     bindH (getH loadedModules) (\<lambda>ms.
     if i < length ms then bindH (Module_Stop E scan (ms ! i)) (\<lambda>_. stop_modules E scan n (Suc i))
     else retH ())"

fun unregister_modules :: "module_code \<Rightarrow> unit H \<Rightarrow> nat \<Rightarrow> unit H" where
  "unregister_modules E scan 0 = throwH HostNoFuel"
| "unregister_modules E scan (Suc n) =
     bindH (getH loadedModules) (\<lambda>ms.
     case ms of [] \<Rightarrow> retH ()
     | m # _ \<Rightarrow> bindH (UnregisterModule E scan m) (\<lambda>_. unregister_modules E scan n))"

definition UnloadModules :: "module_code \<Rightarrow> nat \<Rightarrow> unit H" where
  "UnloadModules E n =
     bindH (stop_modules E (ScanInvalidModuleFiles E n) n 0) (\<lambda>_.
     unregister_modules E (ScanInvalidModuleFiles E n) n)"

section \<open>Construction of the host\<close>

text \<open>What the constructor reads: the environment, the file system with the search paths of
  installed components, the version and name of the build, the application's data directory, and
  whether the log file can be opened.\<close>

record host_env =
  env_var :: "string \<Rightarrow> string option"
  host_fs :: os
  searchPaths :: "string list"
  product_version :: string
  product_name :: string
  data_directory :: "string \<Rightarrow> string"
  log_opens :: "string \<Rightarrow> bool"
  log_format :: formatter

text \<open>The constructor calls \<^verbatim>\<open>exit\<close>, runs into undefined behaviour or makes the host.\<close>

datatype 'a startup = Exits int | Crashes | Started 'a

fun bindS :: "'a startup \<Rightarrow> ('a \<Rightarrow> 'b startup) \<Rightarrow> 'b startup" where
  "bindS (Exits c) f = Exits c"
| "bindS Crashes f = Crashes"
| "bindS (Started x) f = f x"

definition liftS :: "'a option \<Rightarrow> 'a startup" where
  "liftS r = (case r of None \<Rightarrow> Crashes | Some x \<Rightarrow> Started x)"

definition HOME_ENV :: string where "HOME_ENV = ''KR_HOME''"
definition RUNTIME_ENV :: string where "RUNTIME_ENV = ''KR_RUNTIME''"
definition MODULES_ENV :: string where "MODULES_ENV = ''KR_MODULES''"
definition DEBUG_ENV :: string where "DEBUG_ENV = ''KR_DEBUG''"
definition DEBUG_ARG :: string where "DEBUG_ARG = ''--debug''"
definition ATTACH_DEBUGGER_ARG :: string where "ATTACH_DEBUGGER_ARG = ''--attach-debugger''"
definition NO_CONSOLE_LOG_ARG :: string where "NO_CONSOLE_LOG_ARG = ''--no-console-logging''"
definition NO_FILE_LOG_ARG :: string where "NO_FILE_LOG_ARG = ''--no-file-logging''"
definition PROFILE_ARG :: string where "PROFILE_ARG = ''--profile''"
definition LOGPATH_ARG :: string where "LOGPATH_ARG = ''--logpath''"
definition BOOT_HOME_ARG :: string where "BOOT_HOME_ARG = ''--start''"

text \<open>The message has a conversion and no argument for it, so writing it is undefined, as is the
  lookup of the logger before there is a root logger.\<close>

definition AssertEnvironmentVariable :: "host_env \<Rightarrow> logging \<Rightarrow> string \<Rightarrow> unit startup" where
  "AssertEnvironmentVariable e L variable =
     (case env_var e variable of
        Some _ \<Rightarrow> Started ()
      | None \<Rightarrow>
          (case Logger_Get (product_name e) ''Host'' L of
             None \<Rightarrow> Crashes
           | Some (logger, L') \<Rightarrow>
               (case IsEnabled logger LFATAL L' of
                  Some False \<Rightarrow> Exits (- 999)
                | _ \<Rightarrow> Crashes)))"

definition blank_host :: "Application \<Rightarrow> module_host" where
  "blank_host app = \<lparr>application = app, module_paths = [], module_providers = [], loadedModules = [],
     invalid_module_files = [], autoScan = False, running = False, runUILoop = True, exitCode = 0,
     debug = False, waitForDebugger = False, consoleLogging = True, fileLogging = True,
     logFilePath = [], profile = False, profilePath = [], libraryPath = None, appFiles = [],
     copiedFiles = [], modules_made = 0, trace = []\<rparr>"

definition set_runtime_version :: "string \<Rightarrow> Application \<Rightarrow> Application" where
  "set_runtime_version version app =
     app\<lparr>app_runtime := map_option (\<lambda>(a, c). (a, c\<lparr>comp_version := version\<rparr>)) (app_runtime app)\<rparr>"

definition resolved_application :: "host_env \<Rightarrow> Application \<Rightarrow> Application startup" where
  "resolved_application e app =
     bindS (liftS (ResolveDependencies (host_fs e) (searchPaths e) app)) (\<lambda>(app', _).
       Started (set_runtime_version (product_version e) app'))"

definition SetupApplication :: "host_env \<Rightarrow> string list \<Rightarrow> logging \<Rightarrow> module_host startup" where
  "SetupApplication e argv L =
     bindS (AssertEnvironmentVariable e L HOME_ENV) (\<lambda>_.
     bindS (AssertEnvironmentVariable e L RUNTIME_ENV) (\<lambda>_.
     bindS (AssertEnvironmentVariable e L MODULES_ENV) (\<lambda>_.
     bindS (liftS (env_var e HOME_ENV)) (\<lambda>applicationHome.
     bindS (liftS (env_var e MODULES_ENV)) (\<lambda>modulePaths.
     bindS (liftS (NewApplicationAt (host_fs e) applicationHome)) (\<lambda>app.
     case app of
       None \<Rightarrow> Exits 105
     | Some app \<Rightarrow>
         bindS (resolved_application e (SetArguments_argv argv app)) (\<lambda>app'.
         Started ((blank_host app')\<lparr>module_paths := Tokenize modulePaths [] KR_LIB_SEP True\<rparr>))))))))"

definition ParseCommandLineArguments :: "host_env \<Rightarrow> module_host \<Rightarrow> module_host startup" where
  "ParseCommandLineArguments e hs =
     (let app = application hs;
          hs1 = hs\<lparr>debug := debug hs \<or> HasArgument app DEBUG_ARG,
                   waitForDebugger := waitForDebugger hs \<or> HasArgument app ATTACH_DEBUGGER_ARG,
                   consoleLogging := consoleLogging hs \<and> \<not> HasArgument app NO_CONSOLE_LOG_ARG,
                   fileLogging := fileLogging hs \<and> \<not> HasArgument app NO_FILE_LOG_ARG\<rparr>;
          hs2 = (if HasArgument app PROFILE_ARG
                 then hs1\<lparr>profilePath := GetArgumentValue app PROFILE_ARG,
                          profile := (GetArgumentValue app PROFILE_ARG \<noteq> [])\<rparr>
                 else hs1);
          hs3 = (if HasArgument app LOGPATH_ARG
                 then hs2\<lparr>logFilePath := GetArgumentValue app LOGPATH_ARG\<rparr> else hs2)
      in if \<not> HasArgument app BOOT_HOME_ARG then Started hs3
         else bindS (liftS (NewApplicationAt (host_fs e) (GetArgumentValue app BOOT_HOME_ARG))) (\<lambda>newApp.
              case newApp of
                None \<Rightarrow> Started hs3
              | Some newApp \<Rightarrow>
                  bindS (resolved_application e (SetArguments (app_arguments app) newApp))
                    (\<lambda>newApp'. Started (hs3\<lparr>application := newApp'\<rparr>))))"

definition debug_from_environment :: "host_env \<Rightarrow> module_host \<Rightarrow> module_host" where
  "debug_from_environment e hs =
     (case env_var e DEBUG_ENV of
        None \<Rightarrow> hs
      | Some v \<Rightarrow> hs\<lparr>debug := (v = ''true'' \<or> v = ''yes'' \<or> v = ''1'')\<rparr>)"

definition SetupLogging :: "host_env \<Rightarrow> module_host \<Rightarrow> logging \<Rightarrow> (module_host \<times> logging) startup" where
  "SetupLogging e hs L =
     bindS (if \<not> fileLogging hs then Started []
            else if logFilePath hs = []
            then liftS (Join [data_directory e (app_id (application hs)), ''tiapp.log''])
            else Started (logFilePath hs)) (\<lambda>path.
     Started (hs\<lparr>logFilePath := path\<rparr>,
       Logger_Initialize (product_name e) (consoleLogging hs) path (log_opens e path)
         (GetLevel (debug hs) (app_logLevel (application hs))) L))"

definition Host_new :: "host_env \<Rightarrow> string list \<Rightarrow> logging \<Rightarrow> (module_host \<times> logging) startup" where
  "Host_new e argv L =
     bindS (SetupApplication e argv L) (\<lambda>hs.
     bindS (ParseCommandLineArguments e hs) (\<lambda>hs'.
     SetupLogging e (debug_from_environment e hs') L))"

definition GetCommandLineArgCount :: "module_host \<Rightarrow> nat" where
  "GetCommandLineArgCount hs = length (app_arguments (application hs))"

definition GetCommandLineArg :: "int \<Rightarrow> module_host \<Rightarrow> thrown + string option" where
  "GetCommandLineArg index hs =
     (let args = app_arguments (application hs)
      in if int (length args) > index
         then if index < 0 then Inl Throws_other else Inr (Some (c_str (args ! nat index)))
         else Inr None)"

section \<open>Running and exiting\<close>

text \<open>The main loop of GTK is an argument: it leaves the host in some state and returns or throws.
  \<^verbatim>\<open>RunLoop\<close> of the Linux host ends after one run of it. The result is the exit code.\<close>

definition StopProfiling :: "module_host \<Rightarrow> module_host" where
  "StopProfiling hs = hs\<lparr>profile := False\<rparr>"

definition run_main_loop :: "(module_host \<Rightarrow> thrown option \<times> module_host) \<Rightarrow> unit H" where
  "run_main_loop gtk_main =
     bindH (modifyH (\<lambda>hs. hs\<lparr>running := True\<rparr>)) (\<lambda>_.
     bindH (getH (\<lambda>hs. runUILoop hs \<and> running hs)) (\<lambda>loop.
     if loop
     then (\<lambda>hs. case gtk_main hs of (None, hs') \<Rightarrow> (Inr (), hs') | (Some t, hs') \<Rightarrow> (Inl (Thrown t), hs'))
     else retH ()))"

definition is_ValueException :: "thrown \<Rightarrow> bool" where
  "is_ValueException t \<longleftrightarrow> t \<noteq> Throws_other"

definition Run :: "module_code \<Rightarrow> (module_host \<Rightarrow> thrown option \<times> module_host) \<Rightarrow> nat \<Rightarrow> int H" where
  "Run E gtk_main n =
     bindH (tryH is_ValueException
       (bindH (AddModuleProvider (ScanInvalidModuleFiles E n) HostProvider) (\<lambda>_. LoadModules E n)))
       (\<lambda>loaded.
     case loaded of
       None \<Rightarrow> retH 1
     | Some _ \<Rightarrow>
         bindH (tryH is_ValueException (run_main_loop gtk_main)) (\<lambda>_.
         bindH UnloadModuleProviders (\<lambda>_.
         bindH (UnloadModules E n) (\<lambda>_.
         bindH (modifyH StopProfiling) (\<lambda>_.
         getH exitCode)))))"

text \<open>\<^verbatim>\<open>Exit\<close> fires the exit event at the global object; a listener may keep the program running.\<close>

definition Host_Exit :: "string \<Rightarrow> vt \<Rightarrow> addr \<Rightarrow> int \<Rightarrow> module_host \<Rightarrow> module_host M" where
  "Host_Exit what V rootObj code hs =
     bindM (KEventObject_FireRootEventNamed what V rootObj ''exit'') (\<lambda>proceed.
     retM (if proceed then hs\<lparr>running := False, exitCode := code\<rparr> else hs))"

end
