(* ===== verification/Kroll_HostLaws.thy ===== *)
theory Kroll_HostLaws
  imports Kroll_Host "HOL-Library.Sublist"
begin

text \<open>
  Correctness of the module registry of the host: the rescan of unrecognised files ends and leaves
  no file that a provider recognises, loading starts every loaded module, a provider that is added
  later is served at once, and unloading stops all modules before it unloads them.

  Module code can call the host and so enter a rescan from inside an operation. The contract of the
  rescan is the locale \<^verbatim>\<open>rescan\<close>; the operations that run module code are verified inside it, and it
  is interpreted on \<^const>\<open>ScanInvalidModuleFiles\<close>.
\<close>

lemmas H_defs = retH_def throwH_def bindH_def getH_def modifyH_def

section \<open>The invariant and the contract\<close>

text \<open>No registered provider recognises a file that is waiting.\<close>

definition settled :: "module_code \<Rightarrow> module_host \<Rightarrow> bool" where
  "settled E hs \<longleftrightarrow> (\<forall>f \<in> set (invalid_module_files hs). \<forall>p \<in> set (module_providers hs).
     provider_IsModule E p f = Some False)"

definition started :: "module_host \<Rightarrow> Module \<Rightarrow> bool" where
  "started hs m \<longleftrightarrow> On_Start (mod_addr m) \<in> set (trace hs)"

definition unstarted :: "module_host \<Rightarrow> Module set" where
  "unstarted hs = {m \<in> set (loadedModules hs). \<not> started hs m}"

text \<open>What an operation that runs module code guarantees of the host's state.\<close>

definition progress :: "module_code \<Rightarrow> module_host \<Rightarrow> module_host \<Rightarrow> bool" where
  "progress E hs hs' \<longleftrightarrow>
     autoScan hs' = autoScan hs
     \<and> subseq (invalid_module_files hs') (invalid_module_files hs)
     \<and> (\<not> autoScan hs \<longrightarrow> invalid_module_files hs' = invalid_module_files hs
          \<and> loadedModules hs' = loadedModules hs)
     \<and> (autoScan hs \<longrightarrow> settled E hs \<longrightarrow> settled E hs')
     \<and> prefix (trace hs) (trace hs')
     \<and> unstarted hs' \<subseteq> unstarted hs"

definition can_scan :: "nat \<Rightarrow> module_host \<Rightarrow> bool" where
  "can_scan K hs \<longleftrightarrow> (autoScan hs \<longrightarrow> length (invalid_module_files hs) < K)"

definition steps :: "module_code \<Rightarrow> nat \<Rightarrow> 'a H \<Rightarrow> (module_host \<Rightarrow> 'a \<Rightarrow> module_host \<Rightarrow> bool) \<Rightarrow> bool" where
  "steps E K m Q \<longleftrightarrow> (\<forall>hs r hs'. can_scan K hs \<longrightarrow> m hs = (r, hs') \<longrightarrow>
     (case r of
        Inl e \<Rightarrow> e \<noteq> HostNoFuel \<and> (\<not> autoScan hs \<longrightarrow> progress E hs hs')
      | Inr x \<Rightarrow> progress E hs hs' \<and> Q hs x hs'))"

locale rescan =
  fixes E :: module_code and scan :: "unit H" and K :: nat
  assumes scan_returns: "\<lbrakk>length (invalid_module_files hs) < K; scan hs = (Inl e, hs')\<rbrakk> \<Longrightarrow> e \<noteq> HostNoFuel"
    and scan_progress: "\<lbrakk>length (invalid_module_files hs) < K; scan hs = (Inr x, hs')\<rbrakk> \<Longrightarrow>
          autoScan hs' \<and> subseq (invalid_module_files hs') (invalid_module_files hs) \<and> settled E hs'
          \<and> prefix (trace hs) (trace hs') \<and> unstarted hs' \<subseteq> unstarted hs"

section \<open>Rules for the operations\<close>

lemma progress_refl [simp]: "progress E hs hs"
  by (simp add: progress_def)

lemma progress_trans: "progress E hs hs1 \<Longrightarrow> progress E hs1 hs2 \<Longrightarrow> progress E hs hs2"
  by (auto simp: progress_def intro: subseq_order.trans prefix_order.trans)

lemma progress_can_scan: "progress E hs hs' \<Longrightarrow> can_scan K hs \<Longrightarrow> can_scan K hs'"
  by (auto simp: progress_def can_scan_def dest: list_emb_length)

lemma started_mono: "prefix (trace hs) (trace hs') \<Longrightarrow> started hs m \<Longrightarrow> started hs' m"
  by (auto simp: started_def prefix_def)

lemma steps_ret: "(\<And>hs. Q hs x hs) \<Longrightarrow> steps E K (retH x) Q"
  by (simp add: steps_def retH_def)

lemma steps_throw: "e \<noteq> HostNoFuel \<Longrightarrow> steps E K (throwH e) Q"
  by (simp add: steps_def throwH_def)

lemma steps_get: "(\<And>hs. Q hs (f hs) hs) \<Longrightarrow> steps E K (getH f) Q"
  by (simp add: steps_def getH_def)

lemma steps_modify: "(\<And>hs. progress E hs (f hs)) \<Longrightarrow> (\<And>hs. Q hs () (f hs)) \<Longrightarrow> steps E K (modifyH f) Q"
  by (simp add: steps_def modifyH_def)

lemma steps_bind:
  assumes m: "steps E K m Q1" and f: "\<And>x. steps E K (f x) (Q2 x)"
    and Q: "\<And>hs x hs1 y hs2. Q1 hs x hs1 \<Longrightarrow> progress E hs hs1 \<Longrightarrow> progress E hs1 hs2 \<Longrightarrow>
       Q2 x hs1 y hs2 \<Longrightarrow> Q hs y hs2"
  shows "steps E K (bindH m f) Q"
proof -
  have "case r of Inl e \<Rightarrow> e \<noteq> HostNoFuel \<and> (\<not> autoScan hs \<longrightarrow> progress E hs hs2)
      | Inr y \<Rightarrow> progress E hs hs2 \<and> Q hs y hs2"
    if can: "can_scan K hs" and run: "bindH m f hs = (r, hs2)" for hs r hs2
  proof (cases "m hs")
    case (Pair r1 hs1)
    show ?thesis
    proof (cases r1)
      case (Inl e)
      then show ?thesis using m can run Pair by (fastforce simp: steps_def bindH_def)
    next
      case (Inr x)
      have 1: "progress E hs hs1" "Q1 hs x hs1"
        using m can Pair Inr unfolding steps_def by fastforce+
      have "f x hs1 = (r, hs2)" using run Pair Inr by (simp add: bindH_def)
      moreover have "autoScan hs1 = autoScan hs" using 1(1) by (simp add: progress_def)
      ultimately show ?thesis
        using f [of x] progress_can_scan [OF 1(1) can] progress_trans [OF 1(1)] Q [OF 1(2,1)]
        unfolding steps_def by (cases r) fastforce+
    qed
  qed
  then show ?thesis unfolding steps_def by blast
qed

lemma steps_weaken:
  "steps E K m Q \<Longrightarrow> (\<And>hs x hs'. Q hs x hs' \<Longrightarrow> progress E hs hs' \<Longrightarrow> Q' hs x hs') \<Longrightarrow> steps E K m Q'"
  unfolding steps_def by (fastforce split: sum.splits)

lemma remove_progress: "progress E hs (hs\<lparr>module_providers := remove1 p (module_providers hs)\<rparr>)"
  by (auto simp: progress_def settled_def unstarted_def started_def dest: notin_set_remove1)

lemma steps_RemoveModuleProvider: "steps E K (RemoveModuleProvider p) (\<lambda>_ _ _. True)"
  unfolding RemoveModuleProvider_def by (rule steps_modify [OF remove_progress]) simp

lemma unstarted_push [simp]: "unstarted (push_provider p hs) = unstarted hs"
  by (simp add: unstarted_def started_def push_provider_def)

lemma push_provider_simps [simp]:
  "autoScan (push_provider p hs) = autoScan hs"
  "invalid_module_files (push_provider p hs) = invalid_module_files hs"
  "trace (push_provider p hs) = trace hs"
  "loadedModules (push_provider p hs) = loadedModules hs"
  by (simp_all add: push_provider_def)

lemma log_event_progress: "progress E hs (log_event e hs)"
  by (auto simp: progress_def log_event_def settled_def unstarted_def started_def)

context rescan
begin

lemma steps_AddModuleProvider: "steps E K (AddModuleProvider scan p) (\<lambda>_ _ _. True)"
proof -
  have "case r of Inl e \<Rightarrow> e \<noteq> HostNoFuel \<and> (\<not> autoScan hs \<longrightarrow> progress E hs hs')
      | Inr x \<Rightarrow> progress E hs hs'"
    if can: "can_scan K hs" and run: "AddModuleProvider scan p hs = (r, hs')" for hs r hs'
  proof (cases "autoScan hs")
    case True
    then have len: "length (invalid_module_files (push_provider p hs)) < K"
        and scan: "scan (push_provider p hs) = (r, hs')"
      using can run by (simp_all add: can_scan_def AddModuleProvider_def H_defs)
    show ?thesis
    proof (cases r)
      case (Inl e)
      then show ?thesis using scan_returns [OF len] scan True by simp
    next
      case (Inr x)
      then show ?thesis using scan_progress [OF len] scan True by (simp add: progress_def)
    qed
  next
    case False
    then show ?thesis
      using run by (auto simp: AddModuleProvider_def H_defs progress_def)
  qed
  then show ?thesis unfolding steps_def by (fastforce split: sum.splits)
qed

lemma steps_run_calls: "steps E K (run_calls scan cs) (\<lambda>_ _ _. True)"
proof (induction cs)
  case Nil
  then show ?case by (simp add: steps_ret)
next
  case (Cons c cs)
  then show ?case
    by (cases c) (auto intro: steps_bind [OF steps_AddModuleProvider]
        steps_bind [OF steps_RemoveModuleProvider])
qed

lemma steps_call_hook:
  "steps E K (call_hook f event scan m) (\<lambda>hs _ hs'. prefix (trace hs @ [event (mod_addr m)]) (trace hs'))"
proof -
  have "steps E K (getH (f m)) (\<lambda>_ _ _. True)" by (rule steps_get) simp
  moreover have "steps E K (case result of None \<Rightarrow> retH () | Some t \<Rightarrow> throwH (Thrown t)) (\<lambda>_ _ _. True)"
    for result
    by (cases result) (auto intro: steps_ret steps_throw)
  ultimately have rest: "steps E K (bindH (getH (f m)) (\<lambda>(calls, result).
      bindH (run_calls scan calls) (\<lambda>_. case result of None \<Rightarrow> retH () | Some t \<Rightarrow> throwH (Thrown t))))
      (\<lambda>_ _ _. True)"
    by (auto intro!: steps_bind [of _ _ _ "\<lambda>_ _ _. True" _ "\<lambda>_ _ _ _. True"] steps_run_calls)
  have "steps E K (modifyH (log_event (event (mod_addr m)))) (\<lambda>hs _ hs'. trace hs' = trace hs @ [event (mod_addr m)])"
    by (rule steps_modify [OF log_event_progress]) (simp add: log_event_def)
  then show ?thesis
    unfolding call_hook_def
    by (rule steps_bind [OF _ rest]) (auto simp: progress_def prefix_def)
qed

text \<open>The events that starting modules adds to the trace.\<close>

lemma steps_StartModules_events:
  "steps E K (StartModules E' scan ms)
     (\<lambda>hs _ hs'. \<forall>m \<in> set ms. \<exists>ys. trace hs' = trace hs @ ys \<and> On_Start (mod_addr m) \<in> set ys)"
proof (induction ms)
  case Nil
  then show ?case by (simp add: steps_ret)
next
  case (Cons m ms)
  show ?case
    unfolding StartModules.simps Module_Start_def
    by (rule steps_bind [OF steps_call_hook Cons.IH]) (fastforce simp: progress_def prefix_def)
qed

lemma steps_StartModules:
  "steps E K (StartModules E' scan ms) (\<lambda>_ _ hs'. \<forall>m \<in> set ms. started hs' m)"
  by (rule steps_weaken [OF steps_StartModules_events]) (fastforce simp: started_def)

end

text \<open>While the rescan is switched off no contract is needed.\<close>

interpretation off: rescan E scan 0 for E scan
  by unfold_locales simp_all

section \<open>Loading a module\<close>

text \<open>Preparing a module and creating it changes none of the members below.\<close>

definition same_registry :: "module_host \<Rightarrow> module_host \<Rightarrow> bool" where
  "same_registry hs hs' \<longleftrightarrow>
     module_providers hs' = module_providers hs \<and> loadedModules hs' = loadedModules hs
     \<and> invalid_module_files hs' = invalid_module_files hs \<and> autoScan hs' = autoScan hs
     \<and> trace hs' = trace hs"

definition prepares :: "'a H \<Rightarrow> bool" where
  "prepares m \<longleftrightarrow> (\<forall>hs r hs'. m hs = (r, hs') \<longrightarrow> same_registry hs hs' \<and> r \<noteq> Inl HostNoFuel)"

named_theorems prepares

lemma prepares_basic [prepares]:
  "prepares (retH x)" "prepares (getH f)" "e \<noteq> HostNoFuel \<Longrightarrow> prepares (throwH e)"
  "prepares (sumH s)" "e \<noteq> HostNoFuel \<Longrightarrow> prepares (liftH e v)" "prepares (new_module p z)"
  by (auto simp: prepares_def same_registry_def H_defs sumH_def liftH_def new_module_def
      split: sum.splits option.splits prod.splits)

lemma prepares_modify [prepares]: "(\<And>hs. same_registry hs (f hs)) \<Longrightarrow> prepares (modifyH f)"
  by (simp add: prepares_def modifyH_def)

lemma prepares_bind [prepares]: "prepares m \<Longrightarrow> (\<And>x. prepares (f x)) \<Longrightarrow> prepares (bindH m f)"
  unfolding prepares_def bindH_def same_registry_def
  by (clarsimp split: prod.splits sum.splits) (metis Inl_Inr_False sum.inject(1) sum.exhaust)

lemma prepares_try [prepares]: "prepares m \<Longrightarrow> prepares (tryH c m)"
  unfolding prepares_def tryH_def
  by (auto split: prod.splits sum.splits host_exn.splits if_splits option.splits)

lemma prepares_copy_files [prepares]: "prepares (copy_files E fs)"
  by (induction fs) (auto intro!: prepares simp: same_registry_def)

lemma prepares_CreateModule [prepares]: "prepares (CreateModule E p path)"
  by (cases p) (auto intro!: prepares)

lemma prepares_copy_directory [prepares]: "prepares (copy_directory E dir)"
  unfolding copy_directory_def by (auto split: option.splits intro!: prepares)

lemma prepares_resources [prepares]: "prepares (CopyModuleAppResources E path)"
  unfolding CopyModuleAppResources_def by (auto intro!: prepares)

lemma prepares_manifest [prepares]: "prepares (ReadModuleManifest E path)"
  unfolding ReadModuleManifest_def Let_def
  by (auto intro!: prepares simp: same_registry_def split: option.splits)

lemma prepares_prepare_module [prepares]: "prepares (prepare_module E path provider)"
  unfolding prepare_module_def by (auto intro!: prepares)

text \<open>The three ways a module load can go.\<close>

lemma LoadModule_cases:
  assumes run: "LoadModule E scan path provider hs = (r, hs')"
  obtains (present) "r = Inr None" "hs' = hs"
    | (failed) r1 where "tryH (\<lambda>_. True) (bindH (prepare_module E path provider) (new_module provider)) hs = (r1, hs')"
        "\<And>m. r1 \<noteq> Inr (Some m)" "r = Inr None \<or> (\<exists>e. r = Inl e \<and> r1 = Inl e)"
    | (created) m hs1 r2 hs2 where
        "tryH (\<lambda>_. True) (bindH (prepare_module E path provider) (new_module provider)) hs = (Inr (Some m), hs1)"
        "Module_Initialize E scan m hs1 = (r2, hs2)"
        "r = Inr (Some m) \<and> (hs' = hs2 \<or> hs' = register_module m path hs2)
           \<or> (hs' = hs2 \<and> (\<exists>e. r = Inl e \<and> (r2 = Inl e \<or> (\<exists>t. e = Thrown t))))"
proof (cases "GetModuleByPath path hs")
  case (Some m)
  then show thesis using present run by (auto simp: LoadModule_def H_defs)
next
  case None
  obtain r1 hs1 where create:
    "tryH (\<lambda>_. True) (bindH (prepare_module E path provider) (new_module provider)) hs = (r1, hs1)"
    by fastforce
  show thesis
  proof (cases "\<exists>m. r1 = Inr (Some m)")
    case False
    then have "hs' = hs1 \<and> (r = Inr None \<or> (\<exists>e. r = Inl e \<and> r1 = Inl e))"
      using run None create
      by (auto simp: LoadModule_def bindH_def getH_def retH_def split: sum.splits option.splits)
    then show thesis using failed create False by blast
  next
    case True
    then obtain m where m: "r1 = Inr (Some m)" by auto
    obtain r2 hs2 where init: "Module_Initialize E scan m hs1 = (r2, hs2)" by fastforce
    have "r = Inr (Some m) \<and> (hs' = hs2 \<or> hs' = register_module m path hs2)
        \<or> (hs' = hs2 \<and> (\<exists>e. r = Inl e \<and> (r2 = Inl e \<or> (\<exists>t. e = Thrown t))))"
      using run None create m init
      by (auto simp: LoadModule_def bindH_def getH_def modifyH_def retH_def tryH_def
          split: sum.splits host_exn.splits option.splits)
    then show thesis using created create init m by blast
  qed
qed

text \<open>What loading guarantees while the rescan is off. A module whose \<^verbatim>\<open>Initialize\<close> throws is returned
  though it is not registered.\<close>

lemma LoadModule_off:
  assumes off: "\<not> autoScan hs" and run: "LoadModule E scan path provider hs = (r, hs')"
  shows "\<not> autoScan hs' \<and> invalid_module_files hs' = invalid_module_files hs
    \<and> prefix (trace hs) (trace hs')
    \<and> (case r of
         Inl e \<Rightarrow> e \<noteq> HostNoFuel
       | Inr None \<Rightarrow> module_providers hs' = module_providers hs \<and> loadedModules hs' = loadedModules hs
       | Inr (Some m) \<Rightarrow> set (loadedModules hs') \<subseteq> insert m (set (loadedModules hs)))"
proof -
  have create: "same_registry hs hs1 \<and> r1 \<noteq> Inl HostNoFuel"
    if "tryH (\<lambda>_. True) (bindH (prepare_module E path provider) (new_module provider)) hs = (r1, hs1)"
    for r1 hs1
  proof -
    have "prepares (tryH (\<lambda>_. True) (bindH (prepare_module E path provider) (new_module provider)))"
      by (auto intro!: prepares)
    then show ?thesis using that unfolding prepares_def by blast
  qed
  from run show ?thesis
  proof (cases rule: LoadModule_cases)
    case present
    then show ?thesis using off by simp
  next
    case (failed r1)
    then show ?thesis using create [OF failed(1)] off by (auto simp: same_registry_def)
  next
    case (created m hs1 r2 hs2)
    have same: "same_registry hs hs1" using create [OF created(1)] by simp
    then have "\<not> autoScan hs1" using off by (simp add: same_registry_def)
    then have p: "progress E hs1 hs2" and r2: "r2 \<noteq> Inl HostNoFuel"
      using off.steps_call_hook [of E "on_Initialize E" On_Initialize scan m] created(2)
      unfolding steps_def Module_Initialize_def can_scan_def by (fastforce split: sum.splits)+
    then show ?thesis
      using created(3) same off by (auto simp: progress_def same_registry_def register_module_def)
  qed
qed

section \<open>The rescan\<close>

lemma find_provider_None:
  "find_provider E ps f = Some None \<longleftrightarrow> (\<forall>p \<in> set ps. provider_IsModule E p f = Some False)"
  by (induction ps) (auto split: option.splits bool.splits)

definition scan_post :: "module_code \<Rightarrow> string list \<Rightarrow> string list \<Rightarrow> Module list \<Rightarrow> module_host \<Rightarrow>
    Module list \<Rightarrow> module_host \<Rightarrow> bool" where
  "scan_post E before files acc hs acc' hs' \<longleftrightarrow>
     \<not> autoScan hs' \<and> prefix (trace hs) (trace hs')
     \<and> (\<exists>ks new. invalid_module_files hs' = before @ ks \<and> subseq ks files \<and> acc' = acc @ new
          \<and> length ks + length new \<le> length files
          \<and> set (loadedModules hs') \<subseteq> set (loadedModules hs) \<union> set new
          \<and> (new = [] \<longrightarrow> module_providers hs' = module_providers hs
               \<and> (\<forall>f \<in> set ks. \<forall>p \<in> set (module_providers hs). provider_IsModule E p f = Some False)))"

lemma scan_post_skip:
  assumes "\<forall>p \<in> set (module_providers hs). provider_IsModule E p path = Some False"
    and post: "scan_post E (before @ [path]) files acc hs acc' hs'"
  shows "scan_post E before (path # files) acc hs acc' hs'"
proof -
  obtain ks new where "invalid_module_files hs' = before @ path # ks" "subseq ks files"
      "acc' = acc @ new" "length ks + length new \<le> length files"
      "set (loadedModules hs') \<subseteq> set (loadedModules hs) \<union> set new"
      "new = [] \<longrightarrow> module_providers hs' = module_providers hs
         \<and> (\<forall>f \<in> set ks. \<forall>p \<in> set (module_providers hs). provider_IsModule E p f = Some False)"
    using post by (auto simp: scan_post_def)
  then show ?thesis
    using assms unfolding scan_post_def
    by (intro conjI exI [of _ "path # ks"] exI [of _ new]) auto
qed

lemma scan_post_load:
  assumes off: "\<not> autoScan hs" and load: "LoadModule E scan path provider hs = (Inr m, hs1)"
    and post: "scan_post E before files (case m of None \<Rightarrow> acc | Some m \<Rightarrow> acc @ [m])
       (erase_file (length before) hs1) acc' hs'"
  shows "scan_post E before (path # files) acc hs acc' hs'"
proof -
  note laws = LoadModule_off [OF off load]
  obtain ks new where new: "invalid_module_files hs' = before @ ks" "subseq ks files"
      "acc' = (case m of None \<Rightarrow> acc | Some m \<Rightarrow> acc @ [m]) @ new" "length ks + length new \<le> length files"
      "set (loadedModules hs') \<subseteq> set (loadedModules hs1) \<union> set new"
      "new = [] \<longrightarrow> module_providers hs' = module_providers hs1
         \<and> (\<forall>f \<in> set ks. \<forall>p \<in> set (module_providers hs1). provider_IsModule E p f = Some False)"
    using post by (auto simp: scan_post_def erase_file_def)
  have "prefix (trace hs) (trace hs')" "\<not> autoScan hs'"
    using laws post by (auto simp: scan_post_def erase_file_def intro: prefix_order.trans)
  moreover have "subseq ks (path # files)" using new(2) by (rule list_emb_Cons)
  ultimately show ?thesis
    using new laws unfolding scan_post_def
    by (cases m; intro conjI exI [of _ ks] exI [of _ "case m of None \<Rightarrow> new | Some m \<Rightarrow> m # new"]; auto)
qed

lemma scan_files_off:
  assumes "\<not> autoScan hs" "invalid_module_files hs = before @ files"
    and "scan_files E scan (length before) files acc hs = (r, hs')"
  shows "case r of Inl e \<Rightarrow> e \<noteq> HostNoFuel | Inr acc' \<Rightarrow> scan_post E before files acc hs acc' hs'"
  using assms
proof (induction files arbitrary: before acc hs)
  case Nil
  then show ?case by (auto simp: retH_def scan_post_def)
next
  case (Cons path files)
  note off = \<open>\<not> autoScan hs\<close> and inv = \<open>invalid_module_files hs = before @ path # files\<close>
  consider (throw) "find_provider E (module_providers hs) path = None"
    | (skip) "find_provider E (module_providers hs) path = Some None"
    | (load) provider where "find_provider E (module_providers hs) path = Some (Some provider)"
    by (cases "find_provider E (module_providers hs) path") auto
  then show ?case
  proof cases
    case throw
    then show ?thesis using Cons.prems by (auto simp: FindModuleProvider_def H_defs liftH_def)
  next
    case skip
    then have "scan_files E scan (length (before @ [path])) files acc hs = (r, hs')"
      using Cons.prems(3) by (simp add: FindModuleProvider_def H_defs liftH_def)
    from Cons.IH [OF off _ this] inv
    have "case r of Inl e \<Rightarrow> e \<noteq> HostNoFuel
        | Inr acc' \<Rightarrow> scan_post E (before @ [path]) files acc hs acc' hs'" by simp
    then show ?thesis using skip scan_post_skip by (cases r) (auto simp: find_provider_None)
  next
    case load
    obtain r1 hs1 where run: "LoadModule E scan path provider hs = (r1, hs1)" by fastforce
    note laws = LoadModule_off [OF off run]
    have rest: "(case r1 of Inl e \<Rightarrow> (Inl e, hs1)
        | Inr m \<Rightarrow> scan_files E scan (length before) files (case m of None \<Rightarrow> acc | Some m \<Rightarrow> acc @ [m])
            (erase_file (length before) hs1)) = (r, hs')"
      using Cons.prems(3) load run
      by (simp add: FindModuleProvider_def H_defs liftH_def split: sum.splits)
    show ?thesis
    proof (cases r1)
      case (Inl e)
      then show ?thesis using rest laws by auto
    next
      case (Inr m)
      have "invalid_module_files (erase_file (length before) hs1) = before @ files"
          "\<not> autoScan (erase_file (length before) hs1)"
        using laws inv by (simp_all add: erase_file_def)
      then show ?thesis
        using Cons.IH rest Inr scan_post_load [OF off run [unfolded Inr]] by (cases r) fastforce+
    qed
  qed
qed

text \<open>The guarantee of a rescan that returns.\<close>

definition rescanned :: "module_code \<Rightarrow> module_host \<Rightarrow> module_host \<Rightarrow> bool" where
  "rescanned E hs hs' \<longleftrightarrow>
     autoScan hs' \<and> subseq (invalid_module_files hs') (invalid_module_files hs) \<and> settled E hs'
     \<and> prefix (trace hs) (trace hs') \<and> unstarted hs' \<subseteq> unstarted hs"

lemma rescanned_after:
  assumes "rescanned E hs1 hs2" "subseq (invalid_module_files hs1) (invalid_module_files hs)"
    "prefix (trace hs) (trace hs1)" "unstarted hs1 \<subseteq> unstarted hs"
  shows "rescanned E hs (hs2\<lparr>autoScan := True\<rparr>)"
proof -
  have "unstarted (hs2\<lparr>autoScan := True\<rparr>) = unstarted hs2" by (simp add: unstarted_def started_def)
  then show ?thesis
    using assms by (auto simp: rescanned_def settled_def
        intro: subseq_order.trans prefix_order.trans)
qed

lemma unstarted_loaded:
  assumes "set (loadedModules hs') \<subseteq> set (loadedModules hs) \<union> set new"
    "prefix (trace hs) (trace hs')" "\<forall>m \<in> set new. started hs' m"
  shows "unstarted hs' \<subseteq> unstarted hs"
  using assms started_mono by (fastforce simp: unstarted_def)

lemma scan_again:
  assumes IH: "\<And>hs r hs'. \<lbrakk>length (invalid_module_files hs) < n; ScanInvalidModuleFiles E n hs = (r, hs')\<rbrakk> \<Longrightarrow>
        case r of Inl e \<Rightarrow> e \<noteq> HostNoFuel | Inr _ \<Rightarrow> rescanned E hs hs'"
    and post: "\<not> autoScan hs1" "prefix (trace hs) (trace hs1)"
      "subseq (invalid_module_files hs1) (invalid_module_files hs)"
      "set (loadedModules hs1) \<subseteq> set (loadedModules hs) \<union> set new"
    and less: "length (invalid_module_files hs1) < n"
    and run: "bindH (StartModules E scan new) (\<lambda>_. ScanInvalidModuleFiles E n) hs1 = (r, after)"
  shows "case r of Inl e \<Rightarrow> e \<noteq> HostNoFuel | Inr _ \<Rightarrow> rescanned E hs after"
proof -
  obtain r2 hs2 where start: "StartModules E scan new hs1 = (r2, hs2)" by fastforce
  have r2: "case r2 of Inl e \<Rightarrow> e \<noteq> HostNoFuel
      | Inr _ \<Rightarrow> progress E hs1 hs2 \<and> (\<forall>m \<in> set new. started hs2 m)"
    using off.steps_StartModules [of E E scan new] start post(1)
    unfolding steps_def can_scan_def by (fastforce split: sum.splits)
  show ?thesis
  proof (cases r2)
    case (Inl e)
    then show ?thesis using run start r2 by (auto simp: bindH_def)
  next
    case (Inr u)
    then have 2: "progress E hs1 hs2" "\<forall>m \<in> set new. started hs2 m" using r2 by auto
    then have same: "invalid_module_files hs2 = invalid_module_files hs1"
        "loadedModules hs2 = loadedModules hs1" "prefix (trace hs) (trace hs2)"
      using post by (auto simp: progress_def intro: prefix_order.trans)
    have "ScanInvalidModuleFiles E n hs2 = (r, after)" using run start Inr by (simp add: bindH_def)
    then have r3: "case r of Inl e \<Rightarrow> e \<noteq> HostNoFuel | Inr _ \<Rightarrow> rescanned E hs2 after"
      using IH less same(1) by simp
    have "unstarted hs2 \<subseteq> unstarted hs"
      by (rule unstarted_loaded [OF _ same(3) 2(2)]) (simp add: same post)
    then have "rescanned E hs after" if "rescanned E hs2 after"
      using that same post(3)
      by (auto simp: rescanned_def intro: subseq_order.trans prefix_order.trans)
    then show ?thesis using r3 by (cases r) auto
  qed
qed

lemma scan_laws:
  assumes "length (invalid_module_files hs) < n" "ScanInvalidModuleFiles E n hs = (r, hs')"
  shows "case r of Inl e \<Rightarrow> e \<noteq> HostNoFuel | Inr _ \<Rightarrow> rescanned E hs hs'"
  using assms
proof (induction n arbitrary: hs r hs')
  case 0
  then show ?case by simp
next
  case (Suc n)
  let ?hs = "hs\<lparr>autoScan := False\<rparr>" and ?scan = "ScanInvalidModuleFiles E n"
  let ?restart = "\<lambda>new. if new = [] then retH () else bindH (StartModules E ?scan new) (\<lambda>_. ?scan)"
  obtain r1 hs1 where files: "scan_files E ?scan 0 (invalid_module_files hs) [] ?hs = (r1, hs1)"
    by fastforce
  have post: "case r1 of Inl e \<Rightarrow> e \<noteq> HostNoFuel
      | Inr acc \<Rightarrow> scan_post E [] (invalid_module_files hs) [] ?hs acc hs1"
    by (rule scan_files_off [of ?hs "[]"]) (use files in simp_all)
  show ?case
  proof (cases r1)
    case (Inl e)
    then show ?thesis using Suc.prems(2) files post by (auto simp: H_defs set_autoScan_def)
  next
    case (Inr new)
    then have 1: "\<not> autoScan hs1" "prefix (trace hs) (trace hs1)"
        "subseq (invalid_module_files hs1) (invalid_module_files hs)"
        "set (loadedModules hs1) \<subseteq> set (loadedModules hs) \<union> set new"
        "length (invalid_module_files hs1) + length new \<le> length (invalid_module_files hs)"
        "new = [] \<Longrightarrow> settled E hs1"
      using post by (auto simp: scan_post_def settled_def)
    obtain r2 hs2 where restart: "?restart new hs1 = (r2, hs2)" by fastforce
    have rest: "(case r2 of Inl e \<Rightarrow> (Inl e, hs2) | Inr _ \<Rightarrow> (Inr (), hs2\<lparr>autoScan := True\<rparr>)) = (r, hs')"
      using Suc.prems(2) files Inr restart
      by (cases "new = []") (auto simp: H_defs set_autoScan_def split: sum.splits)
    have again: "case r2 of Inl e \<Rightarrow> e \<noteq> HostNoFuel | Inr _ \<Rightarrow> rescanned E hs (hs2\<lparr>autoScan := True\<rparr>)"
    proof (cases "new = []")
      case True
      then have "r2 = Inr ()" "hs2 = hs1" using restart by (simp_all add: retH_def)
      then show ?thesis
        using 1 True unstarted_loaded [OF 1(4,2)]
        by (simp add: rescanned_def settled_def unstarted_def started_def)
    next
      case False
      then have "case r2 of Inl e \<Rightarrow> e \<noteq> HostNoFuel | Inr _ \<Rightarrow> rescanned E hs hs2"
        using scan_again [OF Suc.IH 1(1-4), where scan = ?scan and r = r2 and after = hs2] 1(5)
          Suc.prems(1) restart
        by (cases new) auto
      then show ?thesis using rescanned_after [of E hs hs2 hs] by (cases r2) auto
    qed
    then show ?thesis using rest by (cases r2) auto
  qed
qed

interpretation sc: rescan E "ScanInvalidModuleFiles E n" n for E n
  by unfold_locales (use scan_laws in \<open>fastforce simp: rescanned_def\<close>)+

section \<open>Loading all modules\<close>

text \<open>An upper bound on the files that wait for a provider once the module directories have been
  searched: more fuel than this is enough for every rescan.\<close>

definition listed_files :: "module_code \<Rightarrow> string list \<Rightarrow> nat" where
  "listed_files E dirs =
     sum_list (map (\<lambda>d. case DirectoryIterator E d of None \<Rightarrow> 0 | Some fs \<Rightarrow> length fs) dirs)"

definition finds :: "nat \<Rightarrow> unit H \<Rightarrow> bool" where
  "finds k m \<longleftrightarrow> (\<forall>hs r hs'. \<not> autoScan hs \<longrightarrow> m hs = (r, hs') \<longrightarrow>
     r \<noteq> Inl HostNoFuel \<and> \<not> autoScan hs'
     \<and> length (invalid_module_files hs') \<le> length (invalid_module_files hs) + k)"

lemma finds_bind:
  assumes "finds j m" "finds k m'"
  shows "finds (j + k) (bindH m (\<lambda>_. m'))"
  unfolding finds_def
proof (intro allI impI)
  fix hs r hs2
  assume off: "\<not> autoScan hs" and run: "bindH m (\<lambda>_. m') hs = (r, hs2)"
  obtain r1 hs1 where m: "m hs = (r1, hs1)" by fastforce
  then have 1: "r1 \<noteq> Inl HostNoFuel" "\<not> autoScan hs1"
      "length (invalid_module_files hs1) \<le> length (invalid_module_files hs) + j"
    using assms(1) off unfolding finds_def by blast+
  show "r \<noteq> Inl HostNoFuel \<and> \<not> autoScan hs2
     \<and> length (invalid_module_files hs2) \<le> length (invalid_module_files hs) + (j + k)"
  proof (cases r1)
    case (Inl e)
    then show ?thesis using run m 1 by (auto simp: bindH_def)
  next
    case (Inr u)
    then have "m' hs1 = (r, hs2)" using run m by (simp add: bindH_def)
    then have "r \<noteq> Inl HostNoFuel \<and> \<not> autoScan hs2
        \<and> length (invalid_module_files hs2) \<le> length (invalid_module_files hs1) + k"
      using assms(2) 1(2) unfolding finds_def by blast
    then show ?thesis using 1(3) by simp
  qed
qed

lemma finds_LoadModule: "finds 1 (bindH (LoadModule E scan path p) (\<lambda>_. retH ()))"
  unfolding finds_def bindH_def retH_def
  by (auto split: prod.splits sum.splits dest: LoadModule_off)

lemma finds_find_modules: "finds (length fs) (find_modules E scan fs)"
proof (induction fs)
  case Nil
  then show ?case by (simp add: finds_def retH_def)
next
  case (Cons f fs)
  obtain path d h where f: "f = (path, d, h)" by (rule prod_cases3)
  have "finds 1 (if d \<or> h then retH ()
      else if Host_IsModule path then bindH (LoadModule E scan path HostProvider) (\<lambda>_. retH ())
      else AddInvalidModuleFile path)"
    using finds_LoadModule by (auto simp: finds_def retH_def AddInvalidModuleFile_def modifyH_def)
  from finds_bind [OF this Cons.IH] show ?case by (simp add: f)
qed

lemma finds_find_all_modules: "finds (listed_files E dirs) (find_all_modules E scan dirs)"
proof (induction dirs)
  case Nil
  then show ?case by (simp add: finds_def retH_def listed_files_def)
next
  case (Cons d dirs)
  have "finds (case DirectoryIterator E d of None \<Rightarrow> 0 | Some fs \<Rightarrow> length fs) (FindBasicModules E scan d)"
    unfolding FindBasicModules_def
    by (cases "DirectoryIterator E d")
       (auto simp: finds_def liftH_def H_defs dest: finds_find_modules [unfolded finds_def, rule_format])
  from finds_bind [OF this Cons.IH] show ?case by (simp add: listed_files_def)
qed

lemma LoadModules_laws:
  assumes off: "\<not> autoScan hs"
    and fuel: "length (invalid_module_files hs) + listed_files E (module_paths hs) < n"
    and run: "LoadModules E n hs = (r, hs')"
  shows "case r of Inl e \<Rightarrow> e \<noteq> HostNoFuel | Inr _ \<Rightarrow> autoScan hs' \<and> settled E hs' \<and> unstarted hs' = {}"
proof -
  let ?scan = "ScanInvalidModuleFiles E n"
  obtain r1 hs1 where find: "find_all_modules E ?scan (module_paths hs) hs = (r1, hs1)" by fastforce
  then have "r1 \<noteq> Inl HostNoFuel \<and>
      length (invalid_module_files hs1) \<le> length (invalid_module_files hs) + listed_files E (module_paths hs)"
    using finds_find_all_modules off unfolding finds_def by blast
  then have 1: "r1 \<noteq> Inl HostNoFuel" "length (invalid_module_files hs1) < n" using fuel by simp_all
  obtain r2 hs2 where scan: "?scan hs1 = (r2, hs2)" by fastforce
  have 2: "case r2 of Inl e \<Rightarrow> e \<noteq> HostNoFuel | Inr _ \<Rightarrow> rescanned E hs1 hs2"
    by (rule scan_laws [OF 1(2) scan])
  obtain r3 hs3 where start: "StartModules E ?scan (loadedModules hs2) hs2 = (r3, hs3)" by fastforce
  have 3: "case r3 of Inl e \<Rightarrow> e \<noteq> HostNoFuel
      | Inr _ \<Rightarrow> progress E hs2 hs3 \<and> (\<forall>m \<in> set (loadedModules hs2). started hs3 m)"
    if "rescanned E hs1 hs2"
  proof -
    have "can_scan n hs2"
      using that 1(2) list_emb_length unfolding rescanned_def can_scan_def by fastforce
    then show ?thesis
      using sc.steps_StartModules [of E n E "loadedModules hs2"] start
      unfolding steps_def by (cases r3) fastforce+
  qed
  have "autoScan hs3 \<and> settled E hs3 \<and> unstarted hs3 = {}"
    if p: "rescanned E hs1 hs2" "progress E hs2 hs3" and all: "\<forall>m \<in> set (loadedModules hs2). started hs3 m"
  proof -
    have "unstarted hs3 \<subseteq> unstarted hs2" "prefix (trace hs2) (trace hs3)"
      using p by (auto simp: progress_def)
    then have "unstarted hs3 = {}" using all by (auto simp: unstarted_def)
    then show ?thesis using p by (auto simp: progress_def rescanned_def)
  qed
  moreover have "r = (case r1 of Inl e \<Rightarrow> Inl e | Inr _ \<Rightarrow> case r2 of Inl e \<Rightarrow> Inl e | Inr _ \<Rightarrow> r3)"
      "r = Inr () \<Longrightarrow> hs' = hs3\<lparr>autoScan := True\<rparr>"
    using run find scan start
    by (auto simp: LoadModules_def H_defs set_autoScan_def split: sum.splits)
  ultimately show ?thesis
    using 1(1) 2 3 by (auto simp: settled_def unstarted_def started_def split: sum.splits)
qed

section \<open>Loaded modules are distinct objects\<close>

text \<open>The loaded modules have different addresses, all handed out before; \<^verbatim>\<open>A\<close> holds addresses of
  modules that exist and are not registered.\<close>

definition wf_modules :: "nat set \<Rightarrow> module_host \<Rightarrow> bool" where
  "wf_modules A hs \<longleftrightarrow> distinct (map mod_addr (loadedModules hs))
     \<and> (\<forall>a \<in> A \<union> mod_addr ` set (loadedModules hs). a < modules_made hs)
     \<and> A \<inter> mod_addr ` set (loadedModules hs) = {}"

definition keeps :: "'a H \<Rightarrow> bool" where
  "keeps m \<longleftrightarrow> (\<forall>A hs r hs'. wf_modules A hs \<longrightarrow> m hs = (r, hs') \<longrightarrow> wf_modules A hs')"

named_theorems keeps

lemma keepsD: "keeps m \<Longrightarrow> wf_modules A hs \<Longrightarrow> m hs = (r, hs') \<Longrightarrow> wf_modules A hs'"
  by (auto simp: keeps_def)

lemma keeps_basic [keeps]:
  "keeps (retH x)" "keeps (getH f)" "keeps (throwH e)" "keeps (sumH s)" "keeps (liftH e v)"
  by (auto simp: keeps_def H_defs sumH_def liftH_def split: sum.splits option.splits)

lemma keeps_modify [keeps]:
  "(\<And>hs. loadedModules (f hs) = loadedModules hs \<and> modules_made (f hs) = modules_made hs) \<Longrightarrow> keeps (modifyH f)"
  by (simp add: keeps_def modifyH_def wf_modules_def)

lemma keeps_bind [keeps]:
  assumes m: "keeps m" and f: "\<And>x. keeps (f x)"
  shows "keeps (bindH m f)"
  unfolding keeps_def
proof (intro allI impI)
  fix A hs r hs'
  assume wf: "wf_modules A hs" and run: "bindH m f hs = (r, hs')"
  obtain r1 hs1 where 1: "m hs = (r1, hs1)" by fastforce
  have "wf_modules A hs1" by (rule keepsD [OF m wf 1])
  then show "wf_modules A hs'"
    using run 1 keepsD [OF f] by (cases r1) (fastforce simp: bindH_def)+
qed

lemma keeps_try [keeps]: "keeps m \<Longrightarrow> keeps (tryH c m)"
  unfolding keeps_def tryH_def
  by (auto split: prod.splits sum.splits host_exn.splits if_splits option.splits)

lemma keeps_copy_files [keeps]: "keeps (copy_files E fs)"
  by (induction fs) (auto intro!: keeps)

lemma keeps_CreateModule [keeps]: "keeps (CreateModule E p path)"
  by (cases p) (auto intro!: keeps)

lemma keeps_prepare [keeps]:
  "keeps (CopyModuleAppResources E path)" "keeps (ReadModuleManifest E path)"
  unfolding CopyModuleAppResources_def ReadModuleManifest_def copy_directory_def Let_def
  by (auto intro!: keeps split: option.splits)

lemma keeps_run_calls [keeps]: "keeps scan \<Longrightarrow> keeps (run_calls scan cs)"
  by (induction scan cs rule: run_calls.induct)
     (auto intro!: keeps simp: AddModuleProvider_def RemoveModuleProvider_def push_provider_def)

lemma keeps_call_hook [keeps]: "keeps scan \<Longrightarrow> keeps (call_hook f event scan m)"
  unfolding call_hook_def by (auto intro!: keeps split: option.splits simp: log_event_def)

lemma bindH_InrE:
  assumes "bindH m f hs = (Inr y, hs')"
  obtains x hs1 where "m hs = (Inr x, hs1)" "f x hs1 = (Inr y, hs')"
  using assms by (auto simp: bindH_def split: prod.splits sum.splits)

lemma create_reserves:
  assumes wf: "wf_modules A hs" and m: "keeps m"
    and run: "tryH (\<lambda>_. True) (bindH m (new_module p)) hs = (Inr (Some l), hs')"
  shows "wf_modules (insert (mod_addr l) A) hs' \<and> mod_addr l \<notin> A"
proof -
  have "bindH m (new_module p) hs = (Inr l, hs')"
    using run by (auto simp: tryH_def split: prod.splits sum.splits host_exn.splits option.splits)
  then obtain x hs1 where x: "m hs = (Inr x, hs1)" "new_module p x hs1 = (Inr l, hs')"
    by (rule bindH_InrE)
  have "wf_modules A hs1" by (rule keepsD [OF m wf x(1)])
  then show ?thesis
    using x(2) by (fastforce simp: new_module_def wf_modules_def less_Suc_eq split: prod.splits)
qed

lemma keeps_prepare_module [keeps]: "keeps (prepare_module E path provider)"
  unfolding prepare_module_def by (auto intro!: keeps)

lemma create_fails:
  assumes "wf_modules A hs" "keeps m" "tryH c (bindH m (new_module p)) hs = (r, hs')" "\<And>l. r \<noteq> Inr (Some l)"
  shows "wf_modules A hs'"
proof -
  obtain r0 hs0 where m: "m hs = (r0, hs0)" by fastforce
  then have "hs' = hs0" using assms(3,4)
    by (auto simp: tryH_def bindH_def new_module_def
        split: prod.splits sum.splits host_exn.splits if_splits option.splits)
  then show ?thesis using keepsD [OF assms(2,1) m] by simp
qed

lemma keeps_LoadModule [keeps]:
  assumes scan: "keeps scan"
  shows "keeps (LoadModule E scan path provider)"
  unfolding keeps_def
proof (intro allI impI)
  fix A hs r hs'
  assume wf: "wf_modules A hs" and run: "LoadModule E scan path provider hs = (r, hs')"
  from run show "wf_modules A hs'"
  proof (cases rule: LoadModule_cases)
    case present
    then show ?thesis using wf by simp
  next
    case (failed r1)
    then show ?thesis by (intro create_fails [OF wf keeps_prepare_module])
  next
    case (created l hs1 r2 hs2)
    have l: "wf_modules (insert (mod_addr l) A) hs1" "mod_addr l \<notin> A"
      using create_reserves [OF wf keeps_prepare_module created(1)] by simp_all
    moreover have "keeps (Module_Initialize E scan l)"
      unfolding Module_Initialize_def by (rule keeps_call_hook [OF scan])
    ultimately have "wf_modules (insert (mod_addr l) A) hs2" using created(2) keepsD by blast
    then show ?thesis
      using created(3) l(2) unfolding wf_modules_def register_module_def by (elim disjE conjE; simp)
  qed
qed

lemma keeps_scan_files [keeps]: "keeps scan \<Longrightarrow> keeps (scan_files E scan i files acc)"
  by (induction files arbitrary: i acc)
     (auto intro!: keeps split: option.splits simp: FindModuleProvider_def erase_file_def)

lemma keeps_StartModules [keeps]: "keeps scan \<Longrightarrow> keeps (StartModules E scan ms)"
  by (induction ms) (auto intro!: keeps simp: Module_Start_def)

lemma keeps_ScanInvalidModuleFiles [keeps]: "keeps (ScanInvalidModuleFiles E n)"
  by (induction n) (auto intro!: keeps simp: set_autoScan_def)

lemma keeps_find_modules [keeps]: "keeps scan \<Longrightarrow> keeps (find_modules E scan fs)"
  by (induction E scan fs rule: find_modules.induct)
     (auto intro!: keeps simp: AddInvalidModuleFile_def)

lemma keeps_find_all_modules [keeps]: "keeps scan \<Longrightarrow> keeps (find_all_modules E scan dirs)"
  by (induction dirs) (auto intro!: keeps simp: FindBasicModules_def)

lemma keeps_LoadModules [keeps]: "keeps (LoadModules E n)"
  unfolding LoadModules_def by (auto intro!: keeps simp: set_autoScan_def)

section \<open>Unloading\<close>

text \<open>Shut-down code that returns and at most removes providers, as that of the script modules.\<close>

definition removes_only :: "hook \<Rightarrow> bool" where
  "removes_only f \<longleftrightarrow> (\<forall>m hs. snd (f m hs) = None
     \<and> (\<forall>c \<in> set (fst (f m hs)). \<exists>p. c = Call_RemoveModuleProvider p))"

lemma run_calls_removes:
  assumes "\<forall>c \<in> set cs. \<exists>p. c = Call_RemoveModuleProvider p"
  shows "\<exists>ps. run_calls scan cs hs = (Inr (), hs\<lparr>module_providers := ps\<rparr>)"
  using assms
proof (induction cs arbitrary: hs)
  case Nil
  have "hs = hs\<lparr>module_providers := module_providers hs\<rparr>" by simp
  then show ?case unfolding run_calls.simps retH_def by metis
next
  case (Cons c cs)
  obtain p where c: "c = Call_RemoveModuleProvider p" using Cons.prems by auto
  have "\<exists>ps. run_calls scan cs (hs\<lparr>module_providers := qs\<rparr>) = (Inr (), hs\<lparr>module_providers := ps\<rparr>)" for qs
    using Cons.IH [of "hs\<lparr>module_providers := qs\<rparr>"] Cons.prems by simp
  then show ?case by (simp add: c RemoveModuleProvider_def bindH_def modifyH_def)
qed

lemma call_hook_removes:
  assumes "removes_only f"
  obtains ps where "call_hook f event scan m hs =
    (Inr (), (log_event (event (mod_addr m)) hs)\<lparr>module_providers := ps\<rparr>)"
proof -
  let ?hs = "log_event (event (mod_addr m)) hs"
  obtain calls where calls: "f m ?hs = (calls, None)" "\<forall>c \<in> set calls. \<exists>p. c = Call_RemoveModuleProvider p"
    using assms unfolding removes_only_def by (metis prod.collapse)
  obtain ps where "run_calls scan calls ?hs = (Inr (), ?hs\<lparr>module_providers := ps\<rparr>)"
    using run_calls_removes [OF calls(2)] by blast
  then have "call_hook f event scan m hs = (Inr (), ?hs\<lparr>module_providers := ps\<rparr>)"
    using calls(1) by (simp add: call_hook_def H_defs)
  then show thesis by (rule that)
qed

lemma stop_modules_quiet:
  assumes "removes_only (on_Stop E)" "length (loadedModules hs) - i < n"
  shows "\<exists>hs'. stop_modules E scan n i hs = (Inr (), hs') \<and> loadedModules hs' = loadedModules hs
     \<and> trace hs' = trace hs @ map (On_Stop \<circ> mod_addr) (drop i (loadedModules hs))"
  using assms(2)
proof (induction n arbitrary: i hs)
  case 0
  then show ?case by simp
next
  case (Suc n)
  show ?case
  proof (cases "i < length (loadedModules hs)")
    case False
    then show ?thesis by (simp add: H_defs)
  next
    case True
    obtain ps where stop: "Module_Stop E scan (loadedModules hs ! i) hs =
        (Inr (), (log_event (On_Stop (mod_addr (loadedModules hs ! i))) hs)\<lparr>module_providers := ps\<rparr>)"
      unfolding Module_Stop_def by (rule call_hook_removes [OF assms(1)])
    let ?hs = "(log_event (On_Stop (mod_addr (loadedModules hs ! i))) hs)\<lparr>module_providers := ps\<rparr>"
    have "loadedModules ?hs = loadedModules hs"
        "trace ?hs = trace hs @ [On_Stop (mod_addr (loadedModules hs ! i))]"
      by (simp_all add: log_event_def)
    then show ?thesis
      using Suc.IH [of ?hs "Suc i"] Suc.prems True stop
      by (auto simp: bindH_def getH_def Cons_nth_drop_Suc [symmetric])
  qed
qed

lemma unregister_modules_quiet:
  assumes "removes_only (on_Unload E)" "length (loadedModules hs) < n"
    "distinct (map mod_addr (loadedModules hs))"
  shows "\<exists>hs'. unregister_modules E scan n hs = (Inr (), hs') \<and> loadedModules hs' = []
     \<and> trace hs' = trace hs @ map (On_Unload \<circ> mod_addr) (loadedModules hs)"
  using assms(2,3)
proof (induction n arbitrary: hs)
  case 0
  then show ?case by simp
next
  case (Suc n)
  show ?case
  proof (cases "loadedModules hs")
    case Nil
    then show ?thesis by (simp add: H_defs)
  next
    case (Cons m ms)
    obtain ps where unload: "Module_Unload E scan m hs =
        (Inr (), (log_event (On_Unload (mod_addr m)) hs)\<lparr>module_providers := ps\<rparr>)"
      unfolding Module_Unload_def by (rule call_hook_removes [OF assms(1)])
    let ?hs = "erase_module m ((log_event (On_Unload (mod_addr m)) hs)\<lparr>module_providers := ps\<rparr>)"
    have "filter (\<lambda>l. mod_addr l \<noteq> mod_addr m) ms = ms"
      using Suc.prems(2) Cons by (intro filter_True) (auto simp: image_iff)
    then have "loadedModules ?hs = ms" "trace ?hs = trace hs @ [On_Unload (mod_addr m)]"
      using Cons by (simp_all add: erase_module_def log_event_def)
    then show ?thesis
      using Suc.IH [of ?hs] Suc.prems Cons unload
      by (auto simp: bindH_def getH_def modifyH_def UnregisterModule_def)
  qed
qed

section \<open>Histories of a host\<close>

text \<open>A host that has loaded its modules, and any sequence of providers added and removed after
  that, each call with enough fuel and returning normally.\<close>

inductive host_history :: "module_code \<Rightarrow> module_host \<Rightarrow> module_host \<Rightarrow> bool"
  for E :: module_code and hs0 :: module_host where
  loaded: "\<lbrakk>\<not> autoScan hs0; length (invalid_module_files hs0) + listed_files E (module_paths hs0) < n;
      LoadModules E n hs0 = (Inr (), hs)\<rbrakk> \<Longrightarrow> host_history E hs0 hs"
| added: "\<lbrakk>host_history E hs0 hs; length (invalid_module_files hs) < n;
      AddModuleProvider (ScanInvalidModuleFiles E n) p hs = (Inr (), hs')\<rbrakk> \<Longrightarrow> host_history E hs0 hs'"
| removed: "\<lbrakk>host_history E hs0 hs; RemoveModuleProvider p hs = (Inr (), hs')\<rbrakk> \<Longrightarrow> host_history E hs0 hs'"

lemma host_history_invariant:
  assumes "host_history E hs0 hs"
  shows "autoScan hs \<and> settled E hs \<and> unstarted hs = {}"
  using assms
proof induction
  case (loaded n hs)
  then show ?case using LoadModules_laws [OF loaded(1,2,3)] by simp
next
  case (added hs n p hs')
  then have "progress E hs hs'"
    using sc.steps_AddModuleProvider [of E n p] unfolding steps_def can_scan_def by fastforce
  then show ?case using added.IH by (auto simp: progress_def)
next
  case (removed hs p hs')
  then have "progress E hs hs'"
    using remove_progress by (auto simp: RemoveModuleProvider_def modifyH_def)
  then show ?case using removed.IH by (auto simp: progress_def)
qed

lemma host_history_distinct:
  assumes "host_history E hs0 hs" "wf_modules {} hs0"
  shows "wf_modules {} hs"
  using assms
proof induction
  case (loaded n hs)
  show ?case by (rule keepsD [OF keeps_LoadModules loaded(4,3)])
next
  case (added hs n p hs')
  have "keeps (AddModuleProvider (ScanInvalidModuleFiles E n) p)"
    unfolding AddModuleProvider_def by (auto intro!: keeps simp: push_provider_def)
  then show ?case using added keepsD by blast
next
  case (removed hs p hs')
  have "keeps (RemoveModuleProvider p)"
    unfolding RemoveModuleProvider_def by (auto intro!: keeps)
  then show ?case using removed keepsD by blast
qed

section \<open>Properties\<close>

text \<open>C9: a rescan of the files that no provider recognised ends, normally or with an exception of the
  code it calls, when its fuel exceeds the number of these files: each round that loads a module
  removes a file. When it ends normally, no registered provider recognises a file that is still
  waiting, no file was added, a provider that is added from now on is served, and the modules that
  are loaded and not started are among those that were so before: every module that the rescan itself
  registered has been started.\<close>

theorem ScanInvalidModuleFiles_correct:
  assumes "length (invalid_module_files hs) < n"
  shows "\<exists>r hs'. ScanInvalidModuleFiles E n hs = (r, hs') \<and> r \<noteq> Inl HostNoFuel
    \<and> (r = Inr () \<longrightarrow> settled E hs' \<and> subseq (invalid_module_files hs') (invalid_module_files hs)
         \<and> unstarted hs' \<subseteq> unstarted hs \<and> autoScan hs')"
proof -
  obtain r hs' where run: "ScanInvalidModuleFiles E n hs = (r, hs')" by fastforce
  from scan_laws [OF assms run] run show ?thesis by (cases r) (auto simp: rescanned_def)
qed

text \<open>A host with a shared-object module that provides for JavaScript, a script module, a text
  file and a directory.\<close>

definition demo_code :: module_code where
  "demo_code = \<lparr>other_IsModule = (\<lambda>_ _. Some False), other_CreateModule = (\<lambda>_ _. Inl Throws_other),
     dlopen = (\<lambda>path. Some (Some (\<lambda>dir. (dir, ''javascript'', ''1.0'')))),
     Path_getBaseName = (\<lambda>path. ''amodule''), Path_getFileName = (\<lambda>path. ''amodule.js''),
     Path_parent = (\<lambda>path. ''/m''),
     DirectoryIterator = (\<lambda>_. Some [(''/m/jsmodule.so'', False, False), (''/m/amodule.js'', False, False),
        (''/m/readme'', False, False), (''/m/images'', True, False)]),
     manifest_libpath = (\<lambda>_. Inr None), resource_files = (\<lambda>_. None), copy_fails = (\<lambda>_. False),
     on_Initialize = (\<lambda>m hs. (if mod_name m = ''javascript''
        then [Call_AddModuleProvider JavascriptModule] else [], None)),
     on_Start = (\<lambda>_ _. ([], None)), on_Stop = (\<lambda>_ _. ([Call_RemoveModuleProvider JavascriptModule], None)),
     on_Unload = (\<lambda>_ _. ([], None))\<rparr>"

definition demo_host :: module_host where
  "demo_host = (blank_host (new_application ''/a'' ''/a/manifest''))\<lparr>module_paths := [''/m''],
     module_providers := [HostProvider]\<rparr>"

definition demo_waiting :: module_host where
  "demo_waiting = demo_host\<lparr>module_providers := [HostProvider, JavascriptModule],
     invalid_module_files := [''/m/amodule.js'', ''/m/readme'']\<rparr>"

theorem ScanInvalidModuleFiles_correct_witness:
  "\<exists>hs'. ScanInvalidModuleFiles demo_code 3 demo_waiting = (Inr (), hs') \<and> settled demo_code hs'
     \<and> autoScan hs'"
proof -
  have "length (invalid_module_files demo_waiting) < 3" by (simp add: demo_waiting_def)
  moreover have "fst (ScanInvalidModuleFiles demo_code 3 demo_waiting) = Inr ()" by code_simp
  ultimately show ?thesis
    using ScanInvalidModuleFiles_correct [of demo_waiting 3 demo_code] by (metis fst_conv)
qed

text \<open>C8: in every state of a host that has loaded its modules and then added and removed providers,
  every loaded module has been started, no provider recognises a file that is waiting, and adding a
  provider triggers a rescan.\<close>

theorem host_registry_invariant:
  assumes "host_history E hs0 hs"
  shows "autoScan hs \<and> settled E hs \<and> unstarted hs = {}"
  by (rule host_history_invariant [OF assms])

definition demo_loaded :: module_host where
  "demo_loaded = snd (LoadModules demo_code 9 demo_host)"

lemma demo_history: "host_history demo_code demo_host demo_loaded"
proof (rule host_history.loaded [where n = 9])
  show "\<not> autoScan demo_host" by code_simp
  show "length (invalid_module_files demo_host) + listed_files demo_code (module_paths demo_host) < 9"
    by code_simp
  have "fst (LoadModules demo_code 9 demo_host) = Inr ()" by code_simp
  then show "LoadModules demo_code 9 demo_host = (Inr (), demo_loaded)"
    by (simp add: demo_loaded_def prod_eq_iff)
qed

theorem host_registry_invariant_witness:
  "settled demo_code demo_loaded \<and> unstarted demo_loaded = {}
     \<and> map mod_name (loadedModules demo_loaded) = [''javascript'', ''a'']"
proof -
  have "map mod_name (loadedModules demo_loaded) = [''javascript'', ''a'']" by code_simp
  then show ?thesis using host_registry_invariant [OF demo_history] by simp
qed

text \<open>C10: provided that the \<^verbatim>\<open>Stop\<close> and \<^verbatim>\<open>Unload\<close> code of the modules never throws and calls the host only to
  remove providers (\<^const>\<open>removes_only\<close>), unloading the modules of a host that has loaded them returns, stops
  every loaded module, in the order of loading, before it unloads the first, then unloads each of
  them once in the same order, and leaves none loaded. Without this condition a \<^verbatim>\<open>Stop\<close> that throws
  ends the unloading with the modules still loaded.\<close>

theorem UnloadModules_correct:
  assumes "host_history E hs0 hs" "loadedModules hs0 = []"
    and "removes_only (on_Stop E)" "removes_only (on_Unload E)" "length (loadedModules hs) < n"
  shows "\<exists>hs'. UnloadModules E n hs = (Inr (), hs') \<and> loadedModules hs' = []
    \<and> trace hs' = trace hs @ map (On_Stop \<circ> mod_addr) (loadedModules hs)
        @ map (On_Unload \<circ> mod_addr) (loadedModules hs)"
proof -
  let ?scan = "ScanInvalidModuleFiles E n"
  have "wf_modules {} hs" by (rule host_history_distinct [OF assms(1)]) (simp add: assms(2) wf_modules_def)
  then have "distinct (map mod_addr (loadedModules hs))" by (simp add: wf_modules_def)
  moreover obtain hs1 where "stop_modules E ?scan n 0 hs = (Inr (), hs1)" "loadedModules hs1 = loadedModules hs"
      "trace hs1 = trace hs @ map (On_Stop \<circ> mod_addr) (loadedModules hs)"
    using stop_modules_quiet [OF assms(3), of hs 0 n ?scan] assms(5) by auto
  ultimately show ?thesis
    using unregister_modules_quiet [OF assms(4), of hs1 n ?scan] assms(5)
    by (auto simp: UnloadModules_def bindH_def)
qed

theorem UnloadModules_correct_witness:
  "\<exists>hs'. UnloadModules demo_code 3 demo_loaded = (Inr (), hs') \<and> loadedModules hs' = []
     \<and> trace hs' = trace demo_loaded @ [On_Stop 0, On_Stop 1, On_Unload 0, On_Unload 1]"
proof -
  have "map mod_addr (loadedModules demo_loaded) = [0, 1]" by code_simp
  moreover have "removes_only (on_Stop demo_code)" "removes_only (on_Unload demo_code)"
    by (simp_all add: removes_only_def demo_code_def)
  moreover have "loadedModules demo_host = []" by code_simp
  moreover have "length (loadedModules demo_loaded) < 3" by code_simp
  ultimately show ?thesis
    using UnloadModules_correct [OF demo_history, of 3] by (simp flip: map_map)
qed

text \<open>C27: a module that the rescan of \<^verbatim>\<open>LoadModules\<close> loads is started twice. Let \<open>hs1\<close> be the state after
  the module directories were searched and \<open>hs2\<close> the state after the rescan, and let both and
  \<^verbatim>\<open>LoadModules\<close> itself end normally. Every module that is loaded in \<open>hs2\<close> and was not in \<open>hs1\<close> has
  been started by the rescan, and is started again with all other modules.\<close>

theorem LoadModules_starts_twice:
  assumes "\<not> autoScan hs" "length (invalid_module_files hs) + listed_files E (module_paths hs) < n"
    and find: "find_all_modules E (ScanInvalidModuleFiles E n) (module_paths hs) hs = (Inr (), hs1)"
    and scan: "ScanInvalidModuleFiles E n hs1 = (Inr (), hs2)"
    and run: "LoadModules E n hs = (Inr (), hs')"
    and m: "m \<in> set (loadedModules hs2)" "m \<notin> set (loadedModules hs1)"
  shows "\<exists>again. trace hs' = trace hs2 @ again
    \<and> On_Start (mod_addr m) \<in> set (trace hs2) \<and> On_Start (mod_addr m) \<in> set again"
proof -
  let ?scan = "ScanInvalidModuleFiles E n"
  have "length (invalid_module_files hs1) < n"
    using finds_find_all_modules [of E "module_paths hs" ?scan] assms(1,2) find unfolding finds_def by fastforce
  moreover from scan_laws [OF this scan] have sc2: "rescanned E hs1 hs2" by simp
  ultimately have can: "can_scan n hs2"
    using list_emb_length unfolding rescanned_def can_scan_def by fastforce
  have first: "On_Start (mod_addr m) \<in> set (trace hs2)"
    using sc2 m by (auto simp: rescanned_def unstarted_def started_def)
  obtain hs3 where start: "StartModules E ?scan (loadedModules hs2) hs2 = (Inr (), hs3)" and hs': "hs' = hs3\<lparr>autoScan := True\<rparr>"
    using run find scan
    by (auto simp: LoadModules_def H_defs set_autoScan_def split: prod.splits sum.splits)
  then show ?thesis
    using sc.steps_StartModules_events [of E n E "loadedModules hs2"] can m(1) first unfolding steps_def by fastforce
qed

definition demo_found :: module_host where
  "demo_found = snd (find_all_modules demo_code (ScanInvalidModuleFiles demo_code 9) (module_paths demo_host) demo_host)"

definition demo_scanned :: module_host where
  "demo_scanned = snd (ScanInvalidModuleFiles demo_code 9 demo_found)"

theorem LoadModules_starts_twice_witness:
  "On_Start 1 \<in> set (trace demo_scanned)
     \<and> (\<exists>again. trace (snd (LoadModules demo_code 9 demo_host)) = trace demo_scanned @ again \<and> On_Start 1 \<in> set again)"
proof -
  have ret: "fst (find_all_modules demo_code (ScanInvalidModuleFiles demo_code 9) (module_paths demo_host) demo_host) = Inr ()"
    "fst (ScanInvalidModuleFiles demo_code 9 demo_found) = Inr ()" "fst (LoadModules demo_code 9 demo_host) = Inr ()"
    by code_simp+
  have fuel: "\<not> autoScan demo_host"
    "length (invalid_module_files demo_host) + listed_files demo_code (module_paths demo_host) < 9" by code_simp+
  have "map mod_addr (loadedModules demo_found) = [0]" "map mod_addr (loadedModules demo_scanned) = [0, 1]" by code_simp+
  then obtain l k m where l: "loadedModules demo_found = [l]" "mod_addr l = 0" "loadedModules demo_scanned = [k, m]" "mod_addr m = 1"
    by (auto simp: map_eq_Cons_conv)
  then have m: "m \<in> set (loadedModules demo_scanned)" "m \<notin> set (loadedModules demo_found)" "mod_addr m = 1" by auto
  show ?thesis
    using LoadModules_starts_twice [OF fuel, of demo_found demo_scanned "snd (LoadModules demo_code 9 demo_host)" m] ret m
    by (auto simp: prod_eq_iff demo_found_def demo_scanned_def)
qed

text \<open>without the environment variable of the application's home the constructor of the host does
  not get to its message and its exit code: looking up the logger for the message dereferences the
  root logger, which is made only later.\<close>

theorem Host_new_without_home:
  assumes "env_var e HOME_ENV = None"
  shows "Host_new e argv no_logging = Crashes"
proof -
  have "Logger_Get (product_name e) ''Host'' no_logging = None"
    unfolding Logger_Get_def by (rule GetImpl_without_root) (simp_all add: no_logging_def)
  then show ?thesis
    using assms by (simp add: Host_new_def SetupApplication_def AssertEnvironmentVariable_def)
qed

definition demo_env :: host_env where
  "demo_env = \<lparr>env_var = (\<lambda>_. None), host_fs = list_os [] [], searchPaths = [], product_version = ''1.0'',
     product_name = ''Kroll'', data_directory = (\<lambda>_. ''/tmp''), log_opens = (\<lambda>_. True),
     log_format = (\<lambda>_ m _. m)\<rparr>"

theorem Host_new_without_home_witness: "Host_new demo_env [''app''] no_logging = Crashes"
  by (rule Host_new_without_home) (simp add: demo_env_def)

text \<open>A path shorter than the suffix makes the test of the Python provider throw, and with it the
  rescan, which leaves further rescans switched off.\<close>

lemma Python_IsModule_short: "length path < 9 \<Longrightarrow> Python_IsModule path = None"
proof -
  assume short: "length path < 9"
  then have "(int (length path) - 9) mod 2 ^ 64 = int (length path) - 9 + 2 ^ 64"
    by (subst mod_add_self2 [symmetric], subst mod_pos_pos_trivial) simp_all
  then show ?thesis using short by (simp add: Python_IsModule_def substr_suffix_def substr_def)
qed

lemma scan_short_path:
  "ScanInvalidModuleFiles demo_code 3
     (demo_host\<lparr>module_providers := [PythonModule], invalid_module_files := [''/a.txt'']\<rparr>) =
   (Inl (Thrown Throws_other),
     demo_host\<lparr>module_providers := [PythonModule], invalid_module_files := [''/a.txt''], autoScan := False\<rparr>)"
  by (simp add: eval_nat_numeral H_defs set_autoScan_def FindModuleProvider_def liftH_def Python_IsModule_short)

end
