(* ===== verification/Kroll_Script.thy ===== *)
theory Kroll_Script
  imports Kroll_Lists Kroll_Natives Kroll_Logger
begin

text \<open>
  Script evaluators (\<^verbatim>\<open>src/api/script.cpp\<close>): the list of the evaluators that the language modules
  register, the search for one that claims a MIME type or a URL, and the dispatch of evaluation and
  preprocessing to it. The exceptions are built as in \<^verbatim>\<open>src/api/binding/value_exception.cpp\<close>.

  The evaluators are kept in a \<^verbatim>\<open>StaticBoundList\<close>, the object \<^verbatim>\<open>evals\<close>. The loops over it read its
  size in every round, because an evaluator's code may change the list; their fuel bounds the rounds.
\<close>

section \<open>Exceptions\<close>

definition ValueException_FromString :: "string \<Rightarrow> 'a M" where
  "ValueException_FromString s = bindM (new_string s) (\<lambda>v. raiseM (ValueException v))"

text \<open>The expanded format passes through the buffer of the logger.\<close>

definition ValueException_FromFormat :: "string \<Rightarrow> 'a M" where
  "ValueException_FromFormat expansion = ValueException_FromString (Format expansion)"

definition ValueException_FromObject :: "addr option \<Rightarrow> 'a M" where
  "ValueException_FromObject ob = bindM (new_value (Value_NewObject ob)) (\<lambda>v. raiseM (ValueException v))"

section \<open>File names\<close>

definition HasExtension :: "string \<Rightarrow> string \<Rightarrow> bool" where
  "HasExtension script extension =
     (let scriptStr = c_str script; extStr = ''.'' @ c_str extension
      in length scriptStr \<ge> length extStr
         \<and> drop (length scriptStr - length extStr) scriptStr = extStr)"

text \<open>Without a period \<^verbatim>\<open>substr\<close> is called at \<^verbatim>\<open>npos\<close> and throws.\<close>

definition GetExtension :: "string \<Rightarrow> string option" where
  "GetExtension script =
     (let scriptStr = c_str script
      in case str_rfind scriptStr ''.'' (length scriptStr) of
           None \<Rightarrow> None
         | Some pos \<Rightarrow> substr scriptStr pos None)"

section \<open>The evaluators\<close>

definition AddScriptEvaluator :: "vt \<Rightarrow> addr \<Rightarrow> addr \<Rightarrow> unit M" where
  "AddScriptEvaluator V evals evaluator =
     bindM (new_value (Value_NewObject (Some evaluator))) (vAppend V evals)"

text \<open>\<^verbatim>\<open>evaluators->At(i)->ToObject()\<close>, of which the next member function is called.\<close>

definition evaluator_at :: "vt \<Rightarrow> addr \<Rightarrow> nat \<Rightarrow> addr M" where
  "evaluator_at V evals i =
     bindM (vAt V evals (of_nat i)) (\<lambda>x.
     bindM (load x) (\<lambda>v. of_opt (Value_ToObject v)))"

primrec evaluator_index :: "nat \<Rightarrow> vt \<Rightarrow> addr \<Rightarrow> addr \<Rightarrow> nat \<Rightarrow> int32 M" where
  "evaluator_index 0 V evals evaluator i = raiseM NoFuel"
| "evaluator_index (Suc n) V evals evaluator i =
     bindM (vSize V evals) (\<lambda>sz.
       if i < unat sz then
         bindM (evaluator_at V evals i) (\<lambda>e.
         bindM (gets (\<lambda>h. obj_equals h e (Some evaluator))) (\<lambda>same.
           if same then retM (of_nat i) else evaluator_index n V evals evaluator (Suc i)))
       else retM (- 1))"

definition RemoveScriptEvaluator :: "nat \<Rightarrow> vt \<Rightarrow> addr \<Rightarrow> addr \<Rightarrow> unit M" where
  "RemoveScriptEvaluator n V evals evaluator =
     bindM (evaluator_index n V evals evaluator 0) (\<lambda>index.
       if index \<noteq> - 1 then bindM (vRemove V evals index) (\<lambda>_. retM ()) else retM ())"

text \<open>Whether an evaluator claims the argument: it has the method, and the method returns true.\<close>

definition claims_argument :: "vt \<Rightarrow> addr \<Rightarrow> string \<Rightarrow> addr list \<Rightarrow> bool M" where
  "claims_argument V e method args =
     bindM (KObject_GetMethod V e method None) (\<lambda>finder.
     case finder of
       None \<Rightarrow> retM False
     | Some f \<Rightarrow>
         bindM (vCall V f args) (\<lambda>result.
         bindM (load result) (\<lambda>r. retM (Value_IsBool r \<and> Value_ToBool r = Some True))))"

primrec find_evaluator :: "nat \<Rightarrow> vt \<Rightarrow> addr \<Rightarrow> string \<Rightarrow> addr list \<Rightarrow> nat \<Rightarrow> addr option M" where
  "find_evaluator 0 V evals method args i = raiseM NoFuel"
| "find_evaluator (Suc n) V evals method args i =
     bindM (vSize V evals) (\<lambda>sz.
       if i < unat sz then
         bindM (evaluator_at V evals i) (\<lambda>e.
         bindM (claims_argument V e method args) (\<lambda>claimed.
           if claimed
           then bindM (vAt V evals (of_nat i)) (\<lambda>x. bindM (load x) (\<lambda>v. retM (Value_ToObject v)))
           else find_evaluator n V evals method args (Suc i)))
       else retM None)"

definition FindEvaluatorWithMethod :: "nat \<Rightarrow> vt \<Rightarrow> addr \<Rightarrow> string \<Rightarrow> string \<Rightarrow> addr option M" where
  "FindEvaluatorWithMethod n V evals method arg =
     bindM (new_string (c_str arg)) (\<lambda>a. find_evaluator n V evals method [a] 0)"

definition CanEvaluate :: "nat \<Rightarrow> vt \<Rightarrow> addr \<Rightarrow> string \<Rightarrow> bool M" where
  "CanEvaluate n V evals mimeType =
     bindM (FindEvaluatorWithMethod n V evals ''canEvaluate'' mimeType) (\<lambda>e. retM (e \<noteq> None))"

definition CanPreprocess :: "nat \<Rightarrow> vt \<Rightarrow> addr \<Rightarrow> string \<Rightarrow> bool M" where
  "CanPreprocess n V evals url =
     bindM (FindEvaluatorWithMethod n V evals ''canPreprocess'' url) (\<lambda>e. retM (e \<noteq> None))"

section \<open>Evaluation and preprocessing\<close>

definition Script_Evaluate :: "nat \<Rightarrow> vt \<Rightarrow> addr \<Rightarrow> string \<Rightarrow> string \<Rightarrow> string \<Rightarrow> addr option \<Rightarrow> addr M" where
  "Script_Evaluate n V evals mimeType name code scope =
     bindM (FindEvaluatorWithMethod n V evals ''canEvaluate'' mimeType) (\<lambda>evaluator.
     case evaluator of
       None \<Rightarrow> ValueException_FromFormat
         (''Error evaluating: No evaluator found for mimeType: '' @ [CHR 0x22] @ c_str mimeType @ [CHR 0x22])
     | Some e \<Rightarrow>
         bindM (KObject_GetMethod V e ''evaluate'' None) (\<lambda>evaluate.
         case evaluate of
           None \<Rightarrow> ValueException_FromFormat
             (''Error evaluating: No '' @ [CHR 0x22] @ ''evaluate'' @ [CHR 0x22] @
              '' method found on evaluator for mimeType: '' @ [CHR 0x22] @ c_str mimeType @ [CHR 0x22])
         | Some f \<Rightarrow>
             bindM (new_string (c_str mimeType)) (\<lambda>a1.
             bindM (new_string (c_str name)) (\<lambda>a2.
             bindM (new_string (c_str code)) (\<lambda>a3.
             bindM (new_value (Value_NewObject scope)) (\<lambda>a4.
             vCall V f [a1, a2, a3, a4]))))))"

text \<open>The result: a blob, which stays null when the data is neither a blob nor a string, and the MIME
  type. \<^const>\<open>None\<close> is the null pointer returned when the preprocessor returns no object.\<close>

definition preprocess_data :: "vt \<Rightarrow> addr \<Rightarrow> addr option M" where
  "preprocess_data V ob =
     bindM (vGet V ob ''data'') (\<lambda>x.
     bindM (load x) (\<lambda>v.
       if Value_IsObject v then
         bindM (gets (\<lambda>h. has_class is_blob h (Value_ToObject v))) (\<lambda>isb.
         retM (if isb then Value_ToObject v else None))
       else if Value_IsString v then
         bindM (of_opt (Value_ToString v)) (\<lambda>(_, s).
         bindM (Blob_new (c_str s) (of_nat (length (c_str s)))) (\<lambda>b. retM (Some b)))
       else retM None))"

definition Script_Preprocess :: "nat \<Rightarrow> vt \<Rightarrow> addr \<Rightarrow> string \<Rightarrow> addr option \<Rightarrow> (addr option \<times> string) option M" where
  "Script_Preprocess n V evals url scope =
     bindM (FindEvaluatorWithMethod n V evals ''canPreprocess'' url) (\<lambda>evaluator.
     case evaluator of
       None \<Rightarrow> ValueException_FromFormat
         (''Error preprocessing: No evaluator found for url: '' @ [CHR 0x22] @ c_str url @ [CHR 0x22])
     | Some e \<Rightarrow>
         bindM (KObject_GetMethod V e ''preprocess'' None) (\<lambda>preprocess.
         case preprocess of
           None \<Rightarrow> ValueException_FromFormat
             (''Error preprocessing: No '' @ [CHR 0x22] @ ''preprocess'' @ [CHR 0x22] @
              '' method found on evaluator for url: '' @ [CHR 0x22] @ c_str url @ [CHR 0x22])
         | Some f \<Rightarrow>
             bindM (new_string (c_str url)) (\<lambda>a1.
             bindM (new_value (Value_NewObject scope)) (\<lambda>a2.
             bindM (vCall V f [a1, a2]) (\<lambda>result.
             bindM (load result) (\<lambda>r.
               if \<not> Value_IsObject r then retM None
               else bindM (of_opt (Value_ToObject r)) (\<lambda>ob.
                 bindM (vHas V ob ''data'') (\<lambda>hasData.
                 if \<not> hasData then ValueException_FromString ''Preprocessor didn't return any data''
                 else bindM (preprocess_data V ob) (\<lambda>dat.
                   bindM (vHas V ob ''mimeType'') (\<lambda>hasType.
                   if \<not> hasType then ValueException_FromString ''Preprocessor didn't return a mimeType''
                   else bindM (vGet V ob ''mimeType'') (\<lambda>x.
                     bindM (load x) (\<lambda>v.
                     bindM (of_opt (Value_ToString v)) (\<lambda>(_, s).
                     retM (Some (dat, c_str s)))))))))))))))"

section \<open>Laws of the list of evaluators\<close>

text \<open>Static lists store no value: they only allocate.\<close>

definition allocs :: "heap \<Rightarrow> heap \<Rightarrow> bool" where
  "allocs h h' \<longleftrightarrow> next_addr h \<le> next_addr h'
     \<and> (\<forall>a. a < next_addr h \<or> next_addr h' \<le> a \<longrightarrow> cells h' a = cells h a)"

definition allocating :: "'a M \<Rightarrow> bool" where
  "allocating m \<longleftrightarrow> (\<forall>h. allocs h (snd (m h)))"

lemma allocs_refl [simp]: "allocs h h"
  by (simp add: allocs_def)

lemma allocs_trans: "allocs h h1 \<Longrightarrow> allocs h1 h2 \<Longrightarrow> allocs h h2"
  unfolding allocs_def by (metis le_trans less_le_trans)

named_theorems allocating

lemma allocating_basic [allocating]:
  "allocating (retM x)" "allocating (raiseM e)" "allocating (load_obj a)" "allocating (store_obj a ob)"
  "allocating (of_opt p)" "allocating (new_value v)"
  by (auto simp: allocating_def allocs_def retM_def raiseM_def load_obj_def store_obj_def of_opt_def new_value_def
      split: option.splits)

lemma allocating_bind [allocating]:
  "allocating m \<Longrightarrow> (\<And>x. allocating (f x)) \<Longrightarrow> allocating (bindM m f)"
  unfolding allocating_def bindM_def
  by (auto split: prod.splits sum.splits) (metis allocs_trans snd_conv)+

lemma allocating_static [allocating]:
  "allocating (StaticBoundObject_Get this name)" "allocating (StaticBoundObject_UnSet this name)"
  "allocating (StaticBoundObject_Set this name v)" "allocating (get_length this)" "allocating (set_length this n)"
  unfolding StaticBoundObject_Get_def StaticBoundObject_UnSet_def StaticBoundObject_Set_def get_length_def
    set_length_def
  by (auto intro!: allocating split: option.splits)

lemma allocating_remove_loop [allocating]: "allocating (remove_loop n this i)"
  by (induction n arbitrary: i)
    (auto intro!: allocating simp: StaticBoundList_At_def StaticBoundList_SetAt_def)

lemma allocating_Remove: "allocating (StaticBoundList_Remove this i)"
  unfolding StaticBoundList_Remove_def by (auto intro!: allocating)

text \<open>A static list of values that hold the given evaluators. An evaluator that is a profiling
  wrapper has another notion of equality and is left out.\<close>

definition holds_object :: "heap \<Rightarrow> addr option \<Rightarrow> addr \<Rightarrow> bool" where
  "holds_object h x e \<longleftrightarrow> (\<exists>a v. x = Some a \<and> a < next_addr h \<and> cells h a = Some v \<and> Value_ToObject v = Some e)"

definition plain_identity :: "heap \<Rightarrow> addr \<Rightarrow> bool" where
  "plain_identity h e \<longleftrightarrow> (\<forall>ob d. objs h e = Some ob \<longrightarrow> cls ob \<noteq> CProfiledBoundObject d)"

definition evaluators :: "heap \<Rightarrow> addr \<Rightarrow> addr list \<Rightarrow> bool" where
  "evaluators h evals evs \<longleftrightarrow> list_ok evals h \<and> list_all2 (holds_object h) (list_elems evals h) evs
     \<and> (\<forall>e \<in> set evs. plain_identity h e)"

lemma holds_object_allocs: "holds_object h x e \<Longrightarrow> allocs h h' \<Longrightarrow> holds_object h' x e"
  by (auto simp: holds_object_def allocs_def)

lemma evaluators_length: "evaluators h evals evs \<Longrightarrow> length (list_elems evals h) = length evs"
  by (auto simp: evaluators_def dest: list_all2_lengthD)

lemma list_object:
  assumes "list_ok evals h"
  obtains ob len where "objs h evals = Some ob" "list_length (cls ob) = Some len" "pmap_ok (properties ob)"
    "length (list_elems evals h) = unat len"
    "list_elems evals h = map (\<lambda>i. pmap_find (dec_of_nat i) (properties ob)) [0..<unat len]"
  using assms by (auto simp: list_ok_def list_elems_def)

lemma evaluators_bound: "evaluators h evals evs \<Longrightarrow> length evs < 2 ^ 32"
  using static_list.size_bound [of evals h] by (simp add: evaluators_def evaluators_length [symmetric])

lemma evaluators_size:
  assumes "evaluators h evals evs"
  shows "vSize (vtable (Suc n) N F) evals h = (Inr (of_nat (length evs)), h)"
proof -
  have "list_ok evals h" using assms by (simp add: evaluators_def)
  then show ?thesis using static_list.size_law evaluators_length [OF assms] by metis
qed

lemma evaluators_same_objs:
  assumes "evaluators h evals evs" "allocs h h'" "objs h' = objs h"
  shows "evaluators h' evals evs"
proof -
  have "list_elems evals h' = list_elems evals h" "list_ok evals h' = list_ok evals h"
    using assms(3) by (simp_all add: list_elems_def list_ok_def)
  then show ?thesis
    using assms by (auto simp: evaluators_def plain_identity_def intro: list_all2_mono holds_object_allocs)
qed

lemma evaluator_at_run:
  assumes "evaluators h evals evs" "i < length evs"
  shows "\<exists>h'. evaluator_at (vtable (Suc n) N F) evals i h = (Inr (evs ! i), h')
    \<and> evaluators h' evals evs \<and> objs h' = objs h \<and> allocs h h'"
proof -
  obtain ob len where ob: "objs h evals = Some ob" "list_length (cls ob) = Some len"
      "length (list_elems evals h) = unat len"
      "list_elems evals h = map (\<lambda>i. pmap_find (dec_of_nat i) (properties ob)) [0..<unat len]"
    using assms(1) list_object unfolding evaluators_def by blast
  define h' where "h' = h\<lparr>cells := (cells h)(next_addr h \<mapsto> Value_NewUndefined), next_addr := Suc (next_addr h)\<rparr>"
  have i: "unat (of_nat i :: uint32) = i" using assms(2) evaluators_bound [OF assms(1)] by (simp add: unat_of_nat)
  have "holds_object h (list_elems evals h ! i) (evs ! i)"
    using assms unfolding evaluators_def by (auto dest: list_all2_nthD2)
  moreover have "list_elems evals h ! i = pmap_find (dec_of_nat i) (properties ob)"
    using ob(3,4) assms(2) evaluators_length [OF assms(1)] by simp
  ultimately obtain a v where av: "pmap_find (dec_of_nat i) (properties ob) = Some a" "a < next_addr h"
      "cells h a = Some v" "Value_ToObject v = Some (evs ! i)"
    by (auto simp: holds_object_def)
  have "vAt (vtable (Suc n) N F) evals (of_nat i) h = (Inr a, h')"
    using ob(1,2) av(1) list_At_run [OF ob(1), of "of_nat i"] i by (simp add: Let_def dispatch_list_static h'_def)
  then have "evaluator_at (vtable (Suc n) N F) evals i h = (Inr (evs ! i), h')"
    using av(2-4) by (simp add: evaluator_at_def bindM_def load_def of_opt_def retM_def h'_def del: vtable.simps)
  moreover have "evaluators h' evals evs"
    by (rule evaluators_same_objs [OF assms(1)]) (simp_all add: allocs_def h'_def)
  ultimately show ?thesis by (auto simp: h'_def allocs_def)
qed

lemma obj_equals_plain: "plain_identity h e \<Longrightarrow> obj_equals h e (Some f) = (e = f)"
  by (auto simp: obj_equals_def plain_identity_def KObject_Equals_def split: option.splits kclass.splits)

text \<open>The search finds the first occurrence.\<close>

lemma evaluator_index_run:
  assumes "evaluators h evals evs" "i \<le> length evs" "length evs - i < m" "ev \<notin> set (take i evs)"
  shows "\<exists>h'. evaluator_index m (vtable (Suc n) N F) evals ev i h =
      (Inr (if ev \<in> set evs then of_nat (length (takeWhile (\<lambda>e. e \<noteq> ev) evs)) else - 1), h')
    \<and> evaluators h' evals evs"
  using assms
proof (induction m arbitrary: i h)
  case 0
  then show ?case by simp
next
  case (Suc m)
  let ?V = "vtable (Suc n) N F"
  have size: "vSize ?V evals h = (Inr (of_nat (length evs)), h)" by (rule evaluators_size [OF Suc.prems(1)])
  have sz: "unat (of_nat (length evs) :: uint32) = length evs"
    using evaluators_bound [OF Suc.prems(1)] by (simp add: unat_of_nat)
  show ?case
  proof (cases "i < length evs")
    case False
    then show ?thesis
      using Suc.prems size sz by (simp add: bindM_def retM_def del: vtable.simps)
  next
    case True
    obtain h1 where h1: "evaluator_at ?V evals i h = (Inr (evs ! i), h1)" "evaluators h1 evals evs"
      using evaluator_at_run [OF Suc.prems(1) True] by blast
    have same: "obj_equals h1 (evs ! i) (Some ev) \<longleftrightarrow> evs ! i = ev"
      using h1(2) True by (auto simp: evaluators_def obj_equals_plain)
    show ?thesis
    proof (cases "evs ! i = ev")
      case found: True
      have "takeWhile (\<lambda>e. e \<noteq> ev) evs = take i evs"
        using Suc.prems(4) True found by (intro takeWhile_eq_take_P_nth) (auto simp: in_set_conv_nth)
      moreover have "ev \<in> set evs" using found True nth_mem by blast
      ultimately show ?thesis
        using size sz True h1 same found by (simp add: bindM_def gets_def retM_def del: vtable.simps)
    next
      case False
      have "ev \<notin> set (take (Suc i) evs)"
        using Suc.prems(4) False True by (simp add: take_Suc_conv_app_nth)
      moreover have "length evs - Suc i < m" using Suc.prems(3) True by arith
      ultimately obtain h2 where "evaluator_index m ?V evals ev (Suc i) h1 =
          (Inr (if ev \<in> set evs then of_nat (length (takeWhile (\<lambda>e. e \<noteq> ev) evs)) else - 1), h2)"
          "evaluators h2 evals evs"
        using Suc.IH [OF h1(2), of "Suc i"] True by (auto simp del: vtable.simps)
      then show ?thesis
        using size sz True h1 same False by (simp add: bindM_def gets_def retM_def del: vtable.simps)
    qed
  qed
qed

section \<open>Properties\<close>

lemma Evaluator_Add_run:
  assumes "evaluators h evals evs" "length evs < 2 ^ 32 - 1" "plain_identity h ev"
  shows "\<exists>h'. AddScriptEvaluator (vtable (Suc n) N F) evals ev h = (Inr (), h') \<and> evaluators h' evals (evs @ [ev])"
proof -
  let ?x = "next_addr h" and ?v = "Value_NewObject (Some ev)"
  define h1 where "h1 = h\<lparr>cells := (cells h)(?x \<mapsto> ?v), next_addr := Suc ?x\<rparr>"
  have 1: "evaluators h1 evals evs"
    by (rule evaluators_same_objs [OF assms(1)]) (simp_all add: allocs_def h1_def)
  then obtain ob len where ob: "objs h1 evals = Some ob" "list_length (cls ob) = Some len" "pmap_ok (properties ob)"
      "length (list_elems evals h1) = unat len"
    using list_object unfolding evaluators_def by blast
  define h' where "h' = h1\<lparr>objs := (objs h1)(evals \<mapsto> ob\<lparr>properties := pmap_insert (dec_of_nat (unat len)) ?x (properties ob),
      cls := with_length (len + 1) (cls ob)\<rparr>)\<rparr>"
  have run: "vAppend (vtable (Suc n) N F) evals ?x h1 = (Inr (), h')"
    using ob list_Append_run [OF ob(1-3)] by (simp add: Let_def dispatch_list_static h'_def)
  have "list_ok evals h1" "length (list_elems evals h1) < 2 ^ 32 - 1"
    using 1 assms(2) evaluators_length [OF 1] by (simp_all add: evaluators_def)
  then have "list_ok evals h'" "list_elems evals h' = list_elems evals h1 @ [Some ?x]"
    using static_list.append_law [of evals h1 n N F ?x] run by auto
  moreover have "list_all2 (holds_object h') (list_elems evals h1 @ [Some ?x]) (evs @ [ev])"
  proof -
    have "holds_object h' = holds_object h1" by (simp add: fun_eq_iff holds_object_def h'_def)
    moreover have "holds_object h1 (Some ?x) ev"
      by (simp add: holds_object_def h1_def Value_NewObject_def Value_ToObject_def Value_SetObject_def)
    ultimately show ?thesis using 1 by (auto simp: evaluators_def intro!: list_all2_appendI)
  qed
  moreover have "plain_identity h' e" if "plain_identity h e" for e
    using that ob(2) by (cases "cls ob") (auto simp: plain_identity_def h'_def h1_def)
  moreover have "plain_identity h e" if "e \<in> set (evs @ [ev])" for e
    using that assms(1,3) by (auto simp: evaluators_def)
  ultimately have "evaluators h' evals (evs @ [ev])" by (simp add: evaluators_def)
  moreover have "AddScriptEvaluator (vtable (Suc n) N F) evals ev h = (Inr (), h')"
    using run by (simp add: AddScriptEvaluator_def bindM_def new_value_def h1_def del: vtable.simps)
  ultimately show ?thesis by blast
qed

lemma remove1_first:
  "ev \<in> set evs \<Longrightarrow> remove1 ev evs =
     take (length (takeWhile (\<lambda>e. e \<noteq> ev) evs)) evs @ drop (Suc (length (takeWhile (\<lambda>e. e \<noteq> ev) evs))) evs"
  by (induction evs) auto

lemma first_less: "ev \<in> set evs \<Longrightarrow> length (takeWhile (\<lambda>e. e \<noteq> ev) evs) < length evs"
  by (induction evs) auto

lemma Evaluator_Remove_run:
  assumes "evaluators h evals evs" "length evs < m"
  shows "\<exists>h'. RemoveScriptEvaluator m (vtable (Suc n) N F) evals ev h = (Inr (), h')
    \<and> evaluators h' evals (remove1 ev evs)"
proof -
  let ?V = "vtable (Suc n) N F" and ?j = "length (takeWhile (\<lambda>e. e \<noteq> ev) evs)"
  obtain h1 where h1: "evaluator_index m ?V evals ev 0 h =
      (Inr (if ev \<in> set evs then of_nat ?j else - 1), h1)" "evaluators h1 evals evs"
    using evaluator_index_run [OF assms(1), of 0 m ev n N F] assms(2) by auto
  show ?thesis
  proof (cases "ev \<in> set evs")
    case False
    then show ?thesis
      using h1 by (simp add: RemoveScriptEvaluator_def bindM_def retM_def remove1_idem del: vtable.simps)
  next
    case True
    have j: "?j < length evs" using True by (rule first_less)
    obtain ob len where ob: "objs h1 evals = Some ob" "list_length (cls ob) = Some len" "pmap_ok (properties ob)"
        "length (list_elems evals h1) = unat len"
      using h1(2) list_object unfolding evaluators_def by blast
    have len: "unat len = length evs" using ob(4) evaluators_length [OF h1(2)] by simp
    have u: "unat (of_nat ?j :: uint32) = ?j" using j evaluators_bound [OF assms(1)] by (simp add: unat_of_nat)
    have lt: "of_nat ?j < len" using j u len by (simp add: word_less_nat_alt)
    have "None \<notin> set (list_elems evals h1)"
      using h1(2) by (auto simp: evaluators_def list_all2_conv_all_nth in_set_conv_nth holds_object_def)
    then obtain h2 q where h2: "StaticBoundList_Remove evals (of_nat ?j) h1 = (Inr True, h2)"
        "objs h2 = (objs h1)(evals \<mapsto> ob\<lparr>properties := q, cls := with_length (len - 1) (cls ob)\<rparr>)" "pmap_ok q"
        "list_elems evals h2 = take ?j (list_elems evals h1) @ drop (Suc ?j) (list_elems evals h1)"
      using list_Remove_elems [OF ob(1-3) lt] unfolding u by blast
    have "allocs h1 h2"
      using allocating_Remove [unfolded allocating_def, of evals "of_nat ?j"] h2(1) by (metis snd_conv)
    then have "list_all2 (holds_object h2) (list_elems evals h1) evs"
      using h1(2) by (auto simp: evaluators_def intro: list_all2_mono holds_object_allocs)
    then have "list_all2 (holds_object h2) (list_elems evals h2) (remove1 ev evs)"
      unfolding h2(4) remove1_first [OF True] by (intro list_all2_appendI list_all2_takeI list_all2_dropI)
    moreover have "list_ok evals h2" using h2(2,3) ob by (simp add: list_ok_def)
    moreover have "plain_identity h2 e" if "plain_identity h1 e" for e
      using that ob(2) h2(2) by (cases "cls ob") (auto simp: plain_identity_def ob(1))
    ultimately have "evaluators h2 evals (remove1 ev evs)"
      using h1(2) by (auto simp: evaluators_def dest: notin_set_remove1)
    moreover have "(of_nat ?j :: uint32) \<noteq> - 1"
    proof -
      have "?j < 2 ^ 32 - 1" using j evaluators_bound [OF assms(1)] by simp
      moreover have "unat (- 1 :: uint32) = 2 ^ 32 - 1"
        by (simp add: unsigned_minus_1_eq_mask mask_eq_exp_minus_1)
      ultimately show ?thesis using u by (metis less_irrefl)
    qed
    moreover have "vRemove ?V evals (of_nat ?j) h1 = (Inr True, h2)"
      using ob h2(1) by (simp add: Let_def dispatch_list_static)
    ultimately show ?thesis
      using h1(1) True by (auto simp: RemoveScriptEvaluator_def bindM_def retM_def simp del: vtable.simps)
  qed
qed

text \<open>registering an evaluator adds it behind the others, unregistering removes the first entry of
  that evaluator and keeps the order of the rest, so that the list after both is the list before when
  the evaluator was not registered. The search for it ends within as many rounds as there are
  evaluators.\<close>

theorem AddScriptEvaluator_RemoveScriptEvaluator:
  assumes "evaluators h evals evs" "length evs < 2 ^ 32 - 1" "plain_identity h ev" "length evs + 1 < m"
  shows "\<exists>h1 h2. AddScriptEvaluator (vtable (Suc n) N F) evals ev h = (Inr (), h1)
    \<and> evaluators h1 evals (evs @ [ev])
    \<and> RemoveScriptEvaluator m (vtable (Suc n) N F) evals ev h1 = (Inr (), h2)
    \<and> evaluators h2 evals (if ev \<in> set evs then remove1 ev evs @ [ev] else evs)"
proof -
  obtain h1 where h1: "AddScriptEvaluator (vtable (Suc n) N F) evals ev h = (Inr (), h1)"
      "evaluators h1 evals (evs @ [ev])"
    using Evaluator_Add_run [OF assms(1-3)] by blast
  then obtain h2 where "RemoveScriptEvaluator m (vtable (Suc n) N F) evals ev h1 = (Inr (), h2)"
      "evaluators h2 evals (remove1 ev (evs @ [ev]))"
    using Evaluator_Remove_run [OF h1(2), of m n N F ev] assms(4) by (auto simp del: vtable.simps)
  then show ?thesis using h1 by (auto simp: remove1_append simp del: vtable.simps)
qed

definition demo_script_heap :: heap where
  "demo_script_heap = demo_heap\<lparr>objs := [3 \<mapsto> StaticBoundList_new ''StaticBoundList'',
     4 \<mapsto> StaticBoundObject_new ''Ruby''], next_addr := 5\<rparr>"

theorem AddScriptEvaluator_RemoveScriptEvaluator_witness:
  "\<exists>h1 h2. AddScriptEvaluator (vtable (Suc 0) no_natives no_fnptrs) 3 4 demo_script_heap = (Inr (), h1)
     \<and> evaluators h1 3 [4]
     \<and> RemoveScriptEvaluator 2 (vtable (Suc 0) no_natives no_fnptrs) 3 4 h1 = (Inr (), h2) \<and> evaluators h2 3 []"
proof -
  have "evaluators demo_script_heap 3 []" "plain_identity demo_script_heap 4"
    by (simp_all add: evaluators_def plain_identity_def list_ok_def list_elems_def demo_script_heap_def
        StaticBoundList_new_def StaticBoundObject_new_def pmap_ok_def)
  from AddScriptEvaluator_RemoveScriptEvaluator [OF this(1) _ this(2), of 2 0 no_natives no_fnptrs]
  show ?thesis by (simp del: vtable.simps)
qed

text \<open>A cell that holds a string.\<close>

definition string_cell :: "heap \<Rightarrow> addr \<Rightarrow> string \<Rightarrow> bool" where
  "string_cell h x s \<longleftrightarrow> x < next_addr h
     \<and> (\<exists>v. cells h x = Some v \<and> Value_IsString v \<and> map_option snd (Value_ToString v) = Some s)"

lemma string_cell_allocs: "string_cell h x s \<Longrightarrow> allocs h h' \<Longrightarrow> string_cell h' x s"
  by (auto simp: string_cell_def allocs_def)

lemma new_string_cell:
  "\<exists>x h'. new_string s h = (Inr x, h') \<and> allocs h h' \<and> objs h' = objs h \<and> string_cell h' x (c_str s)"
  by (simp add: new_string_def bindM_def fresh_def new_value_def allocs_def string_cell_def Value_NewString_def
      Value_ToString_def Value_IsString_def Value_SetString_def)

text \<open>Evaluators that answer a query by the string they are asked about: \<open>claims e s\<close> is the answer of
  the evaluator \<open>e\<close> when its method is called with the string \<open>s\<close> as the only argument. Answering
  changes neither the list, nor the argument, nor the objects and values at the addresses \<^verbatim>\<open>S\<close>, which
  hold what the answers depend on.\<close>

definition calm :: "heap \<Rightarrow> addr set \<Rightarrow> addr \<Rightarrow> addr list \<Rightarrow> heap \<Rightarrow> bool" where
  "calm h0 S evals evs h \<longleftrightarrow> evaluators h evals evs \<and> next_addr h0 \<le> next_addr h
     \<and> (\<forall>a \<in> S. objs h a = objs h0 a \<and> (a < next_addr h0 \<longrightarrow> cells h a = cells h0 a))"

definition answers :: "vt \<Rightarrow> heap \<Rightarrow> addr set \<Rightarrow> addr \<Rightarrow> addr list \<Rightarrow> string \<Rightarrow> (addr \<Rightarrow> string \<Rightarrow> bool) \<Rightarrow> bool" where
  "answers V h0 S evals evs method claims \<longleftrightarrow>
     (\<forall>h e x s. calm h0 S evals evs h \<longrightarrow> e \<in> set evs \<longrightarrow> string_cell h x s \<longrightarrow>
       (\<exists>h'. claims_argument V e method [x] h = (Inr (claims e s), h') \<and> calm h0 S evals evs h' \<and> string_cell h' x s))"

lemma calm_allocs: "calm h0 S evals evs h \<Longrightarrow> allocs h h' \<Longrightarrow> objs h' = objs h \<Longrightarrow> calm h0 S evals evs h'"
  using evaluators_same_objs [of h evals evs h'] by (auto simp: calm_def allocs_def)

lemma evaluator_again:
  assumes "evaluators h evals evs" "i < length evs"
  shows "\<exists>h'. bindM (vAt (vtable (Suc n) N F) evals (of_nat i)) (\<lambda>x. bindM (load x) (\<lambda>v. retM (Value_ToObject v))) h =
      (Inr (Some (evs ! i)), h') \<and> objs h' = objs h \<and> allocs h h'"
proof -
  obtain h' where "evaluator_at (vtable (Suc n) N F) evals i h = (Inr (evs ! i), h')" "objs h' = objs h" "allocs h h'"
    using evaluator_at_run [OF assms] by blast
  then show ?thesis
    unfolding evaluator_at_def
    by (auto simp: bindM_def of_opt_def retM_def raiseM_def simp del: vtable.simps split: prod.splits sum.splits option.splits)
qed

lemma find_evaluator_run:
  assumes ans: "answers (vtable (Suc n) N F) h0 S evals evs method claims"
    and "calm h0 S evals evs h" "string_cell h x s" "i \<le> length evs" "length evs - i < m"
  shows "\<exists>h'. find_evaluator m (vtable (Suc n) N F) evals method [x] i h =
      (Inr (List.find (\<lambda>e. claims e s) (drop i evs)), h') \<and> calm h0 S evals evs h'"
  using assms(2-5)
proof (induction m arbitrary: i h)
  case 0
  then show ?case by simp
next
  case (Suc m)
  let ?V = "vtable (Suc n) N F" and ?c = "\<lambda>e. claims e s"
  have h: "evaluators h evals evs" using Suc.prems(1) by (simp add: calm_def)
  have size: "vSize ?V evals h = (Inr (of_nat (length evs)), h)" by (rule evaluators_size [OF h])
  have sz: "unat (of_nat (length evs) :: uint32) = length evs"
    using evaluators_bound [OF h] by (simp add: unat_of_nat)
  show ?case
  proof (cases "i < length evs")
    case False
    then show ?thesis using Suc.prems size sz by (simp add: bindM_def retM_def del: vtable.simps)
  next
    case True
    obtain h1 where h1: "evaluator_at ?V evals i h = (Inr (evs ! i), h1)" "allocs h h1" "objs h1 = objs h"
      using evaluator_at_run [OF h True] by blast
    then obtain h2 where h2: "claims_argument ?V (evs ! i) method [x] h1 = (Inr (?c (evs ! i)), h2)"
        "calm h0 S evals evs h2" "string_cell h2 x s"
      using ans calm_allocs [OF Suc.prems(1) h1(2,3)] string_cell_allocs [OF Suc.prems(2) h1(2)] True nth_mem
      unfolding answers_def by blast
    have "evaluators h2 evals evs" using h2(2) by (simp add: calm_def)
    then obtain h3 where h3: "bindM (vAt ?V evals (of_nat i)) (\<lambda>x. bindM (load x) (\<lambda>v. retM (Value_ToObject v))) h2 =
        (Inr (Some (evs ! i)), h3)" "objs h3 = objs h2" "allocs h2 h3"
      using evaluator_again True by blast
    have "length evs - Suc i < m" using Suc.prems(4) True by arith
    then obtain h4 where h4: "find_evaluator m ?V evals method [x] (Suc i) h2 =
        (Inr (List.find ?c (drop (Suc i) evs)), h4)" "calm h0 S evals evs h4"
      using Suc.IH [OF h2(2,3), of "Suc i"] True by (auto simp del: vtable.simps)
    have "drop i evs = evs ! i # drop (Suc i) evs" using True by (rule Cons_nth_drop_Suc [symmetric])
    then show ?thesis
      using size sz True h1(1) h2(1) h3(1) h4 calm_allocs [OF h2(2) h3(3,2)]
      by (cases "?c (evs ! i)") (simp_all add: bindM_Inr del: vtable.simps)
  qed
qed

lemma Evaluator_Find_run:
  assumes "answers (vtable (Suc n) N F) h S evals evs method claims" "evaluators h evals evs" "length evs < m"
  shows "\<exists>h'. FindEvaluatorWithMethod m (vtable (Suc n) N F) evals method arg h =
      (Inr (List.find (\<lambda>e. claims e (c_str arg)) evs), h') \<and> calm h S evals evs h'"
proof -
  obtain x h1 where h1: "new_string (c_str arg) h = (Inr x, h1)" "allocs h h1" "objs h1 = objs h" "string_cell h1 x (c_str arg)"
    using new_string_cell [of "c_str arg" h] by auto
  have "calm h S evals evs h" using assms(2) by (simp add: calm_def)
  from find_evaluator_run [OF assms(1) calm_allocs [OF this h1(2,3)] h1(4), of 0 m] assms(3) h1(1) show ?thesis
    by (auto simp: FindEvaluatorWithMethod_def bindM_Inr simp del: vtable.simps)
qed

text \<open>The call of the evaluator that was found: the MIME type, the name and the code as strings, and the scope.\<close>

lemma Script_Evaluate_call:
  assumes "FindEvaluatorWithMethod m V evals ''canEvaluate'' mimeType h = (Inr (Some e), h1)"
    and "KObject_GetMethod V e ''evaluate'' None h1 = (Inr (Some f), h2)"
  shows "\<exists>a1 a2 a3 a4 h3. string_cell h3 a1 (c_str mimeType) \<and> string_cell h3 a2 (c_str name) \<and> string_cell h3 a3 (c_str code)
    \<and> cells h3 a4 = Some (Value_NewObject scope) \<and> Script_Evaluate m V evals mimeType name code scope h = vCall V f [a1, a2, a3, a4] h3"
proof -
  obtain a1 k1 where a1: "new_string (c_str mimeType) h2 = (Inr a1, k1)" "string_cell k1 a1 (c_str mimeType)"
    using new_string_cell [of "c_str mimeType" h2] by auto
  obtain a2 k2 where a2: "new_string (c_str name) k1 = (Inr a2, k2)" "allocs k1 k2" "string_cell k2 a2 (c_str name)"
    using new_string_cell [of "c_str name" k1] by auto
  obtain a3 k3 where a3: "new_string (c_str code) k2 = (Inr a3, k3)" "allocs k2 k3" "string_cell k3 a3 (c_str code)"
    using new_string_cell [of "c_str code" k2] by auto
  obtain a4 k4 where a4: "new_value (Value_NewObject scope) k3 = (Inr a4, k4)" "allocs k3 k4" "cells k4 a4 = Some (Value_NewObject scope)"
    by (simp add: new_value_def allocs_def)
  have "Script_Evaluate m V evals mimeType name code scope h = vCall V f [a1, a2, a3, a4] k4"
    using assms a1(1) a2(1) a3(1) a4(1) by (simp add: Script_Evaluate_def bindM_Inr)
  then show ?thesis using a1(2) a2(2,3) a3(2,3) a4(2,3) string_cell_allocs by blast
qed

text \<open>C29: let every registered evaluator answer \<^verbatim>\<open>canEvaluate\<close> according to the string it is called with
  (\<open>claims e s\<close>), without changing the list. The search for an evaluator then ends and returns the
  first registered one that claims the MIME type, and evaluating calls the \<^verbatim>\<open>evaluate\<close> method of this
  one with the MIME type, the name, the code and the scope. When none claims the MIME type,
  evaluating throws an exception whose text names the MIME type, cut to the size of the logger's
  buffer.\<close>

theorem Script_Evaluate_dispatch:
  assumes "answers (vtable (Suc n) N F) h S evals evs ''canEvaluate'' claims" "evaluators h evals evs" "length evs < m"
  shows "\<exists>h1. FindEvaluatorWithMethod m (vtable (Suc n) N F) evals ''canEvaluate'' mimeType h =
        (Inr (List.find (\<lambda>e. claims e (c_str mimeType)) evs), h1) \<and> calm h S evals evs h1
    \<and> (case List.find (\<lambda>e. claims e (c_str mimeType)) evs of
         Some e \<Rightarrow> \<forall>f h2. KObject_GetMethod (vtable (Suc n) N F) e ''evaluate'' None h1 = (Inr (Some f), h2) \<longrightarrow>
           (\<exists>a1 a2 a3 a4 h3. string_cell h3 a1 (c_str mimeType) \<and> string_cell h3 a2 (c_str name) \<and> string_cell h3 a3 (c_str code)
             \<and> cells h3 a4 = Some (Value_NewObject scope)
             \<and> Script_Evaluate m (vtable (Suc n) N F) evals mimeType name code scope h = vCall (vtable (Suc n) N F) f [a1, a2, a3, a4] h3)
       | None \<Rightarrow> \<exists>x h'. Script_Evaluate m (vtable (Suc n) N F) evals mimeType name code scope h = (Inl (ValueException x), h')
           \<and> string_cell h' x (c_str (Format (''Error evaluating: No evaluator found for mimeType: '' @ [CHR 0x22] @
                c_str mimeType @ [CHR 0x22]))))"
proof -
  let ?V = "vtable (Suc n) N F" and ?e = "List.find (\<lambda>e. claims e (c_str mimeType)) evs"
  let ?s = "Format (''Error evaluating: No evaluator found for mimeType: '' @ [CHR 0x22] @ c_str mimeType @ [CHR 0x22])"
  obtain h1 where h1: "FindEvaluatorWithMethod m ?V evals ''canEvaluate'' mimeType h = (Inr ?e, h1)" "calm h S evals evs h1"
    using Evaluator_Find_run [OF assms] by blast
  show ?thesis
  proof (cases ?e)
    case None
    obtain x h2 where "new_string ?s h1 = (Inr x, h2)" "string_cell h2 x (c_str ?s)"
      using new_string_cell by blast
    then show ?thesis
      using h1 None by (intro exI [of _ h1]) (simp add: Script_Evaluate_def ValueException_FromFormat_def
          ValueException_FromString_def bindM_Inr raiseM_def del: vtable.simps)
  next
    case (Some e)
    then show ?thesis
      using h1 Script_Evaluate_call [OF h1(1) [unfolded Some]] by (intro exI [of _ h1]) (simp del: vtable.simps)
  qed
qed

text \<open>An evaluator for Ruby: one native serves as its \<^verbatim>\<open>canEvaluate\<close> and its \<^verbatim>\<open>evaluate\<close> method and
  answers whether its first argument is the string \<^verbatim>\<open>text/ruby\<close>.\<close>

definition ruby_natives :: natives where
  "ruby_natives _ V args r =
     (case args of
        [] \<Rightarrow> retM ()
      | a # _ \<Rightarrow> bindM (load a) (\<lambda>v.
          set_result r (Value_SetBool (Some (map_option snd (Value_ToString v) = Some ''text/ruby'')))))"

definition ruby_evaluator :: kobj where
  "ruby_evaluator = (StaticBoundObject_new ''Ruby'')\<lparr>properties := [(''canEvaluate'', 6), (''evaluate'', 6)]\<rparr>"

definition demo_evaluator_heap :: heap where
  "demo_evaluator_heap = demo_heap\<lparr>
     objs := [3 \<mapsto> \<lparr>cls = CStaticBoundList 1, otype = ''StaticBoundList'', properties = [(dec_of_nat 0, 5)]\<rparr>,
       4 \<mapsto> ruby_evaluator, 7 \<mapsto> StaticBoundMethod_new (Some (Native 0)) ''StaticBoundMethod''],
     cells := (cells demo_heap)(5 \<mapsto> Value_NewObject (Some 4), 6 \<mapsto> Value_NewMethod (Some 7)), next_addr := 8\<rparr>"

lemma demo_evaluators: "evaluators demo_evaluator_heap 3 [4]"
  by (simp add: evaluators_def list_ok_def list_elems_def demo_evaluator_heap_def
      holds_object_def plain_identity_def ruby_evaluator_def StaticBoundObject_new_def pmap_ok_def
      Value_NewObject_def Value_ToObject_def Value_SetObject_def)

lemma ruby_GetMethod:
  assumes "calm demo_evaluator_heap {4, 6, 7} 3 [4] h" and "name = ''canEvaluate'' \<or> name = ''evaluate''"
  shows "\<exists>h'. KObject_GetMethod (vtable (Suc 0) ruby_natives no_fnptrs) 4 name None h = (Inr (Some 7), h')
    \<and> allocs h h' \<and> objs h' = objs h"
proof -
  have ob: "objs h 4 = Some ruby_evaluator" "objs h 7 = Some (StaticBoundMethod_new (Some (Native 0)) ''StaticBoundMethod'')"
    and cell: "cells h 6 = Some (Value_NewMethod (Some 7))" "next_addr h \<noteq> 6"
    using assms(1) by (auto simp: calm_def demo_evaluator_heap_def)
  define h' where "h' = h\<lparr>cells := (cells h)(next_addr h \<mapsto> Value_NewUndefined), next_addr := Suc (next_addr h)\<rparr>"
  have "vGet (vtable (Suc 0) ruby_natives no_fnptrs) 4 name h = (Inr 6, h')"
    using ob(1) static_Get_run [OF ob(1), of name] assms(2)
    by (auto simp: vtable_sel dispatch_Get_def bindM_def load_obj_def ruby_evaluator_def StaticBoundObject_new_def h'_def
        simp del: vtable.simps)
  then have "KObject_GetMethod (vtable (Suc 0) ruby_natives no_fnptrs) 4 name None h = (Inr (Some 7), h')"
    using cell ob(2) by (simp add: KObject_GetMethod_def bindM_def load_def gets_def h'_def isMethod_def StaticBoundMethod_new_def
        Value_New_defs Value_Set_defs Value_Is_defs Value_ToMethod_def Value_new_def Value_reset_def del: vtable.simps)
  then show ?thesis by (auto simp: allocs_def h'_def)
qed

lemma ruby_answers:
  "answers (vtable (Suc 0) ruby_natives no_fnptrs) demo_evaluator_heap {4, 6, 7} 3 [4] ''canEvaluate'' (\<lambda>e s. s = ''text/ruby'')"
  unfolding answers_def
proof (intro allI impI)
  let ?V = "vtable (Suc 0) ruby_natives no_fnptrs"
  fix h e x s
  assume calm: "calm demo_evaluator_heap {4, 6, 7} 3 [4] h" and e: "e \<in> set [4 :: addr]" and x: "string_cell h x s"
  obtain h1 where h1: "KObject_GetMethod ?V 4 ''canEvaluate'' None h = (Inr (Some 7), h1)" "allocs h h1" "objs h1 = objs h"
    using ruby_GetMethod [OF calm] by blast
  have ob: "objs h1 7 = Some (StaticBoundMethod_new (Some (Native 0)) ''StaticBoundMethod'')"
    using calm h1(3) by (simp add: calm_def demo_evaluator_heap_def)
  have x1: "string_cell h1 x s" by (rule string_cell_allocs [OF x h1(2)])
  then obtain v k where v: "cells h1 x = Some v" "Value_ToString v = Some (k, s)" "x \<noteq> next_addr h1"
    by (auto simp: string_cell_def)
  define r where "r = Value_SetBool (Some (s = ''text/ruby'')) Value_NewUndefined"
  define h2 where "h2 = h1\<lparr>cells := (cells h1)(next_addr h1 \<mapsto> r), next_addr := Suc (next_addr h1)\<rparr>"
  have "vCall ?V 7 [x] h1 = (Inr (next_addr h1), h2)"
    using ob v by (simp add: vtable_sel dispatch_Call_def bindM_def load_obj_def StaticBoundMethod_new_def StaticBoundMethod_Call_def
        new_value_def ruby_natives_def load_def set_result_def store_def retM_def h2_def r_def del: vtable.simps)
  moreover have "(Value_IsBool r \<and> Value_ToBool r = Some True) = (s = ''text/ruby'')"
    by (simp add: r_def Value_Set_defs Value_Is_defs Value_ToBool_def)
  ultimately have "claims_argument ?V e ''canEvaluate'' [x] h = (Inr (s = ''text/ruby''), h2)"
    using e h1(1) by (simp add: claims_argument_def bindM_def load_def retM_def h2_def del: vtable.simps)
  moreover have al: "allocs h1 h2" "objs h2 = objs h1" by (simp_all add: allocs_def h2_def)
  ultimately show "\<exists>h'. claims_argument ?V e ''canEvaluate'' [x] h = (Inr (s = ''text/ruby''), h')
      \<and> calm demo_evaluator_heap {4, 6, 7} 3 [4] h' \<and> string_cell h' x s"
    using calm_allocs [OF calm_allocs [OF calm h1(2,3)] al] string_cell_allocs [OF x1 al(1)] by blast
qed

theorem Script_Evaluate_dispatch_witness:
  "(\<exists>a1 a2 a3 a4 h3. string_cell h3 a1 ''text/ruby'' \<and> string_cell h3 a2 ''a.rb'' \<and> string_cell h3 a3 ''puts''
      \<and> cells h3 a4 = Some (Value_NewObject None)
      \<and> Script_Evaluate 2 (vtable (Suc 0) ruby_natives no_fnptrs) 3 ''text/ruby'' ''a.rb'' ''puts'' None demo_evaluator_heap =
          vCall (vtable (Suc 0) ruby_natives no_fnptrs) 7 [a1, a2, a3, a4] h3)
   \<and> (\<exists>x h'. Script_Evaluate 2 (vtable (Suc 0) ruby_natives no_fnptrs) 3 ''text/php'' ''a.php'' ''puts'' None demo_evaluator_heap =
          (Inl (ValueException x), h'))"
proof
  have len: "length [4 :: addr] < 2" by simp
  have str: "c_str ''text/ruby'' = ''text/ruby''" "c_str ''a.rb'' = ''a.rb''" "c_str ''puts'' = ''puts''"
    "c_str ''text/php'' = ''text/php''" by code_simp+
  note run = Script_Evaluate_dispatch [OF ruby_answers demo_evaluators len]
  obtain h1 where h1: "calm demo_evaluator_heap {4, 6, 7} 3 [4] h1"
      "\<forall>f h2. KObject_GetMethod (vtable (Suc 0) ruby_natives no_fnptrs) 4 ''evaluate'' None h1 = (Inr (Some f), h2) \<longrightarrow>
         (\<exists>a1 a2 a3 a4 h3. string_cell h3 a1 ''text/ruby'' \<and> string_cell h3 a2 ''a.rb'' \<and> string_cell h3 a3 ''puts''
            \<and> cells h3 a4 = Some (Value_NewObject None)
            \<and> Script_Evaluate 2 (vtable (Suc 0) ruby_natives no_fnptrs) 3 ''text/ruby'' ''a.rb'' ''puts'' None demo_evaluator_heap =
                vCall (vtable (Suc 0) ruby_natives no_fnptrs) f [a1, a2, a3, a4] h3)"
    using run [where mimeType = "''text/ruby''" and name = "''a.rb''" and code = "''puts''" and scope = None]
    unfolding str by (auto simp del: vtable.simps)
  then show "\<exists>a1 a2 a3 a4 h3. string_cell h3 a1 ''text/ruby'' \<and> string_cell h3 a2 ''a.rb'' \<and> string_cell h3 a3 ''puts''
      \<and> cells h3 a4 = Some (Value_NewObject None)
      \<and> Script_Evaluate 2 (vtable (Suc 0) ruby_natives no_fnptrs) 3 ''text/ruby'' ''a.rb'' ''puts'' None demo_evaluator_heap =
          vCall (vtable (Suc 0) ruby_natives no_fnptrs) 7 [a1, a2, a3, a4] h3"
    using ruby_GetMethod [OF h1(1), of "''evaluate''"] by blast
  show "\<exists>x h'. Script_Evaluate 2 (vtable (Suc 0) ruby_natives no_fnptrs) 3 ''text/php'' ''a.php'' ''puts'' None demo_evaluator_heap =
      (Inl (ValueException x), h')"
    using run [where mimeType = "''text/php''" and name = "''a.php''" and code = "''puts''" and scope = None]
    unfolding str by (auto simp del: vtable.simps)
qed

end
