(* ===== verification/Kroll_Display.thy ===== *)
theory Kroll_Display
  imports Kroll_Script
begin

text \<open>
  What \<^verbatim>\<open>DisplayString\<close> (theory \<open>Kroll_Show\<close>) prints: a reference display for stores of plain objects,
  cyclic ones included, which the code agrees with, and the lists on which it does not return.
\<close>

section \<open>The reference\<close>

text \<open>Displaying allocates and changes nothing.\<close>

definition same_store :: "heap \<Rightarrow> heap \<Rightarrow> bool" where
  "same_store h h' \<longleftrightarrow> allocs h h' \<and> objs h' = objs h"

lemma same_store_refl [simp]: "same_store h h"
  by (simp add: same_store_def)

lemma same_store_trans: "same_store h h1 \<Longrightarrow> same_store h1 h2 \<Longrightarrow> same_store h h2"
  unfolding same_store_def using allocs_trans by auto

lemma same_store_cell: "same_store h h' \<Longrightarrow> x < next_addr h \<Longrightarrow> cells h' x = cells h x"
  by (simp add: same_store_def allocs_def)

lemma same_store_objs: "same_store h h' \<Longrightarrow> objs h' = objs h"
  by (simp add: same_store_def)

lemma same_store_kinds: "same_store h h' \<Longrightarrow> isList h' = isList h" "same_store h h' \<Longrightarrow> isMethod h' = isMethod h"
  by (simp_all add: same_store_def isList_def isMethod_def fun_eq_iff)

fun show_aval :: "(addr \<Rightarrow> string) \<Rightarrow> aval \<Rightarrow> string" where
  "show_aval f (AInt i) = dec_of_int (sint i) @ ''i''"
| "show_aval f (ADouble d) = (if dbl_eq (dbl_of_int (cast_int d)) d then dec_of_int (sint (cast_int d)) @ ''i''
     else show_double d @ ''d'')"
| "show_aval f (ABool b) = (if b then ''true'' else ''false'')"
| "show_aval f (AString s) = [CHR 0x22] @ s @ [CHR 0x22]"
| "show_aval f (AList a) = f a"
| "show_aval f (AObject a) = f a"
| "show_aval f (AMethod a) = f a"
| "show_aval f (AVoidPtr a) = ''<void* addr: '' @ show_pointer a @ ''>''"
| "show_aval f ANull = ''<null>''"
| "show_aval f AUndefined = ''<undefined>''"

fun pointee :: "aval \<Rightarrow> addr option" where
  "pointee (AList a) = Some a" | "pointee (AObject a) = Some a" | "pointee (AMethod a) = Some a" | "pointee _ = None"

text \<open>An object \<open>l\<close> levels deep: its properties in the order of their names.\<close>

primrec display_spec :: "nat \<Rightarrow> heap \<Rightarrow> addr \<Rightarrow> string" where
  "display_spec 0 h a = ''<KObject at '' @ show_pointer a @ ''>''"
| "display_spec (Suc l) h a =
     (case objs h a of
        None \<Rightarrow> []
      | Some ob \<Rightarrow> ''{'' @ intercalate '','' (map (\<lambda>(k, x). '' '' @ k @ '' : '' @
          (case cells h x of Some v \<Rightarrow> show_aval (display_spec l h) (denotes v) | None \<Rightarrow> [])) (properties ob)) @ ''}'')"

lemma Value_Display_run:
  assumes "cells h x = Some v" and "wf_value (isList h) (isMethod h) v"
  shows "Value_DisplayString D x levels h =
    (case pointee (denotes v) of Some a \<Rightarrow> bindM (less_levels levels) (D a) h | None \<Rightarrow> (Inr (show_aval f (denotes v)), h))"
  using assms
  by (cases "type v")
    (auto simp: Value_DisplayString_def bindM_def load_def Value_Is_defs Value_To_defs denotes_def wf_value_def of_opt_def
      gets_def M_defs autoptr_cast_def not_None_eq split: option.splits)

section \<open>Plain stores\<close>

lemma new_names_run:
  "\<exists>ns' h'. new_names ns h = (Inr ns', h') \<and> map snd ns' = ns \<and> same_store h h'"
proof (induction ns arbitrary: h)
  case (Cons n ns)
  have "same_store h (h\<lparr>next_addr := Suc (next_addr h)\<rparr>)" by (simp add: same_store_def allocs_def)
  moreover obtain ns' h' where "new_names ns (h\<lparr>next_addr := Suc (next_addr h)\<rparr>) = (Inr ns', h')" "map snd ns' = ns"
      "same_store (h\<lparr>next_addr := Suc (next_addr h)\<rparr>) h'"
    using Cons.IH by blast
  ultimately show ?case using same_store_trans by (auto simp: bindM_def fresh_def retM_def)
qed (simp add: retM_def)

lemma static_names_run:
  assumes "objs h a = Some ob" and "cls ob = CStaticBoundObject"
  shows "\<exists>ns h'. vNames (vtable (Suc m) N F) a h = (Inr ns, h') \<and> map snd ns = map fst (properties ob) \<and> same_store h h'"
  using assms new_names_run [of "map fst (properties ob)" h]
  by (simp add: Let_def dispatch_Names_def StaticBoundObject_GetPropertyNames_def load_obj_def bindM_def)

lemma static_get_run:
  assumes "objs h a = Some ob" and "cls ob = CStaticBoundObject" and "pmap_find name (properties ob) = Some x"
  shows "\<exists>h'. vGet (vtable (Suc m) N F) a name h = (Inr x, h') \<and> same_store h h'"
  using assms vtable_static_Get [OF assms(1,2)] static_Get_run [OF assms(1)]
  by (simp add: same_store_def allocs_def del: vtable.simps)

lemma pmap_find_member: "pmap_ok m \<Longrightarrow> (k, x) \<in> set m \<Longrightarrow> pmap_find k m = Some x"
  by (induction m) (auto simp: pmap_ok_def)

lemma display_properties_run:
  assumes "objs h0 a = Some ob" and "cls ob = CStaticBoundObject" and "pmap_ok (properties ob)"
    and "map snd ns = map fst ps" and "set ps \<subseteq> set (properties ob)" and "\<forall>p \<in> set ps. c_str (fst p) = fst p"
    and val: "\<And>p h. p \<in> set ps \<Longrightarrow> same_store h0 h \<Longrightarrow>
      \<exists>h'. Value_DisplayString D (snd p) levels h = (Inr (f (snd p)), h') \<and> same_store h0 h'"
    and "same_store h0 h"
  shows "\<exists>h'. display_properties (vtable (Suc m) N F) D a levels ns ss h =
      (Inr (ss @ concat (map (\<lambda>(k, x). '' '' @ k @ '' : '' @ f x @ '','') ps)), h') \<and> same_store h0 h'"
  using assms(4-8)
proof (induction ps arbitrary: ns ss h)
  case Nil
  then show ?case by (simp add: retM_def)
next
  case (Cons p ps)
  obtain n ns' where ns: "ns = n # ns'" "snd n = fst p" "map snd ns' = map fst ps" using Cons.prems(1) by auto
  obtain k x where p: "p = (k, x)" by (cases p)
  have "pmap_find k (properties ob) = Some x" using assms(3) Cons.prems(2) p by (auto intro: pmap_find_member)
  moreover have "objs h a = Some ob" using assms(1) Cons.prems(5) same_store_objs by simp
  ultimately obtain h1 where h1: "vGet (vtable (Suc m) N F) a k h = (Inr x, h1)" "same_store h h1"
    using static_get_run assms(2) by blast
  then obtain h2 where h2: "Value_DisplayString D x levels h1 = (Inr (f x), h2)" "same_store h0 h2"
    using Cons.prems(4) [of p h1] p same_store_trans [OF Cons.prems(5)] by auto
  have sub: "set ps \<subseteq> set (properties ob)" "\<forall>p \<in> set ps. c_str (fst p) = fst p" using Cons.prems(2,3) by simp_all
  obtain h' where "display_properties (vtable (Suc m) N F) D a levels ns' (ss @ '' '' @ k @ '' : '' @ f x @ '','') h2 =
      (Inr ((ss @ '' '' @ k @ '' : '' @ f x @ '','') @ concat (map (\<lambda>(k, x). '' '' @ k @ '' : '' @ f x @ '','') ps)), h')"
      "same_store h0 h'"
    using Cons.IH [OF ns(3) sub Cons.prems(4) [OF list.set_intros(2)] h2(2)] by blast
  moreover have "c_str k = k" using Cons.prems(3) p by simp
  ultimately show ?case
    using h1(1) h2(1) ns(1,2) p by (simp add: bindM_def del: vtable.simps)
qed

lemma butlast_commas:
  "ps \<noteq> [] \<Longrightarrow> butlast (concat (map (\<lambda>p. g p @ '','') ps)) = intercalate '','' (map g ps)"
proof (induction ps)
  case (Cons p ps)
  then show ?case
    by (cases ps) (auto simp: butlast_append intercalate_Cons)
qed simp

text \<open>Names of properties are C strings.\<close>

definition c_names :: "heap \<Rightarrow> bool" where
  "c_names h \<longleftrightarrow> (\<forall>a ob p. objs h a = Some ob \<longrightarrow> p \<in> set (properties ob) \<longrightarrow> c_str (fst p) = fst p)"

lemma value_display_run:
  assumes "wf_heap h0" and "cells h0 x = Some v" and h: "same_store h0 h" and "0 \<le> levels"
    and D: "\<And>b. objs h0 b \<noteq> None \<Longrightarrow> \<exists>h'. D b levels h = (Inr (g b), h') \<and> same_store h0 h'"
  shows "\<exists>h'. Value_DisplayString D x (levels + 1) h = (Inr (show_aval g (denotes v)), h') \<and> same_store h0 h'"
proof -
  have less: "x < next_addr h0" and wfv: "wf_cell h0 v"
    using assms(1,2) by (auto simp: wf_heap_def) (metis not_le option.distinct(1))
  have run: "Value_DisplayString D x (levels + 1) h =
      (case pointee (denotes v) of Some b \<Rightarrow> D b levels h | None \<Rightarrow> (Inr (show_aval g (denotes v)), h))"
    using Value_Display_run [of h x v D "levels + 1" g] assms(2,4) less h wfv same_store_kinds [OF h]
    by (simp add: same_store_cell wf_cell_def less_levels_def cong: option.case_cong)
  show ?thesis
  proof (cases "pointee (denotes v)")
    case None
    then show ?thesis using run h by simp
  next
    case (Some b)
    then have "show_aval g (denotes v) = g b" "objectValue v = Some b"
      using wfv by (cases "denotes v"; auto simp: denotes_def wf_cell_def wf_value_def split: vtype.splits)+
    then show ?thesis using run Some D [of b] wfv by (simp add: wf_cell_def)
  qed
qed

lemma plain_display:
  assumes "plain h0" and "c_names h0"
  shows "objs h0 a \<noteq> None \<Longrightarrow> same_store h0 h \<Longrightarrow>
    \<exists>h'. vDisplay (Suc l) (vtable (Suc m) N F) a (int l) h = (Inr (display_spec l h0 a), h') \<and> same_store h0 h'"
proof (induction l arbitrary: a h)
  case 0
  then obtain ob where "objs h0 a = Some ob" by (auto simp: not_None_eq)
  then show ?case
    using 0 assms(1) same_store_objs
    by (auto simp: plain_def bindM_def load_obj_def KObject_DisplayString_def retM_def simp del: vtable.simps)
next
  case (Suc l)
  let ?V = "vtable (Suc m) N F" and ?D = "vDisplay (Suc l) (vtable (Suc m) N F)"
  obtain ob where ob: "objs h0 a = Some ob" using Suc.prems by (auto simp: not_None_eq)
  have st: "cls ob = CStaticBoundObject" and wf: "wf_obj h0 ob" using assms(1) ob wf_heap_obj by (auto simp: plain_def)
  define f where "f x = (case cells h0 x of Some v \<Rightarrow> show_aval (display_spec l h0) (denotes v) | None \<Rightarrow> [])" for x
  have val: "\<exists>h'. Value_DisplayString ?D (snd p) (int (Suc l)) h = (Inr (f (snd p)), h') \<and> same_store h0 h'"
    if p: "p \<in> set (properties ob)" and h: "same_store h0 h" for p h
  proof -
    obtain v where v: "cells h0 (snd p) = Some v" using wf p by (auto simp: wf_obj_def not_None_eq)
    have "wf_heap h0" using assms(1) by (simp add: plain_def)
    from value_display_run [OF this v h, of "int l" ?D "display_spec l h0"] Suc.IH [OF _ h] v show ?thesis
      by (simp add: f_def add.commute del: vDisplay.simps vtable.simps)
  qed
  have obh: "objs h a = Some ob" using ob Suc.prems(2) same_store_objs by simp
  obtain ns h1 where ns: "vNames ?V a h = (Inr ns, h1)" "map snd ns = map fst (properties ob)" "same_store h0 h1"
    using static_names_run [OF obh st] same_store_trans [OF Suc.prems(2)] by blast
  have ok: "pmap_ok (properties ob)" and cn: "\<forall>p \<in> set (properties ob). c_str (fst p) = fst p"
    using wf assms(2) ob unfolding wf_obj_def c_names_def by blast+
  obtain h2 where h2: "display_properties ?V ?D a (int (Suc l)) ns ''{'' h1 =
      (Inr (''{'' @ concat (map (\<lambda>(k, x). '' '' @ k @ '' : '' @ f x @ '','') (properties ob))), h2)" "same_store h0 h2"
    using display_properties_run [OF ob st ok ns(2) subset_refl cn val ns(3)] by blast
  have len: "length ns = length (properties ob)" using ns(2) map_eq_imp_length_eq by metis
  have commas: "butlast (concat (map (\<lambda>(k, x). '' '' @ k @ '' : '' @ f x @ '','') ps)) =
      intercalate '','' (map (\<lambda>(k, x). '' '' @ k @ '' : '' @ f x) ps)" if "ps \<noteq> []" for ps
    using butlast_commas [OF that, of "\<lambda>(k, x). '' '' @ k @ '' : '' @ f x"] by (simp add: case_prod_unfold)
  have "concat (map (\<lambda>(k, x). '' '' @ k @ '' : '' @ f x @ '','') ps) \<noteq> []" if "ps \<noteq> []" for ps
    using that by (cases ps) auto
  then have spec: "(if length ns > 0 then butlast (''{'' @ concat (map (\<lambda>(k, x). '' '' @ k @ '' : '' @ f x @ '','') (properties ob)))
      else ''{'' @ concat (map (\<lambda>(k, x). '' '' @ k @ '' : '' @ f x @ '','') (properties ob))) @ ''}'' = display_spec (Suc l) h0 a"
    using ob commas [of "properties ob"] len by (cases "properties ob = []") (auto simp: f_def butlast_append)
  have "KObject_DisplayString ?V ?D a (int (Suc l)) h = (Inr (display_spec (Suc l) h0 a), h2)"
    unfolding KObject_DisplayString_def bindM_def spec [symmetric]
    using ns(1) h2(1) by (simp add: retM_def bindM_def del: vDisplay.simps vtable.simps)
  then show ?case
    using h2(2) obh st by (simp add: bindM_def load_obj_def del: vtable.simps vDisplay.simps(2) [of "Suc l"])
qed

section \<open>A list that contains itself\<close>

definition self_list :: "heap \<Rightarrow> addr \<Rightarrow> addr \<Rightarrow> bool" where
  "self_list h lst x \<longleftrightarrow> list_ok lst h \<and> list_elems lst h = [Some x] \<and> x < next_addr h
     \<and> (\<exists>v. cells h x = Some v \<and> wf_cell h v \<and> denotes v = AList lst)"

lemma self_list_same: "self_list h lst x \<Longrightarrow> same_store h h' \<Longrightarrow> self_list h' lst x"
proof -
  assume h: "self_list h lst x" "same_store h h'"
  then obtain v where v: "cells h x = Some v" "wf_cell h v" "denotes v = AList lst" "x < next_addr h"
    by (auto simp: self_list_def)
  have "next_addr h \<le> next_addr h'" using h(2) by (simp add: same_store_def allocs_def)
  moreover have "wf_cell h' v" using v(2) same_store_kinds [OF h(2)] same_store_objs [OF h(2)] by (simp add: wf_cell_def)
  moreover have "list_ok lst h'" "list_elems lst h' = [Some x]"
    using h(1) same_store_objs [OF h(2)] by (simp_all add: self_list_def list_ok_def list_elems_def)
  ultimately show "self_list h' lst x" using v same_store_cell [OF h(2) v(4)] by (auto simp: self_list_def)
qed

lemma self_list_ops:
  assumes "self_list h lst x"
  shows "vSize (vtable (Suc m) N F) lst h = (Inr 1, h)"
    and "\<exists>h'. vAt (vtable (Suc m) N F) lst 0 h = (Inr x, h') \<and> same_store h h'"
proof -
  obtain ob len where ob: "objs h lst = Some ob" "list_length (cls ob) = Some len"
      "list_elems lst h = map (\<lambda>i. pmap_find (dec_of_nat i) (properties ob)) [0..<unat len]"
    using assms list_object unfolding self_list_def by blast
  then have "map (\<lambda>i. pmap_find (dec_of_nat i) (properties ob)) [0..<unat len] = [Some x]"
    using assms by (simp add: self_list_def)
  then have "unat len = 1" "pmap_find (dec_of_nat 0) (properties ob) = Some x" by (auto simp: map_eq_Cons_conv upt_eq_Cons_conv)
  then show "\<exists>h'. vAt (vtable (Suc m) N F) lst 0 h = (Inr x, h') \<and> same_store h h'"
    using ob(1,2) list_At_run [OF ob(1), of 0] by (simp add: Let_def dispatch_list_static same_store_def allocs_def)
  show "vSize (vtable (Suc m) N F) lst h = (Inr 1, h)"
    using static_list.size_law [of lst h] assms by (simp add: self_list_def)
qed

lemma vDisplay_list:
  assumes "objs h lst = Some ob" and "list_length (cls ob) = Some len"
  shows "vDisplay (Suc n) V lst levels h = KList_DisplayString n V (vDisplay n V) lst levels h"
  using assms by (cases "cls ob") (simp_all add: bindM_def load_obj_def del: vDisplay.simps add: vDisplay.simps(2) [of n])

text \<open>One round: the list is displayed again with two levels less.\<close>

lemma self_list_step:
  assumes "self_list h lst x" and "levels \<noteq> 0"
  shows "\<exists>h1. same_store h h1 \<and> vDisplay (Suc (Suc n)) (vtable (Suc m) N F) lst levels h =
    bindM (less_levels levels) (\<lambda>l. bindM (less_levels l) (\<lambda>l'.
    bindM (vDisplay (Suc n) (vtable (Suc m) N F) lst l') (\<lambda>s.
    bindM (display_elements n (vtable (Suc m) N F) (vDisplay (Suc n) (vtable (Suc m) N F)) lst levels 1
      (''[ '' @ s @ '','')) (\<lambda>oss. retM (oss @ '' ]''))))) h1"
proof -
  let ?V = "vtable (Suc m) N F" and ?D = "vDisplay (Suc n) (vtable (Suc m) N F)"
  obtain h1 where h1: "vAt ?V lst 0 h = (Inr x, h1)" "same_store h h1" using self_list_ops(2) [OF assms(1)] by blast
  obtain v where v: "cells h1 x = Some v" "wf_cell h1 v" "denotes v = AList lst"
    using self_list_same [OF assms(1) h1(2)] by (auto simp: self_list_def)
  have val: "Value_DisplayString ?D x l h1 = bindM (less_levels l) (?D lst) h1" for l
    using Value_Display_run [OF v(1), of ?D l] v(2,3)
    by (simp add: wf_cell_def del: vDisplay.simps vtable.simps)
  obtain ob len where ob: "objs h lst = Some ob" "list_length (cls ob) = Some len"
    using assms(1) by (auto simp: self_list_def list_ok_def)
  have "display_elements (Suc n) ?V ?D lst levels 0 ''['' h =
      bindM (less_levels levels) (\<lambda>l. bindM (less_levels l) (\<lambda>l'. bindM (?D lst l')
        (\<lambda>s. display_elements n ?V ?D lst levels 1 (''[ '' @ s @ '','')))) h1"
    using self_list_ops(1) [OF assms(1)] h1(1) val
    by (simp add: bindM_def less_levels_def retM_def raiseM_def del: vDisplay.simps vtable.simps)
  then have "KList_DisplayString (Suc n) ?V ?D lst levels h =
      bindM (bindM (less_levels levels) (\<lambda>l. bindM (less_levels l) (\<lambda>l'. bindM (?D lst l')
        (\<lambda>s. display_elements n ?V ?D lst levels 1 (''[ '' @ s @ '',''))))) (\<lambda>oss. retM (oss @ '' ]'')) h1"
    unfolding KList_DisplayString_def using assms(2) by (simp only: if_False bindM_def)
  then have "vDisplay (Suc (Suc n)) ?V lst levels h = bindM (less_levels levels) (\<lambda>l. bindM (less_levels l) (\<lambda>l'.
      bindM (?D lst l') (\<lambda>s. bindM (display_elements n ?V ?D lst levels 1 (''[ '' @ s @ '','')) (\<lambda>oss. retM (oss @ '' ]''))))) h1"
    unfolding bindM_assoc vDisplay_list [OF ob] .
  then show ?thesis using h1(2) by blast
qed

lemma self_list_diverges:
  "self_list h lst x \<Longrightarrow> odd levels \<or> levels < 0 \<Longrightarrow> vDisplay n (vtable (Suc m) N F) lst levels h \<noteq> (Inr s, h')"
proof (induction n arbitrary: h levels s h')
  case 0
  then show ?case by (simp add: raiseM_def)
next
  case (Suc n)
  have "levels \<noteq> 0" using Suc.prems(2) by auto
  show ?case
  proof (cases n)
    case 0
    then show ?thesis
      using Suc.prems(1) \<open>levels \<noteq> 0\<close>
      by (auto simp: self_list_def list_ok_def bindM_def load_obj_def KList_DisplayString_def KMethod_DisplayString_def
          raiseM_def elim: list_length.elims)
  next
    case (Suc n')
    obtain h1 where h1: "same_store h h1" "vDisplay (Suc n) (vtable (Suc m) N F) lst levels h =
      bindM (less_levels levels) (\<lambda>l. bindM (less_levels l) (\<lambda>l'.
      bindM (vDisplay n (vtable (Suc m) N F) lst l') (\<lambda>s.
      bindM (display_elements n' (vtable (Suc m) N F) (vDisplay n (vtable (Suc m) N F)) lst levels 1
        (''[ '' @ s @ '','')) (\<lambda>oss. retM (oss @ '' ]''))))) h1"
      using self_list_step [OF Suc.prems(1) \<open>levels \<noteq> 0\<close>, of n' m N F] unfolding Suc by blast
    have "vDisplay n (vtable (Suc m) N F) lst (levels - 2) h1 \<noteq> (Inr s1, h2)" for s1 h2
      by (rule Suc.IH [OF self_list_same [OF Suc.prems(1) h1(1)]]) (use Suc.prems(2) in auto)
    then show ?thesis
      unfolding h1(2) by (auto simp: bindM_def less_levels_def retM_def raiseM_def simp del: vDisplay.simps vtable.simps
          split: prod.splits sum.splits)
  qed
qed

lemma self_list_returns:
  "self_list h lst x \<Longrightarrow>
    \<exists>s h'. vDisplay (k + 2) (vtable (Suc m) N F) lst (2 * int k) h = (Inr s, h') \<and> same_store h h'"
proof (induction k arbitrary: h)
  case 0
  then obtain ob len where "objs h lst = Some ob" "list_length (cls ob) = Some len"
    by (auto simp: self_list_def list_ok_def)
  then show ?case
    by (simp add: numeral_2_eq_2 vDisplay_list KList_DisplayString_def retM_def del: vDisplay.simps vtable.simps)
next
  case (Suc k)
  let ?V = "vtable (Suc m) N F" and ?D = "vDisplay (Suc (Suc k)) (vtable (Suc m) N F)" and ?l = "2 * int (Suc k)"
  obtain h1 where h1: "same_store h h1" "vDisplay (Suc (Suc (Suc k))) ?V lst ?l h =
      bindM (?D lst (?l - 2)) (\<lambda>s. bindM (display_elements (Suc k) ?V ?D lst ?l 1 (''[ '' @ s @ '',''))
        (\<lambda>oss. retM (oss @ '' ]''))) h1"
    using self_list_step [OF Suc.prems, of ?l "Suc k" m N F] by (auto simp: less_levels_def simp del: vDisplay.simps vtable.simps display_elements.simps)
  have h1': "self_list h1 lst x" by (rule self_list_same [OF Suc.prems h1(1)])
  obtain s h2 where h2: "?D lst (2 * int k) h1 = (Inr s, h2)" "same_store h1 h2"
    using Suc.IH [OF h1'] by auto
  have "vSize ?V lst h2 = (Inr 1, h2)" by (rule self_list_ops(1) [OF self_list_same [OF h1' h2(2)]])
  then have el: "display_elements (Suc k) ?V ?D lst ?l 1 oss h2 = (Inr oss, h2)" for oss
    by (simp add: bindM_def retM_def del: vDisplay.simps vtable.simps)
  have l: "?l - 2 = 2 * int k" by simp
  have "vDisplay (Suc k + 2) ?V lst ?l h = (Inr ((''[ '' @ s @ '','') @ '' ]''), h2)"
    using h1(2) h2(1) el unfolding l
    by (simp add: bindM_def retM_def del: vDisplay.simps vtable.simps display_elements.simps)
  then show ?case using same_store_trans [OF h1(1) h2(2)] by blast
qed

section \<open>Properties\<close>

text \<open>C32: 
  Displaying a value in a store of plain objects returns for every positive number of levels, however
  the objects refer to each other; the string is that of the reference, which cuts off after the given
  number of objects, and the store is unchanged but for new cells.
\<close>

theorem DisplayString_correct:
  assumes "plain h" and "c_names h" and "cells h x = Some v"
  shows "\<exists>h'. Value_DisplayString (vDisplay (Suc l) (vtable (Suc m) N F)) x (int l + 1) h =
      (Inr (show_aval (display_spec l h) (denotes v)), h') \<and> same_store h h'"
proof -
  have "wf_heap h" using assms(1) by (simp add: plain_def)
  then show ?thesis
    by (rule value_display_run [OF _ assms(3) same_store_refl]) (simp_all add: plain_display [OF assms(1,2)] del: vDisplay.simps vtable.simps)
qed

definition demo_cycle :: heap where
  "demo_cycle = demo_heap\<lparr>cells := (cells demo_heap)(4 \<mapsto> Value_NewObject (Some 3)),
     objs := [3 \<mapsto> \<lparr>cls = CStaticBoundObject, otype = ''KObject'', properties = [(''self'', 4)]\<rparr>], next_addr := 5\<rparr>"

lemma demo_cycle_plain: "plain demo_cycle" "c_names demo_cycle"
  by (auto simp: plain_def wf_heap_def wf_listeners_def wf_jobs_def demo_cycle_def demo_heap_def Undefined_addr_def
      Null_addr_def wf_obj_def pmap_ok_def c_names_def split: if_splits)

theorem DisplayString_correct_witness:
  "\<exists>h'. Value_DisplayString (vDisplay 3 (vtable 1 no_natives no_fnptrs)) 4 3 demo_cycle =
      (Inr ''{ self : { self : <KObject at 0x3>}}'', h')"
proof -
  have cell: "cells demo_cycle 4 = Some (Value_NewObject (Some 3))" by (simp add: demo_cycle_def)
  have "display_spec 2 demo_cycle 3 = ''{ self : { self : <KObject at 0x3>}}''"
    by (simp add: numeral_2_eq_2 demo_cycle_def denotes_def Value_New_defs Value_Set_defs show_pointer_def hex_of_nat.simps hex_char_def)
  then show ?thesis
    using DisplayString_correct [OF demo_cycle_plain cell, of 2 0 no_natives no_fnptrs]
    by (auto simp: numeral_3_eq_3 denotes_def Value_New_defs Value_Set_defs simp del: vDisplay.simps vtable.simps display_spec.simps)
qed

text \<open>C33: 
  The number of levels does not bound the depth in general: a list counts twice, so it can step over
  zero. A list that holds itself is displayed if and only if the number of levels is even and not
  negative; with the default of three, and so under an object as well, the code never returns.
\<close>

theorem DisplayString_self_list:
  assumes "self_list h lst x"
  shows "(\<exists>n s h'. vDisplay n (vtable (Suc m) N F) lst levels h = (Inr s, h')) \<longleftrightarrow> 0 \<le> levels \<and> even levels"
proof
  assume "\<exists>n s h'. vDisplay n (vtable (Suc m) N F) lst levels h = (Inr s, h')"
  then show "0 \<le> levels \<and> even levels" using self_list_diverges [OF assms] by (meson not_le)
next
  assume "0 \<le> levels \<and> even levels"
  then obtain k where "levels = 2 * int k" by (auto elim!: evenE simp: zero_le_mult_iff intro: nonneg_int_cases)
  then show "\<exists>n s h'. vDisplay n (vtable (Suc m) N F) lst levels h = (Inr s, h')"
    using self_list_returns [OF assms] by blast
qed

definition demo_self_list :: heap where
  "demo_self_list = demo_heap\<lparr>cells := (cells demo_heap)(4 \<mapsto> Value_NewList (Some 3)),
     objs := [3 \<mapsto> \<lparr>cls = CStaticBoundList 1, otype = ''KList'', properties = [(''0'', 4)]\<rparr>], next_addr := 5\<rparr>"

theorem DisplayString_self_list_witness:
  "(\<forall>n s h'. vDisplay n (vtable 1 no_natives no_fnptrs) 3 3 demo_self_list \<noteq> (Inr s, h'))
   \<and> (\<exists>n s h'. vDisplay n (vtable 1 no_natives no_fnptrs) 3 2 demo_self_list = (Inr s, h'))"
proof -
  have "dec_of_nat 0 = ''0''" by code_simp
  then have "self_list demo_self_list 3 4"
    by (simp add: self_list_def list_ok_def list_elems_def demo_self_list_def pmap_ok_def
        wf_cell_def denotes_def Value_New_defs Value_Set_defs wf_value_def isList_def)
  from DisplayString_self_list [OF this, of 0 no_natives no_fnptrs 3] DisplayString_self_list [OF this, of 0 no_natives no_fnptrs 2]
  show ?thesis by (simp del: vDisplay.simps vtable.simps)
qed

end
