(* ===== verification/Kroll_Api.thy ===== *)
theory Kroll_Api
  imports Kroll_Display Kroll_BootUtils
begin

text \<open>
  The API object that scripts see (\<^verbatim>\<open>src/modules/api/api_binding.cpp\<close>) and its script interface
  (\<^verbatim>\<open>script_binding.cpp\<close>): the functions that work on the store of the binding layer. \<open>this\<close> is the API
  object, \<open>glob\<close> the global object, \<open>evals\<close> the list of script evaluators. A function gets the list of its
  arguments and the cell of its result.

  The other functions of the API object are in \<^verbatim>\<open>Kroll_ApiModule\<close>.
\<close>

declare not_None_eq [iff]

section \<open>Names\<close>

definition APIBinding__Set :: "vt \<Rightarrow> addr \<Rightarrow> addr \<Rightarrow> addr list \<Rightarrow> unit M" where
  "APIBinding__Set V this glob args =
     bindM (arg_string args 0) (\<lambda>key.
     bindM (args_at args 1) (\<lambda>v.
       if find_first_of (c_str key) ''.'' 0 = None then vSet V this (c_str key) v
       else KObject_SetNS V glob (c_str key) v))"

definition APIBinding__Get :: "vt \<Rightarrow> addr \<Rightarrow> addr \<Rightarrow> addr list \<Rightarrow> addr \<Rightarrow> unit M" where
  "APIBinding__Get V this glob args result =
     bindM (arg_string args 0) (\<lambda>key.
     bindM (if find_first_of (c_str key) ''.'' 0 = None then vGet V this (c_str key)
            else KObject_GetNS V glob (c_str key)) (\<lambda>r.
       SetValue result r))"

section \<open>Output\<close>

primrec APIBinding__Print :: "(addr \<Rightarrow> int \<Rightarrow> string M) \<Rightarrow> addr list \<Rightarrow> unit M" where
  "APIBinding__Print D [] = retM ()"
| "APIBinding__Print D (arg # args) =
     bindM (load arg) (\<lambda>v.
     bindM (if Value_IsString v then bindM (of_opt (Value_ToString v)) (\<lambda>(_, s). retM (c_str s))
            else Value_DisplayString D arg 3) (\<lambda>s.
     bindM (write_stdout s) (\<lambda>_. APIBinding__Print D args)))"

section \<open>Events and the main thread\<close>

definition APIBinding__AddEventListener :: "addr \<Rightarrow> addr list \<Rightarrow> addr \<Rightarrow> unit M" where
  "APIBinding__AddEventListener rootObj args result = KEventObject__AddEventListener rootObj args result"

definition APIBinding__RemoveEventListener :: "addr \<Rightarrow> addr list \<Rightarrow> unit M" where
  "APIBinding__RemoveEventListener rootObj args = KEventObject__RemoveEventListener rootObj args"

definition is_event :: "kclass \<Rightarrow> bool" where
  "is_event c = (case c of CEvent _ _ _ _ _ _ \<Rightarrow> True | _ \<Rightarrow> False)"

definition APIBinding__FireEvent :: "string \<Rightarrow> vt \<Rightarrow> addr \<Rightarrow> addr list \<Rightarrow> unit M" where
  "APIBinding__FireEvent what V rootObj args =
     bindM (ArgList_VerifyException args ''fireEvent'' ''s|o'') (\<lambda>_.
     bindM (args_at args 0) (\<lambda>a. bindM (load a) (\<lambda>v.
       if Value_IsString v then
         bindM (ArgList_GetString args 0 []) (\<lambda>eventName.
         bindM (KEventObject_FireRootEventNamed what V rootObj eventName) (\<lambda>_. retM ()))
       else if Value_IsObject v then
         bindM (ArgList_GetObject args 0 None) (\<lambda>p.
         bindM (gets (\<lambda>h. has_class is_event h p)) (\<lambda>isEvent.
           if isEvent then
             bindM (of_opt p) (\<lambda>event.
             bindM (KEventObject_FireRootEvent what V rootObj event) (\<lambda>_. retM ()))
           else retM ()))
       else retM ())))"

definition APIBinding__RunOnMainThread :: "string \<Rightarrow> vt \<Rightarrow> addr list \<Rightarrow> addr \<Rightarrow> unit M" where
  "APIBinding__RunOnMainThread what V args result =
     bindM (args_at args 0) (\<lambda>a. bindM (load a) (\<lambda>v.
       if \<not> Value_IsMethod v then ValueException_FromString ''First argument to runOnMainThread was not a function''
       else bindM (ArgList_GetMethod args 0 None) (\<lambda>m.
            bindM (InvokeMethodOnMainThread what V (null_ptr m) (drop 1 args) True) (\<lambda>outResult.
              SetValue result outResult))))"

definition APIBinding__RunOnMainThreadAsync :: "string \<Rightarrow> vt \<Rightarrow> addr list \<Rightarrow> unit M" where
  "APIBinding__RunOnMainThreadAsync what V args =
     bindM (args_at args 0) (\<lambda>a. bindM (load a) (\<lambda>v.
       if \<not> Value_IsMethod v then ValueException_FromString ''First argument to runOnMainThread was not a function''
       else bindM (ArgList_GetMethod args 0 None) (\<lambda>m.
            bindM (InvokeMethodOnMainThread what V (null_ptr m) (drop 1 args) False) (\<lambda>_. retM ()))))"

section \<open>Components and manifests\<close>

definition RUNTIME_UUID :: string where "RUNTIME_UUID = ''A2AC5CB5-8C52-456C-9525-601A5B0725DA''"
definition MODULE_UUID :: string where "MODULE_UUID = ''1ACE5D3A-2B52-43FB-A136-007BD166CFD0''"
definition SDK_UUID :: string where "SDK_UUID = ''FF71038E-3CD6-40EA-A1C2-CFEE1D284CEA''"
definition MOBILESDK_UUID :: string where "MOBILESDK_UUID = ''05645B49-C629-4D8F-93AF-F1CF83200E34''"
definition APP_UPDATE_UUID :: string where "APP_UPDATE_UUID = ''353AACB5-A36C-406A-8A67-33CD45E36550''"

text \<open>The numbers of the enumeration.\<close>

fun component_code :: "KComponentType \<Rightarrow> int32" where
  "component_code MODULE = 0"
| "component_code RUNTIME = 1"
| "component_code SDK = 2"
| "component_code MOBILESDK = 3"
| "component_code APP_UPDATE = 4"
| "component_code UNKNOWN = 5"

definition APIBinding__ComponentGUIDToComponentType :: "addr list \<Rightarrow> addr \<Rightarrow> unit M" where
  "APIBinding__ComponentGUIDToComponentType args result =
     bindM (arg_string args 0) (\<lambda>type.
       let t = c_str type in
       set_result result (Value_SetInt (component_code
         (if t = RUNTIME_UUID then RUNTIME
          else if t = MODULE_UUID then MODULE
          else if t = SDK_UUID then SDK
          else if t = MOBILESDK_UUID then MOBILESDK
          else if t = APP_UPDATE_UUID then APP_UPDATE
          else UNKNOWN))))"

definition APIBinding__GetComponentSearchPaths :: "string list \<Rightarrow> addr \<Rightarrow> unit M" where
  "APIBinding__GetComponentSearchPaths paths result =
     bindM (StaticBoundList_FromStringVector paths) (\<lambda>pathList. set_result result (Value_SetList (Some pathList)))"

primrec manifest_entries :: "vt \<Rightarrow> addr \<Rightarrow> (string \<times> string) list \<Rightarrow> unit M" where
  "manifest_entries V lst [] = retM ()"
| "manifest_entries V lst (p # ps) =
     bindM (new_object (StaticBoundList_new ''StaticBoundList'')) (\<lambda>entry.
     bindM (new_string (fst p)) (\<lambda>a.
     bindM (vAppend V entry a) (\<lambda>_.
     bindM (new_string (snd p)) (\<lambda>b.
     bindM (vAppend V entry b) (\<lambda>_.
     bindM (new_value (Value_NewList (Some entry))) (\<lambda>e.
     bindM (vAppend V lst e) (\<lambda>_. manifest_entries V lst ps)))))))"

definition ManifestToKList :: "vt \<Rightarrow> (string \<times> string) list \<Rightarrow> addr M" where
  "ManifestToKList V manifest =
     bindM (new_object (StaticBoundList_new ''StaticBoundList'')) (\<lambda>lst.
     bindM (manifest_entries V lst manifest) (\<lambda>_. retM lst))"

section \<open>Blobs\<close>

text \<open>The arguments are collected by the same loop as in \<^verbatim>\<open>Blob::Concat\<close>.\<close>

definition APIBinding__CreateBlob :: "addr list \<Rightarrow> addr \<Rightarrow> unit M" where
  "APIBinding__CreateBlob args result =
     bindM (ArgList_VerifyException args ''createBlob'' ''?s|o'') (\<lambda>_.
     bindM (concat_args args []) (\<lambda>blobs.
     bindM (Blob_GlobBlobs blobs) (\<lambda>p. set_result result (Value_SetObject (Some p)))))"

section \<open>Script evaluators\<close>

text \<open>The signature makes the argument an object.\<close>

definition ScriptBinding__AddScriptEvaluator :: "vt \<Rightarrow> addr \<Rightarrow> addr list \<Rightarrow> unit M" where
  "ScriptBinding__AddScriptEvaluator V evals args =
     bindM (ArgList_VerifyException args ''addScriptEvaluator'' ''o'') (\<lambda>_.
     bindM (ArgList_GetObject args 0 None) (\<lambda>evaluator.
     bindM (of_opt evaluator) (\<lambda>e. AddScriptEvaluator V evals e)))"

definition ScriptBinding__RemoveScriptEvaluator :: "nat \<Rightarrow> vt \<Rightarrow> addr \<Rightarrow> addr list \<Rightarrow> unit M" where
  "ScriptBinding__RemoveScriptEvaluator n V evals args =
     bindM (ArgList_VerifyException args ''removeScriptEvaluator'' ''o'') (\<lambda>_.
     bindM (ArgList_GetObject args 0 None) (\<lambda>evaluator. RemoveScriptEvaluator n V evals (null_ptr evaluator)))"

text \<open>The other functions keep the \<^verbatim>\<open>c_str()\<close> of a temporary string, which is destroyed at the end of the
  statement; reading it afterwards is undefined.\<close>

definition freed_string :: "string \<Rightarrow> string M" where
  "freed_string s = raiseM UB"

definition ScriptBinding__CanEvaluate :: "nat \<Rightarrow> vt \<Rightarrow> addr \<Rightarrow> addr list \<Rightarrow> addr \<Rightarrow> unit M" where
  "ScriptBinding__CanEvaluate n V evals args result =
     bindM (ArgList_VerifyException args ''canEvaluate'' ''s'') (\<lambda>_.
     bindM (bindM (ArgList_GetString args 0 []) freed_string) (\<lambda>mimeType.
     bindM (CanEvaluate n V evals mimeType) (\<lambda>b. set_result result (Value_SetBool (Some b)))))"

definition ScriptBinding__CanPreprocess :: "nat \<Rightarrow> vt \<Rightarrow> addr \<Rightarrow> addr list \<Rightarrow> addr \<Rightarrow> unit M" where
  "ScriptBinding__CanPreprocess n V evals args result =
     bindM (ArgList_VerifyException args ''canPreprocess'' ''s'') (\<lambda>_.
     bindM (bindM (ArgList_GetString args 0 []) freed_string) (\<lambda>url.
     bindM (CanPreprocess n V evals url) (\<lambda>b. set_result result (Value_SetBool (Some b)))))"

definition ScriptBinding__Evaluate :: "nat \<Rightarrow> vt \<Rightarrow> addr \<Rightarrow> addr list \<Rightarrow> addr \<Rightarrow> unit M" where
  "ScriptBinding__Evaluate n V evals args result =
     bindM (ArgList_VerifyException args ''evaluate'' ''s s s o'') (\<lambda>_.
     bindM (bindM (ArgList_GetString args 0 []) freed_string) (\<lambda>mimeType.
     bindM (bindM (ArgList_GetString args 1 []) freed_string) (\<lambda>name.
     bindM (bindM (ArgList_GetString args 2 []) freed_string) (\<lambda>code.
     bindM (ArgList_GetObject args 3 None) (\<lambda>scope.
     bindM (Script_Evaluate n V evals mimeType name code scope) (\<lambda>v. SetValue result v))))))"

definition ScriptBinding__Preprocess :: "nat \<Rightarrow> vt \<Rightarrow> addr \<Rightarrow> addr list \<Rightarrow> addr \<Rightarrow> unit M" where
  "ScriptBinding__Preprocess n V evals args result =
     bindM (ArgList_VerifyException args ''preprocess'' ''s o'') (\<lambda>_.
     bindM (bindM (ArgList_GetString args 0 []) freed_string) (\<lambda>url.
     bindM (ArgList_GetObject args 1 None) (\<lambda>scope.
     bindM (Script_Preprocess n V evals url scope) (\<lambda>data.
     bindM (new_object (StaticBoundObject_new ''StaticBoundObject'')) (\<lambda>o'.
     bindM (of_opt data) (\<lambda>(blob, mimeType).
     bindM (new_string (c_str mimeType)) (\<lambda>m.
     bindM (vSet V o' ''mimeType'' m) (\<lambda>_.
     bindM (new_value (Value_NewObject blob)) (\<lambda>d.
     bindM (vSet V o' ''data'' d) (\<lambda>_.
       set_result result (Value_SetObject (Some o'))))))))))))"

section \<open>The invariant\<close>

lemma SetValue_wf:
  assumes "wf_cell h vo"
  shows "\<exists>v'. Value_SetValue (isList h) (isMethod h) b vo vt = Some v' \<and> wf_cell h v' \<and> denotes v' = narrow (denotes vo)"
proof -
  have wf: "wf_value (isList h) (isMethod h) vo" using assms by (simp add: wf_cell_def)
  obtain v' where v': "Value_SetValue (isList h) (isMethod h) b vo vt = Some v'"
      "wf_value (isList h) (isMethod h) v'" "denotes v' = narrow (denotes vo)"
    using Value_SetValue_works [OF wf] by blast
  have "objectValue v' = objectValue vo"
    using v'(2,3) wf by (auto simp: denotes_def narrow_def wf_value_def split: vtype.splits if_splits)
  then show ?thesis using v' assms by (simp add: wf_cell_def)
qed

lemma sound_SetValue:
  assumes "wf_heap h"
  shows "sound h (SetValue r x) (\<lambda>_ _. True)"
proof -
  have "sound h' (\<lambda>h. case Value_SetValue (isList h) (isMethod h) b vo vt of Some v \<Rightarrow> store r v h | None \<Rightarrow> (Inl UB, h)) (\<lambda>_ _. True)"
    if h': "wf_heap h'" "heap_le h h'" and vo: "wf_cell h vo" for h' b vo vt
  proof -
    obtain v' where "Value_SetValue (isList h') (isMethod h') b vo vt = Some v'" "wf_cell h' v'"
      using SetValue_wf [OF wf_cell_mono [OF h'(2) vo]] by blast
    then show ?thesis using sound_store [OF h'(1), of v' r] by (simp add: sound_def cong: sum.case_cong)
  qed
  then show ?thesis
    unfolding SetValue_def using assms
    by (auto intro!: sound_load_bind sound_raise sound_bind [OF sound_fresh] simp: exn_ok_def)
qed

lemma SetValue_run:
  assumes "cells h x = Some vo" and "wf_cell h vo" and "cells h r \<noteq> None" and "r \<noteq> x"
  shows "\<exists>h' v'. SetValue r x h = (Inr (), h') \<and> cells h' r = Some v' \<and> denotes v' = narrow (denotes vo)"
proof -
  obtain vt where vt: "cells h r = Some vt" using assms(3) by (auto simp: not_None_eq)
  have same: "isList (h\<lparr>next_addr := n\<rparr>) = isList h" "isMethod (h\<lparr>next_addr := n\<rparr>) = isMethod h" for n
    by (simp_all add: isList_def isMethod_def fun_eq_iff)
  obtain v' where "Value_SetValue (isList h) (isMethod h) (next_addr h) vo vt = Some v'" "denotes v' = narrow (denotes vo)"
    using SetValue_wf [OF assms(2)] by blast
  then show ?thesis
    using assms(1,4) vt same by (simp add: SetValue_def bindM_def load_def fresh_def store_def)
qed

lemma sound_list_object:
  "wf_heap h \<Longrightarrow> sound h (new_object (StaticBoundList_new ty)) (\<lambda>p h'. isList h' p)"
  by (rule sound_conseq [OF sound_new_object]) (auto simp: StaticBoundList_new_def wf_obj_def pmap_ok_def isList_def)

lemma sound_ValueException_FromString: "wf_heap h \<Longrightarrow> sound h (ValueException_FromString s) Q"
  unfolding ValueException_FromString_def
  by (rule sound_bind [OF sound_new_string]) (auto intro: sound_raise simp: exn_ok_def)

context virtual_table
begin

lemma sound_API_args_at: "wf_heap h \<Longrightarrow> \<forall>x \<in> set args. cells h x \<noteq> None \<Longrightarrow>
    sound h (args_at args i) (\<lambda>a h'. h' = h \<and> cells h a \<noteq> None \<and> i < length args \<and> a = args ! i)"
  by (auto simp: args_at_def exn_ok_def intro: sound_ret sound_raise)

lemma sound_API_Set:
  assumes "wf_heap h" and "\<forall>x \<in> set args. cells h x \<noteq> None"
  shows "sound h (APIBinding__Set V this glob args) (\<lambda>_ _. True)"
  unfolding APIBinding__Set_def using assms(2) heap_le_cells
  by (intro sound_bind [OF sound_arg_string [OF assms(1)]] sound_bind [OF sound_API_args_at])
    (auto intro!: v_set sound_SetNS)

lemma sound_API_Get: "wf_heap h \<Longrightarrow> sound h (APIBinding__Get V this glob args result) (\<lambda>_ _. True)"
  unfolding APIBinding__Get_def
  by (rule sound_bind [OF sound_arg_string], assumption, rule sound_bind [of _ _ "\<lambda>_ _. True"])
    (auto intro!: sound_SetValue intro: sound_conseq [OF v_get] sound_conseq [OF sound_GetNS])

lemma sound_API_Print: "wf_heap h \<Longrightarrow> sound h (APIBinding__Print (vDisplay n V) args) (\<lambda>_ _. True)"
proof (induction args arbitrary: h)
  case (Cons a args)
  have "sound h' (bindM (write_stdout s) (\<lambda>_. APIBinding__Print (vDisplay n V) args)) (\<lambda>_ _. True)" if "wf_heap h'" for h' s
    by (rule sound_bind [OF sound_write_stdout [OF that]]) (simp add: Cons.IH)
  with Cons.prems show ?case
    by (auto intro!: sound_load_bind sound_opt_bind sound_bind [OF sound_Value_Display] sound_vDisplay)
qed (simp add: sound_ret)

lemma sound_API_RunOnMainThread:
  assumes "wf_heap h" and args: "\<forall>x \<in> set args. cells h x \<noteq> None"
  shows "sound h (APIBinding__RunOnMainThread what V args result) (\<lambda>_ _. True)"
    and "sound h (APIBinding__RunOnMainThreadAsync what V args) (\<lambda>_ _. True)"
proof -
  have rest: "\<forall>x \<in> set (drop 1 args). cells h x \<noteq> None" using args by (auto dest: in_set_dropD)
  have m: "sound h (ArgList_GetMethod args 0 None) (\<lambda>p h'. h' = h \<and> isMethod h (null_ptr p))"
    if "0 < length args" "cells h (args ! 0) = Some v" "Value_IsMethod v" for v
    by (rule sound_GetMethod_of_method [OF assms(1) that])
  show "sound h (APIBinding__RunOnMainThread what V args result) (\<lambda>_ _. True)"
    unfolding APIBinding__RunOnMainThread_def using assms(1) rest
    by (auto intro!: sound_bind [OF sound_API_args_at [OF assms]] sound_load_bind sound_ValueException_FromString
        sound_bind [OF m] sound_bind [OF sound_Invoke] sound_SetValue)
  show "sound h (APIBinding__RunOnMainThreadAsync what V args) (\<lambda>_ _. True)"
    unfolding APIBinding__RunOnMainThreadAsync_def using assms(1) rest
    by (auto intro!: sound_bind [OF sound_API_args_at [OF assms]] sound_load_bind sound_ValueException_FromString
        sound_bind [OF m] sound_bind [OF sound_Invoke] sound_ret)
qed

end

section \<open>Setting and getting dotted names\<close>

lemma GetNS_loop_same_store:
  "plain h \<Longrightarrow> objs h scope \<noteq> None \<Longrightarrow> GetNS_loop (vtable (Suc m) N F) s scope lst h = (r, h') \<Longrightarrow> same_store h h'"
proof (induction "vtable (Suc m) N F" s scope lst arbitrary: h rule: GetNS_loop.induct)
  case (1 s scope lst)
  have step: "\<exists>x h1. vGet (vtable (Suc m) N F) scope name h = (Inr x, h1) \<and> same_store h h1 \<and> plain h1" for name
  proof -
    obtain ob where ob: "objs h scope = Some ob" using 1(3) by (auto simp: not_None_eq)
    then have st: "cls ob = CStaticBoundObject" using 1(2) by (simp add: plain_def)
    have "plain (h\<lparr>cells := (cells h)(next_addr h \<mapsto> Value_NewUndefined), next_addr := Suc (next_addr h)\<rparr>)"
      by (rule plain_new_value(1) [OF 1(2)]) simp
    then show ?thesis
      using vtable_static_Get [OF ob st] static_Get_run [OF ob]
      by (simp add: same_store_def allocs_def del: vtable.simps)
  qed
  show ?case
  proof (cases "find_first_of s ''.'' lst")
    case None
    obtain x h1 where "vGet (vtable (Suc m) N F) scope (c_str (drop lst s)) h = (Inr x, h1)" "same_store h h1" using step by blast
    then show ?thesis using 1(4) None by (simp add: GetNS_loop.simps [of _ s scope lst] del: vtable.simps)
  next
    case (Some pos)
    obtain x h1 where x: "vGet (vtable (Suc m) N F) scope (c_str (take (pos - lst) (drop lst s))) h = (Inr x, h1)"
        "same_store h h1" "plain h1"
      using step by blast
    have run: "(r, h') = bindM (load x) (\<lambda>v. if Value_IsObject v
        then bindM (of_opt (Value_ToObject v)) (\<lambda>so. GetNS_loop (vtable (Suc m) N F) s so (pos + 1))
        else retM Undefined_addr) h1"
      using 1(4) Some x(1) by (simp add: GetNS_loop.simps [of _ s scope lst] bindM_def del: vtable.simps)
    show ?thesis
    proof (cases "\<exists>v. cells h1 x = Some v \<and> Value_IsObject v")
      case True
      then obtain v b where v: "cells h1 x = Some v" "Value_IsObject v" "Value_ToObject v = Some b" "objs h1 b \<noteq> None"
        using plain_object [OF x(3)] by (fastforce simp: not_None_eq)
      then have "(r, h') = GetNS_loop (vtable (Suc m) N F) s b (pos + 1) h1"
        using run by (simp add: bindM_def load_def of_opt_def retM_def del: vtable.simps)
      then have "same_store h1 h'" using 1(1) [OF Some v(2) x(3) v(4)] by simp
      then show ?thesis using same_store_trans x(2) by blast
    next
      case False
      then show ?thesis
        using run x(2) by (auto simp: bindM_def load_def retM_def simp del: vtable.simps split: option.splits)
    qed
  qed
qed

lemma dotted_name:
  assumes "1 < length ts" and "\<forall>t \<in> set ts. token t"
  shows "find_first_of (intercalate ''.'' ts) ''.'' 0 \<noteq> None" "c_str (intercalate ''.'' ts) = intercalate ''.'' ts"
proof -
  obtain t us where ts: "ts = t # us" "us \<noteq> []" using assms(1) by (cases ts) auto
  then have "CHR ''.'' \<in> set (intercalate ''.'' ts)" by (simp add: intercalate_Cons)
  then show "find_first_of (intercalate ''.'' ts) ''.'' 0 \<noteq> None"
    by (auto simp: find_first_of_None_iff in_set_conv_nth)
  have "set (intercalate ''.'' ts) \<subseteq> {CHR ''.''} \<union> (\<Union>t \<in> set ts. set t)"
    by (induction "''.'' :: string" ts rule: intercalate.induct) auto
  then have "CHR 0x00 \<notin> set (intercalate ''.'' ts)" using assms(2) by (auto simp: token_def)
  then show "c_str (intercalate ''.'' ts) = intercalate ''.'' ts" by simp
qed

text \<open>
  Setting and getting a dotted name through the API object: the name is looked up from the global
  object, whatever the API object holds. Either the setting throws because a value on the path is no
  object, or getting the name afterwards stores in its result a copy of what the bound cell holds.
\<close>

theorem API_Set_Get:
  assumes "plain h" and "objs h glob \<noteq> None" and "cells h v \<noteq> None"
    and "1 < length ts" "\<forall>t \<in> set ts. token t" and "last ts \<notin> set (butlast ts)"
    and "cells h k = Some kv" "Value_ToString kv = Some (b, intercalate ''.'' ts)"
  shows "case APIBinding__Set (vtable (Suc n) N F) this glob [k, v] h of
      (Inr _, h') \<Rightarrow> plain h' \<and> (\<forall>k' kv' b' r vv.
        cells h' k' = Some kv' \<and> Value_ToString kv' = Some (b', intercalate ''.'' ts)
          \<and> cells h' v = Some vv \<and> cells h' r \<noteq> None \<and> r \<noteq> v \<longrightarrow>
        (\<exists>h'' rv. APIBinding__Get (vtable (Suc m) N F) this glob [k'] r h' = (Inr (), h'')
          \<and> cells h'' r = Some rv \<and> denotes rv = narrow (denotes vv)))
    | (Inl e, h') \<Rightarrow> plain h' \<and> invalid_namespace e h'"
proof -
  let ?s = "intercalate ''.'' ts" and ?V = "vtable (Suc n) N F" and ?W = "vtable (Suc m) N F"
  note name = dotted_name [OF assms(4,5)]
  have arg: "arg_string (c # cs) 0 g = (Inr ?s, g)" if "cells g c = Some cv" "Value_ToString cv = Some (d, ?s)" for c cs g cv d
    using that by (simp add: arg_string_def args_at_def bindM_def retM_def load_def of_opt_def)
  have set: "APIBinding__Set ?V this glob [k, v] h = KObject_SetNS ?V glob ?s v h"
    using arg [OF assms(7,8)] name by (auto simp: APIBinding__Set_def bindM_def args_at_def retM_def simp del: vtable.simps)
  have ts: "ts \<noteq> []" using assms(4) by auto
  show ?thesis
  proof (cases "KObject_SetNS ?V glob ?s v h")
    case (Pair res h')
    note run = SetNS_GetNS_run [OF assms(1-3) ts assms(5,6), where n = n and m = m and N = N and F = F, unfolded Pair]
    show ?thesis
    proof (cases res)
      case (Inl e)
      then show ?thesis using run set Pair by simp
    next
      case (Inr u)
      then obtain h1 where h1: "plain h'" "KObject_GetNS ?W glob ?s h' = (Inr v, h1)" "heap_le h h'" using run by auto
      have glob: "objs h' glob \<noteq> None" by (rule heap_le_objs [OF h1(3) assms(2)])
      have same: "same_store h' h1" using GetNS_loop_same_store [OF h1(1) glob] h1(2) by (simp add: KObject_GetNS_def del: vtable.simps)
      have "\<exists>h'' rv. APIBinding__Get ?W this glob [k'] r h' = (Inr (), h'') \<and> cells h'' r = Some rv \<and> denotes rv = narrow (denotes vv)"
        if k': "cells h' k' = Some kv'" "Value_ToString kv' = Some (b', ?s)" and v: "cells h' v = Some vv" and r: "cells h' r \<noteq> None" "r \<noteq> v"
        for k' kv' b' r vv
      proof -
        have wf: "wf_heap h'" using h1(1) by (simp add: plain_def)
        then have "v < next_addr h'" "r < next_addr h'" "wf_cell h' vv"
          using v r(1) by (auto simp: wf_heap_def) (metis not_le option.distinct(1))+
        then have "cells h1 v = Some vv" "cells h1 r \<noteq> None" "wf_cell h1 vv"
          using v r(1) same_store_cell [OF same] same_store_kinds [OF same] same_store_objs [OF same] by (simp_all add: wf_cell_def)
        then obtain h2 rv where "SetValue r v h1 = (Inr (), h2)" "cells h2 r = Some rv" "denotes rv = narrow (denotes vv)"
          using SetValue_run r(2) by blast
        then show ?thesis
          using arg [OF k'] name h1(2) by (auto simp: APIBinding__Get_def bindM_def simp del: vtable.simps)
      qed
      then show ?thesis using h1(1) set Pair Inr by (simp del: vtable.simps)
    qed
  qed
qed

definition demo_name_heap :: heap where
  "demo_name_heap = demo_heap\<lparr>cells := (cells demo_heap)(4 \<mapsto> Value_NewString 9 ''UI.Window''), next_addr := 5\<rparr>"

lemma demo_name_heap_plain: "plain demo_name_heap"
proof -
  have "next_addr demo_heap = 4" by (simp add: demo_heap_def)
  then show ?thesis
    using plain_new_value(1) [OF demo_heap_plain, of "Value_NewString 9 ''UI.Window''"] by (simp add: demo_name_heap_def)
qed

theorem API_Set_Get_witness:
  "case APIBinding__Set (vtable (Suc 0) no_natives no_fnptrs) 3 3 [4, Null_addr] demo_name_heap of
      (Inr _, h') \<Rightarrow> plain h' \<and> (\<forall>k' kv' b' r vv.
        cells h' k' = Some kv' \<and> Value_ToString kv' = Some (b', ''UI.Window'')
          \<and> cells h' Null_addr = Some vv \<and> cells h' r \<noteq> None \<and> r \<noteq> Null_addr \<longrightarrow>
        (\<exists>h'' rv. APIBinding__Get (vtable (Suc 0) no_natives no_fnptrs) 3 3 [k'] r h' = (Inr (), h'')
          \<and> cells h'' r = Some rv \<and> denotes rv = narrow (denotes vv)))
    | (Inl e, h') \<Rightarrow> plain h' \<and> invalid_namespace e h'"
proof -
  have name: "intercalate ''.'' [''UI'', ''Window''] = ''UI.Window''" by simp
  show ?thesis
    by (rule API_Set_Get [OF demo_name_heap_plain, where ts = "[''UI'', ''Window'']" and b = 9
          and kv = "Value_NewString 9 ''UI.Window''", unfolded name])
      (simp_all add: demo_name_heap_def demo_heap_def token_def Value_To_defs Value_New_defs Value_Set_defs)
qed

end
