(* ===== verification/Kroll_ApiModule.thy ===== *)
theory Kroll_ApiModule
  imports Kroll_Api
begin

text \<open>
  The API module (\<^verbatim>\<open>src/modules/api\<close>): the API object with its constants, log functions, component queries and
  installer, the bindings of components, dependencies and applications, and the dispatch of their member
  functions. With \<^verbatim>\<open>api_natives\<close> as the native code behind the callbacks, scripts reach all of this through
  the virtual functions of the binding layer.

  An \<^verbatim>\<open>Application\<close> is an entry of the table \<^verbatim>\<open>p_applications\<close>; a component is a pair of its address and its
  members, and a scan makes new components.
\<close>

section \<open>Surroundings\<close>

text \<open>What the module finds in its process: the system calls, the formatter of log lines, whether the host
  runs in debug mode, the process identifier, the text of exceptions of the C++ library, the bound on
  displaying, and the static objects of events and of script evaluators.\<close>

record api_env =
  e_machine :: machine
  e_format :: formatter
  e_debug :: bool
  e_pid :: int32
  e_what :: string
  e_depth :: nat
  e_root :: addr
  e_evals :: addr

definition in_logging :: "(logging \<Rightarrow> ('a \<times> logging) option) \<Rightarrow> 'a M" where
  "in_logging f h =
     (case f (p_logging (proc h)) of
        Some (x, L) \<Rightarrow> (Inr x, h\<lparr>proc := (proc h)\<lparr>p_logging := L\<rparr>\<rparr>)
      | None \<Rightarrow> (Inl UB, h))"

definition file_system :: "os M" where
  "file_system = gets (\<lambda>h. w_fs (p_world (proc h)))"

definition get_application :: "addr \<Rightarrow> Application M" where
  "get_application a = bindM (gets (\<lambda>h. p_applications (proc h) a)) of_opt"

definition put_application :: "addr \<Rightarrow> Application \<Rightarrow> unit M" where
  "put_application a app h =
     (Inr (), h\<lparr>proc := (proc h)\<lparr>p_applications := (p_applications (proc h))(a \<mapsto> app)\<rparr>\<rparr>)"

definition put_installed :: "SharedComponent list \<Rightarrow> unit M" where
  "put_installed cs h = (Inr (), h\<lparr>proc := (proc h)\<lparr>p_installed := cs\<rparr>\<rparr>)"

text \<open>\<^verbatim>\<open>KComponent::NewComponent\<close> for each scanned component.\<close>

primrec new_components :: "KComponent list \<Rightarrow> SharedComponent list M" where
  "new_components [] = retM []"
| "new_components (c # cs) =
     bindM fresh (\<lambda>a. bindM (new_components cs) (\<lambda>rest. retM ((a, c) # rest)))"

definition BootUtils_GetInstalledComponents :: "machine \<Rightarrow> bool \<Rightarrow> SharedComponent list M" where
  "BootUtils_GetInstalledComponents m force =
     bindM (gets (\<lambda>h. p_installed (proc h))) (\<lambda>installed.
       if installed = [] \<or> force then
         bindM (in_world (GetComponentSearchPaths m)) (\<lambda>paths.
         bindM file_system (\<lambda>fs.
         bindM (of_opt (GetInstalledComponents fs paths True [])) (\<lambda>scanned.
         bindM (new_components scanned) (\<lambda>cs.
         bindM (put_installed cs) (\<lambda>_. retM cs)))))
       else retM installed)"

definition Application_GetAvailableComponents :: "machine \<Rightarrow> Application \<Rightarrow> bool \<Rightarrow> SharedComponent list M" where
  "Application_GetAvailableComponents m app onlyBundled =
     (let override = HasArgument app OVERRIDE_ARG in
      bindM file_system (\<lambda>fs.
      bindM (of_opt (ScanBundledComponents fs
        (if override then GetArgumentValue app OVERRIDE_ARG else app_path app) [])) (\<lambda>scanned.
      bindM (new_components scanned) (\<lambda>bundled.
        if override \<or> onlyBundled then retM bundled
        else bindM (BootUtils_GetInstalledComponents m True) (\<lambda>installed. retM (bundled @ installed))))))"

definition Application_ResolveDependencies :: "machine \<Rightarrow> addr \<Rightarrow> Dependency list M" where
  "Application_ResolveDependencies m a =
     bindM (get_application a) (\<lambda>app0.
     let app = app0\<lparr>app_modules := [], app_sdks := [], app_runtime := None\<rparr> in
     bindM (put_application a app) (\<lambda>_.
     bindM (Application_GetAvailableComponents m app False) (\<lambda>components.
     let (app', unresolved) = resolve_all components (app_dependencies app) app [] in
     bindM (put_application a app') (\<lambda>_. retM unresolved))))"

section \<open>Bindings of components\<close>

definition component_methods :: "(string \<times> component_op) list" where
  "component_methods = [(''getType'', Component_getType), (''getName'', Component_getName),
     (''getVersion'', Component_getVersion), (''getPath'', Component_getPath),
     (''getManifest'', Component_getManifest), (''isBundled'', Component_isBundled),
     (''isLoaded'', Component_isLoaded)]"

definition ComponentBinding_obj :: "SharedComponent \<Rightarrow> kobj" where
  "ComponentBinding_obj c = \<lparr>cls = CComponentBinding c, otype = ''API.Component'', properties = []\<rparr>"

definition ComponentBinding_new :: "vt \<Rightarrow> SharedComponent \<Rightarrow> addr M" where
  "ComponentBinding_new V c =
     bindM (new_object (ComponentBinding_obj c)) (\<lambda>this.
     bindM (virtual_methods V this (map (map_prod id (\<lambda>op. Component_Method op this)) component_methods)) (\<lambda>_.
       retM this))"

definition get_component :: "addr \<Rightarrow> SharedComponent M" where
  "get_component this = bindM (load_obj this) (\<lambda>ob. case cls ob of CComponentBinding c \<Rightarrow> retM c | _ \<Rightarrow> raiseM UB)"

definition ComponentBinding__GetType :: "addr \<Rightarrow> addr \<Rightarrow> unit M" where
  "ComponentBinding__GetType this result =
     bindM (get_component this) (\<lambda>c. set_result result (Value_SetInt (component_code (comp_type (snd c)))))"

definition ComponentBinding__GetName :: "addr \<Rightarrow> addr \<Rightarrow> unit M" where
  "ComponentBinding__GetName this result = bindM (get_component this) (\<lambda>c. set_string_result result (comp_name (snd c)))"

definition ComponentBinding__GetVersion :: "addr \<Rightarrow> addr \<Rightarrow> unit M" where
  "ComponentBinding__GetVersion this result = bindM (get_component this) (\<lambda>c. set_string_result result (comp_version (snd c)))"

definition ComponentBinding__GetPath :: "addr \<Rightarrow> addr \<Rightarrow> unit M" where
  "ComponentBinding__GetPath this result = bindM (get_component this) (\<lambda>c. set_string_result result (comp_path (snd c)))"

definition ComponentBinding__GetManifest :: "vt \<Rightarrow> addr \<Rightarrow> addr \<Rightarrow> unit M" where
  "ComponentBinding__GetManifest V this result =
     bindM (get_component this) (\<lambda>c.
     bindM file_system (\<lambda>fs.
     bindM (of_opt (ReadManifest fs (snd c))) (\<lambda>manifest.
     bindM (ManifestToKList V manifest) (\<lambda>manifestList. set_result result (Value_SetList (Some manifestList))))))"

definition ComponentBinding__IsBundled :: "addr \<Rightarrow> addr \<Rightarrow> unit M" where
  "ComponentBinding__IsBundled this result =
     bindM (get_component this) (\<lambda>c. set_result result (Value_SetBool (Some (comp_bundled (snd c)))))"

text \<open>The components are compared by address.\<close>

definition is_loaded :: "SharedComponent \<Rightarrow> Application \<Rightarrow> bool" where
  "is_loaded c app \<longleftrightarrow> map_option fst (app_runtime app) = Some (fst c) \<or> fst c \<in> fst ` set (app_modules app)"

definition ComponentBinding__IsLoaded :: "addr \<Rightarrow> addr \<Rightarrow> unit M" where
  "ComponentBinding__IsLoaded this result =
     bindM (gets (\<lambda>h. p_application (proc h))) (\<lambda>a.
     bindM (get_application a) (\<lambda>app.
     bindM (set_result result (Value_SetBool (Some False))) (\<lambda>_.
     bindM (get_component this) (\<lambda>c.
       if is_loaded c app then set_result result (Value_SetBool (Some True)) else retM ()))))"

primrec ComponentBinding_call :: "vt \<Rightarrow> component_op \<Rightarrow> addr \<Rightarrow> addr \<Rightarrow> unit M" where
  "ComponentBinding_call V Component_getType this result = ComponentBinding__GetType this result"
| "ComponentBinding_call V Component_getName this result = ComponentBinding__GetName this result"
| "ComponentBinding_call V Component_getVersion this result = ComponentBinding__GetVersion this result"
| "ComponentBinding_call V Component_getPath this result = ComponentBinding__GetPath this result"
| "ComponentBinding_call V Component_getManifest this result = ComponentBinding__GetManifest V this result"
| "ComponentBinding_call V Component_isBundled this result = ComponentBinding__IsBundled this result"
| "ComponentBinding_call V Component_isLoaded this result = ComponentBinding__IsLoaded this result"

section \<open>Bindings of dependencies\<close>

definition dependency_methods :: "(string \<times> dependency_op) list" where
  "dependency_methods = [(''getType'', Dependency_getType), (''getName'', Dependency_getName),
     (''getVersion'', Dependency_getVersion), (''getRequirement'', Dependency_getRequirement)]"

definition DependencyBinding_obj :: "Dependency \<Rightarrow> kobj" where
  "DependencyBinding_obj d = \<lparr>cls = CDependencyBinding d, otype = ''API.Dependency'', properties = []\<rparr>"

definition DependencyBinding_new :: "vt \<Rightarrow> Dependency \<Rightarrow> addr M" where
  "DependencyBinding_new V d =
     bindM (new_object (DependencyBinding_obj d)) (\<lambda>this.
     bindM (virtual_methods V this (map (map_prod id (\<lambda>op. Dependency_Method op this)) dependency_methods)) (\<lambda>_.
       retM this))"

text \<open>The cast to \<^verbatim>\<open>DependencyBinding\<close> followed by \<^verbatim>\<open>GetDependency\<close>.\<close>

definition DependencyBinding_GetDependency :: "heap \<Rightarrow> addr option \<Rightarrow> Dependency option" where
  "DependencyBinding_GetDependency h p =
     (case Option.bind p (objs h) of
        Some ob \<Rightarrow> (case cls ob of CDependencyBinding d \<Rightarrow> Some d | _ \<Rightarrow> None)
      | None \<Rightarrow> None)"

definition get_dependency :: "addr \<Rightarrow> Dependency M" where
  "get_dependency this = bindM (gets (\<lambda>h. DependencyBinding_GetDependency h (Some this))) of_opt"

text \<open>The numbers of the enumeration.\<close>

fun requirement_code :: "Requirement \<Rightarrow> int32" where
  "requirement_code EQ = 0"
| "requirement_code GT = 1"
| "requirement_code LT = 2"
| "requirement_code GTE = 3"
| "requirement_code LTE = 4"

definition DependencyBinding__GetType :: "addr \<Rightarrow> addr \<Rightarrow> unit M" where
  "DependencyBinding__GetType this result =
     bindM (get_dependency this) (\<lambda>d. set_result result (Value_SetInt (component_code (dep_type d))))"

definition DependencyBinding__GetName :: "addr \<Rightarrow> addr \<Rightarrow> unit M" where
  "DependencyBinding__GetName this result = bindM (get_dependency this) (\<lambda>d. set_string_result result (dep_name d))"

definition DependencyBinding__GetVersion :: "addr \<Rightarrow> addr \<Rightarrow> unit M" where
  "DependencyBinding__GetVersion this result = bindM (get_dependency this) (\<lambda>d. set_string_result result (dep_version d))"

definition DependencyBinding__GetRequirement :: "addr \<Rightarrow> addr \<Rightarrow> unit M" where
  "DependencyBinding__GetRequirement this result =
     bindM (get_dependency this) (\<lambda>d. set_result result (Value_SetInt (requirement_code (dep_requirement d))))"

primrec DependencyBinding_call :: "dependency_op \<Rightarrow> addr \<Rightarrow> addr \<Rightarrow> unit M" where
  "DependencyBinding_call Dependency_getType this result = DependencyBinding__GetType this result"
| "DependencyBinding_call Dependency_getName this result = DependencyBinding__GetName this result"
| "DependencyBinding_call Dependency_getVersion this result = DependencyBinding__GetVersion this result"
| "DependencyBinding_call Dependency_getRequirement this result = DependencyBinding__GetRequirement this result"

section \<open>Lists of bindings\<close>

primrec append_components :: "vt \<Rightarrow> addr \<Rightarrow> SharedComponent list \<Rightarrow> KComponentType \<Rightarrow> unit M" where
  "append_components V lst [] flt = retM ()"
| "append_components V lst (c # cs) flt =
     (if flt = UNKNOWN \<or> flt = comp_type (snd c) then
        bindM (ComponentBinding_new V c) (\<lambda>b.
        bindM (new_value (Value_NewObject (Some b))) (\<lambda>cValue.
        bindM (vAppend V lst cValue) (\<lambda>_. append_components V lst cs flt)))
      else append_components V lst cs flt)"

definition ComponentVectorToKList :: "vt \<Rightarrow> SharedComponent list \<Rightarrow> KComponentType \<Rightarrow> addr M" where
  "ComponentVectorToKList V components flt =
     bindM (new_object (StaticBoundList_new ''StaticBoundList'')) (\<lambda>componentList.
     bindM (append_components V componentList components flt) (\<lambda>_. retM componentList))"

primrec append_dependencies :: "vt \<Rightarrow> addr \<Rightarrow> Dependency list \<Rightarrow> unit M" where
  "append_dependencies V lst [] = retM ()"
| "append_dependencies V lst (d # ds) =
     bindM (DependencyBinding_new V d) (\<lambda>b.
     bindM (new_value (Value_NewObject (Some b))) (\<lambda>dValue.
     bindM (vAppend V lst dValue) (\<lambda>_. append_dependencies V lst ds)))"

definition DependencyVectorToKList :: "vt \<Rightarrow> Dependency list \<Rightarrow> addr M" where
  "DependencyVectorToKList V deps =
     bindM (new_object (StaticBoundList_new ''StaticBoundList'')) (\<lambda>dependencyList.
     bindM (append_dependencies V dependencyList deps) (\<lambda>_. retM dependencyList))"

definition set_list_result :: "addr \<Rightarrow> addr M \<Rightarrow> unit M" where
  "set_list_result result m = bindM m (\<lambda>l. set_result result (Value_SetList (Some l)))"

section \<open>Bindings of applications\<close>

definition application_methods :: "(string \<times> application_op) list" where
  "application_methods = [(''getID'', Application_getID), (''getGUID'', Application_getGUID),
     (''getName'', Application_getName), (''getVersion'', Application_getVersion),
     (''getPath'', Application_getPath),
     (''getExecutablePath'', Application_getExecutablePath),
     (''getResourcesPath'', Application_getResourcesPath),
     (''getDataPath'', Application_getDataPath),
     (''getManifestPath'', Application_getManifestPath),
     (''getManifest'', Application_getManifest), (''isCurrent'', Application_isCurrent),
     (''getPID'', Application_getPID), (''getArguments'', Application_getArguments),
     (''hasArgument'', Application_hasArgument),
     (''getArgumentValue'', Application_getArgumentValue),
     (''getDependencies'', Application_getDependencies),
     (''resolveDependencies'', Application_resolveDependencies),
     (''getComponents'', Application_getComponents), (''getModules'', Application_getModules),
     (''getRuntime'', Application_getRuntime),
     (''getAvailableComponents'', Application_getAvailableComponents),
     (''getAvailableModules'', Application_getAvailableModules),
     (''getAvailableRuntimes'', Application_getAvailableRuntimes),
     (''getBundledComponents'', Application_getBundledComponents),
     (''getBundledModules'', Application_getBundledModules),
     (''getBundledRuntimes'', Application_getBundledRuntimes)]"

definition ApplicationBinding_obj :: "addr \<Rightarrow> bool \<Rightarrow> kobj" where
  "ApplicationBinding_obj a current = \<lparr>cls = CApplicationBinding a current, otype = ''API.Application'', properties = []\<rparr>"

definition ApplicationBinding_new :: "vt \<Rightarrow> addr \<Rightarrow> bool \<Rightarrow> addr M" where
  "ApplicationBinding_new V a current =
     bindM (new_object (ApplicationBinding_obj a current)) (\<lambda>this.
     bindM (virtual_methods V this (map (map_prod id (\<lambda>op. Application_Method op this)) application_methods)) (\<lambda>_.
       retM this))"

definition get_binding :: "addr \<Rightarrow> (addr \<times> bool) M" where
  "get_binding this =
     bindM (load_obj this) (\<lambda>ob. case cls ob of CApplicationBinding a current \<Rightarrow> retM (a, current) | _ \<Rightarrow> raiseM UB)"

definition bound_application :: "addr \<Rightarrow> Application M" where
  "bound_application this = bindM (get_binding this) (\<lambda>(a, _). get_application a)"

definition ApplicationBinding__GetID :: "addr \<Rightarrow> addr \<Rightarrow> unit M" where
  "ApplicationBinding__GetID this result = bindM (bound_application this) (\<lambda>app. set_string_result result (app_id app))"

definition ApplicationBinding__GetGUID :: "addr \<Rightarrow> addr \<Rightarrow> unit M" where
  "ApplicationBinding__GetGUID this result = bindM (bound_application this) (\<lambda>app. set_string_result result (app_guid app))"

definition ApplicationBinding__GetName :: "addr \<Rightarrow> addr \<Rightarrow> unit M" where
  "ApplicationBinding__GetName this result = bindM (bound_application this) (\<lambda>app. set_string_result result (app_name app))"

definition ApplicationBinding__GetVersion :: "addr \<Rightarrow> addr \<Rightarrow> unit M" where
  "ApplicationBinding__GetVersion this result = bindM (bound_application this) (\<lambda>app. set_string_result result (app_version app))"

definition ApplicationBinding__GetPath :: "addr \<Rightarrow> addr \<Rightarrow> unit M" where
  "ApplicationBinding__GetPath this result = bindM (bound_application this) (\<lambda>app. set_string_result result (app_path app))"

definition ApplicationBinding__GetManifestPath :: "addr \<Rightarrow> addr \<Rightarrow> unit M" where
  "ApplicationBinding__GetManifestPath this result = bindM (bound_application this) (\<lambda>app. set_string_result result (app_manifestPath app))"

definition ApplicationBinding__GetExecutablePath :: "addr \<Rightarrow> addr \<Rightarrow> unit M" where
  "ApplicationBinding__GetExecutablePath this result =
     bindM (bound_application this) (\<lambda>app.
     bindM file_system (\<lambda>fs.
     bindM (of_opt (GetExecutablePath fs app)) (\<lambda>executablePath. set_string_result result executablePath)))"

definition ApplicationBinding__GetResourcesPath :: "addr \<Rightarrow> addr \<Rightarrow> unit M" where
  "ApplicationBinding__GetResourcesPath this result =
     bindM (bound_application this) (\<lambda>app.
     bindM (of_opt (GetResourcesPath app)) (\<lambda>resourcesPath. set_string_result result resourcesPath))"

definition ApplicationBinding__GetDataPath :: "machine \<Rightarrow> addr \<Rightarrow> addr \<Rightarrow> unit M" where
  "ApplicationBinding__GetDataPath m this result =
     bindM (bound_application this) (\<lambda>app.
     bindM (in_world (GetDataPath m app)) (\<lambda>dataPath. set_string_result result dataPath))"

definition ApplicationBinding__GetManifest :: "vt \<Rightarrow> addr \<Rightarrow> addr \<Rightarrow> unit M" where
  "ApplicationBinding__GetManifest V this result =
     bindM (bound_application this) (\<lambda>app.
     bindM file_system (\<lambda>fs.
       set_list_result result (ManifestToKList V (ReadManifestFile fs (app_manifestPath app)))))"

definition ApplicationBinding__IsCurrent :: "addr \<Rightarrow> addr \<Rightarrow> unit M" where
  "ApplicationBinding__IsCurrent this result =
     bindM (get_binding this) (\<lambda>(_, current). set_result result (Value_SetBool (Some current)))"

definition ApplicationBinding__GetPID :: "int32 \<Rightarrow> addr \<Rightarrow> addr \<Rightarrow> unit M" where
  "ApplicationBinding__GetPID pid this result =
     bindM (get_binding this) (\<lambda>(_, current). if current then set_result result (Value_SetInt pid) else retM ())"

definition ApplicationBinding__GetArguments :: "addr \<Rightarrow> addr \<Rightarrow> unit M" where
  "ApplicationBinding__GetArguments this result =
     bindM (bound_application this) (\<lambda>app.
       set_list_result result (StaticBoundList_FromStringVector (app_arguments app)))"

definition ApplicationBinding__HasArgument :: "addr \<Rightarrow> addr list \<Rightarrow> addr \<Rightarrow> unit M" where
  "ApplicationBinding__HasArgument this args result =
     bindM (ArgList_VerifyException args ''hasArgument'' ''s'') (\<lambda>_.
     bindM (arg_string args 0) (\<lambda>arg.
     bindM (bound_application this) (\<lambda>app. set_result result (Value_SetBool (Some (HasArgument app (c_str arg)))))))"

definition ApplicationBinding__GetArgumentValue :: "addr \<Rightarrow> addr list \<Rightarrow> addr \<Rightarrow> unit M" where
  "ApplicationBinding__GetArgumentValue this args result =
     bindM (ArgList_VerifyException args ''getArgumentValue'' ''s'') (\<lambda>_.
     bindM (arg_string args 0) (\<lambda>arg.
     bindM (bound_application this) (\<lambda>app. set_string_result result (GetArgumentValue app (c_str arg)))))"

definition ApplicationBinding__GetDependencies :: "vt \<Rightarrow> addr \<Rightarrow> addr \<Rightarrow> unit M" where
  "ApplicationBinding__GetDependencies V this result =
     bindM (bound_application this) (\<lambda>app. set_list_result result (DependencyVectorToKList V (app_dependencies app)))"

definition ApplicationBinding__ResolveDependencies :: "machine \<Rightarrow> vt \<Rightarrow> addr \<Rightarrow> addr \<Rightarrow> unit M" where
  "ApplicationBinding__ResolveDependencies m V this result =
     bindM (get_binding this) (\<lambda>(a, _).
     bindM (Application_ResolveDependencies m a) (\<lambda>unresolved.
       set_list_result result (DependencyVectorToKList V unresolved)))"

definition ApplicationBinding__GetComponents :: "vt \<Rightarrow> addr \<Rightarrow> addr \<Rightarrow> unit M" where
  "ApplicationBinding__GetComponents V this result =
     bindM (bound_application this) (\<lambda>app.
       set_list_result result (ComponentVectorToKList V
         (app_modules app @ (case app_runtime app of Some r \<Rightarrow> [r] | None \<Rightarrow> [])) UNKNOWN))"

definition ApplicationBinding__GetModules :: "vt \<Rightarrow> addr \<Rightarrow> addr \<Rightarrow> unit M" where
  "ApplicationBinding__GetModules V this result =
     bindM (bound_application this) (\<lambda>app. set_list_result result (ComponentVectorToKList V (app_modules app) UNKNOWN))"

definition ApplicationBinding__GetRuntime :: "vt \<Rightarrow> addr \<Rightarrow> addr \<Rightarrow> unit M" where
  "ApplicationBinding__GetRuntime V this result =
     bindM (bound_application this) (\<lambda>app.
       case app_runtime app of
         Some r \<Rightarrow> bindM (ComponentBinding_new V r) (\<lambda>b. set_result result (Value_SetObject (Some b)))
       | None \<Rightarrow> set_result result Value_SetNull)"

definition ApplicationBinding__GetAvailableComponents :: "machine \<Rightarrow> vt \<Rightarrow> addr \<Rightarrow> addr \<Rightarrow> unit M" where
  "ApplicationBinding__GetAvailableComponents m V this result =
     bindM (bound_application this) (\<lambda>app.
     bindM (Application_GetAvailableComponents m app False) (\<lambda>components.
       set_list_result result (ComponentVectorToKList V components UNKNOWN)))"

definition ApplicationBinding__GetAvailableModules :: "machine \<Rightarrow> vt \<Rightarrow> addr \<Rightarrow> addr \<Rightarrow> unit M" where
  "ApplicationBinding__GetAvailableModules m V this result =
     bindM (bound_application this) (\<lambda>app.
     bindM (Application_GetAvailableComponents m app False) (\<lambda>components.
       set_list_result result (ComponentVectorToKList V components MODULE)))"

definition ApplicationBinding__GetAvailableRuntimes :: "machine \<Rightarrow> vt \<Rightarrow> addr \<Rightarrow> addr \<Rightarrow> unit M" where
  "ApplicationBinding__GetAvailableRuntimes m V this result =
     bindM (bound_application this) (\<lambda>app.
     bindM (Application_GetAvailableComponents m app False) (\<lambda>components.
       set_list_result result (ComponentVectorToKList V components RUNTIME)))"

definition ApplicationBinding__GetBundledComponents :: "machine \<Rightarrow> vt \<Rightarrow> addr \<Rightarrow> addr \<Rightarrow> unit M" where
  "ApplicationBinding__GetBundledComponents m V this result =
     bindM (bound_application this) (\<lambda>app.
     bindM (Application_GetAvailableComponents m app True) (\<lambda>components.
       set_list_result result (ComponentVectorToKList V components UNKNOWN)))"

definition ApplicationBinding__GetBundledModules :: "machine \<Rightarrow> vt \<Rightarrow> addr \<Rightarrow> addr \<Rightarrow> unit M" where
  "ApplicationBinding__GetBundledModules m V this result =
     bindM (bound_application this) (\<lambda>app.
     bindM (Application_GetAvailableComponents m app True) (\<lambda>components.
       set_list_result result (ComponentVectorToKList V components MODULE)))"

definition ApplicationBinding__GetBundledRuntimes :: "machine \<Rightarrow> vt \<Rightarrow> addr \<Rightarrow> addr \<Rightarrow> unit M" where
  "ApplicationBinding__GetBundledRuntimes m V this result =
     bindM (bound_application this) (\<lambda>app.
     bindM (Application_GetAvailableComponents m app True) (\<lambda>components.
       set_list_result result (ComponentVectorToKList V components RUNTIME)))"

primrec ApplicationBinding_call :: "api_env \<Rightarrow> vt \<Rightarrow> application_op \<Rightarrow> addr \<Rightarrow> addr list \<Rightarrow> addr \<Rightarrow> unit M" where
  "ApplicationBinding_call E V Application_getID this args result = ApplicationBinding__GetID this result"
| "ApplicationBinding_call E V Application_getGUID this args result = ApplicationBinding__GetGUID this result"
| "ApplicationBinding_call E V Application_getName this args result = ApplicationBinding__GetName this result"
| "ApplicationBinding_call E V Application_getVersion this args result = ApplicationBinding__GetVersion this result"
| "ApplicationBinding_call E V Application_getPath this args result = ApplicationBinding__GetPath this result"
| "ApplicationBinding_call E V Application_getExecutablePath this args result = ApplicationBinding__GetExecutablePath this result"
| "ApplicationBinding_call E V Application_getResourcesPath this args result = ApplicationBinding__GetResourcesPath this result"
| "ApplicationBinding_call E V Application_getDataPath this args result = ApplicationBinding__GetDataPath (e_machine E) this result"
| "ApplicationBinding_call E V Application_getManifestPath this args result = ApplicationBinding__GetManifestPath this result"
| "ApplicationBinding_call E V Application_getManifest this args result = ApplicationBinding__GetManifest V this result"
| "ApplicationBinding_call E V Application_isCurrent this args result = ApplicationBinding__IsCurrent this result"
| "ApplicationBinding_call E V Application_getPID this args result = ApplicationBinding__GetPID (e_pid E) this result"
| "ApplicationBinding_call E V Application_getArguments this args result = ApplicationBinding__GetArguments this result"
| "ApplicationBinding_call E V Application_hasArgument this args result = ApplicationBinding__HasArgument this args result"
| "ApplicationBinding_call E V Application_getArgumentValue this args result = ApplicationBinding__GetArgumentValue this args result"
| "ApplicationBinding_call E V Application_getDependencies this args result = ApplicationBinding__GetDependencies V this result"
| "ApplicationBinding_call E V Application_resolveDependencies this args result = ApplicationBinding__ResolveDependencies (e_machine E) V this result"
| "ApplicationBinding_call E V Application_getComponents this args result = ApplicationBinding__GetComponents V this result"
| "ApplicationBinding_call E V Application_getModules this args result = ApplicationBinding__GetModules V this result"
| "ApplicationBinding_call E V Application_getRuntime this args result = ApplicationBinding__GetRuntime V this result"
| "ApplicationBinding_call E V Application_getAvailableComponents this args result = ApplicationBinding__GetAvailableComponents (e_machine E) V this result"
| "ApplicationBinding_call E V Application_getAvailableModules this args result = ApplicationBinding__GetAvailableModules (e_machine E) V this result"
| "ApplicationBinding_call E V Application_getAvailableRuntimes this args result = ApplicationBinding__GetAvailableRuntimes (e_machine E) V this result"
| "ApplicationBinding_call E V Application_getBundledComponents this args result = ApplicationBinding__GetBundledComponents (e_machine E) V this result"
| "ApplicationBinding_call E V Application_getBundledModules this args result = ApplicationBinding__GetBundledModules (e_machine E) V this result"
| "ApplicationBinding_call E V Application_getBundledRuntimes this args result = ApplicationBinding__GetBundledRuntimes (e_machine E) V this result"

section \<open>The API object\<close>

definition api_methods :: "(string \<times> api_op) list" where
  "api_methods = [(''set'', API_set), (''get'', API_get), (''addEventListener'', API_addEventListener),
     (''removeEventListener'', API_removeEventListener), (''fireEvent'', API_fireEvent),
     (''runOnMainThread'', API_runOnMainThread),
     (''runOnMainThreadAsync'', API_runOnMainThreadAsync),
     (''getApplication'', API_getApplication),
     (''getInstalledComponents'', API_getInstalledComponents),
     (''getInstalledSDKs'', API_getInstalledSDKs),
     (''getInstalledMobileSDKs'', API_getInstalledMobileSDKs),
     (''getInstalledModules'', API_getInstalledModules),
     (''getInstalledRuntimes'', API_getInstalledRuntimes),
     (''getComponentSearchPaths'', API_getComponentSearchPaths),
     (''readApplicationManifest'', API_readApplicationManifest),
     (''createDependency'', API_createDependency),
     (''installDependencies'', API_installDependencies),
     (''componentGUIDToComponentType'', API_componentGUIDToComponentType),
     (''getEnvironment'', API_getEnvironment), (''createKObject'', API_createKObject),
     (''createKMethod'', API_createKMethod), (''createKList'', API_createKList),
     (''createBlob'', API_createBlob), (''log'', API_log), (''trace'', API_trace),
     (''debug'', API_debug), (''info'', API_info), (''notice'', API_notice),
     (''warn'', API_warn), (''error'', API_error), (''critical'', API_critical),
     (''fatal'', API_fatal), (''setLogLevel'', API_setLogLevel),
     (''getLogLevel'', API_getLogLevel), (''print'', API_print)]"

definition api_constants :: "(string \<times> int32) list" where
  "api_constants =
     [(''TRACE'', 8), (''DEBUG'', 7), (''INFO'', 6), (''NOTICE'', 5), (''WARN'', 4), (''ERROR'', 3), (''CRITICAL'', 2),
      (''FATAL'', 1)]
     @ map (map_prod id requirement_code) [(''EQ'', EQ), (''LT'', LT), (''LTE'', LTE), (''GT'', GT), (''GTE'', GTE)]
     @ map (map_prod id component_code) [(''MODULE'', MODULE), (''RUNTIME'', RUNTIME), (''SDK'', SDK),
         (''MOBILESDK'', MOBILESDK), (''APP_UPDATE'', APP_UPDATE), (''UNKNOWN'', UNKNOWN)]"

primrec set_int_constants :: "vt \<Rightarrow> addr \<Rightarrow> (string \<times> int32) list \<Rightarrow> unit M" where
  "set_int_constants V this [] = retM ()"
| "set_int_constants V this (p # ps) =
     bindM (new_value (Value_NewInt (snd p))) (\<lambda>v.
     bindM (vSet V this (fst p) v) (\<lambda>_. set_int_constants V this ps))"

definition script_methods :: "(string \<times> script_op) list" where
  "script_methods = [(''addScriptEvaluator'', Script_addScriptEvaluator),
     (''removeScriptEvaluator'', Script_removeScriptEvaluator), (''canEvaluate'', Script_canEvaluate),
     (''canPreprocess'', Script_canPreprocess), (''evaluate'', Script_evaluate), (''preprocess'', Script_preprocess)]"

definition ScriptBinding_new :: "vt \<Rightarrow> addr M" where
  "ScriptBinding_new V =
     bindM (new_object (StaticBoundObject_new ''API.Script'')) (\<lambda>this.
     bindM (virtual_methods V this (map (map_prod id (\<lambda>op. Script_Method op this)) script_methods)) (\<lambda>_. retM this))"

definition APIBinding_obj :: "addr \<Rightarrow> nat \<Rightarrow> kobj" where
  "APIBinding_obj glob logger =
     \<lparr>cls = CAPIBinding \<lparr>api_global = glob, api_logger = logger, installerMutex = False, installerDependencies = [],
        installerCallback = None\<rparr>, otype = ''API'', properties = []\<rparr>"

definition APIBinding_new :: "vt \<Rightarrow> addr \<Rightarrow> addr M" where
  "APIBinding_new V glob =
     bindM (load_obj glob) (\<lambda>_.
     bindM (in_logging (Logger_Get PRODUCT_NAME ''API'')) (\<lambda>logger.
     bindM (new_object (APIBinding_obj glob logger)) (\<lambda>this.
     bindM (virtual_methods V this (map (map_prod id (\<lambda>op. API_Method op this)) api_methods)) (\<lambda>_.
     bindM (set_int_constants V this api_constants) (\<lambda>_.
     bindM (ScriptBinding_new V) (\<lambda>script.
     bindM (new_value (Value_NewObject (Some script))) (\<lambda>v.
     bindM (vSet V this ''Script'' v) (\<lambda>_. retM this))))))))"

definition APIModule_Initialize :: "vt \<Rightarrow> addr \<Rightarrow> addr M" where
  "APIModule_Initialize V glob =
     bindM (APIBinding_new V glob) (\<lambda>binding.
     bindM (KObject_SetObject V glob ''API'' (Some binding)) (\<lambda>_. retM binding))"

definition APIModule_Stop :: "vt \<Rightarrow> addr \<Rightarrow> unit M" where
  "APIModule_Stop V glob = vSet V glob ''API'' Undefined_addr"

definition get_api :: "addr \<Rightarrow> APIBinding M" where
  "get_api this = bindM (load_obj this) (\<lambda>ob. case cls ob of CAPIBinding b \<Rightarrow> retM b | _ \<Rightarrow> raiseM UB)"

definition set_api :: "addr \<Rightarrow> (APIBinding \<Rightarrow> APIBinding) \<Rightarrow> unit M" where
  "set_api this f = bindM (load_obj this) (\<lambda>ob.
     case cls ob of CAPIBinding b \<Rightarrow> store_obj this (ob\<lparr>cls := CAPIBinding (f b)\<rparr>) | _ \<Rightarrow> raiseM UB)"

subsection \<open>Logging\<close>

definition level_of_int :: "int \<Rightarrow> Level" where
  "level_of_int i =
     (case List.find (\<lambda>l. priority l = i) [LFATAL, LCRITICAL, LERROR, LWARN, LNOTICE, LINFO, LDEBUG, LTRACE] of
        Some l \<Rightarrow> l
      | None \<Rightarrow> OtherLevel i)"

definition APIBinding_ValueToLevel :: "api_env \<Rightarrow> vt \<Rightarrow> addr \<Rightarrow> Level M" where
  "APIBinding_ValueToLevel E V a =
     bindM (load a) (\<lambda>v.
       if Value_IsString v then bindM (of_opt (Value_ToString v)) (\<lambda>(_, s). retM (GetLevel (e_debug E) (c_str s)))
       else if Value_IsObject v then
         bindM (of_opt (Value_ToObject v)) (\<lambda>ob.
         bindM (vDisplay (e_depth E) V ob 3) (\<lambda>ss. retM (GetLevel (e_debug E) ss)))
       else if Value_IsNumber v then retM (level_of_int (sint (Value_ToInt v)))
       else retM (GetLevel (e_debug E) []))"

definition APIBinding_Log :: "api_env \<Rightarrow> vt \<Rightarrow> addr \<Rightarrow> Level \<Rightarrow> addr \<Rightarrow> unit M" where
  "APIBinding_Log E V this severity a =
     bindM (get_api this) (\<lambda>b.
     bindM (in_logging (\<lambda>L. map_option (\<lambda>e. (e, L)) (IsEnabled (api_logger b) severity L))) (\<lambda>enabled.
       if \<not> enabled then retM ()
       else
         bindM (load a) (\<lambda>v.
         bindM (if Value_IsString v then bindM (of_opt (Value_ToString v)) (\<lambda>(_, s). retM (c_str s))
                else Value_DisplayString (vDisplay (e_depth E) V) a 3) (\<lambda>message.
           in_logging (\<lambda>L. map_option (Pair ()) (Logger_Log (e_format E) (api_logger b) severity message L))))))"

definition APIBinding__SetLogLevel :: "api_env \<Rightarrow> vt \<Rightarrow> addr list \<Rightarrow> unit M" where
  "APIBinding__SetLogLevel E V args =
     bindM (ArgList_VerifyException args ''setLogLevel'' ''s|n'') (\<lambda>_.
     bindM (args_at args 0) (\<lambda>a.
     bindM (APIBinding_ValueToLevel E V a) (\<lambda>level.
       in_logging (\<lambda>L. do { r \<leftarrow> root_instance L; L' \<leftarrow> SetLevel r level L; Some ((), L') }))))"

definition APIBinding__GetLogLevel :: "addr \<Rightarrow> unit M" where
  "APIBinding__GetLogLevel result =
     bindM (in_logging (\<lambda>L. do { r \<leftarrow> root_instance L; l \<leftarrow> level_of r L; Some (l, L) })) (\<lambda>level.
       set_result result (Value_SetInt (word_of_int (priority level))))"

definition APIBinding__LogTrace :: "api_env \<Rightarrow> vt \<Rightarrow> addr \<Rightarrow> addr list \<Rightarrow> unit M" where
  "APIBinding__LogTrace E V this args = bindM (args_at args 0) (APIBinding_Log E V this LTRACE)"

definition APIBinding__LogDebug :: "api_env \<Rightarrow> vt \<Rightarrow> addr \<Rightarrow> addr list \<Rightarrow> unit M" where
  "APIBinding__LogDebug E V this args = bindM (args_at args 0) (APIBinding_Log E V this LDEBUG)"

definition APIBinding__LogInfo :: "api_env \<Rightarrow> vt \<Rightarrow> addr \<Rightarrow> addr list \<Rightarrow> unit M" where
  "APIBinding__LogInfo E V this args = bindM (args_at args 0) (APIBinding_Log E V this LINFO)"

definition APIBinding__LogNotice :: "api_env \<Rightarrow> vt \<Rightarrow> addr \<Rightarrow> addr list \<Rightarrow> unit M" where
  "APIBinding__LogNotice E V this args = bindM (args_at args 0) (APIBinding_Log E V this LNOTICE)"

definition APIBinding__LogWarn :: "api_env \<Rightarrow> vt \<Rightarrow> addr \<Rightarrow> addr list \<Rightarrow> unit M" where
  "APIBinding__LogWarn E V this args = bindM (args_at args 0) (APIBinding_Log E V this LWARN)"

definition APIBinding__LogError :: "api_env \<Rightarrow> vt \<Rightarrow> addr \<Rightarrow> addr list \<Rightarrow> unit M" where
  "APIBinding__LogError E V this args = bindM (args_at args 0) (APIBinding_Log E V this LERROR)"

definition APIBinding__LogCritical :: "api_env \<Rightarrow> vt \<Rightarrow> addr \<Rightarrow> addr list \<Rightarrow> unit M" where
  "APIBinding__LogCritical E V this args = bindM (args_at args 0) (APIBinding_Log E V this LCRITICAL)"

definition APIBinding__LogFatal :: "api_env \<Rightarrow> vt \<Rightarrow> addr \<Rightarrow> addr list \<Rightarrow> unit M" where
  "APIBinding__LogFatal E V this args = bindM (args_at args 0) (APIBinding_Log E V this LFATAL)"

definition APIBinding__Log :: "api_env \<Rightarrow> vt \<Rightarrow> addr \<Rightarrow> addr list \<Rightarrow> unit M" where
  "APIBinding__Log E V this args =
     (if length args = 1 then bindM (args_at args 0) (APIBinding_Log E V this LINFO)
      else if length args = 2 then
        bindM (args_at args 0) (\<lambda>arg1.
        bindM (args_at args 1) (\<lambda>v.
        bindM (APIBinding_ValueToLevel E V arg1) (\<lambda>level. APIBinding_Log E V this level v)))
      else retM ())"

subsection \<open>Components\<close>

definition APIBinding__GetApplication :: "vt \<Rightarrow> addr \<Rightarrow> unit M" where
  "APIBinding__GetApplication V result =
     bindM (gets (\<lambda>h. p_application (proc h))) (\<lambda>a.
     bindM (ApplicationBinding_new V a True) (\<lambda>app. set_result result (Value_SetObject (Some app))))"

definition APIBinding__GetInstalledComponentsImpl ::
  "machine \<Rightarrow> vt \<Rightarrow> KComponentType \<Rightarrow> addr list \<Rightarrow> addr \<Rightarrow> unit M" where
  "APIBinding__GetInstalledComponentsImpl m V ty args result =
     bindM (ArgList_GetBool args 0 False) (\<lambda>force.
     bindM (BootUtils_GetInstalledComponents m force) (\<lambda>components.
       set_list_result result (ComponentVectorToKList V components ty)))"

definition APIBinding__GetInstalledComponents :: "machine \<Rightarrow> vt \<Rightarrow> addr list \<Rightarrow> addr \<Rightarrow> unit M" where
  "APIBinding__GetInstalledComponents m V args result =
     bindM (ArgList_VerifyException args ''getInstalledComponents'' ''?b'') (\<lambda>_.
       APIBinding__GetInstalledComponentsImpl m V UNKNOWN args result)"

definition APIBinding__GetInstalledModules :: "machine \<Rightarrow> vt \<Rightarrow> addr list \<Rightarrow> addr \<Rightarrow> unit M" where
  "APIBinding__GetInstalledModules m V args result =
     bindM (ArgList_VerifyException args ''getInstalledModules'' ''?b'') (\<lambda>_.
       APIBinding__GetInstalledComponentsImpl m V MODULE args result)"

definition APIBinding__GetInstalledRuntimes :: "machine \<Rightarrow> vt \<Rightarrow> addr list \<Rightarrow> addr \<Rightarrow> unit M" where
  "APIBinding__GetInstalledRuntimes m V args result =
     bindM (ArgList_VerifyException args ''getInstalledRuntimes'' ''?b'') (\<lambda>_.
       APIBinding__GetInstalledComponentsImpl m V RUNTIME args result)"

definition APIBinding__GetInstalledSDKs :: "machine \<Rightarrow> vt \<Rightarrow> addr list \<Rightarrow> addr \<Rightarrow> unit M" where
  "APIBinding__GetInstalledSDKs m V args result =
     bindM (ArgList_VerifyException args ''getInstalledSDKs'' ''?b'') (\<lambda>_.
       APIBinding__GetInstalledComponentsImpl m V SDK args result)"

definition APIBinding__GetInstalledMobileSDKs :: "machine \<Rightarrow> vt \<Rightarrow> addr list \<Rightarrow> addr \<Rightarrow> unit M" where
  "APIBinding__GetInstalledMobileSDKs m V args result =
     bindM (ArgList_VerifyException args ''getInstalledMobileSDKs'' ''?b'') (\<lambda>_.
       APIBinding__GetInstalledComponentsImpl m V MOBILESDK args result)"

definition new_application_ptr :: "Application \<Rightarrow> addr M" where
  "new_application_ptr app = bindM fresh (\<lambda>a. bindM (put_application a app) (\<lambda>_. retM a))"

definition APIBinding__ReadApplicationManifest :: "vt \<Rightarrow> addr list \<Rightarrow> addr \<Rightarrow> unit M" where
  "APIBinding__ReadApplicationManifest V args result =
     bindM (ArgList_VerifyException args ''readApplicationManifest'' ''s,?s'') (\<lambda>_.
     bindM (arg_string args 0) (\<lambda>s.
     let manifestPath = c_str s in
     bindM (ArgList_GetString args 1 (Dirname manifestPath)) (\<lambda>appPath.
     bindM file_system (\<lambda>fs.
     bindM (of_opt (NewApplication fs manifestPath appPath)) (\<lambda>app.
       case app of
         Some app' \<Rightarrow>
           bindM (new_application_ptr app') (\<lambda>a.
           bindM (ApplicationBinding_new V a False) (\<lambda>b. set_result result (Value_SetObject (Some b))))
       | None \<Rightarrow> set_result result Value_SetNull)))))"

definition component_of_code :: "int32 \<Rightarrow> KComponentType" where
  "component_of_code i =
     (case List.find (\<lambda>t. component_code t = i) [MODULE, RUNTIME, SDK, MOBILESDK, APP_UPDATE] of
        Some t \<Rightarrow> t
      | None \<Rightarrow> UNKNOWN)"

text \<open>The requirement is checked and not used.\<close>

definition APIBinding__CreateDependency :: "vt \<Rightarrow> addr list \<Rightarrow> addr \<Rightarrow> unit M" where
  "APIBinding__CreateDependency V args result =
     bindM (ArgList_VerifyException args ''createDepenendency'' ''i,s,s,?i'') (\<lambda>_.
     bindM (ArgList_GetInt args 0 (component_code UNKNOWN)) (\<lambda>type.
     bindM (ArgList_GetString args 1 []) (\<lambda>name.
     bindM (ArgList_GetString args 2 []) (\<lambda>version.
     bindM (ArgList_GetNumber args 3 (Fin 0)) (\<lambda>d.
     let requirement = cast_int d in
       if component_of_code type = UNKNOWN then
         ValueException_FromString ''Tried to create a dependency with an unknown dependency type''
       else if requirement \<notin> set (map requirement_code [EQ, GT, LT, GTE, LTE]) then
         ValueException_FromString ''Tried to create a dependency with an unknown requirement type''
       else
         bindM (DependencyBinding_new V (NewDependencyFromValues (component_of_code type) name version)) (\<lambda>b.
           set_result result (Value_SetObject (Some b))))))))"

subsection \<open>The installer\<close>

text \<open>The loop over the list, with a bound on its rounds.\<close>

primrec collect_dependencies :: "nat \<Rightarrow> vt \<Rightarrow> addr \<Rightarrow> uint32 \<Rightarrow> Dependency list \<Rightarrow> Dependency list M" where
  "collect_dependencies 0 V lst i dependencies = raiseM NoFuel"
| "collect_dependencies (Suc n) V lst i dependencies =
     bindM (vSize V lst) (\<lambda>len.
       if i < len then
         bindM (vAt V lst i) (\<lambda>x. bindM (load x) (\<lambda>v.
           if \<not> Value_IsObject v then collect_dependencies n V lst (i + 1) dependencies
           else
             bindM (vAt V lst i) (\<lambda>y. bindM (load y) (\<lambda>w.
             bindM (gets (\<lambda>h. DependencyBinding_GetDependency h (Value_ToObject w))) (\<lambda>d.
               collect_dependencies n V lst (i + 1)
                 (dependencies @ (case d of Some dep \<Rightarrow> [dep] | None \<Rightarrow> [])))))))
       else retM dependencies)"

text \<open>The end of \<^verbatim>\<open>_InstallDependencies\<close>; the thread that is started runs \<^verbatim>\<open>RunInstaller\<close>.\<close>

definition start_installer :: "addr \<Rightarrow> Dependency list \<Rightarrow> addr option \<Rightarrow> unit M" where
  "start_installer this dependencies callback =
     (if dependencies = [] then retM ()
      else
        bindM (get_api this) (\<lambda>b.
          if installerMutex b then
            ValueException_FromString ''Tried to launch more than one instance of the installer''
          else
            set_api this (\<lambda>b. b\<lparr>installerMutex := True, installerDependencies := dependencies,
              installerCallback := callback\<rparr>)))"

definition APIBinding__InstallDependencies :: "nat \<Rightarrow> vt \<Rightarrow> addr \<Rightarrow> addr list \<Rightarrow> unit M" where
  "APIBinding__InstallDependencies n V this args =
     bindM (ArgList_VerifyException args ''installDependencies'' ''l,m'') (\<lambda>_.
     bindM (ArgList_GetList args 0 None) (\<lambda>dependenciesList.
     bindM (ArgList_GetMethod args 1 None) (\<lambda>callback.
     bindM (of_opt dependenciesList) (\<lambda>lst.
     bindM (collect_dependencies n V lst 0 []) (\<lambda>dependencies.
       start_installer this dependencies callback)))))"

text \<open>What the thread of the installer runs.\<close>

definition APIBinding_RunInstaller :: "api_env \<Rightarrow> vt \<Rightarrow> addr \<Rightarrow> unit M" where
  "APIBinding_RunInstaller E V this =
     bindM (gets (\<lambda>h. p_application (proc h))) (\<lambda>a.
     bindM (get_application a) (\<lambda>app.
     bindM (get_api this) (\<lambda>b.
       case app_runtime app of
         None \<Rightarrow> raiseM NullPointer
       | Some runtime \<Rightarrow>
           bindM (in_world (BootUtils_RunInstaller (e_machine E) (installerDependencies b) app []
             (comp_path (snd runtime)))) (\<lambda>(_, app').
           bindM (put_application a app') (\<lambda>_.
           bindM (get_api this) (\<lambda>b'.
           bindM (case installerCallback b' of
                    Some m \<Rightarrow> bindM (InvokeMethodOnMainThread (e_what E) V m [] False) (\<lambda>_. retM ())
                  | None \<Rightarrow> retM ()) (\<lambda>_.
             set_api this (\<lambda>b. b\<lparr>installerMutex := False\<rparr>))))))))"

subsection \<open>Objects for scripts\<close>

definition EnvironmentBinding_obj :: kobj where
  "EnvironmentBinding_obj = \<lparr>cls = CEnvironmentBinding, otype = ''API.Environment'', properties = []\<rparr>"

definition APIBinding__GetEnvironment :: "addr \<Rightarrow> unit M" where
  "APIBinding__GetEnvironment result =
     bindM (new_object EnvironmentBinding_obj) (\<lambda>env. set_result result (Value_SetObject (Some env)))"

definition KObjectWrapper_obj :: "addr \<Rightarrow> kobj" where
  "KObjectWrapper_obj ob = \<lparr>cls = CKObjectWrapper ob, otype = ''KObject'', properties = []\<rparr>"

definition KMethodWrapper_obj :: "addr \<Rightarrow> kobj" where
  "KMethodWrapper_obj m = \<lparr>cls = CKMethodWrapper m, otype = ''KMethod'', properties = []\<rparr>"

definition KListWrapper_obj :: "addr \<Rightarrow> kobj" where
  "KListWrapper_obj l = \<lparr>cls = CKListWrapper l, otype = ''KList'', properties = []\<rparr>"

definition APIBinding__CreateKObject :: "addr list \<Rightarrow> addr \<Rightarrow> unit M" where
  "APIBinding__CreateKObject args result =
     bindM (ArgList_VerifyException args ''createKObject'' ''?o'') (\<lambda>_.
     bindM (if args = [] then new_object (StaticBoundObject_new ''StaticBoundObject'')
            else bindM (ArgList_GetObject args 0 None) (\<lambda>wrapped.
                 bindM (of_opt wrapped) (\<lambda>w. new_object (KObjectWrapper_obj w)))) (\<lambda>p.
       set_result result (Value_SetObject (Some p))))"

definition APIBinding__CreateKMethod :: "addr list \<Rightarrow> addr \<Rightarrow> unit M" where
  "APIBinding__CreateKMethod args result =
     bindM (ArgList_VerifyException args ''createKMethod'' ''m'') (\<lambda>_.
     bindM (ArgList_GetMethod args 0 None) (\<lambda>wrapped.
     bindM (of_opt wrapped) (\<lambda>w.
     bindM (new_object (KMethodWrapper_obj w)) (\<lambda>p. set_result result (Value_SetMethod (Some p))))))"

definition APIBinding__CreateKList :: "addr list \<Rightarrow> addr \<Rightarrow> unit M" where
  "APIBinding__CreateKList args result =
     bindM (ArgList_VerifyException args ''createKList'' ''?l'') (\<lambda>_.
     bindM (if args = [] then new_object (StaticBoundList_new ''StaticBoundList'')
            else bindM (ArgList_GetList args 0 None) (\<lambda>wrapped.
                 bindM (of_opt wrapped) (\<lambda>w. new_object (KListWrapper_obj w)))) (\<lambda>p.
       set_result result (Value_SetList (Some p))))"

section \<open>Dispatch of the member functions\<close>

text \<open>The root of the event objects is used through its pointer.\<close>

primrec APIBinding_call :: "api_env \<Rightarrow> vt \<Rightarrow> api_op \<Rightarrow> addr \<Rightarrow> addr list \<Rightarrow> addr \<Rightarrow> unit M" where
  "APIBinding_call E V API_set this args result = bindM (get_api this) (\<lambda>b. APIBinding__Set V this (api_global b) args)"
| "APIBinding_call E V API_get this args result = bindM (get_api this) (\<lambda>b. APIBinding__Get V this (api_global b) args result)"
| "APIBinding_call E V API_addEventListener this args result = APIBinding__AddEventListener (e_root E) args result"
| "APIBinding_call E V API_removeEventListener this args result = APIBinding__RemoveEventListener (e_root E) args"
| "APIBinding_call E V API_fireEvent this args result = bindM (load_obj (e_root E)) (\<lambda>_. APIBinding__FireEvent (e_what E) V (e_root E) args)"
| "APIBinding_call E V API_runOnMainThread this args result = APIBinding__RunOnMainThread (e_what E) V args result"
| "APIBinding_call E V API_runOnMainThreadAsync this args result = APIBinding__RunOnMainThreadAsync (e_what E) V args"
| "APIBinding_call E V API_getApplication this args result = APIBinding__GetApplication V result"
| "APIBinding_call E V API_getInstalledComponents this args result = APIBinding__GetInstalledComponents (e_machine E) V args result"
| "APIBinding_call E V API_getInstalledSDKs this args result = APIBinding__GetInstalledSDKs (e_machine E) V args result"
| "APIBinding_call E V API_getInstalledMobileSDKs this args result = APIBinding__GetInstalledMobileSDKs (e_machine E) V args result"
| "APIBinding_call E V API_getInstalledModules this args result = APIBinding__GetInstalledModules (e_machine E) V args result"
| "APIBinding_call E V API_getInstalledRuntimes this args result = APIBinding__GetInstalledRuntimes (e_machine E) V args result"
| "APIBinding_call E V API_getComponentSearchPaths this args result = bindM (in_world (GetComponentSearchPaths (e_machine E))) (\<lambda>paths. APIBinding__GetComponentSearchPaths paths result)"
| "APIBinding_call E V API_readApplicationManifest this args result = APIBinding__ReadApplicationManifest V args result"
| "APIBinding_call E V API_createDependency this args result = APIBinding__CreateDependency V args result"
| "APIBinding_call E V API_installDependencies this args result = APIBinding__InstallDependencies (e_depth E) V this args"
| "APIBinding_call E V API_componentGUIDToComponentType this args result = APIBinding__ComponentGUIDToComponentType args result"
| "APIBinding_call E V API_getEnvironment this args result = APIBinding__GetEnvironment result"
| "APIBinding_call E V API_createKObject this args result = APIBinding__CreateKObject args result"
| "APIBinding_call E V API_createKMethod this args result = APIBinding__CreateKMethod args result"
| "APIBinding_call E V API_createKList this args result = APIBinding__CreateKList args result"
| "APIBinding_call E V API_createBlob this args result = APIBinding__CreateBlob args result"
| "APIBinding_call E V API_log this args result = APIBinding__Log E V this args"
| "APIBinding_call E V API_trace this args result = APIBinding__LogTrace E V this args"
| "APIBinding_call E V API_debug this args result = APIBinding__LogDebug E V this args"
| "APIBinding_call E V API_info this args result = APIBinding__LogInfo E V this args"
| "APIBinding_call E V API_notice this args result = APIBinding__LogNotice E V this args"
| "APIBinding_call E V API_warn this args result = APIBinding__LogWarn E V this args"
| "APIBinding_call E V API_error this args result = APIBinding__LogError E V this args"
| "APIBinding_call E V API_critical this args result = APIBinding__LogCritical E V this args"
| "APIBinding_call E V API_fatal this args result = APIBinding__LogFatal E V this args"
| "APIBinding_call E V API_setLogLevel this args result = APIBinding__SetLogLevel E V args"
| "APIBinding_call E V API_getLogLevel this args result = APIBinding__GetLogLevel result"
| "APIBinding_call E V API_print this args result = APIBinding__Print (vDisplay (e_depth E) V) args"

primrec ScriptBinding_call :: "api_env \<Rightarrow> vt \<Rightarrow> script_op \<Rightarrow> addr list \<Rightarrow> addr \<Rightarrow> unit M" where
  "ScriptBinding_call E V Script_addScriptEvaluator args result = ScriptBinding__AddScriptEvaluator V (e_evals E) args"
| "ScriptBinding_call E V Script_removeScriptEvaluator args result =
     ScriptBinding__RemoveScriptEvaluator (e_depth E) V (e_evals E) args"
| "ScriptBinding_call E V Script_canEvaluate args result = ScriptBinding__CanEvaluate (e_depth E) V (e_evals E) args result"
| "ScriptBinding_call E V Script_canPreprocess args result = ScriptBinding__CanPreprocess (e_depth E) V (e_evals E) args result"
| "ScriptBinding_call E V Script_evaluate args result = ScriptBinding__Evaluate (e_depth E) V (e_evals E) args result"
| "ScriptBinding_call E V Script_preprocess args result = ScriptBinding__Preprocess (e_depth E) V (e_evals E) args result"

definition api_natives :: "api_env \<Rightarrow> natives \<Rightarrow> natives" where
  "api_natives E ext cb V args result =
     (case cb of
        API_Method op this \<Rightarrow> APIBinding_call E V op this args result
      | Script_Method op this \<Rightarrow> ScriptBinding_call E V op args result
      | Component_Method op this \<Rightarrow> ComponentBinding_call V op this result
      | Dependency_Method op this \<Rightarrow> DependencyBinding_call op this result
      | Application_Method op this \<Rightarrow> ApplicationBinding_call E V op this args result
      | _ \<Rightarrow> ext cb V args result)"

end
