(* ===== verification/Kroll_ApiLaws.thy ===== *)
theory Kroll_ApiLaws
  imports Kroll_ApiModule
begin

text \<open>
  The API module keeps the store invariant: its member functions satisfy the contract of native code, so that
  the binding layer with the module loaded has the invariant of \<^verbatim>\<open>Kroll_ObjectLaws\<close> at every virtual call.
\<close>

declare not_None_eq [iff del]

section \<open>The state of the process\<close>

lemma sound_set_proc: "wf_heap h \<Longrightarrow> Q x (h\<lparr>proc := p\<rparr>) \<Longrightarrow> m h = (Inr x, h\<lparr>proc := p\<rparr>) \<Longrightarrow> sound h m Q"
  by (simp add: sound_def wf_heap_proc)

lemma sound_in_logging: "wf_heap h \<Longrightarrow> sound h (in_logging f) (\<lambda>_ _. True)"
  by (auto simp: sound_def in_logging_def exn_ok_def wf_heap_proc split: option.split)

lemma sound_put_application: "wf_heap h \<Longrightarrow> sound h (put_application a app) (\<lambda>_ _. True)"
  by (rule sound_set_proc) (auto simp: put_application_def)

lemma sound_put_installed: "wf_heap h \<Longrightarrow> sound h (put_installed cs) (\<lambda>_ _. True)"
  by (rule sound_set_proc) (auto simp: put_installed_def)

lemma sound_file_system: "wf_heap h \<Longrightarrow> sound h file_system (\<lambda>_ h'. h' = h)"
  by (simp add: file_system_def sound_gets)

lemma sound_get_application: "wf_heap h \<Longrightarrow> sound h (get_application a) (\<lambda>_ h'. h' = h)"
  unfolding get_application_def by (auto intro!: sound_gets_bind sound_of_opt)

lemma sound_new_components: "wf_heap h \<Longrightarrow> sound h (new_components cs) (\<lambda>_ _. True)"
  by (induction cs arbitrary: h) (auto intro!: sound_ret sound_bind [OF sound_fresh] intro: sound_bind)

lemmas sound_process = sound_bind [OF sound_in_logging] sound_bind [OF sound_in_world] sound_bind [OF sound_put_application]
  sound_bind [OF sound_put_installed] sound_bind [OF sound_file_system] sound_bind [OF sound_get_application]
  sound_bind [OF sound_new_components] sound_opt_bind sound_gets_bind

lemma sound_GetInstalledComponents: "wf_heap h \<Longrightarrow> sound h (BootUtils_GetInstalledComponents m force) (\<lambda>_ _. True)"
  unfolding BootUtils_GetInstalledComponents_def by (auto intro!: sound_process sound_ret)

lemma sound_GetAvailableComponents: "wf_heap h \<Longrightarrow> sound h (Application_GetAvailableComponents m app b) (\<lambda>_ _. True)"
  unfolding Application_GetAvailableComponents_def Let_def
  by (auto intro!: sound_process sound_ret sound_bind [OF sound_GetInstalledComponents] intro: sound_new_components)

lemma sound_ResolveDependencies: "wf_heap h \<Longrightarrow> sound h (Application_ResolveDependencies m a) (\<lambda>_ _. True)"
  unfolding Application_ResolveDependencies_def Let_def
  by (auto intro!: sound_process sound_ret sound_bind [OF sound_GetAvailableComponents] split: prod.split)

section \<open>Members\<close>

lemma sound_get_component: "wf_heap h \<Longrightarrow> sound h (get_component this) (\<lambda>_ h'. h' = h)"
  unfolding get_component_def
  by (rule sound_load_obj_bind) (auto intro!: sound_ret sound_raise simp: exn_ok_def split: kclass.split)

lemma sound_get_dependency: "wf_heap h \<Longrightarrow> sound h (get_dependency this) (\<lambda>_ h'. h' = h)"
  unfolding get_dependency_def by (auto intro!: sound_gets_bind sound_of_opt)

lemma sound_get_binding: "wf_heap h \<Longrightarrow> sound h (get_binding this) (\<lambda>_ h'. h' = h)"
  unfolding get_binding_def
  by (rule sound_load_obj_bind) (auto intro!: sound_ret sound_raise simp: exn_ok_def split: kclass.split)

lemma sound_bound_application: "wf_heap h \<Longrightarrow> sound h (bound_application this) (\<lambda>_ h'. h' = h)"
  unfolding bound_application_def
  by (rule sound_bind [OF sound_get_binding]) (auto intro: sound_get_application split: prod.split)

lemma sound_get_api: "wf_heap h \<Longrightarrow> sound h (get_api this) (\<lambda>b h'. h' = h \<and> objs h (api_global b) \<noteq> None
    \<and> pred_option (isMethod h) (installerCallback b))"
  unfolding get_api_def
  by (rule sound_load_obj_bind) (auto intro!: sound_ret sound_raise simp: exn_ok_def wf_obj_def split: kclass.split)

lemma sound_set_api:
  assumes "wf_heap h"
    and "\<And>b. fixed (CAPIBinding (f b)) = fixed (CAPIBinding b)"
    and "\<And>b. wf_class h (CAPIBinding b) \<Longrightarrow> wf_class h (CAPIBinding (f b))"
  shows "sound h (set_api this f) (\<lambda>_ _. True)"
  unfolding set_api_def using assms
  by (intro sound_load_obj_bind)
    (auto intro!: sound_conseq [OF sound_store_obj] sound_raise simp: exn_ok_def wf_obj_def simp del: fixed.simps wf_class.simps
      split: kclass.split)

lemmas sound_members = sound_bind [OF sound_get_component] sound_bind [OF sound_get_dependency] sound_bind [OF sound_get_binding]
  sound_bind [OF sound_bound_application] sound_bind [OF sound_get_api]

lemma sound_set_list_result:
  "sound h m (\<lambda>l h'. isList h' l) \<Longrightarrow> sound h (set_list_result result m) (\<lambda>_ _. True)"
  unfolding set_list_result_def by (erule sound_bind) (auto intro!: sound_set_result)

lemma sound_append_strings: "wf_heap h \<Longrightarrow> sound h (append_strings l ss) (\<lambda>_ _. True)"
  by (induction ss arbitrary: h) (auto intro!: sound_ret sound_bind [OF sound_new_string] sound_bind [OF sound_List_Append])

lemma sound_list_then:
  assumes "wf_heap h" and "\<And>h l. wf_heap h \<Longrightarrow> sound h (f l) (\<lambda>_ _. True)"
  shows "sound h (bindM (new_object (StaticBoundList_new ty)) (\<lambda>l. bindM (f l) (\<lambda>_. retM l))) (\<lambda>l h'. isList h' l)"
  by (rule sound_bind [OF sound_list_object [OF assms(1)]])
    (auto intro!: sound_bind [OF assms(2)] sound_ret intro: heap_le_isList)

lemma sound_FromStringVector: "wf_heap h \<Longrightarrow> sound h (StaticBoundList_FromStringVector ss) (\<lambda>l h'. isList h' l)"
  unfolding StaticBoundList_FromStringVector_def by (rule sound_list_then) (auto intro: sound_append_strings)

section \<open>Construction of bindings\<close>

lemma binding_objects_wf:
  "wf_obj h (ComponentBinding_obj c)" "wf_obj h (DependencyBinding_obj d)" "wf_obj h (ApplicationBinding_obj a b)"
  "wf_obj h EnvironmentBinding_obj" "wf_obj h (StaticBoundObject_new ty)"
  by (simp_all add: wf_obj_def pmap_ok_def ComponentBinding_obj_def DependencyBinding_obj_def ApplicationBinding_obj_def
      EnvironmentBinding_obj_def StaticBoundObject_new_def)

lemma wrapper_objects_wf:
  "objs h p \<noteq> None \<Longrightarrow> wf_obj h (KObjectWrapper_obj p)" "isMethod h p \<Longrightarrow> wf_obj h (KMethodWrapper_obj p)"
  "isList h p \<Longrightarrow> wf_obj h (KListWrapper_obj p)" "objs h p \<noteq> None \<Longrightarrow> wf_obj h (APIBinding_obj p l)"
  by (simp_all add: wf_obj_def pmap_ok_def KObjectWrapper_obj_def KMethodWrapper_obj_def KListWrapper_obj_def APIBinding_obj_def)

lemma wrapper_kinds: "objs h p = Some (KMethodWrapper_obj w) \<Longrightarrow> isMethod h p" "objs h p = Some (KListWrapper_obj w) \<Longrightarrow> isList h p"
  by (simp_all add: isMethod_def isList_def KMethodWrapper_obj_def KListWrapper_obj_def)

context virtual_table
begin

lemma sound_virtual_SetMethod: "wf_heap h \<Longrightarrow> sound h (virtual_SetMethod V this name cb) (\<lambda>_ _. True)"
proof -
  assume h: "wf_heap h"
  have "wf_obj h (StaticBoundMethod_new (Some cb) ''StaticBoundMethod'')"
    by (simp add: wf_obj_def StaticBoundMethod_new_def pmap_ok_def)
  then show ?thesis
    unfolding virtual_SetMethod_def
    by (intro sound_bind [OF sound_new_object [OF h]] sound_bind [OF sound_new_value])
      (auto intro!: v_set simp: isMethod_def StaticBoundMethod_new_def)
qed

lemma sound_virtual_methods: "wf_heap h \<Longrightarrow> sound h (virtual_methods V this ps) (\<lambda>_ _. True)"
  by (induction ps arbitrary: h) (auto intro!: sound_ret sound_bind [OF sound_virtual_SetMethod])

lemma sound_new_then:
  assumes "wf_heap h" and "wf_obj h ob" and "\<And>h p. wf_heap h \<Longrightarrow> sound h (f p) (\<lambda>_ _. True)"
  shows "sound h (bindM (new_object ob) (\<lambda>p. bindM (f p) (\<lambda>_. retM p))) (\<lambda>p h'. objs h' p \<noteq> None)"
  by (rule sound_bind [OF sound_new_object [OF assms(1,2)]])
    (auto intro!: sound_bind [OF assms(3)] sound_ret elim: heap_le_objE)

lemma sound_binding_new:
  assumes "wf_heap h"
  shows "sound h (ComponentBinding_new V c) (\<lambda>p h'. objs h' p \<noteq> None)"
    and "sound h (DependencyBinding_new V d) (\<lambda>p h'. objs h' p \<noteq> None)"
    and "sound h (ApplicationBinding_new V a b) (\<lambda>p h'. objs h' p \<noteq> None)"
    and "sound h (ScriptBinding_new V) (\<lambda>p h'. objs h' p \<noteq> None)"
  unfolding ComponentBinding_new_def DependencyBinding_new_def ApplicationBinding_new_def ScriptBinding_new_def
  using assms by (auto intro!: sound_new_then sound_virtual_methods simp: binding_objects_wf)

lemma sound_append_object:
  assumes "wf_heap h" and "objs h b \<noteq> None" and "\<And>h. wf_heap h \<Longrightarrow> sound h m (\<lambda>_ _. True)"
  shows "sound h (bindM (new_value (Value_NewObject (Some b))) (\<lambda>v. bindM (vAppend V l v) (\<lambda>_. m))) (\<lambda>_ _. True)"
proof -
  have "wf_cell h (Value_NewObject (Some b))" using assms(2) by simp
  then show ?thesis
    by (intro sound_bind [OF sound_new_value [OF assms(1)]] sound_bind [OF v_append]) (auto intro: assms(3))
qed

lemma sound_append_components: "wf_heap h \<Longrightarrow> sound h (append_components V l cs flt) (\<lambda>_ _. True)"
  by (induction cs arbitrary: h)
    (auto intro!: sound_ret sound_bind [OF sound_binding_new(1)] sound_append_object)

lemma sound_append_dependencies: "wf_heap h \<Longrightarrow> sound h (append_dependencies V l ds) (\<lambda>_ _. True)"
  by (induction ds arbitrary: h)
    (auto intro!: sound_ret sound_bind [OF sound_binding_new(2)] sound_append_object)

lemma sound_manifest_entries: "wf_heap h \<Longrightarrow> sound h (manifest_entries V l ps) (\<lambda>_ _. True)"
proof (induction ps arbitrary: h)
  case (Cons p ps)
  have entry: "sound h' (bindM (new_value (Value_NewList (Some e))) (\<lambda>v. bindM (vAppend V l v) (\<lambda>_. manifest_entries V l ps)))
      (\<lambda>_ _. True)" if "wf_heap h'" "isList h' e" for h' e
  proof -
    have "wf_cell h' (Value_NewList (Some e))" using that by simp
    then show ?thesis
      by (intro sound_bind [OF sound_new_value [OF that(1)]] sound_bind [OF v_append]) (auto intro: Cons.IH)
  qed
  show ?case
    unfolding manifest_entries.simps
    by (rule sound_bind [OF sound_list_object [OF Cons.prems]])
      (auto intro!: sound_bind [OF sound_new_string] sound_bind [OF v_append] entry, meson heap_le_isList)
qed (simp add: sound_ret)

lemma sound_binding_lists:
  assumes "wf_heap h"
  shows "sound h (ComponentVectorToKList V cs flt) (\<lambda>l h'. isList h' l)"
    and "sound h (DependencyVectorToKList V ds) (\<lambda>l h'. isList h' l)"
    and "sound h (ManifestToKList V ps) (\<lambda>l h'. isList h' l)"
  unfolding ComponentVectorToKList_def DependencyVectorToKList_def ManifestToKList_def
  using assms by (auto intro!: sound_list_then sound_append_components sound_append_dependencies sound_manifest_entries)

section \<open>The member functions\<close>

lemmas binding_ops = ComponentBinding__GetType_def ComponentBinding__GetName_def ComponentBinding__GetVersion_def
  ComponentBinding__GetPath_def ComponentBinding__IsBundled_def ComponentBinding__IsLoaded_def
  DependencyBinding__GetType_def DependencyBinding__GetName_def DependencyBinding__GetVersion_def
  DependencyBinding__GetRequirement_def

lemma sound_ComponentBinding_call: "wf_heap h \<Longrightarrow> sound h (ComponentBinding_call V op this result) (\<lambda>_ _. True)"
proof (cases op)
  case Component_getManifest
  assume h: "wf_heap h"
  show ?thesis
    unfolding Component_getManifest ComponentBinding_call.simps ComponentBinding__GetManifest_def using h
    by (auto intro!: sound_members sound_process sound_bind [OF sound_binding_lists(3)] sound_set_result)
qed (auto simp: binding_ops intro!: sound_members sound_process sound_set_result sound_set_string_result sound_ret
      sound_bind [OF sound_set_result])

lemma sound_DependencyBinding_call: "wf_heap h \<Longrightarrow> sound h (DependencyBinding_call op this result) (\<lambda>_ _. True)"
  by (cases op) (auto simp: binding_ops intro!: sound_members sound_set_result sound_set_string_result)

lemmas application_ops = ApplicationBinding__GetID_def ApplicationBinding__GetGUID_def ApplicationBinding__GetName_def
  ApplicationBinding__GetVersion_def ApplicationBinding__GetPath_def ApplicationBinding__GetManifestPath_def
  ApplicationBinding__GetExecutablePath_def ApplicationBinding__GetResourcesPath_def ApplicationBinding__GetDataPath_def
  ApplicationBinding__GetManifest_def ApplicationBinding__IsCurrent_def ApplicationBinding__GetPID_def
  ApplicationBinding__GetArguments_def ApplicationBinding__HasArgument_def ApplicationBinding__GetArgumentValue_def

lemmas application_list_ops = ApplicationBinding__GetDependencies_def ApplicationBinding__ResolveDependencies_def
  ApplicationBinding__GetComponents_def ApplicationBinding__GetModules_def ApplicationBinding__GetRuntime_def
  ApplicationBinding__GetAvailableComponents_def ApplicationBinding__GetAvailableModules_def
  ApplicationBinding__GetAvailableRuntimes_def ApplicationBinding__GetBundledComponents_def
  ApplicationBinding__GetBundledModules_def ApplicationBinding__GetBundledRuntimes_def

lemmas sound_list_results = sound_set_list_result [OF sound_binding_lists(1)] sound_set_list_result [OF sound_binding_lists(2)]
  sound_set_list_result [OF sound_binding_lists(3)] sound_set_list_result [OF sound_FromStringVector]

lemma sound_set_object: "wf_heap h \<Longrightarrow> objs h p \<noteq> None \<Longrightarrow> sound h (set_result r (Value_SetObject (Some p))) (\<lambda>_ _. True)"
  by (rule sound_set_result) simp_all

lemma sound_ApplicationBinding_call:
  "wf_heap h \<Longrightarrow> sound h (ApplicationBinding_call E V op this args result) (\<lambda>_ _. True)"
  by (cases op)
    (auto simp: application_ops application_list_ops split: option.split
      intro!: sound_members sound_process sound_arg_steps sound_bind [OF sound_arg_string] sound_list_results sound_ret
        sound_bind [OF sound_binding_new(1)] sound_bind [OF sound_ResolveDependencies] sound_set_object
        sound_bind [OF sound_GetAvailableComponents] sound_set_result sound_set_string_result)

section \<open>The API object\<close>

lemma sound_ValueToLevel: "wf_heap h \<Longrightarrow> sound h (APIBinding_ValueToLevel E V a) (\<lambda>_ _. True)"
  unfolding APIBinding_ValueToLevel_def
  by (auto intro!: sound_load_bind sound_opt_bind sound_ret sound_bind [OF sound_vDisplay] split: prod.split)

lemma sound_API_Log: "wf_heap h \<Longrightarrow> sound h (APIBinding_Log E V this severity a) (\<lambda>_ _. True)"
proof -
  have message: "sound h (if Value_IsString v then bindM (of_opt (Value_ToString v)) (\<lambda>(_, s). retM (c_str s))
      else Value_DisplayString (vDisplay (e_depth E) V) a 3) (\<lambda>_ _. True)" if "wf_heap h" for h v
    using that by (auto intro!: sound_opt_bind sound_ret sound_Value_Display sound_vDisplay split: prod.split)
  assume "wf_heap h"
  then show ?thesis
    unfolding APIBinding_Log_def
    by (auto intro!: sound_members sound_process sound_ret sound_load_bind sound_bind [OF message] sound_in_logging)
qed

lemmas log_ops = APIBinding__LogTrace_def APIBinding__LogDebug_def APIBinding__LogInfo_def APIBinding__LogNotice_def
  APIBinding__LogWarn_def APIBinding__LogError_def APIBinding__LogCritical_def APIBinding__LogFatal_def APIBinding__Log_def

lemma sound_log_ops:
  assumes "wf_heap h" and args: "\<forall>x \<in> set args. cells h x \<noteq> None"
  shows "sound h (APIBinding__LogTrace E V this args) (\<lambda>_ _. True)" "sound h (APIBinding__LogDebug E V this args) (\<lambda>_ _. True)"
    "sound h (APIBinding__LogInfo E V this args) (\<lambda>_ _. True)" "sound h (APIBinding__LogNotice E V this args) (\<lambda>_ _. True)"
    "sound h (APIBinding__LogWarn E V this args) (\<lambda>_ _. True)" "sound h (APIBinding__LogError E V this args) (\<lambda>_ _. True)"
    "sound h (APIBinding__LogCritical E V this args) (\<lambda>_ _. True)" "sound h (APIBinding__LogFatal E V this args) (\<lambda>_ _. True)"
    "sound h (APIBinding__Log E V this args) (\<lambda>_ _. True)" "sound h (APIBinding__SetLogLevel E V args) (\<lambda>_ _. True)"
    "sound h (APIBinding__GetLogLevel result) (\<lambda>_ _. True)"
  unfolding log_ops APIBinding__SetLogLevel_def APIBinding__GetLogLevel_def using assms heap_le_cells
  by (auto intro!: sound_bind [OF sound_args_at'] sound_API_Log sound_bind [OF sound_ValueToLevel] sound_in_logging sound_ret
      sound_process sound_arg_steps sound_set_result)

lemma sound_GetBool: "wf_heap h \<Longrightarrow> sound h (ArgList_GetBool args i d) (\<lambda>_ _. True)"
  unfolding ArgList_GetBool_def by (auto intro!: sound_load_bind sound_ret sound_of_opt)

lemmas installed_ops = APIBinding__GetInstalledComponents_def APIBinding__GetInstalledModules_def
  APIBinding__GetInstalledRuntimes_def APIBinding__GetInstalledSDKs_def APIBinding__GetInstalledMobileSDKs_def
  APIBinding__GetInstalledComponentsImpl_def

lemma sound_installed_ops:
  assumes "wf_heap h"
  shows "sound h (APIBinding__GetInstalledComponents m V args r) (\<lambda>_ _. True)"
    "sound h (APIBinding__GetInstalledModules m V args r) (\<lambda>_ _. True)"
    "sound h (APIBinding__GetInstalledRuntimes m V args r) (\<lambda>_ _. True)"
    "sound h (APIBinding__GetInstalledSDKs m V args r) (\<lambda>_ _. True)"
    "sound h (APIBinding__GetInstalledMobileSDKs m V args r) (\<lambda>_ _. True)"
  unfolding installed_ops using assms
  by (auto intro!: sound_arg_steps sound_bind [OF sound_GetBool] sound_bind [OF sound_GetInstalledComponents] sound_list_results)

lemma sound_GetApplication: "wf_heap h \<Longrightarrow> sound h (APIBinding__GetApplication V r) (\<lambda>_ _. True)"
  unfolding APIBinding__GetApplication_def
  by (auto intro!: sound_gets_bind sound_bind [OF sound_binding_new(3)] sound_set_object)

lemma sound_ReadApplicationManifest:
  "wf_heap h \<Longrightarrow> sound h (APIBinding__ReadApplicationManifest V args r) (\<lambda>_ _. True)"
  unfolding APIBinding__ReadApplicationManifest_def new_application_ptr_def Let_def
  by (auto intro!: sound_arg_steps sound_bind [OF sound_arg_string] sound_process sound_bind [OF sound_fresh]
      sound_bind [OF sound_binding_new(3)] sound_set_object sound_set_result split: option.split)

lemma sound_CreateDependency: "wf_heap h \<Longrightarrow> sound h (APIBinding__CreateDependency V args r) (\<lambda>_ _. True)"
  unfolding APIBinding__CreateDependency_def Let_def
  by (auto intro!: sound_arg_steps sound_ValueException_FromString sound_bind [OF sound_binding_new(2)] sound_set_object)

lemma sound_collect_dependencies: "wf_heap h \<Longrightarrow> sound h (collect_dependencies n V l i ds) (\<lambda>_ _. True)"
  by (induction n arbitrary: h i ds)
    (auto intro!: sound_raise sound_ret sound_bind [OF v_size] sound_bind [OF v_at] sound_load_bind sound_gets_bind simp: exn_ok_def)

lemma sound_GetList: "wf_heap h \<Longrightarrow> sound h (ArgList_GetList args i None) (\<lambda>_ h'. h' = h)"
  unfolding ArgList_GetList_def by (auto intro!: sound_load_bind sound_gets sound_ret)

lemma sound_InstallDependencies: "wf_heap h \<Longrightarrow> sound h (APIBinding__InstallDependencies n V this args) (\<lambda>_ _. True)"
proof -
  have start: "sound h (bindM (collect_dependencies n V l 0 []) (\<lambda>ds. start_installer this ds cb)) (\<lambda>_ _. True)"
    if "wf_heap h" "pred_option (isMethod h) cb" for h l cb
    unfolding start_installer_def using that heap_le_isMethod
    by (auto intro!: sound_bind [OF sound_collect_dependencies] sound_members sound_ret sound_ValueException_FromString sound_set_api
        simp: pred_option_def)
  assume "wf_heap h"
  then show ?thesis
    unfolding APIBinding__InstallDependencies_def
    by (auto intro!: sound_arg_steps sound_bind [OF sound_GetList] sound_bind [OF sound_GetMethod] sound_opt_bind start)
qed

lemma sound_RunInstaller: "wf_heap h \<Longrightarrow> sound h (APIBinding_RunInstaller E V this) (\<lambda>_ _. True)"
proof -
  have unlock: "sound h (set_api this (\<lambda>b. b\<lparr>installerMutex := False\<rparr>)) (\<lambda>_ _. True)" if "wf_heap h" for h
    using that by (intro sound_set_api) auto
  have callback: "sound h (case cb of Some m \<Rightarrow> bindM (InvokeMethodOnMainThread w V m [] False) (\<lambda>_. retM ()) | None \<Rightarrow> retM ())
      (\<lambda>_ _. True)" if "wf_heap h" "pred_option (isMethod h) cb" for h cb w
    using that by (auto intro!: sound_bind [OF sound_Invoke] sound_ret split: option.split)
  assume "wf_heap h"
  then show ?thesis
    unfolding APIBinding_RunInstaller_def
    by (auto intro!: sound_process sound_members sound_raise sound_bind [OF callback] unlock simp: exn_ok_def split: option.split prod.split)
qed

lemma sound_create_objects:
  assumes "wf_heap h"
  shows "sound h (APIBinding__GetEnvironment r) (\<lambda>_ _. True)" "sound h (APIBinding__CreateKObject args r) (\<lambda>_ _. True)"
    "sound h (APIBinding__CreateKMethod args r) (\<lambda>_ _. True)" "sound h (APIBinding__CreateKList args r) (\<lambda>_ _. True)"
    "sound h (APIBinding__CreateBlob args r) (\<lambda>_ _. True)"
proof -
  show "sound h (APIBinding__GetEnvironment r) (\<lambda>_ _. True)"
    unfolding APIBinding__GetEnvironment_def
    by (rule sound_bind [OF sound_new_object [OF assms binding_objects_wf(4)]]) (auto intro!: sound_set_object)
  have ob: "sound h (ArgList_GetObject args 0 None) (\<lambda>p h'. h' = h \<and> pred_option (\<lambda>a. objs h a \<noteq> None) p)" if "wf_heap h" for h
    unfolding ArgList_GetObject_def using that
    by (auto intro!: sound_load_bind sound_ret simp: pred_option_def dest: wf_cell_ToObject)
  have lst: "sound h (ArgList_GetList args 0 None) (\<lambda>p h'. h' = h \<and> pred_option (isList h) p)" if "wf_heap h" for h
    unfolding ArgList_GetList_def using that
    by (auto intro!: sound_load_bind sound_gets sound_ret simp: pred_option_def Value_ToList_def autoptr_cast_def split: option.splits if_splits)
  show "sound h (APIBinding__CreateKObject args r) (\<lambda>_ _. True)"
    unfolding APIBinding__CreateKObject_def using assms
    by (auto intro!: sound_arg_steps sound_bind [OF sound_new_object] sound_bind [OF ob] sound_opt_bind sound_set_object
        binding_objects_wf wrapper_objects_wf)
  show "sound h (APIBinding__CreateKMethod args r) (\<lambda>_ _. True)"
    unfolding APIBinding__CreateKMethod_def using assms
    by (auto intro!: sound_arg_steps sound_bind [OF sound_new_object] sound_bind [OF sound_GetMethod] sound_opt_bind sound_set_result
        wrapper_objects_wf simp: wrapper_kinds)
  show "sound h (APIBinding__CreateKList args r) (\<lambda>_ _. True)"
    unfolding APIBinding__CreateKList_def using assms
    by (auto intro!: sound_arg_steps sound_bind [OF sound_new_object] sound_bind [OF lst] sound_opt_bind sound_set_result
        sound_bind [OF sound_list_object] wrapper_objects_wf simp: wrapper_kinds)
  show "sound h (APIBinding__CreateBlob args r) (\<lambda>_ _. True)"
    unfolding APIBinding__CreateBlob_def Blob_GlobBlobs_def using assms
    by (auto intro!: sound_arg_steps sound_bind [OF sound_concat_args] sound_set_object sound_bind [OF sound_Blob_new]
        sound_bind [OF sound_ConcatBlobs])
qed

lemma sound_Event_new:
  assumes "wf_heap h" and "objs h target \<noteq> None"
  shows "sound h (Event_new V target name) (\<lambda>p h'. objs h' p \<noteq> None)"
proof -
  have const: "sound h (set_constants V p cs) (\<lambda>_ _. True)" if "wf_heap h" for h p cs
    using that by (induction cs arbitrary: h) (auto intro!: sound_ret sound_bind [OF sound_new_string] sound_bind [OF v_set])
  have "wf_obj h (Event_obj target name t None)" for t
    using assms(2) by (simp add: wf_obj_def Event_obj_def pmap_ok_def)
  then show ?thesis
    unfolding Event_new_def Event_setup_def Event_SetEventConstants_def using assms(1)
    by (intro sound_gets_bind sound_new_then sound_bind [OF const])
      (auto intro: sound_virtual_methods simp del: virtual_methods.simps)
qed

lemma sound_API_FireEvent:
  assumes "wf_heap h" and "objs h rootObj \<noteq> None" and "\<forall>x \<in> set args. cells h x \<noteq> None"
  shows "sound h (APIBinding__FireEvent what V rootObj args) (\<lambda>_ _. True)"
proof -
  have named: "sound h (bindM (KEventObject_FireRootEventNamed what V rootObj name) (\<lambda>_. retM ())) (\<lambda>_ _. True)"
    if "wf_heap h" "objs h rootObj \<noteq> None" for h name
    unfolding KEventObject_FireRootEventNamed_def KEventObject_FireEventNamed_def bindM_assoc using that
    by (auto intro!: sound_bind [OF sound_Event_new] sound_bind [OF sound_FireEvent] sound_ret)
  have ob: "sound h (ArgList_GetObject args 0 None) (\<lambda>p h'. h' = h \<and> pred_option (\<lambda>a. objs h a \<noteq> None) p)" if "wf_heap h" for h
    unfolding ArgList_GetObject_def using that
    by (auto intro!: sound_load_bind sound_ret simp: pred_option_def dest: wf_cell_ToObject)
  show ?thesis
    unfolding APIBinding__FireEvent_def KEventObject_FireRootEvent_def using assms heap_le_objs heap_le_cells
    by (auto intro!: sound_arg_steps sound_bind [OF sound_args_at'] sound_load_bind named sound_bind [OF ob] sound_gets_bind
        sound_opt_bind sound_bind [OF sound_FireEvent] sound_ret)
qed

lemma sound_ComponentGUID: "wf_heap h \<Longrightarrow> sound h (APIBinding__ComponentGUIDToComponentType args r) (\<lambda>_ _. True)"
  unfolding APIBinding__ComponentGUIDToComponentType_def Let_def
  by (auto intro!: sound_bind [OF sound_arg_string] sound_set_result)

lemma sound_SearchPaths: "wf_heap h \<Longrightarrow> sound h (APIBinding__GetComponentSearchPaths paths r) (\<lambda>_ _. True)"
  unfolding APIBinding__GetComponentSearchPaths_def
  by (auto intro!: sound_bind [OF sound_FromStringVector] sound_set_result)

lemma sound_APIBinding_call:
  assumes "wf_heap h" and args: "\<forall>x \<in> set args. cells h x \<noteq> None"
  shows "sound h (APIBinding_call E V op this args result) (\<lambda>_ _. True)"
  using assms
  by (cases op)
    (auto simp: APIBinding__AddEventListener_def APIBinding__RemoveEventListener_def
      intro!: sound_members sound_process sound_load_obj_bind sound_API_Set sound_API_Get sound__Add sound__Remove sound_API_FireEvent
        sound_API_RunOnMainThread sound_GetApplication sound_installed_ops sound_SearchPaths sound_ReadApplicationManifest
        sound_CreateDependency sound_InstallDependencies sound_ComponentGUID sound_create_objects sound_log_ops sound_API_Print)

lemma sound_evaluator_index: "wf_heap h \<Longrightarrow> sound h (evaluator_index n V evals e i) (\<lambda>_ _. True)"
  by (induction n arbitrary: h i)
    (auto intro!: sound_raise sound_ret sound_bind [OF v_size] sound_bind [OF v_at] sound_load_bind sound_opt_bind sound_gets_bind
      simp: exn_ok_def evaluator_at_def)

lemma sound_ScriptBinding_call:
  assumes "wf_heap h"
  shows "sound h (ScriptBinding_call E V op args result) (\<lambda>_ _. True)"
proof -
  have ob: "sound h (ArgList_GetObject args i None) (\<lambda>p h'. h' = h \<and> pred_option (\<lambda>a. objs h a \<noteq> None) p)" if "wf_heap h" for h i
    unfolding ArgList_GetObject_def using that
    by (auto intro!: sound_load_bind sound_ret simp: pred_option_def dest: wf_cell_ToObject)
  have add: "sound h (AddScriptEvaluator V l e) (\<lambda>_ _. True)" if "wf_heap h" "objs h e \<noteq> None" for h l e
  proof -
    have "wf_cell h (Value_NewObject (Some e))" using that by simp
    then show ?thesis
      unfolding AddScriptEvaluator_def by (intro sound_bind [OF sound_new_value [OF that(1)]]) (auto intro: v_append)
  qed
  have remove: "sound h (RemoveScriptEvaluator n V l e) (\<lambda>_ _. True)" if "wf_heap h" for h n l e
    unfolding RemoveScriptEvaluator_def using that
    by (auto intro!: sound_bind [OF sound_evaluator_index] sound_bind [OF v_remove] sound_ret)
  show ?thesis
    using assms
    by (cases op)
      (auto simp: ScriptBinding__AddScriptEvaluator_def ScriptBinding__RemoveScriptEvaluator_def ScriptBinding__CanEvaluate_def
        ScriptBinding__CanPreprocess_def ScriptBinding__Evaluate_def ScriptBinding__Preprocess_def freed_string_def exn_ok_def
        intro!: sound_arg_steps sound_bind [OF ob] sound_opt_bind add remove sound_raise)
qed

end

section \<open>The contract of native code\<close>

lemma api_natives_sound:
  assumes "native_code N F" and "virtual_table V" and "wf_heap h" and "\<forall>x \<in> set args. cells h x \<noteq> None" and "cells h result \<noteq> None"
  shows "sound h (api_natives E N cb V args result) (\<lambda>_ _. True)"
  unfolding api_natives_def
  using assms(3,4) native_code.native [OF assms(1-5)]
  by (auto split: callback.split
      intro: virtual_table.sound_APIBinding_call [OF assms(2)] virtual_table.sound_ScriptBinding_call [OF assms(2)]
        virtual_table.sound_ComponentBinding_call [OF assms(2)] virtual_table.sound_DependencyBinding_call [OF assms(2)]
        virtual_table.sound_ApplicationBinding_call [OF assms(2)])

lemma api_native_code: "native_code N F \<Longrightarrow> native_code (api_natives E N) F"
  by unfold_locales (auto intro: api_natives_sound native_code.fnptr)

text \<open>The binding layer with the API module loaded.\<close>

interpretation api: native_code "kroll_natives lo up (api_natives E no_natives)" no_fnptrs for lo up E
  by (rule kroll_native_code [OF api_native_code [OF idle.native_code_axioms]])

end
