(* ===== verification/Kroll_ApiProps.thy ===== *)
theory Kroll_ApiProps
  imports Kroll_ApiLaws
begin

text \<open>
  What scripts see of the API module: the properties of the bindings, read through the accessor methods, the
  identity of components, the installer and the environment.
\<close>

declare vtable.simps [simp del] vDisplay.simps [simp del]

section \<open>Objects with bound methods\<close>

text \<open>A property that holds a method with the callback \<open>cb\<close>; a table of such properties.\<close>

definition bound_method :: "heap \<Rightarrow> addr \<Rightarrow> callback \<Rightarrow> bool" where
  "bound_method h x cb \<longleftrightarrow> (\<exists>m mo. cells h x = Some (Value_NewMethod (Some m)) \<and> objs h m = Some mo
     \<and> cls mo = CStaticBoundMethod (Some cb))"

definition bound_table :: "heap \<Rightarrow> (string \<times> addr) list \<Rightarrow> (string \<times> callback) list \<Rightarrow> bool" where
  "bound_table h = list_all2 (\<lambda>p q. fst p = fst q \<and> bound_method h (snd p) (snd q))"

definition bound_methods :: "heap \<Rightarrow> addr \<Rightarrow> kclass \<Rightarrow> (string \<times> callback) list \<Rightarrow> bool" where
  "bound_methods h this c tab \<longleftrightarrow>
     (\<exists>ob. objs h this = Some ob \<and> cls ob = c \<and> bound_table h (properties ob) tab)"

definition named_method :: "string \<Rightarrow> (string \<times> 'a) list \<Rightarrow> (string \<times> 'a) option" where
  "named_method lc tab = List.find (\<lambda>p. map tolower (fst p) = lc) tab"

fun accessor_class :: "kclass \<Rightarrow> bool" where
  "accessor_class (CComponentBinding _) = True"
| "accessor_class (CDependencyBinding _) = True"
| "accessor_class (CApplicationBinding _ _) = True"
| "accessor_class (CAPIBinding _) = True"
| "accessor_class CAccessorBoundObject = True"
| "accessor_class _ = False"

lemma bound_method_value:
  assumes "bound_method h x cb"
  obtains m mo v where "cells h x = Some v" "Value_IsMethod v" "Value_ToMethod (isMethod h) v = Some m"
    "objs h m = Some mo" "cls mo = CStaticBoundMethod (Some cb)"
proof -
  obtain m mo where m: "cells h x = Some (Value_NewMethod (Some m))" "objs h m = Some mo" "cls mo = CStaticBoundMethod (Some cb)"
    using assms by (auto simp: bound_method_def)
  then have "isMethod h m" by (simp add: isMethod_def)
  then have "Value_ToMethod (isMethod h) (Value_NewMethod (Some m)) = Some m" "Value_IsMethod (Value_NewMethod (Some m))"
    by (simp_all add: Value_ToMethod_def Value_IsMethod_def Value_New_defs Value_Set_defs Value_new_def autoptr_cast_def)
  then show ?thesis using m by (intro that) auto
qed

lemma bound_method_same_store:
  assumes "bound_method h x cb" and "same_store h h'" and "x < next_addr h"
  shows "bound_method h' x cb"
  using assms same_store_cell [OF assms(2,3)] by (auto simp: bound_method_def same_store_objs [OF assms(2)])

lemma find_method_run:
  assumes "objs h0 this = Some ob" and "pmap_ok (properties ob)" and "set ps \<subseteq> set (properties ob)" and "bound_table h0 ps tab"
    and "map snd ns = map fst ps" and "\<forall>p \<in> set ps. c_str (fst p) = fst p" and "\<forall>p \<in> set ps. snd p < next_addr h0"
    and "same_store h0 h"
  shows "\<exists>h' m. find_method (StaticBoundObject_Get this) lc ns h = (Inr m, h') \<and> same_store h0 h'
    \<and> (case named_method lc tab of
         None \<Rightarrow> m = None
       | Some q \<Rightarrow> (\<exists>m' mo. m = Some m' \<and> objs h0 m' = Some mo \<and> cls mo = CStaticBoundMethod (Some (snd q))))"
  using assms(3-)
proof (induction ps arbitrary: tab ns h)
  case Nil
  then show ?case by (auto simp: bound_table_def named_method_def retM_def)
next
  case (Cons p ps)
  obtain q tab' where tab: "tab = q # tab'" "fst p = fst q" "bound_method h0 (snd p) (snd q)" "bound_table h0 ps tab'"
    using Cons.prems(2) by (auto simp: bound_table_def list_all2_Cons1)
  obtain n ns' where ns: "ns = n # ns'" "snd n = fst p" "map snd ns' = map fst ps" using Cons.prems(3) by (cases ns) auto
  let ?h1 = "h\<lparr>cells := (cells h)(next_addr h \<mapsto> Value_NewUndefined), next_addr := Suc (next_addr h)\<rparr>"
  have ob: "objs h this = Some ob" using Cons.prems(6) assms(1) by (simp add: same_store_objs)
  have "pmap_find (fst p) (properties ob) = Some (snd p)"
    using Cons.prems(1) assms(2) by (intro pmap_find_member) auto
  then have get: "StaticBoundObject_Get this (c_str (snd n)) h = (Inr (snd p), ?h1)"
    using static_Get_run [OF ob] ns Cons.prems(4) by simp
  have "same_store h ?h1" by (simp add: same_store_def allocs_def)
  then have h1: "same_store h0 ?h1" using Cons.prems(6) same_store_trans by blast
  obtain m mo v where m: "cells ?h1 (snd p) = Some v" "Value_IsMethod v" "Value_ToMethod (isMethod ?h1) v = Some m"
      "objs h0 m = Some mo" "cls mo = CStaticBoundMethod (Some (snd q))"
    using bound_method_value [OF bound_method_same_store [OF tab(3) h1]] Cons.prems(5) same_store_objs [OF h1]
    by (metis list.set_intros(1))
  show ?case
  proof (cases "map tolower (fst p) = lc")
    case True
    then show ?thesis
      using m h1 ns get tab by (auto simp: bindM_def load_def gets_def named_method_def)
  next
    case False
    then have "find_method (StaticBoundObject_Get this) lc ns h = find_method (StaticBoundObject_Get this) lc ns' ?h1"
      using m ns get by (simp add: bindM_def load_def)
    moreover have "named_method lc tab = named_method lc tab'" using False tab by (simp add: named_method_def)
    ultimately show ?thesis using Cons.IH [OF _ tab(4) ns(3) _ _ h1] Cons.prems by auto
  qed
qed

definition clean_names :: "(string \<times> 'a) list \<Rightarrow> bool" where
  "clean_names tab \<longleftrightarrow> list_all (\<lambda>p. c_str (fst p) = fst p) tab"

lemma bound_table_names: "bound_table h ps tab \<Longrightarrow> map fst ps = map fst tab"
  by (induction ps arbitrary: tab) (auto simp: bound_table_def list_all2_Cons1)

lemma accessor_names_run:
  assumes "objs h this = Some ob" and "accessor_class (cls ob)"
  shows "\<exists>ns h'. vNames (vtable (Suc k) N F) this h = (Inr ns, h') \<and> map snd ns = map fst (properties ob) \<and> same_store h h'"
  using assms new_names_run [of "map fst (properties ob)" h]
  by (cases "cls ob") (simp_all add: vtable_sel dispatch_Names_def StaticBoundObject_GetPropertyNames_def load_obj_def bindM_def)

lemma accessor_find_run:
  assumes wf: "wf_heap h0" and tab: "bound_methods h0 this c tab" "accessor_class c" "clean_names tab" and "same_store h0 h"
  shows "\<exists>h' m. AccessorBoundObject_FindMethod (vtable (Suc k) N F) this name h = (Inr m, h') \<and> same_store h0 h'
    \<and> (case named_method (map tolower name) tab of
         None \<Rightarrow> m = None
       | Some q \<Rightarrow> (\<exists>m' mo. m = Some m' \<and> objs h0 m' = Some mo \<and> cls mo = CStaticBoundMethod (Some (snd q))))"
proof -
  obtain ob where ob: "objs h0 this = Some ob" "cls ob = c" "bound_table h0 (properties ob) tab"
    using tab(1) by (auto simp: bound_methods_def)
  have "objs h this = Some ob" using ob(1) assms(5) by (simp add: same_store_objs)
  then obtain ns h1 where ns: "vNames (vtable (Suc k) N F) this h = (Inr ns, h1)" "map snd ns = map fst (properties ob)" "same_store h h1"
    using accessor_names_run [of h this ob] ob(2) tab(2) by blast
  have props: "pmap_ok (properties ob)" "\<forall>p \<in> set (properties ob). cells h0 (snd p) \<noteq> None"
    using wf_heap_obj [OF wf ob(1)] by (auto simp: wf_obj_def)
  have "\<forall>p \<in> set (properties ob). snd p < next_addr h0"
    using props(2) wf by (meson not_less wf_heap_def)
  moreover have "\<forall>p \<in> set (properties ob). c_str (fst p) = fst p"
  proof
    fix p assume "p \<in> set (properties ob)"
    then have "fst p \<in> set (map fst tab)" unfolding bound_table_names [OF ob(3), symmetric] by simp
    then show "c_str (fst p) = fst p" using tab(3) by (auto simp: clean_names_def list_all_iff)
  qed
  moreover have "same_store h0 h1" using assms(5) ns(3) same_store_trans by blast
  ultimately show ?thesis
    using find_method_run [OF ob(1) props(1) subset_refl ob(3) ns(2)] ns(1)
    unfolding AccessorBoundObject_FindMethod_def by (simp add: bindM_def)
qed

text \<open>The method that reading a property calls: the one named with \<^verbatim>\<open>get\<close>, or else the one named with
  \<^verbatim>\<open>is\<close>.\<close>

definition getter :: "string \<Rightarrow> (string \<times> 'a) list \<Rightarrow> 'a option" where
  "getter name tab =
     (case named_method (map tolower (''get'' @ name)) tab of
        Some q \<Rightarrow> Some (snd q)
      | None \<Rightarrow> map_option snd (named_method (map tolower (''is'' @ name)) tab))"

lemma accessor_get_run:
  assumes wf: "wf_heap h" and tab: "bound_methods h this c tab" "accessor_class c" "clean_names tab"
    and get: "getter name tab = Some cb"
  shows "\<exists>h1. same_store h h1 \<and> vGet (vtable (Suc (Suc k)) N F) this name h =
    StaticBoundMethod_Call N (vtable k N F) (Some cb) [] h1"
proof -
  let ?found = "\<lambda>lc m. case named_method (map tolower lc) tab of
         None \<Rightarrow> m = None
       | Some q \<Rightarrow> (\<exists>m' mo. m = Some m' \<and> objs h m' = Some mo \<and> cls mo = CStaticBoundMethod (Some (snd q)))"
  obtain h1 m1 where f1: "AccessorBoundObject_FindMethod (vtable (Suc k) N F) this (''get'' @ name) h = (Inr m1, h1)" "same_store h h1"
      "?found (''get'' @ name) m1"
    using accessor_find_run [OF wf tab same_store_refl] by blast
  obtain h2 m2 where f2: "AccessorBoundObject_FindMethod (vtable (Suc k) N F) this (''is'' @ name) h1 = (Inr m2, h2)" "same_store h h2"
      "?found (''is'' @ name) m2"
    using accessor_find_run [OF wf tab f1(2)] by blast
  obtain m mo where m: "(case m1 of None \<Rightarrow> m2 | Some m \<Rightarrow> Some m) = Some m" "objs h m = Some mo" "cls mo = CStaticBoundMethod (Some cb)"
    using get f1(3) f2(3) by (fastforce simp: getter_def split: option.splits)
  obtain ob where ob: "objs h this = Some ob" "cls ob = c" using tab(1) by (auto simp: bound_methods_def)
  have "vGet (vtable (Suc (Suc k)) N F) this name h = AccessorBoundObject_Get (vtable (Suc k) N F) this name h"
    using ob tab(2) by (cases c) (simp_all add: vtable_sel dispatch_Get_def load_obj_def bindM_def)
  also have "\<dots> = vCall (vtable (Suc k) N F) m [] h2"
    using f1(1) f2(1) m(1) by (auto simp: AccessorBoundObject_Get_def KMethod_Call_def bindM_def split: option.splits)
  also have "\<dots> = StaticBoundMethod_Call N (vtable k N F) (Some cb) [] h2"
    using m f2(2) by (simp add: vtable_sel dispatch_Call_def load_obj_def bindM_def same_store_objs)
  finally show ?thesis using f2(2) by blast
qed

section \<open>Construction\<close>

lemma bound_table_insert:
  "bound_table h ps tab \<Longrightarrow> bound_method h x cb \<Longrightarrow> bound_table h (pmap_insert n x ps) (pmap_insert n cb tab)"
  by (induction ps arbitrary: tab) (auto simp: bound_table_def list_all2_Cons1)

text \<open>What running code leaves alone: all values, the class of every method, and the objects in \<open>A\<close>.\<close>

definition intact :: "addr set \<Rightarrow> heap \<Rightarrow> heap \<Rightarrow> bool" where
  "intact A h h' \<longleftrightarrow> (\<forall>a v. cells h a = Some v \<longrightarrow> cells h' a = Some v)
     \<and> (\<forall>a ob. objs h a = Some ob \<and> is_kmethod (cls ob) \<longrightarrow> (\<exists>ob'. objs h' a = Some ob' \<and> cls ob' = cls ob))
     \<and> (\<forall>a ob. a \<in> A \<and> objs h a = Some ob \<longrightarrow> objs h' a = Some ob)"

lemma intact_refl [simp]: "intact A h h"
  by (simp add: intact_def)

lemma intact_trans: "intact A h h1 \<Longrightarrow> intact A h1 h2 \<Longrightarrow> intact A h h2"
proof -
  assume i: "intact A h h1" "intact A h1 h2"
  have "\<exists>ob'. objs h2 a = Some ob' \<and> cls ob' = cls ob" if ls: "objs h a = Some ob" "is_kmethod (cls ob)" for a ob
  proof -
    obtain ob1 where "objs h1 a = Some ob1" "cls ob1 = cls ob" using i(1) ls unfolding intact_def by blast
    then show ?thesis using i(2) ls unfolding intact_def by metis
  qed
  then show ?thesis using i by (auto simp: intact_def)
qed

lemma intact_mono: "intact B h h' \<Longrightarrow> A \<subseteq> B \<Longrightarrow> intact A h h'"
  unfolding intact_def by blast

lemma intact_fresh: "intact (- {a}) h h' \<Longrightarrow> objs h a = None \<Longrightarrow> intact UNIV h h'"
  unfolding intact_def by (metis ComplI UNIV_I option.discI singletonD)

lemma bound_method_intact: "intact A h h' \<Longrightarrow> bound_method h x cb \<Longrightarrow> bound_method h' x cb"
proof -
  assume i: "intact A h h'" and "bound_method h x cb"
  then obtain m mo where m: "cells h x = Some (Value_NewMethod (Some m))" "objs h m = Some mo" "cls mo = CStaticBoundMethod (Some cb)"
    by (auto simp: bound_method_def)
  moreover have "is_kmethod (cls mo)" by (simp add: m(3))
  ultimately have "cells h' x = Some (Value_NewMethod (Some m))" "\<exists>mo'. objs h' m = Some mo' \<and> cls mo' = cls mo"
    using i unfolding intact_def by blast+
  then show ?thesis using m(3) by (auto simp: bound_method_def)
qed

lemma bound_table_intact: "intact A h h' \<Longrightarrow> bound_table h ps tab \<Longrightarrow> bound_table h' ps tab"
  by (induction ps arbitrary: tab) (auto simp: bound_table_def list_all2_Cons1 bound_method_intact)

lemma bound_methods_intact: "intact A h h' \<Longrightarrow> this \<in> A \<Longrightarrow> bound_methods h this c tab \<Longrightarrow> bound_methods h' this c tab"
  using bound_table_intact by (fastforce simp: bound_methods_def intact_def)

lemma virtual_SetMethod_run:
  assumes V: "virtual_table (vtable (Suc k) N F)" "virtual_table (vtable (Suc (Suc k)) N F)" and wf: "wf_heap h"
    and tab: "bound_methods h this c tab" "accessor_class c" "clean_names tab"
    and free: "named_method (map tolower (''set'' @ name)) tab = None"
  shows "\<exists>h'. virtual_SetMethod (vtable (Suc (Suc k)) N F) this name cb h = (Inr (), h') \<and> wf_heap h'
    \<and> bound_methods h' this c (pmap_insert name cb tab) \<and> intact (- {this}) h h'"
proof -
  let ?mo = "StaticBoundMethod_new (Some cb) ''StaticBoundMethod''"
  obtain ob where ob: "objs h this = Some ob" "cls ob = c" "bound_table h (properties ob) tab"
    using tab(1) by (auto simp: bound_methods_def)
  define m h1 where h1: "m = next_addr h" "h1 = h\<lparr>objs := (objs h)(m \<mapsto> ?mo), next_addr := Suc m\<rparr>"
  define x h2 where h2: "x = next_addr h1"
    "h2 = h1\<lparr>cells := (cells h1)(x \<mapsto> Value_NewMethod (Some m)), next_addr := Suc x\<rparr>"
  have run: "new_object ?mo h = (Inr m, h1)" "new_value (Value_NewMethod (Some m)) h1 = (Inr x, h2)"
    by (simp_all add: new_object_def new_value_def h1 h2)
  have wf1: "wf_heap h1"
    using sound_run(1) [OF sound_new_object [OF wf, of ?mo] run(1)] by (simp add: wf_obj_def StaticBoundMethod_new_def pmap_ok_def)
  have wf2: "wf_heap h2"
    using sound_run(1) [OF sound_new_value [OF wf1] run(2)] by (simp add: isMethod_def h1 StaticBoundMethod_new_def)
  have fresh: "cells h1 x = None" "objs h m = None"
    using wf_heap_fresh [OF wf1] wf_heap_fresh [OF wf] by (simp_all add: h1 h2)
  have at2: "objs h2 this = Some ob" using ob(1) fresh by (auto simp: h1 h2)
  have i2: "intact UNIV h h2" using fresh by (auto simp: intact_def h1 h2)
  have t2: "bound_table h2 (properties ob) tab" using ob(3) bound_table_intact [OF i2] by blast
  then have "bound_methods h2 this c tab" using at2 ob(2) by (auto simp: bound_methods_def)
  then obtain h3 where f: "AccessorBoundObject_FindMethod (vtable (Suc k) N F) this (''set'' @ name) h2 = (Inr None, h3)" "same_store h2 h3"
    using accessor_find_run [OF wf2 _ tab(2,3) same_store_refl, of this k N F "''set'' @ name"] free by auto
  have wf3: "wf_heap h3" using sound_run(1) [OF virtual_table.sound_accessor_find [OF V(1) wf2] f(1)] .
  have this3: "objs h3 this = Some ob" using at2 f(2) by (simp add: same_store_objs)
  define h4 where "h4 = h3\<lparr>objs := (objs h3)(this \<mapsto> ob\<lparr>properties := pmap_insert name x (properties ob)\<rparr>)\<rparr>"
  have set: "StaticBoundObject_Set this name x h3 = (Inr (), h4)"
    using static_Set_run [OF this3] wf_heap_obj [OF wf3 this3] by (simp add: h4_def wf_obj_def)
  have "vSet (vtable (Suc (Suc k)) N F) this name x h2 = (Inr (), h4)"
    using at2 ob(2) tab(2) f(1) set
    by (cases c) (simp_all add: vtable_sel dispatch_Set_def load_obj_def bindM_def AccessorBoundObject_Set_def)
  then have all: "virtual_SetMethod (vtable (Suc (Suc k)) N F) this name cb h = (Inr (), h4)"
    using run by (simp add: virtual_SetMethod_def bindM_def)
  have "wf_heap h4" using sound_run(1) [OF virtual_table.sound_virtual_SetMethod [OF V(2) wf] all] .
  moreover have i4: "intact (- {this}) h2 h4"
  proof -
    have "cells h3 a = cells h2 a" if "cells h2 a \<noteq> None" for a
      using same_store_cell [OF f(2)] that wf2 by (meson not_less wf_heap_def)
    then show ?thesis using at2 this3 by (auto simp: intact_def h4_def same_store_objs [OF f(2)])
  qed
  moreover have "bound_table h4 (pmap_insert name x (properties ob)) (pmap_insert name cb tab)"
  proof (rule bound_table_insert)
    show "bound_table h4 (properties ob) tab" using t2 bound_table_intact [OF i4] by blast
    have "bound_method h2 x cb"
      using fresh by (auto simp: bound_method_def h1 h2 StaticBoundMethod_new_def)
    then show "bound_method h4 x cb" using bound_method_intact [OF i4] by blast
  qed
  moreover have "intact (- {this}) h h4" using intact_trans [OF intact_mono [OF i2] i4] by simp
  ultimately show ?thesis
    using all ob(2) by (auto simp: bound_methods_def h4_def)
qed

definition insert_all :: "(string \<times> 'a) list \<Rightarrow> (string \<times> 'a) list \<Rightarrow> (string \<times> 'a) list" where
  "insert_all ps tab = foldl (\<lambda>t p. pmap_insert (fst p) (snd p) t) tab ps"

text \<open>No method of the list is taken for the setter of another one.\<close>

definition no_setters :: "string list \<Rightarrow> string list \<Rightarrow> bool" where
  "no_setters names new \<longleftrightarrow> list_all (\<lambda>n. \<forall>x \<in> set names. map tolower x \<noteq> map tolower (''set'' @ n)) new"

lemma names_of_insert: "fst ` set (pmap_insert n x tab) = insert n (fst ` set tab)"
  by (induction tab) auto

lemma clean_insert: "clean_names tab \<Longrightarrow> c_str n = n \<Longrightarrow> clean_names (pmap_insert n x tab)"
  by (induction tab) (auto simp: clean_names_def)

lemma virtual_methods_run:
  assumes V: "virtual_table (vtable (Suc k) N F)" "virtual_table (vtable (Suc (Suc k)) N F)" and wf: "wf_heap h"
    and tab: "bound_methods h this c tab" "accessor_class c" "clean_names tab" "clean_names ps"
    and free: "no_setters names (map fst ps)" "fst ` set tab \<union> fst ` set ps \<subseteq> set names"
  shows "\<exists>h'. virtual_methods (vtable (Suc (Suc k)) N F) this ps h = (Inr (), h') \<and> wf_heap h'
    \<and> bound_methods h' this c (insert_all ps tab) \<and> clean_names (insert_all ps tab) \<and> intact (- {this}) h h'"
  using wf tab free
proof (induction ps arbitrary: h tab)
  case Nil
  then show ?case by (auto simp: insert_all_def retM_def)
next
  case (Cons p ps)
  have "named_method (map tolower (''set'' @ fst p)) tab = None"
  proof -
    have "map tolower (fst q) \<noteq> map tolower (''set'' @ fst p)" if "q \<in> set tab" for q
      using that Cons.prems(6,7) unfolding no_setters_def by (simp del: append.simps) blast
    then show ?thesis by (auto simp: named_method_def find_None_iff simp del: append.simps)
  qed
  then obtain h1 where h1: "virtual_SetMethod (vtable (Suc (Suc k)) N F) this (fst p) (snd p) h = (Inr (), h1)" "wf_heap h1"
      "bound_methods h1 this c (pmap_insert (fst p) (snd p) tab)" "intact (- {this}) h h1"
    using virtual_SetMethod_run [OF V Cons.prems(1-4)] by blast
  have "clean_names (pmap_insert (fst p) (snd p) tab)"
    using Cons.prems(4,5) by (intro clean_insert) (auto simp: clean_names_def)
  then obtain h' where h': "virtual_methods (vtable (Suc (Suc k)) N F) this ps h1 = (Inr (), h')" "wf_heap h'"
      "bound_methods h' this c (insert_all ps (pmap_insert (fst p) (snd p) tab))"
      "clean_names (insert_all ps (pmap_insert (fst p) (snd p) tab))" "intact (- {this}) h1 h'"
    using Cons.IH [OF h1(2,3) Cons.prems(3)] Cons.prems(5-7) by (simp add: clean_names_def no_setters_def names_of_insert) blast
  then show ?case using h1(1) intact_trans [OF h1(4)] by (simp add: insert_all_def bindM_def)
qed

text \<open>The constructors of the bindings.\<close>

lemma binding_new_run:
  assumes V: "virtual_table (vtable (Suc k) N F)" "virtual_table (vtable (Suc (Suc k)) N F)" and wf: "wf_heap h"
    and ob: "wf_obj h ob" "properties ob = []" "accessor_class (cls ob)"
    and methods: "clean_names ms" "no_setters (map fst ms) (map fst ms)"
  shows "\<exists>this h'. bindM (new_object ob) (\<lambda>this.
       bindM (virtual_methods (vtable (Suc (Suc k)) N F) this (map (map_prod id (\<lambda>op. mk op this)) ms)) (\<lambda>_. retM this)) h = (Inr this, h')
     \<and> wf_heap h' \<and> clean_names (insert_all (map (map_prod id (\<lambda>op. mk op this)) ms) [])
     \<and> bound_methods h' this (cls ob) (insert_all (map (map_prod id (\<lambda>op. mk op this)) ms) [])
     \<and> intact UNIV h h' \<and> objs h this = None"
proof -
  let ?a = "next_addr h" and ?h1 = "h\<lparr>objs := (objs h)(next_addr h \<mapsto> ob), next_addr := Suc (next_addr h)\<rparr>"
  let ?ms = "map (map_prod id (\<lambda>op. mk op ?a)) ms"
  have new: "new_object ob h = (Inr ?a, ?h1)" by (simp add: new_object_def)
  have "wf_heap ?h1" using sound_run(1) [OF sound_new_object [OF wf ob(1)] new] .
  moreover have "bound_methods ?h1 ?a (cls ob) []" using ob(2) by (simp add: bound_methods_def bound_table_def)
  moreover have "clean_names ?ms" using methods(1) by (simp add: clean_names_def list_all_iff)
  moreover have "no_setters (map fst ms) (map fst ?ms)" using methods(2) by (simp add: comp_def)
  ultimately obtain h' where "virtual_methods (vtable (Suc (Suc k)) N F) ?a ?ms ?h1 = (Inr (), h')" "wf_heap h'"
      "bound_methods h' ?a (cls ob) (insert_all ?ms [])" "clean_names (insert_all ?ms [])"
      "intact (- {?a}) ?h1 h'"
    using virtual_methods_run [OF V _ _ ob(3), of ?h1 ?a "[]" ?ms "map fst ms"] by (auto simp: clean_names_def image_comp)
  moreover have "intact UNIV h h'"
  proof (rule intact_fresh)
    have "intact (- {?a}) h ?h1" using wf_heap_fresh(2) [OF wf] by (auto simp: intact_def)
    then show "intact (- {?a}) h h'" using calculation(5) by (rule intact_trans)
  qed (rule wf_heap_fresh(2) [OF wf])
  ultimately show ?thesis using new wf_heap_fresh(2) [OF wf] by (auto simp: bindM_def retM_def)
qed

section \<open>The properties of the bindings\<close>

lemma pmap_insert_map: "pmap_insert n (f x) (map (map_prod id f) tab) = map (map_prod id f) (pmap_insert n x tab)"
  by (induction tab) auto

lemma insert_all_map: "insert_all (map (map_prod id f) ms) (map (map_prod id f) tab) = map (map_prod id f) (insert_all ms tab)"
  by (induction ms arbitrary: tab) (simp_all add: insert_all_def pmap_insert_map)

lemma named_method_map: "named_method lc (map (map_prod id f) tab) = map_option (map_prod id f) (named_method lc tab)"
  by (induction tab) (simp_all add: named_method_def)

lemma getter_map: "getter name (map (map_prod id f) tab) = map_option f (getter name tab)"
  unfolding getter_def
  by (cases "named_method (map tolower (''get'' @ name)) tab"; cases "named_method (map tolower (''is'' @ name)) tab")
    (simp_all add: named_method_map del: append.simps list.map map_append)

lemma getter_lower: "getter (map tolower name) tab = getter name tab"
proof -
  have "map tolower (pre @ map tolower name) = map tolower (pre @ name)" for pre by simp
  then show ?thesis unfolding getter_def by metis
qed

text \<open>A computation that returns a value that denotes \<open>v\<close>.\<close>

definition yields :: "addr M \<Rightarrow> heap \<Rightarrow> aval \<Rightarrow> bool" where
  "yields m h v \<longleftrightarrow> (\<exists>x h' w. m h = (Inr x, h') \<and> cells h' x = Some w \<and> denotes w = v)"

lemma result_yields:
  assumes "\<And>r h1. r = next_addr h \<Longrightarrow> h1 = h\<lparr>cells := (cells h)(r \<mapsto> Value_NewUndefined), next_addr := Suc r\<rparr> \<Longrightarrow>
    \<exists>h2 w. N cb V args r h1 = (Inr (), h2) \<and> cells h2 r = Some w \<and> denotes w = v"
  shows "yields (StaticBoundMethod_Call N V (Some cb) args) h v"
  using assms [OF refl refl] by (auto simp: yields_def StaticBoundMethod_Call_def new_value_def bindM_def retM_def)

lemma value_result_run: "cells h r = Some w \<Longrightarrow> set_result r f h = (Inr (), h\<lparr>cells := (cells h)(r \<mapsto> f w)\<rparr>)"
  by (simp add: set_result_def load_def store_def bindM_def)

lemma string_result_run: "cells h r = Some w \<Longrightarrow>
    set_string_result r s h = (Inr (), h\<lparr>cells := (cells h)(r \<mapsto> Value_SetString (next_addr h) s w), next_addr := Suc (next_addr h)\<rparr>)"
  by (simp add: set_string_result_def set_result_def load_def store_def fresh_def bindM_def)

lemmas call_steps = bindM_def retM_def value_result_run string_result_run load_obj_def gets_def of_opt_def

lemma accessor_yields:
  assumes "wf_heap h" and "bound_methods h this c (map (map_prod id (\<lambda>op. mk op this)) tab)" and "accessor_class c"
    and "clean_names (map (map_prod id (\<lambda>op. mk op this)) tab)" and "getter (map tolower name) tab = Some op"
    and call: "\<And>h1 ob. objs h1 this = Some ob \<Longrightarrow> cls ob = c \<Longrightarrow>
      yields (StaticBoundMethod_Call N (vtable k N F) (Some (mk op this)) []) h1 v"
  shows "yields (vGet (vtable (Suc (Suc k)) N F) this name) h v"
proof -
  have "getter name (map (map_prod id (\<lambda>op. mk op this)) tab) = Some (mk op this)"
    using assms(5) by (simp add: getter_map getter_lower)
  from accessor_get_run [OF assms(1-4) this] obtain h1 where h1: "same_store h h1"
    "vGet (vtable (Suc (Suc k)) N F) this name h = StaticBoundMethod_Call N (vtable k N F) (Some (mk op this)) [] h1" by blast
  obtain ob where "objs h1 this = Some ob" "cls ob = c"
    using assms(2) h1(1) by (auto simp: bound_methods_def same_store_objs)
  from call [OF this] h1(2) show ?thesis by (simp add: yields_def)
qed

text \<open>What the constructor of a binding makes: an object whose properties, read under any spelling of their
  names, have the listed values, as long as nobody replaces them.\<close>

definition shows_properties :: "vt \<Rightarrow> addr \<Rightarrow> heap \<Rightarrow> (string \<times> aval) list \<Rightarrow> bool" where
  "shows_properties V this h props \<longleftrightarrow>
     (\<forall>h1 name v. wf_heap h1 \<and> intact {this} h h1 \<and> (map tolower name, v) \<in> set props \<longrightarrow>
        yields (vGet V this name) h1 v)"

lemma binding_shows:
  assumes V: "virtual_table (vtable (Suc k) N F)" "virtual_table (vtable (Suc (Suc k)) N F)" and wf: "wf_heap h"
    and ob: "wf_obj h ob" "properties ob = []" "accessor_class (cls ob)"
    and methods: "clean_names ms" "no_setters (map fst ms) (map fst ms)"
    and props: "\<And>lc v. (lc, v) \<in> set props \<Longrightarrow> \<exists>op. getter lc (insert_all ms []) = Some op \<and>
      (\<forall>this h1 ob'. objs h1 this = Some ob' \<and> cls ob' = cls ob \<longrightarrow>
         yields (StaticBoundMethod_Call N (vtable k N F) (Some (mk op this)) []) h1 v)"
  shows "\<exists>this h'. bindM (new_object ob) (\<lambda>this.
       bindM (virtual_methods (vtable (Suc (Suc k)) N F) this (map (map_prod id (\<lambda>op. mk op this)) ms)) (\<lambda>_. retM this)) h = (Inr this, h')
     \<and> wf_heap h' \<and> shows_properties (vtable (Suc (Suc k)) N F) this h' props \<and> intact UNIV h h' \<and> objs h this = None
     \<and> objs h' this \<noteq> None"
proof -
  obtain this h' where new: "bindM (new_object ob) (\<lambda>this.
       bindM (virtual_methods (vtable (Suc (Suc k)) N F) this (map (map_prod id (\<lambda>op. mk op this)) ms)) (\<lambda>_. retM this)) h = (Inr this, h')"
      "wf_heap h'" and tab: "clean_names (map (map_prod id (\<lambda>op. mk op this)) (insert_all ms []))"
      "bound_methods h' this (cls ob) (map (map_prod id (\<lambda>op. mk op this)) (insert_all ms []))"
      and i: "intact UNIV h h'" "objs h this = None"
    using binding_new_run [OF V wf ob methods, of mk] unfolding insert_all_map [where tab = "[]", simplified] by blast
  have "yields (vGet (vtable (Suc (Suc k)) N F) this name) h1 v"
    if ls: "wf_heap h1" "intact {this} h' h1" "(map tolower name, v) \<in> set props" for h1 name v
  proof -
    obtain op where op: "getter (map tolower name) (insert_all ms []) = Some op"
      "\<And>h1 ob'. objs h1 this = Some ob' \<Longrightarrow> cls ob' = cls ob \<Longrightarrow>
         yields (StaticBoundMethod_Call N (vtable k N F) (Some (mk op this)) []) h1 v"
      using props [OF ls(3)] by blast
    have "bound_methods h1 this (cls ob) (map (map_prod id (\<lambda>op. mk op this)) (insert_all ms []))"
      using bound_methods_intact [OF ls(2) _ tab(2)] by simp
    from accessor_yields [where mk = mk, OF ls(1) this ob(3) tab(1) op] show ?thesis .
  qed
  moreover have "objs h' this \<noteq> None" using tab(2) by (auto simp: bound_methods_def)
  ultimately show ?thesis using new i unfolding shows_properties_def by blast
qed

definition component_properties :: "KComponent \<Rightarrow> (string \<times> aval) list" where
  "component_properties c = [(''type'', AInt (component_code (comp_type c))), (''name'', AString (c_str (comp_name c))),
     (''version'', AString (c_str (comp_version c))), (''path'', AString (c_str (comp_path c))),
     (''bundled'', ABool (comp_bundled c))]"

definition dependency_properties :: "Dependency \<Rightarrow> (string \<times> aval) list" where
  "dependency_properties d = [(''type'', AInt (component_code (dep_type d))), (''name'', AString (c_str (dep_name d))),
     (''version'', AString (c_str (dep_version d))), (''requirement'', AInt (requirement_code (dep_requirement d)))]"

lemma component_methods_ok: "clean_names component_methods" "no_setters (map fst component_methods) (map fst component_methods)"
  by code_simp+

lemma component_getters:
  "getter ''type'' (insert_all component_methods []) = Some Component_getType"
  "getter ''name'' (insert_all component_methods []) = Some Component_getName"
  "getter ''version'' (insert_all component_methods []) = Some Component_getVersion"
  "getter ''path'' (insert_all component_methods []) = Some Component_getPath"
  "getter ''bundled'' (insert_all component_methods []) = Some Component_isBundled"
  by code_simp+

lemma dependency_methods_ok: "clean_names dependency_methods" "no_setters (map fst dependency_methods) (map fst dependency_methods)"
  by code_simp+

lemma dependency_getters:
  "getter ''type'' (insert_all dependency_methods []) = Some Dependency_getType"
  "getter ''name'' (insert_all dependency_methods []) = Some Dependency_getName"
  "getter ''version'' (insert_all dependency_methods []) = Some Dependency_getVersion"
  "getter ''requirement'' (insert_all dependency_methods []) = Some Dependency_getRequirement"
  by code_simp+

lemmas component_gets = ComponentBinding__GetType_def ComponentBinding__GetName_def ComponentBinding__GetVersion_def
  ComponentBinding__GetPath_def ComponentBinding__IsBundled_def get_component_def

lemma component_calls:
  assumes "objs h this = Some ob" and "cls ob = CComponentBinding c"
  shows "yields (StaticBoundMethod_Call (kroll_natives lo up (api_natives E N)) V (Some (Component_Method Component_getType this)) []) h
      (AInt (component_code (comp_type (snd c))))"
    "yields (StaticBoundMethod_Call (kroll_natives lo up (api_natives E N)) V (Some (Component_Method Component_getName this)) []) h
      (AString (c_str (comp_name (snd c))))"
    "yields (StaticBoundMethod_Call (kroll_natives lo up (api_natives E N)) V (Some (Component_Method Component_getVersion this)) []) h
      (AString (c_str (comp_version (snd c))))"
    "yields (StaticBoundMethod_Call (kroll_natives lo up (api_natives E N)) V (Some (Component_Method Component_getPath this)) []) h
      (AString (c_str (comp_path (snd c))))"
    "yields (StaticBoundMethod_Call (kroll_natives lo up (api_natives E N)) V (Some (Component_Method Component_isBundled this)) []) h
      (ABool (comp_bundled (snd c)))"
  using assms by (auto intro!: result_yields simp: kroll_natives_def api_natives_def component_gets call_steps)

lemmas dependency_gets = DependencyBinding__GetType_def DependencyBinding__GetName_def DependencyBinding__GetVersion_def
  DependencyBinding__GetRequirement_def get_dependency_def DependencyBinding_GetDependency_def

lemma dependency_calls:
  assumes "objs h this = Some ob" and "cls ob = CDependencyBinding d"
  shows "yields (StaticBoundMethod_Call (kroll_natives lo up (api_natives E N)) V (Some (Dependency_Method Dependency_getType this)) []) h
      (AInt (component_code (dep_type d)))"
    "yields (StaticBoundMethod_Call (kroll_natives lo up (api_natives E N)) V (Some (Dependency_Method Dependency_getName this)) []) h
      (AString (c_str (dep_name d)))"
    "yields (StaticBoundMethod_Call (kroll_natives lo up (api_natives E N)) V (Some (Dependency_Method Dependency_getVersion this)) []) h
      (AString (c_str (dep_version d)))"
    "yields (StaticBoundMethod_Call (kroll_natives lo up (api_natives E N)) V (Some (Dependency_Method Dependency_getRequirement this)) []) h
      (AInt (requirement_code (dep_requirement d)))"
  using assms by (auto intro!: result_yields simp: kroll_natives_def api_natives_def dependency_gets call_steps)

lemma api_table: "native_code N F \<Longrightarrow> virtual_table (vtable n (kroll_natives lo up (api_natives E N)) F)"
  by (rule native_code.table_contract [OF kroll_native_code [OF api_native_code]])

lemma component_shows:
  assumes "native_code N F" and "wf_heap h"
  shows "\<exists>this h'. ComponentBinding_new (vtable (Suc (Suc k)) (kroll_natives lo up (api_natives E N)) F) c h = (Inr this, h') \<and> wf_heap h'
    \<and> shows_properties (vtable (Suc (Suc k)) (kroll_natives lo up (api_natives E N)) F) this h' (component_properties (snd c))
    \<and> intact UNIV h h' \<and> objs h this = None \<and> objs h' this \<noteq> None"
  unfolding ComponentBinding_new_def
  by (rule binding_shows [where ob = "ComponentBinding_obj c" and props = "component_properties (snd c)" and mk = Component_Method,
      OF api_table [OF assms(1)] api_table [OF assms(1)] assms(2) _ _ _ component_methods_ok])
    (auto simp: ComponentBinding_obj_def wf_obj_def pmap_ok_def component_properties_def component_getters component_calls)

lemma dependency_shows:
  assumes "native_code N F" and "wf_heap h"
  shows "\<exists>this h'. DependencyBinding_new (vtable (Suc (Suc k)) (kroll_natives lo up (api_natives E N)) F) d h = (Inr this, h') \<and> wf_heap h'
    \<and> shows_properties (vtable (Suc (Suc k)) (kroll_natives lo up (api_natives E N)) F) this h' (dependency_properties d)
    \<and> intact UNIV h h' \<and> objs h this = None \<and> objs h' this \<noteq> None"
  unfolding DependencyBinding_new_def
  by (rule binding_shows [where ob = "DependencyBinding_obj d" and props = "dependency_properties d" and mk = Dependency_Method,
      OF api_table [OF assms(1)] api_table [OF assms(1)] assms(2) _ _ _ dependency_methods_ok])
    (auto simp: DependencyBinding_obj_def wf_obj_def pmap_ok_def dependency_properties_def dependency_getters dependency_calls)

section \<open>Lists of bindings\<close>

text \<open>The loop that puts one binding per item into a list.\<close>

primrec append_bindings :: "vt \<Rightarrow> addr \<Rightarrow> ('a \<Rightarrow> addr M) \<Rightarrow> 'a list \<Rightarrow> unit M" where
  "append_bindings V lst mk [] = retM ()"
| "append_bindings V lst mk (c # cs) =
     bindM (mk c) (\<lambda>b. bindM (new_value (Value_NewObject (Some b))) (\<lambda>v.
     bindM (vAppend V lst v) (\<lambda>_. append_bindings V lst mk cs)))"

lemma append_components_eq:
  "append_components V lst cs flt = append_bindings V lst (ComponentBinding_new V) (filter (\<lambda>c. flt = UNKNOWN \<or> flt = comp_type (snd c)) cs)"
  by (induction cs) auto

lemma append_dependencies_eq: "append_dependencies V lst ds = append_bindings V lst (DependencyBinding_new V) ds"
  by (induction ds) auto

text \<open>An element of a list that is an object with the given properties.\<close>

definition shown_at :: "vt \<Rightarrow> heap \<Rightarrow> addr set \<Rightarrow> (string \<times> aval) list \<Rightarrow> addr option \<Rightarrow> bool" where
  "shown_at V h A props e \<longleftrightarrow> (\<exists>x v b. e = Some x \<and> cells h x = Some v \<and> denotes v = AObject b \<and> b \<in> A
     \<and> objs h b \<noteq> None \<and> shows_properties V b h props)"

lemma shows_properties_intact:
  assumes "shows_properties V b h props" and "intact A h h'" and "b \<in> A"
  shows "shows_properties V b h' props"
proof -
  have "intact {b} h h'" using intact_mono [OF assms(2)] assms(3) by simp
  then show ?thesis using assms(1) intact_trans unfolding shows_properties_def by blast
qed

lemma shown_at_intact: "shown_at V h A props e \<Longrightarrow> intact A h h' \<Longrightarrow> shown_at V h' A props e"
proof -
  assume i: "intact A h h'" and "shown_at V h A props e"
  then obtain x v b where b: "e = Some x" "cells h x = Some v" "denotes v = AObject b" "b \<in> A" "objs h b \<noteq> None" "shows_properties V b h props"
    by (auto simp: shown_at_def)
  have "cells h' x = Some v" "objs h' b \<noteq> None" using i b(2,4,5) by (auto simp: intact_def not_None_eq)
  then show ?thesis using b shows_properties_intact [OF b(6) i b(4)] by (auto simp: shown_at_def)
qed

lemma list_append_run:
  assumes "list_ok l h" and "length (list_elems l h) < 2 ^ 32 - 1" and "virtual_table (vtable (Suc n) N F)" "wf_heap h" "cells h x \<noteq> None"
  shows "\<exists>h'. vAppend (vtable (Suc n) N F) l x h = (Inr (), h') \<and> wf_heap h' \<and> list_ok l h'
    \<and> list_elems l h' = list_elems l h @ [Some x] \<and> intact (- {l}) h h'"
proof -
  obtain ob len where ob: "objs h l = Some ob" "list_length (cls ob) = Some len" "pmap_ok (properties ob)"
    using assms(1) by (auto simp: list_ok_def)
  have nm: "\<not> is_kmethod (cls ob)" using ob(2) by (cases "cls ob") auto
  obtain h' where h': "vAppend (vtable (Suc n) N F) l x h = (Inr (), h')" "list_ok l h'" "list_elems l h' = list_elems l h @ [Some x]"
    using static_list.append_law [OF assms(1,2)] by blast
  have "intact (- {l}) h h'"
  proof -
    have "vAppend (vtable (Suc n) N F) l x h = StaticBoundList_Append l x h"
      using ob by (simp add: vtable.simps Let_def dispatch_list_static)
    then show ?thesis using h'(1) ob(1) nm list_Append_run [OF ob, of x] by (auto simp: intact_def)
  qed
  moreover have "wf_heap h'" using sound_run(1) [OF virtual_table.v_append [OF assms(3-5)] h'(1)] .
  ultimately show ?thesis using h' by blast
qed

locale shown_binding =
  fixes n :: nat and N :: natives and F :: fnptrs and mk :: "'a \<Rightarrow> addr M" and props :: "'a \<Rightarrow> (string \<times> aval) list"
  assumes table: "virtual_table (vtable (Suc n) N F)"
    and new_shows: "wf_heap h \<Longrightarrow> \<exists>b h'. mk c h = (Inr b, h') \<and> wf_heap h' \<and> shows_properties (vtable (Suc n) N F) b h' (props c)
      \<and> intact UNIV h h' \<and> objs h b = None \<and> objs h' b \<noteq> None"
begin

lemma append_run:
  assumes "wf_heap h" and "list_ok l h" and "length (list_elems l h) + length cs < 2 ^ 32"
  shows "\<exists>h' es. append_bindings (vtable (Suc n) N F) l mk cs h = (Inr (), h') \<and> wf_heap h' \<and> list_ok l h' \<and> intact (- {l}) h h'
    \<and> list_elems l h' = list_elems l h @ es \<and> list_all2 (\<lambda>c. shown_at (vtable (Suc n) N F) h' (- {l}) (props c)) cs es"
  using assms
proof (induction cs arbitrary: h)
  case Nil
  then show ?case by (auto simp: retM_def)
next
  case (Cons c cs)
  obtain lob where lob: "objs h l = Some lob" using Cons.prems(2) by (auto simp: list_ok_def)
  obtain b h1 where b: "mk c h = (Inr b, h1)" "wf_heap h1" "shows_properties (vtable (Suc n) N F) b h1 (props c)" "intact UNIV h h1"
      "objs h b = None" "objs h1 b \<noteq> None"
    using new_shows [OF Cons.prems(1)] by blast
  have "b \<noteq> l" using lob b(5) by auto
  define h2 where "h2 = h1\<lparr>cells := (cells h1)(next_addr h1 \<mapsto> Value_NewObject (Some b)), next_addr := Suc (next_addr h1)\<rparr>"
  have nv: "new_value (Value_NewObject (Some b)) h1 = (Inr (next_addr h1), h2)" by (simp add: new_value_def h2_def)
  have wf2: "wf_heap h2" using sound_run(1) [OF sound_new_value [OF b(2)] nv] b(6) by simp
  have i2: "intact UNIV h1 h2" using wf_heap_fresh(1) [OF b(2)] by (auto simp: intact_def h2_def)
  have "objs h2 l = objs h l" using lob b(4) by (simp add: h2_def intact_def)
  then have l2: "list_ok l h2" "list_elems l h2 = list_elems l h" using Cons.prems(2) by (simp_all add: list_ok_def list_elems_def)
  obtain h3 where h3: "vAppend (vtable (Suc n) N F) l (next_addr h1) h2 = (Inr (), h3)" "wf_heap h3" "list_ok l h3"
      "list_elems l h3 = list_elems l h @ [Some (next_addr h1)]" "intact (- {l}) h2 h3"
    using list_append_run [OF l2(1) _ table wf2, of "next_addr h1"] l2(2) Cons.prems(3) by (auto simp: h2_def)
  obtain h' es where h': "append_bindings (vtable (Suc n) N F) l mk cs h3 = (Inr (), h')" "wf_heap h'" "list_ok l h'" "intact (- {l}) h3 h'"
      "list_elems l h' = list_elems l h3 @ es" "list_all2 (\<lambda>c. shown_at (vtable (Suc n) N F) h' (- {l}) (props c)) cs es"
    using Cons.IH [OF h3(2,3)] h3(4) Cons.prems(3) by auto
  have "shown_at (vtable (Suc n) N F) h2 (- {l}) (props c) (Some (next_addr h1))"
    using shows_properties_intact [OF b(3) i2] b(6) \<open>b \<noteq> l\<close> by (auto simp: shown_at_def h2_def Value_NewObject_def)
  then have "shown_at (vtable (Suc n) N F) h' (- {l}) (props c) (Some (next_addr h1))"
    using shown_at_intact intact_trans [OF h3(5) h'(4)] by blast
  moreover have "intact (- {l}) h h'"
    using intact_trans [OF intact_mono [OF intact_trans [OF b(4) i2]] intact_trans [OF h3(5) h'(4)]] by simp
  moreover have "append_bindings (vtable (Suc n) N F) l mk (c # cs) h = (Inr (), h')" using b(1) nv h3(1) h'(1) by (simp add: bindM_def)
  ultimately show ?case using h'(2,3,5,6) h3(4) by auto
qed

text \<open>A new list of bindings shows its items in order.\<close>

lemma list_of_bindings:
  assumes "wf_heap h" and "length cs < 2 ^ 32"
  shows "\<exists>l h'. bindM (new_object (StaticBoundList_new ''StaticBoundList'')) (\<lambda>l.
      bindM (append_bindings (vtable (Suc n) N F) l mk cs) (\<lambda>_. retM l)) h = (Inr l, h')
    \<and> wf_heap h' \<and> list_ok l h' \<and> list_all2 (\<lambda>c. shown_at (vtable (Suc n) N F) h' UNIV (props c)) cs (list_elems l h')"
proof -
  let ?ob = "StaticBoundList_new ''StaticBoundList''"
  have ob: "wf_obj h ?ob" by (simp add: wf_obj_def StaticBoundList_new_def pmap_ok_def)
  obtain l h1 where h1: "new_object ?ob h = (Inr l, h1)" "wf_heap h1" "objs h1 l = Some ?ob"
    using new_object_run [OF assms(1) ob] by blast
  then have l: "list_ok l h1" "list_elems l h1 = []"
    by (simp_all add: list_ok_def list_elems_def StaticBoundList_new_def pmap_ok_def)
  then obtain h' where h': "append_bindings (vtable (Suc n) N F) l mk cs h1 = (Inr (), h')" "wf_heap h'" "list_ok l h'"
      "list_all2 (\<lambda>c. shown_at (vtable (Suc n) N F) h' (- {l}) (props c)) cs (list_elems l h')"
    using append_run [OF h1(2) l(1)] assms(2) by auto
  have "list_all2 (\<lambda>c. shown_at (vtable (Suc n) N F) h' UNIV (props c)) cs (list_elems l h')"
    using h'(4) by (rule list_all2_mono) (auto simp: shown_at_def)
  then show ?thesis using h1(1) h'(1-3) by (auto simp: bindM_def retM_def)
qed

end

lemma component_binding: "native_code N F \<Longrightarrow>
    shown_binding (Suc k) (kroll_natives lo up (api_natives E N)) F
      (ComponentBinding_new (vtable (Suc (Suc k)) (kroll_natives lo up (api_natives E N)) F)) (\<lambda>c. component_properties (snd c))"
  by (simp add: shown_binding_def api_table component_shows)

lemma dependency_binding: "native_code N F \<Longrightarrow>
    shown_binding (Suc k) (kroll_natives lo up (api_natives E N)) F
      (DependencyBinding_new (vtable (Suc (Suc k)) (kroll_natives lo up (api_natives E N)) F)) dependency_properties"
  by (simp add: shown_binding_def api_table dependency_shows)

interpretation component_list: shown_binding "Suc k" "kroll_natives lo up (api_natives E no_natives)" no_fnptrs
    "ComponentBinding_new (vtable (Suc (Suc k)) (kroll_natives lo up (api_natives E no_natives)) no_fnptrs)"
    "\<lambda>c. component_properties (snd c)" for k lo up E
  by (rule component_binding [OF idle.native_code_axioms])

interpretation dependency_list: shown_binding "Suc k" "kroll_natives lo up (api_natives E no_natives)" no_fnptrs
    "DependencyBinding_new (vtable (Suc (Suc k)) (kroll_natives lo up (api_natives E no_natives)) no_fnptrs)"
    dependency_properties for k lo up E
  by (rule dependency_binding [OF idle.native_code_axioms])

section \<open>The installer\<close>

text \<open>The requests whose thread has not finished, newest first, in every history of starting the installer, of
  its threads finishing or failing, and of other code, which does not reach the private members of the binding.\<close>

inductive installer_history :: "api_env \<Rightarrow> vt \<Rightarrow> addr \<Rightarrow> (Dependency list \<times> addr option) list \<Rightarrow> heap \<Rightarrow> bool"
  for E V this where
  created: "objs h this = Some ob \<Longrightarrow> cls ob = CAPIBinding b \<Longrightarrow> \<not> installerMutex b \<Longrightarrow> installer_history E V this [] h"
| started: "installer_history E V this ts h \<Longrightarrow> ds \<noteq> [] \<Longrightarrow> start_installer this ds cb h = (Inr (), h') \<Longrightarrow>
    installer_history E V this ((ds, cb) # ts) h'"
| refused: "installer_history E V this ts h \<Longrightarrow> start_installer this ds cb h = (Inl e, h') \<Longrightarrow> installer_history E V this ts h'"
| finished: "installer_history E V this (ts @ t # us) h \<Longrightarrow> APIBinding_RunInstaller E V this h = (Inr (), h') \<Longrightarrow>
    installer_history E V this (ts @ us) h'"
| failed: "installer_history E V this (ts @ t # us) h \<Longrightarrow> APIBinding_RunInstaller E V this h = (Inl e, h') \<Longrightarrow>
    installer_history E V this (ts @ t # us) h'"
| other: "installer_history E V this ts h \<Longrightarrow> objs h this = Some ob \<Longrightarrow> objs h' this = Some ob' \<Longrightarrow> cls ob' = cls ob \<Longrightarrow>
    installer_history E V this ts h'"

definition api_at :: "heap \<Rightarrow> addr \<Rightarrow> APIBinding \<Rightarrow> bool" where
  "api_at h this b \<longleftrightarrow> (\<exists>ob. objs h this = Some ob \<and> cls ob = CAPIBinding b)"

lemma start_installer_run:
  assumes "api_at h this b" and "ds \<noteq> []"
  shows "installerMutex b \<Longrightarrow> \<exists>a h'. start_installer this ds cb h = (Inl (ValueException a), h') \<and> api_at h' this b"
    and "\<not> installerMutex b \<Longrightarrow> \<exists>h'. start_installer this ds cb h = (Inr (), h') \<and> proc h' = proc h
      \<and> api_at h' this (b\<lparr>installerMutex := True, installerDependencies := ds, installerCallback := cb\<rparr>)"
  using assms
  by (auto simp: api_at_def start_installer_def get_api_def set_api_def load_obj_def store_obj_def M_defs
      ValueException_FromString_def new_string_def fresh_def new_value_def)

lemma start_installer_empty: "start_installer this [] cb h = (Inr (), h)"
  by (simp add: start_installer_def retM_def)

lemma RunInstaller_run:
  assumes "api_at h this b"
  shows "APIBinding_RunInstaller E V this h = (Inl e, h') \<Longrightarrow> objs h' = objs h"
    and "APIBinding_RunInstaller E V this h = (Inr (), h') \<Longrightarrow> api_at h' this (b\<lparr>installerMutex := False\<rparr>)
      \<and> jobs h' = jobs h @ (case installerCallback b of Some m \<Rightarrow> [\<lparr>j_method = m, j_args = [], synchronous = False\<rparr>] | None \<Rightarrow> [])"
  using assms
  by (auto simp: api_at_def APIBinding_RunInstaller_def get_application_def put_application_def gets_def of_opt_def get_api_def set_api_def
      load_obj_def store_obj_def M_defs in_world_def InvokeMethodOnMainThread_def push_job_def
      split: option.splits sum.splits prod.splits)

definition one_request :: "APIBinding \<Rightarrow> (Dependency list \<times> addr option) list \<Rightarrow> bool" where
  "one_request b ts \<longleftrightarrow> (if installerMutex b then ts = [(installerDependencies b, installerCallback b)] else ts = [])"

lemma one_installer: "installer_history E V this ts h \<Longrightarrow> \<exists>b. api_at h this b \<and> one_request b ts"
proof (induction rule: installer_history.induct)
  case (created h ob b)
  then show ?case by (auto simp: api_at_def one_request_def)
next
  case (started ts h ds cb h')
  then obtain b where b: "api_at h this b" "one_request b ts" by blast
  let ?b = "b\<lparr>installerMutex := True, installerDependencies := ds, installerCallback := cb\<rparr>"
  have "\<not> installerMutex b" using start_installer_run(1) [OF b(1) started.hyps(2), of cb] started.hyps(3) by auto
  then have "api_at h' this ?b" "one_request ?b ((ds, cb) # ts)"
    using start_installer_run(2) [OF b(1) started.hyps(2), of cb] started.hyps(3) b(2) by (auto simp: one_request_def)
  then show ?case by blast
next
  case (refused ts h ds cb e h')
  then obtain b where b: "api_at h this b" "one_request b ts" by blast
  have "ds \<noteq> []" using refused.hyps(2) by (auto simp: start_installer_empty)
  then have "api_at h' this b" using start_installer_run [OF b(1), of ds cb] refused.hyps(2) by (cases "installerMutex b") auto
  then show ?case using b(2) by blast
next
  case (finished ts t us h h')
  then obtain b where b: "api_at h this b" "one_request b (ts @ t # us)" by blast
  then have "one_request (b\<lparr>installerMutex := False\<rparr>) (ts @ us)" by (auto simp: one_request_def append_eq_Cons_conv split: if_splits)
  then show ?case using RunInstaller_run(2) [OF b(1) finished.hyps(2)] by blast
next
  case (failed ts t us h e h')
  then obtain b where b: "api_at h this b" "one_request b (ts @ t # us)" by blast
  then show ?case using RunInstaller_run(1) [OF b(1) failed.hyps(2)] by (auto simp: api_at_def)
next
  case (other ts h ob h' ob')
  then show ?case by (auto simp: api_at_def)
qed

section \<open>Start of the module\<close>

context virtual_table
begin

lemma sound_set_int_constants: "wf_heap h \<Longrightarrow> sound h (set_int_constants V this ps) (\<lambda>_ _. True)"
proof (induction ps arbitrary: h)
  case (Cons p ps)
  have int: "wf_cell h (Value_NewInt i)" for h i by simp
  show ?case
    using Cons by (auto intro!: sound_bind [OF sound_new_value [OF _ int]] sound_bind [OF v_set])
qed (simp add: sound_ret)

lemma sound_set_then:
  assumes "wf_heap h" and "objs h p \<noteq> None" and "objs h x \<noteq> None"
  shows "sound h (bindM (new_value (Value_NewObject (Some p))) (\<lambda>v. bindM (vSet V this name v) (\<lambda>_. retM x))) (\<lambda>x h'. objs h' x \<noteq> None)"
proof -
  have "wf_cell h (Value_NewObject (Some p))" using assms(2) by simp
  then show ?thesis
    using assms heap_le_objs
    by (intro sound_bind [OF sound_new_value [OF assms(1)]]) (auto intro!: sound_bind [OF v_set] sound_ret)
qed

lemma sound_APIBinding_new: "wf_heap h \<Longrightarrow> sound h (APIBinding_new V glob) (\<lambda>x h'. objs h' x \<noteq> None)"
proof -
  assume wf: "wf_heap h"
  have rest: "sound h (bindM (new_object (APIBinding_obj glob logger)) (\<lambda>this.
     bindM (virtual_methods V this (ms this)) (\<lambda>_.
     bindM (set_int_constants V this cs) (\<lambda>_.
     bindM (ScriptBinding_new V) (\<lambda>script.
     bindM (new_value (Value_NewObject (Some script))) (\<lambda>v.
     bindM (vSet V this name v) (\<lambda>_. retM this))))))) (\<lambda>x h'. objs h' x \<noteq> None)"
    if "wf_heap h" "objs h glob \<noteq> None" for h logger ms cs name
  proof -
    have "wf_obj h (APIBinding_obj glob logger)" using that(2) by (simp add: wf_obj_def APIBinding_obj_def pmap_ok_def)
    note new = sound_new_object [OF that(1) this]
    show ?thesis
    proof (rule sound_bind [OF new], rule sound_bind [OF sound_virtual_methods], assumption,
        rule sound_bind [OF sound_set_int_constants], assumption, rule sound_bind [OF sound_binding_new(4)], assumption)
      fix x h1 h2 h3 p h4
      assume le: "heap_le h1 h2" "heap_le h2 h3" "heap_le h3 h4" and "objs h1 x = Some (APIBinding_obj glob logger)"
      then have "objs h1 x \<noteq> None" by simp
      then have "objs h4 x \<noteq> None" using heap_le_objs [OF heap_le_trans [OF heap_le_trans [OF le(1,2)] le(3)]] by blast
      then show "sound h4 (bindM (new_value (Value_NewObject (Some p))) (\<lambda>v. bindM (vSet V x name v) (\<lambda>_. retM x)))
          (\<lambda>x h'. objs h' x \<noteq> None)" if "wf_heap h4" "objs h4 p \<noteq> None"
        using that by (rule_tac sound_set_then)
    qed
  qed
  show ?thesis
    unfolding APIBinding_new_def
    using wf by (auto intro!: sound_load_obj_bind sound_bind [OF sound_in_logging] rest elim: heap_le_objE)
qed

lemma sound_APIModule:
  assumes "wf_heap h"
  shows "sound h (APIModule_Initialize V glob) (\<lambda>x h'. objs h' x \<noteq> None)" "sound h (APIModule_Stop V glob) (\<lambda>_ _. True)"
proof -
  show "sound h (APIModule_Initialize V glob) (\<lambda>x h'. objs h' x \<noteq> None)"
    unfolding APIModule_Initialize_def KObject_SetObject_def
    using assms by (intro sound_bind [OF sound_APIBinding_new]) (auto simp: bindM_assoc intro: sound_set_then)
  show "sound h (APIModule_Stop V glob) (\<lambda>_ _. True)"
    unfolding APIModule_Stop_def using v_set [OF assms wf_heap_Undefined [OF assms]] .
qed

end

section \<open>Properties\<close>

text \<open>C13: 
  What a script reads from the lists that the API returns.  Converting components, or dependencies, into a
  list returns, keeps the store invariant, and gives a list with one object per component of the asked type, in
  order; reading the properties type, name, version, path and bundled of such an object, or type, name,
  version and requirement of a dependency, in any spelling of their names, gives the values of its component or
  dependency (the type and the requirement as ints, which are the codes of the enumerations), as long as the values and methods of the store and the object itself
  are not replaced.
\<close>

theorem binding_lists_correct:
  assumes "native_code N F" and "wf_heap h" and "length cs < 2 ^ 32" and "length ds < 2 ^ 32"
    and V: "V = vtable (Suc (Suc k)) (kroll_natives lo up (api_natives E N)) F"
  shows "(\<exists>l h'. ComponentVectorToKList V cs flt h = (Inr l, h') \<and> wf_heap h' \<and> list_ok l h'
      \<and> list_all2 (\<lambda>c. shown_at V h' UNIV (component_properties (snd c)))
          (filter (\<lambda>c. flt = UNKNOWN \<or> flt = comp_type (snd c)) cs) (list_elems l h'))
    \<and> (\<exists>l h'. DependencyVectorToKList V ds h = (Inr l, h') \<and> wf_heap h' \<and> list_ok l h'
      \<and> list_all2 (\<lambda>d. shown_at V h' UNIV (dependency_properties d)) ds (list_elems l h'))"
proof
  have "length (filter (\<lambda>c. flt = UNKNOWN \<or> flt = comp_type (snd c)) cs) < 2 ^ 32"
    using assms(3) le_less_trans length_filter_le by blast
  from shown_binding.list_of_bindings [OF component_binding [OF assms(1)] assms(2) this]
  show "\<exists>l h'. ComponentVectorToKList V cs flt h = (Inr l, h') \<and> wf_heap h' \<and> list_ok l h'
      \<and> list_all2 (\<lambda>c. shown_at V h' UNIV (component_properties (snd c)))
          (filter (\<lambda>c. flt = UNKNOWN \<or> flt = comp_type (snd c)) cs) (list_elems l h')"
    by (simp add: V ComponentVectorToKList_def append_components_eq)
  from shown_binding.list_of_bindings [OF dependency_binding [OF assms(1)] assms(2,4)]
  show "\<exists>l h'. DependencyVectorToKList V ds h = (Inr l, h') \<and> wf_heap h' \<and> list_ok l h'
      \<and> list_all2 (\<lambda>d. shown_at V h' UNIV (dependency_properties d)) ds (list_elems l h')"
    by (simp add: V DependencyVectorToKList_def append_dependencies_eq)
qed

definition demo_components :: "SharedComponent list" where
  "demo_components =
     [(20, \<lparr>comp_type = RUNTIME, comp_name = ''runtime'', comp_version = ''1.0'', comp_path = ''/rt'', comp_bundled = False\<rparr>),
      (21, \<lparr>comp_type = MODULE, comp_name = ''ui'', comp_version = ''0.5'', comp_path = ''/ui'', comp_bundled = True\<rparr>)]"

definition demo_api_env :: api_env where
  "demo_api_env = \<lparr>e_machine = demo_machine, e_format = (\<lambda>name msg level. msg), e_debug = False, e_pid = 7, e_what = ''out of range'', e_depth = 8,
     e_root = 3, e_evals = 3\<rparr>"

lemma demo_heap_wf: "wf_heap demo_heap"
  using demo_heap_plain by (simp add: plain_def)

theorem binding_lists_correct_witness:
  "\<exists>l h' e. ComponentVectorToKList (vtable 2 (kroll_natives id id (api_natives demo_api_env no_natives)) no_fnptrs) demo_components MODULE demo_heap = (Inr l, h')
     \<and> list_elems l h' = [e]
     \<and> shown_at (vtable 2 (kroll_natives id id (api_natives demo_api_env no_natives)) no_fnptrs) h' UNIV
         [(''type'', AInt (component_code MODULE)), (''name'', AString ''ui''), (''version'', AString ''0.5''),
          (''path'', AString ''/ui''), (''bundled'', ABool True)] e"
proof -
  have "length demo_components < 2 ^ 32" "length ([] :: Dependency list) < 2 ^ 32" by (simp_all add: demo_components_def)
  from binding_lists_correct [OF idle.native_code_axioms demo_heap_wf this refl, of 0 id id demo_api_env MODULE]
  show ?thesis
    by (auto simp: demo_components_def component_properties_def list_all2_Cons1 numeral_2_eq_2 c_str_def)
qed

text \<open>C14: 
  At most one installer runs.  In every history of a binding in which scripts start installers, the threads of
  the installers finish or fail, and other code runs, at most one request is unfinished; while there is one, the
  binding is locked, holds exactly what that request asked for, and refuses every further request with an
  exception; with none, the next request is accepted.
\<close>

theorem installer_exclusive:
  assumes "installer_history E V this ts h"
  shows "(\<exists>b. api_at h this b \<and> (if installerMutex b then ts = [(installerDependencies b, installerCallback b)] else ts = []))
    \<and> (\<forall>ds cb. ds \<noteq> [] \<longrightarrow>
         (if ts = [] then \<exists>h'. start_installer this ds cb h = (Inr (), h') \<and> installer_history E V this [(ds, cb)] h'
          else \<exists>a h'. start_installer this ds cb h = (Inl (ValueException a), h')))"
proof -
  obtain b where b: "api_at h this b" "one_request b ts" using one_installer [OF assms] by blast
  have "if ts = [] then \<exists>h'. start_installer this ds cb h = (Inr (), h') \<and> installer_history E V this [(ds, cb)] h'
      else \<exists>a h'. start_installer this ds cb h = (Inl (ValueException a), h')" if "ds \<noteq> []" for ds cb
    using start_installer_run [OF b(1) that, of cb] b(2) installer_history.started [OF assms that, of cb]
    by (cases "installerMutex b") (auto simp: one_request_def)
  then show ?thesis using b unfolding one_request_def by blast
qed

text \<open>C28: 
  An installer that is started while the application has no runtime never unlocks.  Its thread fails on the null
  pointer, which leaves the lock of the binding as it was, so that every later request, with any dependencies, is
  refused with an exception.
\<close>

theorem installer_without_runtime:
  assumes "api_at h this b" and "\<not> installerMutex b" and "ds \<noteq> []"
    and "p_applications (proc h) (p_application (proc h)) = Some app" and "app_runtime app = None"
  shows "\<exists>h'. start_installer this ds cb h = (Inr (), h') \<and> APIBinding_RunInstaller E V this h' = (Inl NullPointer, h')
    \<and> (\<forall>ds' cb'. ds' \<noteq> [] \<longrightarrow> (\<exists>a h''. start_installer this ds' cb' h' = (Inl (ValueException a), h'')))"
proof -
  let ?b = "b\<lparr>installerMutex := True, installerDependencies := ds, installerCallback := cb\<rparr>"
  obtain h' where h': "start_installer this ds cb h = (Inr (), h')" "proc h' = proc h" "api_at h' this ?b"
    using start_installer_run(2) [OF assms(1,3,2)] by blast
  have "APIBinding_RunInstaller E V this h' = (Inl NullPointer, h')"
    using h'(2,3) assms(4,5)
    by (auto simp: api_at_def APIBinding_RunInstaller_def get_application_def gets_def of_opt_def get_api_def load_obj_def M_defs)
  moreover have "\<exists>a h''. start_installer this ds' cb' h' = (Inl (ValueException a), h'')" if "ds' \<noteq> []" for ds' cb'
    using start_installer_run(1) [OF h'(3) that, of cb'] by auto
  ultimately show ?thesis using h'(1) by blast
qed


text \<open>A store with an API object at the address 3, run by an application without a runtime.\<close>

definition demo_api_heap :: heap where
  "demo_api_heap = demo_heap\<lparr>objs := [3 \<mapsto> APIBinding_obj 3 0], proc := demo_process\<lparr>p_applications := [9 \<mapsto> demo_app], p_application := 9\<rparr>\<rparr>"

lemma demo_api_at: "api_at demo_api_heap 3 \<lparr>api_global = 3, api_logger = 0, installerMutex = False, installerDependencies = [], installerCallback = None\<rparr>"
  by (simp add: api_at_def demo_api_heap_def APIBinding_obj_def)

theorem installer_exclusive_witness:
  "\<exists>h' a h''. start_installer 3 (app_dependencies demo_app) None demo_api_heap = (Inr (), h')
     \<and> start_installer 3 (app_dependencies demo_app) (Some 3) h' = (Inl (ValueException a), h'')"
proof -
  have "\<exists>ob b. objs demo_api_heap 3 = Some ob \<and> cls ob = CAPIBinding b \<and> \<not> installerMutex b"
    using demo_api_at by (auto simp: api_at_def)
  then have init: "installer_history demo_api_env (vtable 0 no_natives no_fnptrs) 3 [] demo_api_heap" using installer_history.created by blast
  have ds: "app_dependencies demo_app \<noteq> []" by (simp add: demo_app_def)
  obtain h' where h': "start_installer 3 (app_dependencies demo_app) None demo_api_heap = (Inr (), h')"
      "installer_history demo_api_env (vtable 0 no_natives no_fnptrs) 3 [(app_dependencies demo_app, None)] h'"
    using conjunct2 [OF installer_exclusive [OF init]] ds by auto
  obtain a h'' where "start_installer 3 (app_dependencies demo_app) (Some 3) h' = (Inl (ValueException a), h'')"
    using conjunct2 [OF installer_exclusive [OF h'(2)]] ds by simp blast
  with h'(1) show ?thesis by blast
qed

theorem installer_without_runtime_witness:
  "\<exists>h'. start_installer 3 (app_dependencies demo_app) None demo_api_heap = (Inr (), h')
     \<and> APIBinding_RunInstaller demo_api_env (vtable 0 no_natives no_fnptrs) 3 h' = (Inl NullPointer, h')
     \<and> (\<exists>a h''. start_installer 3 (app_dependencies demo_app) None h' = (Inl (ValueException a), h''))"
proof -
  have ds: "app_dependencies demo_app \<noteq> []" and app: "app_runtime demo_app = None" by (simp_all add: demo_app_def new_application_def)
  have "p_applications (proc demo_api_heap) (p_application (proc demo_api_heap)) = Some demo_app" by (simp add: demo_api_heap_def)
  then obtain h' where "start_installer 3 (app_dependencies demo_app) None demo_api_heap = (Inr (), h')"
      "APIBinding_RunInstaller demo_api_env (vtable 0 no_natives no_fnptrs) 3 h' = (Inl NullPointer, h')"
      "\<forall>ds' cb'. ds' \<noteq> [] \<longrightarrow> (\<exists>a h''. start_installer 3 ds' cb' h' = (Inl (ValueException a), h''))"
    using installer_without_runtime [OF demo_api_at _ ds _ app, of None demo_api_env "vtable 0 no_natives no_fnptrs"] by auto
  then show ?thesis using ds by blast
qed

text \<open>An API object with its function \<^verbatim>\<open>print\<close>.\<close>

definition demo_print_heap :: heap where
  "demo_print_heap = demo_heap\<lparr>cells := (cells demo_heap)(5 \<mapsto> Value_NewMethod (Some 4)),
     objs := [3 \<mapsto> (APIBinding_obj 3 0)\<lparr>properties := [(''print'', 5)]\<rparr>,
       4 \<mapsto> StaticBoundMethod_new (Some (API_Method API_print 3)) ''StaticBoundMethod''], next_addr := 6\<rparr>"

lemma demo_print_heap_wf: "wf_heap demo_print_heap"
  by (auto simp: wf_heap_def wf_listeners_def wf_jobs_def demo_print_heap_def demo_heap_def APIBinding_obj_def
      StaticBoundMethod_new_def Undefined_addr_def Null_addr_def wf_obj_def pmap_ok_def isMethod_def split: if_splits)


end
