(* ===== verification/Kroll_ApiStart.thy ===== *)
theory Kroll_ApiStart
  imports Kroll_ApiProps
begin

text \<open>
  The global object of the host (\<^verbatim>\<open>Host::SetupGlobalObject\<close>, \<^verbatim>\<open>Script::Initialize\<close>) and the start of the API module:
  the API object is made, filled with its methods, constants and the script interface, and reached from the global
  object under its name.
\<close>

section \<open>The global object\<close>

text \<open>The instance of \<^verbatim>\<open>Script\<close> is its list of evaluators.\<close>

definition Script_Initialize :: "addr M" where
  "Script_Initialize = new_object (StaticBoundList_new ''StaticBoundList'')"

definition Host_SetupGlobalObject :: "vt \<Rightarrow> (addr \<times> addr) M" where
  "Host_SetupGlobalObject V =
     bindM (new_object (StaticBoundObject_new [])) (\<lambda>globalObject.
     bindM (Event_SetEventConstants V globalObject) (\<lambda>_.
     bindM Script_Initialize (\<lambda>evaluators. retM (globalObject, evaluators))))"

section \<open>Plain properties of accessor objects\<close>

text \<open>No property has the name that the accessor search looks for.\<close>

definition absent :: "string \<Rightarrow> string list \<Rightarrow> bool" where
  "absent lc names \<longleftrightarrow> list_all (\<lambda>n. map tolower n \<noteq> lc) names"

definition clean :: "string list \<Rightarrow> bool" where
  "clean names \<longleftrightarrow> list_all (\<lambda>n. c_str n = n) names"

lemma find_method_absent:
  assumes "objs h0 this = Some ob" and "pmap_ok (properties ob)" and "set ps \<subseteq> set (properties ob)" and "map snd ns = map fst ps"
    and "\<forall>p \<in> set ps. c_str (fst p) = fst p \<and> cells h0 (snd p) \<noteq> None \<and> snd p < next_addr h0 \<and> map tolower (fst p) \<noteq> lc"
    and "same_store h0 h"
  shows "\<exists>h'. find_method (StaticBoundObject_Get this) lc ns h = (Inr None, h') \<and> same_store h0 h'"
  using assms(3-)
proof (induction ps arbitrary: ns h)
  case Nil
  then show ?case by (auto simp: retM_def)
next
  case (Cons p ps)
  obtain n ns' where ns: "ns = n # ns'" "snd n = fst p" "map snd ns' = map fst ps" using Cons.prems(2) by (cases ns) auto
  let ?h1 = "h\<lparr>cells := (cells h)(next_addr h \<mapsto> Value_NewUndefined), next_addr := Suc (next_addr h)\<rparr>"
  have ob: "objs h this = Some ob" using Cons.prems(4) assms(1) by (simp add: same_store_objs)
  have "pmap_find (fst p) (properties ob) = Some (snd p)"
    using Cons.prems(1) assms(2) by (intro pmap_find_member) auto
  then have get: "StaticBoundObject_Get this (c_str (snd n)) h = (Inr (snd p), ?h1)"
    using static_Get_run [OF ob] ns Cons.prems(3) by simp
  have "same_store h ?h1" by (simp add: same_store_def allocs_def)
  then have h1: "same_store h0 ?h1" using Cons.prems(4) same_store_trans by blast
  obtain v where v: "cells ?h1 (snd p) = Some v" using same_store_cell [OF h1] Cons.prems(3) by (auto simp: not_None_eq)
  have "map tolower (snd n) \<noteq> lc" using ns(2) Cons.prems(3) by simp
  then have "find_method (StaticBoundObject_Get this) lc ns h = find_method (StaticBoundObject_Get this) lc ns' ?h1"
    using v ns(1) get by (simp add: bindM_def load_def)
  then show ?case using Cons.IH [OF _ ns(3) _ h1] Cons.prems by auto
qed

lemma accessor_absent_run:
  assumes wf: "wf_heap h0" and ob: "objs h0 this = Some ob" "accessor_class (cls ob)" "clean (map fst (properties ob))"
    and "absent (map tolower name) (map fst (properties ob))" and "same_store h0 h"
  shows "\<exists>h'. AccessorBoundObject_FindMethod (vtable (Suc k) N F) this name h = (Inr None, h') \<and> same_store h0 h'"
proof -
  have "objs h this = Some ob" using ob(1) assms(6) by (simp add: same_store_objs)
  then obtain ns h1 where ns: "vNames (vtable (Suc k) N F) this h = (Inr ns, h1)" "map snd ns = map fst (properties ob)" "same_store h h1"
    using accessor_names_run [of h this ob] ob(2) by blast
  have props: "pmap_ok (properties ob)" "\<forall>p \<in> set (properties ob). cells h0 (snd p) \<noteq> None"
    using wf_heap_obj [OF wf ob(1)] by (auto simp: wf_obj_def)
  then have "\<forall>p \<in> set (properties ob). snd p < next_addr h0" using wf by (meson not_less wf_heap_def)
  then have "\<forall>p \<in> set (properties ob). c_str (fst p) = fst p \<and> cells h0 (snd p) \<noteq> None \<and> snd p < next_addr h0 \<and> map tolower (fst p) \<noteq> map tolower name"
    using props(2) ob(3) assms(5) by (auto simp: clean_def absent_def list_all_iff)
  moreover have "same_store h0 h1" using assms(6) ns(3) same_store_trans by blast
  ultimately show ?thesis
    using find_method_absent [OF ob(1) props(1) subset_refl ns(2)] ns(1)
    unfolding AccessorBoundObject_FindMethod_def by (simp add: bindM_def)
qed

lemma accessor_set_run:
  assumes V: "virtual_table (vtable (Suc k) N F)" "virtual_table (vtable (Suc (Suc k)) N F)" and wf: "wf_heap h" "cells h x \<noteq> None"
    and ob: "objs h this = Some ob" "accessor_class (cls ob)" "clean (map fst (properties ob))"
    and "absent (map tolower (''set'' @ name)) (map fst (properties ob))"
  shows "\<exists>h'. vSet (vtable (Suc (Suc k)) N F) this name x h = (Inr (), h') \<and> wf_heap h' \<and> intact (- {this}) h h'
    \<and> objs h' this = Some (ob\<lparr>properties := pmap_insert name x (properties ob)\<rparr>)"
proof -
  obtain h1 where f: "AccessorBoundObject_FindMethod (vtable (Suc k) N F) this (''set'' @ name) h = (Inr None, h1)" "same_store h h1"
    using accessor_absent_run [OF wf(1) ob assms(8) same_store_refl] by blast
  have at1: "objs h1 this = Some ob" using ob(1) f(2) by (simp add: same_store_objs)
  have wf1: "wf_heap h1" using sound_run(1) [OF virtual_table.sound_accessor_find [OF V(1) wf(1)] f(1)] .
  define h2 where "h2 = h1\<lparr>objs := (objs h1)(this \<mapsto> ob\<lparr>properties := pmap_insert name x (properties ob)\<rparr>)\<rparr>"
  have set: "StaticBoundObject_Set this name x h1 = (Inr (), h2)"
    using static_Set_run [OF at1] wf_heap_obj [OF wf1 at1] by (simp add: h2_def wf_obj_def)
  have run: "vSet (vtable (Suc (Suc k)) N F) this name x h = (Inr (), h2)"
    using ob(1,2) f(1) set
    by (cases "cls ob") (simp_all add: vtable_sel dispatch_Set_def load_obj_def bindM_def AccessorBoundObject_Set_def)
  have "cells h1 a = cells h a" if "cells h a \<noteq> None" for a
    using same_store_cell [OF f(2)] that wf(1) by (meson not_less wf_heap_def)
  then have "intact (- {this}) h h2" using ob(1) at1 by (auto simp: intact_def h2_def same_store_objs [OF f(2)])
  moreover have "wf_heap h2" using sound_run(1) [OF virtual_table.v_set [OF V(2) wf] run] .
  ultimately show ?thesis using run by (auto simp: h2_def)
qed

definition holds :: "heap \<Rightarrow> kobj \<Rightarrow> string \<Rightarrow> aval \<Rightarrow> bool" where
  "holds h ob n v \<longleftrightarrow> (\<exists>x w. pmap_find n (properties ob) = Some x \<and> cells h x = Some w \<and> denotes w = v)"

lemma accessor_read_run:
  assumes wf: "wf_heap h" and ob: "objs h this = Some ob" "accessor_class (cls ob)" "clean (map fst (properties ob))"
    and "absent (map tolower (''get'' @ name)) (map fst (properties ob))" and "absent (map tolower (''is'' @ name)) (map fst (properties ob))"
    and "holds h ob name v"
  shows "yields (vGet (vtable (Suc (Suc k)) N F) this name) h v"
proof -
  obtain h1 where f1: "AccessorBoundObject_FindMethod (vtable (Suc k) N F) this (''get'' @ name) h = (Inr None, h1)" "same_store h h1"
    using accessor_absent_run [OF wf ob assms(5) same_store_refl] by blast
  obtain h2 where f2: "AccessorBoundObject_FindMethod (vtable (Suc k) N F) this (''is'' @ name) h1 = (Inr None, h2)" "same_store h h2"
    using accessor_absent_run [OF wf ob assms(6) f1(2)] by blast
  obtain x w where x: "pmap_find name (properties ob) = Some x" "cells h x = Some w" "denotes w = v" using assms(7) by (auto simp: holds_def)
  have at2: "objs h2 this = Some ob" using ob(1) f2(2) by (simp add: same_store_objs)
  let ?h3 = "h2\<lparr>cells := (cells h2)(next_addr h2 \<mapsto> Value_NewUndefined), next_addr := Suc (next_addr h2)\<rparr>"
  have "vGet (vtable (Suc (Suc k)) N F) this name h = AccessorBoundObject_Get (vtable (Suc k) N F) this name h"
    using ob by (cases "cls ob") (simp_all add: vtable_sel dispatch_Get_def load_obj_def bindM_def)
  also have "\<dots> = (Inr x, ?h3)"
    using f1(1) f2(1) x(1) static_Get_run [OF at2, of name] by (simp add: AccessorBoundObject_Get_def bindM_def)
  finally have run: "vGet (vtable (Suc (Suc k)) N F) this name h = (Inr x, ?h3)" .
  have "cells h x \<noteq> None" using x(2) by simp
  then have "x < next_addr h" using wf by (meson not_less wf_heap_def)
  then have "cells ?h3 x = Some w"
    using x(2) same_store_cell [OF f2(2)] f2(2) by (auto simp: same_store_def allocs_def)
  then show ?thesis using run x(3) by (auto simp: yields_def)
qed

lemma holds_intact: "holds h ob n v \<Longrightarrow> intact A h h' \<Longrightarrow> holds h' ob n v"
  unfolding holds_def intact_def by blast

lemma holds_insert: "pmap_ok (properties ob) \<Longrightarrow> holds h ob n v \<Longrightarrow> n \<noteq> m \<Longrightarrow> holds h (ob\<lparr>properties := pmap_insert m x (properties ob)\<rparr>) n v"
  by (simp add: holds_def pmap_find_insert)

section \<open>Construction\<close>

text \<open>The names that the API object may get: no method of it is a setter of one of them.\<close>

definition fillable :: "string list \<Rightarrow> bool" where
  "fillable names \<longleftrightarrow> clean names \<and> list_all (\<lambda>n. absent (map tolower (''set'' @ n)) names) names"

lemma absent_subset: "absent lc names \<Longrightarrow> set ns \<subseteq> set names \<Longrightarrow> absent lc ns"
  by (auto simp: absent_def list_all_iff)

lemma clean_subset: "clean names \<Longrightarrow> set ns \<subseteq> set names \<Longrightarrow> clean ns"
  by (auto simp: clean_def list_all_iff)

lemma fill_run:
  assumes V: "virtual_table (vtable (Suc k) N F)" "virtual_table (vtable (Suc (Suc k)) N F)" and wf: "wf_heap h" "wf_cell h w"
    and ob: "objs h this = Some ob" "accessor_class (cls ob)" "fst ` set (properties ob) \<subseteq> set names"
    and names: "fillable names" "n \<in> set names"
  shows "\<exists>h' ob'. bindM (new_value w) (\<lambda>v. vSet (vtable (Suc (Suc k)) N F) this n v) h = (Inr (), h') \<and> wf_heap h' \<and> intact (- {this}) h h'
    \<and> objs h' this = Some ob' \<and> cls ob' = cls ob \<and> fst ` set (properties ob') \<subseteq> set names
    \<and> holds h' ob' n (denotes w) \<and> (\<forall>m v. holds h ob m v \<and> m \<noteq> n \<longrightarrow> holds h' ob' m v)"
proof -
  let ?x = "next_addr h" and ?h1 = "h\<lparr>cells := (cells h)(next_addr h \<mapsto> w), next_addr := Suc (next_addr h)\<rparr>"
  have new: "new_value w h = (Inr ?x, ?h1)" by (simp add: new_value_def)
  have wf1: "wf_heap ?h1" using sound_run(1) [OF sound_new_value [OF wf] new] .
  have i1: "intact UNIV h ?h1" using wf_heap_fresh(1) [OF wf(1)] by (auto simp: intact_def)
  have ob1: "objs ?h1 this = Some ob" using ob(1) by simp
  have ok: "pmap_ok (properties ob)" using wf_heap_obj [OF wf(1) ob(1)] by (simp add: wf_obj_def)
  have "clean (map fst (properties ob))" "absent (map tolower (''set'' @ n)) (map fst (properties ob))"
    using names ob(3) clean_subset [of names "map fst (properties ob)"]
      absent_subset [of "map tolower (''set'' @ n)" names "map fst (properties ob)"]
    by (auto simp: fillable_def list_all_iff)
  from accessor_set_run [OF V wf1 _ ob1 ob(2) this, of ?x] obtain h2 where h2:
      "vSet (vtable (Suc (Suc k)) N F) this n ?x ?h1 = (Inr (), h2)" "wf_heap h2" "intact (- {this}) ?h1 h2"
      "objs h2 this = Some (ob\<lparr>properties := pmap_insert n ?x (properties ob)\<rparr>)" by auto
  let ?ob = "ob\<lparr>properties := pmap_insert n ?x (properties ob)\<rparr>"
  have i: "intact (- {this}) h h2" using intact_trans [OF intact_mono [OF i1] h2(3)] by simp
  have "cells h2 ?x = Some w" using h2(3) by (simp add: intact_def)
  then have "holds h2 ?ob n (denotes w)" using ok by (simp add: holds_def pmap_find_insert)
  moreover have "holds h2 ?ob m v" if "holds h ob m v" "m \<noteq> n" for m v
    using holds_insert [OF ok holds_intact [OF that(1) i] that(2)] .
  moreover have "bindM (new_value w) (\<lambda>v. vSet (vtable (Suc (Suc k)) N F) this n v) h = (Inr (), h2)" using new h2(1) by (simp add: bindM_def)
  moreover have "fst ` set (properties ?ob) \<subseteq> set names" using ob(3) names(2) by (auto simp: names_of_insert)
  ultimately show ?thesis using h2(2,4) i by (intro exI [of _ h2] exI [of _ ?ob]) auto
qed

lemma set_int_constants_run:
  assumes V: "virtual_table (vtable (Suc k) N F)" "virtual_table (vtable (Suc (Suc k)) N F)" and wf: "wf_heap h"
    and ob: "objs h this = Some ob" "accessor_class (cls ob)" "fst ` set (properties ob) \<subseteq> set names"
    and names: "fillable names" "fst ` set cs \<subseteq> set names" "distinct (map fst cs)"
  shows "\<exists>h' ob'. set_int_constants (vtable (Suc (Suc k)) N F) this cs h = (Inr (), h') \<and> wf_heap h' \<and> intact (- {this}) h h'
    \<and> objs h' this = Some ob' \<and> cls ob' = cls ob \<and> fst ` set (properties ob') \<subseteq> set names
    \<and> (\<forall>p \<in> set cs. holds h' ob' (fst p) (AInt (snd p))) \<and> (\<forall>m v. holds h ob m v \<and> m \<notin> fst ` set cs \<longrightarrow> holds h' ob' m v)"
  using wf ob names
proof (induction cs arbitrary: h ob)
  case Nil
  then show ?case by (auto simp: retM_def)
next
  case (Cons c cs)
  obtain h1 ob1 where h1: "bindM (new_value (Value_NewInt (snd c))) (\<lambda>v. vSet (vtable (Suc (Suc k)) N F) this (fst c) v) h = (Inr (), h1)"
      "wf_heap h1" "intact (- {this}) h h1" "objs h1 this = Some ob1" "cls ob1 = cls ob" "fst ` set (properties ob1) \<subseteq> set names"
      "holds h1 ob1 (fst c) (AInt (snd c))" "\<forall>m v. holds h ob m v \<and> m \<noteq> fst c \<longrightarrow> holds h1 ob1 m v"
    using fill_run [OF V Cons.prems(1) _ Cons.prems(2-5), of "Value_NewInt (snd c)" "fst c"] Cons.prems(6) by (auto simp: Value_NewInt_def)
  have "accessor_class (cls ob1)" using Cons.prems(3) h1(5) by simp
  then obtain h' ob' where h': "set_int_constants (vtable (Suc (Suc k)) N F) this cs h1 = (Inr (), h')" "wf_heap h'" "intact (- {this}) h1 h'"
      "objs h' this = Some ob'" "cls ob' = cls ob1" "fst ` set (properties ob') \<subseteq> set names"
      "\<forall>p \<in> set cs. holds h' ob' (fst p) (AInt (snd p))" "\<forall>m v. holds h1 ob1 m v \<and> m \<notin> fst ` set cs \<longrightarrow> holds h' ob' m v"
    using Cons.IH [OF h1(2,4) _ h1(6) Cons.prems(5)] Cons.prems(6,7) by auto
  have run: "set_int_constants (vtable (Suc (Suc k)) N F) this (c # cs) h = (Inr (), h')"
    using h1(1) h'(1) by (auto simp: bindM_def split: sum.splits prod.splits)
  have "holds h' ob' (fst c) (AInt (snd c))" using h'(8) h1(7) Cons.prems(7) by auto
  then show ?case using run h'(2,4,5,6,7,8) h1(5,8) intact_trans [OF h1(3) h'(3)] by (intro exI [of _ h'] exI [of _ ob']) auto
qed

text \<open>The same on objects without accessors.\<close>

lemma static_vSet_run:
  assumes "wf_heap h" and "objs h this = Some ob" and "cls ob = CStaticBoundObject" and "cells h x \<noteq> None" and "virtual_table (vtable (Suc n) N F)"
  shows "\<exists>h'. vSet (vtable (Suc n) N F) this name x h = (Inr (), h') \<and> wf_heap h' \<and> intact (- {this}) h h' \<and> proc h' = proc h
    \<and> objs h' this = Some (ob\<lparr>properties := pmap_insert name x (properties ob)\<rparr>)"
proof -
  have "pmap_ok (properties ob)" using wf_heap_obj [OF assms(1,2)] by (simp add: wf_obj_def)
  then have run: "vSet (vtable (Suc n) N F) this name x h =
      (Inr (), h\<lparr>objs := (objs h)(this \<mapsto> ob\<lparr>properties := pmap_insert name x (properties ob)\<rparr>)\<rparr>)"
    using assms(2,3) static_Set_run [OF assms(2)] by (simp add: vtable_sel dispatch_Set_def load_obj_def bindM_def)
  then show ?thesis
    using sound_run(1) [OF virtual_table.v_set [OF assms(5,1,4)] run] assms(2,3) by (auto simp: intact_def)
qed

lemma static_method_run:
  assumes "wf_heap h" and "objs h this = Some ob" and "cls ob = CStaticBoundObject" and "virtual_table (vtable (Suc n) N F)"
  shows "\<exists>h' ob'. virtual_SetMethod (vtable (Suc n) N F) this name cb h = (Inr (), h') \<and> wf_heap h' \<and> intact (- {this}) h h'
    \<and> objs h' this = Some ob' \<and> cls ob' = CStaticBoundObject"
proof -
  let ?mo = "StaticBoundMethod_new (Some cb) ''StaticBoundMethod''"
  have mo: "wf_obj h ?mo" by (simp add: wf_obj_def StaticBoundMethod_new_def pmap_ok_def)
  define m h1 where h1: "m = next_addr h" "h1 = h\<lparr>objs := (objs h)(m \<mapsto> ?mo), next_addr := Suc m\<rparr>"
  define x h2 where h2: "x = next_addr h1" "h2 = h1\<lparr>cells := (cells h1)(x \<mapsto> Value_NewMethod (Some m)), next_addr := Suc x\<rparr>"
  have run: "new_object ?mo h = (Inr m, h1)" "new_value (Value_NewMethod (Some m)) h1 = (Inr x, h2)"
    by (simp_all add: new_object_def new_value_def h1 h2)
  have wf1: "wf_heap h1" using sound_run(1) [OF sound_new_object [OF assms(1) mo] run(1)] .
  have wf2: "wf_heap h2"
    using sound_run(1) [OF sound_new_value [OF wf1] run(2)] by (simp add: isMethod_def h1 StaticBoundMethod_new_def)
  have fresh: "cells h1 x = None" "objs h m = None"
    using wf_heap_fresh [OF wf1] wf_heap_fresh [OF assms(1)] by (simp_all add: h1 h2)
  have i: "intact UNIV h h2" "objs h2 this = Some ob" "cells h2 x \<noteq> None" using fresh assms(2) by (auto simp: intact_def h1 h2)
  from static_vSet_run [OF wf2 i(2) assms(3) i(3) assms(4), of name] obtain h3 where h3:
      "vSet (vtable (Suc n) N F) this name x h2 = (Inr (), h3)" "wf_heap h3" "intact (- {this}) h2 h3"
      "objs h3 this = Some (ob\<lparr>properties := pmap_insert name x (properties ob)\<rparr>)" by blast
  then show ?thesis
    using run assms(3) intact_trans [OF intact_mono [OF i(1)] h3(3)] by (auto simp: virtual_SetMethod_def bindM_def)
qed

lemma static_methods_run:
  assumes "wf_heap h" and "objs h this = Some ob" and "cls ob = CStaticBoundObject" and V: "virtual_table (vtable (Suc n) N F)"
  shows "\<exists>h'. virtual_methods (vtable (Suc n) N F) this ps h = (Inr (), h') \<and> wf_heap h' \<and> intact (- {this}) h h'"
  using assms(1-3)
proof (induction ps arbitrary: h ob)
  case Nil
  then show ?case by (auto simp: retM_def)
next
  case (Cons p ps)
  obtain h1 ob1 where h1: "virtual_SetMethod (vtable (Suc n) N F) this (fst p) (snd p) h = (Inr (), h1)" "wf_heap h1" "intact (- {this}) h h1"
      "objs h1 this = Some ob1" "cls ob1 = CStaticBoundObject"
    using static_method_run [OF Cons.prems V] by blast
  with Cons.IH [OF h1(2,4,5)] show ?case using intact_trans [OF h1(3)] by (auto simp: bindM_def)
qed

lemma ScriptBinding_new_run:
  assumes "wf_heap h" and "virtual_table (vtable (Suc n) N F)"
  shows "\<exists>script h'. ScriptBinding_new (vtable (Suc n) N F) h = (Inr script, h') \<and> wf_heap h' \<and> intact UNIV h h' \<and> objs h' script \<noteq> None"
proof -
  let ?ob = "StaticBoundObject_new ''API.Script''" and ?a = "next_addr h"
  let ?h1 = "h\<lparr>objs := (objs h)(next_addr h \<mapsto> ?ob), next_addr := Suc (next_addr h)\<rparr>"
  have new: "new_object ?ob h = (Inr ?a, ?h1)" by (simp add: new_object_def)
  have wf1: "wf_heap ?h1" using sound_run(1) [OF sound_new_object [OF assms(1) binding_objects_wf(5)] new] .
  have ob: "objs ?h1 ?a = Some ?ob" "cls ?ob = CStaticBoundObject" by (simp_all add: StaticBoundObject_new_def)
  obtain h' where h': "virtual_methods (vtable (Suc n) N F) ?a (map (map_prod id (\<lambda>op. Script_Method op ?a)) script_methods) ?h1 = (Inr (), h')"
      "wf_heap h'" "intact (- {?a}) ?h1 h'"
    using static_methods_run [OF wf1 ob assms(2)] by blast
  have run: "ScriptBinding_new (vtable (Suc n) N F) h = (Inr ?a, h')" using new h'(1) by (simp add: ScriptBinding_new_def bindM_def retM_def)
  have "intact (- {?a}) h ?h1" using wf_heap_fresh(2) [OF assms(1)] by (auto simp: intact_def)
  then have "intact UNIV h h'" using intact_fresh [OF intact_trans [OF _ h'(3)] wf_heap_fresh(2) [OF assms(1)]] by blast
  moreover have "objs h' ?a \<noteq> None" using sound_run(3) [OF virtual_table.sound_binding_new(4) [OF assms(2,1)] run] by simp
  ultimately show ?thesis using run h'(2) by blast
qed

definition api_names :: "string list" where
  "api_names = map fst api_methods @ map fst api_constants @ [''Script'']"

definition api_lower :: "string list" where
  "api_lower = [''set'', ''get'', ''addeventlistener'', ''removeeventlistener'', ''fireevent'', ''runonmainthread'',
     ''runonmainthreadasync'', ''getapplication'', ''getinstalledcomponents'', ''getinstalledsdks'',
     ''getinstalledmobilesdks'', ''getinstalledmodules'', ''getinstalledruntimes'', ''getcomponentsearchpaths'',
     ''readapplicationmanifest'', ''createdependency'', ''installdependencies'', ''componentguidtocomponenttype'',
     ''getenvironment'', ''createkobject'', ''createkmethod'', ''createklist'', ''createblob'', ''log'', ''trace'',
     ''debug'', ''info'', ''notice'', ''warn'', ''error'', ''critical'', ''fatal'', ''setloglevel'', ''getloglevel'',
     ''print'']
   @ [''trace'', ''debug'', ''info'', ''notice'', ''warn'', ''error'', ''critical'', ''fatal'', ''eq'', ''lt'', ''lte'',
     ''gt'', ''gte'', ''module'', ''runtime'', ''sdk'', ''mobilesdk'', ''app_update'', ''unknown'', ''script'']"

lemma api_names_lower: "map (map tolower) api_names = api_lower"
  by code_simp

lemma absent_lower: "absent lc names \<longleftrightarrow> lc \<notin> set (map (map tolower) names)"
  by (auto simp: absent_def list_all_iff)

lemma lower_prefix: "map tolower (''set'' @ n) = ''set'' @ map tolower n" "map tolower (''get'' @ n) = ''get'' @ map tolower n"
    "map tolower (''is'' @ n) = ''is'' @ map tolower n"
proof -
  have "map tolower ''set'' = ''set''" "map tolower ''get'' = ''get''" "map tolower ''is'' = ''is''" by code_simp+
  then show "map tolower (''set'' @ n) = ''set'' @ map tolower n" "map tolower (''get'' @ n) = ''get'' @ map tolower n"
    "map tolower (''is'' @ n) = ''is'' @ map tolower n" by (metis map_append)+
qed

lemma api_setters: "list_all (\<lambda>l. take 3 l = ''set'' \<longrightarrow> drop 3 l \<notin> set api_lower) api_lower"
  by code_simp

lemma api_getters: "list_all (\<lambda>l. (take 3 l = ''get'' \<longrightarrow> drop 3 l \<notin> set (drop 35 api_lower)) \<and> (take 2 l = ''is'' \<longrightarrow> drop 2 l \<notin> set (drop 35 api_lower))) api_lower"
  by code_simp

lemma api_names_ok: "clean api_names" "clean_names api_methods" "distinct (map fst api_constants)" "''Script'' \<notin> set (map fst api_constants)"
  by code_simp+

lemma api_fillable: "fillable api_names"
proof -
  have "''set'' @ map tolower n \<notin> set api_lower" if "n \<in> set api_names" for n
  proof
    assume "''set'' @ map tolower n \<in> set api_lower"
    then have "map tolower n \<notin> set api_lower" using api_setters by (force simp: list_all_iff)
    then show False using that unfolding api_names_lower [symmetric] by simp
  qed
  then show ?thesis
    using api_names_ok(1) unfolding fillable_def list_all_iff absent_lower lower_prefix api_names_lower by blast
qed

lemma api_no_setters: "no_setters (map fst api_methods) (map fst api_methods)"
proof -
  have "absent (map tolower (''set'' @ n)) (map fst api_methods)" if "n \<in> set (map fst api_methods)" for n
    using api_fillable that absent_subset [of _ api_names "map fst api_methods"]
    unfolding fillable_def list_all_iff api_names_def by auto
  then show ?thesis by (auto simp: no_setters_def list_all_iff absent_def simp del: append.simps list.map map_append)
qed

lemma api_constants_plain:
  assumes "n \<in> fst ` set api_constants"
  shows "absent (map tolower (''get'' @ n)) api_names" "absent (map tolower (''is'' @ n)) api_names"
proof -
  have "length api_methods = 35" by code_simp
  then have "drop 35 (map (map tolower) api_names) = map (map tolower) (map fst api_constants @ [''Script''])"
    by (simp add: api_names_def)
  then have n: "map tolower n \<in> set (drop 35 api_lower)" using assms unfolding api_names_lower by auto
  have "''get'' @ map tolower n \<notin> set api_lower" "''is'' @ map tolower n \<notin> set api_lower"
    using api_getters n by (force simp: list_all_iff)+
  then show "absent (map tolower (''get'' @ n)) api_names" "absent (map tolower (''is'' @ n)) api_names"
    unfolding absent_lower lower_prefix api_names_lower by blast+
qed

lemma names_of_insert_all: "fst ` set (insert_all ps tab) = fst ` set ps \<union> fst ` set tab"
  by (induction ps arbitrary: tab) (auto simp: insert_all_def names_of_insert)

text \<open>The API object after its construction: an unlocked binding of the global object with its constants.\<close>

definition api_object :: "heap \<Rightarrow> addr \<Rightarrow> addr \<Rightarrow> kobj \<Rightarrow> bool" where
  "api_object h glob api ob \<longleftrightarrow> objs h api = Some ob
     \<and> (\<exists>b. cls ob = CAPIBinding b \<and> api_global b = glob \<and> \<not> installerMutex b \<and> installerDependencies b = [] \<and> installerCallback b = None)
     \<and> fst ` set (properties ob) \<subseteq> set api_names
     \<and> (\<forall>p \<in> set api_constants. holds h ob (fst p) (AInt (snd p)))
     \<and> (\<exists>s. holds h ob ''Script'' (AObject s) \<and> objs h s \<noteq> None)"

lemma script_run:
  assumes V: "virtual_table (vtable (Suc k) N F)" "virtual_table (vtable (Suc (Suc k)) N F)" and wf: "wf_heap h"
    and ob: "objs h this = Some ob" "accessor_class (cls ob)" "fst ` set (properties ob) \<subseteq> set api_names"
  shows "\<exists>h' ob' script. bindM (ScriptBinding_new (vtable (Suc (Suc k)) N F)) (\<lambda>script.
      bindM (new_value (Value_NewObject (Some script))) (\<lambda>v. vSet (vtable (Suc (Suc k)) N F) this ''Script'' v)) h = (Inr (), h')
    \<and> wf_heap h' \<and> intact (- {this}) h h' \<and> objs h' this = Some ob' \<and> cls ob' = cls ob \<and> fst ` set (properties ob') \<subseteq> set api_names
    \<and> holds h' ob' ''Script'' (AObject script) \<and> objs h' script \<noteq> None \<and> (\<forall>m v. holds h ob m v \<and> m \<noteq> ''Script'' \<longrightarrow> holds h' ob' m v)"
proof -
  obtain script h1 where h1: "ScriptBinding_new (vtable (Suc (Suc k)) N F) h = (Inr script, h1)" "wf_heap h1" "intact UNIV h h1" "objs h1 script \<noteq> None"
    using ScriptBinding_new_run [OF wf V(2)] by blast
  have ob1: "objs h1 this = Some ob" using h1(3) ob(1) by (simp add: intact_def)
  have "wf_cell h1 (Value_NewObject (Some script))" "''Script'' \<in> set api_names" using h1(4) by (simp_all add: api_names_def)
  from fill_run [OF V h1(2) this(1) ob1 ob(2,3) api_fillable this(2)] obtain h' ob' where h':
      "bindM (new_value (Value_NewObject (Some script))) (\<lambda>v. vSet (vtable (Suc (Suc k)) N F) this ''Script'' v) h1 = (Inr (), h')" "wf_heap h'"
      "intact (- {this}) h1 h'" "objs h' this = Some ob'" "cls ob' = cls ob" "fst ` set (properties ob') \<subseteq> set api_names"
      "holds h' ob' ''Script'' (AObject script)" "\<forall>m v. holds h1 ob m v \<and> m \<noteq> ''Script'' \<longrightarrow> holds h' ob' m v"
    by (auto simp: Value_NewObject_def)
  have "objs h' script \<noteq> None"
    using h'(3,4) h1(4) by (cases "script = this") (auto simp: intact_def not_None_eq)
  moreover have "intact (- {this}) h h'" using intact_trans [OF intact_mono [OF h1(3)] h'(3)] by simp
  ultimately show ?thesis
    using h1(1) h' holds_intact [OF _ h1(3), of ob] by (intro exI [of _ h'] exI [of _ ob'] exI [of _ script]) (auto simp: bindM_def)
qed

lemma bound_methods_names:
  assumes "bound_methods h this c tab"
  obtains ob where "objs h this = Some ob" "cls ob = c" "fst ` set (properties ob) = fst ` set tab"
proof -
  obtain ob where ob: "objs h this = Some ob" "cls ob = c" "bound_table h (properties ob) tab" using assms by (auto simp: bound_methods_def)
  have "set (map fst (properties ob)) = set (map fst tab)" using bound_table_names [OF ob(3)] by simp
  then show ?thesis using ob(1,2) that by simp
qed

text \<open>The first part of the constructor: the logger and the methods.\<close>

lemma api_methods_run:
  assumes V: "virtual_table (vtable (Suc k) N F)" "virtual_table (vtable (Suc (Suc k)) N F)" and wf: "wf_heap h"
    and glob: "objs h glob \<noteq> None" and logging: "wf_logging PRODUCT_NAME (p_logging (proc h))"
  shows "\<exists>logger api h' ob. bindM (load_obj glob) (\<lambda>_. bindM (in_logging (Logger_Get PRODUCT_NAME ''API'')) (\<lambda>logger.
      bindM (new_object (APIBinding_obj glob logger)) (\<lambda>this.
      bindM (virtual_methods (vtable (Suc (Suc k)) N F) this (map (map_prod id (\<lambda>op. API_Method op this)) api_methods)) (\<lambda>_. retM this)))) h = (Inr api, h')
    \<and> wf_heap h' \<and> intact UNIV h h' \<and> objs h api = None
    \<and> objs h' api = Some ob \<and> cls ob = cls (APIBinding_obj glob logger) \<and> fst ` set (properties ob) = fst ` set api_methods"
proof -
  have "CHR ''.'' \<notin> set PRODUCT_NAME" by (simp add: PRODUCT_NAME_def)
  then obtain logger L where L: "Logger_Get PRODUCT_NAME ''API'' (p_logging (proc h)) = Some (logger, L)"
    using GetImpl_inherits [OF logging, of "PRODUCT_NAME @ ''.'' @ ''API''"] by (auto simp: Logger_Get_def dotted_prefix_def)
  define h1 where "h1 = h\<lparr>proc := (proc h)\<lparr>p_logging := L\<rparr>\<rparr>"
  have wf1: "wf_heap h1" by (simp add: h1_def wf_heap_proc wf)
  have "wf_obj h1 (APIBinding_obj glob logger)" "properties (APIBinding_obj glob logger) = []" "accessor_class (cls (APIBinding_obj glob logger))"
    using glob by (simp_all add: wf_obj_def APIBinding_obj_def pmap_ok_def h1_def)
  from binding_new_run [OF V wf1 this api_names_ok(2) api_no_setters, of API_Method]
  obtain api h2 where h2: "bindM (new_object (APIBinding_obj glob logger)) (\<lambda>this. bindM (virtual_methods (vtable (Suc (Suc k)) N F) this
        (map (map_prod id (\<lambda>op. API_Method op this)) api_methods)) (\<lambda>_. retM this)) h1 = (Inr api, h2)"
      "wf_heap h2" "bound_methods h2 api (cls (APIBinding_obj glob logger)) (insert_all (map (map_prod id (\<lambda>op. API_Method op api)) api_methods) [])"
      "intact UNIV h1 h2" "objs h1 api = None" by blast
  obtain ob where "objs h2 api = Some ob" "cls ob = cls (APIBinding_obj glob logger)" "fst ` set (properties ob) = fst ` set api_methods"
    using bound_methods_names [OF h2(3)] by (auto simp: names_of_insert_all image_image)
  moreover have "load_obj glob h = (Inr (the (objs h glob)), h)" using glob by (auto simp: load_obj_def not_None_eq)
  moreover have "in_logging (Logger_Get PRODUCT_NAME ''API'') h = (Inr logger, h1)" using L by (simp add: in_logging_def h1_def)
  ultimately show ?thesis
    using h2 by (intro exI [of _ logger] exI [of _ api] exI [of _ h2] exI [of _ ob]) (simp add: bindM_Inr intact_def h1_def)
qed

lemma APIBinding_new_run:
  assumes V: "virtual_table (vtable (Suc k) N F)" "virtual_table (vtable (Suc (Suc k)) N F)" and wf: "wf_heap h"
    and glob: "objs h glob \<noteq> None" and logging: "wf_logging PRODUCT_NAME (p_logging (proc h))"
  shows "\<exists>api h' ob. APIBinding_new (vtable (Suc (Suc k)) N F) glob h = (Inr api, h') \<and> wf_heap h' \<and> intact UNIV h h' \<and> objs h api = None
    \<and> api_object h' glob api ob"
proof -
  let ?V = "vtable (Suc (Suc k)) N F"
  let ?make = "bindM (load_obj glob) (\<lambda>_. bindM (in_logging (Logger_Get PRODUCT_NAME ''API'')) (\<lambda>logger.
      bindM (new_object (APIBinding_obj glob logger)) (\<lambda>this.
      bindM (virtual_methods ?V this (map (map_prod id (\<lambda>op. API_Method op this)) api_methods)) (\<lambda>_. retM this))))"
  obtain logger api h2 ob2 where h2: "?make h = (Inr api, h2)" "wf_heap h2" "intact UNIV h h2" "objs h api = None"
      and ob2: "objs h2 api = Some ob2" "cls ob2 = cls (APIBinding_obj glob logger)" "fst ` set (properties ob2) = fst ` set api_methods"
    using api_methods_run [OF V wf glob logging] by blast
  have acc: "accessor_class (cls ob2)" using ob2(2) by (simp add: APIBinding_obj_def)
  have sub: "fst ` set (properties ob2) \<subseteq> set api_names" "fst ` set api_constants \<subseteq> set api_names" using ob2(3) by (auto simp: api_names_def)
  obtain h3 ob3 where h3: "set_int_constants ?V api api_constants h2 = (Inr (), h3)" "wf_heap h3" "intact (- {api}) h2 h3" "objs h3 api = Some ob3"
      "cls ob3 = cls ob2" "fst ` set (properties ob3) \<subseteq> set api_names" "\<forall>p \<in> set api_constants. holds h3 ob3 (fst p) (AInt (snd p))"
    using set_int_constants_run [OF V h2(2) ob2(1) acc sub(1) api_fillable sub(2) api_names_ok(3)] by blast
  have acc3: "accessor_class (cls ob3)" using acc h3(5) by simp
  obtain h4 ob4 script where h4: "bindM (ScriptBinding_new ?V) (\<lambda>script.
      bindM (new_value (Value_NewObject (Some script))) (\<lambda>v. vSet ?V api ''Script'' v)) h3 = (Inr (), h4)"
      "wf_heap h4" "intact (- {api}) h3 h4" "objs h4 api = Some ob4" "cls ob4 = cls ob3" "fst ` set (properties ob4) \<subseteq> set api_names"
      "holds h4 ob4 ''Script'' (AObject script)" "objs h4 script \<noteq> None" "\<forall>m v. holds h3 ob3 m v \<and> m \<noteq> ''Script'' \<longrightarrow> holds h4 ob4 m v"
    using script_run [OF V h3(2,4) acc3 h3(6)] by blast
  have "APIBinding_new ?V glob = bindM ?make (\<lambda>this. bindM (set_int_constants ?V this api_constants) (\<lambda>_.
      bindM (bindM (ScriptBinding_new ?V) (\<lambda>script. bindM (new_value (Value_NewObject (Some script))) (\<lambda>v. vSet ?V this ''Script'' v))) (\<lambda>_.
        retM this)))"
    by (simp add: APIBinding_new_def)
  then have run: "APIBinding_new ?V glob h = (Inr api, h4)" using h3(1) h4(1) by (simp only: bindM_Inr [where m = ?make, OF h2(1)]) (simp only: bindM_Inr retM_def)
  have "intact (- {api}) h h4" using intact_trans [OF intact_mono [OF h2(3)] intact_trans [OF h3(3) h4(3)]] by simp
  moreover note h2(4)
  ultimately have "intact UNIV h h4" by (rule intact_fresh)
  moreover have "\<forall>p \<in> set api_constants. holds h4 ob4 (fst p) (AInt (snd p))"
    using h4(9) h3(7) api_names_ok(4) by (metis image_eqI set_map)
  then have "api_object h4 glob api ob4"
    using h4(4-8) h3(5) ob2(2) by (auto simp: api_object_def APIBinding_obj_def)
  ultimately show ?thesis using run h4(2) h2(4) by blast
qed

section \<open>Properties\<close>

lemma static_read:
  assumes "wf_heap h" and "objs h glob = Some ob" and "cls ob = CStaticBoundObject" and "holds h ob name v"
  shows "yields (vGet (vtable (Suc n) N F) glob name) h v"
proof -
  obtain x w where x: "pmap_find name (properties ob) = Some x" "cells h x = Some w" "denotes w = v" using assms(4) by (auto simp: holds_def)
  then have "x \<noteq> next_addr h" using wf_heap_fresh(1) [OF assms(1)] by auto
  then show ?thesis
    using x assms(2,3) static_Get_run [OF assms(2), of name] by (simp add: yields_def vtable_sel dispatch_Get_def load_obj_def bindM_def)
qed

lemma set_global_run:
  assumes "wf_heap h" and "objs h glob = Some gob" and "cls gob = CStaticBoundObject" and "objs h p \<noteq> None" and V: "virtual_table (vtable (Suc n) N F)"
  shows "\<exists>h' gob'. KObject_SetObject (vtable (Suc n) N F) glob name (Some p) h = (Inr (), h') \<and> wf_heap h' \<and> intact (- {glob}) h h'
    \<and> objs h' glob = Some gob' \<and> cls gob' = CStaticBoundObject \<and> holds h' gob' name (AObject p)"
proof -
  let ?x = "next_addr h" and ?h1 = "h\<lparr>cells := (cells h)(next_addr h \<mapsto> Value_NewObject (Some p)), next_addr := Suc (next_addr h)\<rparr>"
  have new: "new_value (Value_NewObject (Some p)) h = (Inr ?x, ?h1)" by (simp add: new_value_def)
  have wf1: "wf_heap ?h1" using sound_run(1) [OF sound_new_value [OF assms(1)] new] assms(4) by simp
  have i1: "intact UNIV h ?h1" using wf_heap_fresh(1) [OF assms(1)] by (auto simp: intact_def)
  have ok: "pmap_ok (properties gob)" using wf_heap_obj [OF assms(1,2)] by (simp add: wf_obj_def)
  from static_vSet_run [OF wf1 _ assms(3) _ V, of glob ?x name] assms(2) obtain h2 where h2:
      "vSet (vtable (Suc n) N F) glob name ?x ?h1 = (Inr (), h2)" "wf_heap h2" "intact (- {glob}) ?h1 h2"
      "objs h2 glob = Some (gob\<lparr>properties := pmap_insert name ?x (properties gob)\<rparr>)" by auto
  have "cells h2 ?x = Some (Value_NewObject (Some p))" using h2(3) by (simp add: intact_def)
  then have "holds h2 (gob\<lparr>properties := pmap_insert name ?x (properties gob)\<rparr>) name (AObject p)"
    using ok by (simp add: holds_def pmap_find_insert Value_NewObject_def)
  then show ?thesis
    using new h2 assms(3) intact_trans [OF intact_mono [OF i1] h2(3)] by (auto simp: KObject_SetObject_def bindM_def)
qed

lemma APIModule_Initialize_run:
  assumes "native_code N F" and "wf_heap h" and "objs h glob = Some gob" and "cls gob = CStaticBoundObject"
    and "wf_logging PRODUCT_NAME (p_logging (proc h))" and "cells h Undefined_addr = Some Value_NewUndefined"
    and V: "V = vtable (Suc (Suc k)) (kroll_natives lo up (api_natives E N)) F"
  shows "\<exists>api h' b h''. APIModule_Initialize V glob h = (Inr api, h') \<and> wf_heap h' \<and> yields (vGet V glob ''API'') h' (AObject api)
    \<and> api_at h' api b \<and> api_global b = glob \<and> \<not> installerMutex b
    \<and> (\<forall>p \<in> set api_constants. yields (vGet V api (fst p)) h' (AInt (snd p)))
    \<and> APIModule_Stop V glob h' = (Inr (), h'') \<and> yields (vGet V glob ''API'') h'' AUndefined"
proof -
  note T = api_table [OF assms(1), where lo = lo and up = up and E = E]
  have "objs h glob \<noteq> None" using assms(3) by simp
  from APIBinding_new_run [OF T T assms(2) this assms(5), of k, folded V]
  obtain api h1 ob where h1: "APIBinding_new V glob h = (Inr api, h1)" "wf_heap h1" "intact UNIV h h1" "objs h api = None" "api_object h1 glob api ob" by blast
  have glob1: "objs h1 glob = Some gob" using h1(3) assms(3) by (simp add: intact_def)
  have ne: "api \<noteq> glob" using h1(4) assms(3) by auto
  have at1: "objs h1 api = Some ob" using h1(5) by (simp add: api_object_def)
  then have "objs h1 api \<noteq> None" by simp
  from set_global_run [OF h1(2) glob1 assms(4) this T, of "Suc k" "''API''", folded V]
  obtain h2 gob2 where h2: "KObject_SetObject V glob ''API'' (Some api) h1 = (Inr (), h2)" "wf_heap h2" "intact (- {glob}) h1 h2"
      "objs h2 glob = Some gob2" "cls gob2 = CStaticBoundObject" "holds h2 gob2 ''API'' (AObject api)" by blast
  have at2: "objs h2 api = Some ob" using at1 ne h2(3) by (simp add: intact_def)
  obtain b where b: "cls ob = CAPIBinding b" "api_global b = glob" "\<not> installerMutex b" using h1(5) by (auto simp: api_object_def)
  have sub: "set (map fst (properties ob)) \<subseteq> set api_names" using h1(5) by (simp add: api_object_def)
  have "yields (vGet V api (fst p)) h2 (AInt (snd p))" if "p \<in> set api_constants" for p
  proof -
    have "holds h2 ob (fst p) (AInt (snd p))" using h1(5) that holds_intact [OF _ h2(3)] by (auto simp: api_object_def)
    then show ?thesis
      unfolding V using at2 b(1) sub that
      by (intro accessor_read_run [OF h2(2) at2] absent_subset [OF api_constants_plain(1)] absent_subset [OF api_constants_plain(2)]
          clean_subset [OF api_names_ok(1)]) auto
  qed
  moreover have "yields (vGet V glob ''API'') h2 (AObject api)" unfolding V using static_read [OF h2(2,4,5,6)] .
  moreover have "APIModule_Initialize V glob h = (Inr api, h2)" using h1(1) h2(1) by (simp add: APIModule_Initialize_def bindM_Inr retM_def)
  moreover have "\<exists>h3. APIModule_Stop V glob h2 = (Inr (), h3) \<and> yields (vGet V glob ''API'') h3 AUndefined"
  proof -
    obtain h3 where h3: "vSet V glob ''API'' Undefined_addr h2 = (Inr (), h3)" "wf_heap h3" "intact (- {glob}) h2 h3"
        "objs h3 glob = Some (gob2\<lparr>properties := pmap_insert ''API'' Undefined_addr (properties gob2)\<rparr>)"
      unfolding V using static_vSet_run [OF h2(2,4,5) wf_heap_Undefined [OF h2(2)] T] by blast
    have "cells h3 Undefined_addr = Some Value_NewUndefined" using assms(6) h1(3) h2(3) h3(3) by (simp add: intact_def)
    then have "holds h3 (gob2\<lparr>properties := pmap_insert ''API'' Undefined_addr (properties gob2)\<rparr>) ''API'' AUndefined"
      using wf_heap_obj [OF h2(2,4)] by (simp add: holds_def pmap_find_insert wf_obj_def Value_NewUndefined_def)
    then have "yields (vGet V glob ''API'') h3 AUndefined" unfolding V using static_read [OF h3(2,4)] h2(5) by simp
    then show ?thesis using h3(1) by (auto simp: APIModule_Stop_def)
  qed
  ultimately show ?thesis using h2(2) at2 b unfolding api_at_def by blast
qed

lemma string_constants_run:
  assumes "wf_heap h" and "objs h this = Some ob" and "cls ob = CStaticBoundObject" and "distinct (map fst ps)" and V: "virtual_table (vtable (Suc n) N F)"
  shows "\<exists>h' ob'. set_constants (vtable (Suc n) N F) this ps h = (Inr (), h') \<and> wf_heap h' \<and> intact (- {this}) h h' \<and> proc h' = proc h
    \<and> objs h' this = Some ob' \<and> cls ob' = CStaticBoundObject
    \<and> (\<forall>p \<in> set ps. holds h' ob' (fst p) (AString (c_str (snd p)))) \<and> (\<forall>m v. holds h ob m v \<and> m \<notin> fst ` set ps \<longrightarrow> holds h' ob' m v)"
  using assms(1-4)
proof (induction ps arbitrary: h ob)
  case Nil
  then show ?case by (auto simp: retM_def)
next
  case (Cons p ps)
  obtain x h1 where x: "new_string (snd p) h = (Inr x, h1)" by (simp add: new_string_def fresh_def new_value_def bindM_def)
  have wf1: "wf_heap h1" and cell: "cells h1 x \<noteq> None"
    using sound_run(1,3) [OF sound_new_string [OF Cons.prems(1)] x] by auto
  have x1: "\<exists>w. cells h1 x = Some w \<and> denotes w = AString (c_str (snd p))" and i1: "intact UNIV h h1" and o1: "objs h1 this = Some ob" "proc h1 = proc h"
    using x Cons.prems(2) Cons.prems(1) unfolding wf_heap_def
    by (auto simp: new_string_def fresh_def new_value_def bindM_def intact_def Value_NewString_def)
  obtain h2 where h2: "vSet (vtable (Suc n) N F) this (fst p) x h1 = (Inr (), h2)" "wf_heap h2" "intact (- {this}) h1 h2" "proc h2 = proc h1"
      "objs h2 this = Some (ob\<lparr>properties := pmap_insert (fst p) x (properties ob)\<rparr>)"
    using static_vSet_run [OF wf1 o1(1) Cons.prems(3) cell V] by blast
  let ?ob = "ob\<lparr>properties := pmap_insert (fst p) x (properties ob)\<rparr>"
  have ok: "pmap_ok (properties ob)" using wf_heap_obj [OF Cons.prems(1,2)] by (simp add: wf_obj_def)
  have i2: "intact (- {this}) h h2" using intact_trans [OF intact_mono [OF i1] h2(3)] by simp
  have keep: "holds h2 ?ob m v" if "holds h ob m v" "m \<noteq> fst p" for m v
    using holds_insert [OF ok holds_intact [OF that(1) i2] that(2)] .
  have here: "holds h2 ?ob (fst p) (AString (c_str (snd p)))" using x1 h2(3) ok by (auto simp: holds_def pmap_find_insert intact_def)
  obtain h' ob' where h': "set_constants (vtable (Suc n) N F) this ps h2 = (Inr (), h')" "wf_heap h'" "intact (- {this}) h2 h'" "proc h' = proc h2"
      "objs h' this = Some ob'" "cls ob' = CStaticBoundObject" "\<forall>p \<in> set ps. holds h' ob' (fst p) (AString (c_str (snd p)))"
      "\<forall>m v. holds h2 ?ob m v \<and> m \<notin> fst ` set ps \<longrightarrow> holds h' ob' m v"
    using Cons.IH [OF h2(2,5)] Cons.prems(3,4) by auto
  have "holds h' ob' (fst p) (AString (c_str (snd p)))" using here h'(8) Cons.prems(4) by auto
  then show ?case
    using x h2(1,4) h' o1(2) keep intact_trans [OF i2 h'(3)] by (intro exI [of _ h'] exI [of _ ob']) (auto simp: bindM_def)
qed

lemma event_constants_distinct: "distinct (map fst event_constants)"
  by code_simp

lemma SetupGlobalObject_run:
  assumes wf: "wf_heap h" and V: "virtual_table (vtable (Suc n) N F)"
  shows "\<exists>glob evals h' gob. Host_SetupGlobalObject (vtable (Suc n) N F) h = (Inr (glob, evals), h') \<and> wf_heap h' \<and> intact UNIV h h' \<and> proc h' = proc h
    \<and> objs h' glob = Some gob \<and> cls gob = CStaticBoundObject \<and> list_ok evals h' \<and> list_elems evals h' = []
    \<and> (\<forall>p \<in> set event_constants. holds h' gob (fst p) (AString (c_str (snd p))))"
proof -
  let ?ob = "StaticBoundObject_new []" and ?a = "next_addr h" and ?l = "StaticBoundList_new ''StaticBoundList''"
  let ?h1 = "h\<lparr>objs := (objs h)(next_addr h \<mapsto> ?ob), next_addr := Suc (next_addr h)\<rparr>"
  have new: "new_object ?ob h = (Inr ?a, ?h1)" by (simp add: new_object_def)
  have wf1: "wf_heap ?h1" using sound_run(1) [OF sound_new_object [OF wf binding_objects_wf(5)] new] .
  have ob: "objs ?h1 ?a = Some ?ob" "cls ?ob = CStaticBoundObject" by (simp_all add: StaticBoundObject_new_def)
  obtain h2 gob where h2: "set_constants (vtable (Suc n) N F) ?a event_constants ?h1 = (Inr (), h2)" "wf_heap h2" "intact (- {?a}) ?h1 h2" "proc h2 = proc ?h1"
      "objs h2 ?a = Some gob" "cls gob = CStaticBoundObject" "\<forall>p \<in> set event_constants. holds h2 gob (fst p) (AString (c_str (snd p)))"
    using string_constants_run [OF wf1 ob event_constants_distinct V] by blast
  have l: "wf_obj h2 ?l" by (simp add: wf_obj_def StaticBoundList_new_def pmap_ok_def)
  define e h3 where h3: "e = next_addr h2" "h3 = h2\<lparr>objs := (objs h2)(e \<mapsto> ?l), next_addr := Suc e\<rparr>"
  have new3: "new_object ?l h2 = (Inr e, h3)" by (simp add: new_object_def h3)
  have wf3: "wf_heap h3" using sound_run(1) [OF sound_new_object [OF h2(2) l] new3] .
  have fresh: "objs h2 e = None" using wf_heap_fresh(2) [OF h2(2)] by (simp add: h3)
  then have i3: "intact UNIV h2 h3" by (auto simp: intact_def h3)
  have "intact (- {?a}) h ?h1" using wf_heap_fresh(2) [OF wf] by (auto simp: intact_def)
  then have "intact (- {?a}) h h3" using intact_trans [OF intact_trans [OF _ h2(3)] intact_mono [OF i3]] by simp
  then have "intact UNIV h h3" using intact_fresh wf_heap_fresh(2) [OF wf] by blast
  moreover have "objs h3 ?a = Some gob" using h2(5) i3 by (simp add: intact_def)
  moreover have "list_ok e h3" "list_elems e h3 = []" by (simp_all add: h3 list_ok_def list_elems_def StaticBoundList_new_def pmap_ok_def)
  moreover have "\<forall>p \<in> set event_constants. holds h3 gob (fst p) (AString (c_str (snd p)))" using h2(7) holds_intact [OF _ i3] by blast
  moreover have "Host_SetupGlobalObject (vtable (Suc n) N F) h = (Inr (?a, e), h3)"
    using new h2(1) new3 by (simp add: Host_SetupGlobalObject_def Event_SetEventConstants_def Script_Initialize_def bindM_Inr retM_def)
  ultimately show ?thesis using wf3 h2(4,6) by (intro exI [of _ ?a] exI [of _ e] exI [of _ h3] exI [of _ gob]) (simp add: h3)
qed

text \<open>C7: 
  From the start of the host to a script's first use of the API.  On a store with an initialised logger, setting up
  the global object and starting the API module return.  The event constants read as their strings from the global
  object and no script evaluator is registered; then the name \<^verbatim>\<open>API\<close> of the global object gives the API object, which
  no installer has locked, and every constant of it reads as its number.  Stopping the module makes the name
  undefined again.
\<close>

theorem API_start_correct:
  assumes "native_code N F" and "wf_heap h" and "wf_logging PRODUCT_NAME (p_logging (proc h))" and "cells h Undefined_addr = Some Value_NewUndefined"
    and V: "V = vtable (Suc (Suc k)) (kroll_natives lo up (api_natives E N)) F"
  shows "\<exists>glob evals h0 api h1 b h2. Host_SetupGlobalObject V h = (Inr (glob, evals), h0)
    \<and> (\<forall>p \<in> set event_constants. yields (vGet V glob (fst p)) h0 (AString (c_str (snd p)))) \<and> list_elems evals h0 = []
    \<and> APIModule_Initialize V glob h0 = (Inr api, h1) \<and> wf_heap h1 \<and> yields (vGet V glob ''API'') h1 (AObject api)
    \<and> api_at h1 api b \<and> api_global b = glob \<and> \<not> installerMutex b
    \<and> (\<forall>p \<in> set api_constants. yields (vGet V api (fst p)) h1 (AInt (snd p)))
    \<and> APIModule_Stop V glob h1 = (Inr (), h2) \<and> yields (vGet V glob ''API'') h2 AUndefined"
proof -
  note T = api_table [OF assms(1), where lo = lo and up = up and E = E]
  obtain glob evals h0 gob where h0: "Host_SetupGlobalObject V h = (Inr (glob, evals), h0)" "wf_heap h0" "intact UNIV h h0" "proc h0 = proc h"
      "objs h0 glob = Some gob" "cls gob = CStaticBoundObject" "list_elems evals h0 = []"
      "\<forall>p \<in> set event_constants. holds h0 gob (fst p) (AString (c_str (snd p)))"
    unfolding V using SetupGlobalObject_run [OF assms(2) T] by blast
  have "wf_logging PRODUCT_NAME (p_logging (proc h0))" "cells h0 Undefined_addr = Some Value_NewUndefined"
    using assms(3,4) h0(3,4) by (simp_all add: intact_def)
  from APIModule_Initialize_run [OF assms(1) h0(2,5,6) this V] obtain api h1 b h2 where r:
      "APIModule_Initialize V glob h0 = (Inr api, h1)" "wf_heap h1" "yields (vGet V glob ''API'') h1 (AObject api)"
      "api_at h1 api b" "api_global b = glob" "\<not> installerMutex b" "\<forall>p \<in> set api_constants. yields (vGet V api (fst p)) h1 (AInt (snd p))"
      "APIModule_Stop V glob h1 = (Inr (), h2)" "yields (vGet V glob ''API'') h2 AUndefined" by blast
  have "\<forall>p \<in> set event_constants. yields (vGet V glob (fst p)) h0 (AString (c_str (snd p)))"
    unfolding V using static_read [OF h0(2,5,6)] h0(8) by blast
  with h0(1,7) r show ?thesis by blast
qed

definition demo_start_heap :: heap where
  "demo_start_heap = demo_heap\<lparr>proc := demo_process\<lparr>p_logging := demo_logging\<rparr>\<rparr>"

theorem API_start_correct_witness:
  "\<exists>glob evals h0 api h1.
     Host_SetupGlobalObject (vtable 2 (kroll_natives id id (api_natives demo_api_env no_natives)) no_fnptrs) demo_start_heap = (Inr (glob, evals), h0)
     \<and> yields (vGet (vtable 2 (kroll_natives id id (api_natives demo_api_env no_natives)) no_fnptrs) glob ''EXIT'') h0 (AString ''exit'')
     \<and> APIModule_Initialize (vtable 2 (kroll_natives id id (api_natives demo_api_env no_natives)) no_fnptrs) glob h0 = (Inr api, h1)
     \<and> yields (vGet (vtable 2 (kroll_natives id id (api_natives demo_api_env no_natives)) no_fnptrs) api ''WARN'') h1 (AInt 4)"
proof -
  let ?V = "vtable (Suc (Suc 0)) (kroll_natives id id (api_natives demo_api_env no_natives)) no_fnptrs"
  have wf: "wf_heap demo_start_heap" using wf_heap_proc [OF demo_heap_wf] by (simp add: demo_start_heap_def)
  have log: "wf_logging PRODUCT_NAME (p_logging (proc demo_start_heap))"
    using demo_logging_wf by (simp add: demo_start_heap_def PRODUCT_NAME_def)
  have cell: "cells demo_start_heap Undefined_addr = Some Value_NewUndefined"
    by (simp add: demo_start_heap_def demo_heap_def Undefined_addr_def Null_addr_def)
  from API_start_correct [OF idle.native_code_axioms wf log cell refl, of 0 id id demo_api_env] obtain glob evals h0 api h1 where r:
      "Host_SetupGlobalObject ?V demo_start_heap = (Inr (glob, evals), h0)"
      "\<forall>p \<in> set event_constants. yields (vGet ?V glob (fst p)) h0 (AString (c_str (snd p)))"
      "APIModule_Initialize ?V glob h0 = (Inr api, h1)" "\<forall>p \<in> set api_constants. yields (vGet ?V api (fst p)) h1 (AInt (snd p))"
    by blast
  have "(''WARN'', 4) \<in> set api_constants" "(''EXIT'', ''exit'') \<in> set event_constants" by (simp_all add: api_constants_def event_constants_def)
  then have "yields (vGet ?V api ''WARN'') h1 (AInt 4)" "yields (vGet ?V glob ''EXIT'') h0 (AString (c_str ''exit''))"
    using r(2,4) by (metis fst_conv snd_conv)+
  moreover have "c_str ''exit'' = ''exit''" by code_simp
  ultimately show ?thesis unfolding numeral_2_eq_2 using r(1,3) by auto
qed

end
