(* ===== verification/Kroll_Proxy.thy ===== *)
theory Kroll_Proxy
  imports Kroll_Classes
begin

text \<open>
  The choice of a proxy for a URL: \<^verbatim>\<open>src/api/net/proxy_config.cpp\<close>, which parses entries and matches the
  bypass list, and the platform parts \<^verbatim>\<open>proxy_config_linux.cpp\<close> and \<^verbatim>\<open>proxy_config_win32.cpp\<close>.

  \<^verbatim>\<open>Poco::URI\<close> and \<^verbatim>\<open>Poco::StringTokenizer\<close> are arguments, as are the answers of libproxy and of WinHTTP.
  A URI is a value of a type \<open>'u\<close> with the operations of the record \<^verbatim>\<open>uri_class\<close>; \<^verbatim>\<open>uri_laws\<close> states what Poco
  documents of them. \<^const>\<open>None\<close> is the result of an access outside of a string, of a number that is
  no \<^verbatim>\<open>int\<close>, or of an exception, as noted at each function.
\<close>

section \<open>URIs\<close>

record 'u uri_class =
  uri_new :: 'u
  uri_parse :: "string \<Rightarrow> 'u option"
  uri_toString :: "'u \<Rightarrow> string"
  getScheme :: "'u \<Rightarrow> string"
  getHost :: "'u \<Rightarrow> string"
  getPort :: "'u \<Rightarrow> 16 word"
  setScheme :: "string \<Rightarrow> 'u \<Rightarrow> 'u"
  setHost :: "string \<Rightarrow> 'u \<Rightarrow> 'u"
  setPort :: "16 word \<Rightarrow> 'u \<Rightarrow> 'u"
  wellKnownPort :: "string \<Rightarrow> 16 word"

text \<open>Setting a scheme converts it to lower case; the port of a URI without a port is the well-known
  one of its scheme.\<close>

definition uri_laws :: "'u uri_class \<Rightarrow> bool" where
  "uri_laws U \<longleftrightarrow> getScheme U (uri_new U) = [] \<and> getHost U (uri_new U) = []
     \<and> (\<forall>u s. getScheme U (setScheme U s u) = map tolower s \<and> getHost U (setScheme U s u) = getHost U u)
     \<and> (\<forall>u h. getHost U (setHost U h u) = h \<and> getScheme U (setHost U h u) = getScheme U u
          \<and> getPort U (setHost U h u) = getPort U u)
     \<and> (\<forall>u p. getPort U (setPort U p u) = (if p = 0 then wellKnownPort U (getScheme U u) else p)
          \<and> getScheme U (setPort U p u) = getScheme U u \<and> getHost U (setPort U p u) = getHost U u)"

record 'u Proxy =
  info :: 'u
  bypassList :: "'u option list"

section \<open>Matching the bypass list\<close>

text \<open>\<^verbatim>\<open>find\<close> returns \<^verbatim>\<open>npos\<close>, the largest \<^verbatim>\<open>size_t\<close>, and the difference of the sizes wraps.\<close>

definition size_or_npos :: "nat option \<Rightarrow> 64 word" where
  "size_or_npos r = (case r of Some i \<Rightarrow> of_nat i | None \<Rightarrow> - 1)"

definition EndsWith :: "string \<Rightarrow> string \<Rightarrow> bool" where
  "EndsWith haystack needle \<longleftrightarrow>
     size_or_npos (str_find haystack needle 0) = of_nat (length haystack) - of_nat (length needle)"

fun should_bypass :: "'u uri_class \<Rightarrow> 'u \<Rightarrow> 'u option list \<Rightarrow> bool" where
  "should_bypass U uri [] \<longleftrightarrow> False"
| "should_bypass U uri (None # es) \<longleftrightarrow> True"
| "should_bypass U uri (Some e # es) \<longleftrightarrow>
     (if getHost U e = ''<local>'' \<and> str_find (getHost U uri) ''.'' 0 = None then True
      else if EndsWith (getHost U uri) (getHost U e)
        \<and> (getScheme U e = [] \<or> getScheme U e = getScheme U uri)
        \<and> (getPort U e = 0 \<or> getPort U e = getPort U uri) then True
      else should_bypass U uri es)"

definition ShouldBypass :: "'u uri_class \<Rightarrow> 'u Proxy \<Rightarrow> 'u \<Rightarrow> bool" where
  "ShouldBypass U proxy uri = should_bypass U uri (bypassList proxy)"

section \<open>Entries\<close>

text \<open>\<^verbatim>\<open>while (scan > 0 && isdigit(entry[scan])) scan--\<close>\<close>

primrec scan_port :: "string \<Rightarrow> nat \<Rightarrow> nat" where
  "scan_port entry 0 = 0"
| "scan_port entry (Suc scan) = (if isdigit (entry ! Suc scan) then scan_port entry scan else Suc scan)"

text \<open>The parameter is a reference and is changed to the host. An entry without a character after the
  scheme is read outside of its bounds, and a port that is no \<^verbatim>\<open>int\<close> is undefined for \<^verbatim>\<open>atoi\<close>.\<close>

definition ProxyEntryToURI :: "'u uri_class \<Rightarrow> string \<Rightarrow> 'u option" where
  "ProxyEntryToURI U entry =
     (let (uri, rest) = (case str_find entry ''://'' 0 of
            Some endScheme \<Rightarrow> (setScheme U (take endScheme entry) (uri_new U), drop (endScheme + 3) entry)
          | None \<Rightarrow> (uri_new U, entry))
      in if rest = [] then None
         else let scan = scan_port rest (length rest - 1)
              in if rest ! scan = CHR '':'' \<and> scan \<noteq> length rest - 1
                 then (case atoi_digits (drop (scan + 1) rest) of
                         None \<Rightarrow> None
                       | Some port \<Rightarrow> Some (setHost U (take scan rest) (setPort U (ucast port) uri)))
                 else Some (setHost U rest (setPort U 0 uri)))"

section \<open>The proxy of a URL\<close>

record 'u overrides =
  httpProxyOverride :: "'u Proxy option"
  httpsProxyOverride :: "'u Proxy option"

definition SetHTTPProxyOverride :: "'u Proxy option \<Rightarrow> 'u overrides \<Rightarrow> 'u overrides" where
  "SetHTTPProxyOverride p st = st\<lparr>httpProxyOverride := p\<rparr>"

definition GetHTTPProxyOverride :: "'u overrides \<Rightarrow> 'u Proxy option" where
  "GetHTTPProxyOverride st = httpProxyOverride st"

definition SetHTTPSProxyOverride :: "'u Proxy option \<Rightarrow> 'u overrides \<Rightarrow> 'u overrides" where
  "SetHTTPSProxyOverride p st = st\<lparr>httpsProxyOverride := p\<rparr>"

definition GetHTTPSProxyOverride :: "'u overrides \<Rightarrow> 'u Proxy option" where
  "GetHTTPSProxyOverride st = httpsProxyOverride st"

text \<open>The outer \<^const>\<open>None\<close> is the syntax exception of a malformed URL.\<close>

definition GetProxyForURL ::
  "'u uri_class \<Rightarrow> ('u \<Rightarrow> 'u Proxy option option) \<Rightarrow> 'u overrides \<Rightarrow> string \<Rightarrow> 'u Proxy option option" where
  "GetProxyForURL U impl st url =
     (case uri_parse U url of
        None \<Rightarrow> None
      | Some uri \<Rightarrow>
          let scheme = getScheme U uri
          in if scheme = ''app'' \<or> scheme = ''ti'' \<or> scheme = ''file'' then Some None
             else if scheme = ''http'' \<and> httpProxyOverride st \<noteq> None then Some (httpProxyOverride st)
             else if scheme = ''https'' \<and> httpsProxyOverride st \<noteq> None then Some (httpsProxyOverride st)
             else impl uri)"

section \<open>Linux\<close>

definition new_proxy :: "'u \<Rightarrow> 'u Proxy" where
  "new_proxy uri = \<lparr>info = uri, bypassList = []\<rparr>"

text \<open>The loop over the answer of libproxy, with the candidate so far; a proxy that does not parse
  throws. The inner \<^const>\<open>None\<close> is the null pointer.\<close>

fun pick_proxy :: "'u uri_class \<Rightarrow> string \<Rightarrow> string list \<Rightarrow> 'u Proxy option \<Rightarrow> ('u Proxy option + 'u Proxy option) option" where
  "pick_proxy U scheme [] proxy = Some (Inr proxy)"
| "pick_proxy U scheme (p # ps) proxy =
     (case uri_parse U p of
        None \<Rightarrow> None
      | Some proxyURI \<Rightarrow>
          if getScheme U proxyURI = ''direct'' then Some (Inl None)
          else if getScheme U proxyURI = scheme then pick_proxy U scheme ps (Some (new_proxy proxyURI))
          else pick_proxy U scheme ps proxy)"

definition GetProxyForURLImpl :: "'u uri_class \<Rightarrow> (string \<Rightarrow> string list) \<Rightarrow> 'u \<Rightarrow> 'u Proxy option option" where
  "GetProxyForURLImpl U get_proxies uri =
     (let proxies = get_proxies (c_str (uri_toString U uri))
      in case pick_proxy U (getScheme U uri) proxies None of
           None \<Rightarrow> None
         | Some (Inl early) \<Rightarrow> Some early
         | Some (Inr (Some proxy)) \<Rightarrow> Some (Some proxy)
         | Some (Inr None) \<Rightarrow>
             (if proxies = [] then Some None
              else map_option (\<lambda>u. Some (new_proxy u)) (uri_parse U (hd proxies))))"

section \<open>Windows\<close>

text \<open>Wide strings are lists of 16 bit units; \<^verbatim>\<open>string(w.begin(), w.end())\<close> keeps the low byte of each.\<close>

type_synonym wstring = "16 word list"

definition narrow_string :: "wstring \<Rightarrow> string" where
  "narrow_string w = map (\<lambda>u. char_of (unat u mod 256)) w"

text \<open>The tokens of \<^verbatim>\<open>Poco::StringTokenizer\<close> with empty ones ignored and the others trimmed are an
  argument: \<open>tok s seps\<close>.  \<^verbatim>\<open>entry.at(0)\<close> throws on an empty token.\<close>

fun ParseBypassList :: "'u uri_class \<Rightarrow> string list \<Rightarrow> 'u option list \<Rightarrow> 'u option list option" where
  "ParseBypassList U [] bypassVector = Some bypassVector"
| "ParseBypassList U (entry # entries) bypassVector =
     (if entry = [] then None
      else if entry ! 0 = CHR ''*'' \<and> length entry = 1 then ParseBypassList U entries (bypassVector @ [None])
      else let entry' = (if entry ! 0 = CHR ''*'' \<and> length entry > 1 then drop 1 entry else entry)
           in case ProxyEntryToURI U entry' of
                None \<Rightarrow> None
              | Some e \<Rightarrow> ParseBypassList U entries (bypassVector @ [Some e]))"

text \<open>\<^verbatim>\<open>substr(0, schemeEnd - 1)\<close>: at position 0 the length wraps and the whole entry is taken.\<close>

definition entry_scheme :: "string \<Rightarrow> nat \<Rightarrow> string" where
  "entry_scheme entry schemeEnd = (if schemeEnd = 0 then entry else take (schemeEnd - 1) entry)"

fun parse_proxies :: "'u uri_class \<Rightarrow> string list \<Rightarrow> 'u Proxy list \<Rightarrow> 'u Proxy list option" where
  "parse_proxies U [] ieProxyList = Some ieProxyList"
| "parse_proxies U (entry # entries) ieProxyList =
     (let (scheme, entry') = (case str_find entry ''='' 0 of
            Some schemeEnd \<Rightarrow> (entry_scheme entry schemeEnd, drop (schemeEnd + 1) entry)
          | None \<Rightarrow> ([], entry))
      in case ProxyEntryToURI U entry' of
           None \<Rightarrow> None
         | Some uri \<Rightarrow> parse_proxies U entries (ieProxyList @ [new_proxy (setScheme U scheme uri)]))"

definition ParseProxyList ::
  "(string \<Rightarrow> string \<Rightarrow> string list) \<Rightarrow> 'u uri_class \<Rightarrow> string \<Rightarrow> string \<Rightarrow> 'u Proxy list \<Rightarrow> 'u Proxy list option" where
  "ParseProxyList tok U proxyList bypasses ieProxyList =
     (case parse_proxies U (tok proxyList ''; '') ieProxyList of
        None \<Rightarrow> None
      | Some [] \<Rightarrow> Some []
      | Some (proxy # ps) \<Rightarrow>
          if bypasses = [] then Some (proxy # ps)
          else map_option (\<lambda>bl. proxy\<lparr>bypassList := bl\<rparr> # ps)
                 (ParseBypassList U (tok bypasses '','') (bypassList proxy)))"

text \<open>The answer of \<^verbatim>\<open>WinHttpGetIEProxyConfigForCurrentUser\<close>, and the static variables. \<^verbatim>\<open>initialized\<close> is
  tested and never set.\<close>

record ie_config =
  fAutoDetect :: bool
  lpszAutoConfigUrl :: "wstring option"
  lpszProxy :: "wstring option"
  lpszProxyBypass :: "wstring option"

record 'u win32_config =
  useProxyAutoConfig :: bool
  autoConfigURL :: wstring
  ieProxies :: "'u Proxy list"
  initialized :: bool

definition InitializeWin32ProxyConfig ::
  "(string \<Rightarrow> string \<Rightarrow> string list) \<Rightarrow> 'u uri_class \<Rightarrow> ie_config option \<Rightarrow> bool \<Rightarrow> 'u win32_config \<Rightarrow> 'u win32_config option" where
  "InitializeWin32ProxyConfig tok U config handle st =
     (if initialized st then Some st
      else let st1 = (case config of
             Some c \<Rightarrow>
               let sa = (if fAutoDetect c then st\<lparr>useProxyAutoConfig := True\<rparr> else st);
                   sb = (case lpszAutoConfigUrl c of Some u \<Rightarrow> sa\<lparr>autoConfigURL := u\<rparr> | None \<Rightarrow> sa)
               in (case lpszProxy c of
                     None \<Rightarrow> Some sb
                   | Some p \<Rightarrow>
                       map_option (\<lambda>ps. sb\<lparr>ieProxies := ps\<rparr>)
                         (ParseProxyList tok U (narrow_string p)
                            (case lpszProxyBypass c of Some b \<Rightarrow> narrow_string b | None \<Rightarrow> []) (ieProxies sb)))
           | None \<Rightarrow> Some (st\<lparr>useProxyAutoConfig := True\<rparr>))
      in map_option (\<lambda>s. if (useProxyAutoConfig s \<or> autoConfigURL s \<noteq> []) \<and> \<not> handle
                         then s\<lparr>useProxyAutoConfig := False, autoConfigURL := []\<rparr> else s) st1)"

text \<open>The call of \<^verbatim>\<open>WinHttpGetProxyForUrl\<close>: its options, and its answer with the last error.\<close>

record autoproxy_options =
  ao_auto_detect :: bool
  ao_config_url :: "wstring option"
  ao_auto_logon :: bool

datatype access_type = NAMED_PROXY | NO_PROXY | OTHER_ACCESS

record autoproxy_answer =
  aa_ok :: bool
  aa_access :: access_type
  aa_proxy :: "wstring option"
  aa_bypass :: "wstring option"
  aa_error :: nat

text \<open>The numbers of the error macros are an argument. Up to \<^verbatim>\<open>ERROR_WINHTTP_INVALID_SERVER_RESPONSE\<close> the
  code is compared with a macro; the later tests are on the macro itself.\<close>

definition compared_errors :: "(string \<times> string) list" where
  "compared_errors =
     [(''ERROR_WINHTTP_AUTO_PROXY_SERVICE_ERROR'', ''ERROR_WINHTTP_AUTO_PROXY_SERVICE_ERROR''),
      (''ERROR_WINHTTP_AUTODETECTION_FAILED'', ''ERROR_WINHTTP_AUTODETECTION_FAILED''),
      (''ERROR_WINHTTP_BAD_AUTO_PROXY_SCRIPT'', ''ERROR_WINHTTP_BAD_AUTO_PROXY_SCRIPT''),
      (''ERROR_WINHTTP_CANNOT_CALL_AFTER_OPEN'', ''ERROR_WINHTTP_CANNOT_CALL_AFTER_OPEN''),
      (''ERROR_WINHTTP_CANNOT_CALL_AFTER_SEND'', ''ERROR_WINHTTP_CANNOT_CALL_AFTER_SEND''),
      (''ERROR_WINHTTP_CANNOT_CALL_BEFORE_OPEN'', ''ERROR_WINHTTP_CANNOT_CALL_BEFORE_OPEN''),
      (''ERROR_WINHTTP_CANNOT_CALL_BEFORE_SEND'', ''ERROR_WINHTTP_CANNOT_CALL_BEFORE_OPEN''),
      (''ERROR_WINHTTP_CANNOT_CONNECT'', ''ERROR_WINHTTP_CANNOT_CONNECT''),
      (''ERROR_WINHTTP_CLIENT_AUTH_CERT_NEEDED'', ''ERROR_WINHTTP_CLIENT_AUTH_CERT_NEEDED''),
      (''ERROR_WINHTTP_CHUNKED_ENCODING_HEADER_SIZE_OVERFLOW'', ''ERROR_WINHTTP_CHUNKED_ENCODING_HEADER_SIZE_OVERFLOW''),
      (''ERROR_WINHTTP_CLIENT_AUTH_CERT_NEEDED'', ''ERROR_WINHTTP_CLIENT_AUTH_CERT_NEEDED''),
      (''ERROR_WINHTTP_CONNECTION_ERROR'', ''ERROR_WINHTTP_CONNECTION_ERROR''),
      (''ERROR_WINHTTP_HEADER_ALREADY_EXISTS'', ''ERROR_WINHTTP_HEADER_ALREADY_EXISTS''),
      (''ERROR_WINHTTP_HEADER_COUNT_EXCEEDED'', ''ERROR_WINHTTP_HEADER_COUNT_EXCEEDED''),
      (''ERROR_WINHTTP_HEADER_NOT_FOUND'', ''ERROR_WINHTTP_HEADER_NOT_FOUND''),
      (''ERROR_WINHTTP_HEADER_SIZE_OVERFLOW'', ''ERROR_WINHTTP_HEADER_SIZE_OVERFLOW''),
      (''ERROR_WINHTTP_INCORRECT_HANDLE_STATE'', ''ERROR_WINHTTP_INCORRECT_HANDLE_STATE''),
      (''ERROR_WINHTTP_INCORRECT_HANDLE_TYPE'', ''ERROR_WINHTTP_INCORRECT_HANDLE_TYPE''),
      (''ERROR_WINHTTP_INTERNAL_ERROR'', ''ERROR_WINHTTP_INTERNAL_ERROR''),
      (''ERROR_WINHTTP_INVALID_OPTION'', ''ERROR_WINHTTP_INVALID_OPTION''),
      (''ERROR_WINHTTP_INVALID_QUERY_REQUEST'', ''ERROR_WINHTTP_INVALID_QUERY_REQUEST''),
      (''ERROR_WINHTTP_INVALID_SERVER_RESPONSE'', ''ERROR_WINHTTP_INVALID_SERVER_RESPONSE'')]"

definition truthy_errors :: "(string \<times> string) list" where
  "truthy_errors =
     [(''ERROR_WINHTTP_INVALID_URL'', ''ERROR_WINHTTP_INVALID_URL''),
      (''ERROR_WINHTTP_LOGIN_FAILURE'', ''ERROR_WINHTTP_LOGIN_FAILURE''),
      (''ERROR_WINHTTP_NAME_NOT_RESOLVED'', ''ERROR_WINHTTP_NAME_NOT_RESOLVED''),
      (''ERROR_WINHTTP_NOT_INITIALIZED'', ''ERROR_WINHTTP_NOT_INITIALIZED''),
      (''ERROR_WINHTTP_OPERATION_CANCELLED'', ''ERROR_WINHTTP_OPERATION_CANCELLED''),
      (''ERROR_WINHTTP_OPTION_NOT_SETTABLE'', ''ERROR_WINHTTP_OPTION_NOT_SETTABLE''),
      (''ERROR_WINHTTP_OUT_OF_HANDLES'', ''ERROR_WINHTTP_OUT_OF_HANDLES''),
      (''ERROR_WINHTTP_REDIRECT_FAILED'', ''ERROR_WINHTTP_REDIRECT_FAILED''),
      (''ERROR_WINHTTP_RESEND_REQUEST'', ''ERROR_WINHTTP_RESEND_REQUEST''),
      (''ERROR_WINHTTP_RESPONSE_DRAIN_OVERFLOW'', ''ERROR_WINHTTP_RESPONSE_DRAIN_OVERFLOW''),
      (''ERROR_WINHTTP_SECURE_CERT_CN_INVALID'', ''ERROR_WINHTTP_SECURE_CERT_CN_INVALID''),
      (''ERROR_WINHTTP_SECURE_CERT_DATE_INVALID'', ''ERROR_WINHTTP_SECURE_CERT_DATE_INVALID''),
      (''ERROR_WINHTTP_SECURE_CERT_REV_FAILED'', ''ERROR_WINHTTP_SECURE_CERT_REV_FAILED''),
      (''ERROR_WINHTTP_SECURE_CERT_REVOKED'', ''ERROR_WINHTTP_SECURE_CERT_REVOKED''),
      (''ERROR_WINHTTP_SECURE_CERT_WRONG_USAGE'', ''ERROR_WINHTTP_SECURE_CERT_WRONG_USAGE''),
      (''ERROR_WINHTTP_SECURE_CHANNEL_ERROR'', ''ERROR_WINHTTP_SECURE_CHANNEL_ERROR''),
      (''ERROR_WINHTTP_SECURE_FAILURE'', ''ERROR_WINHTTP_SECURE_FAILURE''),
      (''ERROR_WINHTTP_SECURE_INVALID_CA'', ''ERROR_WINHTTP_SECURE_INVALID_CA''),
      (''ERROR_WINHTTP_SECURE_INVALID_CERT'', ''ERROR_WINHTTP_SECURE_INVALID_CERT''),
      (''ERROR_WINHTTP_SHUTDOWN'', ''ERROR_WINHTTP_SHUTDOWN''),
      (''ERROR_WINHTTP_TIMEOUT'', ''ERROR_WINHTTP_TIMEOUT''),
      (''ERROR_WINHTTP_UNABLE_TO_DOWNLOAD_SCRIPT'', ''ERROR_WINHTTP_UNABLE_TO_DOWNLOAD_SCRIPT''),
      (''ERROR_WINHTTP_UNRECOGNIZED_SCHEME'', ''ERROR_WINHTTP_UNRECOGNIZED_SCHEME''),
      (''ERROR_NOT_ENOUGH_MEMORY'', ''ERROR_NOT_ENOUGH_MEMORY''),
      (''ERROR_INSUFFICIENT_BUFFER'', ''ERROR_INSUFFICIENT_BUFFER''),
      (''ERROR_INVALID_HANDLE'', ''ERROR_INVALID_HANDLE''),
      (''ERROR_NO_MORE_FILES'', ''ERROR_NO_MORE_FILES''),
      (''ERROR_NO_MORE_ITEMS'', ''ERROR_NO_MORE_ITEMS'')]"

definition ErrorCodeToString :: "(string \<Rightarrow> nat) \<Rightarrow> nat \<Rightarrow> string" where
  "ErrorCodeToString macro code =
     (case List.find (\<lambda>p. code = macro (fst p)) compared_errors of
        Some p \<Rightarrow> snd p
      | None \<Rightarrow> (case List.find (\<lambda>p. macro (fst p) \<noteq> 0) truthy_errors of
          Some p \<Rightarrow> snd p
        | None \<Rightarrow> ''UNKNOWN ERROR''))"

text \<open>The result is whether to go on with the other proxies, the proxies, and the logged error.\<close>

definition GetAutoProxiesForURL ::
  "(string \<Rightarrow> string \<Rightarrow> string list) \<Rightarrow> 'u uri_class \<Rightarrow> (string \<Rightarrow> nat) \<Rightarrow> (string \<Rightarrow> autoproxy_options \<Rightarrow> autoproxy_answer) \<Rightarrow>
   'u win32_config \<Rightarrow> string \<Rightarrow> (bool \<times> 'u Proxy list \<times> string list) option" where
  "GetAutoProxiesForURL tok U macro winhttp st url =
     (let options = \<lparr>ao_auto_detect = (autoConfigURL st = [] \<and> useProxyAutoConfig st),
            ao_config_url = (if autoConfigURL st \<noteq> [] then Some (autoConfigURL st) else None), ao_auto_logon = False\<rparr>;
          first = winhttp url options;
          answer = (if \<not> aa_ok first \<and> aa_error first = macro ''ERROR_WINHTTP_LOGIN_FAILURE''
                    then winhttp url (options\<lparr>ao_auto_logon := True\<rparr>) else first)
      in case (aa_ok answer, aa_access answer, aa_proxy answer) of
           (True, NAMED_PROXY, Some p) \<Rightarrow>
             map_option (\<lambda>ps. (True, ps, []))
               (ParseProxyList tok U (narrow_string p)
                  (case aa_bypass answer of Some b \<Rightarrow> narrow_string b | None \<Rightarrow> []) [])
         | (True, NO_PROXY, _) \<Rightarrow> Some (False, [], [])
         | _ \<Rightarrow> Some (True, [], [''Could not get proxy for url='' @ url @ '': '' @ ErrorCodeToString macro (aa_error answer)]))"

text \<open>\<^const>\<open>None\<close>: no proxy of the list was taken; an inner \<^const>\<open>None\<close> is the null pointer of a bypass.\<close>

fun first_proxy :: "'u uri_class \<Rightarrow> 'u \<Rightarrow> 'u Proxy list \<Rightarrow> 'u Proxy option option" where
  "first_proxy U uri [] = None"
| "first_proxy U uri (proxy # ps) =
     (if ShouldBypass U proxy uri then Some None
      else if getScheme U (info proxy) = [] \<or> getScheme U (info proxy) = getScheme U uri then Some (Some proxy)
      else first_proxy U uri ps)"

definition GetProxyForURLImpl_win32 ::
  "(string \<Rightarrow> string \<Rightarrow> string list) \<Rightarrow> 'u uri_class \<Rightarrow> (string \<Rightarrow> nat) \<Rightarrow> ie_config option \<Rightarrow> bool \<Rightarrow>
   (string \<Rightarrow> autoproxy_options \<Rightarrow> autoproxy_answer) \<Rightarrow> 'u win32_config \<Rightarrow> 'u \<Rightarrow> ('u Proxy option \<times> 'u win32_config) option" where
  "GetProxyForURLImpl_win32 tok U macro config handle winhttp st uri =
     (case InitializeWin32ProxyConfig tok U config handle st of
        None \<Rightarrow> None
      | Some st' \<Rightarrow>
          let ie = (case first_proxy U uri (ieProxies st') of Some r \<Rightarrow> r | None \<Rightarrow> None)
          in if useProxyAutoConfig st' \<or> autoConfigURL st' \<noteq> [] then
               (case GetAutoProxiesForURL tok U macro winhttp st' (uri_toString U uri) of
                  None \<Rightarrow> None
                | Some (shouldUseIEProxy, autoProxies, _) \<Rightarrow>
                    (case first_proxy U uri autoProxies of
                       Some r \<Rightarrow> Some (r, st')
                     | None \<Rightarrow> if \<not> shouldUseIEProxy then Some (None, st') else Some (ie, st')))
             else Some (ie, st'))"

section \<open>Laws\<close>

text \<open>What the comparison of hosts does: the entry is a suffix of the host and occurs nowhere before, or
  it is longer than the host by one character.\<close>

definition host_matches :: "string \<Rightarrow> string \<Rightarrow> bool" where
  "host_matches host entry \<longleftrightarrow>
     (\<exists>pre. host = pre @ entry \<and> (\<forall>i < length pre. \<not> matches_at host entry i)) \<or> length entry = Suc (length host)"

lemma matches_at_suffix: "matches_at s t (length s - length t) \<and> length t \<le> length s \<longleftrightarrow> (\<exists>pre. s = pre @ t)"
proof
  assume "matches_at s t (length s - length t) \<and> length t \<le> length s"
  then have "drop (length s - length t) s = t" by (auto simp: matches_at_def)
  then show "\<exists>pre. s = pre @ t" by (metis append_take_drop_id)
qed (auto simp: matches_at_def)

lemma size_word_eq: "a < 2 ^ 63 \<Longrightarrow> b < 2 ^ 63 \<Longrightarrow> (of_nat a :: 64 word) = of_nat b \<longleftrightarrow> a = b"
  by (simp add: word_unat_eq_iff unat_of_nat)

lemma npos_eq_diff:
  assumes "a < 2 ^ 63" and "b < 2 ^ 63"
  shows "(- 1 :: 64 word) = of_nat a - of_nat b \<longleftrightarrow> b = Suc a"
proof -
  have "(- 1 :: 64 word) = of_nat a - of_nat b \<longleftrightarrow> of_nat b = (of_nat (Suc a) :: 64 word)" by (auto simp: algebra_simps)
  then show ?thesis using assms by (auto simp: word_unat_eq_iff unat_of_nat simp del: of_nat_Suc)
qed

lemma EndsWith_iff:
  assumes "length host < 2 ^ 63" and "length entry < 2 ^ 63"
  shows "EndsWith host entry \<longleftrightarrow> host_matches host entry"
proof (cases "str_find host entry 0")
  case None
  then have "\<not> (\<exists>pre. host = pre @ entry)" using matches_at_suffix [of host entry] by (auto simp: str_find_None_iff)
  then show ?thesis using None npos_eq_diff [OF assms] by (auto simp: EndsWith_def size_or_npos_def host_matches_def)
next
  case (Some i)
  then have i: "matches_at host entry i" "\<forall>j < i. \<not> matches_at host entry j" "i + length entry \<le> length host"
    by (auto simp: str_find_Some_iff matches_at_def)
  have "EndsWith host entry \<longleftrightarrow> (of_nat i :: 64 word) = of_nat (length host - length entry)"
    using i(3) by (simp add: EndsWith_def Some size_or_npos_def of_nat_diff)
  also have "\<dots> \<longleftrightarrow> i = length host - length entry" using i(3) assms(1) by (intro size_word_eq) auto
  also have "\<dots> \<longleftrightarrow> host_matches host entry"
  proof
    assume eq: "i = length host - length entry"
    then obtain pre where "host = pre @ entry" using i matches_at_suffix [of host entry] by auto
    then show "host_matches host entry" using i(2) eq by (auto simp: host_matches_def)
  next
    assume "host_matches host entry"
    then obtain pre where pre: "host = pre @ entry" "\<forall>j < length pre. \<not> matches_at host entry j"
      using i(3) by (auto simp: host_matches_def)
    then have "matches_at host entry (length pre)" by (simp add: matches_at_def)
    then show "i = length host - length entry" using i pre by (metis diff_add_inverse2 length_append linorder_neqE_nat)
  qed
  finally show ?thesis .
qed

text \<open>When an entry of the bypass list applies to a URI.\<close>

definition entry_applies :: "'u uri_class \<Rightarrow> 'u \<Rightarrow> 'u \<Rightarrow> bool" where
  "entry_applies U uri e \<longleftrightarrow> (getHost U e = ''<local>'' \<and> CHR ''.'' \<notin> set (getHost U uri))
     \<or> (host_matches (getHost U uri) (getHost U e)
        \<and> (getScheme U e = [] \<or> getScheme U e = getScheme U uri) \<and> (getPort U e = 0 \<or> getPort U e = getPort U uri))"

lemma no_period: "str_find s ''.'' 0 = None \<longleftrightarrow> CHR ''.'' \<notin> set s"
  by (auto simp: str_find_None_iff matches_at_char in_set_conv_nth)

lemma should_bypass_iff:
  assumes "length (getHost U uri) < 2 ^ 63" and "\<forall>e. Some e \<in> set es \<longrightarrow> length (getHost U e) < 2 ^ 63"
  shows "should_bypass U uri es \<longleftrightarrow> None \<in> set es \<or> (\<exists>e. Some e \<in> set es \<and> entry_applies U uri e)"
  using assms
proof (induction U uri es rule: should_bypass.induct)
  case (3 U uri e es)
  then have "EndsWith (getHost U uri) (getHost U e) \<longleftrightarrow> host_matches (getHost U uri) (getHost U e)"
    by (intro EndsWith_iff) auto
  then show ?case using 3 by (auto simp: entry_applies_def no_period)
qed auto

text \<open>Parsing an entry.\<close>

lemma scan_port_digits:
  assumes "k < length e" and "\<forall>j. k < j \<and> j \<le> n \<longrightarrow> isdigit (e ! j)" and "\<not> isdigit (e ! k)" and "k \<le> n" "n < length e"
  shows "scan_port e n = k"
  using assms(2,4,5)
proof (induction n)
  case (Suc n)
  show ?case
  proof (cases "k = Suc n")
    case True
    then show ?thesis using assms(3) by simp
  next
    case False
    then show ?thesis using Suc by simp
  qed
qed simp

lemma find_scheme:
  assumes "CHR '':'' \<notin> set s"
  shows "str_find (s @ ''://'' @ r) ''://'' 0 = Some (length s)"
proof -
  have "\<not> matches_at (s @ ''://'' @ r) ''://'' j" if "j < length s" for j
  proof
    assume "matches_at (s @ ''://'' @ r) ''://'' j"
    then have "take (length ''://'') (drop j (s @ ''://'' @ r)) ! 0 = ''://'' ! 0" unfolding matches_at_def by metis
    then have "s ! j = CHR '':''" using that by (simp add: nth_append)
    then show False using assms that nth_mem by metis
  qed
  then show ?thesis by (auto simp: str_find_Some_iff matches_at_def)
qed

lemma not_isdigit_colon [simp]: "\<not> isdigit (CHR '':'')"
  by (simp add: isdigit_def)

lemma scan_port_colon: "scan_port (h @ '':'' @ dec_of_nat p) (length (h @ '':'' @ dec_of_nat p) - 1) = length h"
proof (rule scan_port_digits)
  have "isdigit (dec_of_nat p ! i)" if "i < length (dec_of_nat p)" for i
    using dec_of_nat_digits [of p] that by (simp add: list_all_length)
  then show "\<forall>j. length h < j \<and> j \<le> length (h @ '':'' @ dec_of_nat p) - 1 \<longrightarrow> isdigit ((h @ '':'' @ dec_of_nat p) ! j)"
    by (auto simp: nth_append nth_Cons split: nat.split)
qed auto

lemma scan_port_none: "r \<noteq> [] \<Longrightarrow> \<not> isdigit (last r) \<Longrightarrow> scan_port r (length r - 1) = length r - 1"
  by (rule scan_port_digits) (auto simp: last_conv_nth)

lemma dec_of_nat_nonempty [simp]: "dec_of_nat p \<noteq> []"
  by (subst dec_of_nat.simps) simp

lemma ucast_port: "p < 2 ^ 16 \<Longrightarrow> (ucast (of_nat p :: 32 word) :: 16 word) = of_nat p"
  by (simp add: unsigned_ucast_eq word_unat_eq_iff unat_of_nat take_bit_nat_eq_self)

text \<open>A scheme of the Windows list: \<open>s=entry\<close> is stored under \<open>s\<close> without its last character.\<close>

lemma find_equals: "CHR ''='' \<notin> set s \<Longrightarrow> str_find (s @ ''='' @ e) ''='' 0 = Some (length s)"
  by (auto simp: str_find_Some_iff matches_at_char nth_append) (metis nth_mem)

lemma parse_proxies_scheme:
  assumes "CHR ''='' \<notin> set s" and "s \<noteq> []" and "ProxyEntryToURI U e = Some u"
  shows "parse_proxies U ((s @ ''='' @ e) # es) ps = parse_proxies U es (ps @ [new_proxy (setScheme U (butlast s) u)])"
  using assms find_equals [OF assms(1), of e] by (simp add: entry_scheme_def butlast_conv_take)

lemma parse_proxies_append:
  "parse_proxies U es (qs @ ps) = map_option ((@) qs) (parse_proxies U es ps)"
  by (induction U es ps arbitrary: qs rule: parse_proxies.induct)
    (auto simp: Let_def split: prod.split option.split)

text \<open>As \<^verbatim>\<open>initialized\<close> is never set, every call parses the settings again and appends the same proxies.\<close>

lemma Initialize_appends_again:
  assumes "\<not> initialized st" and "lpszProxy c = Some p" and "lpszProxyBypass c = None"
    and "parse_proxies U (tok (narrow_string p) ''; '') [] = Some ps"
  shows "\<exists>st'. InitializeWin32ProxyConfig tok U (Some c) handle st = Some st'
    \<and> ieProxies st' = ieProxies st @ ps \<and> \<not> initialized st'"
proof -
  have "ParseProxyList tok U (narrow_string p) [] qs = Some (qs @ ps)" for qs
    using assms(4) parse_proxies_append [of U "tok (narrow_string p) ''; ''" qs "[]"]
    by (simp add: ParseProxyList_def split: list.split)
  then show ?thesis
    using assms(1-3) by (simp add: InitializeWin32ProxyConfig_def Let_def split: option.split)
qed

lemma pick_proxy_eq:
  assumes "list_all2 (\<lambda>p u. uri_parse U p = Some u) ps us"
  shows "pick_proxy U scheme ps acc =
    (if \<exists>u \<in> set us. getScheme U u = ''direct'' then Some (Inl None)
     else Some (Inr (case rev (filter (\<lambda>u. getScheme U u = scheme) us) of u # _ \<Rightarrow> Some (new_proxy u) | [] \<Rightarrow> acc)))"
  using assms
proof (induction ps us arbitrary: acc rule: list_all2_induct)
  case (Cons p ps u us)
  then show ?case by (auto split: list.split)
qed simp

lemma ProxyEntry_port:
  assumes "uri_laws U" and s: "CHR '':'' \<notin> set s" and p: "0 < p" "p < 2 ^ 16"
  shows "\<exists>u. ProxyEntryToURI U (s @ ''://'' @ h @ '':'' @ dec_of_nat p) = Some u
    \<and> getScheme U u = map tolower s \<and> getHost U u = h \<and> getPort U u = of_nat p"
proof -
  have "atoi_digits (dec_of_nat p) = Some (of_nat p)" using p(2) by (simp add: atoi_digits_def)
  moreover have "(of_nat p :: 16 word) \<noteq> 0" using p by (simp add: word_unat_eq_iff unat_of_nat)
  ultimately show ?thesis
    using find_scheme [OF s, of "h @ '':'' @ dec_of_nat p"] scan_port_colon [of h p] ucast_port [OF p(2)] assms(1)
    by (simp add: ProxyEntryToURI_def uri_laws_def nth_append)
qed

lemma ProxyEntry_no_port:
  assumes "uri_laws U" and s: "CHR '':'' \<notin> set s" and h: "h \<noteq> []" "\<not> isdigit (last h)"
  shows "\<exists>u. ProxyEntryToURI U (s @ ''://'' @ h) = Some u
    \<and> getScheme U u = map tolower s \<and> getHost U u = h \<and> getPort U u = wellKnownPort U (map tolower s)"
  using find_scheme [OF s, of h] scan_port_none [OF h] h(1) assms(1) by (simp add: ProxyEntryToURI_def uri_laws_def Let_def)

section \<open>Properties\<close>

text \<open>C34: 
  A proxy is bypassed for a URI if and only if its list has the unconditional entry, or an entry that
  applies: \<^verbatim>\<open><local>\<close> for hosts without a period, or a host that the comparison accepts together with an
  empty or equal scheme and port. The comparison accepts a suffix that occurs once, and any entry
  that is longer than the host by one character.
\<close>

theorem ShouldBypass_correct:
  assumes "length (getHost U uri) < 2 ^ 63" and "\<forall>e. Some e \<in> set (bypassList proxy) \<longrightarrow> length (getHost U e) < 2 ^ 63"
  shows "ShouldBypass U proxy uri \<longleftrightarrow>
    None \<in> set (bypassList proxy) \<or> (\<exists>e. Some e \<in> set (bypassList proxy) \<and> entry_applies U uri e)"
  unfolding ShouldBypass_def by (rule should_bypass_iff [OF assms])

text \<open>A URI as its three parts.\<close>

type_synonym uri3 = "string \<times> string \<times> 16 word"

definition known_port :: "string \<Rightarrow> 16 word" where
  "known_port s = (if s = ''http'' then 80 else if s = ''https'' then 443 else 0)"

definition demo_uri :: "uri3 uri_class" where
  "demo_uri = \<lparr>uri_new = ([], [], 0), uri_parse = (\<lambda>s. Some (''http'', s, 0)), uri_toString = (\<lambda>(s, h, p). s @ ''://'' @ h),
     getScheme = fst, getHost = (\<lambda>u. fst (snd u)),
     getPort = (\<lambda>(s, h, p). if p = 0 then known_port s else p),
     setScheme = (\<lambda>s (_, h, p). (map tolower s, h, p)), setHost = (\<lambda>h (s, _, p). (s, h, p)),
     setPort = (\<lambda>p (s, h, _). (s, h, p)), wellKnownPort = known_port\<rparr>"

lemma demo_uri_laws: "uri_laws demo_uri"
  by (auto simp: uri_laws_def demo_uri_def)

theorem ShouldBypass_correct_witness:
  "ShouldBypass demo_uri \<lparr>info = ([], [], 0), bypassList = [Some ([], ''intranet'', 0)]\<rparr> (''http'', ''bank.eu'', 80)"
proof -
  have "entry_applies demo_uri (''http'', ''bank.eu'', 80) ([], ''intranet'', 0)"
    by (simp add: entry_applies_def host_matches_def demo_uri_def known_port_def)
  then show ?thesis
    by (subst ShouldBypass_correct) (auto simp: demo_uri_def)
qed

text \<open>
  An entry \<open>scheme://host:port\<close> of a proxy or bypass list is parsed into its parts, the scheme in lower
  case; an entry without a port that does not end in a digit keeps its whole rest as the host and gets
  the well-known port of the scheme.
\<close>

theorem ProxyEntryToURI_correct:
  assumes "uri_laws U" and "CHR '':'' \<notin> set s"
  shows "(0 < p \<and> p < 2 ^ 16 \<longrightarrow> (\<exists>u. ProxyEntryToURI U (s @ ''://'' @ h @ '':'' @ dec_of_nat p) = Some u
      \<and> getScheme U u = map tolower s \<and> getHost U u = h \<and> getPort U u = of_nat p))
    \<and> (h \<noteq> [] \<and> \<not> isdigit (last h) \<longrightarrow> (\<exists>u. ProxyEntryToURI U (s @ ''://'' @ h) = Some u
      \<and> getScheme U u = map tolower s \<and> getHost U u = h \<and> getPort U u = wellKnownPort U (map tolower s)))"
  using ProxyEntry_port [OF assms] ProxyEntry_no_port [OF assms] by blast

theorem ProxyEntryToURI_correct_witness:
  "(\<exists>u. ProxyEntryToURI demo_uri ''HTTP://proxy.eu:81'' = Some u \<and> getScheme demo_uri u = ''http''
      \<and> getHost demo_uri u = ''proxy.eu'' \<and> getPort demo_uri u = 81)
   \<and> (\<exists>u. ProxyEntryToURI demo_uri ''HTTP://proxy.eu'' = Some u \<and> getPort demo_uri u = 80)"
proof -
  have "dec_of_nat 81 = ''81''" "map tolower ''HTTP'' = ''http''" "\<not> isdigit (CHR ''u'')" by code_simp+
  moreover have "wellKnownPort demo_uri ''http'' = 80" by (simp add: demo_uri_def known_port_def)
  ultimately show ?thesis
    using ProxyEntryToURI_correct [OF demo_uri_laws, of "''HTTP''" 81 "''proxy.eu''"] by auto
qed

text \<open>
  On Linux, if every proxy that libproxy names parses, the result is no proxy when one of them is the
  direct connection, else the last one with the scheme of the URI, else the first one named, and no
  proxy when none is named.
\<close>

theorem GetProxyForURLImpl_correct:
  assumes "list_all2 (\<lambda>p u. uri_parse U p = Some u) (get_proxies (c_str (uri_toString U uri))) us"
  shows "GetProxyForURLImpl U get_proxies uri = Some
    (if \<exists>u \<in> set us. getScheme U u = ''direct'' then None
     else case rev (filter (\<lambda>u. getScheme U u = getScheme U uri) us) of
            u # _ \<Rightarrow> Some (new_proxy u)
          | [] \<Rightarrow> (case us of [] \<Rightarrow> None | u # _ \<Rightarrow> Some (new_proxy u)))"
proof -
  define ps where "ps = get_proxies (c_str (uri_toString U uri))"
  have ps: "list_all2 (\<lambda>p u. uri_parse U p = Some u) ps us" using assms by (simp add: ps_def)
  have "GetProxyForURLImpl U get_proxies uri = (case pick_proxy U (getScheme U uri) ps None of
      None \<Rightarrow> None | Some (Inl early) \<Rightarrow> Some early | Some (Inr (Some proxy)) \<Rightarrow> Some (Some proxy)
    | Some (Inr None) \<Rightarrow> (if ps = [] then Some None else map_option (\<lambda>u. Some (new_proxy u)) (uri_parse U (hd ps))))"
    unfolding GetProxyForURLImpl_def ps_def [symmetric] Let_def by (rule refl)
  with pick_proxy_eq [OF ps, of "getScheme U uri" None] ps show ?thesis
    by (cases us) (auto simp: list_all2_Cons2 split: list.split)
qed

theorem GetProxyForURLImpl_correct_witness:
  "GetProxyForURLImpl demo_uri (\<lambda>_. [''a'', ''b'']) (''http'', ''x'', 80) = Some (Some (new_proxy (''http'', ''b'', 0)))"
  by (subst GetProxyForURLImpl_correct [where us = "[(''http'', ''a'', 0), (''http'', ''b'', 0)]"]) (simp_all add: demo_uri_def)

text \<open>
  On Windows a proxy that the settings give for one scheme is stored under that scheme without its
  last letter: the proxy for \<^verbatim>\<open>https\<close> is used for \<^verbatim>\<open>http\<close>, and not for \<^verbatim>\<open>https\<close>.
\<close>

theorem ParseProxyList_wrong_scheme:
  assumes "uri_laws U" and "tok proxyList ''; '' = [''https='' @ e]" and "ProxyEntryToURI U e = Some u"
  shows "\<exists>p. ParseProxyList tok U proxyList [] [] = Some [p] \<and> getScheme U (info p) = ''http''
    \<and> (\<forall>uri. getScheme U uri = ''http'' \<longrightarrow> first_proxy U uri [p] = Some (Some p))
    \<and> (\<forall>uri. getScheme U uri = ''https'' \<longrightarrow> first_proxy U uri [p] = None)"
proof -
  have low: "map tolower ''http'' = ''http''" by code_simp
  have "ParseProxyList tok U proxyList [] [] = Some [new_proxy (setScheme U ''http'' u)]"
    using parse_proxies_scheme [of "''https''" U e u "[]" "[]"] assms(2,3) by (simp add: ParseProxyList_def del: parse_proxies.simps(2))
  moreover have "getScheme U (setScheme U ''http'' u) = ''http''" using assms(1) low unfolding uri_laws_def by metis
  ultimately show ?thesis by (simp add: new_proxy_def ShouldBypass_def)
qed

theorem ParseProxyList_wrong_scheme_witness:
  "\<exists>p. ParseProxyList (\<lambda>s _. [s]) demo_uri ''https=proxy'' [] [] = Some [p] \<and> getScheme demo_uri (info p) = ''http''"
proof -
  have "ProxyEntryToURI demo_uri ''proxy'' = Some ([], ''proxy'', 0)" by code_simp
  then show ?thesis
    using ParseProxyList_wrong_scheme [OF demo_uri_laws, of "\<lambda>s _. [s]" "''https=proxy''" "''proxy''"] by auto
qed

end
