(* ===== verification/Kroll_Boot.thy ===== *)
theory Kroll_Boot
  imports Kroll_Host Kroll_System
begin

text \<open>
  The boot program, \<^verbatim>\<open>src/boot/boot.cpp\<close> and \<^verbatim>\<open>src/boot/boot_linux.cpp\<close>: finding the application and its
  update, resolving and installing what it needs, the restart of the program in a prepared environment,
  and the start of the host in the restarted process. The variables of the program extend the world of
  \<^verbatim>\<open>Kroll_System\<close>; GTK, the dynamic linker, \<^verbatim>\<open>execv\<close>, the host and the crash reporter are the record
  \<^verbatim>\<open>launcher\<close>. A null \<^verbatim>\<open>SharedPtr\<close> of this program throws the string \<^verbatim>\<open>Null pointer\<close> when it is used.
\<close>

declare not_None_eq [iff]

section \<open>State\<close>

record kboot = world +
  b_applicationHome :: string
  b_updateFile :: string
  b_app :: "Application option"
  b_argv :: "string list"
  b_dialogs :: "(string \<times> string) list"
  b_dumpFilePath :: string

type_synonym 'a bootM = "('a, unit kboot_ext) sysM"

text \<open>\<^verbatim>\<open>gtk_init\<close> takes its own options out of the arguments and ends the process without a display;
  \<^verbatim>\<open>execv\<close> and \<^verbatim>\<open>dlopen\<close> give the text of their error, or \<^const>\<open>None\<close> when they succeed.\<close>

record launcher =
  gtk_init :: "string list \<Rightarrow> string list option"
  realpath :: "os \<Rightarrow> string \<Rightarrow> string option"
  execv_error :: "os \<Rightarrow> string \<Rightarrow> string option"
  dlopen_error :: "os \<Rightarrow> string \<Rightarrow> string option"
  has_execute :: "string \<Rightarrow> bool"
  host_execute :: "string list \<Rightarrow> string list \<Rightarrow> os \<Rightarrow> int"
  use_breakpad :: bool
  report_url :: string
  report_accepted :: bool
  report_upload :: "string \<Rightarrow> (string \<rightharpoonup> string) \<Rightarrow> string \<Rightarrow> string option"

definition BOOTSTRAP_ENV :: string where "BOOTSTRAP_ENV = ''KR_BOOTSTRAPPED''"
definition CRASH_REPORT_OPT :: string where "CRASH_REPORT_OPT = ''--crash_report''"
definition MODULE_SEPARATOR :: string where "MODULE_SEPARATOR = '':''"

definition theApp :: "Application bootM" where
  "theApp = bindW (getsW b_app) (\<lambda>app. case app of
      None \<Rightarrow> stopW (Throws ''Null pointer'')
    | Some app \<Rightarrow> returnW app)"

definition setApp :: "Application \<Rightarrow> unit bootM" where
  "setApp app = modifyW (\<lambda>b. b\<lparr>b_app := Some app\<rparr>)"

section \<open>Platform\<close>

definition GetApplicationName :: "string bootM" where
  "GetApplicationName = getsW (\<lambda>b. case b_app b of Some app \<Rightarrow> c_str (app_name app) | None \<Rightarrow> PRODUCT_NAME)"

definition ShowError :: "launcher \<Rightarrow> string \<Rightarrow> bool \<Rightarrow> unit bootM" where
  "ShowError l error fatal =
     bindW (modifyW (\<lambda>b. b\<lparr>w_output := w_output b @ [error]\<rparr>)) (\<lambda>_.
     bindW (getsW b_argv) (\<lambda>argv.
     case gtk_init l argv of
       None \<Rightarrow> stopW (ExitsWith 1)
     | Some argv' \<Rightarrow>
         bindW (modifyW (\<lambda>b. b\<lparr>b_argv := argv'\<rparr>)) (\<lambda>_.
         bindW GetApplicationName (\<lambda>title.
         bindW (modifyW (\<lambda>b. b\<lparr>b_dialogs := b_dialogs b @ [(title, c_str error)]\<rparr>)) (\<lambda>_.
         if fatal then stopW (ExitsWith 1) else returnW ())))))"

text \<open>The string is made of the result of \<^verbatim>\<open>realpath\<close> before it is tested for null.\<close>

definition GetApplicationHomePath :: "machine \<Rightarrow> launcher \<Rightarrow> string bootM" where
  "GetApplicationHomePath m l =
     bindW (getsW (\<lambda>b. (b_argv b, w_fs b))) (\<lambda>(argv, fs).
     case argv of
       [] \<Rightarrow> stopW Undefined
     | prog # _ \<Rightarrow>
         (case realpath l fs prog of
            None \<Rightarrow> stopW Undefined
          | Some realPath \<Rightarrow>
              if IsFile fs realPath then returnW (posix_dirname realPath)
              else liftW (GetExecutableDirectory m)))"

definition BootstrapPlatformSpecific :: "string \<Rightarrow> unit bootM" where
  "BootstrapPlatformSpecific moduleList =
     bindW theApp (\<lambda>app.
     case app_runtime app of
       None \<Rightarrow> stopW (Throws ''Null pointer'')
     | Some r \<Rightarrow>
         bindW (Environment_Get ''LD_LIBRARY_PATH'') (\<lambda>current.
         Environment_Set ''LD_LIBRARY_PATH''
           (comp_path (snd r) @ '':'' @ moduleList @ (if current \<noteq> [] then '':'' @ current else []))))"

text \<open>The copy of the arguments that the function makes is not the one it passes on.\<close>

definition Blastoff :: "launcher \<Rightarrow> string bootM" where
  "Blastoff l b =
     (case b_argv b of
        [] \<Rightarrow> Inl Undefined
      | prog # _ \<Rightarrow>
          (case execv_error l (w_fs b) prog of
             None \<Rightarrow> Inl (Execs prog (b_argv b) (w_environ b) (w_fs b))
           | Some e \<Rightarrow> Inr (e, b)))"

definition StartHost :: "launcher \<Rightarrow> int bootM" where
  "StartHost l =
     bindW (getsW (\<lambda>b. getenv (w_environ b) ''KR_RUNTIME'')) (\<lambda>runtimePath.
     case runtimePath of
       None \<Rightarrow> returnW 92
     | Some runtimePath \<Rightarrow>
         bindW (liftW (Join [runtimePath, ''libkhost.so''])) (\<lambda>khost.
         bindW (getsW w_fs) (\<lambda>fs.
         if \<not> IsFile fs khost
         then bindW (ShowError l (''Couldn't find required file:'' @ khost) False) (\<lambda>_. returnW 100)
         else
           case dlopen_error l fs (c_str khost) of
             Some e \<Rightarrow>
               bindW (ShowError l (''Couldn't load file:'' @ khost @ '', error: '' @ e) False) (\<lambda>_. returnW 108)
           | None \<Rightarrow>
               if \<not> has_execute l (c_str khost)
               then bindW (ShowError l (''Invalid entry point for'' @ khost) False) (\<lambda>_. returnW 116)
               else getsW (\<lambda>b. host_execute l (b_argv b) (w_environ b) (w_fs b)))))"

text \<open>\<^verbatim>\<open>forceInstall\<close> is not passed on.\<close>

definition RunInstaller :: "machine \<Rightarrow> launcher \<Rightarrow> Dependency list \<Rightarrow> bool \<Rightarrow> bool bootM" where
  "RunInstaller m l missing forceInstall =
     bindW theApp (\<lambda>app.
     bindW (liftW (Join [app_path app, ''installer'', ''installer''])) (\<lambda>exec.
     bindW (getsW (\<lambda>b. (IsFile (w_fs b) exec, b_updateFile b))) (\<lambda>(found, updateFile).
     if \<not> found
     then bindW (ShowError l ''Missing installer and application has additional modules that are needed.'' False)
            (\<lambda>_. returnW False)
     else
       bindW (BootUtils_RunInstaller m missing app updateFile []) (\<lambda>(ok, app').
       bindW (setApp app') (\<lambda>_. returnW ok)))))"

section \<open>Bootstrap\<close>

definition FindUpdate :: "machine \<Rightarrow> unit bootM" where
  "FindUpdate m =
     bindW theApp (\<lambda>app.
     bindW (GetApplicationDataDirectory m (app_id app)) (\<lambda>dir.
     bindW (liftW (Join [dir, UPDATE_FILENAME])) (\<lambda>file.
     bindW (getsW w_fs) (\<lambda>fs.
     if \<not> IsFile fs file then returnW ()
     else
       bindW (liftW (NewApplication fs file (app_path app))) (\<lambda>update.
       case update of
         None \<Rightarrow> returnW ()
       | Some update \<Rightarrow>
           modifyW (\<lambda>b. b\<lparr>b_app := Some (SetArguments_argv (b_argv b) update), b_updateFile := file\<rparr>))))))"

definition FilterForSDKInstall :: "Dependency list \<Rightarrow> Dependency list" where
  "FilterForSDKInstall dependencies =
     (let justSDKs = filter (\<lambda>d. dep_type d = SDK \<or> dep_type d = MOBILESDK) dependencies
      in if length justSDKs > 0 then justSDKs else dependencies)"

text \<open>The search paths are asked for only when installed components are scanned.\<close>

definition resolve_application :: "machine \<Rightarrow> Dependency list bootM" where
  "resolve_application m =
     bindW theApp (\<lambda>app.
     bindW (if HasArgument app OVERRIDE_ARG then returnW [] else GetComponentSearchPaths m) (\<lambda>paths.
     bindW (getsW w_fs) (\<lambda>fs.
     bindW (liftW (ResolveDependencies fs paths app)) (\<lambda>(app', missing).
     bindW (setApp app') (\<lambda>_. returnW missing)))))"

definition application_installed :: "machine \<Rightarrow> bool bootM" where
  "application_installed m = bindW theApp (IsInstalled m)"

definition report_resolved :: "Dependency list \<Rightarrow> unit bootM" where
  "report_resolved missing =
     bindW theApp (\<lambda>app.
     if HasArgument app ''debug''
     then modifyW (\<lambda>b. b\<lparr>w_output := w_output b
        @ map (\<lambda>c. ''Resolved: ('' @ comp_name (snd c) @ '' '' @ comp_version (snd c) @ '') '' @ comp_path (snd c))
            (GetResolvedComponents app)
        @ map (\<lambda>d. ''Unresolved: '' @ dep_name d @ '' '' @ dep_version d) missing\<rparr>)
     else returnW ())"

definition module_list :: "Application \<Rightarrow> string" where
  "module_list app = concat (map (\<lambda>c. comp_path (snd c) @ MODULE_SEPARATOR) (app_modules app))"

text \<open>The last part of \<^verbatim>\<open>Bootstrap\<close>, from the list of modules on.\<close>

definition launch :: "launcher \<Rightarrow> int bootM" where
  "launch l =
     bindW theApp (\<lambda>app.
     bindW (Environment_Set BOOTSTRAP_ENV ''YES'') (\<lambda>_.
     bindW (Environment_Set ''KR_HOME'' (app_path app)) (\<lambda>_.
     bindW (case app_runtime app of
              None \<Rightarrow> stopW (Throws ''Null pointer'')
            | Some r \<Rightarrow> Environment_Set ''KR_RUNTIME'' (comp_path (snd r))) (\<lambda>_.
     bindW (Environment_Set ''KR_MODULES'' (module_list app)) (\<lambda>_.
     bindW (BootstrapPlatformSpecific (module_list app)) (\<lambda>_.
     bindW (Blastoff l) (\<lambda>error.
     bindW (ShowError l (''Launching application failed: '' @ error) False) (\<lambda>_.
     returnW 152))))))))"

text \<open>The middle part: installing what is missing. \<^const>\<open>None\<close> is the early return.\<close>

definition install_missing :: "machine \<Rightarrow> launcher \<Rightarrow> Dependency list \<Rightarrow> Dependency list option bootM" where
  "install_missing m l missing =
     bindW theApp (\<lambda>app.
     let forceInstall = HasArgument app ''--force-install''
     in bindW (if forceInstall \<or> missing \<noteq> [] then returnW True
               else bindW (application_installed m) (\<lambda>installed.
                    if \<not> installed then returnW True
                    else getsW (\<lambda>b. b_updateFile b \<noteq> []))) (\<lambda>needed.
        if \<not> needed then returnW (Some missing)
        else
          bindW (RunInstaller m l (FilterForSDKInstall missing) forceInstall) (\<lambda>ok.
          if \<not> ok then returnW None
          else bindW (resolve_application m) (\<lambda>missing. returnW (Some missing)))))"

text \<open>\<^verbatim>\<open>Bootstrap\<close> from the first resolution on.\<close>

definition resolve_and_launch :: "machine \<Rightarrow> launcher \<Rightarrow> int bootM" where
  "resolve_and_launch m l =
     bindW (resolve_application m) (\<lambda>missing.
     bindW (report_resolved missing) (\<lambda>_.
     bindW (install_missing m l missing) (\<lambda>still.
     case still of
       None \<Rightarrow> returnW 117
     | Some missing \<Rightarrow>
         bindW (if missing \<noteq> [] then returnW True
                else bindW (application_installed m) (\<lambda>i. returnW (\<not> i))) (\<lambda>stop.
         if stop then returnW 129 else launch l))))"

text \<open>The first part of \<^verbatim>\<open>Bootstrap\<close>: the application and its update. A code is that of an early return.\<close>

definition load_application :: "machine \<Rightarrow> launcher \<Rightarrow> int option bootM" where
  "load_application m l =
     bindW (GetApplicationHomePath m l) (\<lambda>home.
     bindW (modifyW (\<lambda>b. b\<lparr>b_applicationHome := home\<rparr>)) (\<lambda>_.
     bindW (liftW (Join [home, MANIFEST_FILENAME])) (\<lambda>manifestPath.
     bindW (getsW w_fs) (\<lambda>fs.
     if \<not> IsFile fs manifestPath
     then bindW (ShowError l ''Application packaging error: no manifest was found.'' False) (\<lambda>_. returnW (Some 75))
     else
     bindW (liftW (NewApplicationAt fs home)) (\<lambda>app.
     bindW (modifyW (\<lambda>b. b\<lparr>b_app := app\<rparr>)) (\<lambda>_.
     case app of
       None \<Rightarrow>
         bindW (ShowError l ''Application packaging error: could not read manifest.'' False) (\<lambda>_. returnW (Some 82))
     | Some app \<Rightarrow>
         bindW (modifyW (\<lambda>b. b\<lparr>b_app := Some (SetArguments_argv (b_argv b) app)\<rparr>)) (\<lambda>_.
         bindW (FindUpdate m) (\<lambda>_. returnW None))))))))"

definition Bootstrap :: "machine \<Rightarrow> launcher \<Rightarrow> int bootM" where
  "Bootstrap m l =
     bindW (load_application m l) (\<lambda>early.
     case early of Some code \<Rightarrow> returnW code | None \<Rightarrow> resolve_and_launch m l)"

section \<open>Crash reports\<close>

definition GetCrashDetectionTitle :: "string bootM" where
  "GetCrashDetectionTitle = bindW GetApplicationName (\<lambda>n. returnW (n @ '' encountered an error''))"

definition GetCrashDetectionHeader :: "string bootM" where
  "GetCrashDetectionHeader =
     bindW GetApplicationName (\<lambda>n.
     returnW (n @ '' appears to have encountered a fatal error and cannot continue.''))"

definition GetCrashDetectionMessage :: string where
  "GetCrashDetectionMessage =
     ''The application has collected information about the error''
     @ '' in the form of a detailed error report. If you send the crash report,''
     @ '' we will attempt to resolve this problem.''"

definition InitCrashDetection :: "machine \<Rightarrow> launcher \<Rightarrow> unit bootM" where
  "InitCrashDetection m l =
     bindW (GetApplicationHomePath m l) (\<lambda>home.
     bindW (modifyW (\<lambda>b. b\<lparr>b_applicationHome := home\<rparr>)) (\<lambda>_.
     bindW (liftW (Join [home, MANIFEST_FILENAME])) (\<lambda>manifestPath.
     bindW (getsW w_fs) (\<lambda>fs.
     if IsFile fs manifestPath
     then bindW (liftW (NewApplicationAt fs home)) (\<lambda>app. modifyW (\<lambda>b. b\<lparr>b_app := app\<rparr>))
     else returnW ()))))"

definition report_type :: "KComponentType \<Rightarrow> string" where
  "report_type t = (case t of
      MODULE \<Rightarrow> ''module'' | RUNTIME \<Rightarrow> ''runtime'' | SDK \<Rightarrow> ''sdk'' | MOBILESDK \<Rightarrow> ''mobilesdk'' | _ \<Rightarrow> ''unknown'')"

definition component_parameters :: "(string \<rightharpoonup> string) \<Rightarrow> KComponent \<Rightarrow> (string \<rightharpoonup> string)" where
  "component_parameters params c =
     (let key = report_type (comp_type c) @ ''_'' @ comp_name c
      in params(key @ ''_version'' \<mapsto> comp_version c, key @ ''_path'' \<mapsto> comp_path c,
                key @ ''_bundled'' \<mapsto> (if comp_bundled c then ''1'' else ''0'')))"

definition application_parameters :: "machine \<Rightarrow> launcher \<Rightarrow> (string \<rightharpoonup> string) \<Rightarrow> Application \<Rightarrow> (string \<rightharpoonup> string) bootM" where
  "application_parameters m l params app =
     bindW (GetApplicationHomePath m l) (\<lambda>home.
     bindW (if HasArgument app OVERRIDE_ARG then returnW [] else GetComponentSearchPaths m) (\<lambda>paths.
     bindW (getsW w_fs) (\<lambda>fs.
     bindW (liftW (GetAvailableComponents fs paths app [] False)) (\<lambda>components.
     returnW (foldl component_parameters
       (params(''app_name'' \<mapsto> app_name app, ''app_id'' \<mapsto> app_id app, ''app_ver'' \<mapsto> app_version app,
               ''app_guid'' \<mapsto> app_guid app, ''app_home'' \<mapsto> home)) components)))))"

definition GetCrashReportParameters :: "machine \<Rightarrow> launcher \<Rightarrow> (string \<rightharpoonup> string) bootM" where
  "GetCrashReportParameters m l =
     bindW (getsW (\<lambda>b. (b_argv b, b_app b))) (\<lambda>(argv, app).
     if \<not> 3 < length argv then returnW Map.empty
     else
       bindW (liftW (Join [argv ! 2, argv ! 3 @ ''.dmp''])) (\<lambda>dumpFile.
       bindW (modifyW (\<lambda>b. b\<lparr>b_dumpFilePath := dumpFile\<rparr>)) (\<lambda>_.
       bindW (GetMachineId m) (\<lambda>mid.
       bindW (liftW (GetFirstMACAddress m)) (\<lambda>mac.
       bindW (GetUsername m) (\<lambda>user.
       let params = [''location'' \<mapsto> ''desktop'', ''mid'' \<mapsto> mid, ''mac'' \<mapsto> mac, ''os'' \<mapsto> OS_NAME,
             ''ostype'' \<mapsto> build_os_type m, ''osver'' \<mapsto> sys_release m, ''osarch'' \<mapsto> sys_machine m,
             ''ver'' \<mapsto> build_version m, ''un'' \<mapsto> user]
       in case app of
            None \<Rightarrow> returnW params
          | Some app \<Rightarrow> application_parameters m l params app))))))"

text \<open>The command that a crashing process starts, cut to the size of its buffer.\<close>

definition crash_command :: "string \<Rightarrow> string \<Rightarrow> string \<Rightarrow> string" where
  "crash_command prog dump_path ident =
     take 4094 ([CHR 0x22] @ prog @ [CHR 0x22] @ '' '' @ CRASH_REPORT_OPT @ '' '' @ [CHR 0x22] @ dump_path
                @ [CHR 0x22] @ '' '' @ ident @ ''&'')"

definition HandleCrash :: "machine \<Rightarrow> string \<Rightarrow> string \<Rightarrow> bool \<Rightarrow> bool bootM" where
  "HandleCrash m dump_path ident succeeded =
     (if succeeded
      then bindW (getsW b_argv) (\<lambda>argv.
           case argv of
             [] \<Rightarrow> stopW Undefined
           | prog # _ \<Rightarrow>
               bindW (modifyW (\<lambda>b. b\<lparr>w_fs := snd (sys_system m (w_fs b) (crash_command prog dump_path ident)),
                        w_commands := w_commands b @ [crash_command prog dump_path ident]\<rparr>)) (\<lambda>_.
               returnW True))
      else returnW True)"

definition SendCrashReport :: "machine \<Rightarrow> launcher \<Rightarrow> int bootM" where
  "SendCrashReport m l =
     bindW (getsW b_argv) (\<lambda>argv.
     case gtk_init l argv of
       None \<Rightarrow> stopW (ExitsWith 1)
     | Some argv' \<Rightarrow>
         bindW (modifyW (\<lambda>b. b\<lparr>b_argv := argv'\<rparr>)) (\<lambda>_.
         bindW (InitCrashDetection m l) (\<lambda>_.
         bindW GetCrashDetectionTitle (\<lambda>title.
         bindW GetCrashDetectionHeader (\<lambda>header.
         bindW (GetCrashReportParameters m l) (\<lambda>parameters.
         bindW (modifyW (\<lambda>b. b\<lparr>b_dialogs := b_dialogs b
                  @ [(title, header @ [CHR 0x0A, CHR 0x0A] @ GetCrashDetectionMessage)]\<rparr>)) (\<lambda>_.
         if \<not> report_accepted l then returnW 195
         else
           bindW (getsW b_dumpFilePath) (\<lambda>dumpFile.
           case report_upload l (''https://'' @ report_url l) parameters dumpFile of
             None \<Rightarrow> returnW 0
           | Some e \<Rightarrow>
               bindW (ShowError l (''Error uploading crash dump: '' @ e) False) (\<lambda>_. returnW 210)))))))))"

section \<open>The program\<close>

definition boot_main :: "machine \<Rightarrow> launcher \<Rightarrow> string list \<Rightarrow> int bootM" where
  "boot_main m l argv =
     bindW (modifyW (\<lambda>b. b\<lparr>b_argv := argv\<rparr>)) (\<lambda>_.
     if use_breakpad l \<and> 2 < length argv \<and> argv ! 1 = CRASH_REPORT_OPT then SendCrashReport m l
     else
       bindW (Environment_Has BOOTSTRAP_ENV) (\<lambda>has.
       if \<not> has then Bootstrap m l
       else bindW (Environment_Unset BOOTSTRAP_ENV) (\<lambda>_. StartHost l)))"

text \<open>A new process: the variables of the program have their initial values.\<close>

definition new_process :: "string list \<Rightarrow> os \<Rightarrow> kboot" where
  "new_process environ fs =
     \<lparr>w_environ = environ, w_fs = fs, w_draws = 0, w_searchPaths = [], w_commands = [], w_output = [],
      b_applicationHome = [], b_updateFile = [], b_app = None, b_argv = [], b_dialogs = [],
      b_dumpFilePath = []\<rparr>"

section \<open>Computations that do not replace the process\<close>

definition no_exec :: "('a, 'z) sysM \<Rightarrow> bool" where
  "no_exec f \<longleftrightarrow> (\<forall>w p a e fs. f w \<noteq> Inl (Execs p a e fs))"

named_theorems no_exec_intros

lemma no_exec_basic [no_exec_intros]:
  "no_exec (returnW x)" "no_exec (getsW f)" "no_exec (modifyW g)" "no_exec (liftW r)"
  "no_exec (stopW Undefined)" "no_exec (stopW (Throws s))" "no_exec (stopW (ExitsWith c))"
  by (simp_all add: no_exec_def sysM_defs split: option.split)

lemma no_exec_bindW [no_exec_intros]: "no_exec f \<Longrightarrow> (\<And>x. no_exec (g x)) \<Longrightarrow> no_exec (bindW f g)"
  by (auto simp: no_exec_def bindW_def split: sum.split)

lemma bindW_Execs_iff:
  "no_exec f \<Longrightarrow> bindW f g w = Inl (Execs p a e fs) \<longleftrightarrow> (\<exists>x w'. f w = Inr (x, w') \<and> g x w' = Inl (Execs p a e fs))"
  by (auto simp: no_exec_def bindW_def split: sum.splits)

lemma no_exec_environment [no_exec_intros]:
  "no_exec (Environment_Has name)" "no_exec (Environment_Get name)" "no_exec (Environment_Unset name)"
  "no_exec (Environment_Set name v)"
  by (simp_all add: Environment_Has_def Environment_Get_def Environment_Unset_def no_exec_basic)
    (simp add: no_exec_def Environment_Set_def split: option.split)

lemma no_exec_GetApplicationDataDirectory [no_exec_intros]: "no_exec (GetApplicationDataDirectory m i)"
  by (auto simp: GetApplicationDataDirectory_def no_exec_def bindW_def liftW_def returnW_def stopW_def
      split: option.splits)

lemma no_exec_machine_id [no_exec_intros]: "no_exec (GetMachineId m)"
proof -
  have uuid: "no_exec (\<lambda>w. case GenerateUUID (sys_random m (w_draws w)) of
      None \<Rightarrow> Inl (Throws s) | Some uuid \<Rightarrow> Inr (uuid, w\<lparr>w_draws := w_draws w + 1\<rparr>))" for s
    by (simp add: no_exec_def split: option.split)
  have old: "no_exec (GetOldMachineId m n)" for n
    by (auto simp: GetOldMachineId_def intro!: no_exec_intros split: option.split)
  have "no_exec (CreateMachineId m n)" for n
    unfolding CreateMachineId_def Let_def by (intro no_exec_intros uuid old)
  then show ?thesis by (auto simp: GetMachineId_def intro!: no_exec_intros)
qed

lemma no_exec_GetComponentSearchPaths [no_exec_intros]: "no_exec (GetComponentSearchPaths m)"
  by (auto simp: GetComponentSearchPaths_def Let_def intro!: no_exec_intros)

lemma no_exec_RunInstaller_utils [no_exec_intros]: "no_exec (BootUtils_RunInstaller m ds app u p)"
proof -
  have run: "no_exec (RunAndWait m path args)" for path args
    by (simp add: no_exec_def RunAndWait_def Let_def split: prod.split)
  have url: "no_exec (URLForDependency m app d)" for app d
    by (auto simp: URLForDependency_def intro!: no_exec_intros)
  have "no_exec (dependency_urls m app ds)" for app
    by (induction ds arbitrary: app) (auto intro!: no_exec_intros url)
  then show ?thesis by (auto simp: BootUtils_RunInstaller_def intro!: no_exec_intros run)
qed

lemma no_exec_boot [no_exec_intros]:
  "no_exec theApp" "no_exec (setApp app)" "no_exec GetApplicationName"
  by (auto simp: theApp_def setApp_def GetApplicationName_def intro!: no_exec_intros split: option.split)

lemma no_exec_ShowError [no_exec_intros]: "no_exec (ShowError l error fatal)"
  by (auto simp: ShowError_def intro!: no_exec_intros split: option.split)

lemma no_exec_GetApplicationHomePath [no_exec_intros]: "no_exec (GetApplicationHomePath m l)"
  by (auto simp: GetApplicationHomePath_def intro!: no_exec_intros split: option.split list.split)

lemma no_exec_steps [no_exec_intros]:
  "no_exec (BootstrapPlatformSpecific ml)" "no_exec (StartHost l)" "no_exec (RunInstaller m l ds force)"
  "no_exec (FindUpdate m)" "no_exec (resolve_application m)" "no_exec (report_resolved ds)"
  by (auto simp: BootstrapPlatformSpecific_def StartHost_def RunInstaller_def FindUpdate_def
      resolve_application_def report_resolved_def intro!: no_exec_intros split: option.split)

lemma no_exec_load [no_exec_intros]: "no_exec (load_application m l)"
  by (auto simp: load_application_def intro!: no_exec_intros split: option.split)

lemma no_exec_installed [no_exec_intros]: "no_exec (application_installed m)" "no_exec (install_missing m l ds)"
  by (auto simp: application_installed_def IsInstalled_def GetDataPath_def install_missing_def Let_def
      intro!: no_exec_intros)

lemma no_exec_crash_report: "no_exec (SendCrashReport m l)"
proof -
  have user: "no_exec (GetUsername m)" by (auto simp: GetUsername_def intro!: no_exec_intros split: option.split)
  have init: "no_exec (InitCrashDetection m l)" by (auto simp: InitCrashDetection_def intro!: no_exec_intros)
  have params: "no_exec (GetCrashReportParameters m l)"
    by (auto simp: GetCrashReportParameters_def application_parameters_def Let_def
        intro!: no_exec_intros user split: option.split)
  show ?thesis
    by (auto simp: SendCrashReport_def GetCrashDetectionTitle_def GetCrashDetectionHeader_def
        intro!: no_exec_intros init params split: option.split)
qed

section \<open>Lemmas on the launch\<close>

lemma boot_names:
  "env_name BOOTSTRAP_ENV" "env_name ''KR_HOME''" "env_name ''KR_RUNTIME''" "env_name ''KR_MODULES''"
  "env_name ''LD_LIBRARY_PATH''"
  by (simp_all add: env_name_def BOOTSTRAP_ENV_def)

lemma c_str_names [simp]:
  "c_str BOOTSTRAP_ENV = BOOTSTRAP_ENV" "c_str ''KR_HOME'' = ''KR_HOME''" "c_str ''KR_RUNTIME'' = ''KR_RUNTIME''"
  "c_str ''KR_MODULES'' = ''KR_MODULES''" "c_str ''LD_LIBRARY_PATH'' = ''LD_LIBRARY_PATH''" "c_str ''YES'' = ''YES''"
  by (simp_all add: BOOTSTRAP_ENV_def)

lemma Environment_Set_run:
  "env_name (c_str name) \<Longrightarrow>
     Environment_Set name v w = Inr ((), w\<lparr>w_environ := env_replace (c_str name) (c_str v) (w_environ w)\<rparr>)"
  by (simp add: Environment_Set_def setenv_def)

text \<open>What \<^verbatim>\<open>Bootstrap\<close> puts into the environment, in this order.\<close>

definition launch_environment :: "Application \<Rightarrow> KComponent \<Rightarrow> string \<Rightarrow> (string \<times> string) list" where
  "launch_environment app r library_path =
     [(BOOTSTRAP_ENV, ''YES''), (''KR_HOME'', c_str (app_path app)), (''KR_RUNTIME'', c_str (comp_path r)),
      (''KR_MODULES'', c_str (module_list app)), (''LD_LIBRARY_PATH'', library_path)]"

lemma launch_environment_get:
  assumes "(k, v) \<in> set (launch_environment app r lib)"
  shows "getenv (foldl (\<lambda>e (j, v). env_replace j v e) env (launch_environment app r lib)) k = Some v"
  by (rule environ.get_put_all [OF _ _ assms])
    (simp_all add: launch_environment_def boot_names, simp add: BOOTSTRAP_ENV_def)

lemma theApp_run: "theApp b = (case b_app b of None \<Rightarrow> Inl (Throws ''Null pointer'') | Some app \<Rightarrow> Inr (app, b))"
  by (simp add: theApp_def sysM_defs split: option.split)

lemma launch_without_runtime:
  "b_app b = Some app \<Longrightarrow> app_runtime app = None \<Longrightarrow> launch l b = Inl (Throws ''Null pointer'')"
  by (simp add: launch_def bindW_def theApp_run Environment_Set_run boot_names stopW_def)

lemma Blastoff_Execs:
  assumes "bindW (Blastoff l) (\<lambda>error. bindW (ShowError l (s @ error) False) (\<lambda>_. returnW c)) b
    = Inl (Execs prog args env fs)"
  shows "Blastoff l b = Inl (Execs prog args env fs)"
proof (cases "Blastoff l b")
  case (Inl e)
  with assms show ?thesis by (simp add: bindW_def)
next
  case (Inr r)
  have "no_exec (bindW (ShowError l (s @ fst r) False) (\<lambda>_. returnW c))" by (intro no_exec_intros)
  with assms Inr show ?thesis by (cases r) (simp add: bindW_def [of "Blastoff l"] no_exec_def)
qed

text \<open>The library path of the new process, and its whole environment.\<close>

definition library_path :: "string list \<Rightarrow> Application \<Rightarrow> KComponent \<Rightarrow> string" where
  "library_path env app r =
     c_str (comp_path r @ '':'' @ module_list app @
       (case getenv env ''LD_LIBRARY_PATH'' of None \<Rightarrow> [] | Some s \<Rightarrow> if s = [] then [] else '':'' @ s))"

definition launched_environment :: "string list \<Rightarrow> Application \<Rightarrow> KComponent \<Rightarrow> string list" where
  "launched_environment env app r =
     foldl (\<lambda>e (j, v). env_replace j v e) env (launch_environment app r (library_path env app r))"

lemma launch_Execs:
  "launch l b = Inl (Execs prog args env fs) \<longleftrightarrow>
    (\<exists>app r. b_app b = Some app \<and> app_runtime app = Some r \<and> args = b_argv b \<and> fs = w_fs b
      \<and> args \<noteq> [] \<and> prog = hd args \<and> execv_error l fs prog = None
      \<and> env = launched_environment (w_environ b) app (snd r))"
proof (cases "b_app b")
  case None
  then show ?thesis by (simp add: launch_def bindW_def theApp_run)
next
  case (Some app)
  show ?thesis
  proof (cases "app_runtime app")
    case None
    then show ?thesis using Some launch_without_runtime [OF Some None] by simp
  next
    case (Some r)
    let ?fail = "\<lambda>error. bindW (ShowError l (''Launching application failed: '' @ error) False) (\<lambda>_. returnW (152 :: int))"
    let ?b = "b\<lparr>w_environ := env_replace ''KR_MODULES'' (c_str (module_list app))
      (env_replace ''KR_RUNTIME'' (c_str (comp_path (snd r)))
      (env_replace ''KR_HOME'' (c_str (app_path app)) (env_replace BOOTSTRAP_ENV ''YES'' (w_environ b))))\<rparr>"
    have app: "b_app b = Some app" by fact
    have other: "BOOTSTRAP_ENV \<noteq> ''LD_LIBRARY_PATH''" by (simp add: BOOTSTRAP_ENV_def)
    have old: "getenv (w_environ ?b) ''LD_LIBRARY_PATH'' = getenv (w_environ b) ''LD_LIBRARY_PATH''"
      using other by (simp add: environ.get_put boot_names)
    have path: "BootstrapPlatformSpecific (module_list app) ?b =
        Inr ((), b\<lparr>w_environ := launched_environment (w_environ b) app (snd r)\<rparr>)"
      using old
      by (simp add: BootstrapPlatformSpecific_def bindW_def theApp_run app Some Environment_Get_def getsW_def
          Environment_Set_run boot_names launched_environment_def launch_environment_def library_path_def split: option.split)
    have "launch l b = bindW (BootstrapPlatformSpecific (module_list app)) (\<lambda>_. bindW (Blastoff l) ?fail) ?b"
      by (simp add: launch_def bindW_def [of theApp] bindW_def [of "Environment_Set _ _"] theApp_run app Some
          Environment_Set_run boot_names)
    then have "launch l b = bindW (Blastoff l) ?fail (b\<lparr>w_environ := launched_environment (w_environ b) app (snd r)\<rparr>)"
      using path by (simp add: bindW_def [of "BootstrapPlatformSpecific _"])
    moreover have "bindW (Blastoff l) ?fail b' = Inl (Execs prog args env fs) \<longleftrightarrow> Blastoff l b' = Inl (Execs prog args env fs)" for b'
      using Blastoff_Execs [of l "''Launching application failed: ''" 152 b'] by (auto simp: bindW_def [of "Blastoff l"])
    ultimately have "launch l b = Inl (Execs prog args env fs) \<longleftrightarrow>
        Blastoff l (b\<lparr>w_environ := launched_environment (w_environ b) app (snd r)\<rparr>) = Inl (Execs prog args env fs)"
      by simp
    then show ?thesis
      using app Some by (cases r; cases "b_argv b") (auto simp: Blastoff_def split: option.splits)
  qed
qed

lemma IsInstalled_run: "IsInstalled m app b = Inr (i, b') \<Longrightarrow> \<exists>fs. b' = b\<lparr>w_fs := fs\<rparr>"
  by (auto simp: IsInstalled_def GetDataPath_def GetApplicationDataDirectory_def sysM_run split: option.splits)

lemma application_installed_run:
  "application_installed m b = Inr (i, b') \<longleftrightarrow>
    (\<exists>app. b_app b = Some app \<and> b_app b' = Some app \<and> IsInstalled m app b = Inr (i, b'))"
proof -
  have "application_installed m b = Inr (i, b') \<longleftrightarrow> (\<exists>app. b_app b = Some app \<and> IsInstalled m app b = Inr (i, b'))"
    by (auto simp: application_installed_def sysM_run theApp_run split: option.splits)
  then show ?thesis using IsInstalled_run by fastforce
qed

text \<open>The application is the result of a resolution that left these dependencies open.\<close>

definition resolves :: "Application option \<Rightarrow> Dependency list \<Rightarrow> bool" where
  "resolves a missing \<longleftrightarrow>
     (\<exists>fs paths app0 app. a = Some app \<and> ResolveDependencies fs paths app0 = Some (app, missing))"

lemma resolve_application_run:
  assumes "resolve_application m b = Inr (missing, b')"
  shows "resolves (b_app b') missing"
proof -
  from assms obtain fs paths app0 app where "ResolveDependencies fs paths app0 = Some (app, missing)"
    "b_app b' = Some app"
    by (auto simp: resolve_application_def sysM_run setApp_def)
  then show ?thesis unfolding resolves_def by blast
qed

lemma report_resolved_run: "report_resolved ds b = Inr (u, b') \<Longrightarrow> b_app b' = b_app b"
  by (auto simp: report_resolved_def sysM_run theApp_run split: option.splits if_splits)

lemma install_missing_run:
  assumes "install_missing m l missing b = Inr (Some still, b')" and "resolves (b_app b) missing"
  shows "resolves (b_app b') still"
proof -
  from assms(1) consider "still = missing" "b_app b' = b_app b"
    | b1 where "resolve_application m b1 = Inr (still, b')"
    unfolding install_missing_def
    by (auto simp: sysM_run theApp_run Let_def application_installed_run split: if_splits option.splits)
  then show ?thesis using assms(2) resolve_application_run by cases auto
qed

lemma returnW_Inl [simp]: "returnW x w \<noteq> Inl e"
  by (simp add: returnW_def)

lemma ShowError_return [simp]:
  "bindW (ShowError l s False) (\<lambda>_. returnW c) w \<noteq> Inl (Execs prog args env fs)"
proof -
  have "no_exec (bindW (ShowError l s False) (\<lambda>_. returnW c))" by (intro no_exec_intros)
  then show ?thesis unfolding no_exec_def by blast
qed

text \<open>The run of \<^verbatim>\<open>Bootstrap\<close> up to the launch: the application was loaded, its dependencies were resolved,
  and installing what was missing has left no dependency open; the application \<open>app\<close> that is then current
  has the runtime \<open>r\<close> and is marked as installed. The last state is the one the launch starts from.\<close>

definition ready_to_launch :: "machine \<Rightarrow> launcher \<Rightarrow> kboot \<Rightarrow> Application \<Rightarrow> SharedComponent \<Rightarrow> kboot \<Rightarrow> bool" where
  "ready_to_launch m l b app r b' \<longleftrightarrow> (\<exists>b0 missing b1 b2 b3. load_application m l b = Inr (None, b0)
     \<and> resolve_application m b0 = Inr (missing, b1) \<and> report_resolved missing b1 = Inr ((), b2)
     \<and> install_missing m l missing b2 = Inr (Some [], b3) \<and> b_app b3 = Some app \<and> app_runtime app = Some r
     \<and> IsInstalled m app b3 = Inr (True, b'))"

lemma resolve_and_launch_Execs:
  "resolve_and_launch m l b = Inl (Execs prog args env fs) \<longleftrightarrow>
    (\<exists>missing b1 b2 b3 b4. resolve_application m b = Inr (missing, b1) \<and> report_resolved missing b1 = Inr ((), b2)
      \<and> install_missing m l missing b2 = Inr (Some [], b3) \<and> application_installed m b3 = Inr (True, b4)
      \<and> launch l b4 = Inl (Execs prog args env fs))"
proof -
  have rest: "(case still of None \<Rightarrow> returnW 117 | Some missing \<Rightarrow> bindW (if missing \<noteq> [] then returnW True
      else bindW (application_installed m) (\<lambda>i. returnW (\<not> i))) (\<lambda>stop. if stop then returnW 129 else launch l)) b3
      = Inl (Execs prog args env fs) \<longleftrightarrow>
      still = Some [] \<and> (\<exists>b4. application_installed m b3 = Inr (True, b4) \<and> launch l b4 = Inl (Execs prog args env fs))"
    for still b3
    by (cases still; cases "still = Some []") (auto simp: bindW_Execs_iff no_exec_intros sysM_run bindW_def [of "returnW _"]
        returnW_def split: if_splits)
  show ?thesis
    unfolding resolve_and_launch_def bindW_Execs_iff [OF no_exec_steps(5)]
      bindW_Execs_iff [OF no_exec_steps(6)] bindW_Execs_iff [OF no_exec_installed(2)] rest by auto
qed

lemma Bootstrap_Execs:
  "Bootstrap m l b = Inl (Execs prog args env fs) \<longleftrightarrow>
    (\<exists>app r b'. ready_to_launch m l b app r b' \<and> args = b_argv b' \<and> args \<noteq> [] \<and> prog = hd args \<and> fs = w_fs b'
      \<and> execv_error l fs prog = None \<and> env = launched_environment (w_environ b') app (snd r))"
proof -
  have "(case early of Some code \<Rightarrow> returnW code | None \<Rightarrow> resolve_and_launch m l) b0 = Inl (Execs prog args env fs) \<longleftrightarrow>
      early = None \<and> resolve_and_launch m l b0 = Inl (Execs prog args env fs)" for early b0
    by (cases early) auto
  then have "Bootstrap m l b = Inl (Execs prog args env fs) \<longleftrightarrow>
      (\<exists>b0. load_application m l b = Inr (None, b0) \<and> resolve_and_launch m l b0 = Inl (Execs prog args env fs))"
    unfolding Bootstrap_def bindW_Execs_iff [OF no_exec_load] by auto
  moreover have "application_installed m b3 = Inr (True, b4) \<and> launch l b4 = Inl (Execs prog args env fs) \<longleftrightarrow>
      (\<exists>app r. b_app b3 = Some app \<and> app_runtime app = Some r \<and> IsInstalled m app b3 = Inr (True, b4)
        \<and> args = b_argv b4 \<and> args \<noteq> [] \<and> prog = hd args \<and> fs = w_fs b4 \<and> execv_error l fs prog = None
        \<and> env = launched_environment (w_environ b4) app (snd r))" for b3 b4
    unfolding launch_Execs application_installed_run using IsInstalled_run by fastforce
  ultimately show ?thesis unfolding resolve_and_launch_Execs ready_to_launch_def by blast
qed

text \<open>Every module that the application asks for is among the modules it was given.\<close>

lemma ResolveDependencies_modules:
  assumes "ResolveDependencies fs sp app0 = Some (app, [])" and "d \<in> set (app_dependencies app)" and "dep_type d = MODULE"
  shows "\<exists>c \<in> set (app_modules app). satisfies d (snd c)"
proof -
  from assms(1) obtain comps where
    "resolve_all (List.enumerate 0 comps) (app_dependencies app0)
       (app0\<lparr>app_modules := [], app_sdks := [], app_runtime := None\<rparr>) [] = (app, [])"
    by (auto simp: ResolveDependencies_def Let_def split: Option.bind_splits)
  then have mods: "app_modules app = of_types [MODULE] (resolved (List.enumerate 0 comps) (app_dependencies app0))"
    and deps: "app_dependencies app = app_dependencies app0"
    and none: "filter (\<lambda>d. ResolveDependency d (List.enumerate 0 comps) = None) (app_dependencies app0) = []"
    unfolding resolve_all_eq by auto
  obtain c where c: "ResolveDependency d (List.enumerate 0 comps) = Some c"
    using none assms(2) deps by (auto simp: filter_empty_conv)
  have sat: "satisfies d (snd c)" using c unfolding ResolveDependency_eq find_Some_iff by auto
  then have "comp_type (snd c) = MODULE" using assms(3) by (simp add: satisfies_def Let_def)
  then have "c \<in> set (app_modules app)"
    using c assms(2) deps unfolding mods of_types_def by (auto simp: resolved_satisfies)
  then show ?thesis using sat by blast
qed

lemma ready_resolved:
  assumes "ready_to_launch m l b app r b'"
  shows "\<forall>d \<in> set (app_dependencies app). dep_type d = MODULE \<longrightarrow> (\<exists>c \<in> set (app_modules app). satisfies d (snd c))"
proof -
  from assms obtain b0 missing b1 b2 b3 where "resolve_application m b0 = Inr (missing, b1)" "report_resolved missing b1 = Inr ((), b2)"
      "install_missing m l missing b2 = Inr (Some [], b3)" "b_app b3 = Some app"
    unfolding ready_to_launch_def by blast
  then have "resolves (Some app) []"
    using install_missing_run [of m l missing b2 "[]" b3] resolve_application_run [of m b0 missing b1] report_resolved_run by metis
  then show ?thesis using ResolveDependencies_modules unfolding resolves_def by blast
qed

lemma boot_main_Execs:
  assumes "boot_main m l argv b = Inl (Execs prog args env fs)"
  shows "Bootstrap m l (b\<lparr>b_argv := argv\<rparr>) = Inl (Execs prog args env fs)"
proof -
  have "no_exec (bindW (Environment_Unset BOOTSTRAP_ENV) (\<lambda>_. StartHost l))" by (intro no_exec_intros)
  moreover from assms have "(if use_breakpad l \<and> 2 < length argv \<and> argv ! 1 = CRASH_REPORT_OPT then SendCrashReport m l
       else bindW (Environment_Has BOOTSTRAP_ENV) (\<lambda>has.
         if \<not> has then Bootstrap m l else bindW (Environment_Unset BOOTSTRAP_ENV) (\<lambda>_. StartHost l)))
       (b\<lparr>b_argv := argv\<rparr>) = Inl (Execs prog args env fs)"
    by (simp add: boot_main_def bindW_def [of "modifyW _"] modifyW_def)
  moreover have "SendCrashReport m l (b\<lparr>b_argv := argv\<rparr>) \<noteq> Inl (Execs prog args env fs)"
    using no_exec_crash_report [of m l] unfolding no_exec_def by blast
  moreover have "bindW (Environment_Has BOOTSTRAP_ENV) f w = f (getenv (w_environ w) BOOTSTRAP_ENV \<noteq> None) w" for f :: "bool \<Rightarrow> int bootM" and w
    by (simp add: Environment_Has_def bindW_def getsW_def)
  ultimately show ?thesis unfolding no_exec_def by (simp split: if_splits)
qed

lemma pieces_separated:
  assumes "\<forall>p \<in> set ps. p \<noteq> [] \<and> CHR '':'' \<notin> set p"
  shows "pieces '':'' (concat (map (\<lambda>p. p @ '':'') ps)) = ps"
  using assms by (induction ps) (simp_all add: pieces_def split_at_append_delim)

lemma add_tokens_distinct: "distinct (acc @ ts) \<Longrightarrow> add_tokens True acc ts = acc @ ts"
  by (induction ts arbitrary: acc) auto

text \<open>Module paths that survive the separated list: distinct, not empty, and without the separator and
  the null character.\<close>

definition listable :: "string list \<Rightarrow> bool" where
  "listable ps \<longleftrightarrow> distinct ps \<and> (\<forall>p \<in> set ps. p \<noteq> [] \<and> CHR '':'' \<notin> set p \<and> CHR 0x00 \<notin> set p)"

lemma Tokenize_module_list:
  assumes "listable (map (comp_path \<circ> snd) (app_modules app))"
  shows "Tokenize (c_str (module_list app)) [] KR_LIB_SEP True = map (comp_path \<circ> snd) (app_modules app)"
proof -
  let ?ps = "map (comp_path \<circ> snd) (app_modules app)"
  have list: "module_list app = concat (map (\<lambda>p. p @ '':'') ?ps)"
    by (simp add: module_list_def MODULE_SEPARATOR_def comp_def)
  have "CHR 0x00 \<notin> set (module_list app)" using assms unfolding list listable_def by auto
  moreover have "pieces '':'' (module_list app) = ?ps"
    unfolding list using assms by (intro pieces_separated) (simp add: listable_def)
  ultimately show ?thesis using assms add_tokens_distinct [of "[]" ?ps]
    by (simp add: Tokenize_eq KR_LIB_SEP_def listable_def)
qed

lemma StartHost_run:
  assumes "getenv (w_environ b) ''KR_RUNTIME'' = Some runtime" and "Join [runtime, ''libkhost.so''] = Some khost"
    and "IsFile (w_fs b) khost" and "dlopen_error l (w_fs b) (c_str khost) = None" and "has_execute l (c_str khost)"
  shows "StartHost l b = Inr (host_execute l (b_argv b) (w_environ b) (w_fs b), b)"
  using assms by (simp add: StartHost_def sysM_defs)

lemma boot_main_restarted:
  assumes "getenv env BOOTSTRAP_ENV \<noteq> None"
    and "\<not> (use_breakpad l \<and> 2 < length args \<and> args ! 1 = CRASH_REPORT_OPT)"
  shows "boot_main m l args (new_process env fs)
    = StartHost l ((new_process (unsetenv BOOTSTRAP_ENV env) fs)\<lparr>b_argv := args\<rparr>)"
  using assms
  by (auto simp: boot_main_def bindW_def modifyW_def Environment_Has_def Environment_Unset_def getsW_def
      new_process_def)

lemma SetupApplication_modules:
  assumes "SetupApplication e args L = Started hs" and "env_var e MODULES_ENV = Some ms"
  shows "module_paths hs = Tokenize ms [] KR_LIB_SEP True"
proof -
  have bind: "bindS x f = Started y \<longleftrightarrow> (\<exists>z. x = Started z \<and> f z = Started y)" for x f and y :: module_host
    by (cases x) auto
  from assms show ?thesis
    by (auto simp: SetupApplication_def bind liftS_def split: option.splits)
qed

section \<open>A concrete boot\<close>

text \<open>An installed application at \<^verbatim>\<open>/app\<close> with a bundled runtime and a bundled module.\<close>

definition demo_launcher :: launcher where
  "demo_launcher =
     \<lparr>gtk_init = Some, realpath = (\<lambda>fs p. Some p), execv_error = (\<lambda>fs p. None), dlopen_error = (\<lambda>fs p. None),
      has_execute = (\<lambda>p. True), host_execute = (\<lambda>argv env fs. 0), use_breakpad = True, report_url = [],
      report_accepted = False, report_upload = (\<lambda>u ps d. None)\<rparr>"

definition demo_boot_fs :: os where
  "demo_boot_fs = list_os
     [(''/app/runtime'', []), (''/app/modules'', [''ui'']), (''/app/modules/ui'', []), (''/home/u/.kroll/appdata/demo'', [])]
     [(''/app/demo'', []), (''/app/.installed'', []), (''/app/runtime/libkhost.so'', []),
      (''/app/manifest'', ''#appid: demo'' @ [CHR 0x0A] @ ''runtime: 0.9'' @ [CHR 0x0A] @ ''ui: 1.0'')]"

definition demo_environ :: "string list" where
  "demo_environ =
     [''KR_BOOTSTRAPPED=YES'', ''KR_HOME=/app'', ''KR_RUNTIME=/app/runtime'', ''KR_MODULES=/app/modules/ui:'',
      ''LD_LIBRARY_PATH=/app/runtime:/app/modules/ui:'']"

text \<open>Code equations that evaluate each list once.\<close>

lemma split_at_code [code]:
  "split_at ds [] = [[]]"
  "split_at ds (c # cs) = (case split_at ds cs of
      [] \<Rightarrow> []
    | t # ts \<Rightarrow> if c \<in> set ds then [] # t # ts else (c # t) # ts)"
  by (auto split: list.split)

declare Trim_eq [code] Tokenize_eq [code]

lemma demo_boots:
  "case boot_main demo_machine demo_launcher [''/app/demo''] (new_process [] demo_boot_fs) of
     Inl (Execs prog args env fs) \<Rightarrow>
       prog = ''/app/demo'' \<and> args = [''/app/demo'']
       \<and> env = demo_environ
       \<and> stat_reg fs ''/app/runtime/libkhost.so''
   | _ \<Rightarrow> False"
  by code_simp
lemma demo_boot_Execs:
  obtains fs where "boot_main demo_machine demo_launcher [''/app/demo''] (new_process [] demo_boot_fs) =
      Inl (Execs ''/app/demo'' [''/app/demo''] demo_environ fs)"
    and "stat_reg fs ''/app/runtime/libkhost.so''"
  using demo_boots
  by (cases "boot_main demo_machine demo_launcher [''/app/demo''] (new_process [] demo_boot_fs)")
    (auto split: sys_stop.splits)

section \<open>Properties\<close>

text \<open>C18: the boot program replaces itself by the application exactly in one case: the run has loaded the
  application and resolved it, the last resolution of the run has left no dependency open, the
  application resolved by it has a runtime and a satisfying module for each module dependency, it is marked as installed, and \<^verbatim>\<open>execv\<close> succeeds. The new
  process gets the arguments and the file system of that state and the environment that was prepared for
  this application. Every early return, exception and exit of \<^verbatim>\<open>Bootstrap\<close> leaves the process as it is.\<close>

theorem Bootstrap_launch:
  "Bootstrap m l b = Inl (Execs prog args env fs) \<longleftrightarrow>
    (\<exists>b0 missing b1 b2 b3 b4 app r.
      load_application m l b = Inr (None, b0) \<and> resolve_application m b0 = Inr (missing, b1)
      \<and> report_resolved missing b1 = Inr ((), b2) \<and> install_missing m l missing b2 = Inr (Some [], b3)
      \<and> b_app b3 = Some app \<and> app_runtime app = Some r \<and> IsInstalled m app b3 = Inr (True, b4)
      \<and> args = b_argv b4 \<and> args \<noteq> [] \<and> prog = hd args \<and> fs = w_fs b4 \<and> execv_error l fs prog = None
      \<and> env = launched_environment (w_environ b4) app (snd r)
      \<and> (\<forall>d \<in> set (app_dependencies app). dep_type d = MODULE \<longrightarrow> (\<exists>c \<in> set (app_modules app). satisfies d (snd c))))"
proof -
  have "ready_to_launch m l b app r b4 \<longleftrightarrow> ready_to_launch m l b app r b4
      \<and> (\<forall>d \<in> set (app_dependencies app). dep_type d = MODULE \<longrightarrow> (\<exists>c \<in> set (app_modules app). satisfies d (snd c)))"
    for app r b4 using ready_resolved by blast
  then show ?thesis unfolding Bootstrap_Execs by (simp only: ready_to_launch_def) blast
qed

theorem Bootstrap_launch_witness:
  "\<exists>fs b0 missing b1 b2 b3 b4 app r.
      load_application demo_machine demo_launcher ((new_process [] demo_boot_fs)\<lparr>b_argv := [''/app/demo'']\<rparr>) = Inr (None, b0)
      \<and> resolve_application demo_machine b0 = Inr (missing, b1) \<and> report_resolved missing b1 = Inr ((), b2)
      \<and> install_missing demo_machine demo_launcher missing b2 = Inr (Some [], b3)
      \<and> b_app b3 = Some app \<and> app_runtime app = Some r \<and> IsInstalled demo_machine app b3 = Inr (True, b4)
      \<and> [''/app/demo''] = b_argv b4 \<and> [''/app/demo''] \<noteq> [] \<and> ''/app/demo'' = hd [''/app/demo''] \<and> fs = w_fs b4
      \<and> execv_error demo_launcher fs ''/app/demo'' = None
      \<and> demo_environ = launched_environment (w_environ b4) app (snd r)
      \<and> (\<forall>d \<in> set (app_dependencies app). dep_type d = MODULE \<longrightarrow> (\<exists>c \<in> set (app_modules app). satisfies d (snd c)))"
proof (rule demo_boot_Execs)
  fix fs
  assume "boot_main demo_machine demo_launcher [''/app/demo''] (new_process [] demo_boot_fs) =
      Inl (Execs ''/app/demo'' [''/app/demo''] demo_environ fs)"
  then have "Bootstrap demo_machine demo_launcher ((new_process [] demo_boot_fs)\<lparr>b_argv := [''/app/demo'']\<rparr>) =
      Inl (Execs ''/app/demo'' [''/app/demo''] demo_environ fs)"
    by (rule boot_main_Execs)
  then show ?thesis by (intro exI [of _ fs]) (rule iffD1 [OF Bootstrap_launch])
qed

text \<open>C17: the restarted process finds in its environment what the run of the first one resolved: let \<open>app\<close> be
  the application with which that run was ready to launch (\<^const>\<open>ready_to_launch\<close>), which is the one whose
  modules satisfy all its module dependencies. The variables hold the application's directory, the
  path of its runtime and the separated list of the paths of its modules. The restarted process starts
  the host of that runtime, if its library can be loaded, and the host reads from the list exactly the
  module paths, provided these can be written into it (\<^const>\<open>listable\<close>).\<close>

theorem boot_main_handover:
  assumes "boot_main m l argv b = Inl (Execs prog args env fs)"
    and "\<not> (use_breakpad l \<and> 2 < length args \<and> args ! 1 = CRASH_REPORT_OPT)"
  shows "\<exists>app r b1. ready_to_launch m l (b\<lparr>b_argv := argv\<rparr>) app r b1 \<and> fs = w_fs b1 \<and> args = b_argv b1
    \<and> (\<forall>d \<in> set (app_dependencies app). dep_type d = MODULE \<longrightarrow> (\<exists>c \<in> set (app_modules app). satisfies d (snd c)))
    \<and> getenv (unsetenv BOOTSTRAP_ENV env) HOME_ENV = Some (c_str (app_path app))
    \<and> getenv (unsetenv BOOTSTRAP_ENV env) RUNTIME_ENV = Some (c_str (comp_path (snd r)))
    \<and> getenv (unsetenv BOOTSTRAP_ENV env) MODULES_ENV = Some (c_str (module_list app))
    \<and> (\<forall>khost. Join [c_str (comp_path (snd r)), ''libkhost.so''] = Some khost \<and> IsFile fs khost
          \<and> dlopen_error l fs (c_str khost) = None \<and> has_execute l (c_str khost) \<longrightarrow>
        (\<exists>b'. boot_main m l args (new_process env fs)
          = Inr (host_execute l args (unsetenv BOOTSTRAP_ENV env) fs, b')))
    \<and> (listable (map (comp_path \<circ> snd) (app_modules app)) \<longrightarrow>
        Tokenize (c_str (module_list app)) [] KR_LIB_SEP True = map (comp_path \<circ> snd) (app_modules app)
        \<and> (\<forall>e L hs. env_var e = getenv (unsetenv BOOTSTRAP_ENV env) \<and> SetupApplication e args L = Started hs \<longrightarrow>
             module_paths hs = map (comp_path \<circ> snd) (app_modules app)))"
proof -
  obtain app r b1 where ready: "ready_to_launch m l (b\<lparr>b_argv := argv\<rparr>) app r b1" "fs = w_fs b1" "args = b_argv b1"
    and env: "env = launched_environment (w_environ b1) app (snd r)"
    using boot_main_Execs [OF assms(1)] unfolding Bootstrap_Execs by blast
  let ?lib = "library_path (w_environ b1) app (snd r)" and ?env = "unsetenv BOOTSTRAP_ENV env"
  have vars: "getenv env k = Some v" if "(k, v) \<in> set (launch_environment app (snd r) ?lib)" for k v
    unfolding env launched_environment_def using that by (rule launch_environment_get)
  have keep: "getenv ?env k = getenv env k" if "env_name k" "k \<noteq> BOOTSTRAP_ENV" for k
    using environ.get_remove [OF boot_names(1) that(1)] that(2) by simp
  have runtime: "getenv ?env ''KR_RUNTIME'' = Some (c_str (comp_path (snd r)))"
    and home: "getenv ?env HOME_ENV = Some (c_str (app_path app))"
    and modules: "getenv ?env MODULES_ENV = Some (c_str (module_list app))"
    using keep vars by (simp_all add: launch_environment_def boot_names HOME_ENV_def MODULES_ENV_def BOOTSTRAP_ENV_def)
  have boot: "getenv env BOOTSTRAP_ENV \<noteq> None" using vars [of BOOTSTRAP_ENV "''YES''"] by (simp add: launch_environment_def)
  have start: "\<exists>b'. boot_main m l args (new_process env fs) = Inr (host_execute l args ?env fs, b')"
    if "Join [c_str (comp_path (snd r)), ''libkhost.so''] = Some khost" "IsFile fs khost"
      "dlopen_error l fs (c_str khost) = None" "has_execute l (c_str khost)" for khost
    unfolding boot_main_restarted [OF boot assms(2)]
    using StartHost_run [of "(new_process ?env fs)\<lparr>b_argv := args\<rparr>" _ khost l] runtime that
    by (simp add: new_process_def)
  have host: "Tokenize (c_str (module_list app)) [] KR_LIB_SEP True = map (comp_path \<circ> snd) (app_modules app)
      \<and> (\<forall>e L hs. env_var e = getenv ?env \<and> SetupApplication e args L = Started hs \<longrightarrow>
           module_paths hs = map (comp_path \<circ> snd) (app_modules app))"
    if "listable (map (comp_path \<circ> snd) (app_modules app))"
    using Tokenize_module_list [OF that] SetupApplication_modules modules by auto
  show ?thesis
  proof (intro exI [of _ app] exI [of _ r] exI [of _ b1] conjI)
    show "\<forall>khost. Join [c_str (comp_path (snd r)), ''libkhost.so''] = Some khost \<and> IsFile fs khost
          \<and> dlopen_error l fs (c_str khost) = None \<and> has_execute l (c_str khost) \<longrightarrow>
        (\<exists>b'. boot_main m l args (new_process env fs) = Inr (host_execute l args ?env fs, b'))"
      using start by simp
    show "getenv ?env RUNTIME_ENV = Some (c_str (comp_path (snd r)))" using runtime by (simp add: RUNTIME_ENV_def)
  qed (use ready ready_resolved [OF ready(1)] home modules host in simp_all)
qed

theorem boot_main_handover_witness:
  "\<exists>env fs b'. boot_main demo_machine demo_launcher [''/app/demo''] (new_process [] demo_boot_fs)
       = Inl (Execs ''/app/demo'' [''/app/demo''] env fs)
     \<and> boot_main demo_machine demo_launcher [''/app/demo''] (new_process env fs) = Inr (0, b')
     \<and> (\<exists>app. getenv env ''KR_MODULES'' = Some (c_str (module_list app)))"
proof (rule demo_boot_Execs)
  fix fs
  assume run: "boot_main demo_machine demo_launcher [''/app/demo''] (new_process [] demo_boot_fs) =
      Inl (Execs ''/app/demo'' [''/app/demo''] demo_environ fs)" and lib: "stat_reg fs ''/app/runtime/libkhost.so''"
  let ?env = "unsetenv BOOTSTRAP_ENV demo_environ"
  have quiet: "\<not> (use_breakpad demo_launcher \<and> 2 < length [''/app/demo''] \<and> [''/app/demo''] ! 1 = CRASH_REPORT_OPT)"
    by simp
  from boot_main_handover [OF run quiet] obtain r :: SharedComponent and app where
    start: "\<forall>khost. Join [c_str (comp_path (snd r)), ''libkhost.so''] = Some khost \<and> IsFile fs khost
        \<and> dlopen_error demo_launcher fs (c_str khost) = None \<and> has_execute demo_launcher (c_str khost) \<longrightarrow>
      (\<exists>b'. boot_main demo_machine demo_launcher [''/app/demo''] (new_process demo_environ fs)
        = Inr (host_execute demo_launcher [''/app/demo''] ?env fs, b'))"
    and env: "getenv ?env RUNTIME_ENV = Some (c_str (comp_path (snd r)))"
    and mods: "getenv ?env MODULES_ENV = Some (c_str (module_list app))"
    by blast
  have vals: "getenv ?env RUNTIME_ENV = Some ''/app/runtime''" "getenv ?env MODULES_ENV = getenv demo_environ ''KR_MODULES''" by code_simp+
  then have "c_str (comp_path (snd r)) = ''/app/runtime''" using env by simp
  moreover have "Join [''/app/runtime'', ''libkhost.so''] = Some ''/app/runtime/libkhost.so''"
    by (simp add: Join_clean clean_part_def clean_component_def)
  ultimately have "\<exists>b'. boot_main demo_machine demo_launcher [''/app/demo''] (new_process demo_environ fs)
        = Inr (host_execute demo_launcher [''/app/demo''] ?env fs, b')"
    using start lib by (simp add: IsFile_def demo_launcher_def)
  then have "\<exists>b'. boot_main demo_machine demo_launcher [''/app/demo''] (new_process demo_environ fs) = Inr (0, b')"
    by (simp add: demo_launcher_def)
  then obtain b' where "boot_main demo_machine demo_launcher [''/app/demo''] (new_process demo_environ fs) = Inr (0, b')" ..
  moreover have "getenv demo_environ ''KR_MODULES'' = Some (c_str (module_list app))" using vals(2) mods by simp
  ultimately show ?thesis using run by (intro exI conjI)
qed

end
