(* ===== verification/Kroll_SharedPtr.thy ===== *)
theory Kroll_SharedPtr
  imports Kroll_Prelude "HOL-Library.Monad_Syntax"
begin

text \<open>
  The counted pointer of the boot program, \<^verbatim>\<open>src/api/utils/poco/KSharedPtr.h\<close>. The store has the counters,
  the objects that are allocated and the pointers, each with the address of its counter and of its
  object; zero is the null pointer. Using a counter or deleting an object that is gone is \<^const>\<open>None\<close>. The
  histories of a program that hands every object to one pointer only form a step relation; its invariant
  says that each counter counts its pointers and that an object lives as long as one of them.
\<close>

section \<open>Store\<close>

record sp_store =
  sp_count :: "nat \<Rightarrow> int32 option"
  sp_alive :: "nat \<Rightarrow> bool"
  sp_vars :: "nat \<Rightarrow> (nat \<times> nat) option"
  sp_next :: nat

text \<open>\<^verbatim>\<open>new ReferenceCounter\<close>, \<^verbatim>\<open>duplicate\<close> and the release of a counter with the pointer that shares it.\<close>

definition ReferenceCounter_new :: "sp_store \<Rightarrow> nat \<times> sp_store" where
  "ReferenceCounter_new s =
     (sp_next s, s\<lparr>sp_count := (sp_count s)(sp_next s \<mapsto> 1), sp_next := sp_next s + 1\<rparr>)"

definition ReferenceCounter_duplicate :: "nat \<Rightarrow> sp_store \<Rightarrow> sp_store option" where
  "ReferenceCounter_duplicate c s = do {
     n \<leftarrow> sp_count s c;
     Some (s\<lparr>sp_count := (sp_count s)(c \<mapsto> n + 1)\<rparr>) }"

definition ReleasePolicy_release :: "nat \<Rightarrow> sp_store \<Rightarrow> sp_store option" where
  "ReleasePolicy_release p s =
     (if p = 0 then Some s
      else if sp_alive s p then Some (s\<lparr>sp_alive := (sp_alive s)(p := False)\<rparr>) else None)"

definition SharedPtr_release :: "nat \<times> nat \<Rightarrow> sp_store \<Rightarrow> sp_store option" where
  "SharedPtr_release cp s = do {
     n \<leftarrow> sp_count s (fst cp);
     let i = n - 1;
     if i = 0
     then do {
       s1 \<leftarrow> ReleasePolicy_release (snd cp) s;
       Some (s1\<lparr>sp_count := (sp_count s1)(fst cp := None)\<rparr>) }
     else Some (s\<lparr>sp_count := (sp_count s)(fst cp \<mapsto> i)\<rparr>) }"

section \<open>Operations\<close>

definition SharedPtr_new :: "nat \<Rightarrow> nat \<Rightarrow> sp_store \<Rightarrow> sp_store" where
  "SharedPtr_new v p s =
     (case ReferenceCounter_new s of (c, s1) \<Rightarrow> s1\<lparr>sp_vars := (sp_vars s1)(v \<mapsto> (c, p))\<rparr>)"

definition SharedPtr_copy :: "nat \<Rightarrow> nat \<Rightarrow> sp_store \<Rightarrow> sp_store option" where
  "SharedPtr_copy v u s = do {
     (c, p) \<leftarrow> sp_vars s u;
     s1 \<leftarrow> ReferenceCounter_duplicate c s;
     Some (s1\<lparr>sp_vars := (sp_vars s1)(v \<mapsto> (c, p))\<rparr>) }"

definition SharedPtr_destroy :: "nat \<Rightarrow> sp_store \<Rightarrow> sp_store option" where
  "SharedPtr_destroy v s = do {
     cp \<leftarrow> sp_vars s v;
     s1 \<leftarrow> SharedPtr_release cp s;
     Some (s1\<lparr>sp_vars := (sp_vars s1)(v := None)\<rparr>) }"

text \<open>Assignment of an ordinary pointer.\<close>

definition SharedPtr_assign_raw :: "nat \<Rightarrow> nat \<Rightarrow> sp_store \<Rightarrow> sp_store option" where
  "SharedPtr_assign_raw v p s = do {
     cp \<leftarrow> sp_vars s v;
     if snd cp \<noteq> p
     then do {
       let (c, s1) = ReferenceCounter_new s;
       s2 \<leftarrow> SharedPtr_release cp s1;
       Some (s2\<lparr>sp_vars := (sp_vars s2)(v \<mapsto> (c, p))\<rparr>) }
     else Some s }"

text \<open>Assignment of another pointer: a temporary copy is swapped with this one and then destroyed, which
  releases what this one held before.\<close>

definition SharedPtr_assign :: "nat \<Rightarrow> nat \<Rightarrow> sp_store \<Rightarrow> sp_store option" where
  "SharedPtr_assign v u s =
     (if u \<noteq> v
      then do {
        (c, p) \<leftarrow> sp_vars s u;
        s1 \<leftarrow> ReferenceCounter_duplicate c s;
        old \<leftarrow> sp_vars s1 v;
        SharedPtr_release old (s1\<lparr>sp_vars := (sp_vars s1)(v \<mapsto> (c, p))\<rparr>) }
      else Some s)"

text \<open>Assignment of a pointer to another class compares the objects, not the pointers.\<close>

definition SharedPtr_assign_other :: "nat \<Rightarrow> nat \<Rightarrow> sp_store \<Rightarrow> sp_store option" where
  "SharedPtr_assign_other v u s = do {
     (c, p) \<leftarrow> sp_vars s u;
     old \<leftarrow> sp_vars s v;
     if p \<noteq> snd old
     then do {
       s1 \<leftarrow> ReferenceCounter_duplicate c s;
       SharedPtr_release old (s1\<lparr>sp_vars := (sp_vars s1)(v \<mapsto> (c, p))\<rparr>) }
     else Some s }"

definition SharedPtr_swap :: "nat \<Rightarrow> nat \<Rightarrow> sp_store \<Rightarrow> sp_store" where
  "SharedPtr_swap v u s = s\<lparr>sp_vars := (sp_vars s)(v := sp_vars s u, u := sp_vars s v)\<rparr>"

text \<open>A cast shares the counter if the dynamic cast succeeds and else makes a null pointer.\<close>

definition SharedPtr_cast :: "bool \<Rightarrow> nat \<Rightarrow> nat \<Rightarrow> sp_store \<Rightarrow> sp_store option" where
  "SharedPtr_cast succeeds v u s = do {
     (c, p) \<leftarrow> sp_vars s u;
     if p \<noteq> 0 \<and> succeeds then SharedPtr_copy v u s else Some (SharedPtr_new v 0 s) }"

definition SharedPtr_unsafeCast :: "nat \<Rightarrow> nat \<Rightarrow> sp_store \<Rightarrow> sp_store option" where
  "SharedPtr_unsafeCast v u s = SharedPtr_copy v u s"

text \<open>A null pointer throws when it is used.\<close>

definition SharedPtr_deref :: "nat \<Rightarrow> sp_store \<Rightarrow> (string + nat) option" where
  "SharedPtr_deref v s = do {
     (c, p) \<leftarrow> sp_vars s v;
     Some (if p = 0 then Inl ''Null pointer'' else Inr p) }"

definition SharedPtr_referenceCount :: "nat \<Rightarrow> sp_store \<Rightarrow> int32 option" where
  "SharedPtr_referenceCount v s = do {
     (c, p) \<leftarrow> sp_vars s v;
     sp_count s c }"

section \<open>Histories\<close>

text \<open>The pointers that share a counter.\<close>

definition sharers :: "(nat \<Rightarrow> (nat \<times> nat) option) \<Rightarrow> nat \<Rightarrow> nat set" where
  "sharers vs c = {v. \<exists>p. vs v = Some (c, p)}"

definition owned :: "sp_store \<Rightarrow> nat \<Rightarrow> bool" where
  "owned s p \<longleftrightarrow> p \<noteq> 0 \<and> (\<exists>v c. sp_vars s v = Some (c, p))"

text \<open>The program allocates objects, makes pointers of objects that no pointer has, copies, casts,
  assigns, swaps and destroys. Fewer than \<open>2\<^sup>3\<^sup>1\<close> pointers fit into its memory, the temporary one of an
  assignment included.\<close>

definition room :: "sp_store \<Rightarrow> bool" where
  "room s \<longleftrightarrow> card (dom (sp_vars s)) + 1 < 2 ^ 31"

inductive sp_step :: "sp_store \<Rightarrow> sp_store \<Rightarrow> bool" where
  allocate: "p \<noteq> 0 \<Longrightarrow> \<not> sp_alive s p \<Longrightarrow> sp_step s (s\<lparr>sp_alive := (sp_alive s)(p := True)\<rparr>)"
| new: "sp_vars s v = None \<Longrightarrow> room s \<Longrightarrow> p = 0 \<or> sp_alive s p \<and> \<not> owned s p \<Longrightarrow> sp_step s (SharedPtr_new v p s)"
| copy: "sp_vars s v = None \<Longrightarrow> room s \<Longrightarrow> SharedPtr_copy v u s = Some s' \<Longrightarrow> sp_step s s'"
| cast: "sp_vars s v = None \<Longrightarrow> room s \<Longrightarrow> SharedPtr_cast ok v u s = Some s' \<Longrightarrow> sp_step s s'"
| destroy: "SharedPtr_destroy v s = Some s' \<Longrightarrow> sp_step s s'"
| assign: "room s \<Longrightarrow> SharedPtr_assign v u s = Some s' \<Longrightarrow> sp_step s s'"
| assign_other: "room s \<Longrightarrow> SharedPtr_assign_other v u s = Some s' \<Longrightarrow> sp_step s s'"
| assign_raw: "p = 0 \<or> sp_alive s p \<and> (\<not> owned s p \<or> (\<exists>c. sp_vars s v = Some (c, p))) \<Longrightarrow>
    SharedPtr_assign_raw v p s = Some s' \<Longrightarrow> sp_step s s'"
| swap: "sp_vars s v \<noteq> None \<Longrightarrow> sp_vars s u \<noteq> None \<Longrightarrow> sp_step s (SharedPtr_swap v u s)"

definition sp_initial :: sp_store where
  "sp_initial = \<lparr>sp_count = Map.empty, sp_alive = (\<lambda>p. False), sp_vars = Map.empty, sp_next = 1\<rparr>"

inductive sp_reachable :: "sp_store \<Rightarrow> bool" where
  start: "sp_reachable sp_initial"
| step: "sp_reachable s \<Longrightarrow> sp_step s s' \<Longrightarrow> sp_reachable s'"

section \<open>The invariant\<close>

definition sp_inv :: "sp_store \<Rightarrow> bool" where
  "sp_inv s \<longleftrightarrow>
     finite (dom (sp_vars s)) \<and> card (dom (sp_vars s)) < 2 ^ 31
     \<and> (\<forall>c. sp_count s c = (if sharers (sp_vars s) c = {} then None else Some (of_nat (card (sharers (sp_vars s) c)))))
     \<and> (\<forall>v u c p q. sp_vars s v = Some (c, p) \<longrightarrow> sp_vars s u = Some (c, q) \<longrightarrow> p = q)
     \<and> (\<forall>v u c d p. sp_vars s v = Some (c, p) \<longrightarrow> sp_vars s u = Some (d, p) \<longrightarrow> p \<noteq> 0 \<longrightarrow> c = d)
     \<and> (\<forall>v c p. sp_vars s v = Some (c, p) \<longrightarrow> c < sp_next s \<and> (p \<noteq> 0 \<longrightarrow> sp_alive s p))"

lemma sp_invD:
  assumes "sp_inv s"
  shows "finite (dom (sp_vars s))" and "card (dom (sp_vars s)) < 2 ^ 31"
    and "sp_count s c = (if sharers (sp_vars s) c = {} then None else Some (of_nat (card (sharers (sp_vars s) c))))"
    and "sp_vars s v = Some (c, p) \<Longrightarrow> sp_vars s u = Some (c, q) \<Longrightarrow> p = q"
    and "sp_vars s v = Some (c, p) \<Longrightarrow> sp_vars s u = Some (d, p) \<Longrightarrow> p \<noteq> 0 \<Longrightarrow> c = d"
    and "sp_vars s v = Some (c, p) \<Longrightarrow> c < sp_next s"
    and "sp_vars s v = Some (c, p) \<Longrightarrow> p \<noteq> 0 \<Longrightarrow> sp_alive s p"
  using assms unfolding sp_inv_def by blast+

lemma sharers_upd:
  "vs v = None \<Longrightarrow> sharers (vs(v \<mapsto> (c, p))) d = (if d = c then insert v (sharers vs d) else sharers vs d)"
  "sharers (vs(v := None)) d = sharers vs d - {v}"
  by (auto simp: sharers_def)

lemma sharers_dom: "sharers vs c \<subseteq> dom vs"
  by (auto simp: sharers_def)

lemma finite_sharers: "sp_inv s \<Longrightarrow> finite (sharers (sp_vars s) c)"
  using sp_invD(1) sharers_dom finite_subset by metis

lemma card_sharers: "sp_inv s \<Longrightarrow> card (sharers (sp_vars s) c) < 2 ^ 31"
  using sp_invD(1,2) sharers_dom card_mono le_less_trans by metis

lemma sharers_fresh: "sp_inv s \<Longrightarrow> sharers (sp_vars s) (sp_next s) = {}"
  using sp_invD(6) by (fastforce simp: sharers_def)

lemma sp_count_sharer:
  "sp_inv s \<Longrightarrow> sp_vars s v = Some (c, p) \<Longrightarrow> sp_count s c = Some (of_nat (card (sharers (sp_vars s) c)))"
  using sp_invD(3) [of s c] by (auto simp: sharers_def)

lemma sp_invI:
  assumes "finite (dom (sp_vars s))" and "card (dom (sp_vars s)) < 2 ^ 31"
    and "\<And>c. sp_count s c = (if sharers (sp_vars s) c = {} then None else Some (of_nat (card (sharers (sp_vars s) c))))"
    and "\<And>v u c p q. sp_vars s v = Some (c, p) \<Longrightarrow> sp_vars s u = Some (c, q) \<Longrightarrow> p = q"
    and "\<And>v u c d p. sp_vars s v = Some (c, p) \<Longrightarrow> sp_vars s u = Some (d, p) \<Longrightarrow> p \<noteq> 0 \<Longrightarrow> c = d"
    and "\<And>v c p. sp_vars s v = Some (c, p) \<Longrightarrow> c < sp_next s \<and> (p \<noteq> 0 \<longrightarrow> sp_alive s p)"
  shows "sp_inv s"
  using assms unfolding sp_inv_def by blast

lemma card_dom_new: "finite (dom vs) \<Longrightarrow> vs v = None \<Longrightarrow> card (dom (vs(v \<mapsto> x))) = card (dom vs) + 1"
  by (simp add: domIff)

lemma sp_inv_new:
  assumes inv: "sp_inv s" and fresh: "sp_vars s v = None" and room: "room s"
    and p: "p = 0 \<or> sp_alive s p \<and> \<not> owned s p"
  shows "sp_inv (SharedPtr_new v p s)"
proof -
  let ?s = "SharedPtr_new v p s" and ?c = "sp_next s"
  have vars: "sp_vars ?s = (sp_vars s)(v \<mapsto> (?c, p))" and alive: "sp_alive ?s = sp_alive s"
    and count: "sp_count ?s = (sp_count s)(?c \<mapsto> 1)" and nxt: "sp_next ?s = Suc ?c"
    by (simp_all add: SharedPtr_new_def ReferenceCounter_new_def)
  note sh = sharers_upd(1) [of "sp_vars s" v, OF fresh] sharers_fresh [OF inv]
  have old: "c \<noteq> ?c" if "sp_vars s u = Some (c, q)" for u c q using sp_invD(6) [OF inv that] by simp
  show ?thesis
  proof (rule sp_invI, unfold vars alive count nxt)
    show "finite (dom ((sp_vars s)(v \<mapsto> (?c, p))))" using sp_invD(1) [OF inv] by simp
    show "card (dom ((sp_vars s)(v \<mapsto> (?c, p)))) < 2 ^ 31"
      using room sp_invD(1) [OF inv] fresh by (simp only: card_dom_new room_def)
    show "((sp_count s)(?c \<mapsto> 1)) c = (if sharers ((sp_vars s)(v \<mapsto> (?c, p))) c = {} then None
        else Some (of_nat (card (sharers ((sp_vars s)(v \<mapsto> (?c, p))) c))))" for c
      using sp_invD(3) [OF inv, of c] by (simp add: sh)
  next
    fix u w c d q r
    assume u: "((sp_vars s)(v \<mapsto> (?c, p))) u = Some (c, q)"
    show "((sp_vars s)(v \<mapsto> (?c, p))) w = Some (c, r) \<Longrightarrow> q = r"
      using u old sp_invD(4) [OF inv] by (fastforce split: if_splits)
    show "((sp_vars s)(v \<mapsto> (?c, p))) w = Some (d, q) \<Longrightarrow> q \<noteq> 0 \<Longrightarrow> c = d"
      using u p sp_invD(5) [OF inv] by (fastforce simp: owned_def split: if_splits)
    show "c < Suc ?c \<and> (q \<noteq> 0 \<longrightarrow> sp_alive s q)"
      using u p sp_invD(6,7) [OF inv] by (fastforce split: if_splits)
  qed
qed

lemma SharedPtr_copy_run:
  assumes inv: "sp_inv s" and u: "sp_vars s u = Some (c, p)"
  shows "SharedPtr_copy v u s = Some (s\<lparr>sp_count := (sp_count s)(c \<mapsto> of_nat (card (sharers (sp_vars s) c)) + 1),
      sp_vars := (sp_vars s)(v \<mapsto> (c, p))\<rparr>)"
  using u sp_count_sharer [OF inv u] by (simp add: SharedPtr_copy_def ReferenceCounter_duplicate_def)

lemma sp_inv_copy:
  assumes inv: "sp_inv s" and fresh: "sp_vars s v = None" and room: "room s" and u: "sp_vars s u = Some (c, p)"
    and copy: "SharedPtr_copy v u s = Some s'"
  shows "sp_inv s'"
proof -
  let ?n = "card (sharers (sp_vars s) c)"
  have s': "s' = s\<lparr>sp_count := (sp_count s)(c \<mapsto> of_nat ?n + 1), sp_vars := (sp_vars s)(v \<mapsto> (c, p))\<rparr>"
    using copy SharedPtr_copy_run [OF inv u] by simp
  have vars: "sp_vars s' = (sp_vars s)(v \<mapsto> (c, p))" and count: "sp_count s' = (sp_count s)(c \<mapsto> of_nat ?n + 1)"
    and alive: "sp_alive s' = sp_alive s" and nxt: "sp_next s' = sp_next s" by (simp_all add: s')
  have sh: "sharers ((sp_vars s)(v \<mapsto> (c, p))) d = (if d = c then insert v (sharers (sp_vars s) d) else sharers (sp_vars s) d)" for d
    using fresh by (simp add: sharers_upd(1))
  have "v \<notin> sharers (sp_vars s) c" using fresh by (simp add: sharers_def)
  then have n: "card (insert v (sharers (sp_vars s) c)) = ?n + 1" using finite_sharers [OF inv] by simp
  show ?thesis
  proof (rule sp_invI, unfold vars count alive nxt)
    show "finite (dom ((sp_vars s)(v \<mapsto> (c, p))))" using sp_invD(1) [OF inv] by simp
    show "card (dom ((sp_vars s)(v \<mapsto> (c, p)))) < 2 ^ 31"
      using room sp_invD(1) [OF inv] fresh by (simp only: card_dom_new room_def)
    show "((sp_count s)(c \<mapsto> of_nat ?n + 1)) d = (if sharers ((sp_vars s)(v \<mapsto> (c, p))) d = {} then None
        else Some (of_nat (card (sharers ((sp_vars s)(v \<mapsto> (c, p))) d))))" for d
      using sp_invD(3) [OF inv, of d] n by (simp add: sh)
  next
    fix w x d e q r
    have origin: "\<exists>y'. sp_vars s y' = Some z" if "((sp_vars s)(v \<mapsto> (c, p))) y = Some z" for y z
      using that u by (auto split: if_splits)
    assume "((sp_vars s)(v \<mapsto> (c, p))) w = Some (d, q)"
    then obtain w' where w': "sp_vars s w' = Some (d, q)" using origin by blast
    show "((sp_vars s)(v \<mapsto> (c, p))) x = Some (d, r) \<Longrightarrow> q = r"
      using origin [of x "(d, r)"] sp_invD(4) [OF inv w'] by blast
    show "((sp_vars s)(v \<mapsto> (c, p))) x = Some (e, q) \<Longrightarrow> q \<noteq> 0 \<Longrightarrow> d = e"
      using origin [of x "(e, q)"] sp_invD(5) [OF inv w'] by blast
    show "d < sp_next s \<and> (q \<noteq> 0 \<longrightarrow> sp_alive s q)" using w' sp_invD(6,7) [OF inv w'] by blast
  qed
qed

lemma of_nat_int32_minus_one:
  assumes "0 < n" and "n < 2 ^ 31"
  shows "(of_nat n :: int32) - 1 = of_nat (n - 1)" and "(of_nat (n - 1) :: int32) = 0 \<longleftrightarrow> n = 1"
proof -
  show "(of_nat n :: int32) - 1 = of_nat (n - 1)" using assms(1) by (simp add: of_nat_diff)
  have "(of_nat k :: int32) = 0 \<longleftrightarrow> k = 0" if "k < 2 ^ 31" for k
    using that by (simp add: word_of_nat_eq_0_iff) (use dvd_imp_le in fastforce)
  from this [of "n - 1"] assms show "(of_nat (n - 1) :: int32) = 0 \<longleftrightarrow> n = 1"
    by (simp del: of_nat_diff) linarith
qed

text \<open>Releasing what one pointer holds: the object goes with its last pointer.\<close>

lemma SharedPtr_release_run:
  assumes inv: "sp_inv s" and v: "sp_vars s v = Some (c, p)"
  shows "SharedPtr_release (c, p) s =
    Some (if sharers (sp_vars s) c = {v}
          then s\<lparr>sp_alive := (if p = 0 then sp_alive s else (sp_alive s)(p := False)), sp_count := (sp_count s)(c := None)\<rparr>
          else s\<lparr>sp_count := (sp_count s)(c \<mapsto> of_nat (card (sharers (sp_vars s) c) - 1))\<rparr>)"
proof -
  let ?n = "card (sharers (sp_vars s) c)"
  have mem: "v \<in> sharers (sp_vars s) c" using v by (auto simp: sharers_def)
  then have pos: "0 < ?n" using finite_sharers [OF inv] by (auto simp: card_gt_0_iff)
  have one: "?n = 1 \<longleftrightarrow> sharers (sp_vars s) c = {v}" using mem by (auto simp: card_1_singleton_iff)
  note w = of_nat_int32_minus_one [OF pos card_sharers [OF inv]]
  have alive: "p \<noteq> 0 \<Longrightarrow> sp_alive s p" using sp_invD(7) [OF inv v] .
  show ?thesis
    using alive unfolding SharedPtr_release_def one [symmetric] fst_conv snd_conv sp_count_sharer [OF inv v]
      Option.bind.bind_lunit Let_def w
    by (auto simp: ReleasePolicy_release_def)
qed

lemma sp_inv_drop:
  assumes inv: "sp_inv s" and v: "sp_vars s v = Some (c, p)" and rel: "SharedPtr_release (c, p) s = Some s1"
  shows "sp_inv (s1\<lparr>sp_vars := (sp_vars s)(v := None)\<rparr>)" and "sp_next s1 = sp_next s"
    and "sp_alive s1 q \<longleftrightarrow> sp_alive s q \<and> (q = p \<and> p \<noteq> 0 \<longrightarrow> (\<exists>u. u \<noteq> v \<and> sp_vars s u = Some (c, p)))"
proof -
  let ?n = "card (sharers (sp_vars s) c)"
  have s1: "s1 = (if sharers (sp_vars s) c = {v}
          then s\<lparr>sp_alive := (if p = 0 then sp_alive s else (sp_alive s)(p := False)), sp_count := (sp_count s)(c := None)\<rparr>
          else s\<lparr>sp_count := (sp_count s)(c \<mapsto> of_nat (?n - 1))\<rparr>)"
    using rel SharedPtr_release_run [OF inv v] by simp
  then show "sp_next s1 = sp_next s" by simp
  have mem: "v \<in> sharers (sp_vars s) c" using v by (auto simp: sharers_def)
  have last: "sharers (sp_vars s) c = {v} \<longleftrightarrow> \<not> (\<exists>u. u \<noteq> v \<and> sp_vars s u = Some (c, p))"
    using mem sp_invD(4) [OF inv v] by (auto simp: sharers_def)
  then show alive: "sp_alive s1 q \<longleftrightarrow> sp_alive s q \<and> (q = p \<and> p \<noteq> 0 \<longrightarrow> (\<exists>u. u \<noteq> v \<and> sp_vars s u = Some (c, p)))" for q
    by (simp add: s1)
  have fields: "sp_vars (s1\<lparr>sp_vars := vs\<rparr>) = vs" "sp_count (s1\<lparr>sp_vars := vs\<rparr>) = sp_count s1"
    "sp_alive (s1\<lparr>sp_vars := vs\<rparr>) = sp_alive s1" "sp_next (s1\<lparr>sp_vars := vs\<rparr>) = sp_next s1" for vs
    by simp_all
  show "sp_inv (s1\<lparr>sp_vars := (sp_vars s)(v := None)\<rparr>)"
  proof (rule sp_invI, unfold fields)
    show "finite (dom ((sp_vars s)(v := None)))" using sp_invD(1) [OF inv] by simp
    show "card (dom ((sp_vars s)(v := None))) < 2 ^ 31"
      using sp_invD(1,2) [OF inv] card_mono [of "dom (sp_vars s)" "dom ((sp_vars s)(v := None))"] by auto
    show "sp_count s1 d = (if sharers ((sp_vars s)(v := None)) d = {} then None
        else Some (of_nat (card (sharers ((sp_vars s)(v := None)) d))))" for d
    proof (cases "d = c")
      case True
      have "sharers (sp_vars s) c - {v} = {} \<longleftrightarrow> sharers (sp_vars s) c = {v}" using mem by auto
      with True mem finite_sharers [OF inv, of c] show ?thesis by (simp add: s1 sharers_upd(2))
    next
      case False
      with v have "sharers (sp_vars s) d - {v} = sharers (sp_vars s) d" by (auto simp: sharers_def)
      with False sp_invD(3) [OF inv, of d] show ?thesis by (simp add: s1 sharers_upd(2))
    qed
  next
    fix u w d e q r
    assume u: "((sp_vars s)(v := None)) u = Some (d, q)"
    then have u': "u \<noteq> v" "sp_vars s u = Some (d, q)" by (auto split: if_splits)
    show "((sp_vars s)(v := None)) w = Some (d, r) \<Longrightarrow> q = r"
      using sp_invD(4) [OF inv u'(2)] by (auto split: if_splits)
    show "((sp_vars s)(v := None)) w = Some (e, q) \<Longrightarrow> q \<noteq> 0 \<Longrightarrow> d = e"
      using sp_invD(5) [OF inv u'(2)] by (auto split: if_splits)
    have "d = c" if "q = p" "p \<noteq> 0" using sp_invD(5) [OF inv u'(2)] v that by blast
    with u' show "d < sp_next s1 \<and> (q \<noteq> 0 \<longrightarrow> sp_alive s1 q)"
      using sp_invD(6,7) [OF inv u'(2)] alive [of q] \<open>sp_next s1 = sp_next s\<close> by auto
  qed
qed

lemma sp_inv_rename:
  assumes inv: "sp_inv s" and w: "sp_vars s w = Some x" and v: "sp_vars s v = None"
  shows "sp_inv (s\<lparr>sp_vars := (sp_vars s)(w := None, v := Some x)\<rparr>)"
proof -
  let ?f = "\<lambda>y. if y = v then w else y" and ?vs = "(sp_vars s)(w := None, v := Some x)"
  have vw: "v \<noteq> w" using v w by auto
  have origin: "sp_vars s (?f u) = Some y" if "?vs u = Some y" for u y
    using that w by (auto split: if_splits)
  have inj: "inj_on ?f (dom ?vs)" using vw by (auto simp: inj_on_def split: if_splits)
  have img: "?f ` sharers ?vs c = sharers (sp_vars s) c" for c
    using vw v w by (cases x) (fastforce simp: sharers_def image_iff split: if_splits)
  have dom: "?f ` dom ?vs = dom (sp_vars s)" using vw v w by (auto simp: image_iff split: if_splits)
  have card: "card (sharers ?vs c) = card (sharers (sp_vars s) c)" for c
    using card_image [OF inj_on_subset [OF inj sharers_dom [of ?vs c]]] unfolding img by simp
  have empty: "sharers ?vs c = {} \<longleftrightarrow> sharers (sp_vars s) c = {}" for c using img [of c] by auto
  have fields: "sp_vars (s\<lparr>sp_vars := vs\<rparr>) = vs" "sp_count (s\<lparr>sp_vars := vs\<rparr>) = sp_count s"
    "sp_alive (s\<lparr>sp_vars := vs\<rparr>) = sp_alive s" "sp_next (s\<lparr>sp_vars := vs\<rparr>) = sp_next s" for vs
    by simp_all
  show ?thesis
  proof (rule sp_invI, unfold fields)
    show "finite (dom ?vs)" using sp_invD(1) [OF inv] by simp
    show "card (dom ?vs) < 2 ^ 31" using sp_invD(2) [OF inv] card_image [OF inj] unfolding dom by simp
    show "sp_count s c = (if sharers ?vs c = {} then None else Some (of_nat (card (sharers ?vs c))))" for c
      using sp_invD(3) [OF inv, of c] by (simp add: card empty)
  next
    fix u y c d p q
    assume u: "?vs u = Some (c, p)"
    show "?vs y = Some (c, q) \<Longrightarrow> p = q" using origin [OF u] origin sp_invD(4) [OF inv] by blast
    show "?vs y = Some (d, p) \<Longrightarrow> p \<noteq> 0 \<Longrightarrow> c = d" using origin [OF u] origin sp_invD(5) [OF inv] by blast
    show "c < sp_next s \<and> (p \<noteq> 0 \<longrightarrow> sp_alive s p)" using sp_invD(6,7) [OF inv origin [OF u]] by blast
  qed
qed

lemma sp_inv_destroy:
  assumes "sp_inv s" and "SharedPtr_destroy v s = Some s'"
  shows "sp_inv s'"
proof -
  from assms(2) obtain c p s1 where v: "sp_vars s v = Some (c, p)" and rel: "SharedPtr_release (c, p) s = Some s1"
    and s': "s' = s1\<lparr>sp_vars := (sp_vars s1)(v := None)\<rparr>"
    by (auto simp: SharedPtr_destroy_def bind_eq_Some_conv)
  have "sp_vars s1 = sp_vars s" using rel SharedPtr_release_run [OF assms(1) v] by (auto split: if_splits)
  with sp_inv_drop(1) [OF assms(1) v rel] s' show ?thesis by simp
qed

lemma release_vars:
  "SharedPtr_release cp (s\<lparr>sp_vars := vs\<rparr>) = map_option (\<lambda>s'. s'\<lparr>sp_vars := vs\<rparr>) (SharedPtr_release cp s)"
  by (auto simp: SharedPtr_release_def ReleasePolicy_release_def Let_def bind_eq_Some_conv
      split: option.split Option.bind_splits)

lemma release_counter:
  "c \<noteq> fst cp \<Longrightarrow> SharedPtr_release cp (s\<lparr>sp_count := (sp_count s)(c \<mapsto> n), sp_next := k\<rparr>) =
     map_option (\<lambda>s'. s'\<lparr>sp_count := (sp_count s')(c \<mapsto> n), sp_next := k\<rparr>) (SharedPtr_release cp s)"
  by (cases "sp_count s (fst cp)")
    (simp_all add: SharedPtr_release_def ReleasePolicy_release_def Let_def fun_upd_twist)

lemma sp_inv_assign:
  assumes inv: "sp_inv s" and room: "room s" and uv: "u \<noteq> v"
    and u: "sp_vars s u = Some (c, p)" and v: "sp_vars s v = Some (d, q)"
  shows "\<exists>s'. SharedPtr_assign v u s = Some s' \<and> sp_inv s' \<and> sp_vars s' = (sp_vars s)(v \<mapsto> (c, p))"
proof -
  obtain w where "w \<notin> dom (sp_vars s)"
    using sp_invD(1) [OF inv] ex_new_if_finite [OF infinite_UNIV_nat, of "dom (sp_vars s)"] by blast
  then have w: "sp_vars s w = None" unfolding domIff by blast
  define s1 where "s1 = s\<lparr>sp_count := (sp_count s)(c \<mapsto> of_nat (card (sharers (sp_vars s) c)) + 1)\<rparr>"
  define s2 where "s2 = s1\<lparr>sp_vars := (sp_vars s)(w \<mapsto> (c, p))\<rparr>"
  have "SharedPtr_copy w u s = Some s2" using SharedPtr_copy_run [OF inv u] by (simp add: s2_def s1_def)
  then have inv2: "sp_inv s2" by (rule sp_inv_copy [OF inv w room u])
  have v2: "sp_vars s2 v = Some (d, q)" using v w by (auto simp: s2_def)
  then obtain s3 where s3: "SharedPtr_release (d, q) s2 = Some s3" "sp_vars s3 = sp_vars s2"
    using SharedPtr_release_run [OF inv2] by auto
  from sp_inv_drop(1) [OF inv2 v2 s3(1)]
  have "sp_inv (s3\<lparr>sp_vars := ((sp_vars s)(w \<mapsto> (c, p)))(v := None)\<rparr>)" by (simp add: s2_def)
  moreover have "w \<noteq> v" using v w by auto
  ultimately have "sp_inv (s3\<lparr>sp_vars := (sp_vars s)(w \<mapsto> (c, p), v := None, w := None, v \<mapsto> (c, p))\<rparr>)"
    using sp_inv_rename [of "s3\<lparr>sp_vars := ((sp_vars s)(w \<mapsto> (c, p)))(v := None)\<rparr>" w "(c, p)" v] by simp
  moreover have "(sp_vars s)(w \<mapsto> (c, p), v := None, w := None, v \<mapsto> (c, p)) = (sp_vars s)(v \<mapsto> (c, p))"
    using w by (auto simp: fun_eq_iff)
  moreover have "SharedPtr_release (d, q) s1 = Some (s3\<lparr>sp_vars := sp_vars s\<rparr>)"
    using s3(1) release_vars [where cp = "(d, q)" and s = s2 and vs = "sp_vars s"] by (simp add: s2_def s1_def)
  then have "SharedPtr_assign v u s = Some (s3\<lparr>sp_vars := (sp_vars s)(v \<mapsto> (c, p))\<rparr>)"
    using uv u v sp_count_sharer [OF inv u] release_vars [where cp = "(d, q)" and s = s1 and vs = "(sp_vars s)(v \<mapsto> (c, p))"]
    by (simp add: SharedPtr_assign_def ReferenceCounter_duplicate_def s1_def)
  ultimately show ?thesis by simp
qed

lemma sp_inv_assign_raw:
  assumes inv: "sp_inv s" and p: "p = 0 \<or> sp_alive s p \<and> (\<not> owned s p \<or> (\<exists>c. sp_vars s v = Some (c, p)))"
    and assign: "SharedPtr_assign_raw v p s = Some s'"
  shows "sp_inv s'"
proof -
  from assign obtain d q where v: "sp_vars s v = Some (d, q)" by (auto simp: SharedPtr_assign_raw_def bind_eq_Some_conv)
  show ?thesis
  proof (cases "q = p")
    case True
    with assign v inv show ?thesis by (simp add: SharedPtr_assign_raw_def)
  next
    case False
    from SharedPtr_release_run [OF inv v] obtain s1 where
      s1: "SharedPtr_release (d, q) s = Some s1" and vars: "sp_vars s1 = sp_vars s" by auto
    let ?s = "s1\<lparr>sp_vars := (sp_vars s)(v := None)\<rparr>"
    have inv1: "sp_inv ?s" and nxt: "sp_next s1 = sp_next s" using sp_inv_drop [OF inv v s1] by simp_all
    have "card (dom ((sp_vars s)(v := None))) < card (dom (sp_vars s))"
      using v sp_invD(1) [OF inv] by (intro psubset_card_mono) (auto simp: domIff)
    then have "room ?s" using sp_invD(2) [OF inv] by (simp add: room_def)
    moreover have "p = 0 \<or> sp_alive ?s p \<and> \<not> owned ?s p"
      using p False v sp_inv_drop(3) [OF inv v s1, of p] by (auto simp: owned_def split: if_splits)
    ultimately have "sp_inv (SharedPtr_new v p ?s)" using sp_inv_new [OF inv1] by simp
    moreover have "d \<noteq> sp_next s" using sp_invD(6) [OF inv v] by simp
    then have "s' = SharedPtr_new v p ?s"
      using assign False v s1 vars nxt release_counter [where c = "sp_next s" and cp = "(d, q)" and s = s and n = 1 and k = "Suc (sp_next s)"]
      by (simp add: SharedPtr_assign_raw_def ReferenceCounter_new_def SharedPtr_new_def Let_def)
    ultimately show ?thesis by simp
  qed
qed

lemma sp_inv_allocate:
  "sp_inv s \<Longrightarrow> sp_inv (s\<lparr>sp_alive := (sp_alive s)(p := True)\<rparr>)"
  unfolding sp_inv_def by auto

lemma SharedPtr_cast_cases:
  assumes "SharedPtr_cast ok v u s = Some s'"
  shows "SharedPtr_copy v u s = Some s' \<or> s' = SharedPtr_new v 0 s"
  using assms by (auto simp: SharedPtr_cast_def bind_eq_Some_conv split: if_splits)

lemma sp_inv_swap:
  assumes inv: "sp_inv s" and v: "sp_vars s v = Some x" and u: "sp_vars s u = Some y"
  shows "sp_inv (SharedPtr_swap v u s)"
proof (cases "u = v")
  case True
  then have "(sp_vars s)(v := sp_vars s u, u := sp_vars s v) = sp_vars s" by auto
  with inv show ?thesis by (simp add: SharedPtr_swap_def)
next
  case False
  obtain w where "w \<notin> dom (sp_vars s)"
    using sp_invD(1) [OF inv] ex_new_if_finite [OF infinite_UNIV_nat, of "dom (sp_vars s)"] by blast
  then have "sp_vars s w = None" unfolding domIff by blast
  with v u have w: "sp_vars s w = None" "w \<noteq> v" "w \<noteq> u" by auto
  have "sp_inv (s\<lparr>sp_vars := (sp_vars s)(v := None, w := Some x)\<rparr>)" using sp_inv_rename [OF inv v w(1)] .
  from sp_inv_rename [OF this, of u y v] w False u
  have "sp_inv (s\<lparr>sp_vars := (sp_vars s)(v := None, w := Some x, u := None, v := Some y)\<rparr>)" by simp
  from sp_inv_rename [OF this, of w x u] w False
  have "sp_inv (s\<lparr>sp_vars := (sp_vars s)(v := None, w := Some x, u := None, v := Some y, w := None, u := Some x)\<rparr>)"
    by simp
  moreover have "(sp_vars s)(v := None, w := Some x, u := None, v := Some y, w := None, u := Some x)
      = (sp_vars s)(v := sp_vars s u, u := sp_vars s v)"
    using w v u by (auto simp: fun_eq_iff)
  ultimately show ?thesis by (simp add: SharedPtr_swap_def)
qed

lemma sp_step_inv:
  assumes "sp_step s s'" and "sp_inv s"
  shows "sp_inv s'"
  using assms
proof (cases rule: sp_step.cases)
  case (allocate p)
  with assms(2) sp_inv_allocate show ?thesis by simp
next
  case (new v p)
  with assms(2) sp_inv_new show ?thesis by simp
next
  case (copy v u)
  then obtain c p where "sp_vars s u = Some (c, p)" by (auto simp: SharedPtr_copy_def bind_eq_Some_conv)
  with copy assms(2) sp_inv_copy show ?thesis by blast
next
  case (cast v ok u)
  from SharedPtr_cast_cases [OF cast(3)] show ?thesis
  proof
    assume s': "SharedPtr_copy v u s = Some s'"
    then obtain c p where "sp_vars s u = Some (c, p)" by (auto simp: SharedPtr_copy_def bind_eq_Some_conv)
    with s' cast assms(2) sp_inv_copy show ?thesis by blast
  next
    assume "s' = SharedPtr_new v 0 s"
    with sp_inv_new [OF assms(2) cast(1,2), of 0] show ?thesis by simp
  qed
next
  case (destroy v)
  with assms(2) sp_inv_destroy show ?thesis by blast
next
  case (assign v u)
  show ?thesis
  proof (cases "u = v")
    case True
    with assign assms(2) show ?thesis by (simp add: SharedPtr_assign_def)
  next
    case False
    with assign obtain c p d q where "sp_vars s u = Some (c, p)" "sp_vars s v = Some (d, q)"
      by (auto simp: SharedPtr_assign_def ReferenceCounter_duplicate_def bind_eq_Some_conv)
    with sp_inv_assign [OF assms(2) assign(1) False] assign show ?thesis by fastforce
  qed
next
  case (assign_other v u)
  then obtain c p d q where vu: "sp_vars s u = Some (c, p)" "sp_vars s v = Some (d, q)"
    by (auto simp: SharedPtr_assign_other_def bind_eq_Some_conv)
  show ?thesis
  proof (cases "p = q")
    case True
    with assign_other(2) vu assms(2) show ?thesis by (simp add: SharedPtr_assign_other_def)
  next
    case False
    then have "u \<noteq> v" using vu by auto
    moreover have "SharedPtr_assign_other v u s = SharedPtr_assign v u s"
      using False \<open>u \<noteq> v\<close> vu
      by (cases "sp_count s c") (simp_all add: SharedPtr_assign_other_def SharedPtr_assign_def ReferenceCounter_duplicate_def)
    ultimately show ?thesis using sp_inv_assign [OF assms(2) assign_other(1) _ vu] assign_other(2) by fastforce
  qed
next
  case (assign_raw p v)
  with assms(2) sp_inv_assign_raw show ?thesis by blast
next
  case (swap v u)
  then obtain x y where "sp_vars s v = Some x" "sp_vars s u = Some y" by auto
  with sp_inv_swap [OF assms(2)] swap show ?thesis by simp
qed

lemma sp_reachable_inv: "sp_reachable s \<Longrightarrow> sp_inv s"
proof (induction rule: sp_reachable.induct)
  case start
  show ?case by (simp add: sp_inv_def sp_initial_def sharers_def)
next
  case (step s s')
  then show ?case using sp_step_inv by blast
qed

text \<open>An object with two pointers.\<close>

definition demo_pointers :: sp_store where
  "demo_pointers = (SharedPtr_new 0 7 (sp_initial\<lparr>sp_alive := (\<lambda>p. p = 7)\<rparr>))
     \<lparr>sp_count := [1 \<mapsto> 2], sp_vars := [0 \<mapsto> (1, 7), 1 \<mapsto> (1, 7)]\<rparr>"

section \<open>Properties\<close>

text \<open>C20: in every history of a program that hands each object to one pointer only, each counter is the
  number of its pointers, what a pointer holds is alive, every destruction succeeds, and it deletes the
  object exactly if no other pointer holds it.\<close>

theorem SharedPtr_counts:
  assumes "sp_reachable s" and "sp_vars s v = Some (c, p)"
  shows "sp_count s c = Some (of_nat (card {u. \<exists>q. sp_vars s u = Some (c, q)})) \<and> (p \<noteq> 0 \<longrightarrow> sp_alive s p)
    \<and> (\<exists>s'. SharedPtr_destroy v s = Some s'
        \<and> (\<forall>q. sp_alive s' q \<longleftrightarrow> sp_alive s q \<and> (q = p \<and> p \<noteq> 0 \<longrightarrow> (\<exists>u d. u \<noteq> v \<and> sp_vars s u = Some (d, p)))))"
proof -
  have inv: "sp_inv s" by (rule sp_reachable_inv [OF assms(1)])
  obtain s1 where s1: "SharedPtr_release (c, p) s = Some s1" using SharedPtr_release_run [OF inv assms(2)] by simp
  then have "SharedPtr_destroy v s = Some (s1\<lparr>sp_vars := (sp_vars s1)(v := None)\<rparr>)"
    using assms(2) by (simp add: SharedPtr_destroy_def)
  moreover have "sp_alive s1 q \<longleftrightarrow> sp_alive s q \<and> (q = p \<and> p \<noteq> 0 \<longrightarrow> (\<exists>u d. u \<noteq> v \<and> sp_vars s u = Some (d, p)))" for q
    using sp_inv_drop(3) [OF inv assms(2) s1, of q] sp_invD(5) [OF inv assms(2)] by blast
  ultimately show ?thesis
    using sp_count_sharer [OF inv assms(2)] sp_invD(7) [OF inv assms(2)] by (simp add: sharers_def)
qed

theorem SharedPtr_counts_witness:
  "sp_reachable demo_pointers \<and> (\<exists>s'. SharedPtr_destroy 0 demo_pointers = Some s' \<and> sp_alive s' 7)"
proof -
  let ?s1 = "sp_initial\<lparr>sp_alive := (sp_alive sp_initial)(7 := True)\<rparr>"
  have "sp_step sp_initial ?s1" by (rule sp_step.allocate) (simp_all add: sp_initial_def)
  then have "sp_reachable ?s1" by (rule sp_reachable.step [OF sp_reachable.start])
  moreover have "sp_step ?s1 (SharedPtr_new 0 7 ?s1)"
    by (rule sp_step.new) (simp_all add: sp_initial_def room_def owned_def)
  ultimately have "sp_reachable (SharedPtr_new 0 7 ?s1)" by (rule sp_reachable.step)
  moreover have "SharedPtr_copy 1 0 (SharedPtr_new 0 7 ?s1) = Some demo_pointers"
    by (simp add: SharedPtr_copy_def SharedPtr_new_def ReferenceCounter_new_def ReferenceCounter_duplicate_def
        sp_initial_def demo_pointers_def fun_eq_iff)
  then have "sp_step (SharedPtr_new 0 7 ?s1) demo_pointers"
    by (rule sp_step.copy [rotated 2]) (simp_all add: SharedPtr_new_def ReferenceCounter_new_def sp_initial_def room_def)
  ultimately have reach: "sp_reachable demo_pointers" by (rule sp_reachable.step)
  have vars: "sp_vars demo_pointers 0 = Some (1, 7)" "sp_vars demo_pointers 1 = Some (1, 7)" "sp_alive demo_pointers 7"
    by (simp_all add: demo_pointers_def SharedPtr_new_def ReferenceCounter_new_def)
  from SharedPtr_counts [OF reach vars(1)] obtain s' where s': "SharedPtr_destroy 0 demo_pointers = Some s'"
    "sp_alive s' 7 \<longleftrightarrow> sp_alive demo_pointers 7 \<and> (\<exists>u d. u \<noteq> 0 \<and> sp_vars demo_pointers u = Some (d, 7))" by auto
  with vars have "sp_alive s' 7" by (metis zero_neq_one)
  with reach s' show ?thesis by blast
qed

text \<open>Two pointers made from the same ordinary pointer have a counter each: the second one to go deletes the
  object again.\<close>

theorem SharedPtr_two_owners:
  assumes "p \<noteq> 0" and "v \<noteq> u" and "sp_alive s p"
  shows "\<exists>s1. SharedPtr_destroy v (SharedPtr_new u p (SharedPtr_new v p s)) = Some s1 \<and> SharedPtr_destroy u s1 = None"
  using assms
  by (simp add: SharedPtr_new_def ReferenceCounter_new_def SharedPtr_destroy_def SharedPtr_release_def
      ReleasePolicy_release_def Let_def)

end
