(* ===== verification/Spec2Isabelle.thy ===== *)
theory Spec2Isabelle
  imports Kroll_AppURL Kroll_HostLaws Kroll_ApiStart Kroll_Proxy Kroll_Boot Kroll_SharedPtr
begin

text \<open>
  A verification development for Kroll, the runtime that embeds script languages in desktop
  applications. The sources are in \<^verbatim>\<open>src/\<close>; the model follows the C++ code of the Linux build.

  \<^bold>\<open>The program and its model.\<close> A Kroll application is a directory with a manifest that names the
  runtime, modules and SDKs it needs. The boot code scans the installed and bundled components and
  resolves these dependencies. The host process then loads the modules, runs their life cycle and the
  main loop. Modules and scripts talk to each other through the binding layer: variant values,
  objects, methods and lists, reached from a global object by dotted names; events, jobs and script
  evaluators are built on it.

  \<^item> \<^verbatim>\<open>Kroll_Prelude\<close>: the parts of \<^verbatim>\<open>std::string\<close> and of C the sources use, machine integers, decimal
    numerals, and the collections of rewrite rules for them.
  \<^item> \<^verbatim>\<open>Kroll_FileUtils\<close> (\<^verbatim>\<open>api/utils/file_utils.cpp\<close>, \<^verbatim>\<open>posix/file_utils_posix.cpp\<close>): tokens, trimming,
    joining and splitting of paths; the file system is a record of its system calls. Tokenize is equal
    to a reference definition, Join inverts the split into directory and base name.
  \<^item> \<^verbatim>\<open>Kroll_URLUtils\<close> (\<^verbatim>\<open>api/utils/url_utils.cpp\<close>): percent encoding with its tables and its round
    trip, file URLs, normalisation.
  \<^item> \<^verbatim>\<open>Kroll_BootUtils\<close> (\<^verbatim>\<open>api/utils/boot_utils.cpp\<close>): components, dependencies, manifests, the scan of
    installed components. The locale \<^verbatim>\<open>strict_weak_order\<close> is the contract of \<^verbatim>\<open>std::stable_sort\<close>; its
    interpretation is the comparison of components.
  \<^item> \<^verbatim>\<open>Kroll_Application\<close> (\<^verbatim>\<open>api/utils/application.cpp\<close>): the application of a manifest, arguments,
    dependency resolution, URLs of the distribution server. The properties characterise what a
    dependency resolves to and what is reported as missing.
  \<^item> \<^verbatim>\<open>Kroll_AppURL\<close> (\<^verbatim>\<open>api/utils/url_utils.cpp\<close>): the paths of \<^verbatim>\<open>ti\<close> and \<^verbatim>\<open>app\<close> URLs, over a parser of URIs.
  \<^item> \<^verbatim>\<open>Kroll_DataUtils\<close> (\<^verbatim>\<open>api/utils/data_utils.cpp\<close>, \<^verbatim>\<open>poco/KMD5Engine.cpp\<close>, \<^verbatim>\<open>kashmir/uuid.h\<close>): the MD5 engine,
    which refines the digest of the whole message, and UUIDs with their round trip.
  \<^item> \<^verbatim>\<open>Kroll_System\<close> (\<^verbatim>\<open>environment_utils.cpp\<close>, \<^verbatim>\<open>platform_utils.cpp\<close>, the Linux and POSIX utilities): the
    environment, directories, files, commands and the machine identification, over the record \<^verbatim>\<open>world\<close> of a
    process and the record \<^verbatim>\<open>machine\<close> of the system calls. The locale \<^verbatim>\<open>environment_store\<close> is the contract of
    the environment and is interpreted on \<^verbatim>\<open>getenv\<close>, \<^verbatim>\<open>setenv\<close> and \<^verbatim>\<open>unsetenv\<close>.
  \<^item> \<^verbatim>\<open>Kroll_Boot\<close> (\<^verbatim>\<open>boot/boot.cpp\<close>, \<^verbatim>\<open>boot/boot_linux.cpp\<close>): the boot program. The properties say when it launches
    (\<^verbatim>\<open>load_application\<close>, then \<^verbatim>\<open>resolve_and_launch\<close>), which application it then launches, and that the restarted
    process and the host in it read what was resolved.
  \<^item> \<^verbatim>\<open>Kroll_SharedPtr\<close> (\<^verbatim>\<open>api/utils/poco/KSharedPtr.h\<close>): the counted pointer of the boot program; its histories are a
    step relation with the invariant that counters count and objects live as long as a pointer to them. Both
    assignments are steps, that from a pointer of the same class and that from a pointer of another class.
  \<^item> \<^verbatim>\<open>Kroll_Proxy\<close> (\<^verbatim>\<open>api/net/proxy_config.cpp\<close> and its Linux and Windows parts): proxies and the bypass list.
  \<^item> \<^verbatim>\<open>Kroll_Value\<close> (\<^verbatim>\<open>api/binding/value.cpp\<close>): the variant with its separately stored fields, doubles
    with signed zero, infinities and NaN, casts and comparison.
  \<^item> \<^verbatim>\<open>Kroll_Heap\<close>: the store. A shared pointer is an address; values and objects live in two maps;
    computations take a store and return an exception or a result with a store. The store also holds the state of
    the process that objects reach (\<^verbatim>\<open>process_state\<close>): its world, loggers, applications and output. The locale
    \<^verbatim>\<open>std_map\<close> is the contract of \<^verbatim>\<open>std::map\<close> and is interpreted on the property maps.
  \<^item> \<^verbatim>\<open>Kroll_Objects\<close>, \<^verbatim>\<open>Kroll_Classes\<close> (\<^verbatim>\<open>api/binding/*.cpp\<close>): the classes of the layer and the
    virtual functions. \<^verbatim>\<open>vtable n\<close> dispatches on the class of an object; \<^verbatim>\<open>n\<close> bounds the depth of virtual
    calls, and code outside of the model enters as callbacks.
  \<^item> \<^verbatim>\<open>Kroll_ObjectLaws\<close>: the store invariant \<^verbatim>\<open>wf_heap\<close>, the judgement \<^verbatim>\<open>sound\<close> (an operation keeps
    the invariant whether it returns or throws), the contract \<^verbatim>\<open>virtual_table\<close> of the virtual functions
    and the contract \<^verbatim>\<open>native_code\<close> of callbacks, which gives the former.
  \<^item> \<^verbatim>\<open>Kroll_Namespace\<close>: \<^verbatim>\<open>SetNS\<close> and \<^verbatim>\<open>GetNS\<close> on paths of objects. \<^verbatim>\<open>Kroll_Lists\<close>: the contract \<^verbatim>\<open>klist\<close>
    and the static list.
  \<^item> \<^verbatim>\<open>Kroll_ArgList\<close>, \<^verbatim>\<open>Kroll_Blob\<close> (\<^verbatim>\<open>arg_list.cpp\<close>, \<^verbatim>\<open>blob.cpp\<close>): signatures and their check, byte
    buffers with their script interface.
  \<^item> \<^verbatim>\<open>Kroll_Show\<close> (\<^verbatim>\<open>DisplayString\<close> in \<^verbatim>\<open>api/binding/*.cpp\<close>): the displayed text of values, objects, lists and methods
    with the stream format of numbers; displaying keeps the store invariant.
  \<^item> \<^verbatim>\<open>Kroll_Jobs\<close> (\<^verbatim>\<open>host/linux/linux_job.cpp\<close>, \<^verbatim>\<open>host/linux/host.cpp\<close>, \<^verbatim>\<open>api/async_job.cpp\<close>): the queue of
    the main thread, the printing of the exceptions of its jobs, which may itself throw, and asynchronous jobs.
  \<^item> \<^verbatim>\<open>Kroll_Events\<close> (\<^verbatim>\<open>event.cpp\<close>, \<^verbatim>\<open>read_event.cpp\<close>, \<^verbatim>\<open>k_event_object.cpp\<close>): the registry of listeners as
    a step relation with its invariant, and the delivery of an event as an inductive relation that the
    code refines.
  \<^item> \<^verbatim>\<open>Kroll_Natives\<close>: the member functions as callbacks, and the interpretation of \<^verbatim>\<open>native_code\<close> on them;
    with it the invariant holds for every virtual call of the layer.
  \<^item> \<^verbatim>\<open>Kroll_Display\<close>: the displayed text of plain objects is that of a reference definition, and the display
    of a list that holds itself returns for an even number of levels only.
  \<^item> \<^verbatim>\<open>Kroll_Api\<close> (\<^verbatim>\<open>modules/api/api_binding.cpp\<close>, \<^verbatim>\<open>script_binding.cpp\<close>): the object \<^verbatim>\<open>API\<close> of scripts, whose
    functions keep the store invariant.
  \<^item> \<^verbatim>\<open>Kroll_ApiModule\<close> (\<^verbatim>\<open>modules/api/*.cpp\<close>): the rest of the API module. The log functions, component queries,
    dependencies, the installer, the environment, the wrappers, the bindings of components, dependencies and
    applications, and the dispatch of their member functions as callbacks. \<^verbatim>\<open>Kroll_ApiLaws\<close>: they satisfy
    \<^verbatim>\<open>native_code\<close>. \<^verbatim>\<open>Kroll_ApiProps\<close>: what scripts read from the lists of bindings, through the locale
    \<^verbatim>\<open>shown_binding\<close> of the binding classes; the exclusion of installers, as a history relation; the invariant
    with the module loaded. \<^verbatim>\<open>Kroll_ApiStart\<close> (\<^verbatim>\<open>api/host.cpp\<close>, \<^verbatim>\<open>api/script.cpp\<close>, \<^verbatim>\<open>modules/api/api_module.cpp\<close>): the
    global object and the start of the module, which return and leave the API object in reach of scripts.
  \<^item> \<^verbatim>\<open>Kroll_Logger\<close> (\<^verbatim>\<open>api/logger.cpp\<close>): loggers by dotted name, inherited levels, the root logger.
  \<^item> \<^verbatim>\<open>Kroll_Script\<close> (\<^verbatim>\<open>api/script.cpp\<close>, \<^verbatim>\<open>value_exception.cpp\<close>): the script evaluators.
  \<^item> \<^verbatim>\<open>Kroll_Host\<close>, \<^verbatim>\<open>Kroll_HostLaws\<close> (\<^verbatim>\<open>api/host.cpp\<close>, \<^verbatim>\<open>host/linux/host.cpp\<close>, \<^verbatim>\<open>api/module.h\<close>, the providers of
    the script modules): start-up, command line, module providers, the life cycle of modules, the run
    and the exit of the host. An exception of module code carries what its display throws, because the handlers
    of the host display it (\<^verbatim>\<open>display_throws\<close>). The locale \<^verbatim>\<open>rescan\<close> is the contract of the rescan that module code may
    enter; it is interpreted on the rescan itself.

  \<^bold>\<open>Errors.\<close> An exception is a value of a sum type; undefined behaviour of C++ (a null or deleted
  pointer, an access outside a string) is a result of its own (\<^verbatim>\<open>UB\<close>, \<^verbatim>\<open>HostUB\<close>, \<^verbatim>\<open>Crashes\<close>, or \<^const>\<open>None\<close> where
  there is no other failure). Machine integers keep their width: list lengths and listener ids are
  32 bit words, the lengths that code subtracts are taken modulo \<open>2\<^sup>6\<^sup>4\<close>.

  \<^bold>\<open>Fuel.\<close> Loops whose rounds depend on foreign code carry fuel, and running out of it is a result
  that no behaviour of the program has. The depth of virtual calls is bounded by the index of
  \<^verbatim>\<open>vtable\<close>; the invariant holds at every depth. Firing an event needs depth two, because the root
  object fires no further. Removing and resizing take as much fuel as the list is long, the search
  for an evaluator one more than there are evaluators. Making and reading the bindings of the API module needs
  depth two. The rescan of module files needs one more than
  the files that wait, since every round that continues has removed a file; that this is enough is
  part of its theorem. Displaying recurses once for each level, and creating a directory once for each
  parent, of which the length of the path is a bound; that these return is stated by their theorems.

  \<^bold>\<open>Not modelled.\<close> The error state of output streams: writing to standard output or to the stream of the
  profiler succeeds. Copying a value onto itself (\<^verbatim>\<open>Value::SetValue\<close> takes two values). Threads: the jobs of other threads enter as entries of the queue, the thread of the
  installer runs as one step between those of the main thread, and the mutexes, except that of the installer,
  have no counterpart. Reference counts of the binding layer: its objects stay in the store, except
  listeners and loggers, whose deletion the code does by hand. The bindings to JavaScriptCore, Python, PHP and Ruby, whose
  work is done by third-party interpreters. The hosts and boot programs of
  the other platforms and the installer. Vendored code: the unzip library and the crash reporter.
\<close>

end
